(* ===== verification/Prelude.thy ===== *)
theory Prelude
  imports Main "HOL-Library.Word"
begin

unbundle bit_operations_syntax

text \<open>
  Shared vocabulary of the development.

  \<^item> The machine integers of the crate: \<open>u8\<close> .. \<open>u64\<close> are words; signed integers are the
    words with the same bits, read through \<open>sint\<close>. A \<open>usize\<close> (64-bit target) is a \<open>nat\<close> whose
    arithmetic is checked at \<open>2 ^ 64\<close>.
  \<^item> The outcome of a fallible function: \<open>Ok\<close>, \<open>Err\<close> (a Rust \<open>Result\<close> error) or \<open>Panic\<close>
    (a failed \<open>assert!\<close> or \<open>debug_assert!\<close>, an \<open>unwrap\<close> on \<open>None\<close>, an index out of range, an
    arithmetic overflow: the profile with debug assertions and overflow checks).
  \<^item> Byte strings of integers: \<open>le_bytes\<close> and \<open>le_val\<close> are the little-endian digits of a number
    to the base 256.
\<close>

section \<open>Integers and byte strings\<close>

type_synonym u8 = "8 word"
type_synonym u16 = "16 word"
type_synonym u32 = "32 word"
type_synonym u64 = "64 word"
type_synonym i32 = "32 word"
type_synonym i64 = "64 word"
type_synonym usize = nat
type_synonym bytes = "u8 list"

named_theorems res_simps "equations of the outcome monad"
named_theorems len_simps "lengths of encoded structures"

section \<open>Outcomes\<close>

datatype ('a, 'e) result = Ok 'a | Err 'e | Panic

fun and_then :: "('a, 'e) result \<Rightarrow> ('a \<Rightarrow> ('b, 'e) result) \<Rightarrow> ('b, 'e) result" where
  "and_then (Ok a) f = f a"
| "and_then (Err e) f = Err e"
| "and_then Panic f = Panic"

definition debug_assert :: "bool \<Rightarrow> ('b, 'e) result \<Rightarrow> ('b, 'e) result" where
  "debug_assert b r = (if b then r else Panic)"

definition ok_or :: "'a option \<Rightarrow> 'e \<Rightarrow> ('a, 'e) result" where
  "ok_or x e = (case x of None \<Rightarrow> Err e | Some a \<Rightarrow> Ok a)"

definition unwrap :: "'a option \<Rightarrow> ('a, 'e) result" where
  "unwrap x = (case x of None \<Rightarrow> Panic | Some a \<Rightarrow> Ok a)"

definition read_error :: "('a, 'd) result \<Rightarrow> string \<Rightarrow> ('a, string) result" where
  "read_error r msg = (case r of Ok a \<Rightarrow> Ok a | Err _ \<Rightarrow> Err msg | Panic \<Rightarrow> Panic)"

definition index_list :: "'a list \<Rightarrow> nat \<Rightarrow> ('a, 'e) result" where
  "index_list xs i = (if i < length xs then Ok (xs ! i) else Panic)"

definition usize_max :: nat where
  "usize_max = 2 ^ 64 - 1"

definition usize_add :: "nat \<Rightarrow> nat \<Rightarrow> (nat, 'e) result" where
  "usize_add a b = (if a + b \<le> usize_max then Ok (a + b) else Panic)"

definition usize_sub :: "nat \<Rightarrow> nat \<Rightarrow> (nat, 'e) result" where
  "usize_sub a b = (if b \<le> a then Ok (a - b) else Panic)"

definition usize_mul :: "nat \<Rightarrow> nat \<Rightarrow> (nat, 'e) result" where
  "usize_mul a b = (if a * b \<le> usize_max then Ok (a * b) else Panic)"

definition word_add :: "'w::len word \<Rightarrow> 'w word \<Rightarrow> ('w word, 'e) result" where
  "word_add a b = (if unat a + unat b < 2 ^ LENGTH('w) then Ok (a + b) else Panic)"

definition word_sub :: "'w::len word \<Rightarrow> 'w word \<Rightarrow> ('w word, 'e) result" where
  "word_sub a b = (if b \<le> a then Ok (a - b) else Panic)"

definition word_mul :: "'w::len word \<Rightarrow> 'w word \<Rightarrow> ('w word, 'e) result" where
  "word_mul a b = (if unat a * unat b < 2 ^ LENGTH('w) then Ok (a * b) else Panic)"

definition word_rem :: "'w::len word \<Rightarrow> 'w word \<Rightarrow> ('w word, 'e) result" where
  "word_rem a b = (if b = 0 then Panic else Ok (a mod b))"

definition word_shr :: "'w::len word \<Rightarrow> nat \<Rightarrow> ('w word, 'e) result" where
  "word_shr a n = (if n < LENGTH('w) then Ok (drop_bit n a) else Panic)"

definition word_shl :: "'w::len word \<Rightarrow> nat \<Rightarrow> ('w word, 'e) result" where
  "word_shl a n = (if n < LENGTH('w) then Ok (push_bit n a) else Panic)"

definition word_checked_add :: "'w::len word \<Rightarrow> 'w word \<Rightarrow> 'w word option" where
  "word_checked_add a b = (if unat a + unat b < 2 ^ LENGTH('w) then Some (a + b) else None)"

definition word_checked_sub :: "'w::len word \<Rightarrow> 'w word \<Rightarrow> 'w word option" where
  "word_checked_sub a b = (if b \<le> a then Some (a - b) else None)"

definition word_checked_mul :: "'w::len word \<Rightarrow> 'w word \<Rightarrow> 'w word option" where
  "word_checked_mul a b = (if unat a * unat b < 2 ^ LENGTH('w) then Some (a * b) else None)"

definition word_saturating_add :: "'w::len word \<Rightarrow> 'w word \<Rightarrow> 'w word" where
  "word_saturating_add a b = (case word_checked_add a b of Some c \<Rightarrow> c | None \<Rightarrow> -1)"

definition isize_max :: nat where
  "isize_max = 2 ^ 63 - 1"

text \<open>The bytes of an ASCII string literal.\<close>

definition ascii :: "string \<Rightarrow> bytes" where
  "ascii s = map of_char s"

lemma and_then_cong [fundef_cong]:
  "m = n \<Longrightarrow> (\<And>a. n = Ok a \<Longrightarrow> f a = g a) \<Longrightarrow> and_then m f = and_then n g"
  by (cases n) auto

lemma and_then_eq_Ok [res_simps]:
  "and_then m f = Ok b \<longleftrightarrow> (\<exists>a. m = Ok a \<and> f a = Ok b)"
  by (cases m) auto

lemma Ok_eq_and_then [res_simps]:
  "Ok b = and_then m f \<longleftrightarrow> (\<exists>a. m = Ok a \<and> f a = Ok b)"
  by (cases m) auto

lemma and_then_eq_Panic:
  "and_then m f = Panic \<longleftrightarrow> m = Panic \<or> (\<exists>a. m = Ok a \<and> f a = Panic)"
  by (cases m) auto

lemma and_then_split:
  "P (and_then m f) \<longleftrightarrow>
    (\<forall>a. m = Ok a \<longrightarrow> P (f a)) \<and> (\<forall>e. m = Err e \<longrightarrow> P (Err e)) \<and> (m = Panic \<longrightarrow> P Panic)"
  by (cases m) auto

lemma and_then_assoc: "and_then (and_then m f) g = and_then m (\<lambda>a. and_then (f a) g)"
  by (cases m) auto

lemma and_then_Ok [simp]: "and_then m Ok = m"
  by (cases m) auto

lemma debug_assert_True [simp]: "debug_assert True r = r"
  by (simp add: debug_assert_def)

lemma debug_assert_holds [res_simps]: "b \<Longrightarrow> debug_assert b r = r"
  by (simp add: debug_assert_def)

lemma debug_assert_eq_Ok [res_simps]: "debug_assert b r = Ok a \<longleftrightarrow> b \<and> r = Ok a"
  by (simp add: debug_assert_def)

lemma ok_or_eq_Ok [res_simps]: "ok_or x e = Ok a \<longleftrightarrow> x = Some a"
  by (cases x) (auto simp: ok_or_def)

lemma ok_or_simps [simp]: "ok_or (Some a) e = Ok a" "ok_or None e = Err e"
  by (simp_all add: ok_or_def)

lemma unwrap_eq_Ok [res_simps]: "unwrap x = Ok a \<longleftrightarrow> x = Some a"
  by (cases x) (auto simp: unwrap_def)

lemma unwrap_simps [simp]: "unwrap (Some a) = Ok a" "unwrap None = Panic"
  by (simp_all add: unwrap_def)

lemma read_error_simps [simp]:
  "read_error (Ok a) m = Ok a" "read_error (Err e) m = Err m" "read_error Panic m = Panic"
  by (simp_all add: read_error_def)

lemma read_error_eq_Ok [res_simps]: "read_error r m = Ok a \<longleftrightarrow> r = Ok a"
  by (cases r) auto

lemma read_error_eq_Panic [res_simps]: "read_error r m = Panic \<longleftrightarrow> r = Panic"
  by (cases r) auto

lemma index_list_Ok [res_simps]: "i < length xs \<Longrightarrow> index_list xs i = Ok (xs ! i)"
  by (simp add: index_list_def)

lemma index_list_eq_Ok [res_simps]: "index_list xs i = Ok a \<longleftrightarrow> i < length xs \<and> a = xs ! i"
  by (auto simp: index_list_def)

lemma usize_add_eq_Ok [res_simps]: "usize_add a b = Ok c \<longleftrightarrow> c = a + b \<and> a + b \<le> usize_max"
  by (auto simp: usize_add_def)

lemma usize_sub_eq_Ok [res_simps]: "usize_sub a b = Ok c \<longleftrightarrow> c = a - b \<and> b \<le> a"
  by (auto simp: usize_sub_def)

lemma usize_mul_eq_Ok [res_simps]: "usize_mul a b = Ok c \<longleftrightarrow> c = a * b \<and> a * b \<le> usize_max"
  by (auto simp: usize_mul_def)

lemma word_add_eq_Ok [res_simps]:
  "word_add a b = Ok c \<longleftrightarrow> c = a + b \<and> unat a + unat b < 2 ^ LENGTH('w)"
  for a b c :: "'w::len word"
  by (auto simp: word_add_def)

lemma word_sub_eq_Ok [res_simps]: "word_sub a b = Ok c \<longleftrightarrow> c = a - b \<and> b \<le> a"
  by (auto simp: word_sub_def)

lemma word_mul_eq_Ok [res_simps]:
  "word_mul a b = Ok c \<longleftrightarrow> c = a * b \<and> unat a * unat b < 2 ^ LENGTH('w)"
  for a b c :: "'w::len word"
  by (auto simp: word_mul_def)

lemma word_rem_eq_Ok [res_simps]: "word_rem a b = Ok c \<longleftrightarrow> c = a mod b \<and> b \<noteq> 0"
  by (auto simp: word_rem_def)

lemma word_shr_eq_Ok [res_simps]: "word_shr a n = Ok c \<longleftrightarrow> c = drop_bit n a \<and> n < LENGTH('w)"
  for a c :: "'w::len word"
  by (auto simp: word_shr_def)

lemma word_shl_eq_Ok [res_simps]: "word_shl a n = Ok c \<longleftrightarrow> c = push_bit n a \<and> n < LENGTH('w)"
  for a c :: "'w::len word"
  by (auto simp: word_shl_def)

lemma word_checked_add_eq_Some [res_simps]:
  "word_checked_add a b = Some c \<longleftrightarrow> c = a + b \<and> unat a + unat b < 2 ^ LENGTH('w)"
  for a b c :: "'w::len word"
  by (auto simp: word_checked_add_def)

lemma word_checked_sub_eq_Some [res_simps]:
  "word_checked_sub a b = Some c \<longleftrightarrow> c = a - b \<and> b \<le> a"
  by (auto simp: word_checked_sub_def)

lemma unat_add_no_overflow:
  "unat a + unat b < 2 ^ LENGTH('w) \<Longrightarrow> unat (a + b) = unat a + unat b"
  for a b :: "'w::len word"
  by (simp add: unat_word_ariths)

lemma unat_ucast_le:
  fixes w :: "'a::len word"
  assumes "LENGTH('a) \<le> LENGTH('b::len)"
  shows "unat (ucast w :: 'b word) = unat w"
proof -
  have "unat w < 2 ^ LENGTH('b)"
    using unsigned_less [of w, where ?'a = nat] assms
    by (meson order.strict_trans2 one_le_numeral power_increasing)
  then show ?thesis by (simp add: unsigned_ucast_eq take_bit_nat_eq_self)
qed

lemma unat_ucast_small:
  fixes w :: "'a::len word"
  assumes "unat w < 2 ^ LENGTH('b::len)"
  shows "unat (ucast w :: 'b word) = unat w"
  using assms by (simp add: unsigned_ucast_eq take_bit_nat_eq_self)

lemma unat_sub_no_underflow: "b \<le> a \<Longrightarrow> unat (a - b) = unat a - unat b"
  for a b :: "'w::len word"
  by (simp add: unat_sub)

section \<open>Digits to the base 256\<close>

fun le_bytes :: "nat \<Rightarrow> nat \<Rightarrow> bytes" where
  "le_bytes 0 n = []"
| "le_bytes (Suc k) n = word_of_nat (n mod 256) # le_bytes k (n div 256)"

fun le_val :: "bytes \<Rightarrow> nat" where
  "le_val [] = 0"
| "le_val (b # bs) = unat b + 256 * le_val bs"

lemma le_bytes_numeral:
  "le_bytes (numeral k) n = word_of_nat (n mod 256) # le_bytes (pred_numeral k) (n div 256)"
  by (simp only: numeral_eq_Suc [of k] le_bytes.simps)

lemma length_le_bytes [simp]: "length (le_bytes k n) = k"
  by (induction k arbitrary: n) auto

lemma unat_u8_bound: "unat (b :: u8) < 256"
  using unsigned_less [of b] by simp

lemma unat_u32_bound: "unat (w :: u32) < 2 ^ 32"
  using unsigned_less [of w, where ?'a = nat] by simp

lemma le_val_bound: "le_val bs < 256 ^ length bs"
proof (induction bs)
  case Nil
  then show ?case by simp
next
  case (Cons b bs)
  have "unat b + 256 * le_val bs < 256 + 256 * le_val bs"
    using unat_u8_bound [of b] by simp
  also have "\<dots> = 256 * Suc (le_val bs)" by simp
  also have "\<dots> \<le> 256 * 256 ^ length bs"
    using Cons.IH by (intro mult_le_mono2) simp
  finally show ?case by simp
qed

lemma le_val_le_bytes: "le_val (le_bytes k n) = n mod 256 ^ k"
proof (induction k arbitrary: n)
  case 0
  then show ?case by simp
next
  case (Suc k)
  have "unat (word_of_nat (n mod 256) :: u8) = n mod 256"
    by (simp add: unat_of_nat)
  then have "le_val (le_bytes (Suc k) n) = n mod 256 + 256 * (n div 256 mod 256 ^ k)"
    by (simp add: Suc.IH)
  also have "\<dots> = n mod (256 * 256 ^ k)"
    by (simp add: mod_mult2_eq)
  finally show ?case by simp
qed

lemma word_of_nat_unat_u8: "word_of_nat (unat b) = (b :: u8)"
  by simp

lemma le_bytes_le_val: "le_bytes (length bs) (le_val bs) = bs"
proof (induction bs)
  case Nil
  then show ?case by simp
next
  case (Cons b bs)
  have m: "(unat b + 256 * le_val bs) mod 256 = unat b"
    using unat_u8_bound [of b] by simp
  have d: "(unat b + 256 * le_val bs) div 256 = le_val bs"
    using unat_u8_bound [of b] by simp
  show ?case by (simp only: list.size le_val.simps le_bytes.simps m d Cons.IH add_Suc_right
        add_0_right word_of_nat_unat_u8)
qed

lemma le_bytes_0: "le_bytes k 0 = replicate k 0"
  by (induction k) auto

section \<open>Lists\<close>

definition get_from :: "'a list \<Rightarrow> nat \<Rightarrow> 'a list option" where
  "get_from xs i = (if i \<le> length xs then Some (drop i xs) else None)"

definition get_to :: "'a list \<Rightarrow> nat \<Rightarrow> 'a list option" where
  "get_to xs i = (if i \<le> length xs then Some (take i xs) else None)"

definition get_range :: "'a list \<Rightarrow> nat \<Rightarrow> nat \<Rightarrow> 'a list option" where
  "get_range xs i j = (if i \<le> j \<and> j \<le> length xs then Some (take (j - i) (drop i xs)) else None)"

definition get_opt :: "'a list \<Rightarrow> nat \<Rightarrow> 'a option" where
  "get_opt xs i = (if i < length xs then Some (xs ! i) else None)"

lemma get_from_eq_Some [res_simps]: "get_from xs i = Some ys \<longleftrightarrow> i \<le> length xs \<and> ys = drop i xs"
  by (auto simp: get_from_def)

lemma get_to_eq_Some [res_simps]: "get_to xs i = Some ys \<longleftrightarrow> i \<le> length xs \<and> ys = take i xs"
  by (auto simp: get_to_def)

lemma get_range_eq_Some [res_simps]:
  "get_range xs i j = Some ys \<longleftrightarrow> i \<le> j \<and> j \<le> length xs \<and> ys = take (j - i) (drop i xs)"
  by (auto simp: get_range_def)

lemma get_opt_eq_Some [res_simps]: "get_opt xs i = Some x \<longleftrightarrow> i < length xs \<and> x = xs ! i"
  by (auto simp: get_opt_def)

definition list_assign :: "nat \<Rightarrow> 'a \<Rightarrow> 'a list \<Rightarrow> ('a list, 'e) result" where
  "list_assign i v xs = (if i < length xs then Ok (xs[i := v]) else Panic)"

lemma list_assign_eq_Ok [res_simps]: "list_assign i v xs = Ok ys \<longleftrightarrow> i < length xs \<and> ys = xs[i := v]"
  by (auto simp: list_assign_def)

text \<open>The slice of \<open>n\<close> bytes that starts at \<open>off\<close>: the place of a structure in a file.\<close>

definition slice_at :: "'a list \<Rightarrow> nat \<Rightarrow> nat \<Rightarrow> 'a list" where
  "slice_at xs off n = take n (drop off xs)"

lemma slice_at_append_left: "off + n \<le> length xs \<Longrightarrow> slice_at (xs @ ys) off n = slice_at xs off n"
  by (simp add: slice_at_def)

lemma slice_at_append_right [simp]: "slice_at (xs @ ys) (length xs) (length ys) = ys"
  by (simp add: slice_at_def)

lemma slice_at_middle: "off = length xs \<Longrightarrow> n = length ys \<Longrightarrow> slice_at (xs @ ys @ zs) off n = ys"
  by (simp add: slice_at_def)

end
