(* ===== verification/Endian.thy ===== *)
theory Endian
  imports Prelude
begin

text \<open>
  \<^verbatim>\<open>src/endian.rs\<close>: run-time and compile-time byte orders and the endian-aware integer types.

  The integers of one width differ only in the width, so each operation of the trait
  \<^verbatim>\<open>Endian\<close> is one polymorphic definition over \<open>'w word\<close>, used at 16, 32 and 64 bits; the
  signed variants are the same functions on the two's complement bits. The trait itself is the
  locale \<open>endian\<close>: its required methods are the parameters, its provided methods are the
  top-level definitions over these parameters.
\<close>

section \<open>Integers and their bytes\<close>

definition to_le_bytes :: "'w::len word \<Rightarrow> bytes" where
  "to_le_bytes w = le_bytes (LENGTH('w) div 8) (unat w)"

definition to_be_bytes :: "'w::len word \<Rightarrow> bytes" where
  "to_be_bytes w = rev (to_le_bytes w)"

definition from_le_bytes :: "bytes \<Rightarrow> 'w::len word" where
  "from_le_bytes bs = word_of_nat (le_val bs)"

definition from_be_bytes :: "bytes \<Rightarrow> 'w::len word" where
  "from_be_bytes bs = from_le_bytes (rev bs)"

definition swap_bytes :: "'w::len word \<Rightarrow> 'w word" where
  "swap_bytes w = from_be_bytes (to_le_bytes w)"

section \<open>The byte orders\<close>

datatype endianness = Little | Big

datatype little_endian = LittleEndian

datatype big_endian = BigEndian

definition Endianness_from_big_endian :: "bool \<Rightarrow> endianness option" where
  "Endianness_from_big_endian big_endian = Some (if big_endian then Big else Little)"

definition is_big_endian :: "endianness \<Rightarrow> bool" where
  "is_big_endian e \<longleftrightarrow> e \<noteq> Little"

definition LittleEndian_from_big_endian :: "bool \<Rightarrow> little_endian option" where
  "LittleEndian_from_big_endian big_endian = (if big_endian then None else Some LittleEndian)"

definition LittleEndian_is_big_endian :: "little_endian \<Rightarrow> bool" where
  "LittleEndian_is_big_endian e = False"

definition BigEndian_from_big_endian :: "bool \<Rightarrow> big_endian option" where
  "BigEndian_from_big_endian big_endian = (if big_endian then Some BigEndian else None)"

definition BigEndian_is_big_endian :: "big_endian \<Rightarrow> bool" where
  "BigEndian_is_big_endian e = True"

section \<open>Provided methods of the trait\<close>

definition from_little_endian :: "(bool \<Rightarrow> 'e option) \<Rightarrow> bool \<Rightarrow> 'e option" where
  "from_little_endian from_big little_endian = from_big (\<not> little_endian)"

definition is_little_endian :: "('e \<Rightarrow> bool) \<Rightarrow> 'e \<Rightarrow> bool" where
  "is_little_endian is_big e \<longleftrightarrow> \<not> is_big e"

text \<open>
  The integers in native byte order depend on the target: \<open>t\<close> is the byte order of the
  machine that runs the code.
\<close>

definition to_be :: "endianness \<Rightarrow> 'w::len word \<Rightarrow> 'w word" where
  "to_be t n = (if t = Little then swap_bytes n else n)"

definition to_le :: "endianness \<Rightarrow> 'w::len word \<Rightarrow> 'w word" where
  "to_le t n = (if t = Little then n else swap_bytes n)"

definition to_ne_bytes :: "endianness \<Rightarrow> 'w::len word \<Rightarrow> bytes" where
  "to_ne_bytes t n = (if t = Little then to_le_bytes n else to_be_bytes n)"

definition from_ne_bytes :: "endianness \<Rightarrow> bytes \<Rightarrow> 'w::len word" where
  "from_ne_bytes t bs = (if t = Little then from_le_bytes bs else from_be_bytes bs)"

definition read_uint :: "('e \<Rightarrow> bool) \<Rightarrow> endianness \<Rightarrow> 'e \<Rightarrow> 'w::len word \<Rightarrow> 'w word" where
  "read_uint is_big t e n = (if is_big e then to_be t n else to_le t n)"

definition read_uint_bytes :: "('e \<Rightarrow> bool) \<Rightarrow> 'e \<Rightarrow> bytes \<Rightarrow> 'w::len word" where
  "read_uint_bytes is_big e n = (if is_big e then from_be_bytes n else from_le_bytes n)"

definition write_uint :: "('e \<Rightarrow> bool) \<Rightarrow> endianness \<Rightarrow> 'e \<Rightarrow> 'w::len word \<Rightarrow> 'w word" where
  "write_uint is_big t e n = (if is_big e then to_be t n else to_le t n)"

definition write_uint_bytes :: "('e \<Rightarrow> bool) \<Rightarrow> 'e \<Rightarrow> 'w::len word \<Rightarrow> bytes" where
  "write_uint_bytes is_big e n = (if is_big e then to_be_bytes n else to_le_bytes n)"

section \<open>Integers with an externally specified byte order\<close>

text \<open>
  With the default feature \<^verbatim>\<open>unaligned\<close> the types \<^verbatim>\<open>U16\<close> .. \<^verbatim>\<open>I64\<close> are the byte arrays
  \<^verbatim>\<open>U16Bytes\<close> .. \<^verbatim>\<open>I64Bytes\<close>. A value of such a type is its memory image.
\<close>

definition UBytes_new :: "('e \<Rightarrow> bool) \<Rightarrow> 'e \<Rightarrow> 'w::len word \<Rightarrow> bytes" where
  "UBytes_new is_big e n = write_uint_bytes is_big e n"

definition UBytes_get :: "('e \<Rightarrow> bool) \<Rightarrow> bytes \<Rightarrow> 'e \<Rightarrow> 'w::len word" where
  "UBytes_get is_big self e = read_uint_bytes is_big e self"

definition UBytes_set :: "('e \<Rightarrow> bool) \<Rightarrow> bytes \<Rightarrow> 'e \<Rightarrow> 'w::len word \<Rightarrow> bytes" where
  "UBytes_set is_big self e n = write_uint_bytes is_big e n"

text \<open>Without the feature they are native integers, whose memory image is \<open>to_ne_bytes\<close>.\<close>

definition UAligned_new :: "('e \<Rightarrow> bool) \<Rightarrow> endianness \<Rightarrow> 'e \<Rightarrow> 'w::len word \<Rightarrow> 'w word" where
  "UAligned_new is_big t e n = write_uint is_big t e n"

definition UAligned_get :: "('e \<Rightarrow> bool) \<Rightarrow> endianness \<Rightarrow> 'w::len word \<Rightarrow> 'e \<Rightarrow> 'w word" where
  "UAligned_get is_big t self e = read_uint is_big t e self"

definition UAligned_from_bytes :: "endianness \<Rightarrow> bytes \<Rightarrow> 'w::len word" where
  "UAligned_from_bytes t n = from_ne_bytes t n"

text \<open>The types at the run-time byte order \<^verbatim>\<open>Endianness\<close>, as the file writers use them.\<close>

abbreviation U_new :: "endianness \<Rightarrow> 'w::len word \<Rightarrow> bytes" where
  "U_new \<equiv> UBytes_new is_big_endian"

abbreviation U_get :: "bytes \<Rightarrow> endianness \<Rightarrow> 'w::len word" where
  "U_get \<equiv> UBytes_get is_big_endian"

section \<open>Round trips\<close>

lemma length_to_le_bytes [simp]: "length (to_le_bytes w) = LENGTH('w) div 8"
  for w :: "'w::len word"
  by (simp add: to_le_bytes_def)

lemma length_to_be_bytes [simp]: "length (to_be_bytes w) = LENGTH('w) div 8"
  for w :: "'w::len word"
  by (simp add: to_be_bytes_def)

lemma pow_256_div_8: "8 dvd k \<Longrightarrow> 256 ^ (k div 8) = (2 :: nat) ^ k"
proof -
  assume "8 dvd k"
  then have "(2 :: nat) ^ k = 2 ^ (8 * (k div 8))" by simp
  also have "\<dots> = (2 ^ 8) ^ (k div 8)" by (rule power_mult)
  finally show ?thesis by simp
qed

lemma from_le_bytes_to_le_bytes:
  fixes w :: "'w::len word"
  assumes "8 dvd LENGTH('w)"
  shows "from_le_bytes (to_le_bytes w) = w"
  using assms unsigned_less [of w]
  by (simp add: from_le_bytes_def to_le_bytes_def le_val_le_bytes pow_256_div_8)

lemma to_le_bytes_from_le_bytes:
  assumes "8 dvd LENGTH('w::len)" "length bs = LENGTH('w) div 8"
  shows "to_le_bytes (from_le_bytes bs :: 'w word) = bs"
proof -
  have "le_val bs < 2 ^ LENGTH('w)"
    using le_val_bound [of bs] assms by (simp add: pow_256_div_8)
  then have "unat (word_of_nat (le_val bs) :: 'w word) = le_val bs"
    by (simp add: unat_of_nat)
  then show ?thesis
    using assms(2) by (simp add: to_le_bytes_def from_le_bytes_def)
      (metis le_bytes_le_val)
qed

lemma from_be_bytes_to_be_bytes:
  "8 dvd LENGTH('w) \<Longrightarrow> from_be_bytes (to_be_bytes w) = w" for w :: "'w::len word"
  by (simp add: from_be_bytes_def to_be_bytes_def from_le_bytes_to_le_bytes)

lemma to_be_bytes_from_be_bytes:
  "8 dvd LENGTH('w::len) \<Longrightarrow> length bs = LENGTH('w) div 8 \<Longrightarrow>
    to_be_bytes (from_be_bytes bs :: 'w word) = bs"
  by (simp add: from_be_bytes_def to_be_bytes_def to_le_bytes_from_le_bytes)

lemma to_le_bytes_swap: "8 dvd LENGTH('w) \<Longrightarrow> to_le_bytes (swap_bytes w) = to_be_bytes w"
  for w :: "'w::len word"
  by (simp add: swap_bytes_def from_be_bytes_def to_be_bytes_def to_le_bytes_from_le_bytes)

lemma to_be_bytes_swap: "8 dvd LENGTH('w) \<Longrightarrow> to_be_bytes (swap_bytes w) = to_le_bytes w"
  for w :: "'w::len word"
  by (simp add: to_be_bytes_def to_le_bytes_swap)

lemma swap_from_le_bytes:
  assumes "8 dvd LENGTH('w::len)" "length bs = LENGTH('w) div 8"
  shows "swap_bytes (from_le_bytes bs :: 'w word) = from_be_bytes bs"
  using assms by (simp add: swap_bytes_def to_le_bytes_from_le_bytes)

lemma swap_swap: "8 dvd LENGTH('w) \<Longrightarrow> swap_bytes (swap_bytes w) = w" for w :: "'w::len word"
  by (simp add: swap_bytes_def [of "swap_bytes w"] to_le_bytes_swap from_be_bytes_to_be_bytes)

lemma swap_from_be_bytes:
  assumes "8 dvd LENGTH('w::len)" "length bs = LENGTH('w) div 8"
  shows "swap_bytes (from_be_bytes bs :: 'w word) = from_le_bytes bs"
  using assms swap_swap [of "from_le_bytes bs :: 'w word"] by (simp add: swap_from_le_bytes)

lemma length_UBytes_new [simp]: "length (UBytes_new is_big e w) = LENGTH('w) div 8"
  for w :: "'w::len word"
  by (simp add: UBytes_new_def write_uint_bytes_def)

lemma UBytes_get_new:
  "8 dvd LENGTH('w) \<Longrightarrow> UBytes_get is_big (UBytes_new is_big e w) e = w" for w :: "'w::len word"
  by (simp add: UBytes_get_def UBytes_new_def read_uint_bytes_def write_uint_bytes_def
      from_be_bytes_to_be_bytes from_le_bytes_to_le_bytes)

lemma UBytes_new_get:
  "8 dvd LENGTH('w::len) \<Longrightarrow> length bs = LENGTH('w) div 8 \<Longrightarrow>
    UBytes_new is_big e (UBytes_get is_big bs e :: 'w word) = bs"
  by (simp add: UBytes_get_def UBytes_new_def read_uint_bytes_def write_uint_bytes_def
      to_be_bytes_from_be_bytes to_le_bytes_from_le_bytes)

lemma U_get_new [simp]:
  "U_get (U_new e (a :: 8 word)) e = a"
  "U_get (U_new e (b :: 16 word)) e = b"
  "U_get (U_new e (c :: 32 word)) e = c"
  "U_get (U_new e (d :: 64 word)) e = d"
  by (simp_all add: UBytes_get_new)

lemma UAligned_get_new:
  "8 dvd LENGTH('w) \<Longrightarrow> UAligned_get is_big t (UAligned_new is_big t e w) e = w"
  for w :: "'w::len word"
  by (simp add: UAligned_get_def UAligned_new_def read_uint_def write_uint_def to_be_def to_le_def
      swap_swap)

lemma to_ne_bytes_to_be:
  "8 dvd LENGTH('w) \<Longrightarrow> to_ne_bytes t (to_be t w) = to_be_bytes w"
  "8 dvd LENGTH('w) \<Longrightarrow> to_ne_bytes t (to_le t w) = to_le_bytes w" for w :: "'w::len word"
  by (simp_all add: to_ne_bytes_def to_be_def to_le_def to_le_bytes_swap to_be_bytes_swap)

lemma to_be_from_ne_bytes:
  assumes "8 dvd LENGTH('w::len)" "length bs = LENGTH('w) div 8"
  shows "to_be t (from_ne_bytes t bs :: 'w word) = from_be_bytes bs"
    and "to_le t (from_ne_bytes t bs :: 'w word) = from_le_bytes bs"
  using assms
  by (simp_all add: from_ne_bytes_def to_be_def to_le_def swap_from_le_bytes swap_from_be_bytes)

lemma aligned_image_eq_bytes:
  "8 dvd LENGTH('w) \<Longrightarrow> to_ne_bytes t (UAligned_new is_big t e w) = UBytes_new is_big e w"
  for w :: "'w::len word"
  by (simp add: UAligned_new_def UBytes_new_def write_uint_def write_uint_bytes_def
      to_ne_bytes_to_be)

lemma aligned_get_eq_bytes:
  assumes "8 dvd LENGTH('w::len)" "length bs = LENGTH('w) div 8"
  shows "UAligned_get is_big t (UAligned_from_bytes t bs :: 'w word) e = UBytes_get is_big bs e"
  using assms
  by (simp add: UAligned_get_def UAligned_from_bytes_def UBytes_get_def read_uint_def
      read_uint_bytes_def to_be_from_ne_bytes)

section \<open>The trait as an interface\<close>

text \<open>
  What a client of \<^verbatim>\<open>Endian\<close> relies on: a specification obtained for a byte order answers for
  that order, and (with the provided methods) reading undoes writing.
\<close>

locale endian =
  fixes from_big :: "bool \<Rightarrow> 'e option"
    and is_big :: "'e \<Rightarrow> bool"
  assumes from_big_Some: "from_big b = Some e \<Longrightarrow> is_big e = b"
    and from_big_self: "from_big (is_big e) = Some e"
begin

lemma from_little_Some: "from_little_endian from_big b = Some e \<Longrightarrow> is_little_endian is_big e = b"
  by (auto simp: from_little_endian_def is_little_endian_def dest: from_big_Some)

lemma from_big_inj: "from_big b = Some e \<Longrightarrow> from_big b' = Some e \<Longrightarrow> b = b'"
  using from_big_Some by blast

lemma supported_order_determines:
  assumes "is_big e = is_big d"
  shows "e = d"
proof -
  have "Some e = from_big (is_big e)" by (simp only: from_big_self)
  also have "\<dots> = Some d" by (simp only: assms from_big_self)
  finally show ?thesis by simp
qed

end

lemma little_endian_unit: "e = LittleEndian"
  by (cases e) simp

lemma big_endian_unit: "e = BigEndian"
  by (cases e) simp

lemma endianness_cases: "(if e \<noteq> Little then Big else Little) = e"
  by (cases e) simp_all

interpretation run_time: endian Endianness_from_big_endian is_big_endian
  by unfold_locales (auto simp: Endianness_from_big_endian_def is_big_endian_def endianness_cases)

interpretation little: endian LittleEndian_from_big_endian LittleEndian_is_big_endian
  by unfold_locales (auto simp: LittleEndian_from_big_endian_def LittleEndian_is_big_endian_def
      little_endian_unit [symmetric] split: if_splits)

interpretation big: endian BigEndian_from_big_endian BigEndian_is_big_endian
  by unfold_locales (auto simp: BigEndian_from_big_endian_def BigEndian_is_big_endian_def
      big_endian_unit [symmetric] split: if_splits)

section \<open>Properties\<close>

text \<open>C15: an integer stored in a byte order is read back, in the byte-array types and in the aligned types, and both have the same memory image.\<close>

theorem integer_images:
  fixes n :: "'w::len word"
  assumes "8 dvd LENGTH('w)"
  shows "UBytes_get is_big (UBytes_new is_big e n) e = n \<and>
    UAligned_get is_big t (UAligned_new is_big t e n) e = n \<and>
    to_ne_bytes t (UAligned_new is_big t e n) = UBytes_new is_big e n"
  using assms by (simp add: UBytes_get_new UAligned_get_new aligned_image_eq_bytes)

theorem integer_images_witness:
  "UBytes_get is_big_endian (UBytes_new is_big_endian Big (0x12345678 :: u32)) Big = (0x12345678 :: u32) \<and>
   to_ne_bytes Little (UAligned_new is_big_endian Little Big (0x12345678 :: u32)) = [0x12, 0x34, 0x56, 0x78]"
  using integer_images [of is_big_endian Big "0x12345678 :: u32" Little]
  by (simp add: UBytes_new_def write_uint_bytes_def is_big_endian_def to_be_bytes_def to_le_bytes_def le_bytes_numeral)

end
