(* ===== verification/Struct_Fields.thy ===== *)
theory Struct_Fields
  imports Endian
begin

text \<open>
  The fields of \<^verbatim>\<open>#[repr(C)]\<close> structures: the images of all file formats are concatenations of
  endian-aware integers and byte arrays, which are read back in order.
\<close>

section \<open>Reading\<close>

text \<open>Reading the next field of an image: an endian-aware integer, raw bytes, a single byte.\<close>

definition fld :: "endianness \<Rightarrow> bytes \<Rightarrow> 'w::len word \<times> bytes" where
  "fld e bs = (U_get (take (LENGTH('w) div 8) bs) e, drop (LENGTH('w) div 8) bs)"

definition fld_bytes :: "nat \<Rightarrow> bytes \<Rightarrow> bytes \<times> bytes" where
  "fld_bytes n bs = (take n bs, drop n bs)"

fun fld_byte :: "bytes \<Rightarrow> u8 \<times> bytes" where
  "fld_byte [] = (0, [])"
| "fld_byte (b # bs) = (b, bs)"

lemma fld_U_new [simp]:
  fixes w :: "'w::len word"
  assumes "8 dvd LENGTH('w)"
  shows "fld e (U_new e w @ rest) = (w, rest)" "fld e (U_new e w) = (w, [])"
  using assms by (simp_all add: fld_def UBytes_get_new)

lemma fld_bytes_append [simp]: "length x = n \<Longrightarrow> fld_bytes n (x @ rest) = (x, rest)"
  by (simp add: fld_bytes_def)

end
