(* ===== verification/Pod.thy ===== *)
theory Pod
  imports Prelude
begin

text \<open>
  \<^verbatim>\<open>src/pod.rs\<close>: casts between byte slices and structures without padding. A reference to a
  structure of type \<^verbatim>\<open>T\<close> is modelled by the bytes it points to (its memory image), so a cast
  takes the sz and the alignment of \<^verbatim>\<open>T\<close> and the address of the slice. With the default feature
  \<^verbatim>\<open>unaligned\<close> every structure the crate reads has alignment 1.
\<close>

text \<open>A slice \<^verbatim>\<open>&[T]\<close> of \<open>cnt\<close> structures of \<open>sz\<close> bytes is the list of their images.\<close>

fun chunks :: "nat \<Rightarrow> nat \<Rightarrow> bytes \<Rightarrow> bytes list" where
  "chunks sz 0 bs = []"
| "chunks sz (Suc cnt) bs = take sz bs # chunks sz cnt (drop sz bs)"

definition from_bytes :: "nat \<Rightarrow> nat \<Rightarrow> nat \<Rightarrow> bytes \<Rightarrow> (bytes \<times> bytes, unit) result" where
  "from_bytes sz align ptr data =
    and_then (ok_or (get_from data sz) ()) (\<lambda>tail.
    if ptr mod align \<noteq> 0 then Err ()
    else Ok (take sz data, tail))"

definition slice_from_bytes ::
  "nat \<Rightarrow> nat \<Rightarrow> nat \<Rightarrow> bytes \<Rightarrow> nat \<Rightarrow> (bytes list \<times> bytes, unit) result" where
  "slice_from_bytes sz align ptr data cnt =
    (if cnt * sz > usize_max then Err ()
     else and_then (ok_or (get_from data (cnt * sz)) ()) (\<lambda>tail.
       if ptr mod align \<noteq> 0 then Err ()
       else Ok (chunks sz cnt data, tail)))"

definition slice_from_all_bytes ::
  "nat \<Rightarrow> nat \<Rightarrow> nat \<Rightarrow> bytes \<Rightarrow> (bytes list, unit) result" where
  "slice_from_all_bytes sz align ptr data =
    (if sz = 0 then Panic
     else and_then (slice_from_bytes sz align ptr data (length data div sz)) (\<lambda>(slice, tail).
       if tail \<noteq> [] then Err () else Ok slice))"

definition bytes_of :: "bytes \<Rightarrow> bytes" where
  "bytes_of val = val"

definition bytes_of_slice :: "bytes list \<Rightarrow> bytes" where
  "bytes_of_slice val = concat val"

text \<open>The alignment of the structures under the feature \<^verbatim>\<open>unaligned\<close>.\<close>

abbreviation from_bytes_1 :: "nat \<Rightarrow> bytes \<Rightarrow> (bytes \<times> bytes, unit) result" where
  "from_bytes_1 sz data \<equiv> from_bytes sz (Suc 0) 0 data"

abbreviation slice_from_bytes_1 ::
  "nat \<Rightarrow> bytes \<Rightarrow> nat \<Rightarrow> (bytes list \<times> bytes, unit) result" where
  "slice_from_bytes_1 sz data cnt \<equiv> slice_from_bytes sz (Suc 0) 0 data cnt"

lemma from_bytes_unaligned: "from_bytes sz (Suc 0) ptr data = from_bytes sz (Suc 0) 0 data"
  by (simp add: from_bytes_def)

lemma from_bytes_1_eq_Ok [res_simps]:
  "from_bytes_1 sz data = Ok r \<longleftrightarrow> sz \<le> length data \<and> r = (take sz data, drop sz data)"
  by (auto simp: from_bytes_def res_simps)

lemma from_bytes_1_append [simp]:
  "length x = sz \<Longrightarrow> from_bytes_1 sz (x @ rest) = Ok (x, rest)"
  by (simp add: from_bytes_1_eq_Ok)

lemma from_bytes_1_short [simp]: "length data < sz \<Longrightarrow> from_bytes_1 sz data = Err ()"
  by (simp add: from_bytes_def get_from_def)

lemma from_bytes_1_no_panic: "from_bytes_1 sz data \<noteq> Panic"
  by (auto simp: from_bytes_def get_from_def)

lemma length_chunks [simp]: "length (chunks sz cnt bs) = cnt"
  by (induction sz cnt bs rule: chunks.induct) auto

lemma concat_chunks: "concat (chunks sz cnt bs) = take (sz * cnt) bs"
proof (induction sz cnt bs rule: chunks.induct)
  case (1 sz bs)
  then show ?case by simp
next
  case (2 sz cnt bs)
  have "take sz bs @ take (sz * cnt) (drop sz bs) = take (sz + sz * cnt) bs"
    by (rule take_add [symmetric])
  with 2 show ?case by simp
qed

lemma chunks_concat:
  "(\<forall>x \<in> set xs. length x = sz) \<Longrightarrow> chunks sz (length xs) (concat xs @ rest) = xs"
  by (induction xs) auto

lemma length_concat_const:
  "(\<forall>x \<in> set xs. length x = sz) \<Longrightarrow> length (concat xs) = length xs * sz"
  by (induction xs) auto

lemma nth_chunks: "i < cnt \<Longrightarrow> chunks sz cnt bs ! i = slice_at bs (i * sz) sz"
proof (induction sz cnt bs arbitrary: i rule: chunks.induct)
  case (1 sz bs)
  then show ?case by simp
next
  case (2 sz cnt bs)
  then show ?case
    by (cases i) (simp_all add: slice_at_def add.commute)
qed

lemma slice_from_bytes_1_append [simp]:
  assumes "\<forall>x \<in> set xs. length x = sz" and "length (concat xs) \<le> usize_max"
  shows "slice_from_bytes_1 sz (concat xs @ rest) (length xs) = Ok (xs, rest)"
proof -
  have len: "length xs * sz = length (concat xs)"
    using assms(1) by (simp only: length_concat_const)
  have "\<not> length xs * sz > usize_max"
    using assms(2) by (simp only: len not_less)
  moreover have "get_from (concat xs @ rest) (length xs * sz) = Some rest"
    by (simp only: len get_from_def) simp
  ultimately show ?thesis
    using assms(1) by (simp add: slice_from_bytes_def chunks_concat)
qed

lemma slice_from_bytes_1_no_panic: "slice_from_bytes_1 sz data cnt \<noteq> Panic"
  by (auto simp: slice_from_bytes_def get_from_def)

lemma bytes_of_slice_inverse:
  assumes "sz > 0" "\<forall>x \<in> set xs. length x = sz" "length (concat xs) \<le> usize_max"
  shows "slice_from_all_bytes sz (Suc 0) 0 (bytes_of_slice xs) = Ok xs"
proof -
  have "length (concat xs) = length xs * sz"
    using assms(2) by (simp only: length_concat_const)
  then have "length (concat xs) div sz = length xs"
    using assms(1) by simp
  then show ?thesis
    using assms slice_from_bytes_1_append [of xs sz "[]"]
    by (simp add: slice_from_all_bytes_def bytes_of_slice_def)
qed

end
