(* ===== verification/Read_Ref.thy ===== *)
theory Read_Ref
  imports Pod
begin

text \<open>
  \<^verbatim>\<open>src/read/read_ref.rs\<close>: random access to a block of data. The definitions are the
  implementation of the trait \<^verbatim>\<open>ReadRef\<close> for an in-memory slice and the provided methods, which
  thread the offset (a \<open>u64\<close>) explicitly. The crate \<^verbatim>\<open>memchr\<close> is third-party code: the search
  function is a parameter, and \<open>memchr_spec\<close> is its documented behaviour.
\<close>

definition memchr_spec :: "(u8 \<Rightarrow> bytes \<Rightarrow> nat option) \<Rightarrow> bool" where
  "memchr_spec memchr \<longleftrightarrow>
    (\<forall>needle haystack. case memchr needle haystack of
       None \<Rightarrow> needle \<notin> set haystack
     | Some i \<Rightarrow> i < length haystack \<and> haystack ! i = needle \<and> needle \<notin> set (take i haystack))"

text \<open>A function with the documented behaviour, for concrete evaluations.\<close>

fun first_index :: "u8 \<Rightarrow> bytes \<Rightarrow> nat option" where
  "first_index needle [] = None"
| "first_index needle (x # xs) = (if x = needle then Some 0 else map_option Suc (first_index needle xs))"

lemma memchr_spec_first_index: "memchr_spec first_index"
proof -
  have "case first_index b xs of None \<Rightarrow> b \<notin> set xs
    | Some i \<Rightarrow> i < length xs \<and> xs ! i = b \<and> b \<notin> set (take i xs)" for b xs
    by (induction xs) (auto split: option.splits)
  then show ?thesis by (simp add: memchr_spec_def)
qed

lemma memchr_spec_case:
  "memchr_spec mc \<Longrightarrow> case mc b xs of None \<Rightarrow> b \<notin> set xs
    | Some i \<Rightarrow> i < length xs \<and> xs ! i = b \<and> b \<notin> set (take i xs)"
  by (simp only: memchr_spec_def)

lemma memchr_SomeD:
  "memchr_spec mc \<Longrightarrow> mc b xs = Some i \<Longrightarrow>
    i < length xs \<and> xs ! i = b \<and> b \<notin> set (take i xs)"
  using memchr_spec_case [of mc b xs] by simp

lemma memchr_None: "memchr_spec mc \<Longrightarrow> b \<notin> set xs \<Longrightarrow> mc b xs = None"
  using memchr_spec_case [of mc b xs] by (auto split: option.splits)

lemma memchr_NoneD: "memchr_spec mc \<Longrightarrow> mc b xs = None \<Longrightarrow> b \<notin> set xs"
  using memchr_spec_case [of mc b xs] by simp

lemma memchr_Some:
  assumes "memchr_spec mc" "b \<notin> set xs"
  shows "mc b (xs @ b # ys) = Some (length xs)"
proof -
  obtain i where i: "mc b (xs @ b # ys) = Some i"
    using memchr_NoneD [OF assms(1), of b "xs @ b # ys"] by auto
  note spec = memchr_SomeD [OF assms(1) i]
  have "\<not> i < length xs"
    using spec assms(2) by (metis nth_append nth_mem)
  moreover have "\<not> i > length xs"
  proof
    assume "i > length xs"
    then obtain k where "i = length xs + Suc k"
      by (metis add_Suc_right less_imp_Suc_add)
    then have "b \<in> set (take i (xs @ b # ys))" by simp
    then show False using spec by blast
  qed
  ultimately show ?thesis using i by simp
qed

section \<open>The slice implementation\<close>

definition slice_len :: "bytes \<Rightarrow> (u64, unit) result" where
  "slice_len self = Ok (word_of_nat (length self))"

definition read_bytes_at :: "bytes \<Rightarrow> u64 \<Rightarrow> u64 \<Rightarrow> (bytes, unit) result" where
  "read_bytes_at self offset sz =
    (if sz = 0 then Ok []
     else and_then (ok_or (get_from self (unat offset)) ()) (\<lambda>tail.
       ok_or (get_to tail (unat sz)) ()))"

definition read_bytes_at_until ::
  "(u8 \<Rightarrow> bytes \<Rightarrow> nat option) \<Rightarrow> bytes \<Rightarrow> u64 \<Rightarrow> u64 \<Rightarrow> u8 \<Rightarrow> (bytes, unit) result" where
  "read_bytes_at_until memchr self range_start range_end delimiter =
    and_then (ok_or (get_range self (unat range_start) (unat range_end)) ()) (\<lambda>bytes.
    case memchr delimiter bytes of
      Some len \<Rightarrow> ok_or (get_to bytes len) ()
    | None \<Rightarrow> Err ())"

section \<open>Provided methods\<close>

text \<open>The second component is the updated offset.\<close>

definition read_bytes :: "bytes \<Rightarrow> u64 \<Rightarrow> u64 \<Rightarrow> (bytes, unit) result \<times> u64" where
  "read_bytes self offset sz =
    (case read_bytes_at self offset sz of
       Ok bytes \<Rightarrow> (Ok bytes, offset + sz)
     | Err e \<Rightarrow> (Err e, offset)
     | Panic \<Rightarrow> (Panic, offset))"

definition read_pod :: "nat \<Rightarrow> bytes \<Rightarrow> u64 \<Rightarrow> (bytes, unit) result \<times> u64" where
  "read_pod size_of self offset =
    (case read_bytes self offset (word_of_nat size_of) of
       (r, offset') \<Rightarrow> (and_then r (\<lambda>bytes. and_then (from_bytes_1 size_of bytes) (\<lambda>(t, _). Ok t)),
                        offset'))"

definition read_pod_at :: "nat \<Rightarrow> bytes \<Rightarrow> u64 \<Rightarrow> (bytes, unit) result" where
  "read_pod_at size_of self offset = fst (read_pod size_of self offset)"

definition read_slice :: "nat \<Rightarrow> bytes \<Rightarrow> u64 \<Rightarrow> nat \<Rightarrow> (bytes list, unit) result \<times> u64" where
  "read_slice size_of self offset cnt =
    (if cnt * size_of > usize_max then (Err (), offset)
     else (case read_bytes self offset (word_of_nat (cnt * size_of)) of
       (r, offset') \<Rightarrow>
         (and_then r (\<lambda>bytes. and_then (slice_from_bytes_1 size_of bytes cnt) (\<lambda>(t, _). Ok t)),
          offset')))"

definition read_slice_at :: "nat \<Rightarrow> bytes \<Rightarrow> u64 \<Rightarrow> nat \<Rightarrow> (bytes list, unit) result" where
  "read_slice_at size_of self offset cnt = fst (read_slice size_of self offset cnt)"

section \<open>Behaviour\<close>

lemma read_bytes_at_eq_Ok:
  "read_bytes_at self offset sz = Ok bs \<longleftrightarrow>
    (if sz = 0 then bs = []
     else unat offset + unat sz \<le> length self \<and> bs = slice_at self (unat offset) (unat sz))"
  by (auto simp: read_bytes_at_def slice_at_def res_simps)

lemma read_bytes_at_ok:
  assumes "unat offset + unat sz \<le> length self"
  shows "read_bytes_at self offset sz = Ok (slice_at self (unat offset) (unat sz))"
proof (cases "sz = 0")
  case True
  then show ?thesis by (simp add: read_bytes_at_def slice_at_def)
next
  case False
  then show ?thesis using assms by (simp add: read_bytes_at_eq_Ok)
qed

lemma read_bytes_at_no_panic: "read_bytes_at self offset sz \<noteq> Panic"
  by (auto simp: read_bytes_at_def get_from_def get_to_def)

lemma unat_word_of_nat_u64: "n \<le> usize_max \<Longrightarrow> unat (word_of_nat n :: u64) = n"
  by (simp add: usize_max_def unat_of_nat)

lemma read_pod_ok:
  assumes "unat offset + n \<le> length self" "n \<le> usize_max"
  shows "read_pod n self offset = (Ok (slice_at self (unat offset) n), offset + word_of_nat n)"
proof -
  have "read_bytes_at self offset (word_of_nat n) = Ok (slice_at self (unat offset) n)"
    using assms read_bytes_at_ok [of offset "word_of_nat n" self]
    by (simp add: unat_word_of_nat_u64)
  moreover have "length (slice_at self (unat offset) n) = n"
    using assms by (simp add: slice_at_def)
  ultimately show ?thesis
    by (simp add: read_pod_def read_bytes_def res_simps from_bytes_def get_from_def)
qed

lemma read_pod_at_ok:
  "unat offset + n \<le> length self \<Longrightarrow> n \<le> usize_max \<Longrightarrow>
    read_pod_at n self offset = Ok (slice_at self (unat offset) n)"
  by (simp add: read_pod_at_def read_pod_ok)

lemma read_slice_ok:
  assumes "unat offset + cnt * n \<le> length self" "cnt * n \<le> usize_max"
  shows "read_slice n self offset cnt =
    (Ok (chunks n cnt (slice_at self (unat offset) (cnt * n))),
     offset + word_of_nat (cnt * n))"
proof -
  have "read_bytes_at self offset (word_of_nat (cnt * n)) =
      Ok (slice_at self (unat offset) (cnt * n))"
    using assms read_bytes_at_ok [of offset "word_of_nat (cnt * n)" self]
    by (simp only: unat_word_of_nat_u64)
  moreover have "length (slice_at self (unat offset) (cnt * n)) = cnt * n"
    using assms by (simp add: slice_at_def)
  ultimately show ?thesis
    using assms
    by (simp add: read_slice_def read_bytes_def slice_from_bytes_def get_from_def del: of_nat_mult)
qed

lemma read_slice_at_ok:
  assumes "unat offset + cnt * n \<le> length self" "cnt * n \<le> usize_max"
  shows "read_slice_at n self offset cnt =
    Ok (chunks n cnt (slice_at self (unat offset) (cnt * n)))"
  using assms by (simp add: read_slice_at_def read_slice_ok)

lemma read_bytes_at_until_ok:
  assumes mc: "memchr_spec mc"
    and self: "self = pre @ str @ d # post" and d: "d \<notin> set str"
    and s: "unat s = length pre"
    and e: "length pre + length str < unat e" "unat e \<le> length self"
  shows "read_bytes_at_until mc self s e d = Ok str"
proof -
  let ?r = "take (unat e - unat s) (drop (unat s) self)"
  have "?r = take (unat e - length pre) (str @ d # post)"
    using self s by simp
  also have "\<dots> = str @ d # take (unat e - length pre - Suc (length str)) post"
  proof -
    obtain k where "unat e - length pre = length str + Suc k"
      using e(1) by (metis add_Suc_right diff_add_inverse less_imp_Suc_add add.assoc)
    then show ?thesis by simp
  qed
  finally have r: "?r = str @ d # take (unat e - length pre - Suc (length str)) post" .
  have "get_range self (unat s) (unat e) = Some ?r"
    using e s by (simp add: get_range_def)
  moreover have "mc d ?r = Some (length str)"
    unfolding r using mc d by (rule memchr_Some)
  ultimately show ?thesis
    by (simp add: read_bytes_at_until_def r get_to_def)
qed

lemma read_bytes_at_until_eq_Ok:
  assumes "memchr_spec mc" "read_bytes_at_until mc self s e d = Ok str"
  shows "unat s + length str < unat e \<and> unat e \<le> length self \<and>
    str = slice_at self (unat s) (length str) \<and> d \<notin> set str \<and> self ! (unat s + length str) = d"
proof -
  let ?r = "take (unat e - unat s) (drop (unat s) self)"
  from assms(2) have se: "unat s \<le> unat e" "unat e \<le> length self"
    and "(case mc d ?r of Some len \<Rightarrow> ok_or (get_to ?r len) () | None \<Rightarrow> Err ()) = Ok str"
    by (auto simp: read_bytes_at_until_def res_simps)
  then obtain n where n: "mc d ?r = Some n" "get_to ?r n = Some str"
    by (auto split: option.splits simp: res_simps)
  with memchr_SomeD [OF assms(1) n(1)] have "n < length ?r" "?r ! n = d" "d \<notin> set (take n ?r)"
    and str: "str = take n ?r"
    by (auto simp: res_simps)
  moreover from this(1) se have n': "n < unat e - unat s" "n < length self - unat s"
    by auto
  ultimately have "str = slice_at self (unat s) n" "length str = n" "self ! (unat s + n) = d"
    using se by (auto simp: slice_at_def)
  then show ?thesis
    using se n' str \<open>d \<notin> set (take n ?r)\<close> by auto
qed

lemma read_bytes_no_panic:
  "fst (read_bytes data offset n) \<noteq> Panic" "read_bytes data offset n \<noteq> (Panic, off)"
  using read_bytes_at_no_panic [of data offset n] by (auto simp: read_bytes_def split: result.splits)

lemma read_pod_no_panic: "fst (read_pod n data offset) \<noteq> Panic" "read_pod n data offset \<noteq> (Panic, off)"
  using read_bytes_no_panic [of data offset "word_of_nat n"]
  by (auto simp: read_pod_def and_then_eq_Panic from_bytes_1_no_panic split: prod.splits)

lemma read_pod_at_no_panic: "read_pod_at n data offset \<noteq> Panic"
  by (simp add: read_pod_at_def read_pod_no_panic)

lemma read_slice_no_panic:
  "fst (read_slice n data offset cnt) \<noteq> Panic" "read_slice n data offset cnt \<noteq> (Panic, off)"
  using read_bytes_no_panic [of data offset "word_of_nat (cnt * n)"]
  by (auto simp: read_slice_def and_then_eq_Panic slice_from_bytes_1_no_panic split: prod.splits)

lemma read_slice_at_no_panic: "read_slice_at n data offset cnt \<noteq> Panic"
  by (simp add: read_slice_at_def read_slice_no_panic)

section \<open>Properties\<close>

text \<open>C13: \<^verbatim>\<open>read_bytes_at_until\<close> of a byte slice succeeds exactly when the delimiter occurs in the range, and returns the bytes before its first occurrence.\<close>

theorem read_bytes_at_until_finds:
  assumes "memchr_spec memchr"
  shows "read_bytes_at_until memchr self start end1 d = Ok str \<longleftrightarrow>
    unat start + length str < unat end1 \<and> unat end1 \<le> length self \<and>
    str = slice_at self (unat start) (length str) \<and> d \<notin> set str \<and> self ! (unat start + length str) = d"
    (is "?l \<longleftrightarrow> ?r")
proof
  show "?l \<Longrightarrow> ?r" using read_bytes_at_until_eq_Ok [OF assms] by blast
  assume r: ?r
  then have "length str < length (drop (unat start) self)" by simp linarith
  with r have "drop (unat start) self = str @ d # drop (Suc (unat start + length str)) self"
    using id_take_nth_drop [of "length str" "drop (unat start) self"]
    by (simp add: slice_at_def add.commute)
  then have "self = take (unat start) self @ str @ d # drop (Suc (unat start + length str)) self"
    by (metis append_take_drop_id)
  then show ?l using r
    by (intro read_bytes_at_until_ok [OF assms, where pre = "take (unat start) self"]) (auto simp: min_def)
qed

theorem read_bytes_at_until_finds_witness:
  "read_bytes_at_until first_index [7, 65, 66, 0, 9] 1 5 0 = Ok [65, 66]"
  using read_bytes_at_until_finds [OF memchr_spec_first_index, of "[7, 65, 66, 0, 9]" 1 5 0 "[65, 66]"]
  by (simp add: slice_at_def)

end
