(* ===== verification/Read_Util.thy ===== *)
theory Read_Util
  imports Read_Ref
begin

text \<open>
  \<^verbatim>\<open>src/read/util.rs\<close>: the byte cursor \<^verbatim>\<open>Bytes\<close>, the LEB128 readers and the string table
  reader. A method that takes \<^verbatim>\<open>&mut self\<close> returns its result and the new slice; after an error
  the slice is empty, as in the code.
\<close>

type_synonym 'a cursor = "bytes \<Rightarrow> ('a, unit) result \<times> bytes"

text \<open>Sequencing of cursor methods with the \<^verbatim>\<open>?\<close> operator.\<close>

definition cursor_then :: "'a cursor \<Rightarrow> ('a \<Rightarrow> 'b cursor) \<Rightarrow> 'b cursor" where
  "cursor_then m f = (\<lambda>self. case m self of
     (Ok a, self') \<Rightarrow> f a self'
   | (Err e, self') \<Rightarrow> (Err e, self')
   | (Panic, self') \<Rightarrow> (Panic, self'))"

section \<open>Bytes\<close>

definition Bytes_is_empty :: "bytes \<Rightarrow> bool" where
  "Bytes_is_empty self \<longleftrightarrow> self = []"

definition skip :: "nat \<Rightarrow> unit cursor" where
  "skip offset self = (case get_from self offset of
     Some tail \<Rightarrow> (Ok (), tail)
   | None \<Rightarrow> (Err (), []))"

definition Bytes_read_bytes :: "nat \<Rightarrow> bytes cursor" where
  "Bytes_read_bytes cnt self = (case (get_to self cnt, get_from self cnt) of
     (Some head, Some tail) \<Rightarrow> (Ok head, tail)
   | _ \<Rightarrow> (Err (), []))"

definition Bytes_read_bytes_at :: "bytes \<Rightarrow> nat \<Rightarrow> nat \<Rightarrow> (bytes, unit) result" where
  "Bytes_read_bytes_at self offset cnt =
    fst (cursor_then (skip offset) (\<lambda>_. Bytes_read_bytes cnt) self)"

definition Bytes_read :: "nat \<Rightarrow> bytes cursor" where
  "Bytes_read size_of self = (case from_bytes_1 size_of self of
     Ok (value, tail) \<Rightarrow> (Ok value, tail)
   | Err _ \<Rightarrow> (Err (), [])
   | Panic \<Rightarrow> (Panic, self))"

definition Bytes_read_at :: "nat \<Rightarrow> bytes \<Rightarrow> nat \<Rightarrow> (bytes, unit) result" where
  "Bytes_read_at size_of self offset =
    fst (cursor_then (skip offset) (\<lambda>_. Bytes_read size_of) self)"

definition Bytes_read_slice :: "nat \<Rightarrow> nat \<Rightarrow> bytes list cursor" where
  "Bytes_read_slice size_of cnt self = (case slice_from_bytes_1 size_of self cnt of
     Ok (value, tail) \<Rightarrow> (Ok value, tail)
   | Err _ \<Rightarrow> (Err (), [])
   | Panic \<Rightarrow> (Panic, self))"

definition Bytes_read_slice_at :: "nat \<Rightarrow> bytes \<Rightarrow> nat \<Rightarrow> nat \<Rightarrow> (bytes list, unit) result" where
  "Bytes_read_slice_at size_of self offset cnt =
    fst (cursor_then (skip offset) (\<lambda>_. Bytes_read_slice size_of cnt) self)"

definition Bytes_read_string :: "(u8 \<Rightarrow> bytes \<Rightarrow> nat option) \<Rightarrow> bytes cursor" where
  "Bytes_read_string memchr self = (case memchr 0 self of
     Some null \<Rightarrow>
       cursor_then (Bytes_read_bytes null) (\<lambda>bytes.
       cursor_then (skip 1) (\<lambda>_.
       (\<lambda>self. (Ok bytes, self)))) self
   | None \<Rightarrow> (Err (), []))"

definition Bytes_read_string_at ::
  "(u8 \<Rightarrow> bytes \<Rightarrow> nat option) \<Rightarrow> bytes \<Rightarrow> nat \<Rightarrow> (bytes, unit) result" where
  "Bytes_read_string_at memchr self offset =
    fst (cursor_then (skip offset) (\<lambda>_. Bytes_read_string memchr) self)"

text \<open>
  The loops of \<^verbatim>\<open>read_uleb128\<close> and \<^verbatim>\<open>read_sleb128\<close>. A left shift of a 64-bit integer by 64 or
  more panics; \<open>uleb128_no_panic\<close> and \<open>sleb128_no_panic\<close> show that the loops never get there.
\<close>

fun uleb128_loop :: "u64 \<Rightarrow> nat \<Rightarrow> u64 cursor" where
  "uleb128_loop result shift [] = (Err (), [])"
| "uleb128_loop result shift (byte # self) =
    (if shift = 63 \<and> byte \<noteq> 0x00 \<and> byte \<noteq> 0x01 then (Err (), self)
     else if 64 \<le> shift then (Panic, self)
     else
       let result = result OR push_bit shift (ucast (byte AND 0x7f));
           shift = shift + 7
       in if byte AND 0x80 = 0 then (Ok result, self) else uleb128_loop result shift self)"

definition read_uleb128 :: "u64 cursor" where
  "read_uleb128 self = uleb128_loop 0 0 self"

fun sleb128_loop :: "i64 \<Rightarrow> nat \<Rightarrow> i64 cursor" where
  "sleb128_loop result shift [] = (Err (), [])"
| "sleb128_loop result shift (byte # self) =
    (if shift = 63 \<and> byte \<noteq> 0x00 \<and> byte \<noteq> 0x7f then (Err (), self)
     else if 64 \<le> shift then (Panic, self)
     else
       let result = result OR push_bit shift (ucast (byte AND 0x7f));
           shift = shift + 7
       in if byte AND 0x80 = 0
          then (Ok (if shift < 64 \<and> byte AND 0x40 \<noteq> 0 then result OR push_bit shift (NOT 0)
                    else result), self)
          else sleb128_loop result shift self)"

definition read_sleb128 :: "i64 cursor" where
  "read_sleb128 self = sleb128_loop 0 0 self"

section \<open>Helpers\<close>

definition util_align :: "nat \<Rightarrow> nat \<Rightarrow> (nat, 'e) result" where
  "util_align offset sz =
    and_then (usize_sub sz 1) (\<lambda>m.
    and_then (usize_add offset m) (\<lambda>s.
    Ok (unat ((word_of_nat s :: u64) AND NOT (word_of_nat m)))))"

definition data_range :: "bytes \<Rightarrow> u64 \<Rightarrow> u64 \<Rightarrow> u64 \<Rightarrow> bytes option" where
  "data_range data data_address range_address sz =
    (case word_checked_sub range_address data_address of
       None \<Rightarrow> None
     | Some offset \<Rightarrow> (case get_from data (unat offset) of
         None \<Rightarrow> None
       | Some tail \<Rightarrow> get_to tail (unat sz)))"

section \<open>String tables\<close>

record read_string_table =
  st_data :: "bytes option"
  st_start :: u64
  st_end :: u64

definition StringTable_new :: "bytes \<Rightarrow> u64 \<Rightarrow> u64 \<Rightarrow> read_string_table" where
  "StringTable_new data start end1 = \<lparr>st_data = Some data, st_start = start, st_end = end1\<rparr>"

definition StringTable_default :: read_string_table where
  "StringTable_default = \<lparr>st_data = None, st_start = 0, st_end = 0\<rparr>"

definition StringTable_get ::
  "(u8 \<Rightarrow> bytes \<Rightarrow> nat option) \<Rightarrow> read_string_table \<Rightarrow> u32 \<Rightarrow> (bytes, unit) result" where
  "StringTable_get memchr self offset = (case st_data self of
     Some data \<Rightarrow>
       and_then (ok_or (word_checked_add (st_start self) (ucast offset)) ()) (\<lambda>r_start.
       read_bytes_at_until memchr data r_start (st_end self) 0)
   | None \<Rightarrow> Err ())"

section \<open>Behaviour of the cursor\<close>

lemma cursor_then_simps:
  "m self = (Ok a, self') \<Longrightarrow> cursor_then m f self = f a self'"
  "m self = (Err e, self') \<Longrightarrow> cursor_then m f self = (Err e, self')"
  "m self = (Panic, self') \<Longrightarrow> cursor_then m f self = (Panic, self')"
  by (simp_all add: cursor_then_def)

lemma skip_ok: "n \<le> length self \<Longrightarrow> skip n self = (Ok (), drop n self)"
  by (simp add: skip_def get_from_def)

lemma skip_short: "length self < n \<Longrightarrow> skip n self = (Err (), [])"
  by (simp add: skip_def get_from_def)

lemma skip_append [simp]: "length x = n \<Longrightarrow> skip n (x @ rest) = (Ok (), rest)"
  by (simp add: skip_ok)

lemma Bytes_read_bytes_ok: "n \<le> length self \<Longrightarrow> Bytes_read_bytes n self = (Ok (take n self), drop n self)"
  by (simp add: Bytes_read_bytes_def get_from_def get_to_def)

lemma Bytes_read_bytes_short: "length self < n \<Longrightarrow> Bytes_read_bytes n self = (Err (), [])"
  by (simp add: Bytes_read_bytes_def get_from_def get_to_def)

lemma Bytes_read_bytes_append [simp]:
  "length x = n \<Longrightarrow> Bytes_read_bytes n (x @ rest) = (Ok x, rest)"
  by (simp add: Bytes_read_bytes_ok)

lemma Bytes_read_ok: "n \<le> length self \<Longrightarrow> Bytes_read n self = (Ok (take n self), drop n self)"
  by (simp add: Bytes_read_def from_bytes_def get_from_def)

lemma Bytes_read_short: "length self < n \<Longrightarrow> Bytes_read n self = (Err (), [])"
  by (simp add: Bytes_read_def)

lemma Bytes_read_append [simp]: "length x = n \<Longrightarrow> Bytes_read n (x @ rest) = (Ok x, rest)"
  by (simp add: Bytes_read_def)

lemma Bytes_read_at_ok:
  "off + n \<le> length self \<Longrightarrow> Bytes_read_at n self off = Ok (slice_at self off n)"
  by (simp add: Bytes_read_at_def cursor_then_def skip_ok Bytes_read_ok slice_at_def)

lemma Bytes_read_at_eq_Ok [res_simps]:
  "Bytes_read_at n self off = Ok x \<longleftrightarrow> off + n \<le> length self \<and> x = slice_at self off n"
proof (cases "off \<le> length self")
  case True
  then show ?thesis
    by (cases "n \<le> length self - off")
      (auto simp: Bytes_read_at_def cursor_then_def skip_ok Bytes_read_ok Bytes_read_short
        slice_at_def)
next
  case False
  then show ?thesis by (auto simp: Bytes_read_at_def cursor_then_def skip_short)
qed

lemma Bytes_read_bytes_at_eq_Ok [res_simps]:
  "Bytes_read_bytes_at self off n = Ok x \<longleftrightarrow> off + n \<le> length self \<and> x = slice_at self off n"
proof (cases "off \<le> length self")
  case True
  then show ?thesis
    by (cases "n \<le> length self - off")
      (auto simp: Bytes_read_bytes_at_def cursor_then_def skip_ok Bytes_read_bytes_ok
        Bytes_read_bytes_short slice_at_def)
next
  case False
  then show ?thesis by (auto simp: Bytes_read_bytes_at_def cursor_then_def skip_short)
qed

lemma Bytes_read_string_ok:
  assumes "memchr_spec mc" "0 \<notin> set str"
  shows "Bytes_read_string mc (str @ 0 # rest) = (Ok str, rest)"
  using memchr_Some [OF assms]
  by (simp add: Bytes_read_string_def cursor_then_def skip_def get_from_def)

lemma Bytes_read_string_eq_Ok:
  assumes "memchr_spec mc"
  shows "Bytes_read_string mc self = (Ok str, rest) \<longleftrightarrow> self = str @ 0 # rest \<and> 0 \<notin> set str"
proof
  assume ok: "Bytes_read_string mc self = (Ok str, rest)"
  then obtain n where n: "mc 0 self = Some n"
    by (auto simp: Bytes_read_string_def split: option.splits)
  note spec = memchr_SomeD [OF assms n]
  from n ok spec have "str = take n self" "rest = drop (Suc n) self"
    by (auto simp: Bytes_read_string_def cursor_then_def Bytes_read_bytes_ok skip_ok)
  with spec show "self = str @ 0 # rest \<and> 0 \<notin> set str"
    by (metis id_take_nth_drop)
next
  assume "self = str @ 0 # rest \<and> 0 \<notin> set str"
  then show "Bytes_read_string mc self = (Ok str, rest)"
    using Bytes_read_string_ok [OF assms] by blast
qed

section \<open>The LEB128 readers\<close>

lemma Bytes_read_at_no_panic: "Bytes_read_at n self off \<noteq> Panic" "Bytes_read_bytes_at self off n \<noteq> Panic"
  by (auto simp: Bytes_read_at_def Bytes_read_bytes_at_def cursor_then_def skip_def Bytes_read_def
      Bytes_read_bytes_def from_bytes_1_no_panic split: option.splits prod.splits result.splits)

lemma skip_no_panic: "skip n self \<noteq> (Panic, self')"
  by (auto simp: skip_def split: option.splits)

lemma Bytes_read_no_panic: "Bytes_read n self \<noteq> (Panic, self')" "fst (Bytes_read n self) \<noteq> Panic"
  by (auto simp: Bytes_read_def from_bytes_1_no_panic split: result.splits)

lemma Bytes_read_bytes_no_panic: "Bytes_read_bytes n self \<noteq> (Panic, self')"
  by (auto simp: Bytes_read_bytes_def split: option.splits)

lemma Bytes_read_string_no_panic: "Bytes_read_string memchr self \<noteq> (Panic, self')"
  by (auto simp: Bytes_read_string_def cursor_then_def Bytes_read_bytes_no_panic skip_no_panic
      split: option.splits prod.splits result.splits)

lemma StringTable_get_no_panic: "StringTable_get memchr strs off \<noteq> Panic"
  by (auto simp: StringTable_get_def read_bytes_at_until_def ok_or_def
      split: option.splits and_then_split)

lemma uleb128_no_panic: "7 * k \<le> 63 \<Longrightarrow> fst (uleb128_loop result (7 * k) self) \<noteq> Panic"
proof (induction self arbitrary: k result)
  case Nil
  then show ?case by simp
next
  case (Cons byte self)
  show ?case
  proof (cases "7 * k = 63")
    case True
    then show ?thesis by auto
  next
    case False
    with Cons.prems have "7 * Suc k \<le> 63" by presburger
    from Cons.IH [OF this] False Cons.prems show ?thesis
      by (auto simp: Let_def add.commute)
  qed
qed

lemma sleb128_no_panic: "7 * k \<le> 63 \<Longrightarrow> fst (sleb128_loop result (7 * k) self) \<noteq> Panic"
proof (induction self arbitrary: k result)
  case Nil
  then show ?case by simp
next
  case (Cons byte self)
  show ?case
  proof (cases "7 * k = 63")
    case True
    then show ?thesis by auto
  next
    case False
    with Cons.prems have "7 * Suc k \<le> 63" by presburger
    from Cons.IH [OF this] False Cons.prems show ?thesis
      by (auto simp: Let_def add.commute)
  qed
qed

lemma read_uleb128_no_panic: "fst (read_uleb128 self) \<noteq> Panic"
  using uleb128_no_panic [of 0] by (simp add: read_uleb128_def)

lemma read_sleb128_no_panic: "fst (read_sleb128 self) \<noteq> Panic"
  using sleb128_no_panic [of 0] by (simp add: read_sleb128_def)

lemma uleb128_loop_shrinks: "length (snd (uleb128_loop result shift self)) \<le> length self - 1"
proof (induction result shift self rule: uleb128_loop.induct)
  case (2 result shift byte self)
  then show ?case by (fastforce simp: Let_def)
qed simp

lemma read_uleb128_shrinks: "self \<noteq> [] \<Longrightarrow> length (snd (read_uleb128 self)) < length self"
  using uleb128_loop_shrinks [of 0 0 self] by (cases self) (auto simp: read_uleb128_def)

lemma sleb128_loop_shrinks: "length (snd (sleb128_loop result shift self)) \<le> length self - 1"
proof (induction result shift self rule: sleb128_loop.induct)
  case (2 result shift byte self)
  then show ?case by (fastforce simp: Let_def)
qed simp

lemma read_sleb128_shrinks: "self \<noteq> [] \<Longrightarrow> length (snd (read_sleb128 self)) < length self"
  using sleb128_loop_shrinks [of 0 0 self] by (cases self) (auto simp: read_sleb128_def)

section \<open>Alignment\<close>

text \<open>The arithmetic meaning of the bit trick for a power of two.\<close>

definition align_up :: "nat \<Rightarrow> nat \<Rightarrow> nat" where
  "align_up n a = (n + (a - 1)) div a * a"

lemma and_not_mask_div: "unat (w AND NOT (mask k)) = unat w div 2 ^ k * 2 ^ k" for w :: "'w::len word"
proof -
  have "w AND NOT (mask k) = push_bit k (drop_bit k w)"
    by (rule bit_word_eqI) (auto simp: bit_simps)
  also have "unat \<dots> = take_bit LENGTH('w) (push_bit k (drop_bit k (unat w)))"
    using take_bit_nat_eq_self [OF unsigned_less [of w]]
    by (simp add: unsigned_push_bit_eq unsigned_drop_bit_eq)
  also have "\<dots> = push_bit k (drop_bit k (unat w))"
  proof (rule take_bit_nat_eq_self)
    have "push_bit k (drop_bit k (unat w)) \<le> unat w"
      by (simp add: push_bit_eq_mult drop_bit_eq_div)
    then show "push_bit k (drop_bit k (unat w)) < 2 ^ LENGTH('w)"
      using unsigned_less [of w] by (rule order.strict_trans1)
  qed
  finally show ?thesis by (simp add: push_bit_eq_mult drop_bit_eq_div)
qed

lemma util_align_eq:
  "util_align n (2 ^ k) =
    (if n + (2 ^ k - 1) \<le> usize_max then Ok (align_up n (2 ^ k)) else Panic)"
proof -
  have m: "(word_of_nat (2 ^ k - 1) :: u64) = mask k"
    by (simp add: mask_eq_exp_minus_1)
  show ?thesis
  proof (cases "n + (2 ^ k - 1) \<le> usize_max")
    case True
    have "unat ((word_of_nat (n + (2 ^ k - 1)) :: u64) AND NOT (word_of_nat (2 ^ k - 1)))
        = (n + (2 ^ k - 1)) div 2 ^ k * 2 ^ k"
      unfolding m and_not_mask_div using True by (simp only: unat_word_of_nat_u64)
    then show ?thesis
      using True by (simp add: util_align_def usize_sub_def usize_add_def align_up_def
          del: of_nat_add of_nat_diff)
  next
    case False
    then show ?thesis by (simp add: util_align_def usize_sub_def usize_add_def)
  qed
qed

lemma align_up_1 [simp]: "align_up n (Suc 0) = n"
  by (simp add: align_up_def)

lemma align_up_ge: "0 < a \<Longrightarrow> n \<le> align_up n a"
proof -
  assume "0 < a"
  have "n + (a - 1) < ((n + (a - 1)) div a) * a + a"
    using \<open>0 < a\<close> by (metis add.commute dividend_less_div_times)
  then show ?thesis using \<open>0 < a\<close> by (simp add: align_up_def)
qed

lemma align_up_less: "0 < a \<Longrightarrow> align_up n a < n + a"
proof -
  assume "0 < a"
  have "align_up n a \<le> n + (a - 1)"
    unfolding align_up_def by (rule div_times_less_eq_dividend)
  then show ?thesis using \<open>0 < a\<close> by linarith
qed

lemma align_up_dvd: "a dvd align_up n a"
  by (simp add: align_up_def)

lemma align_up_fixed: "0 < a \<Longrightarrow> a dvd n \<Longrightarrow> align_up n a = n"
proof -
  assume a: "0 < a" "a dvd n"
  then obtain k where n: "n = a * k" by blast
  have "(a * k + (a - 1)) div a = k + (a - 1) div a"
    using a(1) by (intro div_mult_self4) simp
  then show ?thesis using a(1) by (simp only: align_up_def n) simp
qed

lemma align_up_idem [simp]: "0 < a \<Longrightarrow> align_up (align_up n a) a = align_up n a"
  by (simp add: align_up_fixed align_up_dvd)

section \<open>Properties\<close>

text \<open>C14: \<^verbatim>\<open>align\<close> with a power of two returns the least multiple that is not below the offset, and panics exactly when the intermediate sum overflows.\<close>

theorem util_align_rounds_up:
  "util_align n (2 ^ k) = Ok m \<longleftrightarrow>
    n + (2 ^ k - 1) \<le> usize_max \<and> 2 ^ k dvd m \<and> n \<le> m \<and> m < n + 2 ^ k"
proof -
  have "m = align_up n (2 ^ k)" if m: "2 ^ k dvd m" "n \<le> m" "m < n + 2 ^ k"
  proof -
    let ?a = "align_up n (2 ^ k)"
    have "n \<le> ?a" "?a < n + 2 ^ k" by (simp_all add: align_up_ge align_up_less)
    moreover have "2 ^ k dvd m - ?a" "2 ^ k dvd ?a - m"
      using m(1) align_up_dvd [of "2 ^ k" n] by (simp_all add: dvd_diff_nat)
    ultimately show ?thesis
      using m(2,3) dvd_imp_le [of "2 ^ k" "m - ?a"] dvd_imp_le [of "2 ^ k" "?a - m"] by linarith
  qed
  then show ?thesis
    using align_up_ge [of "2 ^ k" n] align_up_less [of "2 ^ k" n] align_up_dvd [of "2 ^ k" n]
    by (auto simp: util_align_eq)
qed

end
