(* ===== verification/Write_Util.thy ===== *)
theory Write_Util
  imports Read_Util
begin

text \<open>
  \<^verbatim>\<open>src/write/util.rs\<close>: the output buffers, alignment and the LEB128 writers.

  The trait \<^verbatim>\<open>WritableBuffer\<close> is the locale \<open>writable_buffer\<close>. Its two implementations are
  \<open>vec_buffer\<close> (a \<^verbatim>\<open>Vec<u8>\<close> and its capacity) and \<open>streaming_buffer\<close> (a writer and the state
  of the stream). The capacity of a \<^verbatim>\<open>Vec\<close> after \<^verbatim>\<open>reserve\<close> is only bounded from below by the
  standard library; the model takes the least capacity, for which the \<^verbatim>\<open>debug_assert!\<close> of
  \<^verbatim>\<open>write_bytes\<close> is strongest.
\<close>

section \<open>Vec as a buffer\<close>

record vec_buffer =
  vb_bytes :: bytes
  vb_capacity :: nat

definition Vec_new :: vec_buffer where
  "Vec_new = \<lparr>vb_bytes = [], vb_capacity = 0\<rparr>"

definition Vec_len :: "vec_buffer \<Rightarrow> nat" where
  "Vec_len self = length (vb_bytes self)"

definition Vec_reserve :: "nat \<Rightarrow> vec_buffer \<Rightarrow> (vec_buffer, 'e) result" where
  "Vec_reserve sz self =
    debug_assert (vb_bytes self = []) (
    Ok (self\<lparr>vb_capacity := max (vb_capacity self) (length (vb_bytes self) + sz)\<rparr>))"

definition Vec_resize :: "nat \<Rightarrow> vec_buffer \<Rightarrow> (vec_buffer, 'e) result" where
  "Vec_resize new_len self =
    debug_assert (length (vb_bytes self) \<le> new_len) (
    Ok (self\<lparr>vb_bytes := vb_bytes self @ replicate (new_len - length (vb_bytes self)) 0,
             vb_capacity := max (vb_capacity self) new_len\<rparr>))"

definition Vec_write_bytes :: "bytes \<Rightarrow> vec_buffer \<Rightarrow> (vec_buffer, 'e) result" where
  "Vec_write_bytes val self =
    debug_assert (length (vb_bytes self) + length val \<le> vb_capacity self) (
    Ok (self\<lparr>vb_bytes := vb_bytes self @ val\<rparr>))"

text \<open>The inherent method \<^verbatim>\<open>Vec::reserve\<close>, which has no assertion.\<close>

definition Vec_reserve_additional :: "nat \<Rightarrow> vec_buffer \<Rightarrow> vec_buffer" where
  "Vec_reserve_additional additional self =
    self\<lparr>vb_capacity := max (vb_capacity self) (length (vb_bytes self) + additional)\<rparr>"

text \<open>
  Writing a structure or a slice of structures, given by their memory images: \<^verbatim>\<open>write_pod\<close> and
  \<^verbatim>\<open>write_pod_slice\<close>, and the inherent methods \<^verbatim>\<open>write\<close> and \<^verbatim>\<open>write_slice\<close> of the trait object.
\<close>

definition Vec_write_pod :: "bytes \<Rightarrow> vec_buffer \<Rightarrow> (vec_buffer, 'e) result" where
  "Vec_write_pod val self = Vec_write_bytes (bytes_of val) self"

definition Vec_write_pod_slice :: "bytes list \<Rightarrow> vec_buffer \<Rightarrow> (vec_buffer, 'e) result" where
  "Vec_write_pod_slice val self = Vec_write_bytes (bytes_of_slice val) self"

section \<open>StreamingBuffer\<close>

text \<open>
  \<open>write_all\<close> is \<^verbatim>\<open>std::io::Write::write_all\<close> of the writer: the new state of the writer and the
  result.
\<close>

record ('w, 'io) streaming_buffer =
  sb_writer :: 'w
  sb_len :: nat
  sb_result :: "(unit, 'io) result"

definition StreamingBuffer_new :: "'w \<Rightarrow> ('w, 'io) streaming_buffer" where
  "StreamingBuffer_new writer = \<lparr>sb_writer = writer, sb_len = 0, sb_result = Ok ()\<rparr>"

definition StreamingBuffer_result ::
  "('w, 'io) streaming_buffer \<Rightarrow> (unit, 'io) result \<times> ('w, 'io) streaming_buffer" where
  "StreamingBuffer_result self = (sb_result self, self\<lparr>sb_result := Ok ()\<rparr>)"

definition Streaming_write_bytes ::
  "('w \<Rightarrow> bytes \<Rightarrow> (unit, 'io) result \<times> 'w) \<Rightarrow> bytes \<Rightarrow> ('w, 'io) streaming_buffer \<Rightarrow>
   (('w, 'io) streaming_buffer, 'e) result" where
  "Streaming_write_bytes write_all val self =
    (let self = (if sb_result self = Ok ()
                 then (case write_all (sb_writer self) val of
                         (r, w) \<Rightarrow> self\<lparr>sb_writer := w, sb_result := r\<rparr>)
                 else self)
     in and_then (usize_add (sb_len self) (length val)) (\<lambda>n. Ok (self\<lparr>sb_len := n\<rparr>)))"

function Streaming_resize_loop ::
  "('w \<Rightarrow> bytes \<Rightarrow> (unit, 'io) result \<times> 'w) \<Rightarrow> nat \<Rightarrow> ('w, 'io) streaming_buffer \<Rightarrow>
   (('w, 'io) streaming_buffer, 'e) result" where
  "Streaming_resize_loop write_all new_len self =
    (if sb_len self < new_len
     then let write_amt = (new_len - sb_len self - 1) mod 1024 + 1
          in and_then (Streaming_write_bytes write_all (replicate write_amt 0) self)
               (Streaming_resize_loop write_all new_len)
     else Ok self)"
  by pat_completeness auto

termination
proof (relation "measure (\<lambda>(write_all, new_len, self). new_len - sb_len self)")
  fix write_all :: "'w \<Rightarrow> bytes \<Rightarrow> (unit, 'io) result \<times> 'w" and new_len
    and self a :: "('w, 'io) streaming_buffer" and x :: nat
  assume "sb_len self < new_len" "x = (new_len - sb_len self - 1) mod 1024 + 1"
    and "Streaming_write_bytes write_all (replicate x 0) self = Ok a"
  then have "sb_len a = sb_len self + x" "x > 0"
    by (auto simp: Streaming_write_bytes_def Let_def res_simps split: if_splits prod.splits)
  with \<open>sb_len self < new_len\<close>
  show "((write_all, new_len, a), write_all, new_len, self)
      \<in> measure (\<lambda>(write_all, new_len, self). new_len - sb_len self)"
    by simp
qed simp

declare Streaming_resize_loop.simps [simp del]

definition Streaming_resize ::
  "('w \<Rightarrow> bytes \<Rightarrow> (unit, 'io) result \<times> 'w) \<Rightarrow> nat \<Rightarrow> ('w, 'io) streaming_buffer \<Rightarrow>
   (('w, 'io) streaming_buffer, 'e) result" where
  "Streaming_resize write_all new_len self =
    debug_assert (sb_len self \<le> new_len) (Streaming_resize_loop write_all new_len self)"

section \<open>Alignment\<close>

definition align_usize :: "nat \<Rightarrow> nat \<Rightarrow> (nat, 'e) result" where
  "align_usize offset sz =
    and_then (usize_sub sz 1) (\<lambda>m.
    and_then (usize_add offset m) (\<lambda>s.
    Ok (unat ((word_of_nat s :: u64) AND NOT (word_of_nat m)))))"

definition align_word :: "'w::len word \<Rightarrow> 'w word \<Rightarrow> ('w word, 'e) result" where
  "align_word offset sz =
    and_then (word_sub sz 1) (\<lambda>m.
    and_then (word_add offset m) (\<lambda>s.
    Ok (s AND NOT m)))"

definition write_align ::
  "('b \<Rightarrow> nat) \<Rightarrow> (nat \<Rightarrow> 'b \<Rightarrow> ('b, 'e) result) \<Rightarrow> nat \<Rightarrow> 'b \<Rightarrow> ('b, 'e) result" where
  "write_align buf_len resize sz buffer =
    and_then (align_usize (buf_len buffer) sz) (\<lambda>new_len. resize new_len buffer)"

section \<open>Writing in the middle of a slice\<close>

definition write_at :: "bytes \<Rightarrow> nat \<Rightarrow> bytes \<Rightarrow> (bytes, unit) result" where
  "write_at self offset src =
    and_then (ok_or (get_from self offset) ()) (\<lambda>dest.
    and_then (ok_or (get_to dest (length src)) ()) (\<lambda>_.
    Ok (take offset self @ src @ drop (offset + length src) self)))"

section \<open>LEB128\<close>

lemma unat_drop_bit_7: "unat (drop_bit 7 v) = unat v div 128" for v :: u64
  by (simp add: drop_bit_eq_div unat_div)

lemma drop_bit_7_less: "drop_bit 7 v \<noteq> 0 \<Longrightarrow> unat (drop_bit 7 v) < unat v" for v :: u64
proof -
  assume "drop_bit 7 v \<noteq> 0"
  then have "unat v > 0" by (metis drop_bit_of_0 gr0I unat_eq_zero)
  then show ?thesis by (simp add: unat_drop_bit_7)
qed

text \<open>The result is the number of bytes written and the buffer.\<close>

function write_uleb128 :: "bytes \<Rightarrow> u64 \<Rightarrow> nat \<times> bytes" where
  "write_uleb128 buf val =
    (let byte = (ucast (val AND 0x7f) :: u8);
         val = drop_bit 7 val;
         done = (val = 0);
         byte = (if \<not> done then byte OR 0x80 else byte);
         buf = buf @ [byte]
     in if done then (1, buf)
        else (case write_uleb128 buf val of (len, buf) \<Rightarrow> (Suc len, buf)))"
  by pat_completeness auto

termination
  by (relation "measure (\<lambda>(buf, val). unat val)") (auto simp: drop_bit_7_less)

declare write_uleb128.simps [simp del]

text \<open>An arithmetic right shift of an \<^verbatim>\<open>i64\<close> is \<open>signed_drop_bit\<close>.\<close>

lemma sint_signed_drop_bit: "sint (signed_drop_bit n v) = sint v div 2 ^ n" for v :: i64
  by (simp add: sint_signed_drop_bit_eq drop_bit_eq_div)

lemma sleb_measure:
  fixes v :: i64
  assumes "signed_drop_bit 6 v \<noteq> 0" "signed_drop_bit 6 v \<noteq> -1"
  shows "nat \<bar>sint (signed_drop_bit 1 (signed_drop_bit 6 v))\<bar> < nat \<bar>sint v\<bar>"
proof -
  have "sint (signed_drop_bit 6 v) \<noteq> 0" "sint (signed_drop_bit 6 v) \<noteq> -1"
    using assms by (metis sint_0 signed_word_eqI, metis sint_n1 signed_word_eqI)
  then have "sint v div 64 \<noteq> 0" "sint v div 64 \<noteq> -1"
    by (simp_all add: sint_signed_drop_bit)
  then have "sint v \<ge> 64 \<or> sint v < -64" by presburger
  moreover have "sint (signed_drop_bit 1 (signed_drop_bit 6 v)) = sint v div 128"
    by (simp add: sint_signed_drop_bit div_mult2_eq [symmetric] zdiv_zmult2_eq [symmetric])
  ultimately show ?thesis by auto
qed

function write_sleb128 :: "bytes \<Rightarrow> i64 \<Rightarrow> nat \<times> bytes" where
  "write_sleb128 buf val =
    (let byte = (ucast val :: u8);
         val = signed_drop_bit 6 val;
         done = (val = 0 \<or> val = -1);
         byte = (if done then byte AND NOT 0x80 else byte OR 0x80);
         val = (if done then val else signed_drop_bit 1 val);
         buf = buf @ [byte]
     in if done then (1, buf)
        else (case write_sleb128 buf val of (len, buf) \<Rightarrow> (Suc len, buf)))"
  by pat_completeness auto

termination
  by (relation "measure (\<lambda>(buf, val). nat \<bar>sint val\<bar>)") (auto simp: sleb_measure [simplified])

declare write_sleb128.simps [simp del]

section \<open>The buffer interface\<close>

lemma align_usize_eq: "align_usize = util_align"
  by (intro ext) (simp add: align_usize_def util_align_def)

text \<open>
  What a client of a \<^verbatim>\<open>WritableBuffer\<close> relies on. \<open>contents\<close> is what has been written so far and
  \<open>good\<close> says that no I/O error has been recorded.
\<close>

locale writable_buffer =
  fixes buf_len :: "'b \<Rightarrow> nat"
    and resize :: "nat \<Rightarrow> 'b \<Rightarrow> ('b, 'e) result"
    and write_bytes :: "bytes \<Rightarrow> 'b \<Rightarrow> ('b, 'e) result"
    and contents :: "'b \<Rightarrow> bytes"
    and good :: "'b \<Rightarrow> bool"
  assumes len_contents: "good b \<Longrightarrow> buf_len b = length (contents b)"
    and write_contents: "write_bytes val b = Ok b' \<Longrightarrow> good b' \<Longrightarrow>
      good b \<and> contents b' = contents b @ val"
    and resize_contents: "resize n b = Ok b' \<Longrightarrow> good b' \<Longrightarrow>
      good b \<and> buf_len b \<le> n \<and> contents b' = contents b @ replicate (n - buf_len b) 0"
begin

lemma write_align_contents:
  assumes "write_align buf_len resize (2 ^ k) b = Ok b'" "good b'"
  shows "contents b' = contents b @ replicate (align_up (buf_len b) (2 ^ k) - buf_len b) 0"
    and "buf_len b' = align_up (buf_len b) (2 ^ k)"
proof -
  from assms(1) have r: "resize (align_up (buf_len b) (2 ^ k)) b = Ok b'"
    by (auto simp: write_align_def align_usize_eq util_align_eq split: if_splits)
  note c = resize_contents [OF this assms(2)]
  show "contents b' = contents b @ replicate (align_up (buf_len b) (2 ^ k) - buf_len b) 0"
    using c by blast
  then show "buf_len b' = align_up (buf_len b) (2 ^ k)"
    using c len_contents [of b] len_contents [OF assms(2)] by simp
qed

lemma aligned_contents:
  assumes "write_align buf_len resize (2 ^ k) b = Ok b'" "write_bytes val b' = Ok b''" "good b''"
  shows "contents b'' = contents b @ replicate (align_up (buf_len b) (2 ^ k) - buf_len b) 0 @ val"
  using write_contents [OF assms(2,3)] write_align_contents(1) [OF assms(1)] by simp

text \<open>An aligned write puts the data at the aligned offset and nowhere else.\<close>

lemma aligned_write:
  assumes "write_align buf_len resize (2 ^ k) b = Ok b'" "write_bytes val b' = Ok b''" "good b''"
  shows "buf_len b'' = align_up (buf_len b) (2 ^ k) + length val"
    and "slice_at (contents b'') (align_up (buf_len b) (2 ^ k)) (length val) = val"
    and "take (buf_len b) (contents b'') = contents b"
proof -
  note w = write_contents [OF assms(2,3)]
  note a = write_align_contents [OF assms(1), OF conjunct1 [OF w]]
  have "good b"
  proof -
    from assms(1) obtain n where "resize n b = Ok b'"
      by (auto simp: write_align_def res_simps)
    with w show ?thesis using resize_contents by blast
  qed
  have l: "length (contents b') = align_up (buf_len b) (2 ^ k)"
    using len_contents [of b'] w a(2) by simp
  show "buf_len b'' = align_up (buf_len b) (2 ^ k) + length val"
    using len_contents [OF assms(3)] w l by simp
  show "slice_at (contents b'') (align_up (buf_len b) (2 ^ k)) (length val) = val"
    using w l by (simp add: slice_at_def)
  show "take (buf_len b) (contents b'') = contents b"
    using w a(1) len_contents [OF \<open>good b\<close>] by simp
qed

end

interpretation vec: writable_buffer Vec_len Vec_resize Vec_write_bytes vb_bytes "\<lambda>_. True"
  by unfold_locales (auto simp: Vec_len_def Vec_resize_def Vec_write_bytes_def res_simps)

definition streaming_good :: "('w \<Rightarrow> bytes) \<Rightarrow> ('w, 'io) streaming_buffer \<Rightarrow> bool" where
  "streaming_good written b \<longleftrightarrow>
    sb_result b = Ok () \<and> sb_len b = length (written (sb_writer b))"

text \<open>
  A writer whose \<^verbatim>\<open>write_all\<close> appends what it is given when it reports success; \<^verbatim>\<open>Vec<u8>\<close> is one.
\<close>

locale sink =
  fixes write_all :: "'w \<Rightarrow> bytes \<Rightarrow> (unit, 'io) result \<times> 'w"
    and written :: "'w \<Rightarrow> bytes"
  assumes write_all_ok: "write_all w val = (Ok (), w') \<Longrightarrow> written w' = written w @ val"
begin

lemma streaming_write:
  assumes "Streaming_write_bytes write_all val b = Ok b'" "sb_result b' = Ok ()"
  shows "sb_result b = Ok () \<and> sb_len b' = sb_len b + length val \<and>
    written (sb_writer b') = written (sb_writer b) @ val"
proof -
  obtain r w where rw: "write_all (sb_writer b) val = (r, w)" by fastforce
  have ok: "sb_result b = Ok ()" "r = Ok ()" and w: "sb_writer b' = w" "sb_len b' = sb_len b + length val"
    using assms rw by (auto simp: Streaming_write_bytes_def Let_def res_simps split: if_splits)
  have "written w = written (sb_writer b) @ val"
    using write_all_ok rw ok(2) by blast
  with ok w show ?thesis by simp
qed

lemma streaming_resize_loop:
  "Streaming_resize_loop write_all n b = (Ok b' :: (_, 'e) result) \<Longrightarrow> sb_result b' = Ok () \<Longrightarrow> sb_len b \<le> n \<Longrightarrow>
    sb_result b = Ok () \<and> sb_len b' = n \<and>
    written (sb_writer b') = written (sb_writer b) @ replicate (n - sb_len b) 0"
proof (induction "n - sb_len b" arbitrary: b rule: less_induct)
  case less
  show ?case
  proof (cases "sb_len b < n")
    case False
    with less.prems show ?thesis by (auto simp: Streaming_resize_loop.simps [of write_all n b])
  next
    case True
    define amt where "amt = (n - sb_len b - 1) mod 1024 + 1"
    have amt: "amt \<le> n - sb_len b"
      using True mod_less_eq_dividend [of "n - sb_len b - 1" 1024] by (simp add: amt_def)
    from less.prems(1) True obtain c where
        c: "Streaming_write_bytes write_all (replicate amt 0) b = (Ok c :: (_, 'e) result)"
      and rest: "Streaming_resize_loop write_all n c = (Ok b' :: (_, 'e) result)"
      by (auto simp: Streaming_resize_loop.simps [of write_all n b] Let_def res_simps amt_def)
    have cl: "sb_len c = sb_len b + amt"
      using c by (auto simp: Streaming_write_bytes_def Let_def res_simps
          split: if_splits prod.splits)
    have "sb_result c = Ok () \<and> sb_len b' = n \<and>
        written (sb_writer b') = written (sb_writer c) @ replicate (n - sb_len c) 0"
      using less.hyps [OF _ rest less.prems(2)] cl amt True by (simp add: amt_def)
    with streaming_write [OF c] cl amt show ?thesis
      by (simp flip: replicate_add)
  qed
qed

lemma streaming_resize:
  "Streaming_resize write_all n b = (Ok b' :: (_, 'e) result) \<Longrightarrow> sb_result b' = Ok () \<Longrightarrow>
    sb_len b \<le> n \<and> sb_result b = Ok () \<and> sb_len b' = n \<and>
    written (sb_writer b') = written (sb_writer b) @ replicate (n - sb_len b) 0"
  using streaming_resize_loop [of n b b'] by (auto simp: Streaming_resize_def res_simps)

lemma streaming_align:
  assumes "write_align sb_len (Streaming_resize write_all) (2 ^ k) b = (Ok b' :: (_, 'e) result)" "sb_result b' = Ok ()"
  shows "sb_result b = Ok () \<and> sb_len b' = align_up (sb_len b) (2 ^ k) \<and>
    written (sb_writer b') = written (sb_writer b) @ replicate (align_up (sb_len b) (2 ^ k) - sb_len b) 0"
proof -
  from assms(1) have "Streaming_resize write_all (align_up (sb_len b) (2 ^ k)) b = (Ok b' :: (_, 'e) result)"
    by (auto simp: write_align_def align_usize_eq util_align_eq split: if_splits)
  then show ?thesis
    using streaming_resize assms(2) by blast
qed

end

sublocale sink \<subseteq> streaming: writable_buffer sb_len "Streaming_resize write_all"
  "Streaming_write_bytes write_all" "\<lambda>b. written (sb_writer b)" "streaming_good written"
proof
  fix b assume "streaming_good written b"
  then show "sb_len b = length (written (sb_writer b))" by (simp add: streaming_good_def)
next
  fix val b b'
  assume w: "Streaming_write_bytes write_all val b = Ok b'" and good: "streaming_good written b'"
  show "streaming_good written b \<and> written (sb_writer b') = written (sb_writer b) @ val"
    using streaming_write [OF w] good by (auto simp: streaming_good_def)
next
  fix n b b'
  assume r: "Streaming_resize write_all n b = Ok b'" and good: "streaming_good written b'"
  then have "sb_result b' = Ok ()" by (simp add: streaming_good_def)
  from streaming_resize [OF r this] good
  show "streaming_good written b \<and> sb_len b \<le> n \<and>
      written (sb_writer b') = written (sb_writer b) @ replicate (n - sb_len b) 0"
    by (auto simp: streaming_good_def)
qed

definition Vec_write_all :: "bytes \<Rightarrow> bytes \<Rightarrow> (unit, unit) result \<times> bytes" where
  "Vec_write_all w val = (Ok (), w @ val)"

interpretation vec_sink: sink Vec_write_all id
  by unfold_locales (simp add: Vec_write_all_def)

section \<open>Properties\<close>

text \<open>C16: an aligned write to a streaming buffer, after which no error is recorded, puts null bytes up to the next multiple of the alignment of the length and then the data into the underlying writer, and nothing else; the length is that of the aligned end, and no error was recorded before.\<close>

theorem streaming_aligned_write:
  assumes "\<And>w val w'. write_all w val = (Ok (), w') \<Longrightarrow> written w' = written w @ val"
    and "write_align sb_len (Streaming_resize write_all) (2 ^ k) b = (Ok b' :: (_, 'e) result)"
    and "Streaming_write_bytes write_all val b' = (Ok b'' :: (_, 'e) result)" "sb_result b'' = Ok ()"
  shows "sb_len b'' = align_up (sb_len b) (2 ^ k) + length val \<and>
    written (sb_writer b'') = written (sb_writer b) @
      replicate (align_up (sb_len b) (2 ^ k) - sb_len b) 0 @ val \<and>
    sb_result b = Ok ()"
proof -
  have sink: "sink write_all written" using assms(1) by (rule sink.intro)
  note w = sink.streaming_write [OF sink assms(3,4)]
  show ?thesis using w sink.streaming_align [OF sink assms(2), OF conjunct1 [OF w]] by simp
qed

text \<open>A buffer with the byte 7, aligned to 4, and then the byte 9.\<close>

theorem streaming_aligned_write_witness:
  "\<exists>b' b''. write_align sb_len (Streaming_resize Vec_write_all) (2 ^ 2)
      \<lparr>sb_writer = [7], sb_len = 1, sb_result = Ok ()\<rparr> = (Ok b' :: (_, unit) result) \<and>
    Streaming_write_bytes Vec_write_all [9] b' = (Ok b'' :: (_, unit) result) \<and>
    sb_len b'' = 5 \<and> sb_writer b'' = [7, 0, 0, 0, 9]"
proof -
  let ?b = "\<lparr>sb_writer = [7 :: u8], sb_len = 1, sb_result = Ok () :: (unit, unit) result\<rparr>"
  let ?c = "\<lparr>sb_writer = [7 :: u8, 0, 0, 0], sb_len = 4, sb_result = Ok () :: (unit, unit) result\<rparr>"
  have "Streaming_resize_loop Vec_write_all 4 ?c = (Ok ?c :: (_, unit) result)"
    by (subst Streaming_resize_loop.simps) simp
  moreover have "Streaming_write_bytes Vec_write_all (replicate 3 0) ?b = (Ok ?c :: (_, unit) result)"
    by (simp add: Streaming_write_bytes_def Vec_write_all_def usize_add_def usize_max_def numeral_3_eq_3)
  ultimately have "Streaming_resize Vec_write_all 4 ?b = (Ok ?c :: (_, unit) result)"
    unfolding Streaming_resize_def by (subst Streaming_resize_loop.simps) (simp add: debug_assert_def)
  then have pad: "write_align sb_len (Streaming_resize Vec_write_all) (2 ^ 2) ?b = (Ok ?c :: (_, unit) result)"
    unfolding write_align_def align_usize_eq util_align_eq
    by (simp add: align_up_def usize_max_def)
  have "replicate 3 (0 :: u8) = [0, 0, 0]" by (simp add: numeral_3_eq_3)
  then have three: "align_up (sb_len ?b) (2 ^ 2) = 4" "replicate (4 - sb_len ?b) (0 :: u8) = [0, 0, 0]"
    by (simp_all add: align_up_def)
  define d where "d = \<lparr>sb_writer = [7 :: u8, 0, 0, 0, 9], sb_len = 5, sb_result = Ok () :: (unit, unit) result\<rparr>"
  have val: "Streaming_write_bytes Vec_write_all [9] ?c = (Ok d :: (_, unit) result)" "sb_result d = Ok ()"
    by (simp_all add: Streaming_write_bytes_def Vec_write_all_def usize_add_def usize_max_def d_def)
  have law: "id w' = id w @ v" if "Vec_write_all w v = (Ok (), w')" for w v w'
    using that by (simp add: Vec_write_all_def)
  have "sb_len d = 5 \<and> sb_writer d = [7, 0, 0, 0, 9]"
    using streaming_aligned_write [of Vec_write_all id, OF law pad val] unfolding three by simp
  then show ?thesis using pad val(1) by (intro exI [of _ ?c] exI [of _ d]) simp
qed

end
