(* ===== verification/Leb128.thy ===== *)
theory Leb128
  imports Read_Util Write_Util
begin

text \<open>
  The LEB128 writers of \<^verbatim>\<open>src/write/util.rs\<close> against the readers of \<^verbatim>\<open>src/read/util.rs\<close>: every
  \<open>u64\<close> and every \<open>i64\<close> is read back, the readers stop exactly where the writers stopped, and the
  encodings take at most ten bytes.
\<close>

section \<open>The encodings\<close>

definition uleb_enc :: "u64 \<Rightarrow> bytes" where
  "uleb_enc v = snd (write_uleb128 [] v)"

definition sleb_enc :: "i64 \<Rightarrow> bytes" where
  "sleb_enc v = snd (write_sleb128 [] v)"

lemma write_uleb128_append:
  "write_uleb128 buf v = (length (uleb_enc v), buf @ uleb_enc v)"
proof -
  have "\<exists>bs. \<forall>buf. write_uleb128 buf v = (length bs, buf @ bs)"
  proof (induction "unat v" arbitrary: v rule: less_induct)
    case less
    show ?case
    proof (cases "drop_bit 7 v = 0")
      case True
      then show ?thesis
        by (intro exI [of _ "[ucast (v AND 0x7f)]"] allI)
          (simp add: write_uleb128.simps [of _ v] Let_def)
    next
      case False
      from less.hyps [OF drop_bit_7_less [OF False]]
      obtain bs where "\<And>buf. write_uleb128 buf (drop_bit 7 v) = (length bs, buf @ bs)" by blast
      with False show ?thesis
        by (intro exI [of _ "(ucast (v AND 0x7f) OR 0x80) # bs"] allI)
          (simp add: write_uleb128.simps [of _ v] Let_def)
    qed
  qed
  then show ?thesis by (metis append_Nil snd_conv uleb_enc_def)
qed

lemma uleb_enc_rec:
  "uleb_enc v = (if drop_bit 7 v = 0 then [ucast (v AND 0x7f)]
     else (ucast (v AND 0x7f) OR 0x80) # uleb_enc (drop_bit 7 v))"
  unfolding uleb_enc_def [of v]
  by (subst write_uleb128.simps) (simp add: Let_def write_uleb128_append)

lemma write_sleb128_append:
  "write_sleb128 buf v = (length (sleb_enc v), buf @ sleb_enc v)"
proof -
  have "\<exists>bs. \<forall>buf. write_sleb128 buf v = (length bs, buf @ bs)"
  proof (induction "nat \<bar>sint v\<bar>" arbitrary: v rule: less_induct)
    case less
    show ?case
    proof (cases "signed_drop_bit 6 v = 0 \<or> signed_drop_bit 6 v = -1")
      case True
      then show ?thesis
        by (intro exI [of _ "[ucast v AND NOT 0x80]"] allI)
          (auto simp: write_sleb128.simps [of _ v] Let_def)
    next
      case False
      then have "signed_drop_bit 6 v \<noteq> 0" "signed_drop_bit 6 v \<noteq> -1" by simp_all
      from less.hyps [OF sleb_measure [OF this]]
      obtain bs where "\<And>buf. write_sleb128 buf (signed_drop_bit 1 (signed_drop_bit 6 v))
          = (length bs, buf @ bs)" by blast
      with False show ?thesis
        by (intro exI [of _ "(ucast v OR 0x80) # bs"] allI)
          (simp add: write_sleb128.simps [of _ v] Let_def)
    qed
  qed
  then show ?thesis by (metis append_Nil snd_conv sleb_enc_def)
qed

lemma sleb_enc_rec:
  "sleb_enc v = (if signed_drop_bit 6 v = 0 \<or> signed_drop_bit 6 v = -1
     then [ucast v AND NOT 0x80]
     else (ucast v OR 0x80) # sleb_enc (signed_drop_bit 1 (signed_drop_bit 6 v)))"
  unfolding sleb_enc_def [of v]
  by (subst write_sleb128.simps) (auto simp: Let_def write_sleb128_append)

section \<open>Bits\<close>

lemma mask_numerals: "(0x7f :: u8) = mask 7" "(0x7f :: u64) = mask 7"
  by (simp_all add: mask_eq_exp_minus_1)

lemma bit_0x80: "bit (0x80 :: u8) n \<longleftrightarrow> n = 7" "bit (0x80 :: u64) n \<longleftrightarrow> n = 7"
proof -
  have "(0x80 :: u8) = 2 ^ 7" by simp
  then show "bit (0x80 :: u8) n \<longleftrightarrow> n = 7" by (simp only: bit_exp_iff) auto
  have "(0x80 :: u64) = 2 ^ 7" by simp
  then show "bit (0x80 :: u64) n \<longleftrightarrow> n = 7" by (simp only: bit_exp_iff) auto
qed

lemma and_0x80_iff: "b AND 0x80 = 0 \<longleftrightarrow> \<not> bit b 7" for b :: u8
  using bit_iff_and_push_bit_not_eq_0 [of b 7] by simp

lemma and_0x40_iff: "b AND 0x40 = 0 \<longleftrightarrow> \<not> bit b 6" for b :: u8
  using bit_iff_and_push_bit_not_eq_0 [of b 6] by simp

lemma or_0x80_and_0x7f: "(x OR 0x80) AND 0x7f = x AND 0x7f" for x :: u8
  by (simp add: bit.conj_disj_distrib2)

definition last_byte :: "u64 \<Rightarrow> u8" where
  "last_byte v = ucast (v AND 0x7f)"

definition cont_byte :: "u64 \<Rightarrow> u8" where
  "cont_byte v = ucast (v AND 0x7f) OR 0x80"

lemma last_byte_facts: "\<not> bit (last_byte v) 7" "ucast (last_byte v AND 0x7f) = v AND 0x7f"
proof -
  show "\<not> bit (last_byte v) 7"
    unfolding last_byte_def mask_numerals by (simp add: bit_simps)
  show "ucast (last_byte v AND 0x7f) = v AND 0x7f"
    unfolding last_byte_def mask_numerals by (rule bit_word_eqI) (auto simp: bit_simps)
qed

lemma cont_byte_facts: "bit (cont_byte v) 7" "ucast (cont_byte v AND 0x7f) = v AND 0x7f"
proof -
  show "bit (cont_byte v) 7"
    unfolding cont_byte_def mask_numerals by (simp add: bit_simps bit_0x80)
  have "cont_byte v AND 0x7f = last_byte v AND 0x7f"
    by (simp add: cont_byte_def last_byte_def or_0x80_and_0x7f)
  then show "ucast (cont_byte v AND 0x7f) = v AND 0x7f"
    by (simp only: last_byte_facts)
qed

lemma uleb_enc_bytes:
  "uleb_enc v = (if drop_bit 7 v = 0 then [last_byte v] else cont_byte v # uleb_enc (drop_bit 7 v))"
  unfolding last_byte_def cont_byte_def by (rule uleb_enc_rec)

lemma join_payload:
  "push_bit s (v AND 0x7f) OR push_bit (s + 7) (drop_bit 7 v) = push_bit s v" for v :: u64
proof (rule bit_word_eqI)
  fix n assume "n < LENGTH(64)"
  show "bit (push_bit s (v AND 0x7f) OR push_bit (s + 7) (drop_bit 7 v)) n = bit (push_bit s v) n"
    unfolding mask_numerals by (cases "n < s + 7") (auto simp: bit_simps)
qed

lemma word_less_2: "unat v < 2 \<Longrightarrow> v = 0 \<or> v = 1" for v :: u64
  by (auto simp: word_unat_eq_iff less_2_cases_iff)

section \<open>Unsigned round trip\<close>

lemma uleb128_loop_stop:
  assumes "shift < 64" "shift = 63 \<longrightarrow> b = 0 \<or> b = 1" "\<not> bit b 7"
  shows "uleb128_loop r shift (b # self) = (Ok (r OR push_bit shift (ucast (b AND 0x7f))), self)"
  using assms and_0x80_iff [of b] by (simp only: uleb128_loop.simps Let_def) auto

lemma uleb128_loop_cont:
  assumes "shift < 63" "bit b 7"
  shows "uleb128_loop r shift (b # self) =
    uleb128_loop (r OR push_bit shift (ucast (b AND 0x7f))) (shift + 7) self"
  using assms and_0x80_iff [of b] by (simp only: uleb128_loop.simps Let_def) auto

lemma uleb128_loop_last:
  assumes "7 * k \<le> 63" "unat v < 2 ^ (64 - 7 * k)" "drop_bit 7 v = 0"
  shows "uleb128_loop r (7 * k) (uleb_enc v @ rest) = (Ok (r OR push_bit (7 * k) v), rest)"
proof -
  have low: "7 * k = 63 \<longrightarrow> last_byte v = 0 \<or> last_byte v = 1"
    using assms(2) word_less_2 [of v] by (auto simp: last_byte_def)
  have v: "v AND 0x7f = v"
    using join_payload [of 0 v] assms(3) by simp
  have "uleb_enc v @ rest = last_byte v # rest"
    using assms(3) by (simp add: uleb_enc_bytes [of v])
  moreover have "7 * k < 64" using assms(1) by simp
  ultimately show ?thesis
    using uleb128_loop_stop [OF _ low last_byte_facts(1), of r rest]
    by (simp only: last_byte_facts v)
qed

lemma uleb128_loop_enc:
  "7 * k \<le> 63 \<Longrightarrow> unat v < 2 ^ (64 - 7 * k) \<Longrightarrow>
    uleb128_loop r (7 * k) (uleb_enc v @ rest) = (Ok (r OR push_bit (7 * k) v), rest)"
proof (induction "unat v" arbitrary: v r k rule: less_induct)
  case less
  show ?case
  proof (cases "drop_bit 7 v = 0")
    case True
    with less.prems show ?thesis by (rule uleb128_loop_last)
  next
    case False
    then have "unat v \<ge> 128"
      by (metis div_eq_0_iff not_less unat_drop_bit_7 unat_eq_zero)
    have "7 * k < 63"
    proof (rule ccontr)
      assume "\<not> 7 * k < 63"
      then have "64 - 7 * k \<le> 1" by simp
      then have "(2 :: nat) ^ (64 - 7 * k) \<le> 2 ^ 1" by (rule power_increasing) simp
      with less.prems(2) \<open>unat v \<ge> 128\<close> show False by simp
    qed
    then have k: "7 * Suc k \<le> 63" by presburger
    then have "(2 :: nat) ^ (64 - 7 * k) = 2 ^ (7 + (64 - 7 * Suc k))" by (simp add: algebra_simps)
    then have "unat (drop_bit 7 v) < 2 ^ (64 - 7 * Suc k)"
      using less.prems(2) by (simp add: unat_drop_bit_7 power_add less_mult_imp_div_less)
    note IH = less.hyps [OF drop_bit_7_less [OF False] k this]
    have "uleb128_loop r (7 * k) (uleb_enc v @ rest) =
      uleb128_loop (r OR push_bit (7 * k) (v AND 0x7f)) (7 * k + 7) (uleb_enc (drop_bit 7 v) @ rest)"
      using uleb128_loop_cont [OF \<open>7 * k < 63\<close> cont_byte_facts(1)] False
      by (simp only: uleb_enc_bytes [of v] if_False append_Cons cont_byte_facts)
    also have "\<dots> = (Ok ((r OR push_bit (7 * k) (v AND 0x7f)) OR
        push_bit (7 * k + 7) (drop_bit 7 v)), rest)"
      using IH by (simp only: mult_Suc_right add.commute)
    finally show ?thesis
      by (simp only: or.assoc join_payload)
  qed
qed

section \<open>Signed round trip\<close>

lemma ucast_minus_1: "ucast (-1 :: i64) = (-1 :: u8)"
  by (rule bit_word_eqI) (simp add: bit_simps)

definition sign_byte :: "i64 \<Rightarrow> u8" where
  "sign_byte v = ucast v AND NOT 0x80"

lemma sleb_enc_bytes:
  "sleb_enc v = (if signed_drop_bit 6 v = 0 \<or> signed_drop_bit 6 v = -1 then [sign_byte v]
     else (ucast v OR 0x80) # sleb_enc (signed_drop_bit 1 (signed_drop_bit 6 v)))"
  unfolding sign_byte_def by (rule sleb_enc_rec)

lemma ucast_or_0x80: "bit ((ucast (v :: i64) :: u8) OR 0x80) 7"
  by (simp add: bit_simps bit_0x80)

lemma ucast_and_0x7f: "ucast ((ucast (v :: i64) :: u8) AND 0x7f) = v AND 0x7f"
  unfolding mask_numerals by (rule bit_word_eqI) (auto simp: bit_simps)

lemma sign_byte_facts:
  "\<not> bit (sign_byte v) 7" "ucast (sign_byte v AND 0x7f) = v AND 0x7f"
  "bit (sign_byte v) 6 \<longleftrightarrow> bit v 6"
proof -
  show "\<not> bit (sign_byte v) 7" "bit (sign_byte v) 6 \<longleftrightarrow> bit v 6"
    unfolding sign_byte_def by (simp_all only: bit_and_iff bit_not_iff bit_0x80) (auto simp: bit_simps)
  have "NOT 0x80 AND 0x7f = (0x7f :: u8)" by simp
  then have "sign_byte v AND 0x7f = ucast v AND 0x7f"
    unfolding sign_byte_def by (simp only: and.assoc)
  then show "ucast (sign_byte v AND 0x7f) = v AND 0x7f"
    by (simp only: ucast_and_0x7f)
qed

lemma bit_signed_drop_bit_small:
  "n + m < 64 \<Longrightarrow> bit (signed_drop_bit n v) m \<longleftrightarrow> bit v (n + m)" for v :: i64
  by (cases "64 - n \<le> m") (auto simp: bit_signed_drop_bit_iff)

lemma signed_drop_bit_7: "signed_drop_bit 1 (signed_drop_bit 6 v) = signed_drop_bit 7 v" for v :: i64
  by (rule bit_word_eqI) (auto simp: bit_signed_drop_bit_iff not_le)

lemma signed_join_payload:
  "push_bit s (v AND 0x7f) OR push_bit (s + 7) (signed_drop_bit 7 v) = push_bit s v" for v :: i64
proof (rule bit_word_eqI)
  fix n assume "n < LENGTH(64)"
  then show "bit (push_bit s (v AND 0x7f) OR push_bit (s + 7) (signed_drop_bit 7 v)) n
      = bit (push_bit s v) n"
    unfolding mask_numerals
    by (cases "n < s + 7") (auto simp: bit_simps bit_signed_drop_bit_small)
qed

lemma signed_fill:
  fixes v :: i64
  assumes "signed_drop_bit 6 v = 0 \<or> signed_drop_bit 6 v = -1"
  shows "bit v 6 \<longleftrightarrow> signed_drop_bit 6 v = -1" "signed_drop_bit 7 v = signed_drop_bit 6 v"
proof -
  have "bit v 6 \<longleftrightarrow> bit (signed_drop_bit 6 v) 0"
    using bit_signed_drop_bit_small [of 6 0 v] by simp
  with assms show "bit v 6 \<longleftrightarrow> signed_drop_bit 6 v = -1" by auto
  show "signed_drop_bit 7 v = signed_drop_bit 6 v"
    unfolding signed_drop_bit_7 [symmetric] using assms by (elim disjE) simp_all
qed

lemma sleb128_loop_stop:
  assumes "shift < 64" "shift = 63 \<longrightarrow> b = 0 \<or> b = 0x7f" "\<not> bit b 7"
  shows "sleb128_loop r shift (b # self) =
    (Ok (if shift + 7 < 64 \<and> bit b 6
         then (r OR push_bit shift (ucast (b AND 0x7f))) OR push_bit (shift + 7) (NOT 0)
         else r OR push_bit shift (ucast (b AND 0x7f))), self)"
  using assms and_0x80_iff [of b] and_0x40_iff [of b]
  by (simp only: sleb128_loop.simps Let_def) auto

lemma sleb128_loop_cont:
  assumes "shift < 63" "bit b 7"
  shows "sleb128_loop r shift (b # self) =
    sleb128_loop (r OR push_bit shift (ucast (b AND 0x7f))) (shift + 7) self"
  using assms and_0x80_iff [of b] by (simp only: sleb128_loop.simps Let_def) auto

lemma sint_0_or_minus_1:
  fixes v :: i64
  assumes "- 1 \<le> sint v" "sint v < 1"
  shows "v = 0 \<or> v = -1"
proof -
  from assms have "sint v = sint (0 :: i64) \<or> sint v = sint (-1 :: i64)" by simp linarith
  then show ?thesis by (metis signed_word_eqI)
qed

lemma sleb128_loop_last:
  assumes "7 * k \<le> 63" "- (2 ^ (63 - 7 * k)) \<le> sint v" "sint v < 2 ^ (63 - 7 * k)"
    and "signed_drop_bit 6 v = 0 \<or> signed_drop_bit 6 v = -1"
  shows "sleb128_loop r (7 * k) (sleb_enc v @ rest) = (Ok (r OR push_bit (7 * k) v), rest)"
proof -
  have enc: "sleb_enc v @ rest = sign_byte v # rest"
    using assms(4) by (simp add: sleb_enc_bytes [of v])
  have low: "7 * k = 63 \<longrightarrow> sign_byte v = 0 \<or> sign_byte v = 0x7f"
  proof
    assume "7 * k = 63"
    with assms(2,3) have "v = 0 \<or> v = -1" using sint_0_or_minus_1 [of v] by simp
    then show "sign_byte v = 0 \<or> sign_byte v = 0x7f" by (rule disjE) (simp_all add: sign_byte_def ucast_minus_1)
  qed
  have "7 * k < 64" using assms(1) by simp
  note loop = sleb128_loop_stop [OF this low sign_byte_facts(1), of r rest]
  show ?thesis
  proof (cases "7 * k = 63")
    case True
    have "push_bit 63 (v AND 0x7f) = push_bit 63 v"
      using signed_join_payload [of 63 v] by simp
    with True loop show ?thesis by (simp only: enc sign_byte_facts) simp
  next
    case False
    with assms(1) have "7 * k + 7 < 64" by presburger
    with loop signed_join_payload [of "7 * k" v] signed_fill [OF assms(4)] assms(4)
    show ?thesis by (simp only: enc sign_byte_facts) (auto simp: or.assoc)
  qed
qed

lemma sleb128_loop_enc:
  "7 * k \<le> 63 \<Longrightarrow> - (2 ^ (63 - 7 * k)) \<le> sint v \<Longrightarrow> sint v < 2 ^ (63 - 7 * k) \<Longrightarrow>
    sleb128_loop r (7 * k) (sleb_enc v @ rest) = (Ok (r OR push_bit (7 * k) v), rest)"
proof (induction "nat \<bar>sint v\<bar>" arbitrary: v r k rule: less_induct)
  case less
  show ?case
  proof (cases "signed_drop_bit 6 v = 0 \<or> signed_drop_bit 6 v = -1")
    case True
    with less.prems show ?thesis by (rule sleb128_loop_last)
  next
    case False
    then have more: "signed_drop_bit 6 v \<noteq> 0" "signed_drop_bit 6 v \<noteq> -1" by simp_all
    then have "sint (signed_drop_bit 6 v) \<noteq> 0" "sint (signed_drop_bit 6 v) \<noteq> -1"
      by (metis sint_0 signed_word_eqI, metis sint_n1 signed_word_eqI)
    then have "\<not> (- 64 \<le> sint v \<and> sint v < 64)"
      unfolding sint_signed_drop_bit by simp presburger
    have "7 * k < 63"
    proof (rule ccontr)
      assume "\<not> 7 * k < 63"
      with less.prems have "- 1 \<le> sint v" "sint v < 1" by simp_all
      with \<open>\<not> (- 64 \<le> sint v \<and> sint v < 64)\<close> show False by simp
    qed
    then have k: "7 * Suc k \<le> 63" by presburger
    then have "(2 :: int) ^ (63 - 7 * k) = 128 * 2 ^ (63 - 7 * Suc k)"
      using power_add [of "2 :: int" 7 "63 - 7 * Suc k"] by (simp add: algebra_simps)
    with less.prems have "- (2 ^ (63 - 7 * Suc k)) \<le> sint v div 128" "sint v div 128 < 2 ^ (63 - 7 * Suc k)"
      by simp_all
    then have b: "- (2 ^ (63 - 7 * Suc k)) \<le> sint (signed_drop_bit 7 v)"
      "sint (signed_drop_bit 7 v) < 2 ^ (63 - 7 * Suc k)"
      by (simp_all add: sint_signed_drop_bit)
    note IH = less.hyps [OF sleb_measure [OF more], unfolded signed_drop_bit_7, OF k b]
    have "sleb128_loop r (7 * k) (sleb_enc v @ rest) =
      sleb128_loop (r OR push_bit (7 * k) (v AND 0x7f)) (7 * k + 7) (sleb_enc (signed_drop_bit 7 v) @ rest)"
      using sleb128_loop_cont [OF \<open>7 * k < 63\<close> ucast_or_0x80] False
      by (simp only: sleb_enc_bytes [of v] if_False append_Cons signed_drop_bit_7 or_0x80_and_0x7f
          ucast_and_0x7f)
    also have "\<dots> = (Ok ((r OR push_bit (7 * k) (v AND 0x7f)) OR
        push_bit (7 * k + 7) (signed_drop_bit 7 v)), rest)"
      using IH by (simp only: mult_Suc_right add.commute)
    finally show ?thesis
      by (simp only: or.assoc signed_join_payload)
  qed
qed

section \<open>Results\<close>

lemma read_uleb128_enc: "read_uleb128 (uleb_enc v @ rest) = (Ok v, rest)"
  using uleb128_loop_enc [of 0 v 0 rest] unsigned_less [of v] by (simp add: read_uleb128_def)

lemma read_sleb128_enc: "read_sleb128 (sleb_enc v @ rest) = (Ok v, rest)"
  using sleb128_loop_enc [of 0 v 0 rest] sint_lt [of v] sint_ge [of v]
  by (simp add: read_sleb128_def)

lemma length_uleb_enc: "unat v < 2 ^ (7 * Suc k) \<Longrightarrow> length (uleb_enc v) \<le> Suc k"
proof (induction k arbitrary: v)
  case 0
  then have "drop_bit 7 v = 0" by (simp add: unat_drop_bit_7 flip: unat_eq_zero)
  then show ?case by (simp add: uleb_enc_bytes [of v])
next
  case (Suc k)
  have "unat v < 128 * 2 ^ (7 * Suc k)"
    using Suc.prems power_add [of "2 :: nat" 7 "7 * Suc k"] by simp
  then have "unat (drop_bit 7 v) < 2 ^ (7 * Suc k)"
    by (simp only: unat_drop_bit_7 less_mult_imp_div_less mult.commute)
  from Suc.IH [OF this] show ?case by (simp add: uleb_enc_bytes [of v])
qed

section \<open>Properties\<close>

text \<open>C9: the reader gets back what the unsigned LEB128 writer appends, which is at most ten bytes.\<close>

theorem uleb128_round_trip:
  "read_uleb128 (snd (write_uleb128 [] v) @ rest) = (Ok v, rest) \<and>
    fst (write_uleb128 buf v) \<le> 10 \<and>
    snd (write_uleb128 buf v) = buf @ snd (write_uleb128 [] v)"
  using length_uleb_enc [of v 9] unsigned_less [of v, where ?'a = nat]
  by (simp add: write_uleb128_append read_uleb128_enc order.strict_trans)

text \<open>C10: the reader gets back what the signed LEB128 writer appends, and the writer only appends.\<close>

theorem sleb128_round_trip:
  "read_sleb128 (snd (write_sleb128 [] v) @ rest) = (Ok v, rest) \<and>
    snd (write_sleb128 buf v) = buf @ snd (write_sleb128 [] v)"
  by (simp add: write_sleb128_append read_sleb128_enc)

text \<open>C11: the LEB128 readers never panic, and consume input unless there is none.\<close>

theorem leb128_readers_total:
  "fst (read_uleb128 self) \<noteq> Panic \<and> fst (read_sleb128 self) \<noteq> Panic \<and>
   length (snd (read_uleb128 (b # self))) \<le> length self \<and>
   length (snd (read_sleb128 (b # self))) \<le> length self"
  using read_uleb128_no_panic [of self] read_sleb128_no_panic [of self]
    read_uleb128_shrinks [of "b # self"] read_sleb128_shrinks [of "b # self"] by simp

end
