(* ===== verification/String_Table.thy ===== *)
theory String_Table
  imports Read_Util "HOL-Library.Multiset" "HOL-Library.List_Lexorder" "HOL-Library.Sublist"
begin

text \<open>
  \<^verbatim>\<open>src/write/string.rs\<close>: the string table writer. The strings are kept in an \<^verbatim>\<open>IndexSet\<close> of the
  third-party crate \<^verbatim>\<open>indexmap\<close>; its methods are a parameter \<open>ix\<close> of the definitions and
  \<open>index_set_laws\<close> states their documented behaviour. The multi-key quicksort, the table image and
  the size are translated as they are. The lemmas show that the sort terminates, permutes the ids
  and orders the reversed strings downwards, that exactly the strings that are no proper suffix
  of another string are written, and that every string is found at its offset.
\<close>

section \<open>The index set\<close>

record 's index_set_ops =
  ix_new :: 's
  ix_len :: "'s \<Rightarrow> nat"
  ix_insert_full :: "bytes \<Rightarrow> 's \<Rightarrow> (nat \<times> bool) \<times> 's"
  ix_get_index_of :: "bytes \<Rightarrow> 's \<Rightarrow> nat option"
  ix_get_index :: "nat \<Rightarrow> 's \<Rightarrow> bytes option"

fun position :: "'a \<Rightarrow> 'a list \<Rightarrow> nat option" where
  "position x [] = None"
| "position x (y # ys) = (if x = y then Some 0 else map_option Suc (position x ys))"

definition index_set_laws :: "'s index_set_ops \<Rightarrow> ('s \<Rightarrow> bytes list) \<Rightarrow> bool" where
  "index_set_laws ix elems \<longleftrightarrow>
    elems (ix_new ix) = [] \<and>
    (\<forall>s. ix_len ix s = length (elems s)) \<and>
    (\<forall>s i. ix_get_index ix i s = get_opt (elems s) i) \<and>
    (\<forall>s b. ix_get_index_of ix b s = position b (elems s)) \<and>
    (\<forall>s b. case ix_insert_full ix b s of ((i, fresh), s') \<Rightarrow>
       (case position b (elems s) of
          Some j \<Rightarrow> i = j \<and> \<not> fresh \<and> elems s' = elems s
        | None \<Rightarrow> i = length (elems s) \<and> fresh \<and> elems s' = elems s @ [b]))"

text \<open>A set with this behaviour, for concrete evaluations.\<close>

definition list_set :: "bytes list index_set_ops" where
  "list_set = \<lparr>ix_new = [], ix_len = length,
     ix_insert_full = (\<lambda>b s. case position b s of
        Some j \<Rightarrow> ((j, False), s) | None \<Rightarrow> ((length s, True), s @ [b])),
     ix_get_index_of = position, ix_get_index = (\<lambda>i s. get_opt s i)\<rparr>"

lemma index_set_laws_list_set: "index_set_laws list_set id"
  by (simp add: index_set_laws_def list_set_def split: option.splits)

lemma position_append:
  "position x (xs @ ys) = (case position x xs of Some j \<Rightarrow> Some j
     | None \<Rightarrow> map_option (\<lambda>n. length xs + n) (position x ys))"
proof (induction xs)
  case Nil
  show ?case by (cases "position x ys") simp_all
next
  case (Cons y xs)
  then show ?case by (cases "position x ys") (auto split: option.splits)
qed

lemma position_eq_None: "position x ys = None \<longleftrightarrow> x \<notin> set ys"
  by (induction ys) auto

lemma position_eq_Some: "position x ys = Some i \<Longrightarrow> i < length ys \<and> ys ! i = x"
  by (induction ys arbitrary: i) (auto split: if_splits)

lemma position_nth: "distinct ys \<Longrightarrow> i < length ys \<Longrightarrow> position (ys ! i) ys = Some i"
  by (induction ys arbitrary: i) (auto simp: nth_Cons split: nat.splits)

section \<open>The sort\<close>

definition byte :: "'s index_set_ops \<Rightarrow> 's \<Rightarrow> nat \<Rightarrow> nat \<Rightarrow> (u8, string) result" where
  "byte ix strings sid pos =
    and_then (unwrap (ix_get_index ix sid strings)) (\<lambda>str.
    let len = length str in
    if pos \<le> len then index_list str (len - pos) else Ok 0)"

definition list_swap :: "nat \<Rightarrow> nat \<Rightarrow> 'a list \<Rightarrow> ('a list, 'e) result" where
  "list_swap a b xs =
    (if a < length xs \<and> b < length xs then Ok (xs[a := xs ! b, b := xs ! a]) else Panic)"

function partition_loop :: "'s index_set_ops \<Rightarrow> 's \<Rightarrow> nat \<Rightarrow> u8 \<Rightarrow> nat list \<Rightarrow> nat \<Rightarrow> nat \<Rightarrow> nat \<Rightarrow>
    (nat list \<times> nat \<times> nat, string) result" where
  "partition_loop ix strings pos pivot ids lower upper i =
    (if i < upper then
       and_then (index_list ids i) (\<lambda>sid.
       and_then (byte ix strings sid pos) (\<lambda>b.
       if b > pivot then
         and_then (list_swap lower i ids) (\<lambda>ids.
         partition_loop ix strings pos pivot ids (lower + 1) upper (i + 1))
       else if b < pivot then
         (let upper = upper - 1 in
         and_then (list_swap upper i ids) (\<lambda>ids.
         partition_loop ix strings pos pivot ids lower upper i))
       else partition_loop ix strings pos pivot ids lower upper (i + 1)))
     else Ok (ids, lower, upper))"
  by pat_completeness auto
termination
  by (relation "measure (\<lambda>(_, _, _, _, _, _, upper, i). upper - i)") auto

declare partition_loop.simps [simp del]

text \<open>The state of the partition loop that matters for termination and for the result.\<close>

definition partitioned ::
  "(nat \<Rightarrow> u8 option) \<Rightarrow> u8 \<Rightarrow> nat list \<Rightarrow> nat \<Rightarrow> nat \<Rightarrow> nat \<Rightarrow> bool" where
  "partitioned key pivot ids lower upper i \<longleftrightarrow>
    lower < i \<and> i \<le> upper \<and> upper \<le> length ids \<and>
    (\<forall>j < lower. \<exists>b > pivot. key (ids ! j) = Some b) \<and>
    (\<forall>j. lower \<le> j \<and> j < i \<longrightarrow> key (ids ! j) = Some pivot) \<and>
    (\<forall>j. upper \<le> j \<and> j < length ids \<longrightarrow> (\<exists>b < pivot. key (ids ! j) = Some b))"

definition ok_value :: "('a, 'e) result \<Rightarrow> 'a option" where
  "ok_value r = (case r of Ok a \<Rightarrow> Some a | _ \<Rightarrow> None)"

lemma ok_value_eq_Some: "ok_value r = Some a \<longleftrightarrow> r = Ok a"
  by (cases r) (auto simp: ok_value_def)

lemma list_swap_eq_Ok [res_simps]:
  "list_swap a b xs = Ok ys \<longleftrightarrow> a < length xs \<and> b < length xs \<and> ys = xs[a := xs ! b, b := xs ! a]"
  by (auto simp: list_swap_def)

lemma partitioned_greater:
  assumes "partitioned key pivot ids lower upper i" "i < upper" "key (ids ! i) = Some b" "b > pivot"
  shows "partitioned key pivot (ids[lower := ids ! i, i := ids ! lower]) (lower + 1) upper (i + 1)"
  using assms by (auto simp: partitioned_def nth_list_update less_Suc_eq)

lemma partitioned_less:
  assumes "partitioned key pivot ids lower upper i" "i < upper" "key (ids ! i) = Some b" "b < pivot"
  shows "partitioned key pivot (ids[upper - 1 := ids ! i, i := ids ! (upper - 1)]) lower (upper - 1) i"
  using assms by (fastforce simp: partitioned_def nth_list_update)

lemma partitioned_equal:
  assumes "partitioned key pivot ids lower upper i" "i < upper" "key (ids ! i) = Some pivot"
  shows "partitioned key pivot ids lower upper (i + 1)"
  using assms by (auto simp: partitioned_def less_Suc_eq)

lemma partition_loop_Ok:
  "partition_loop ix strings pos pivot ids lower upper i = (Ok (ids', l, u)) \<Longrightarrow>
   partitioned (\<lambda>sid. ok_value (byte ix strings sid pos)) pivot ids lower upper i \<Longrightarrow>
   mset ids' = mset ids \<and>
   partitioned (\<lambda>sid. ok_value (byte ix strings sid pos)) pivot ids' l u u"
proof (induction ix strings pos pivot ids lower upper i arbitrary: ids' l u
    rule: partition_loop.induct)
  case (1 ix strings pos pivot ids lower upper i)
  let ?key = "\<lambda>sid. ok_value (byte ix strings sid pos)"
  let ?loop = "\<lambda>ids l u i. partition_loop ix strings pos pivot ids l u i"
  note loop = "1.prems"(1) [unfolded partition_loop.simps [of ix strings pos pivot ids lower upper i]]
  note inv = "1.prems"(2)
  show ?case
  proof (cases "i < upper")
    case False
    with loop inv show ?thesis by (auto simp: partitioned_def)
  next
    case True
    with inv have bounds: "lower < length ids" "i < length ids" "upper - 1 < length ids"
      by (auto simp: partitioned_def)
    from loop True obtain b where b: "byte ix strings (ids ! i) pos = (Ok b)"
      by (auto simp: res_simps)
    then have key: "?key (ids ! i) = Some b" by (simp add: ok_value_def)
    consider "b > pivot" | "b < pivot" | "b = pivot" by force
    then show ?thesis
    proof cases
      case 1
      let ?ids = "ids[lower := ids ! i, i := ids ! lower]"
      from loop True bounds b 1 have rest: "?loop ?ids (lower + 1) upper (i + 1) = Ok (ids', l, u)"
        by (simp add: index_list_def list_swap_def)
      have "mset ids' = mset ?ids \<and> partitioned ?key pivot ids' l u u"
        using partitioned_greater [OF inv True key 1]
        by (intro "1.IH"(1) [OF True _ b 1 _ rest]) (use bounds in \<open>simp_all add: index_list_def list_swap_def\<close>)
      then show ?thesis using bounds by (simp add: mset_swap)
    next
      case 2
      let ?ids = "ids[upper - 1 := ids ! i, i := ids ! (upper - 1)]"
      have "\<not> b > pivot" using 2 by simp
      from loop True bounds b 2 this have rest: "?loop ?ids lower (upper - 1) i = Ok (ids', l, u)"
        by (simp add: index_list_def list_swap_def Let_def)
      have "mset ids' = mset ?ids \<and> partitioned ?key pivot ids' l u u"
        using partitioned_less [OF inv True key 2] 2
        by (intro "1.IH"(2) [OF True _ b _ 2 refl _ rest])
          (use bounds in \<open>simp_all add: index_list_def list_swap_def\<close>)
      then show ?thesis using bounds by (simp add: mset_swap)
    next
      case 3
      from loop True bounds b 3 have rest: "?loop ids lower upper (i + 1) = Ok (ids', l, u)"
        by (simp add: index_list_def)
      show ?thesis
        using partitioned_equal [OF inv True key [unfolded 3]] 3
        by (intro "1.IH"(3) [OF True _ b _ _ rest]) (simp_all add: index_list_def bounds)
    qed
  qed
qed

definition string_len :: "'s index_set_ops \<Rightarrow> 's \<Rightarrow> nat \<Rightarrow> nat" where
  "string_len ix strings sid = (case ix_get_index ix sid strings of None \<Rightarrow> 0 | Some s \<Rightarrow> length s)"

definition sort_weight :: "'s index_set_ops \<Rightarrow> 's \<Rightarrow> nat list \<Rightarrow> nat \<Rightarrow> nat" where
  "sort_weight ix strings ids pos =
    sum_mset (image_mset (\<lambda>sid. 1 + (Suc (string_len ix strings sid) - pos)) (mset ids))"

lemma byte_nonzero_in_range:
  "byte ix strings sid pos = Ok b \<Longrightarrow> b \<noteq> 0 \<Longrightarrow> pos \<le> string_len ix strings sid"
  by (auto simp: byte_def string_len_def res_simps Let_def split: if_splits)

lemma partition_start:
  assumes "byte ix strings (ids ! 0) pos = Ok pivot" "0 < length ids"
  shows "partitioned (\<lambda>sid. ok_value (byte ix strings sid pos)) pivot ids 0 (length ids) 1"
  using assms by (auto simp: partitioned_def ok_value_def Suc_le_eq)

lemma partition_result:
  assumes "partition_loop ix strings pos pivot ids 0 (length ids) 1 = Ok (ids', l, u)"
    and "byte ix strings (ids ! 0) pos = Ok pivot" "0 < length ids"
  shows "mset ids' = mset ids" "l < u" "u \<le> length ids'"
    and "\<forall>x \<in> set (take l ids'). \<exists>b > pivot. byte ix strings x pos = Ok b"
    and "\<forall>x \<in> set (take (u - l) (drop l ids')). byte ix strings x pos = Ok pivot"
    and "\<forall>x \<in> set (drop u ids'). \<exists>b < pivot. byte ix strings x pos = Ok b"
proof -
  note r = partition_loop_Ok [OF assms(1) partition_start [OF assms(2,3)]]
  show "mset ids' = mset ids" "l < u" "u \<le> length ids'"
    using r by (auto simp: partitioned_def)
  show "\<forall>x \<in> set (take l ids'). \<exists>b > pivot. byte ix strings x pos = Ok b"
    using r by (auto simp: partitioned_def in_set_conv_nth ok_value_eq_Some)
  show "\<forall>x \<in> set (take (u - l) (drop l ids')). byte ix strings x pos = Ok pivot"
    using r by (auto simp: partitioned_def in_set_conv_nth ok_value_eq_Some)
  show "\<forall>x \<in> set (drop u ids'). \<exists>b < pivot. byte ix strings x pos = Ok b"
  proof
    fix x assume "x \<in> set (drop u ids')"
    then obtain j where "j < length ids' - u" "x = ids' ! (u + j)"
      by (auto simp: in_set_conv_nth)
    with r show "\<exists>b < pivot. byte ix strings x pos = Ok b"
      by (auto simp: partitioned_def ok_value_eq_Some)
  qed
qed

lemma three_parts: "l \<le> u \<Longrightarrow> take l xs @ take (u - l) (drop l xs) @ drop u xs = xs"
proof -
  assume "l \<le> u"
  then have "take l xs @ take (u - l) (drop l xs) = take u xs"
    by (metis le_add_diff_inverse take_add)
  then show ?thesis by (metis append.assoc append_take_drop_id)
qed

lemma sort_weight_append:
  "sort_weight ix strings (xs @ ys) pos = sort_weight ix strings xs pos + sort_weight ix strings ys pos"
  by (simp add: sort_weight_def)

lemma sort_weight_mset: "mset xs = mset ys \<Longrightarrow> sort_weight ix strings xs pos = sort_weight ix strings ys pos"
  by (simp add: sort_weight_def)

lemma sort_weight_pos: "xs \<noteq> [] \<Longrightarrow> 0 < sort_weight ix strings xs pos"
  by (cases xs) (auto simp: sort_weight_def)

lemma sort_weight_Suc:
  assumes "xs \<noteq> []" "\<forall>x \<in> set xs. pos \<le> string_len ix strings x"
  shows "sort_weight ix strings xs (pos + 1) < sort_weight ix strings xs pos"
  using assms
proof (induction xs)
  case (Cons x xs)
  have le: "sort_weight ix strings xs (pos + 1) \<le> sort_weight ix strings xs pos"
    unfolding sort_weight_def by (rule sum_mset_mono) simp
  have "Suc (string_len ix strings x) - (pos + 1) < Suc (string_len ix strings x) - pos"
    using Cons.prems by (simp add: Suc_diff_le)
  with le show ?case by (simp add: sort_weight_def)
qed simp

lemma sort_weight_parts:
  assumes "mset ids' = mset ids" "l < u" "u \<le> length ids'"
  shows "sort_weight ix strings (take l ids') pos < sort_weight ix strings ids pos"
    and "sort_weight ix strings (drop u ids') pos < sort_weight ix strings ids pos"
    and "sort_weight ix strings (take (u - l) (drop l ids')) pos \<le> sort_weight ix strings ids pos"
    and "take (u - l) (drop l ids') \<noteq> []"
proof -
  show mid: "take (u - l) (drop l ids') \<noteq> []" using assms by simp
  have "sort_weight ix strings ids pos = sort_weight ix strings
      (take l ids' @ take (u - l) (drop l ids') @ drop u ids') pos"
    using assms by (simp add: three_parts sort_weight_mset [of ids ids'])
  then have "sort_weight ix strings ids pos = sort_weight ix strings (take l ids') pos +
      (sort_weight ix strings (take (u - l) (drop l ids')) pos + sort_weight ix strings (drop u ids') pos)"
    by (simp only: sort_weight_append)
  with sort_weight_pos [OF mid, of ix strings pos] show
    "sort_weight ix strings (take l ids') pos < sort_weight ix strings ids pos"
    "sort_weight ix strings (drop u ids') pos < sort_weight ix strings ids pos"
    "sort_weight ix strings (take (u - l) (drop l ids')) pos \<le> sort_weight ix strings ids pos"
    by linarith+
qed

function string_sort :: "'s index_set_ops \<Rightarrow> 's \<Rightarrow> nat list \<Rightarrow> nat \<Rightarrow> (nat list, string) result" where
  "string_sort ix strings ids pos =
    (if length ids \<le> 1 then Ok ids
     else
       and_then (byte ix strings (ids ! 0) pos) (\<lambda>pivot.
       and_then (partition_loop ix strings pos pivot ids 0 (length ids) 1) (\<lambda>(ids, lower, upper).
       and_then (string_sort ix strings (take lower ids) pos) (\<lambda>front.
       and_then (string_sort ix strings (drop upper ids) pos) (\<lambda>rear.
       if pivot = 0 then Ok (front @ take (upper - lower) (drop lower ids) @ rear)
       else
         and_then (string_sort ix strings (take (upper - lower) (drop lower ids)) (pos + 1)) (\<lambda>middle.
         Ok (front @ middle @ rear)))))))"
  by pat_completeness auto
termination
proof (relation "measure (\<lambda>(ix, strings, ids, pos). sort_weight ix strings ids pos)", goal_cases)
  case 1
  then show ?case by simp
next
  case prems: (2 ix strings ids pos pivot part ids' tail l u)
  then have r: "partition_loop ix strings pos pivot ids 0 (length ids) 1 = Ok (ids', l, u)" by simp
  have "0 < length ids" using prems(1) by linarith
  note p = partition_result [OF r prems(2) this]
  from sort_weight_parts(1) [OF p(1,2,3)] show ?case by simp
next
  case prems: (3 ix strings ids pos pivot part ids' tail l u front)
  then have r: "partition_loop ix strings pos pivot ids 0 (length ids) 1 = Ok (ids', l, u)" by simp
  have "0 < length ids" using prems(1) by linarith
  note p = partition_result [OF r prems(2) this]
  from sort_weight_parts(2) [OF p(1,2,3)] show ?case by simp
next
  case prems: (4 ix strings ids pos pivot part ids' tail l u front rear)
  then have r: "partition_loop ix strings pos pivot ids 0 (length ids) 1 = Ok (ids', l, u)" by simp
  have "0 < length ids" using prems(1) by linarith
  note p = partition_result [OF r prems(2) this]
  note w = sort_weight_parts [OF p(1,2,3)]
  have "\<forall>x \<in> set (take (u - l) (drop l ids')). pos \<le> string_len ix strings x"
    by (intro ballI byte_nonzero_in_range [OF bspec [OF p(5)] \<open>pivot \<noteq> 0\<close>])
  from sort_weight_Suc [OF w(4) this] w(3) [of ix strings pos] show ?case by simp
qed

declare string_sort.simps [simp del]

section \<open>The order of the sorted strings\<close>

text \<open>
  What is left of a reversed string from position \<open>pos\<close> on; \<^verbatim>\<open>byte\<close> is its first byte, or 0 when
  nothing is left.
\<close>

definition rev_key :: "bytes list \<Rightarrow> nat \<Rightarrow> nat \<Rightarrow> bytes" where
  "rev_key strs pos i = drop (pos - 1) (rev (strs ! i))"

definition head0 :: "bytes \<Rightarrow> u8" where
  "head0 xs = (case xs of [] \<Rightarrow> 0 | x # _ \<Rightarrow> x)"

lemma head0_simps [simp]: "head0 [] = 0" "head0 (x # xs) = x"
  by (simp_all add: head0_def)

lemma index_set_get:
  "index_set_laws ix elems \<Longrightarrow> ix_get_index ix i s = get_opt (elems s) i"
  by (simp add: index_set_laws_def)

lemma index_set_len: "index_set_laws ix elems \<Longrightarrow> ix_len ix s = length (elems s)"
  by (simp add: index_set_laws_def)

lemma index_set_position: "index_set_laws ix elems \<Longrightarrow> ix_get_index_of ix b s = position b (elems s)"
  by (simp add: index_set_laws_def)

lemma index_set_insert:
  "index_set_laws ix elems \<Longrightarrow> case ix_insert_full ix b s of ((i, fresh), s') \<Rightarrow>
     (case position b (elems s) of
        Some j \<Rightarrow> i = j \<and> \<not> fresh \<and> elems s' = elems s
      | None \<Rightarrow> i = length (elems s) \<and> fresh \<and> elems s' = elems s @ [b])"
  unfolding index_set_laws_def by (elim conjE allE)

lemma index_set_new: "index_set_laws ix elems \<Longrightarrow> elems (ix_new ix) = []"
  by (simp add: index_set_laws_def)

lemma byte_eq:
  assumes "index_set_laws ix elems" "i < length (elems s)" "1 \<le> pos"
  shows "byte ix s i pos = Ok (head0 (rev_key (elems s) pos i))"
proof (cases "pos \<le> length (elems s ! i)")
  case True
  then have "rev_key (elems s) pos i = rev (elems s ! i) ! (pos - 1) # drop pos (rev (elems s ! i))"
    using assms(3) by (simp add: rev_key_def flip: Cons_nth_drop_Suc)
  moreover have "rev (elems s ! i) ! (pos - 1) = elems s ! i ! (length (elems s ! i) - pos)"
    using True assms(3) by (simp add: rev_nth)
  ultimately show ?thesis
    using True assms by (simp add: byte_def index_set_get get_opt_def index_list_def Let_def)
next
  case False
  then show ?thesis
    using assms by (simp add: byte_def index_set_get get_opt_def rev_key_def Let_def)
qed

lemma set_list_swap: "a < length xs \<Longrightarrow> b < length xs \<Longrightarrow> set (xs[a := xs ! b, b := xs ! a]) = set xs"
  by (metis mset_eq_setD mset_swap)

lemma partition_loop_total:
  "\<forall>x \<in> set ids. \<exists>b. byte ix s x pos = Ok b \<Longrightarrow> lower \<le> i \<Longrightarrow> upper \<le> length ids \<Longrightarrow>
    \<exists>r. partition_loop ix s pos pivot ids lower upper i = Ok r"
proof (induction ix s pos pivot ids lower upper i rule: partition_loop.induct)
  case (1 ix s pos pivot ids lower upper i)
  show ?case
  proof (cases "i < upper")
    case False
    then show ?thesis by (simp add: partition_loop.simps [of ix s pos pivot ids lower upper i])
  next
    case True
    with "1.prems" have bounds: "lower < length ids" "i < length ids" "upper - 1 < length ids"
      by auto
    with "1.prems"(1) obtain b where b: "byte ix s (ids ! i) pos = Ok b"
      by (meson nth_mem)
    note bd = bounds b True
    consider "b > pivot" | "b < pivot" | "b = pivot" by force
    then show ?thesis
    proof cases
      case 1
      have "\<exists>r. partition_loop ix s pos pivot (ids[lower := ids ! i, i := ids ! lower])
          (lower + 1) upper (i + 1) = Ok r"
        by (rule "1.IH"(1) [OF True _ b 1])
          (use "1.prems" bounds in \<open>simp_all add: index_list_def list_swap_def set_list_swap\<close>)
      then show ?thesis
        using 1 bd by (simp add: partition_loop.simps [of ix s pos pivot ids lower upper i]
            index_list_def list_swap_def)
    next
      case 2
      then have "\<not> b > pivot" by simp
      have "\<exists>r. partition_loop ix s pos pivot (ids[upper - 1 := ids ! i, i := ids ! (upper - 1)])
          lower (upper - 1) i = Ok r"
        by (rule "1.IH"(2) [OF True _ b \<open>\<not> b > pivot\<close> 2 refl])
          (use "1.prems" bounds in \<open>simp_all add: index_list_def list_swap_def set_list_swap [simplified]\<close>)
      then show ?thesis
        using 2 bd \<open>\<not> b > pivot\<close>
        by (simp add: partition_loop.simps [of ix s pos pivot ids lower upper i]
            index_list_def list_swap_def Let_def)
    next
      case 3
      have "\<exists>r. partition_loop ix s pos pivot ids lower upper (i + 1) = Ok r"
        by (rule "1.IH"(3) [OF True _ b])
          (use "1.prems" bounds 3 in \<open>simp_all add: index_list_def\<close>)
      then show ?thesis
        using 3 bd by (simp add: partition_loop.simps [of ix s pos pivot ids lower upper i]
            index_list_def)
    qed
  qed
qed

lemma key_greater:
  "head0 ys < head0 xs \<Longrightarrow> ys \<le> xs" for xs ys :: bytes
  by (cases xs; cases ys) auto

lemma rev_key_Suc:
  "1 \<le> pos \<Longrightarrow> head0 (rev_key strs pos i) = b \<Longrightarrow> b \<noteq> 0 \<Longrightarrow> rev_key strs pos i = b # rev_key strs (pos + 1) i"
proof -
  assume a: "1 \<le> pos" "head0 (rev_key strs pos i) = b" "b \<noteq> 0"
  then obtain xs where xs: "rev_key strs pos i = b # xs"
    by (cases "rev_key strs pos i") auto
  have "rev_key strs (pos + 1) i = drop 1 (rev_key strs pos i)"
    using a(1) by (simp add: rev_key_def)
  with xs show ?thesis by simp
qed

lemma head0_eq_0: "0 \<notin> set (strs ! i) \<Longrightarrow> head0 (rev_key strs pos i) = 0 \<Longrightarrow> rev_key strs pos i = []"
proof (cases "rev_key strs pos i")
  case (Cons x xs)
  assume "0 \<notin> set (strs ! i)" "head0 (rev_key strs pos i) = 0"
  moreover have "x \<in> set (strs ! i)"
    by (metis Cons list.set_intros(1) in_set_dropD rev_key_def set_rev)
  ultimately show ?thesis using Cons by auto
qed

abbreviation key_sorted :: "bytes list \<Rightarrow> nat \<Rightarrow> nat list \<Rightarrow> bool" where
  "key_sorted strs pos \<equiv> sorted_wrt (\<lambda>i j. rev_key strs pos j \<le> rev_key strs pos i)"

lemma key_sorted_parts:
  assumes "key_sorted strs pos front" "key_sorted strs pos middle" "key_sorted strs pos rear"
    and "\<forall>x \<in> set front. p < head0 (rev_key strs pos x)"
    and "\<forall>x \<in> set middle. head0 (rev_key strs pos x) = p"
    and "\<forall>x \<in> set rear. head0 (rev_key strs pos x) < p"
  shows "key_sorted strs pos (front @ middle @ rear)"
proof -
  have "p < head0 (rev_key strs pos x) \<Longrightarrow> head0 (rev_key strs pos y) \<le> p \<Longrightarrow>
      rev_key strs pos y \<le> rev_key strs pos x" for x y
    by (rule key_greater) simp
  moreover have "p = head0 (rev_key strs pos x) \<Longrightarrow> head0 (rev_key strs pos y) < p \<Longrightarrow>
      rev_key strs pos y \<le> rev_key strs pos x" for x y
    by (rule key_greater) simp
  ultimately show ?thesis
    using assms by (auto simp: sorted_wrt_append)
qed

text \<open>
  The sort returns a permutation of the ids in descending order of the reversed strings.
\<close>

lemma string_sort_ok:
  assumes ix: "index_set_laws ix elems" and strs: "\<forall>str \<in> set (elems s). 0 \<notin> set str"
  shows "set ids \<subseteq> {..< length (elems s)} \<Longrightarrow> 1 \<le> pos \<Longrightarrow>
    \<exists>ids'. string_sort ix s ids pos = Ok ids' \<and> mset ids' = mset ids \<and> key_sorted (elems s) pos ids'"
proof (induction "sort_weight ix s ids pos" arbitrary: ids pos rule: less_induct)
  case less
  note byte = byte_eq [OF ix _ less.prems(2)]
  show ?case
  proof (cases "length ids \<le> 1")
    case True
    then have "key_sorted (elems s) pos ids" by (cases ids) auto
    with True show ?thesis by (simp add: string_sort.simps [of ix s ids pos])
  next
    case False
    then have ne: "0 < length ids" by linarith
    define pivot where "pivot = head0 (rev_key (elems s) pos (ids ! 0))"
    have range: "x \<in> set ids \<Longrightarrow> x < length (elems s)" for x using less.prems(1) by auto
    have pivot: "byte ix s (ids ! 0) pos = Ok pivot"
      unfolding pivot_def by (rule byte [OF range [OF nth_mem [OF ne]]])
    obtain ids' l u where part: "partition_loop ix s pos pivot ids 0 (length ids) 1 = Ok (ids', l, u)"
      using partition_loop_total [of ids ix s pos 0 1 "length ids" pivot] range byte by fastforce
    note p = partition_result [OF part pivot ne]
    note w = sort_weight_parts [OF p(1,2,3)]
    define middle where "middle = take (u - l) (drop l ids')"
    have parts: "take l ids' @ middle @ drop u ids' = ids'"
      unfolding middle_def by (rule three_parts) (use p(2) in simp)
    have "set ids' = set ids" using p(1) by (rule mset_eq_setD)
    then have sub: "set (take l ids') \<subseteq> set ids" "set (drop u ids') \<subseteq> set ids" "set middle \<subseteq> set ids"
      unfolding middle_def by (auto dest!: in_set_takeD in_set_dropD)
    have bytes: "x \<in> set ids \<Longrightarrow> byte ix s x pos = Ok b \<longleftrightarrow> head0 (rev_key (elems s) pos x) = b" for x b
      using byte [of x] range by simp
    obtain front where f: "string_sort ix s (take l ids') pos = Ok front"
        "mset front = mset (take l ids')" "key_sorted (elems s) pos front"
      using less.hyps [OF w(1) _ less.prems(2)] sub(1) less.prems(1) by blast
    obtain rear where r: "string_sort ix s (drop u ids') pos = Ok rear"
        "mset rear = mset (drop u ids')" "key_sorted (elems s) pos rear"
      using less.hyps [OF w(2) _ less.prems(2)] sub(2) less.prems(1) by blast
    have mid: "\<forall>x \<in> set middle. head0 (rev_key (elems s) pos x) = pivot"
    proof
      fix x assume x: "x \<in> set middle"
      then have "byte ix s x pos = Ok pivot" using p(5) by (simp add: middle_def)
      with bytes [of x pivot] subsetD [OF sub(3) x] show "head0 (rev_key (elems s) pos x) = pivot" by simp
    qed
    have front: "\<forall>x \<in> set front. pivot < head0 (rev_key (elems s) pos x)"
    proof
      fix x assume "x \<in> set front"
      with mset_eq_setD [OF f(2)] have x: "x \<in> set (take l ids')" by simp
      with p(4) obtain b where "b > pivot" "byte ix s x pos = Ok b" by (meson bspec)
      with bytes [of x b] subsetD [OF sub(1) x] show "pivot < head0 (rev_key (elems s) pos x)" by simp
    qed
    have rear: "\<forall>x \<in> set rear. head0 (rev_key (elems s) pos x) < pivot"
    proof
      fix x assume "x \<in> set rear"
      with mset_eq_setD [OF r(2)] have x: "x \<in> set (drop u ids')" by simp
      with p(6) obtain b where "b < pivot" "byte ix s x pos = Ok b" by (meson bspec)
      with bytes [of x b] subsetD [OF sub(2) x] show "head0 (rev_key (elems s) pos x) < pivot" by simp
    qed
    have perm: "mset m = mset middle \<Longrightarrow> mset (front @ m @ rear) = mset ids" for m
      using f(2) r(2) p(1) arg_cong [OF parts, of mset] by (simp del: append_take_drop_id)
    show ?thesis
    proof (cases "pivot = 0")
      case True
      have "rev_key (elems s) pos x = []" if "x \<in> set middle" for x
        using that mid True strs sub(3) range by (intro head0_eq_0) auto
      then have "key_sorted (elems s) pos middle"
        by (induction middle) auto
      with f(3) r(3) front mid rear have "key_sorted (elems s) pos (front @ middle @ rear)"
        by (intro key_sorted_parts) blast+
      with True False pivot part f(1) r(1) perm [OF refl] show ?thesis
        by (simp add: string_sort.simps [of ix s ids pos] middle_def)
    next
      case nz: False
      have "\<forall>x \<in> set middle. pos \<le> string_len ix s x"
        by (intro ballI byte_nonzero_in_range [OF _ nz]) (use p(5) in \<open>simp add: middle_def\<close>)
      then have "sort_weight ix s middle (pos + 1) < sort_weight ix s ids pos"
        using sort_weight_Suc [of middle pos ix s] w(4) w(3) [of ix s pos] by (fold middle_def) simp
      from less.hyps [OF this] sub(3) less.prems
      obtain m where m: "string_sort ix s middle (pos + 1) = Ok m" "mset m = mset middle"
          "key_sorted (elems s) (pos + 1) m"
        by force
      have head: "\<forall>x \<in> set m. head0 (rev_key (elems s) pos x) = pivot"
        using mid mset_eq_setD [OF m(2)] by blast
      then have "rev_key (elems s) pos x = pivot # rev_key (elems s) (pos + 1) x" if "x \<in> set m" for x
        using rev_key_Suc [OF less.prems(2) _ nz] that by blast
      with m(3) have "key_sorted (elems s) pos m"
        by (auto elim!: sorted_wrt_mono_rel [rotated])
      with f(3) r(3) front head rear have "key_sorted (elems s) pos (front @ m @ rear)"
        by (intro key_sorted_parts) blast+
      with nz False pivot part f(1) r(1) m(1) perm [OF m(2)] show ?thesis
        by (simp add: string_sort.simps [of ix s ids pos] middle_def)
    qed
  qed
qed

section \<open>The table\<close>

record 's string_table =
  tb_strings :: 's
  tb_offsets :: "nat list"

definition string_table_default :: "'s index_set_ops \<Rightarrow> 's string_table" where
  "string_table_default ix = \<lparr>tb_strings = ix_new ix, tb_offsets = []\<rparr>"

definition string_add ::
  "'s index_set_ops \<Rightarrow> bytes \<Rightarrow> 's string_table \<Rightarrow> (nat \<times> 's string_table, string) result" where
  "string_add ix str self =
    debug_assert (tb_offsets self = []) (
    debug_assert (0 \<notin> set str) (
    case ix_insert_full ix str (tb_strings self) of
      ((sid, _), strings) \<Rightarrow> Ok (sid, self\<lparr>tb_strings := strings\<rparr>)))"

definition string_get_id :: "'s index_set_ops \<Rightarrow> 's string_table \<Rightarrow> bytes \<Rightarrow> (nat, string) result" where
  "string_get_id ix self str = unwrap (ix_get_index_of ix str (tb_strings self))"

definition string_get_string :: "'s index_set_ops \<Rightarrow> 's string_table \<Rightarrow> nat \<Rightarrow> (bytes, string) result" where
  "string_get_string ix self sid = unwrap (ix_get_index ix sid (tb_strings self))"

definition string_get_offset :: "'s string_table \<Rightarrow> nat \<Rightarrow> (nat, string) result" where
  "string_get_offset self sid = index_list (tb_offsets self) sid"

definition ends_with :: "'a list \<Rightarrow> 'a list \<Rightarrow> bool" where
  "ends_with xs ys \<longleftrightarrow> length ys \<le> length xs \<and> drop (length xs - length ys) xs = ys"

fun string_write_loop :: "'s index_set_ops \<Rightarrow> 's \<Rightarrow> nat list \<Rightarrow> nat \<Rightarrow> bytes \<Rightarrow> nat list \<Rightarrow> bytes \<Rightarrow>
    (nat list \<times> bytes, string) result" where
  "string_write_loop ix strings [] offset previous offsets w = Ok (offsets, w)"
| "string_write_loop ix strings (sid # ids) offset previous offsets w =
    and_then (unwrap (ix_get_index ix sid strings)) (\<lambda>str.
    if ends_with previous str then
      and_then (usize_sub offset (length str)) (\<lambda>o1.
      and_then (usize_sub o1 1) (\<lambda>o2.
      and_then (list_assign sid o2 offsets) (\<lambda>offsets.
      string_write_loop ix strings ids offset previous offsets w)))
    else
      and_then (list_assign sid offset offsets) (\<lambda>offsets.
      let w = w @ str; w = w @ [0] in
      and_then (usize_add (length str) 1) (\<lambda>n.
      and_then (usize_add offset n) (\<lambda>offset.
      string_write_loop ix strings ids offset str offsets w))))"

definition string_write :: "'s index_set_ops \<Rightarrow> nat \<Rightarrow> 's string_table \<Rightarrow> bytes \<Rightarrow>
    ('s string_table \<times> bytes, string) result" where
  "string_write ix base self w =
    debug_assert (tb_offsets self = []) (
    let ids = [0 ..< ix_len ix (tb_strings self)] in
    and_then (string_sort ix (tb_strings self) ids 1) (\<lambda>ids.
    and_then (string_write_loop ix (tb_strings self) ids base [] (replicate (length ids) 0) w) (\<lambda>(offsets, w).
    Ok (self\<lparr>tb_offsets := offsets\<rparr>, w))))"

fun string_size_loop :: "'s index_set_ops \<Rightarrow> 's \<Rightarrow> nat list \<Rightarrow> nat \<Rightarrow> bytes \<Rightarrow> (nat, string) result" where
  "string_size_loop ix strings [] sz previous = Ok sz"
| "string_size_loop ix strings (sid # ids) sz previous =
    and_then (unwrap (ix_get_index ix sid strings)) (\<lambda>str.
    if \<not> ends_with previous str then
      and_then (usize_add (length str) 1) (\<lambda>n.
      and_then (usize_add sz n) (\<lambda>sz.
      string_size_loop ix strings ids sz str))
    else string_size_loop ix strings ids sz previous)"

definition string_size :: "'s index_set_ops \<Rightarrow> nat \<Rightarrow> 's string_table \<Rightarrow> (nat, string) result" where
  "string_size ix base self =
    (let ids = [0 ..< ix_len ix (tb_strings self)] in
    and_then (string_sort ix (tb_strings self) ids 1) (\<lambda>ids.
    string_size_loop ix (tb_strings self) ids base []))"

section \<open>What is written\<close>

lemma ends_with_iff: "ends_with xs ys \<longleftrightarrow> suffix ys xs"
proof
  assume "ends_with xs ys"
  then show "suffix ys xs" unfolding ends_with_def suffix_def by (metis append_take_drop_id)
next
  assume "suffix ys xs"
  then show "ends_with xs ys" by (auto simp: ends_with_def suffix_def)
qed

text \<open>The strings that are written, as a function of the sorted strings.\<close>

fun emitted :: "bytes \<Rightarrow> bytes list \<Rightarrow> bytes list" where
  "emitted previous [] = []"
| "emitted previous (str # strs) =
    (if ends_with previous str then emitted previous strs else str # emitted str strs)"

definition table_image :: "bytes list \<Rightarrow> bytes" where
  "table_image strs = concat (map (\<lambda>str. str @ [0]) strs)"

lemma table_image_simps [simp]: "table_image [] = []" "table_image (str # strs) = str @ 0 # table_image strs"
  by (simp_all add: table_image_def)

lemma string_size_loop_eq:
  assumes ix: "index_set_laws ix elems"
  shows "set ids \<subseteq> {..< length (elems s)} \<Longrightarrow>
    sz + length (table_image (emitted previous (map (nth (elems s)) ids))) \<le> usize_max \<Longrightarrow>
    string_size_loop ix s ids sz previous =
      Ok (sz + length (table_image (emitted previous (map (nth (elems s)) ids))))"
  by (induction ids arbitrary: sz previous)
    (auto simp: index_set_get [OF ix] get_opt_def usize_add_def split: if_splits)

lemma slice_at_suffix:
  assumes "suffix (previous @ [0]) img" "suffix str previous"
  shows "Suc (length str) \<le> length img"
    "slice_at (img @ out) (length img - length str - 1) (Suc (length str)) = str @ [0]"
proof -
  from assms obtain a where "img = a @ str @ [0]"
    by (auto simp: suffix_def)
  then show "Suc (length str) \<le> length img"
    "slice_at (img @ out) (length img - length str - 1) (Suc (length str)) = str @ [0]"
    by (simp_all add: slice_at_def)
qed

lemma string_write_loop_ok:
  assumes ix: "index_set_laws ix elems"
  shows "set ids \<subseteq> {..< length (elems s)} \<Longrightarrow> distinct ids \<Longrightarrow>
    length offsets = length (elems s) \<Longrightarrow> suffix (previous @ [0]) img \<Longrightarrow>
    length img + length (table_image (emitted previous (map (nth (elems s)) ids))) \<le> usize_max \<Longrightarrow>
    \<exists>offsets'. string_write_loop ix s ids (length img) previous offsets w =
        Ok (offsets', w @ table_image (emitted previous (map (nth (elems s)) ids))) \<and>
      length offsets' = length offsets \<and>
      (\<forall>i. i \<notin> set ids \<longrightarrow> offsets' ! i = offsets ! i) \<and>
      (\<forall>i \<in> set ids. slice_at (img @ table_image (emitted previous (map (nth (elems s)) ids))) (offsets' ! i)
         (Suc (length (elems s ! i))) = elems s ! i @ [0])"
proof (induction ids arbitrary: offsets previous img w)
  case Nil
  then show ?case by simp
next
  case (Cons i ids)
  let ?str = "elems s ! i"
  have i: "i < length (elems s)" "i \<notin> set ids" and get: "ix_get_index ix i s = Some ?str"
    using Cons.prems by (auto simp: index_set_get [OF ix] get_opt_def)
  show ?case
  proof (cases "ends_with previous ?str")
    case True
    define out where "out = table_image (emitted previous (map (nth (elems s)) ids))"
    have out: "table_image (emitted previous (map (nth (elems s)) (i # ids))) = out"
      using True by (simp add: out_def)
    note sl = slice_at_suffix [OF Cons.prems(4), of ?str]
    let ?o = "offsets[i := length img - length ?str - 1]"
    obtain offsets' where IH: "string_write_loop ix s ids (length img) previous ?o w = Ok (offsets', w @ out)"
        "length offsets' = length ?o" "\<forall>j. j \<notin> set ids \<longrightarrow> offsets' ! j = ?o ! j"
        "\<forall>j \<in> set ids. slice_at (img @ out) (offsets' ! j) (Suc (length (elems s ! j))) = elems s ! j @ [0]"
      using Cons.IH [of ?o previous img w] Cons.prems True by (auto simp: out_def)
    have "string_write_loop ix s (i # ids) (length img) previous offsets w = Ok (offsets', w @ out)"
      using True i get IH(1) Cons.prems(3) sl(1) by (simp add: usize_sub_def list_assign_def ends_with_iff)
    moreover have "offsets' ! i = length img - length ?str - 1"
      using IH(3) i Cons.prems(3) by simp
    ultimately show ?thesis
      using IH(2-4) sl(2) [of out] True unfolding out ends_with_iff
      by (intro exI [of _ offsets'] conjI) (simp_all del: string_write_loop.simps)
  next
    case False
    define out where "out = table_image (emitted ?str (map (nth (elems s)) ids))"
    have out: "table_image (emitted previous (map (nth (elems s)) (i # ids))) = (?str @ [0]) @ out"
      using False by (simp add: out_def)
    let ?o = "offsets[i := length img]" and ?img = "img @ ?str @ [0]"
    have fit: "length img + Suc (length ?str) + length out \<le> usize_max"
      using Cons.prems(5) unfolding out by simp
    obtain offsets' where IH: "string_write_loop ix s ids (length ?img) ?str ?o (w @ ?str @ [0]) =
          Ok (offsets', (w @ ?str @ [0]) @ out)"
        "length offsets' = length ?o" "\<forall>j. j \<notin> set ids \<longrightarrow> offsets' ! j = ?o ! j"
        "\<forall>j \<in> set ids. slice_at (?img @ out) (offsets' ! j) (Suc (length (elems s ! j))) = elems s ! j @ [0]"
      using Cons.IH [of ?o ?str ?img "w @ ?str @ [0]"] Cons.prems fit by (auto simp: out_def suffix_def)
    have "string_write_loop ix s (i # ids) (length img) previous offsets w =
        Ok (offsets', w @ (?str @ [0]) @ out)"
      using False i get IH(1) Cons.prems(3) fit
      by (simp add: usize_add_def list_assign_def Let_def)
    moreover have "offsets' ! i = length img"
      using IH(3) i Cons.prems(3) by simp
    moreover have "slice_at (img @ (?str @ [0]) @ out) (length img) (Suc (length ?str)) = ?str @ [0]"
      by (simp add: slice_at_def)
    ultimately show ?thesis
      using IH(2-4) unfolding out
      by (intro exI [of _ offsets'] conjI) (simp_all del: string_write_loop.simps)
  qed
qed

section \<open>Which strings are written\<close>

lemma prefix_between: "a \<le> b \<Longrightarrow> b \<le> c \<Longrightarrow> prefix a c \<Longrightarrow> prefix a b" for a b c :: bytes
proof (induction a arbitrary: b c)
  case (Cons x a)
  then show ?case by (cases b; cases c) auto
qed simp

lemma prefix_le: "prefix a b \<Longrightarrow> a \<le> b" for a b :: bytes
proof (induction a arbitrary: b)
  case (Cons x a)
  then show ?case by (cases b) auto
qed simp

lemma suffix_between:
  "rev a \<le> rev b \<Longrightarrow> rev b \<le> rev c \<Longrightarrow> suffix a c \<Longrightarrow> suffix a b" for a b c :: bytes
  by (simp add: suffix_to_prefix prefix_between)

lemma suffix_rev_le: "suffix a b \<Longrightarrow> rev a \<le> rev b" for a b :: bytes
  by (simp add: suffix_to_prefix prefix_le)

abbreviation rev_sorted :: "bytes list \<Rightarrow> bool" where
  "rev_sorted \<equiv> sorted_wrt (\<lambda>a b. rev b \<le> rev a)"

lemma set_emitted:
  "rev_sorted strs \<Longrightarrow> distinct strs \<Longrightarrow> (\<forall>x \<in> set strs. previous = [] \<or> rev x \<le> rev previous) \<Longrightarrow>
    set (emitted previous strs) =
      {x \<in> set strs. \<not> suffix x previous \<and> \<not> (\<exists>y \<in> set strs. y \<noteq> x \<and> suffix x y)}"
proof (induction strs arbitrary: previous)
  case Nil
  then show ?case by simp
next
  case (Cons a strs)
  from Cons.prems have sorted: "rev_sorted strs" "distinct strs" "a \<notin> set strs"
    and below: "\<forall>x \<in> set strs. rev x \<le> rev a"
    by simp_all
  show ?case
  proof (cases "suffix a previous")
    case True
    have "suffix x previous" if "suffix x a" for x
      using that True by (rule suffix_order.trans)
    with Cons.IH [OF sorted(1,2), of previous] Cons.prems(3) True show ?thesis
      by (auto simp: ends_with_iff)
  next
    case False
    have "\<not> suffix a y" if "y \<in> set strs" for y
    proof
      assume "suffix a y"
      with suffix_rev_le [OF this] below that have "rev a = rev y" by (metis order.antisym)
      with sorted(3) that show False by simp
    qed
    moreover have "suffix x a" if "suffix x previous" "x \<in> set strs" for x
    proof (cases "previous = []")
      case True
      with that(1) show ?thesis by simp
    next
      case False
      with Cons.prems(3) below that(2) have "rev x \<le> rev a" "rev a \<le> rev previous" by auto
      with that(1) show ?thesis by (rule suffix_between [rotated 2])
    qed
    moreover have "set (emitted a strs) =
        {x \<in> set strs. \<not> suffix x a \<and> \<not> (\<exists>y \<in> set strs. y \<noteq> x \<and> suffix x y)}"
      using Cons.IH [OF sorted(1,2), of a] below by simp
    ultimately show ?thesis
      using False sorted(3) by (simp add: ends_with_iff) blast
  qed
qed

lemma distinct_emitted: "distinct strs \<Longrightarrow> distinct (emitted previous strs)"
proof (induction strs arbitrary: previous)
  case (Cons a strs)
  have "set (emitted p strs) \<subseteq> set strs" for p
    by (induction strs arbitrary: p) auto
  with Cons show ?case by auto
qed simp

section \<open>Correctness of the table\<close>

definition table_ok :: "('s \<Rightarrow> bytes list) \<Rightarrow> 's string_table \<Rightarrow> bool" where
  "table_ok elems t \<longleftrightarrow>
    distinct (elems (tb_strings t)) \<and> (\<forall>str \<in> set (elems (tb_strings t)). 0 \<notin> set str)"

text \<open>The strings that need bytes of their own.\<close>

definition maximal_strings :: "bytes list \<Rightarrow> bytes set" where
  "maximal_strings strs = {x \<in> set strs. x \<noteq> [] \<and> \<not> (\<exists>y \<in> set strs. y \<noteq> x \<and> suffix x y)}"

text \<open>The strings of a table in the order and with the merging of \<^verbatim>\<open>write\<close>.\<close>

definition written_strings :: "'s index_set_ops \<Rightarrow> ('s \<Rightarrow> bytes list) \<Rightarrow> 's string_table \<Rightarrow> bytes list" where
  "written_strings ix elems t =
    (case string_sort ix (tb_strings t) [0 ..< length (elems (tb_strings t))] 1 of
       Ok ids \<Rightarrow> emitted [] (map (nth (elems (tb_strings t))) ids)
     | _ \<Rightarrow> [])"

lemma table_ok_default: "index_set_laws ix elems \<Longrightarrow> table_ok elems (string_table_default ix)"
  by (simp add: table_ok_def string_table_default_def index_set_new)

lemma sorted_ids:
  assumes ix: "index_set_laws ix elems" and ok: "table_ok elems t"
  obtains ids where "string_sort ix (tb_strings t) [0 ..< length (elems (tb_strings t))] 1 = Ok ids"
    "mset ids = mset [0 ..< length (elems (tb_strings t))]" "distinct ids"
    "set ids = {..< length (elems (tb_strings t))}"
    "rev_sorted (map (nth (elems (tb_strings t))) ids)"
    "distinct (map (nth (elems (tb_strings t))) ids)"
    "set (map (nth (elems (tb_strings t))) ids) = set (elems (tb_strings t))"
proof -
  let ?E = "elems (tb_strings t)"
  from ok have nz: "\<forall>str \<in> set ?E. 0 \<notin> set str" by (simp add: table_ok_def)
  have "set [0 ..< length ?E] \<subseteq> {..< length ?E}" by auto
  from string_sort_ok [OF ix nz this order_refl] obtain ids where ids: "string_sort ix (tb_strings t) [0 ..< length ?E] 1 = Ok ids"
      "mset ids = mset [0 ..< length ?E]" "key_sorted ?E 1 ids"
    by blast
  have set: "set ids = {..< length ?E}"
    using mset_eq_setD [OF ids(2)] by (simp only: atLeast_upt)
  have distinct: "distinct ids"
    using mset_eq_imp_distinct_iff [OF ids(2)] by (simp only: distinct_upt)
  have sorted: "rev_sorted (map (nth ?E) ids)"
    using ids(3) by (simp add: sorted_wrt_map rev_key_def)
  have inj: "distinct (map (nth ?E) ids)"
    using distinct set ok by (auto simp: distinct_map table_ok_def inj_on_def nth_eq_iff_index_eq)
  have all: "set (map (nth ?E) ids) = set ?E"
    unfolding set_map set by (auto simp: in_set_conv_nth)
  show thesis by (rule that [OF ids(1,2) distinct set sorted inj all])
qed

lemma written_strings_maximal:
  assumes "index_set_laws ix elems" "table_ok elems t"
  shows "set (written_strings ix elems t) = maximal_strings (elems (tb_strings t))"
    and "distinct (written_strings ix elems t)"
proof -
  obtain ids where ids: "string_sort ix (tb_strings t) [0 ..< length (elems (tb_strings t))] 1 = Ok ids"
    "rev_sorted (map (nth (elems (tb_strings t))) ids)"
    "distinct (map (nth (elems (tb_strings t))) ids)"
    "set (map (nth (elems (tb_strings t))) ids) = set (elems (tb_strings t))"
    using sorted_ids [OF assms] by metis
  from set_emitted [OF ids(2,3), of "[]", unfolded ids(4)] ids(1)
  show "set (written_strings ix elems t) = maximal_strings (elems (tb_strings t))"
    by (auto simp: written_strings_def maximal_strings_def)
  from distinct_emitted [OF ids(3)] ids(1) show "distinct (written_strings ix elems t)"
    by (simp add: written_strings_def)
qed

text \<open>
  Writing: the buffer grows by the image of the maximal strings, the size agrees, and every string
  is found, null-terminated, at its offset. \<open>head\<close> stands for what precedes the table image; the
  base is its length, and it ends with a null byte.
\<close>

lemma string_write_ok:
  assumes ix: "index_set_laws ix elems" and ok: "table_ok elems t" and new: "tb_offsets t = []"
    and fit: "length head + length (table_image (written_strings ix elems t)) \<le> usize_max"
    and null: "suffix [0] head"
  obtains offsets where
    "string_write ix (length head) t w =
      Ok (t\<lparr>tb_offsets := offsets\<rparr>, w @ table_image (written_strings ix elems t))"
    "length offsets = length (elems (tb_strings t))"
    "\<forall>i < length (elems (tb_strings t)).
      slice_at (head @ table_image (written_strings ix elems t)) (offsets ! i)
        (Suc (length (elems (tb_strings t) ! i))) = elems (tb_strings t) ! i @ [0]"
proof -
  let ?E = "elems (tb_strings t)"
  obtain ids where ids: "string_sort ix (tb_strings t) [0 ..< length ?E] 1 = Ok ids"
    "mset ids = mset [0 ..< length ?E]" "distinct ids" "set ids = {..< length ?E}"
    using sorted_ids [OF ix ok] by metis
  have w: "written_strings ix elems t = emitted [] (map (nth ?E) ids)"
    using ids(1) by (simp add: written_strings_def)
  have len: "length ids = length ?E"
    using mset_eq_length [OF ids(2)] by simp
  have "set ids \<subseteq> {..< length ?E}" using ids(4) by simp
  from string_write_loop_ok [OF ix this ids(3), of "replicate (length ids) 0" "[]" head w]
  obtain offsets where o: "string_write_loop ix (tb_strings t) ids (length head) [] (replicate (length ids) 0) w
      = Ok (offsets, w @ table_image (emitted [] (map (nth ?E) ids)))" "length offsets = length ids"
    "\<forall>i \<in> set ids. slice_at (head @ table_image (emitted [] (map (nth ?E) ids))) (offsets ! i)
        (Suc (length (?E ! i))) = ?E ! i @ [0]"
    using fit null by (auto simp: w len)
  show thesis
  proof (rule that)
    show "string_write ix (length head) t w =
      Ok (t\<lparr>tb_offsets := offsets\<rparr>, w @ table_image (written_strings ix elems t))"
      using o(1) ids(1) new by (simp add: string_write_def index_set_len [OF ix] w)
    show "length offsets = length ?E" using o(2) len by simp
    show "\<forall>i < length ?E. slice_at (head @ table_image (written_strings ix elems t)) (offsets ! i)
        (Suc (length (?E ! i))) = ?E ! i @ [0]"
      using o(3) ids(4) by (simp add: w)
  qed
qed

lemma string_size_ok:
  assumes ix: "index_set_laws ix elems" and ok: "table_ok elems t"
    and fit: "base + length (table_image (written_strings ix elems t)) \<le> usize_max"
  shows "string_size ix base t = Ok (base + length (table_image (written_strings ix elems t)))"
proof -
  let ?E = "elems (tb_strings t)"
  obtain ids where ids: "string_sort ix (tb_strings t) [0 ..< length ?E] 1 = Ok ids"
    "set ids = {..< length ?E}"
    using sorted_ids [OF ix ok] by metis
  have w: "written_strings ix elems t = emitted [] (map (nth ?E) ids)"
    using ids(1) by (simp add: written_strings_def)
  have "set ids \<subseteq> {..< length ?E}" using ids(2) by simp
  from string_size_loop_eq [OF ix this, of base "[]"] fit show ?thesis
    using ids(1) by (simp add: string_size_def index_set_len [OF ix] w)
qed

lemma string_add_ok:
  fixes str :: bytes
  assumes ix: "index_set_laws ix elems" and ok: "table_ok elems t" and new: "tb_offsets t = []"
    and str: "0 \<notin> set str"
  obtains i t' where "string_add ix str t = Ok (i, t')" "table_ok elems t'" "tb_offsets t' = []"
    "string_get_string ix t' i = Ok str" "string_get_id ix t' str = Ok i"
    "\<And>j s. string_get_string ix t j = Ok s \<Longrightarrow> string_get_string ix t' j = Ok s"
    "\<And>s j. string_get_id ix t s = Ok j \<Longrightarrow> string_get_id ix t' s = Ok j"
proof -
  obtain i fresh s' where ins: "ix_insert_full ix str (tb_strings t) = ((i, fresh), s')"
    by (metis surj_pair)
  let ?E = "elems (tb_strings t)"
  have law: "case position str ?E of Some j \<Rightarrow> i = j \<and> \<not> fresh \<and> elems s' = ?E
      | None \<Rightarrow> i = length ?E \<and> fresh \<and> elems s' = ?E @ [str]"
    using index_set_insert [OF ix, where b = str and s = "tb_strings t"] ins by simp
  let ?t = "t\<lparr>tb_strings := s'\<rparr>"
  have add: "string_add ix str t = Ok (i, ?t)"
    using new str ins by (simp add: string_add_def)
  note pos_app = position_append
  note defs = string_get_string_def string_get_id_def index_set_get [OF ix] index_set_position [OF ix]
  show thesis
  proof (cases "position str ?E")
    case None
    with law have e: "i = length ?E" "elems s' = ?E @ [str]" by simp_all
    from None have "str \<notin> set ?E" by (simp add: position_eq_None)
    show ?thesis
      by (rule that [OF add])
        (use e ok new str None \<open>str \<notin> set ?E\<close> in
          \<open>auto simp: table_ok_def defs get_opt_def pos_app res_simps nth_append split: if_splits\<close>)
  next
    case (Some j)
    with law have e: "i = j" "elems s' = ?E" by simp_all
    from position_eq_Some [OF Some] have "j < length ?E" "?E ! j = str" by simp_all
    show ?thesis
      by (rule that [OF add])
        (use e ok new Some \<open>j < length ?E\<close> \<open>?E ! j = str\<close> in
          \<open>auto simp: table_ok_def defs get_opt_def res_simps split: if_splits\<close>)
  qed
qed

lemma string_add_elems:
  assumes "index_set_laws ix elems" "string_add ix str t = Ok (i, t')"
  shows "set (elems (tb_strings t')) = insert str (set (elems (tb_strings t)))"
proof -
  obtain i' fresh s' where ins: "ix_insert_full ix str (tb_strings t) = ((i', fresh), s')"
    by (metis surj_pair)
  with assms(2) have t': "tb_strings t' = s'"
    by (auto simp: string_add_def debug_assert_def split: if_splits)
  from index_set_insert [OF assms(1), where b = str and s = "tb_strings t"] ins
  have law: "case position str (elems (tb_strings t)) of
      Some j \<Rightarrow> i' = j \<and> \<not> fresh \<and> elems s' = elems (tb_strings t)
    | None \<Rightarrow> i' = length (elems (tb_strings t)) \<and> fresh \<and> elems s' = elems (tb_strings t) @ [str]"
    by simp
  show ?thesis
  proof (cases "position str (elems (tb_strings t))")
    case None
    with law show ?thesis by (simp add: t')
  next
    case (Some j)
    with law position_eq_Some [OF Some] show ?thesis by (auto simp: t' in_set_conv_nth)
  qed
qed

section \<open>Sizes and reading\<close>

lemma length_table_image: "length (table_image strs) = sum_list (map (\<lambda>str. Suc (length str)) strs)"
  by (induction strs) auto

lemma sum_list_distinct_le:
  fixes f :: "'a \<Rightarrow> nat"
  shows "distinct xs \<Longrightarrow> set xs \<subseteq> set ys \<Longrightarrow> sum_list (map f xs) \<le> sum_list (map f ys)"
proof (induction xs arbitrary: ys)
  case (Cons x xs)
  then obtain a b where ys: "ys = a @ x # b" by (meson list.set_intros(1) split_list subsetD)
  have "sum_list (map f xs) \<le> sum_list (map f (a @ b))"
    using Cons.prems ys by (intro Cons.IH) auto
  then show ?case by (simp add: ys)
qed simp

text \<open>The image is no longer than the null-terminated strings one after another.\<close>

lemma table_image_bound:
  assumes "index_set_laws ix elems" "table_ok elems t" "set (elems (tb_strings t)) \<subseteq> set names"
  shows "length (table_image (written_strings ix elems t)) \<le> sum_list (map (\<lambda>str. Suc (length str)) names)"
proof -
  have "set (written_strings ix elems t) \<subseteq> set names"
    using written_strings_maximal(1) [OF assms(1,2)] assms(3) by (auto simp: maximal_strings_def)
  with written_strings_maximal(2) [OF assms(1,2)] show ?thesis
    by (simp add: length_table_image sum_list_distinct_le)
qed

lemma slice_at_terminated:
  assumes "slice_at data off (Suc n) = str @ [0]" "n = length str"
  obtains pre post where "data = pre @ str @ 0 # post" "length pre = off"
proof -
  have "Suc n \<le> length (drop off data)"
    using arg_cong [OF assms(1), of length] assms(2) by (simp add: slice_at_def)
  then have "off \<le> length data" by simp
  have "data = take off data @ take (Suc n) (drop off data) @ drop (Suc n) (drop off data)"
    unfolding append_take_drop_id ..
  with assms(1) have "data = take off data @ str @ 0 # drop (Suc n) (drop off data)"
    by (simp add: slice_at_def)
  moreover have "length (take off data) = off" using \<open>off \<le> length data\<close> by simp
  ultimately show thesis by (rule that)
qed

text \<open>
  A string of a written table is read back by the string table reader, wherever the table is in
  the file.
\<close>

lemma StringTable_get_written:
  assumes mc: "memchr_spec mc" and str: "0 \<notin> set str"
    and data: "slice_at data off (Suc (length str)) = str @ [0]"
    and inside: "slice_at file start (length data) = data" "start + length data \<le> length file"
    and fit: "start + length data \<le> usize_max" "length data < 2 ^ 32"
  shows "StringTable_get mc (StringTable_new file (word_of_nat start) (word_of_nat (start + length data)))
    (word_of_nat off) = Ok str"
proof -
  from slice_at_terminated [OF data refl] obtain pre post where
    d: "data = pre @ str @ 0 # post" "length pre = off" .
  have split: "file = take start file @ slice_at file start (length data) @ drop (length data) (drop start file)"
    unfolding slice_at_def append_take_drop_id ..
  have f: "file = (take start file @ pre) @ str @ 0 # (post @ drop (length data) (drop start file))"
    by (subst split) (simp only: inside(1), simp only: d(1) append_assoc append_Cons)
  have len: "length (take start file @ pre) = start + off" using inside(2) d(2) by simp
  have off: "off < 2 ^ 32" "start + off \<le> usize_max" using d fit by auto
  then have o32: "unat (word_of_nat off :: u32) = off" by (simp add: unat_of_nat)
  then have o64: "unat (ucast (word_of_nat off :: u32) :: u64) = off"
    using off(1) by (simp add: unsigned_ucast_eq take_bit_nat_eq_self)
  have s64: "unat (word_of_nat start :: u64) = start"
    and e64: "unat (word_of_nat (start + length data) :: u64) = start + length data"
    by (rule unat_word_of_nat_u64, use fit in linarith)+
  let ?s = "(word_of_nat start :: u64) + ucast (word_of_nat off :: u32)"
  have small: "start + off < 2 ^ 64" using off(2) by (simp add: usize_max_def)
  then have add: "word_checked_add (word_of_nat start :: u64) (ucast (word_of_nat off :: u32)) = Some ?s"
    by (simp add: word_checked_add_def o64 s64)
  have s: "unat ?s = length (take start file @ pre)"
    using small unat_add_no_overflow [of "word_of_nat start :: u64" "ucast (word_of_nat off :: u32)"]
    by (simp only: len o64 s64) simp
  have lt: "length (take start file @ pre) + length str < unat (word_of_nat (start + length data) :: u64)"
    unfolding e64 len using d by simp
  have le: "unat (word_of_nat (start + length data) :: u64) \<le> length file"
    unfolding e64 by (rule inside(2))
  show ?thesis
    using read_bytes_at_until_ok [OF mc f str s lt le] add
    by (simp add: StringTable_get_def StringTable_new_def del: of_nat_add)
qed

section \<open>Properties\<close>

text \<open>C5: the multi-key quicksort of the string table terminates without a panic and returns a permutation of the ids that orders the reversed strings downwards.\<close>

theorem string_sort_orders:
  assumes "index_set_laws ix elems" "table_ok elems t"
  shows "\<exists>ids. string_sort ix (tb_strings t) [0 ..< length (elems (tb_strings t))] 1 = Ok ids \<and>
    mset ids = mset [0 ..< length (elems (tb_strings t))] \<and>
    sorted_wrt (\<lambda>a b. rev b \<le> rev a) (map (nth (elems (tb_strings t))) ids)"
  using sorted_ids [OF assms] by metis

theorem string_sort_orders_witness:
  "\<exists>ids. string_sort list_set [[97], [98, 97], [98]] [0 ..< 3] 1 = Ok ids \<and> mset ids = mset [0 ..< 3]"
  using string_sort_orders [OF index_set_laws_list_set,
      where t = "\<lparr>tb_strings = [[97], [98, 97], [98]], tb_offsets = []\<rparr>"]
  by (auto simp: table_ok_def numeral_3_eq_3)

text \<open>C4: the written table is the concatenation, each with a null byte, of exactly the strings that are not a suffix of another one, each once; the size computed in advance is the size written.\<close>

theorem string_table_merges_suffixes:
  assumes "index_set_laws ix elems" "table_ok elems t" "tb_offsets t = []"
    and "1 + sum_list (map (\<lambda>str. Suc (length str)) (elems (tb_strings t))) \<le> usize_max"
  shows "\<exists>strs t'. string_write ix 1 t out = Ok (t', out @ concat (map (\<lambda>str. str @ [0]) strs)) \<and>
    string_size ix 1 t = Ok (1 + length (concat (map (\<lambda>str. str @ [0]) strs))) \<and>
    distinct strs \<and>
    set strs = {str \<in> set (elems (tb_strings t)). str \<noteq> [] \<and>
      \<not> (\<exists>longer \<in> set (elems (tb_strings t)). strict_suffix str longer)}"
proof -
  let ?strs = "written_strings ix elems t"
  have fit: "1 + length (table_image ?strs) \<le> usize_max"
    using table_image_bound [OF assms(1,2) order_refl] assms(4) by linarith
  then obtain offsets where "string_write ix 1 t out = Ok (t\<lparr>tb_offsets := offsets\<rparr>, out @ table_image ?strs)"
    using string_write_ok [OF assms(1-3), of "[0]" out] by auto
  moreover have "set ?strs = {str \<in> set (elems (tb_strings t)). str \<noteq> [] \<and>
      \<not> (\<exists>longer \<in> set (elems (tb_strings t)). strict_suffix str longer)}"
    unfolding written_strings_maximal(1) [OF assms(1,2)] maximal_strings_def by (auto simp: strict_suffix_def)
  ultimately show ?thesis
    using string_size_ok [OF assms(1,2) fit] written_strings_maximal(2) [OF assms(1,2)]
    unfolding table_image_def by (intro exI [of _ ?strs] exI [of _ "t\<lparr>tb_offsets := offsets\<rparr>"] conjI)
qed

theorem string_table_merges_suffixes_witness:
  "\<exists>strs t'. string_write list_set 1 \<lparr>tb_strings = [[97], [98, 97], []], tb_offsets = []\<rparr> [0] =
      Ok (t', [0] @ concat (map (\<lambda>str. str @ [0]) strs)) \<and> distinct strs \<and> set strs = {[98, 97]}"
  using string_table_merges_suffixes [OF index_set_laws_list_set,
      of "\<lparr>tb_strings = [[97], [98, 97], []], tb_offsets = []\<rparr>" "[0]"]
  by (auto simp: table_ok_def usize_max_def strict_suffix_def suffix_Cons)

text \<open>C3: every string added to a table is read back by the string table reader at the offset the writer assigned to its id.\<close>

theorem string_table_readable:
  assumes "index_set_laws ix elems" "memchr_spec memchr" "table_ok elems t" "tb_offsets t = []"
    and "1 + sum_list (map (\<lambda>str. Suc (length str)) (elems (tb_strings t))) < 2 ^ 32"
  shows "\<exists>t' data. string_write ix 1 t [0] = Ok (t', data) \<and>
    (\<forall>str \<in> set (elems (tb_strings t)). \<exists>i off.
       string_get_id ix t' str = Ok i \<and> string_get_offset t' i = Ok off \<and>
       StringTable_get memchr (StringTable_new data 0 (word_of_nat (length data))) (word_of_nat off) = Ok str)"
proof -
  let ?E = "elems (tb_strings t)" and ?data = "[0] @ table_image (written_strings ix elems t)"
  have fit: "length ?data < 2 ^ 32"
    using table_image_bound [OF assms(1,3) order_refl] assms(5) by simp
  then have "length [0 :: u8] + length (table_image (written_strings ix elems t)) \<le> usize_max"
    by (simp add: usize_max_def)
  then obtain offsets where w: "string_write ix 1 t [0] = Ok (t\<lparr>tb_offsets := offsets\<rparr>, ?data)"
      "length offsets = length ?E"
      "\<forall>i < length ?E. slice_at ?data (offsets ! i) (Suc (length (?E ! i))) = ?E ! i @ [0]"
    using string_write_ok [OF assms(1,3,4), of "[0]" "[0]"] by auto
  have "string_get_id ix (t\<lparr>tb_offsets := offsets\<rparr>) (?E ! i) = Ok i \<and>
      string_get_offset (t\<lparr>tb_offsets := offsets\<rparr>) i = Ok (offsets ! i) \<and>
      StringTable_get memchr (StringTable_new ?data 0 (word_of_nat (length ?data))) (word_of_nat (offsets ! i)) =
        Ok (?E ! i)" if i: "i < length ?E" for i
  proof -
    have "distinct ?E" "0 \<notin> set (?E ! i)" using assms(3) i by (auto simp: table_ok_def)
    then have "StringTable_get memchr (StringTable_new ?data (word_of_nat 0)
        (word_of_nat (0 + length ?data))) (word_of_nat (offsets ! i)) = Ok (?E ! i)"
      using w(3) i fit
      by (intro StringTable_get_written [OF assms(2)]) (simp_all add: slice_at_def usize_max_def)
    then show ?thesis
      using \<open>distinct ?E\<close> i w(2) position_nth [of ?E i]
      by (simp add: string_get_id_def index_set_position [OF assms(1)] string_get_offset_def
          index_list_def)
  qed
  then show ?thesis using w(1) by (fastforce simp: in_set_conv_nth)
qed

theorem string_table_readable_witness:
  "\<exists>t' data. string_write list_set 1 \<lparr>tb_strings = [[97], [98, 97]], tb_offsets = []\<rparr> [0] = Ok (t', data)"
  using string_table_readable [OF index_set_laws_list_set memchr_spec_first_index,
      of "\<lparr>tb_strings = [[97], [98, 97]], tb_offsets = []\<rparr>"]
  by (auto simp: table_ok_def)

end
