(* ===== verification/Elf_Types.thy ===== *)
theory Elf_Types
  imports Struct_Fields
begin

text \<open>
  The structures of \<^verbatim>\<open>src/elf.rs\<close>. Each \<^verbatim>\<open>#[repr(C)]\<close> structure is a record of the native values
  of its fields; \<open>encode_S e s\<close> is its memory image in the byte order \<open>e\<close> (the value that
  \<^verbatim>\<open>S { field: U32::new(endian, value), .. }\<close> has) and \<open>decode_S e bs\<close> reads every field with the
  accessor of the field. The 32-bit and 64-bit variants of a structure are one record over the
  width \<open>'w\<close> of an address; where the order of the fields depends on the class there are two
  images. Every encoding is read back by the decoding.
\<close>

section \<open>Constants\<close>

abbreviation ELFMAG :: bytes where "ELFMAG \<equiv> [0x7f, 0x45, 0x4c, 0x46]"
abbreviation ELFCLASS32 :: u8 where "ELFCLASS32 \<equiv> 1"
abbreviation ELFCLASS64 :: u8 where "ELFCLASS64 \<equiv> 2"
abbreviation ELFDATA2LSB :: u8 where "ELFDATA2LSB \<equiv> 1"
abbreviation ELFDATA2MSB :: u8 where "ELFDATA2MSB \<equiv> 2"
abbreviation EV_CURRENT :: u8 where "EV_CURRENT \<equiv> 1"
abbreviation EM_MIPS :: u16 where "EM_MIPS \<equiv> 8"
abbreviation SHN_LORESERVE :: u16 where "SHN_LORESERVE \<equiv> 0xff00"
abbreviation SHN_XINDEX :: u16 where "SHN_XINDEX \<equiv> 0xffff"
abbreviation PN_XNUM :: u16 where "PN_XNUM \<equiv> 0xffff"
abbreviation SHT_NULL :: u32 where "SHT_NULL \<equiv> 0"
abbreviation SHT_SYMTAB :: u32 where "SHT_SYMTAB \<equiv> 2"
abbreviation SHT_STRTAB :: u32 where "SHT_STRTAB \<equiv> 3"
abbreviation SHT_RELA :: u32 where "SHT_RELA \<equiv> 4"
abbreviation SHT_HASH :: u32 where "SHT_HASH \<equiv> 5"
abbreviation SHT_DYNAMIC :: u32 where "SHT_DYNAMIC \<equiv> 6"
abbreviation SHT_NOTE :: u32 where "SHT_NOTE \<equiv> 7"
abbreviation SHT_NOBITS :: u32 where "SHT_NOBITS \<equiv> 8"
abbreviation SHT_REL :: u32 where "SHT_REL \<equiv> 9"
abbreviation SHT_DYNSYM :: u32 where "SHT_DYNSYM \<equiv> 11"
abbreviation SHT_GROUP :: u32 where "SHT_GROUP \<equiv> 17"
abbreviation SHT_SYMTAB_SHNDX :: u32 where "SHT_SYMTAB_SHNDX \<equiv> 18"
abbreviation SHT_RELR :: u32 where "SHT_RELR \<equiv> 19"
abbreviation SHT_CREL :: u32 where "SHT_CREL \<equiv> 0x40000014"
abbreviation SHT_GNU_ATTRIBUTES :: u32 where "SHT_GNU_ATTRIBUTES \<equiv> 0x6ffffff5"
abbreviation SHT_GNU_HASH :: u32 where "SHT_GNU_HASH \<equiv> 0x6ffffff6"
abbreviation SHT_GNU_VERDEF :: u32 where "SHT_GNU_VERDEF \<equiv> 0x6ffffffd"
abbreviation SHT_GNU_VERNEED :: u32 where "SHT_GNU_VERNEED \<equiv> 0x6ffffffe"
abbreviation SHT_GNU_VERSYM :: u32 where "SHT_GNU_VERSYM \<equiv> 0x6fffffff"
abbreviation SHF_WRITE :: u64 where "SHF_WRITE \<equiv> 1"
abbreviation SHF_ALLOC :: u64 where "SHF_ALLOC \<equiv> 2"
abbreviation SHF_INFO_LINK :: u64 where "SHF_INFO_LINK \<equiv> 0x40"
abbreviation GRP_COMDAT :: u32 where "GRP_COMDAT \<equiv> 1"

section \<open>File header\<close>

record ident =
  magic :: bytes
  ei_class :: u8
  ei_data :: u8
  ei_version :: u8
  os_abi :: u8
  abi_version :: u8
  padding :: bytes

record 'w file_header =
  e_ident :: ident
  e_type :: u16
  e_machine :: u16
  e_version :: u32
  e_entry :: 'w
  e_phoff :: 'w
  e_shoff :: 'w
  e_flags :: u32
  e_ehsize :: u16
  e_phentsize :: u16
  e_phnum :: u16
  e_shentsize :: u16
  e_shnum :: u16
  e_shstrndx :: u16

definition encode_ident :: "ident \<Rightarrow> bytes" where
  "encode_ident s = magic s @ [ei_class s, ei_data s, ei_version s, os_abi s, abi_version s] @ padding s"

definition decode_ident :: "bytes \<Rightarrow> ident \<times> bytes" where
  "decode_ident bs =
    (case fld_bytes 4 bs of (m, bs) \<Rightarrow>
     case fld_byte bs of (c, bs) \<Rightarrow>
     case fld_byte bs of (d, bs) \<Rightarrow>
     case fld_byte bs of (v, bs) \<Rightarrow>
     case fld_byte bs of (osabi, bs) \<Rightarrow>
     case fld_byte bs of (abi, bs) \<Rightarrow>
     case fld_bytes 7 bs of (p, bs) \<Rightarrow>
     (\<lparr>magic = m, ei_class = c, ei_data = d, ei_version = v, os_abi = osabi, abi_version = abi,
       padding = p\<rparr>, bs))"

text \<open>The arrays of the structure have fixed lengths.\<close>

definition ident_ok :: "ident \<Rightarrow> bool" where
  "ident_ok s \<longleftrightarrow> length (magic s) = 4 \<and> length (padding s) = 7"

definition encode_file_header :: "endianness \<Rightarrow> 'w::len word file_header \<Rightarrow> bytes" where
  "encode_file_header e s =
    encode_ident (e_ident s) @ U_new e (e_type s) @ U_new e (e_machine s) @ U_new e (e_version s) @
    U_new e (e_entry s) @ U_new e (e_phoff s) @ U_new e (e_shoff s) @ U_new e (e_flags s) @
    U_new e (e_ehsize s) @ U_new e (e_phentsize s) @ U_new e (e_phnum s) @
    U_new e (e_shentsize s) @ U_new e (e_shnum s) @ U_new e (e_shstrndx s)"

definition decode_file_header :: "endianness \<Rightarrow> bytes \<Rightarrow> 'w::len word file_header" where
  "decode_file_header e bs =
    (case decode_ident bs of (i, bs) \<Rightarrow>
     case fld e bs of (ty, bs) \<Rightarrow>
     case fld e bs of (machine, bs) \<Rightarrow>
     case fld e bs of (version, bs) \<Rightarrow>
     case fld e bs of (entry, bs) \<Rightarrow>
     case fld e bs of (phoff, bs) \<Rightarrow>
     case fld e bs of (shoff, bs) \<Rightarrow>
     case fld e bs of (flags, bs) \<Rightarrow>
     case fld e bs of (ehsize, bs) \<Rightarrow>
     case fld e bs of (phentsize, bs) \<Rightarrow>
     case fld e bs of (phnum, bs) \<Rightarrow>
     case fld e bs of (shentsize, bs) \<Rightarrow>
     case fld e bs of (shnum, bs) \<Rightarrow>
     case fld e bs of (shstrndx, bs) \<Rightarrow>
     \<lparr>e_ident = i, e_type = ty, e_machine = machine, e_version = version, e_entry = entry,
      e_phoff = phoff, e_shoff = shoff, e_flags = flags, e_ehsize = ehsize,
      e_phentsize = phentsize, e_phnum = phnum, e_shentsize = shentsize, e_shnum = shnum,
      e_shstrndx = shstrndx\<rparr>)"

section \<open>Section and program headers\<close>

record 'w section_header =
  sh_name :: u32
  sh_type :: u32
  sh_flags :: 'w
  sh_addr :: 'w
  sh_offset :: 'w
  sh_size :: 'w
  sh_link :: u32
  sh_info :: u32
  sh_addralign :: 'w
  sh_entsize :: 'w

definition encode_section_header :: "endianness \<Rightarrow> 'w::len word section_header \<Rightarrow> bytes" where
  "encode_section_header e s =
    U_new e (sh_name s) @ U_new e (sh_type s) @ U_new e (sh_flags s) @ U_new e (sh_addr s) @
    U_new e (sh_offset s) @ U_new e (sh_size s) @ U_new e (sh_link s) @ U_new e (sh_info s) @
    U_new e (sh_addralign s) @ U_new e (sh_entsize s)"

definition decode_section_header :: "endianness \<Rightarrow> bytes \<Rightarrow> 'w::len word section_header" where
  "decode_section_header e bs =
    (case fld e bs of (name, bs) \<Rightarrow>
     case fld e bs of (ty, bs) \<Rightarrow>
     case fld e bs of (flags, bs) \<Rightarrow>
     case fld e bs of (addr, bs) \<Rightarrow>
     case fld e bs of (offset, bs) \<Rightarrow>
     case fld e bs of (sz, bs) \<Rightarrow>
     case fld e bs of (link, bs) \<Rightarrow>
     case fld e bs of (info, bs) \<Rightarrow>
     case fld e bs of (addralign, bs) \<Rightarrow>
     case fld e bs of (entsize, bs) \<Rightarrow>
     \<lparr>sh_name = name, sh_type = ty, sh_flags = flags, sh_addr = addr, sh_offset = offset,
      sh_size = sz, sh_link = link, sh_info = info, sh_addralign = addralign,
      sh_entsize = entsize\<rparr>)"

record 'w program_header =
  p_type :: u32
  p_flags :: u32
  p_offset :: 'w
  p_vaddr :: 'w
  p_paddr :: 'w
  p_filesz :: 'w
  p_memsz :: 'w
  p_align :: 'w

definition encode_ProgramHeader32 :: "endianness \<Rightarrow> u32 program_header \<Rightarrow> bytes" where
  "encode_ProgramHeader32 e s =
    U_new e (p_type s) @ U_new e (p_offset s) @ U_new e (p_vaddr s) @ U_new e (p_paddr s) @
    U_new e (p_filesz s) @ U_new e (p_memsz s) @ U_new e (p_flags s) @ U_new e (p_align s)"

definition encode_ProgramHeader64 :: "endianness \<Rightarrow> u64 program_header \<Rightarrow> bytes" where
  "encode_ProgramHeader64 e s =
    U_new e (p_type s) @ U_new e (p_flags s) @ U_new e (p_offset s) @ U_new e (p_vaddr s) @
    U_new e (p_paddr s) @ U_new e (p_filesz s) @ U_new e (p_memsz s) @ U_new e (p_align s)"

definition decode_ProgramHeader32 :: "endianness \<Rightarrow> bytes \<Rightarrow> u32 program_header" where
  "decode_ProgramHeader32 e bs =
    (case fld e bs of (ty, bs) \<Rightarrow>
     case fld e bs of (offset, bs) \<Rightarrow>
     case fld e bs of (vaddr, bs) \<Rightarrow>
     case fld e bs of (paddr, bs) \<Rightarrow>
     case fld e bs of (filesz, bs) \<Rightarrow>
     case fld e bs of (memsz, bs) \<Rightarrow>
     case fld e bs of (flags, bs) \<Rightarrow>
     case fld e bs of (align, bs) \<Rightarrow>
     \<lparr>p_type = ty, p_flags = flags, p_offset = offset, p_vaddr = vaddr, p_paddr = paddr,
      p_filesz = filesz, p_memsz = memsz, p_align = align\<rparr>)"

definition decode_ProgramHeader64 :: "endianness \<Rightarrow> bytes \<Rightarrow> u64 program_header" where
  "decode_ProgramHeader64 e bs =
    (case fld e bs of (ty, bs) \<Rightarrow>
     case fld e bs of (flags, bs) \<Rightarrow>
     case fld e bs of (offset, bs) \<Rightarrow>
     case fld e bs of (vaddr, bs) \<Rightarrow>
     case fld e bs of (paddr, bs) \<Rightarrow>
     case fld e bs of (filesz, bs) \<Rightarrow>
     case fld e bs of (memsz, bs) \<Rightarrow>
     case fld e bs of (align, bs) \<Rightarrow>
     \<lparr>p_type = ty, p_flags = flags, p_offset = offset, p_vaddr = vaddr, p_paddr = paddr,
      p_filesz = filesz, p_memsz = memsz, p_align = align\<rparr>)"

section \<open>Symbols\<close>

record 'w sym =
  st_name :: u32
  st_info :: u8
  st_other :: u8
  st_shndx :: u16
  st_value :: 'w
  st_size :: 'w

definition encode_Sym32 :: "endianness \<Rightarrow> u32 sym \<Rightarrow> bytes" where
  "encode_Sym32 e s =
    U_new e (st_name s) @ U_new e (st_value s) @ U_new e (st_size s) @
    [st_info s, st_other s] @ U_new e (st_shndx s)"

definition encode_Sym64 :: "endianness \<Rightarrow> u64 sym \<Rightarrow> bytes" where
  "encode_Sym64 e s =
    U_new e (st_name s) @ [st_info s, st_other s] @ U_new e (st_shndx s) @
    U_new e (st_value s) @ U_new e (st_size s)"

definition decode_Sym32 :: "endianness \<Rightarrow> bytes \<Rightarrow> u32 sym" where
  "decode_Sym32 e bs =
    (case fld e bs of (name, bs) \<Rightarrow>
     case fld e bs of (val, bs) \<Rightarrow>
     case fld e bs of (sz, bs) \<Rightarrow>
     case fld_byte bs of (info, bs) \<Rightarrow>
     case fld_byte bs of (other, bs) \<Rightarrow>
     case fld e bs of (shndx, bs) \<Rightarrow>
     \<lparr>st_name = name, st_info = info, st_other = other, st_shndx = shndx, st_value = val,
      st_size = sz\<rparr>)"

definition decode_Sym64 :: "endianness \<Rightarrow> bytes \<Rightarrow> u64 sym" where
  "decode_Sym64 e bs =
    (case fld e bs of (name, bs) \<Rightarrow>
     case fld_byte bs of (info, bs) \<Rightarrow>
     case fld_byte bs of (other, bs) \<Rightarrow>
     case fld e bs of (shndx, bs) \<Rightarrow>
     case fld e bs of (val, bs) \<Rightarrow>
     case fld e bs of (sz, bs) \<Rightarrow>
     \<lparr>st_name = name, st_info = info, st_other = other, st_shndx = shndx, st_value = val,
      st_size = sz\<rparr>)"

definition Sym_default :: "'w::len word sym" where
  "Sym_default = \<lparr>st_name = 0, st_info = 0, st_other = 0, st_shndx = 0, st_value = 0, st_size = 0\<rparr>"

definition st_bind :: "'w sym \<Rightarrow> u8" where
  "st_bind self = drop_bit 4 (st_info self)"

definition st_type :: "'w sym \<Rightarrow> u8" where
  "st_type self = st_info self AND 0xf"

text \<open>The addition of \<^verbatim>\<open>set_st_info\<close> cannot overflow (\<open>set_st_info_ok\<close>).\<close>

definition set_st_info :: "'w sym \<Rightarrow> u8 \<Rightarrow> u8 \<Rightarrow> ('w sym, string) result" where
  "set_st_info self bind ty =
    and_then (word_add (push_bit 4 bind) (ty AND 0xf)) (\<lambda>info.
    Ok (self\<lparr>st_info := info\<rparr>))"

definition st_visibility :: "'w sym \<Rightarrow> u8" where
  "st_visibility self = st_other self AND 0x3"

section \<open>Relocations\<close>

record 'w rel_entry =
  rel_r_offset :: 'w
  rel_r_info :: 'w

record 'w rela_entry =
  rela_r_offset :: 'w
  rela_r_info :: 'w
  rela_r_addend :: 'w

definition encode_rel :: "endianness \<Rightarrow> 'w::len word rel_entry \<Rightarrow> bytes" where
  "encode_rel e s = U_new e (rel_r_offset s) @ U_new e (rel_r_info s)"

definition decode_rel :: "endianness \<Rightarrow> bytes \<Rightarrow> 'w::len word rel_entry" where
  "decode_rel e bs =
    (case fld e bs of (offset, bs) \<Rightarrow>
     case fld e bs of (info, bs) \<Rightarrow>
     \<lparr>rel_r_offset = offset, rel_r_info = info\<rparr>)"

definition encode_rela :: "endianness \<Rightarrow> 'w::len word rela_entry \<Rightarrow> bytes" where
  "encode_rela e s = U_new e (rela_r_offset s) @ U_new e (rela_r_info s) @ U_new e (rela_r_addend s)"

definition decode_rela :: "endianness \<Rightarrow> bytes \<Rightarrow> 'w::len word rela_entry" where
  "decode_rela e bs =
    (case fld e bs of (offset, bs) \<Rightarrow>
     case fld e bs of (info, bs) \<Rightarrow>
     case fld e bs of (addend, bs) \<Rightarrow>
     \<lparr>rela_r_offset = offset, rela_r_info = info, rela_r_addend = addend\<rparr>)"

definition Rel32_r_info :: "u32 \<Rightarrow> u8 \<Rightarrow> u32" where
  "Rel32_r_info r_sym r_type = push_bit 8 r_sym OR ucast r_type"

definition Rel32_r_sym :: "u32 \<Rightarrow> u32" where
  "Rel32_r_sym r_info = drop_bit 8 r_info"

definition Rel32_r_type :: "u32 \<Rightarrow> u32" where
  "Rel32_r_type r_info = r_info AND 0xff"

definition Rel64_r_info :: "u32 \<Rightarrow> u32 \<Rightarrow> u64" where
  "Rel64_r_info r_sym r_type = push_bit 32 (ucast r_sym) OR ucast r_type"

definition Rel64_r_sym :: "u64 \<Rightarrow> u32" where
  "Rel64_r_sym r_info = ucast (drop_bit 32 r_info)"

definition Rel64_r_type :: "u64 \<Rightarrow> u32" where
  "Rel64_r_type r_info = ucast (r_info AND 0xffffffff)"

definition Rela64_get_r_info :: "bool \<Rightarrow> u64 \<Rightarrow> u64" where
  "Rela64_get_r_info is_mips64el r_info =
    (let t = r_info in
     if is_mips64el then
       push_bit 32 t
       OR (drop_bit 8 t AND 0xff000000)
       OR (drop_bit 24 t AND 0x00ff0000)
       OR (drop_bit 40 t AND 0x0000ff00)
       OR (drop_bit 56 t AND 0x000000ff)
     else t)"

definition Rela64_r_sym :: "bool \<Rightarrow> u64 \<Rightarrow> u32" where
  "Rela64_r_sym is_mips64el r_info = ucast (drop_bit 32 (Rela64_get_r_info is_mips64el r_info))"

definition Rela64_r_type :: "bool \<Rightarrow> u64 \<Rightarrow> u32" where
  "Rela64_r_type is_mips64el r_info = ucast (Rela64_get_r_info is_mips64el r_info AND 0xffffffff)"

definition Rela64_r_info :: "bool \<Rightarrow> u32 \<Rightarrow> u32 \<Rightarrow> u64" where
  "Rela64_r_info is_mips64el r_sym r_type =
    (let t = push_bit 32 (ucast r_sym) OR ucast r_type in
     if is_mips64el then
       drop_bit 32 t
       OR push_bit 8 (t AND 0xff000000)
       OR push_bit 24 (t AND 0x00ff0000)
       OR push_bit 40 (t AND 0x0000ff00)
       OR push_bit 56 (t AND 0x000000ff)
     else t)"

section \<open>Dynamic entries, versions, notes and hash headers\<close>

record 'w dyn_entry =
  d_tag :: 'w
  d_val :: 'w

definition encode_dyn :: "endianness \<Rightarrow> 'w::len word dyn_entry \<Rightarrow> bytes" where
  "encode_dyn e s = U_new e (d_tag s) @ U_new e (d_val s)"

definition decode_dyn :: "endianness \<Rightarrow> bytes \<Rightarrow> 'w::len word dyn_entry" where
  "decode_dyn e bs =
    (case fld e bs of (tag, bs) \<Rightarrow>
     case fld e bs of (val, bs) \<Rightarrow>
     \<lparr>d_tag = tag, d_val = val\<rparr>)"

record verdef =
  vd_version :: u16
  vd_flags :: u16
  vd_ndx :: u16
  vd_cnt :: u16
  vd_hash :: u32
  vd_aux :: u32
  vd_next :: u32

definition encode_verdef :: "endianness \<Rightarrow> verdef \<Rightarrow> bytes" where
  "encode_verdef e s =
    U_new e (vd_version s) @ U_new e (vd_flags s) @ U_new e (vd_ndx s) @ U_new e (vd_cnt s) @
    U_new e (vd_hash s) @ U_new e (vd_aux s) @ U_new e (vd_next s)"

definition decode_verdef :: "endianness \<Rightarrow> bytes \<Rightarrow> verdef" where
  "decode_verdef e bs =
    (case fld e bs of (version, bs) \<Rightarrow>
     case fld e bs of (flags, bs) \<Rightarrow>
     case fld e bs of (ndx, bs) \<Rightarrow>
     case fld e bs of (cnt, bs) \<Rightarrow>
     case fld e bs of (h, bs) \<Rightarrow>
     case fld e bs of (aux, bs) \<Rightarrow>
     case fld e bs of (nxt, bs) \<Rightarrow>
     \<lparr>vd_version = version, vd_flags = flags, vd_ndx = ndx, vd_cnt = cnt, vd_hash = h,
      vd_aux = aux, vd_next = nxt\<rparr>)"

record verdaux =
  vda_name :: u32
  vda_next :: u32

definition encode_verdaux :: "endianness \<Rightarrow> verdaux \<Rightarrow> bytes" where
  "encode_verdaux e s = U_new e (vda_name s) @ U_new e (vda_next s)"

definition decode_verdaux :: "endianness \<Rightarrow> bytes \<Rightarrow> verdaux" where
  "decode_verdaux e bs =
    (case fld e bs of (name, bs) \<Rightarrow>
     case fld e bs of (nxt, bs) \<Rightarrow>
     \<lparr>vda_name = name, vda_next = nxt\<rparr>)"

record verneed =
  vn_version :: u16
  vn_cnt :: u16
  vn_file :: u32
  vn_aux :: u32
  vn_next :: u32

definition encode_verneed :: "endianness \<Rightarrow> verneed \<Rightarrow> bytes" where
  "encode_verneed e s =
    U_new e (vn_version s) @ U_new e (vn_cnt s) @ U_new e (vn_file s) @ U_new e (vn_aux s) @
    U_new e (vn_next s)"

definition decode_verneed :: "endianness \<Rightarrow> bytes \<Rightarrow> verneed" where
  "decode_verneed e bs =
    (case fld e bs of (version, bs) \<Rightarrow>
     case fld e bs of (cnt, bs) \<Rightarrow>
     case fld e bs of (file, bs) \<Rightarrow>
     case fld e bs of (aux, bs) \<Rightarrow>
     case fld e bs of (nxt, bs) \<Rightarrow>
     \<lparr>vn_version = version, vn_cnt = cnt, vn_file = file, vn_aux = aux, vn_next = nxt\<rparr>)"

record vernaux =
  vna_hash :: u32
  vna_flags :: u16
  vna_other :: u16
  vna_name :: u32
  vna_next :: u32

definition encode_vernaux :: "endianness \<Rightarrow> vernaux \<Rightarrow> bytes" where
  "encode_vernaux e s =
    U_new e (vna_hash s) @ U_new e (vna_flags s) @ U_new e (vna_other s) @ U_new e (vna_name s) @
    U_new e (vna_next s)"

definition decode_vernaux :: "endianness \<Rightarrow> bytes \<Rightarrow> vernaux" where
  "decode_vernaux e bs =
    (case fld e bs of (h, bs) \<Rightarrow>
     case fld e bs of (flags, bs) \<Rightarrow>
     case fld e bs of (other, bs) \<Rightarrow>
     case fld e bs of (name, bs) \<Rightarrow>
     case fld e bs of (nxt, bs) \<Rightarrow>
     \<lparr>vna_hash = h, vna_flags = flags, vna_other = other, vna_name = name, vna_next = nxt\<rparr>)"

record hash_header =
  bucket_count :: u32
  chain_count :: u32

definition encode_hash_header :: "endianness \<Rightarrow> hash_header \<Rightarrow> bytes" where
  "encode_hash_header e s = U_new e (bucket_count s) @ U_new e (chain_count s)"

definition decode_hash_header :: "endianness \<Rightarrow> bytes \<Rightarrow> hash_header" where
  "decode_hash_header e bs =
    (case fld e bs of (buckets, bs) \<Rightarrow>
     case fld e bs of (chain, bs) \<Rightarrow>
     \<lparr>bucket_count = buckets, chain_count = chain\<rparr>)"

record gnu_hash_header =
  gnu_bucket_count :: u32
  symbol_base :: u32
  bloom_count :: u32
  bloom_shift :: u32

definition encode_gnu_hash_header :: "endianness \<Rightarrow> gnu_hash_header \<Rightarrow> bytes" where
  "encode_gnu_hash_header e s =
    U_new e (gnu_bucket_count s) @ U_new e (symbol_base s) @ U_new e (bloom_count s) @
    U_new e (bloom_shift s)"

definition decode_gnu_hash_header :: "endianness \<Rightarrow> bytes \<Rightarrow> gnu_hash_header" where
  "decode_gnu_hash_header e bs =
    (case fld e bs of (buckets, bs) \<Rightarrow>
     case fld e bs of (base, bs) \<Rightarrow>
     case fld e bs of (bloom, bs) \<Rightarrow>
     case fld e bs of (shift, bs) \<Rightarrow>
     \<lparr>gnu_bucket_count = buckets, symbol_base = base, bloom_count = bloom, bloom_shift = shift\<rparr>)"

section \<open>The hash functions\<close>

fun hash_loop :: "u32 \<Rightarrow> bytes \<Rightarrow> u32" where
  "hash_loop h [] = h"
| "hash_loop h (byte # name) =
    (let h = h * 16 + ucast byte;
         h = h XOR (drop_bit 24 h AND 0xf0)
     in hash_loop h name)"

definition elf_hash :: "bytes \<Rightarrow> u32" where
  "elf_hash name = hash_loop 0 name AND 0xfffffff"

fun gnu_hash_loop :: "u32 \<Rightarrow> bytes \<Rightarrow> u32" where
  "gnu_hash_loop h [] = h"
| "gnu_hash_loop h (byte # name) = gnu_hash_loop (h * 33 + ucast byte) name"

definition gnu_hash :: "bytes \<Rightarrow> u32" where
  "gnu_hash name = gnu_hash_loop 5381 name"

section \<open>Round trips and sizes\<close>

lemma length_encode_ident [len_simps]: "ident_ok s \<Longrightarrow> length (encode_ident s) = 16"
  by (simp add: encode_ident_def ident_ok_def)

lemma decode_encode_ident [simp]: "ident_ok s \<Longrightarrow> decode_ident (encode_ident s @ rest) = (s, rest)"
  by (simp add: decode_ident_def encode_ident_def ident_ok_def)

lemma decode_encode_file_header:
  "8 dvd LENGTH('w) \<Longrightarrow> ident_ok (e_ident s) \<Longrightarrow> decode_file_header e (encode_file_header e s) = s"
  for s :: "'w::len word file_header"
  by (simp add: decode_file_header_def encode_file_header_def)

lemma decode_encode_section_header:
  "8 dvd LENGTH('w) \<Longrightarrow> decode_section_header e (encode_section_header e s) = s"
  for s :: "'w::len word section_header"
  by (simp add: decode_section_header_def encode_section_header_def)

lemma decode_encode_program_header [simp]:
  "decode_ProgramHeader32 e (encode_ProgramHeader32 e s) = s"
  "decode_ProgramHeader64 e (encode_ProgramHeader64 e t) = t"
  by (simp_all add: decode_ProgramHeader32_def encode_ProgramHeader32_def
      decode_ProgramHeader64_def encode_ProgramHeader64_def)

lemma decode_encode_sym [simp]:
  "decode_Sym32 e (encode_Sym32 e s) = s"
  "decode_Sym64 e (encode_Sym64 e t) = t"
  by (simp_all add: decode_Sym32_def encode_Sym32_def decode_Sym64_def encode_Sym64_def)

lemma decode_encode_rel: "8 dvd LENGTH('w) \<Longrightarrow> decode_rel e (encode_rel e s) = s"
  for s :: "'w::len word rel_entry"
  by (simp add: decode_rel_def encode_rel_def)

lemma decode_encode_rela: "8 dvd LENGTH('w) \<Longrightarrow> decode_rela e (encode_rela e s) = s"
  for s :: "'w::len word rela_entry"
  by (simp add: decode_rela_def encode_rela_def)

lemma decode_encode_dyn: "8 dvd LENGTH('w) \<Longrightarrow> decode_dyn e (encode_dyn e s) = s"
  for s :: "'w::len word dyn_entry"
  by (simp add: decode_dyn_def encode_dyn_def)

lemma decode_encode_small [simp]:
  "decode_verdef e (encode_verdef e a) = a"
  "decode_verdaux e (encode_verdaux e b) = b"
  "decode_verneed e (encode_verneed e c) = c"
  "decode_vernaux e (encode_vernaux e d) = d"
  "decode_hash_header e (encode_hash_header e h) = h"
  "decode_gnu_hash_header e (encode_gnu_hash_header e g) = g"
  by (simp_all add: decode_verdef_def encode_verdef_def decode_verdaux_def encode_verdaux_def
      decode_verneed_def encode_verneed_def decode_vernaux_def encode_vernaux_def
      decode_hash_header_def encode_hash_header_def decode_gnu_hash_header_def
      encode_gnu_hash_header_def)

lemma length_encode_file_header [len_simps]:
  "ident_ok (e_ident s) \<Longrightarrow> length (encode_file_header e (s :: u32 file_header)) = 52"
  "ident_ok (e_ident t) \<Longrightarrow> length (encode_file_header e (t :: u64 file_header)) = 64"
  by (simp_all add: encode_file_header_def length_encode_ident)

lemma length_encode_headers [len_simps]:
  "length (encode_section_header e (s :: u32 section_header)) = 40"
  "length (encode_section_header e (t :: u64 section_header)) = 64"
  "length (encode_ProgramHeader32 e p) = 32"
  "length (encode_ProgramHeader64 e q) = 56"
  by (simp_all add: encode_section_header_def encode_ProgramHeader32_def encode_ProgramHeader64_def)

lemma length_encode_entries [len_simps]:
  "length (encode_Sym32 e s) = 16" "length (encode_Sym64 e t) = 24"
  "length (encode_rel e (r :: u32 rel_entry)) = 8" "length (encode_rel e (r' :: u64 rel_entry)) = 16"
  "length (encode_rela e (a :: u32 rela_entry)) = 12" "length (encode_rela e (a' :: u64 rela_entry)) = 24"
  "length (encode_dyn e (d :: u32 dyn_entry)) = 8" "length (encode_dyn e (d' :: u64 dyn_entry)) = 16"
  by (simp_all add: encode_Sym32_def encode_Sym64_def encode_rel_def encode_rela_def encode_dyn_def)

lemma length_encode_small [len_simps]:
  "length (encode_verdef e a) = 20" "length (encode_verdaux e b) = 8"
  "length (encode_verneed e c) = 16" "length (encode_vernaux e d) = 16"
  "length (encode_hash_header e h) = 8" "length (encode_gnu_hash_header e g) = 16"
  by (simp_all add: encode_verdef_def encode_verdaux_def encode_verneed_def encode_vernaux_def
      encode_hash_header_def encode_gnu_hash_header_def)

section \<open>Symbol and relocation information\<close>

lemma word_add_disjoint:
  fixes a b :: "'w::len word"
  assumes "a AND b = 0"
  shows "word_add a b = Ok (a OR b)"
proof -
  have n: "unat a AND unat b = 0"
    using arg_cong [OF assms, of unat] by (simp add: unsigned_and_eq)
  have "unat a + unat b = (unat a OR unat b)"
    using n by (simp add: disjunctive_add_eq_or)
  also have "\<dots> = unat (a OR b)" by (simp add: unsigned_or_eq)
  finally have s: "unat a + unat b = unat (a OR b)" .
  moreover have "a + b = a OR b"
    using assms by (simp add: disjunctive_add_eq_or)
  ultimately show ?thesis using unsigned_less [of "a OR b"] by (simp add: word_add_def)
qed

lemma not_bit_of_bound:
  fixes w :: "'w::len word"
  assumes "unat w < 2 ^ k" "k \<le> n"
  shows "\<not> bit w n"
proof
  assume "bit w n"
  then have "bit (unat w) n" by (simp add: bit_unsigned_iff bit_imp_le_length)
  moreover have "take_bit k (unat w) = unat w" using assms(1) by (rule take_bit_nat_eq_self)
  ultimately show False using assms(2) by (metis bit_take_bit_iff not_le)
qed

lemma set_st_info_ok:
  assumes "bind < 16"
  obtains s where "set_st_info self bind ty = Ok s" "st_bind s = bind" "st_type s = ty AND 0xf"
    "st_visibility s = st_visibility self"
proof -
  have m: "(0xf :: u8) = mask 4" by (simp add: mask_eq_exp_minus_1)
  have disj: "push_bit 4 bind AND (ty AND 0xf) = 0"
    unfolding m by (rule bit_word_eqI) (auto simp: bit_simps)
  have "unat bind < 2 ^ 4" using assms by (simp add: word_less_nat_alt)
  then have "bit bind n \<Longrightarrow> n < 4" for n
    using not_bit_of_bound [of bind 4 n] by force
  then have d: "drop_bit 4 (push_bit 4 bind OR (ty AND 0xf)) = bind"
    unfolding m by (intro bit_word_eqI) (auto simp: bit_simps not_le)
  have t: "(push_bit 4 bind OR (ty AND 0xf)) AND 0xf = ty AND 0xf"
    unfolding m by (rule bit_word_eqI) (auto simp: bit_simps)
  obtain w where w: "w = push_bit 4 bind OR (ty AND 0xf)" by blast
  have "set_st_info self bind ty = Ok (self\<lparr>st_info := w\<rparr>)"
    by (simp add: set_st_info_def word_add_disjoint [OF disj] w)
  with d [folded w] t [folded w] show thesis
    by (intro that [of "self\<lparr>st_info := w\<rparr>"]) (simp_all add: st_bind_def st_type_def st_visibility_def)
qed

lemma Rel32_info:
  "unat r_sym < 2 ^ 24 \<Longrightarrow> Rel32_r_sym (Rel32_r_info r_sym r_ty) = r_sym"
  "Rel32_r_type (Rel32_r_info r_sym r_ty) = ucast r_ty"
proof -
  have m: "(0xff :: u32) = mask 8" by (simp add: mask_eq_exp_minus_1)
  show "Rel32_r_type (Rel32_r_info r_sym r_ty) = ucast r_ty"
    unfolding Rel32_r_type_def Rel32_r_info_def m
    by (rule bit_word_eqI) (auto simp: bit_simps dest: bit_imp_le_length)
  assume "unat r_sym < 2 ^ 24"
  then have "bit r_sym n \<Longrightarrow> n < 24" for n
    using not_bit_of_bound [of r_sym 24 n] by force
  then show "Rel32_r_sym (Rel32_r_info r_sym r_ty) = r_sym"
    unfolding Rel32_r_sym_def Rel32_r_info_def
    by (intro bit_word_eqI) (auto simp: bit_simps not_le dest: bit_imp_le_length)
qed

lemma r_info_halves:
  fixes r_sym r_ty :: u32
  shows "ucast (drop_bit 32 (push_bit 32 (ucast r_sym) OR ucast r_ty :: u64)) = r_sym"
    and "ucast ((push_bit 32 (ucast r_sym) OR ucast r_ty :: u64) AND 0xffffffff) = r_ty"
proof -
  show "ucast (drop_bit 32 (push_bit 32 (ucast r_sym) OR ucast r_ty :: u64)) = r_sym"
    by (rule bit_word_eqI) (auto simp: bit_simps dest: bit_imp_le_length)
  have m: "(0xffffffff :: u64) = mask 32" by (simp add: mask_eq_exp_minus_1)
  show "ucast ((push_bit 32 (ucast r_sym) OR ucast r_ty :: u64) AND 0xffffffff) = r_ty"
    unfolding m by (rule bit_word_eqI) (auto simp: bit_simps)
qed

lemma Rel64_info:
  "Rel64_r_sym (Rel64_r_info r_sym r_ty) = r_sym"
  "Rel64_r_type (Rel64_r_info r_sym r_ty) = r_ty"
  unfolding Rel64_r_sym_def Rel64_r_type_def Rel64_r_info_def by (rule r_info_halves)+

text \<open>The permutation of \<^verbatim>\<open>r_info\<close> on little-endian MIPS64 is undone by \<^verbatim>\<open>get_r_info\<close>.\<close>

lemma get_r_info_r_info:
  "Rela64_get_r_info m (Rela64_r_info m r_sym r_ty) = push_bit 32 (ucast r_sym) OR ucast r_ty"
proof -
  let ?t = "push_bit 32 (ucast r_sym) OR ucast r_ty :: u64"
  have m: "(0xff000000 :: u64) = push_bit 24 (mask 8)" "(0xff0000 :: u64) = push_bit 16 (mask 8)"
    "(0xff00 :: u64) = push_bit 8 (mask 8)" "(0xff :: u64) = mask 8"
    by (simp_all add: mask_eq_exp_minus_1 push_bit_eq_mult)
  have "Rela64_get_r_info True (Rela64_r_info True r_sym r_ty) = ?t"
  proof (rule bit_word_eqI)
    fix n :: nat
    assume "n < LENGTH(64)"
    define t where "t = ?t"
    show "bit (Rela64_get_r_info True (Rela64_r_info True r_sym r_ty)) n = bit ?t n"
      unfolding Rela64_get_r_info_def Rela64_r_info_def Let_def m if_True t_def [symmetric]
      using \<open>n < LENGTH(64)\<close>
      by (cases "n < 32"; cases "n < 24"; cases "n < 16"; cases "n < 8")
        (auto simp: bit_simps dest: bit_imp_le_length)
  qed
  then show ?thesis
    by (cases m) (simp_all add: Rela64_get_r_info_def Rela64_r_info_def)
qed

lemma Rela64_info:
  "Rela64_r_sym m (Rela64_r_info m r_sym r_ty) = r_sym"
  "Rela64_r_type m (Rela64_r_info m r_sym r_ty) = r_ty"
  unfolding Rela64_r_sym_def Rela64_r_type_def get_r_info_r_info by (rule r_info_halves)+

section \<open>Round trips\<close>

text \<open>Binding and type of a symbol are read back from \<^verbatim>\<open>st_info\<close>, and the visibility is kept.\<close>

lemma symbol_info_round_trip:
  assumes "bind < 16"
  shows "\<exists>s. set_st_info self bind ty = Ok s \<and> st_bind s = bind \<and> st_type s = ty AND 0xf \<and>
    st_visibility s = st_visibility self"
  using set_st_info_ok [OF assms] by metis

text \<open>Symbol and type of a 64-bit relocation are read back from \<^verbatim>\<open>r_info\<close>, in the standard layout and in the permuted layout of little-endian MIPS64.\<close>

lemma relocation_info_round_trip:
  "Rela64_r_sym m (Rela64_r_info m r_sym r_ty) = r_sym \<and>
   Rela64_r_type m (Rela64_r_info m r_sym r_ty) = r_ty \<and>
   Rel64_r_sym (Rel64_r_info r_sym r_ty) = r_sym \<and> Rel64_r_type (Rel64_r_info r_sym r_ty) = r_ty"
  by (simp add: Rela64_info Rel64_info)

text \<open>Symbol (below 2 to the 24) and type of a 32-bit relocation are read back from \<^verbatim>\<open>r_info\<close>.\<close>

lemma relocation_info_32_round_trip:
  assumes "unat r_sym < 2 ^ 24"
  shows "Rel32_r_sym (Rel32_r_info r_sym r_ty) = r_sym \<and> Rel32_r_type (Rel32_r_info r_sym r_ty) = ucast r_ty"
  using assms by (simp add: Rel32_info)

text \<open>Decoding the memory image of an ELF structure gives back its fields, for both classes and byte orders.\<close>

lemma elf_structures_round_trip:
  "decode_section_header e (encode_section_header e s32) = (s32 :: u32 section_header) \<and>
   decode_section_header e (encode_section_header e s64) = (s64 :: u64 section_header) \<and>
   decode_ProgramHeader32 e (encode_ProgramHeader32 e p32) = p32 \<and>
   decode_ProgramHeader64 e (encode_ProgramHeader64 e p64) = p64 \<and>
   decode_Sym32 e (encode_Sym32 e y32) = y32 \<and> decode_Sym64 e (encode_Sym64 e y64) = y64 \<and>
   decode_rel e (encode_rel e r32) = (r32 :: u32 rel_entry) \<and>
   decode_rel e (encode_rel e r64) = (r64 :: u64 rel_entry) \<and>
   decode_rela e (encode_rela e a32) = (a32 :: u32 rela_entry) \<and>
   decode_rela e (encode_rela e a64) = (a64 :: u64 rela_entry) \<and>
   decode_dyn e (encode_dyn e d32) = (d32 :: u32 dyn_entry) \<and>
   decode_dyn e (encode_dyn e d64) = (d64 :: u64 dyn_entry) \<and>
   decode_verdef e (encode_verdef e vd) = vd \<and> decode_verdaux e (encode_verdaux e vda) = vda \<and>
   decode_verneed e (encode_verneed e vn) = vn \<and> decode_vernaux e (encode_vernaux e vna) = vna \<and>
   decode_hash_header e (encode_hash_header e hh) = hh \<and>
   decode_gnu_hash_header e (encode_gnu_hash_header e gh) = gh"
  by (simp add: decode_encode_section_header decode_encode_rel decode_encode_rela decode_encode_dyn)

end
