(* ===== verification/Elf_Writer.thy ===== *)
theory Elf_Writer
  imports Elf_Types Write_Util String_Table
begin

text \<open>
  \<^verbatim>\<open>src/write/elf/writer.rs\<close>, first part: the state of the ELF \<^verbatim>\<open>Writer\<close>, the file ranges, the file
  header, the program headers, the section headers and the two string tables every file can have.

  A field \<^verbatim>\<open>f\<close> of the structure is \<open>w_f\<close>. A method that takes \<^verbatim>\<open>&mut self\<close> returns the new state, with
  its result first if it has one; the outcome \<open>Panic\<close> stands for a failed \<^verbatim>\<open>debug_assert!\<close> or an
  overflow. The buffer is a \<^verbatim>\<open>Vec<u8>\<close>. The index set of the string tables is the parameter \<open>ix\<close>.
\<close>

section \<open>The file class\<close>

text \<open>\<^verbatim>\<open>Class\<close> has the single field \<^verbatim>\<open>is_64\<close>; the sizes are those of the images (\<open>Class_sizes\<close>).\<close>

definition Class_align :: "bool \<Rightarrow> nat" where
  "Class_align is_64 = (if is_64 then 8 else 4)"

definition Class_file_header_size :: "bool \<Rightarrow> nat" where
  "Class_file_header_size is_64 = (if is_64 then 64 else 52)"

definition Class_program_header_size :: "bool \<Rightarrow> nat" where
  "Class_program_header_size is_64 = (if is_64 then 56 else 32)"

definition Class_section_header_size :: "bool \<Rightarrow> nat" where
  "Class_section_header_size is_64 = (if is_64 then 64 else 40)"

definition Class_sym_size :: "bool \<Rightarrow> nat" where
  "Class_sym_size is_64 = (if is_64 then 24 else 16)"

definition Class_rel_size :: "bool \<Rightarrow> bool \<Rightarrow> nat" where
  "Class_rel_size is_64 is_rela =
    (if is_64 then if is_rela then 24 else 16 else if is_rela then 12 else 8)"

definition Class_relr_size :: "bool \<Rightarrow> nat" where
  "Class_relr_size is_64 = (if is_64 then 8 else 4)"

definition Class_dyn_size :: "bool \<Rightarrow> nat" where
  "Class_dyn_size is_64 = (if is_64 then 16 else 8)"

text \<open>
  The table sizes are \<^verbatim>\<open>usize\<close> expressions over 32-bit counts, which cannot overflow 64 bits, or over
  \<^verbatim>\<open>usize\<close> counts, which can.
\<close>

definition Class_hash_size :: "bool \<Rightarrow> u32 \<Rightarrow> u32 \<Rightarrow> nat" where
  "Class_hash_size is_64 buckets chain = 8 + unat buckets * 4 + unat chain * 4"

definition Class_gnu_hash_size :: "bool \<Rightarrow> u32 \<Rightarrow> u32 \<Rightarrow> u32 \<Rightarrow> nat" where
  "Class_gnu_hash_size is_64 bloom buckets symbols =
    (let bloom_size = if is_64 then 8 else 4
     in 16 + unat bloom * bloom_size + unat buckets * 4 + unat symbols * 4)"

definition Class_gnu_versym_size :: "bool \<Rightarrow> nat \<Rightarrow> (nat, string) result" where
  "Class_gnu_versym_size is_64 symbols = usize_mul symbols 2"

definition Class_gnu_verdef_size :: "bool \<Rightarrow> nat \<Rightarrow> nat \<Rightarrow> (nat, string) result" where
  "Class_gnu_verdef_size is_64 verdef_count verdaux_count =
    and_then (usize_mul verdef_count 20) (\<lambda>a.
    and_then (usize_mul verdaux_count 8) (\<lambda>b.
    usize_add a b))"

definition Class_gnu_verneed_size :: "bool \<Rightarrow> nat \<Rightarrow> nat \<Rightarrow> (nat, string) result" where
  "Class_gnu_verneed_size is_64 verneed_count vernaux_count =
    and_then (usize_mul verneed_count 16) (\<lambda>a.
    and_then (usize_mul vernaux_count 16) (\<lambda>b.
    usize_add a b))"

section \<open>Native structures\<close>

record FileHeader =
  fh_os_abi :: u8
  fh_abi_version :: u8
  fh_e_type :: u16
  fh_e_machine :: u16
  fh_e_entry :: u64
  fh_e_flags :: u32

record SectionHeader =
  sec_name :: "nat option"
  sec_type :: u32
  sec_flags :: u64
  sec_addr :: u64
  sec_offset :: u64
  sec_size :: u64
  sec_link :: u32
  sec_info :: u32
  sec_addralign :: u64
  sec_entsize :: u64

text \<open>The native program header is the 64-bit structure of the file.\<close>

type_synonym ProgramHeader = "u64 program_header"

section \<open>The writer\<close>

record 's writer =
  w_endian :: endianness
  w_is_64 :: bool
  w_is_mips64el :: bool
  w_elf_align :: nat
  w_buffer :: vec_buffer
  w_len :: nat
  w_segment_offset :: nat
  w_segment_num :: u32
  w_section_offset :: nat
  w_section_num :: u32
  w_shstrtab :: "'s string_table"
  w_shstrtab_str_id :: "nat option"
  w_shstrtab_index :: u32
  w_shstrtab_offset :: nat
  w_shstrtab_data :: bytes
  w_need_strtab :: bool
  w_strtab :: "'s string_table"
  w_strtab_str_id :: "nat option"
  w_strtab_index :: u32
  w_strtab_offset :: nat
  w_strtab_data :: bytes
  w_symtab_str_id :: "nat option"
  w_symtab_index :: u32
  w_symtab_offset :: nat
  w_symtab_num :: u32
  w_need_symtab_shndx :: bool
  w_symtab_shndx_str_id :: "nat option"
  w_symtab_shndx_offset :: nat
  w_symtab_shndx_data :: vec_buffer
  w_need_dynstr :: bool
  w_dynstr :: "'s string_table"
  w_dynstr_str_id :: "nat option"
  w_dynstr_index :: u32
  w_dynstr_offset :: nat
  w_dynstr_data :: bytes
  w_dynsym_str_id :: "nat option"
  w_dynsym_index :: u32
  w_dynsym_offset :: nat
  w_dynsym_num :: u32
  w_dynamic_str_id :: "nat option"
  w_dynamic_offset :: nat
  w_dynamic_num :: nat
  w_hash_str_id :: "nat option"
  w_hash_offset :: nat
  w_hash_size :: nat
  w_gnu_hash_str_id :: "nat option"
  w_gnu_hash_offset :: nat
  w_gnu_hash_size :: nat
  w_gnu_versym_str_id :: "nat option"
  w_gnu_versym_offset :: nat
  w_gnu_verdef_str_id :: "nat option"
  w_gnu_verdef_offset :: nat
  w_gnu_verdef_size :: nat
  w_gnu_verdef_count :: u16
  w_gnu_verdef_remaining :: u16
  w_gnu_verdaux_remaining :: u16
  w_gnu_verneed_str_id :: "nat option"
  w_gnu_verneed_offset :: nat
  w_gnu_verneed_size :: nat
  w_gnu_verneed_count :: u16
  w_gnu_verneed_remaining :: u16
  w_gnu_vernaux_remaining :: u16
  w_gnu_attributes_str_id :: "nat option"
  w_gnu_attributes_offset :: nat
  w_gnu_attributes_size :: nat

definition Writer_new :: "'s index_set_ops \<Rightarrow> endianness \<Rightarrow> bool \<Rightarrow> vec_buffer \<Rightarrow> 's writer" where
  "Writer_new ix e is_64 buffer =
    (let elf_align = if is_64 then 8 else 4 in
     \<lparr>w_endian = e, w_is_64 = is_64, w_is_mips64el = False, w_elf_align = elf_align,
      w_buffer = buffer, w_len = 0,
      w_segment_offset = 0, w_segment_num = 0,
      w_section_offset = 0, w_section_num = 0,
      w_shstrtab = string_table_default ix, w_shstrtab_str_id = None, w_shstrtab_index = 0,
      w_shstrtab_offset = 0, w_shstrtab_data = [],
      w_need_strtab = False, w_strtab = string_table_default ix, w_strtab_str_id = None,
      w_strtab_index = 0, w_strtab_offset = 0, w_strtab_data = [],
      w_symtab_str_id = None, w_symtab_index = 0, w_symtab_offset = 0, w_symtab_num = 0,
      w_need_symtab_shndx = False, w_symtab_shndx_str_id = None, w_symtab_shndx_offset = 0,
      w_symtab_shndx_data = Vec_new,
      w_need_dynstr = False, w_dynstr = string_table_default ix, w_dynstr_str_id = None,
      w_dynstr_index = 0, w_dynstr_offset = 0, w_dynstr_data = [],
      w_dynsym_str_id = None, w_dynsym_index = 0, w_dynsym_offset = 0, w_dynsym_num = 0,
      w_dynamic_str_id = None, w_dynamic_offset = 0, w_dynamic_num = 0,
      w_hash_str_id = None, w_hash_offset = 0, w_hash_size = 0,
      w_gnu_hash_str_id = None, w_gnu_hash_offset = 0, w_gnu_hash_size = 0,
      w_gnu_versym_str_id = None, w_gnu_versym_offset = 0,
      w_gnu_verdef_str_id = None, w_gnu_verdef_offset = 0, w_gnu_verdef_size = 0,
      w_gnu_verdef_count = 0, w_gnu_verdef_remaining = 0, w_gnu_verdaux_remaining = 0,
      w_gnu_verneed_str_id = None, w_gnu_verneed_offset = 0, w_gnu_verneed_size = 0,
      w_gnu_verneed_count = 0, w_gnu_verneed_remaining = 0, w_gnu_vernaux_remaining = 0,
      w_gnu_attributes_str_id = None, w_gnu_attributes_offset = 0, w_gnu_attributes_size = 0\<rparr>)"

definition Writer_reserved_len :: "'s writer \<Rightarrow> nat" where
  "Writer_reserved_len self = w_len self"

definition Writer_len :: "'s writer \<Rightarrow> nat" where
  "Writer_len self = Vec_len (w_buffer self)"

definition Writer_reserve :: "nat \<Rightarrow> nat \<Rightarrow> 's writer \<Rightarrow> (nat \<times> 's writer, string) result" where
  "Writer_reserve len align_start self =
    and_then (if align_start > 1
              then and_then (align_usize (w_len self) align_start) (\<lambda>n. Ok (self\<lparr>w_len := n\<rparr>))
              else Ok self) (\<lambda>self.
    let offset = w_len self in
    and_then (usize_add (w_len self) len) (\<lambda>n.
    Ok (offset, self\<lparr>w_len := n\<rparr>)))"

text \<open>\<^verbatim>\<open>util::write_align(self.buffer, align)\<close> and \<^verbatim>\<open>self.buffer.write(&structure)\<close>.\<close>

definition buffer_align :: "nat \<Rightarrow> 's writer \<Rightarrow> ('s writer, string) result" where
  "buffer_align align self =
    and_then (write_align Vec_len Vec_resize align (w_buffer self)) (\<lambda>b.
    Ok (self\<lparr>w_buffer := b\<rparr>))"

definition buffer_write :: "bytes \<Rightarrow> 's writer \<Rightarrow> ('s writer, string) result" where
  "buffer_write val self =
    and_then (Vec_write_pod val (w_buffer self)) (\<lambda>b. Ok (self\<lparr>w_buffer := b\<rparr>))"

definition Writer_write_align :: "nat \<Rightarrow> 's writer \<Rightarrow> ('s writer, string) result" where
  "Writer_write_align align_start self =
    (if align_start > 1 then buffer_align align_start self else Ok self)"

definition Writer_write :: "bytes \<Rightarrow> 's writer \<Rightarrow> ('s writer, string) result" where
  "Writer_write data self =
    and_then (Vec_write_bytes data (w_buffer self)) (\<lambda>b. Ok (self\<lparr>w_buffer := b\<rparr>))"

definition Writer_reserve_until :: "nat \<Rightarrow> 's writer \<Rightarrow> ('s writer, string) result" where
  "Writer_reserve_until offset self =
    debug_assert (w_len self \<le> offset) (Ok (self\<lparr>w_len := offset\<rparr>))"

definition Writer_pad_until :: "nat \<Rightarrow> 's writer \<Rightarrow> ('s writer, string) result" where
  "Writer_pad_until offset self =
    debug_assert (Writer_len self \<le> offset) (
    and_then (Vec_resize offset (w_buffer self)) (\<lambda>b. Ok (self\<lparr>w_buffer := b\<rparr>)))"

section \<open>File header\<close>

definition Writer_reserve_file_header :: "'s writer \<Rightarrow> ('s writer, string) result" where
  "Writer_reserve_file_header self =
    debug_assert (w_len self = 0) (
    and_then (Writer_reserve (Class_file_header_size (w_is_64 self)) 1 self) (\<lambda>(_, self).
    Ok self))"

text \<open>
  The header that \<^verbatim>\<open>write_file_header\<close> derives from its argument and the state, with 64-bit
  addresses, and its copy with the addresses converted (\<^verbatim>\<open>as u32\<close>) for the 32-bit class.
\<close>

definition derived_file_header :: "FileHeader \<Rightarrow> 's writer \<Rightarrow> u64 file_header" where
  "derived_file_header header self =
    \<lparr>e_ident =
       \<lparr>magic = ELFMAG,
        ei_class = (if w_is_64 self then ELFCLASS64 else ELFCLASS32),
        ei_data = (if is_little_endian is_big_endian (w_endian self) then ELFDATA2LSB
                   else ELFDATA2MSB),
        ei_version = EV_CURRENT, os_abi = fh_os_abi header,
        abi_version = fh_abi_version header, padding = replicate 7 0\<rparr>,
     e_type = fh_e_type header, e_machine = fh_e_machine header, e_version = ucast EV_CURRENT,
     e_entry = fh_e_entry header,
     e_phoff = word_of_nat (w_segment_offset self),
     e_shoff = word_of_nat (w_section_offset self),
     e_flags = fh_e_flags header,
     e_ehsize = word_of_nat (Class_file_header_size (w_is_64 self)),
     e_phentsize = (if w_segment_num self = 0 then 0
                    else word_of_nat (Class_program_header_size (w_is_64 self))),
     e_phnum = ucast (w_segment_num self),
     e_shentsize = (if w_section_num self = 0 then 0
                    else word_of_nat (Class_section_header_size (w_is_64 self))),
     e_shnum = (if w_section_num self \<ge> ucast SHN_LORESERVE then 0 else ucast (w_section_num self)),
     e_shstrndx = (if w_shstrtab_index self \<ge> ucast SHN_LORESERVE then SHN_XINDEX
                   else ucast (w_shstrtab_index self))\<rparr>"

definition convert_file_header :: "u64 file_header \<Rightarrow> 'w::len word file_header" where
  "convert_file_header h =
    \<lparr>e_ident = e_ident h, e_type = e_type h, e_machine = e_machine h, e_version = e_version h,
     e_entry = ucast (e_entry h), e_phoff = ucast (e_phoff h), e_shoff = ucast (e_shoff h),
     e_flags = e_flags h, e_ehsize = e_ehsize h, e_phentsize = e_phentsize h, e_phnum = e_phnum h,
     e_shentsize = e_shentsize h, e_shnum = e_shnum h, e_shstrndx = e_shstrndx h\<rparr>"

definition Writer_write_file_header :: "FileHeader \<Rightarrow> 's writer \<Rightarrow> ('s writer, string) result" where
  "Writer_write_file_header header self =
    debug_assert (Writer_len self = 0) (
    let self = self\<lparr>w_is_mips64el := w_is_64 self \<and> is_little_endian is_big_endian (w_endian self)
                      \<and> fh_e_machine header = EM_MIPS\<rparr> in
    and_then (read_error (Vec_reserve (w_len self) (w_buffer self) :: (vec_buffer, unit) result)
        ''Cannot allocate buffer'') (\<lambda>b.
    let self = self\<lparr>w_buffer := b\<rparr>
    in if w_is_64 self
       then buffer_write (encode_file_header (w_endian self) (derived_file_header header self)) self
       else buffer_write (encode_file_header (w_endian self)
         (convert_file_header (derived_file_header header self) :: u32 file_header)) self))"

section \<open>Program headers\<close>

definition Writer_reserve_program_headers :: "u32 \<Rightarrow> 's writer \<Rightarrow> ('s writer, string) result" where
  "Writer_reserve_program_headers num self =
    debug_assert (w_segment_offset self = 0) (
    if num = 0 then Ok self
    else
      let self = self\<lparr>w_segment_num := num\<rparr> in
      and_then (usize_mul (unat num) (Class_program_header_size (w_is_64 self))) (\<lambda>n.
      and_then (Writer_reserve n (w_elf_align self) self) (\<lambda>(offset, self).
      Ok (self\<lparr>w_segment_offset := offset\<rparr>))))"

definition Writer_write_align_program_headers :: "'s writer \<Rightarrow> ('s writer, string) result" where
  "Writer_write_align_program_headers self =
    (if w_segment_offset self = 0 then Ok self
     else and_then (buffer_align (w_elf_align self) self) (\<lambda>self.
       debug_assert (w_segment_offset self = Writer_len self) (Ok self)))"

definition convert_program_header :: "u64 program_header \<Rightarrow> 'w::len word program_header" where
  "convert_program_header h =
    \<lparr>p_type = p_type h, p_flags = p_flags h, p_offset = ucast (p_offset h),
     p_vaddr = ucast (p_vaddr h), p_paddr = ucast (p_paddr h), p_filesz = ucast (p_filesz h),
     p_memsz = ucast (p_memsz h), p_align = ucast (p_align h)\<rparr>"

definition Writer_write_program_header :: "ProgramHeader \<Rightarrow> 's writer \<Rightarrow> ('s writer, string) result" where
  "Writer_write_program_header header self =
    (if w_is_64 self then buffer_write (encode_ProgramHeader64 (w_endian self) header) self
     else buffer_write (encode_ProgramHeader32 (w_endian self) (convert_program_header header)) self)"

section \<open>Section headers\<close>

definition Writer_reserve_null_section_index :: "'s writer \<Rightarrow> (u32 \<times> 's writer, string) result" where
  "Writer_reserve_null_section_index self =
    debug_assert (w_section_num self = 0) (
    let self = (if w_section_num self = 0 then self\<lparr>w_section_num := 1\<rparr> else self) in
    Ok (0, self))"

definition Writer_reserve_section_index :: "'s writer \<Rightarrow> (u32 \<times> 's writer, string) result" where
  "Writer_reserve_section_index self =
    debug_assert (w_section_offset self = 0) (
    let self = (if w_section_num self = 0 then self\<lparr>w_section_num := 1\<rparr> else self);
        index = w_section_num self in
    and_then (word_add (w_section_num self) 1) (\<lambda>n.
    Ok (index, self\<lparr>w_section_num := n\<rparr>)))"

definition Writer_reserve_section_headers :: "'s writer \<Rightarrow> ('s writer, string) result" where
  "Writer_reserve_section_headers self =
    debug_assert (w_section_offset self = 0) (
    if w_section_num self = 0 then Ok self
    else
      and_then (usize_mul (unat (w_section_num self)) (Class_section_header_size (w_is_64 self))) (\<lambda>n.
      and_then (Writer_reserve n (w_elf_align self) self) (\<lambda>(offset, self).
      Ok (self\<lparr>w_section_offset := offset\<rparr>))))"

definition section_header_of :: "SectionHeader \<Rightarrow> u32 \<Rightarrow> u64 section_header" where
  "section_header_of section name =
    \<lparr>sh_name = name, sh_type = sec_type section, sh_flags = sec_flags section,
     sh_addr = sec_addr section, sh_offset = sec_offset section, sh_size = sec_size section,
     sh_link = sec_link section, sh_info = sec_info section,
     sh_addralign = sec_addralign section, sh_entsize = sec_entsize section\<rparr>"

definition convert_section_header :: "u64 section_header \<Rightarrow> 'w::len word section_header" where
  "convert_section_header h =
    \<lparr>sh_name = sh_name h, sh_type = sh_type h, sh_flags = ucast (sh_flags h),
     sh_addr = ucast (sh_addr h), sh_offset = ucast (sh_offset h), sh_size = ucast (sh_size h),
     sh_link = sh_link h, sh_info = sh_info h, sh_addralign = ucast (sh_addralign h),
     sh_entsize = ucast (sh_entsize h)\<rparr>"

definition Writer_write_section_header :: "SectionHeader \<Rightarrow> 's writer \<Rightarrow> ('s writer, string) result" where
  "Writer_write_section_header section self =
    and_then (case sec_name section of
        Some name \<Rightarrow> and_then (string_get_offset (w_shstrtab self) name) (\<lambda>n. Ok (word_of_nat n))
      | None \<Rightarrow> Ok 0) (\<lambda>name.
    if w_is_64 self
    then buffer_write (encode_section_header (w_endian self) (section_header_of section name)) self
    else buffer_write (encode_section_header (w_endian self)
      (convert_section_header (section_header_of section name) :: u32 section_header)) self)"

definition Writer_write_null_section_header :: "'s writer \<Rightarrow> ('s writer, string) result" where
  "Writer_write_null_section_header self =
    (if w_section_num self = 0 then Ok self
     else
       and_then (buffer_align (w_elf_align self) self) (\<lambda>self.
       debug_assert (w_section_offset self = Writer_len self) (
       Writer_write_section_header
         \<lparr>sec_name = None, sec_type = 0, sec_flags = 0, sec_addr = 0, sec_offset = 0,
          sec_size = (if w_section_num self \<ge> ucast SHN_LORESERVE then ucast (w_section_num self) else 0),
          sec_link = (if w_shstrtab_index self \<ge> ucast SHN_LORESERVE then w_shstrtab_index self else 0),
          sec_info = 0, sec_addralign = 0, sec_entsize = 0\<rparr> self)))"

section \<open>The section header string table\<close>

definition Writer_add_section_name ::
  "'s index_set_ops \<Rightarrow> bytes \<Rightarrow> 's writer \<Rightarrow> (nat \<times> 's writer, string) result" where
  "Writer_add_section_name ix name self =
    debug_assert (w_shstrtab_offset self = 0) (
    and_then (string_add ix name (w_shstrtab self)) (\<lambda>(sid, t).
    Ok (sid, self\<lparr>w_shstrtab := t\<rparr>)))"

definition Writer_reserve_shstrtab :: "'s index_set_ops \<Rightarrow> 's writer \<Rightarrow> ('s writer, string) result" where
  "Writer_reserve_shstrtab ix self =
    debug_assert (w_shstrtab_offset self = 0) (
    if w_section_num self = 0 then Ok self
    else
      and_then (string_write ix 1 (w_shstrtab self) [0]) (\<lambda>(t, data).
      let self = self\<lparr>w_shstrtab := t, w_shstrtab_data := data\<rparr> in
      and_then (Writer_reserve (length (w_shstrtab_data self)) 1 self) (\<lambda>(offset, self).
      Ok (self\<lparr>w_shstrtab_offset := offset\<rparr>))))"

definition Writer_write_shstrtab :: "'s writer \<Rightarrow> ('s writer, string) result" where
  "Writer_write_shstrtab self =
    (if w_shstrtab_offset self = 0 then Ok self
     else debug_assert (w_shstrtab_offset self = Writer_len self) (
       Writer_write (w_shstrtab_data self) self))"

definition Writer_reserve_shstrtab_section_index_with_name ::
  "'s index_set_ops \<Rightarrow> bytes \<Rightarrow> 's writer \<Rightarrow> (u32 \<times> 's writer, string) result" where
  "Writer_reserve_shstrtab_section_index_with_name ix name self =
    debug_assert (w_shstrtab_index self = 0) (
    and_then (Writer_add_section_name ix name self) (\<lambda>(sid, self).
    let self = self\<lparr>w_shstrtab_str_id := Some sid\<rparr> in
    and_then (Writer_reserve_section_index self) (\<lambda>(index, self).
    Ok (index, self\<lparr>w_shstrtab_index := index\<rparr>))))"

definition Writer_reserve_shstrtab_section_index ::
  "'s index_set_ops \<Rightarrow> 's writer \<Rightarrow> (u32 \<times> 's writer, string) result" where
  "Writer_reserve_shstrtab_section_index ix self =
    Writer_reserve_shstrtab_section_index_with_name ix (ascii ''.shstrtab'') self"

definition Writer_write_shstrtab_section_header :: "'s writer \<Rightarrow> ('s writer, string) result" where
  "Writer_write_shstrtab_section_header self =
    (if w_shstrtab_index self = 0 then Ok self
     else Writer_write_section_header
       \<lparr>sec_name = w_shstrtab_str_id self, sec_type = SHT_STRTAB, sec_flags = 0, sec_addr = 0,
        sec_offset = word_of_nat (w_shstrtab_offset self),
        sec_size = word_of_nat (length (w_shstrtab_data self)), sec_link = 0, sec_info = 0,
        sec_addralign = 1, sec_entsize = 0\<rparr> self)"

section \<open>The string table\<close>

definition Writer_add_string ::
  "'s index_set_ops \<Rightarrow> bytes \<Rightarrow> 's writer \<Rightarrow> (nat \<times> 's writer, string) result" where
  "Writer_add_string ix name self =
    debug_assert (w_strtab_offset self = 0) (
    let self = self\<lparr>w_need_strtab := True\<rparr> in
    and_then (string_add ix name (w_strtab self)) (\<lambda>(sid, t).
    Ok (sid, self\<lparr>w_strtab := t\<rparr>)))"

definition Writer_strtab_needed :: "'s writer \<Rightarrow> bool" where
  "Writer_strtab_needed self = w_need_strtab self"

definition Writer_require_strtab :: "'s writer \<Rightarrow> 's writer" where
  "Writer_require_strtab self = self\<lparr>w_need_strtab := True\<rparr>"

definition Writer_reserve_strtab :: "'s index_set_ops \<Rightarrow> 's writer \<Rightarrow> ('s writer, string) result" where
  "Writer_reserve_strtab ix self =
    debug_assert (w_strtab_offset self = 0) (
    if \<not> w_need_strtab self then Ok self
    else
      and_then (string_write ix 1 (w_strtab self) [0]) (\<lambda>(t, data).
      let self = self\<lparr>w_strtab := t, w_strtab_data := data\<rparr> in
      and_then (Writer_reserve (length (w_strtab_data self)) 1 self) (\<lambda>(offset, self).
      Ok (self\<lparr>w_strtab_offset := offset\<rparr>))))"

definition Writer_write_strtab :: "'s writer \<Rightarrow> ('s writer, string) result" where
  "Writer_write_strtab self =
    (if w_strtab_offset self = 0 then Ok self
     else debug_assert (w_strtab_offset self = Writer_len self) (
       Writer_write (w_strtab_data self) self))"

definition Writer_reserve_strtab_section_index_with_name ::
  "'s index_set_ops \<Rightarrow> bytes \<Rightarrow> 's writer \<Rightarrow> (u32 \<times> 's writer, string) result" where
  "Writer_reserve_strtab_section_index_with_name ix name self =
    debug_assert (w_strtab_index self = 0) (
    and_then (Writer_add_section_name ix name self) (\<lambda>(sid, self).
    let self = self\<lparr>w_strtab_str_id := Some sid\<rparr> in
    and_then (Writer_reserve_section_index self) (\<lambda>(index, self).
    Ok (index, self\<lparr>w_strtab_index := index\<rparr>))))"

definition Writer_reserve_strtab_section_index ::
  "'s index_set_ops \<Rightarrow> 's writer \<Rightarrow> (u32 \<times> 's writer, string) result" where
  "Writer_reserve_strtab_section_index ix self =
    Writer_reserve_strtab_section_index_with_name ix (ascii ''.strtab'') self"

definition Writer_write_strtab_section_header :: "'s writer \<Rightarrow> ('s writer, string) result" where
  "Writer_write_strtab_section_header self =
    (if w_strtab_index self = 0 then Ok self
     else Writer_write_section_header
       \<lparr>sec_name = w_strtab_str_id self, sec_type = SHT_STRTAB, sec_flags = 0, sec_addr = 0,
        sec_offset = word_of_nat (w_strtab_offset self),
        sec_size = word_of_nat (length (w_strtab_data self)), sec_link = 0, sec_info = 0,
        sec_addralign = 1, sec_entsize = 0\<rparr> self)"

end
