(* ===== verification/Elf_Writer_Symbols.thy ===== *)
theory Elf_Writer_Symbols
  imports Elf_Writer
begin

text \<open>
  \<^verbatim>\<open>src/write/elf/writer.rs\<close>, second part: the symbol table, the extended section indices, the
  dynamic string and symbol tables and the dynamic entries.
\<close>

definition ALIGN_SYMTAB_SHNDX :: nat where "ALIGN_SYMTAB_SHNDX = 4"

record Sym =
  sy_name :: "nat option"
  sy_section :: "u32 option"
  sy_info :: u8
  sy_other :: u8
  sy_shndx :: u16
  sy_value :: u64
  sy_size :: u64

section \<open>The symbol table\<close>

definition Writer_reserve_null_symbol_index :: "'s writer \<Rightarrow> (u32 \<times> 's writer, string) result" where
  "Writer_reserve_null_symbol_index self =
    debug_assert (w_symtab_offset self = 0) (
    debug_assert (w_symtab_num self = 0) (
    Ok (0, self\<lparr>w_symtab_num := 1, w_need_strtab := True\<rparr>)))"

definition Writer_reserve_symbol_index ::
  "u32 option \<Rightarrow> 's writer \<Rightarrow> (u32 \<times> 's writer, string) result" where
  "Writer_reserve_symbol_index section_index self =
    debug_assert (w_symtab_offset self = 0) (
    debug_assert (w_symtab_shndx_offset self = 0) (
    let self = (if w_symtab_num self = 0
                then self\<lparr>w_symtab_num := 1, w_need_strtab := True\<rparr> else self);
        index = w_symtab_num self in
    and_then (word_add (w_symtab_num self) 1) (\<lambda>n.
    let self = self\<lparr>w_symtab_num := n\<rparr>;
        self = (case section_index of
            Some section_index \<Rightarrow>
              if section_index \<ge> ucast SHN_LORESERVE
              then self\<lparr>w_need_symtab_shndx := True\<rparr> else self
          | None \<Rightarrow> self)
    in Ok (index, self))))"

definition Writer_symbol_count :: "'s writer \<Rightarrow> u32" where
  "Writer_symbol_count self = w_symtab_num self"

definition Writer_reserve_symtab :: "'s writer \<Rightarrow> ('s writer, string) result" where
  "Writer_reserve_symtab self =
    debug_assert (w_symtab_offset self = 0) (
    if w_symtab_num self = 0 then Ok self
    else
      and_then (usize_mul (unat (w_symtab_num self)) (Class_sym_size (w_is_64 self))) (\<lambda>n.
      and_then (Writer_reserve n (w_elf_align self) self) (\<lambda>(offset, self).
      Ok (self\<lparr>w_symtab_offset := offset\<rparr>))))"

text \<open>\<^verbatim>\<open>self.symtab_shndx_data.write_pod(&U32::new(self.endian, n))\<close>.\<close>

definition shndx_write :: "u32 \<Rightarrow> 's writer \<Rightarrow> ('s writer, string) result" where
  "shndx_write n self =
    and_then (Vec_write_pod (U_new (w_endian self) n) (w_symtab_shndx_data self)) (\<lambda>d.
    Ok (self\<lparr>w_symtab_shndx_data := d\<rparr>))"

definition Writer_write_null_symbol :: "'s writer \<Rightarrow> ('s writer, string) result" where
  "Writer_write_null_symbol self =
    (if w_symtab_num self = 0 then Ok self
     else
       and_then (buffer_align (w_elf_align self) self) (\<lambda>self.
       debug_assert (w_symtab_offset self = Writer_len self) (
       and_then (if w_is_64 self then buffer_write (encode_Sym64 (w_endian self) Sym_default) self
                 else buffer_write (encode_Sym32 (w_endian self) Sym_default) self) (\<lambda>self.
       if w_need_symtab_shndx self then shndx_write 0 self else Ok self))))"

text \<open>The section index field of a symbol: \<^verbatim>\<open>SHN_XINDEX\<close> for an index that does not fit.\<close>

definition sym_shndx :: "Sym \<Rightarrow> u16" where
  "sym_shndx symb = (case sy_section symb of
     Some sec \<Rightarrow> if sec \<ge> ucast SHN_LORESERVE then SHN_XINDEX else ucast sec
   | None \<Rightarrow> sy_shndx symb)"

definition sym_of :: "Sym \<Rightarrow> u32 \<Rightarrow> u64 sym" where
  "sym_of symb name =
    \<lparr>st_name = name, st_info = sy_info symb, st_other = sy_other symb, st_shndx = sym_shndx symb,
     st_value = sy_value symb, st_size = sy_size symb\<rparr>"

definition convert_sym :: "u64 sym \<Rightarrow> 'w::len word sym" where
  "convert_sym s =
    \<lparr>st_name = st_name s, st_info = st_info s, st_other = st_other s, st_shndx = st_shndx s,
     st_value = ucast (st_value s), st_size = ucast (st_size s)\<rparr>"

definition write_sym_image :: "Sym \<Rightarrow> u32 \<Rightarrow> 's writer \<Rightarrow> ('s writer, string) result" where
  "write_sym_image symb name self =
    (if w_is_64 self then buffer_write (encode_Sym64 (w_endian self) (sym_of symb name)) self
     else buffer_write (encode_Sym32 (w_endian self) (convert_sym (sym_of symb name))) self)"

definition Writer_write_symbol :: "Sym \<Rightarrow> 's writer \<Rightarrow> ('s writer, string) result" where
  "Writer_write_symbol symb self =
    and_then (case sy_name symb of
        Some name \<Rightarrow> and_then (string_get_offset (w_strtab self) name) (\<lambda>n. Ok (word_of_nat n))
      | None \<Rightarrow> Ok 0) (\<lambda>name.
    and_then (write_sym_image symb name self) (\<lambda>self.
    if w_need_symtab_shndx self
    then (let section_index = (case sy_section symb of Some i \<Rightarrow> i | None \<Rightarrow> 0)
          in shndx_write section_index self)
    else Ok self))"

definition Writer_reserve_symtab_section_index_with_name ::
  "'s index_set_ops \<Rightarrow> bytes \<Rightarrow> 's writer \<Rightarrow> (u32 \<times> 's writer, string) result" where
  "Writer_reserve_symtab_section_index_with_name ix name self =
    debug_assert (w_symtab_index self = 0) (
    and_then (Writer_add_section_name ix name self) (\<lambda>(sid, self).
    let self = self\<lparr>w_symtab_str_id := Some sid\<rparr> in
    and_then (Writer_reserve_section_index self) (\<lambda>(index, self).
    Ok (index, self\<lparr>w_symtab_index := index\<rparr>))))"

definition Writer_reserve_symtab_section_index ::
  "'s index_set_ops \<Rightarrow> 's writer \<Rightarrow> (u32 \<times> 's writer, string) result" where
  "Writer_reserve_symtab_section_index ix self =
    Writer_reserve_symtab_section_index_with_name ix (ascii ''.symtab'') self"

definition Writer_symtab_index :: "'s writer \<Rightarrow> u32" where
  "Writer_symtab_index self = w_symtab_index self"

definition Writer_write_symtab_section_header :: "u32 \<Rightarrow> 's writer \<Rightarrow> ('s writer, string) result" where
  "Writer_write_symtab_section_header num_local self =
    (if w_symtab_index self = 0 then Ok self
     else
       and_then (word_mul (ucast (w_symtab_num self)) (word_of_nat (Class_sym_size (w_is_64 self)))) (\<lambda>sz.
       Writer_write_section_header
         \<lparr>sec_name = w_symtab_str_id self, sec_type = SHT_SYMTAB, sec_flags = 0, sec_addr = 0,
          sec_offset = word_of_nat (w_symtab_offset self), sec_size = sz,
          sec_link = w_strtab_index self, sec_info = num_local,
          sec_addralign = word_of_nat (w_elf_align self),
          sec_entsize = word_of_nat (Class_sym_size (w_is_64 self))\<rparr> self))"

section \<open>Extended section indices\<close>

definition Writer_symtab_shndx_needed :: "'s writer \<Rightarrow> bool" where
  "Writer_symtab_shndx_needed self = w_need_symtab_shndx self"

definition Writer_require_symtab_shndx :: "'s writer \<Rightarrow> 's writer" where
  "Writer_require_symtab_shndx self = self\<lparr>w_need_symtab_shndx := True\<rparr>"

definition Writer_reserve_symtab_shndx :: "'s writer \<Rightarrow> ('s writer, string) result" where
  "Writer_reserve_symtab_shndx self =
    debug_assert (w_symtab_shndx_offset self = 0) (
    if \<not> w_need_symtab_shndx self then Ok self
    else
      and_then (usize_mul (unat (w_symtab_num self)) 4) (\<lambda>n.
      and_then (Writer_reserve n ALIGN_SYMTAB_SHNDX self) (\<lambda>(offset, self).
      let self = self\<lparr>w_symtab_shndx_offset := offset\<rparr> in
      and_then (usize_mul (unat (w_symtab_num self)) 4) (\<lambda>n.
      Ok (self\<lparr>w_symtab_shndx_data := Vec_reserve_additional n (w_symtab_shndx_data self)\<rparr>)))))"

definition Writer_write_symtab_shndx :: "'s writer \<Rightarrow> ('s writer, string) result" where
  "Writer_write_symtab_shndx self =
    (if w_symtab_shndx_offset self = 0 then Ok self
     else
       and_then (buffer_align ALIGN_SYMTAB_SHNDX self) (\<lambda>self.
       debug_assert (w_symtab_shndx_offset self = Writer_len self) (
       and_then (usize_mul (unat (w_symtab_num self)) 4) (\<lambda>n.
       debug_assert (n = Vec_len (w_symtab_shndx_data self)) (
       Writer_write (vb_bytes (w_symtab_shndx_data self)) self)))))"

definition Writer_reserve_symtab_shndx_section_index_with_name ::
  "'s index_set_ops \<Rightarrow> bytes \<Rightarrow> 's writer \<Rightarrow> (u32 \<times> 's writer, string) result" where
  "Writer_reserve_symtab_shndx_section_index_with_name ix name self =
    debug_assert (w_symtab_shndx_str_id self = None) (
    and_then (Writer_add_section_name ix name self) (\<lambda>(sid, self).
    let self = self\<lparr>w_symtab_shndx_str_id := Some sid\<rparr> in
    Writer_reserve_section_index self))"

definition Writer_reserve_symtab_shndx_section_index ::
  "'s index_set_ops \<Rightarrow> 's writer \<Rightarrow> (u32 \<times> 's writer, string) result" where
  "Writer_reserve_symtab_shndx_section_index ix self =
    Writer_reserve_symtab_shndx_section_index_with_name ix (ascii ''.symtab_shndx'') self"

definition Writer_write_symtab_shndx_section_header :: "'s writer \<Rightarrow> ('s writer, string) result" where
  "Writer_write_symtab_shndx_section_header self =
    (if w_symtab_shndx_str_id self = None then Ok self
     else
       and_then (if w_symtab_shndx_offset self = 0 then Ok 0
                 else and_then (word_mul (w_symtab_num self) 4) (\<lambda>n. Ok (ucast n))) (\<lambda>sz.
       Writer_write_section_header
         \<lparr>sec_name = w_symtab_shndx_str_id self, sec_type = SHT_SYMTAB_SHNDX, sec_flags = 0,
          sec_addr = 0, sec_offset = word_of_nat (w_symtab_shndx_offset self), sec_size = sz,
          sec_link = w_symtab_index self, sec_info = 0,
          sec_addralign = word_of_nat ALIGN_SYMTAB_SHNDX, sec_entsize = 4\<rparr> self))"

section \<open>The dynamic string table\<close>

definition Writer_add_dynamic_string ::
  "'s index_set_ops \<Rightarrow> bytes \<Rightarrow> 's writer \<Rightarrow> (nat \<times> 's writer, string) result" where
  "Writer_add_dynamic_string ix name self =
    debug_assert (w_dynstr_offset self = 0) (
    let self = self\<lparr>w_need_dynstr := True\<rparr> in
    and_then (string_add ix name (w_dynstr self)) (\<lambda>(sid, t).
    Ok (sid, self\<lparr>w_dynstr := t\<rparr>)))"

definition Writer_get_dynamic_string ::
  "'s index_set_ops \<Rightarrow> 's writer \<Rightarrow> bytes \<Rightarrow> (nat, string) result" where
  "Writer_get_dynamic_string ix self name = string_get_id ix (w_dynstr self) name"

definition Writer_dynstr_needed :: "'s writer \<Rightarrow> bool" where
  "Writer_dynstr_needed self = w_need_dynstr self"

definition Writer_require_dynstr :: "'s writer \<Rightarrow> 's writer" where
  "Writer_require_dynstr self = self\<lparr>w_need_dynstr := True\<rparr>"

definition Writer_reserve_dynstr ::
  "'s index_set_ops \<Rightarrow> 's writer \<Rightarrow> (nat \<times> 's writer, string) result" where
  "Writer_reserve_dynstr ix self =
    debug_assert (w_dynstr_offset self = 0) (
    if \<not> w_need_dynstr self then Ok (0, self)
    else
      and_then (string_write ix 1 (w_dynstr self) [0]) (\<lambda>(t, data).
      let self = self\<lparr>w_dynstr := t, w_dynstr_data := data\<rparr> in
      and_then (Writer_reserve (length (w_dynstr_data self)) 1 self) (\<lambda>(offset, self).
      Ok (offset, self\<lparr>w_dynstr_offset := offset\<rparr>))))"

definition Writer_dynstr_len :: "'s writer \<Rightarrow> (nat, string) result" where
  "Writer_dynstr_len self =
    debug_assert (w_dynstr_offset self \<noteq> 0) (Ok (length (w_dynstr_data self)))"

definition Writer_write_dynstr :: "'s writer \<Rightarrow> ('s writer, string) result" where
  "Writer_write_dynstr self =
    (if w_dynstr_offset self = 0 then Ok self
     else debug_assert (w_dynstr_offset self = Writer_len self) (
       Writer_write (w_dynstr_data self) self))"

definition Writer_reserve_dynstr_section_index_with_name ::
  "'s index_set_ops \<Rightarrow> bytes \<Rightarrow> 's writer \<Rightarrow> (u32 \<times> 's writer, string) result" where
  "Writer_reserve_dynstr_section_index_with_name ix name self =
    debug_assert (w_dynstr_index self = 0) (
    and_then (Writer_add_section_name ix name self) (\<lambda>(sid, self).
    let self = self\<lparr>w_dynstr_str_id := Some sid\<rparr> in
    and_then (Writer_reserve_section_index self) (\<lambda>(index, self).
    Ok (index, self\<lparr>w_dynstr_index := index\<rparr>))))"

definition Writer_reserve_dynstr_section_index ::
  "'s index_set_ops \<Rightarrow> 's writer \<Rightarrow> (u32 \<times> 's writer, string) result" where
  "Writer_reserve_dynstr_section_index ix self =
    Writer_reserve_dynstr_section_index_with_name ix (ascii ''.dynstr'') self"

definition Writer_dynstr_index :: "'s writer \<Rightarrow> u32" where
  "Writer_dynstr_index self = w_dynstr_index self"

definition Writer_write_dynstr_section_header :: "u64 \<Rightarrow> 's writer \<Rightarrow> ('s writer, string) result" where
  "Writer_write_dynstr_section_header addr self =
    (if w_dynstr_index self = 0 then Ok self
     else Writer_write_section_header
       \<lparr>sec_name = w_dynstr_str_id self, sec_type = SHT_STRTAB, sec_flags = SHF_ALLOC,
        sec_addr = addr, sec_offset = word_of_nat (w_dynstr_offset self),
        sec_size = word_of_nat (length (w_dynstr_data self)), sec_link = 0, sec_info = 0,
        sec_addralign = 1, sec_entsize = 0\<rparr> self)"

section \<open>The dynamic symbol table\<close>

definition Writer_reserve_null_dynamic_symbol_index ::
  "'s writer \<Rightarrow> (u32 \<times> 's writer, string) result" where
  "Writer_reserve_null_dynamic_symbol_index self =
    debug_assert (w_dynsym_offset self = 0) (
    debug_assert (w_dynsym_num self = 0) (
    Ok (0, self\<lparr>w_dynsym_num := 1\<rparr>)))"

definition Writer_reserve_dynamic_symbol_index ::
  "'s writer \<Rightarrow> (u32 \<times> 's writer, string) result" where
  "Writer_reserve_dynamic_symbol_index self =
    debug_assert (w_dynsym_offset self = 0) (
    let self = (if w_dynsym_num self = 0 then self\<lparr>w_dynsym_num := 1\<rparr> else self);
        index = w_dynsym_num self in
    and_then (word_add (w_dynsym_num self) 1) (\<lambda>n.
    Ok (index, self\<lparr>w_dynsym_num := n\<rparr>)))"

definition Writer_dynamic_symbol_count :: "'s writer \<Rightarrow> u32" where
  "Writer_dynamic_symbol_count self = w_dynsym_num self"

definition Writer_reserve_dynsym :: "'s writer \<Rightarrow> (nat \<times> 's writer, string) result" where
  "Writer_reserve_dynsym self =
    debug_assert (w_dynsym_offset self = 0) (
    if w_dynsym_num self = 0 then Ok (0, self)
    else
      and_then (usize_mul (unat (w_dynsym_num self)) (Class_sym_size (w_is_64 self))) (\<lambda>n.
      and_then (Writer_reserve n (w_elf_align self) self) (\<lambda>(offset, self).
      Ok (offset, self\<lparr>w_dynsym_offset := offset\<rparr>))))"

definition Writer_write_null_dynamic_symbol :: "'s writer \<Rightarrow> ('s writer, string) result" where
  "Writer_write_null_dynamic_symbol self =
    (if w_dynsym_num self = 0 then Ok self
     else
       and_then (buffer_align (w_elf_align self) self) (\<lambda>self.
       debug_assert (w_dynsym_offset self = Writer_len self) (
       if w_is_64 self then buffer_write (encode_Sym64 (w_endian self) Sym_default) self
       else buffer_write (encode_Sym32 (w_endian self) Sym_default) self)))"

definition Writer_write_dynamic_symbol :: "Sym \<Rightarrow> 's writer \<Rightarrow> ('s writer, string) result" where
  "Writer_write_dynamic_symbol symb self =
    and_then (case sy_name symb of
        Some name \<Rightarrow> and_then (string_get_offset (w_dynstr self) name) (\<lambda>n. Ok (word_of_nat n))
      | None \<Rightarrow> Ok 0) (\<lambda>name.
    write_sym_image symb name self)"

definition Writer_reserve_dynsym_section_index_with_name ::
  "'s index_set_ops \<Rightarrow> bytes \<Rightarrow> 's writer \<Rightarrow> (u32 \<times> 's writer, string) result" where
  "Writer_reserve_dynsym_section_index_with_name ix name self =
    debug_assert (w_dynsym_index self = 0) (
    and_then (Writer_add_section_name ix name self) (\<lambda>(sid, self).
    let self = self\<lparr>w_dynsym_str_id := Some sid\<rparr> in
    and_then (Writer_reserve_section_index self) (\<lambda>(index, self).
    Ok (index, self\<lparr>w_dynsym_index := index\<rparr>))))"

definition Writer_reserve_dynsym_section_index ::
  "'s index_set_ops \<Rightarrow> 's writer \<Rightarrow> (u32 \<times> 's writer, string) result" where
  "Writer_reserve_dynsym_section_index ix self =
    Writer_reserve_dynsym_section_index_with_name ix (ascii ''.dynsym'') self"

definition Writer_dynsym_index :: "'s writer \<Rightarrow> u32" where
  "Writer_dynsym_index self = w_dynsym_index self"

definition Writer_write_dynsym_section_header ::
  "u64 \<Rightarrow> u32 \<Rightarrow> 's writer \<Rightarrow> ('s writer, string) result" where
  "Writer_write_dynsym_section_header addr num_local self =
    (if w_dynsym_index self = 0 then Ok self
     else
       and_then (word_mul (ucast (w_dynsym_num self)) (word_of_nat (Class_sym_size (w_is_64 self)))) (\<lambda>sz.
       Writer_write_section_header
         \<lparr>sec_name = w_dynsym_str_id self, sec_type = SHT_DYNSYM, sec_flags = SHF_ALLOC,
          sec_addr = addr, sec_offset = word_of_nat (w_dynsym_offset self), sec_size = sz,
          sec_link = w_dynstr_index self, sec_info = num_local,
          sec_addralign = word_of_nat (w_elf_align self),
          sec_entsize = word_of_nat (Class_sym_size (w_is_64 self))\<rparr> self))"

section \<open>Dynamic entries\<close>

definition Writer_reserve_dynamics :: "nat \<Rightarrow> 's writer \<Rightarrow> (nat \<times> 's writer, string) result" where
  "Writer_reserve_dynamics dynamic_num self =
    and_then (usize_mul dynamic_num (Class_dyn_size (w_is_64 self))) (\<lambda>n.
    Writer_reserve n (w_elf_align self) self)"

definition Writer_reserve_dynamic :: "nat \<Rightarrow> 's writer \<Rightarrow> (nat \<times> 's writer, string) result" where
  "Writer_reserve_dynamic dynamic_num self =
    debug_assert (w_dynamic_offset self = 0) (
    if dynamic_num = 0 then Ok (0, self)
    else
      let self = self\<lparr>w_dynamic_num := dynamic_num\<rparr> in
      and_then (Writer_reserve_dynamics dynamic_num self) (\<lambda>(offset, self).
      Ok (offset, self\<lparr>w_dynamic_offset := offset\<rparr>)))"

definition Writer_write_align_dynamic :: "'s writer \<Rightarrow> ('s writer, string) result" where
  "Writer_write_align_dynamic self =
    (if w_dynamic_offset self = 0 then Ok self
     else and_then (buffer_align (w_elf_align self) self) (\<lambda>self.
       debug_assert (w_dynamic_offset self = Writer_len self) (Ok self)))"

definition Writer_write_dynamic :: "u32 \<Rightarrow> u64 \<Rightarrow> 's writer \<Rightarrow> ('s writer, string) result" where
  "Writer_write_dynamic tag val self =
    (if w_is_64 self
     then buffer_write (encode_dyn (w_endian self) (\<lparr>d_tag = ucast tag, d_val = val\<rparr> :: u64 dyn_entry)) self
     else buffer_write (encode_dyn (w_endian self) (\<lparr>d_tag = tag, d_val = ucast val\<rparr> :: u32 dyn_entry)) self)"

definition Writer_write_dynamic_string :: "u32 \<Rightarrow> nat \<Rightarrow> 's writer \<Rightarrow> ('s writer, string) result" where
  "Writer_write_dynamic_string tag sid self =
    and_then (string_get_offset (w_dynstr self) sid) (\<lambda>n.
    Writer_write_dynamic tag (word_of_nat n) self)"

definition Writer_reserve_dynamic_section_index ::
  "'s index_set_ops \<Rightarrow> 's writer \<Rightarrow> (u32 \<times> 's writer, string) result" where
  "Writer_reserve_dynamic_section_index ix self =
    debug_assert (w_dynamic_str_id self = None) (
    and_then (Writer_add_section_name ix (ascii ''.dynamic'') self) (\<lambda>(sid, self).
    let self = self\<lparr>w_dynamic_str_id := Some sid\<rparr> in
    Writer_reserve_section_index self))"

definition Writer_write_dynamic_section_header :: "u64 \<Rightarrow> 's writer \<Rightarrow> ('s writer, string) result" where
  "Writer_write_dynamic_section_header addr self =
    (if w_dynamic_str_id self = None then Ok self
     else
       and_then (usize_mul (w_dynamic_num self) (Class_dyn_size (w_is_64 self))) (\<lambda>sz.
       Writer_write_section_header
         \<lparr>sec_name = w_dynamic_str_id self, sec_type = SHT_DYNAMIC,
          sec_flags = SHF_WRITE OR SHF_ALLOC, sec_addr = addr,
          sec_offset = word_of_nat (w_dynamic_offset self), sec_size = word_of_nat sz,
          sec_link = w_dynstr_index self, sec_info = 0,
          sec_addralign = word_of_nat (w_elf_align self),
          sec_entsize = word_of_nat (Class_dyn_size (w_is_64 self))\<rparr> self))"

end
