(* ===== verification/Elf_Writer_Dynamic.thy ===== *)
theory Elf_Writer_Dynamic
  imports Elf_Writer_Symbols
begin

text \<open>
  \<^verbatim>\<open>src/write/elf/writer.rs\<close>, third part: the SysV and GNU hash tables, the symbol versions, the
  version definitions and dependencies and the GNU attributes section. A closure argument \<^verbatim>\<open>hash\<close>
  is a function.
\<close>

definition ALIGN_HASH :: nat where "ALIGN_HASH = 4"
definition ALIGN_GNU_VERSYM :: nat where "ALIGN_GNU_VERSYM = 2"
definition ALIGN_GNU_VERDEF :: nat where "ALIGN_GNU_VERDEF = 4"
definition ALIGN_GNU_VERNEED :: nat where "ALIGN_GNU_VERNEED = 4"

section \<open>The SysV hash table\<close>

definition Writer_reserve_hash :: "u32 \<Rightarrow> u32 \<Rightarrow> 's writer \<Rightarrow> (nat \<times> 's writer, string) result" where
  "Writer_reserve_hash buckets chain self =
    (let self = self\<lparr>w_hash_size := Class_hash_size (w_is_64 self) buckets chain\<rparr> in
     and_then (Writer_reserve (w_hash_size self) ALIGN_HASH self) (\<lambda>(offset, self).
     Ok (offset, self\<lparr>w_hash_offset := offset\<rparr>)))"

text \<open>The loop over \<^verbatim>\<open>0..chain_count\<close> that links the symbols into the chains of their buckets.\<close>

fun hash_fill :: "(u32 \<Rightarrow> u32 option) \<Rightarrow> u32 \<Rightarrow> nat list \<Rightarrow> u32 list \<Rightarrow> u32 list \<Rightarrow>
    (u32 list \<times> u32 list, string) result" where
  "hash_fill hash cnt [] buckets chain = Ok (buckets, chain)"
| "hash_fill hash cnt (i # is) buckets chain =
    (case hash (word_of_nat i) of
       Some h \<Rightarrow>
         and_then (word_rem h cnt) (\<lambda>bucket.
         and_then (index_list buckets (unat bucket)) (\<lambda>prev.
         and_then (list_assign i prev chain) (\<lambda>chain.
         and_then (list_assign (unat bucket) (word_of_nat i) buckets) (\<lambda>buckets.
         hash_fill hash cnt is buckets chain))))
     | None \<Rightarrow> hash_fill hash cnt is buckets chain)"

definition Writer_write_hash ::
  "u32 \<Rightarrow> u32 \<Rightarrow> (u32 \<Rightarrow> u32 option) \<Rightarrow> 's writer \<Rightarrow> ('s writer, string) result" where
  "Writer_write_hash buckets_count chain_cnt hash self =
    and_then (hash_fill hash buckets_count [0 ..< unat chain_cnt]
        (replicate (unat buckets_count) 0) (replicate (unat chain_cnt) 0)) (\<lambda>(buckets, chain).
    and_then (buffer_align ALIGN_HASH self) (\<lambda>self.
    debug_assert (w_hash_offset self = Writer_len self) (
    and_then (buffer_write (encode_hash_header (w_endian self)
        \<lparr>bucket_count = buckets_count, chain_count = chain_cnt\<rparr>) self) (\<lambda>self.
    and_then (buffer_write (concat (map (U_new (w_endian self)) buckets)) self) (\<lambda>self.
    buffer_write (concat (map (U_new (w_endian self)) chain)) self)))))"

definition Writer_reserve_hash_section_index_with_name ::
  "'s index_set_ops \<Rightarrow> bytes \<Rightarrow> 's writer \<Rightarrow> (u32 \<times> 's writer, string) result" where
  "Writer_reserve_hash_section_index_with_name ix name self =
    debug_assert (w_hash_str_id self = None) (
    and_then (Writer_add_section_name ix name self) (\<lambda>(sid, self).
    let self = self\<lparr>w_hash_str_id := Some sid\<rparr> in
    Writer_reserve_section_index self))"

definition Writer_reserve_hash_section_index ::
  "'s index_set_ops \<Rightarrow> 's writer \<Rightarrow> (u32 \<times> 's writer, string) result" where
  "Writer_reserve_hash_section_index ix self =
    Writer_reserve_hash_section_index_with_name ix (ascii ''.hash'') self"

definition Writer_write_hash_section_header :: "u64 \<Rightarrow> 's writer \<Rightarrow> ('s writer, string) result" where
  "Writer_write_hash_section_header addr self =
    (if w_hash_str_id self = None then Ok self
     else Writer_write_section_header
       \<lparr>sec_name = w_hash_str_id self, sec_type = SHT_HASH, sec_flags = SHF_ALLOC,
        sec_addr = addr, sec_offset = word_of_nat (w_hash_offset self),
        sec_size = word_of_nat (w_hash_size self), sec_link = w_dynsym_index self, sec_info = 0,
        sec_addralign = word_of_nat ALIGN_HASH, sec_entsize = 4\<rparr> self)"

section \<open>The GNU hash table\<close>

definition Writer_reserve_gnu_hash ::
  "u32 \<Rightarrow> u32 \<Rightarrow> u32 \<Rightarrow> 's writer \<Rightarrow> (nat \<times> 's writer, string) result" where
  "Writer_reserve_gnu_hash bloom buckets symbols self =
    (let self = self\<lparr>w_gnu_hash_size := Class_gnu_hash_size (w_is_64 self) bloom buckets symbols\<rparr> in
     and_then (Writer_reserve (w_gnu_hash_size self) (w_elf_align self) self) (\<lambda>(offset, self).
     Ok (offset, self\<lparr>w_gnu_hash_offset := offset\<rparr>)))"

text \<open>The bloom filter, at the width \<open>'w\<close> of its words.\<close>

fun bloom_fill :: "(u32 \<Rightarrow> u32) \<Rightarrow> u32 \<Rightarrow> u32 \<Rightarrow> nat list \<Rightarrow> 'w::len word list \<Rightarrow>
    ('w word list, string) result" where
  "bloom_fill hash shift cnt [] filters = Ok filters"
| "bloom_fill hash shift cnt (i # is) filters =
    (let h = hash (word_of_nat i); bits = word_of_nat LENGTH('w) in
     and_then (word_sub cnt 1) (\<lambda>m.
     let k = unat ((h div bits) AND m) in
     and_then (word_shr h (unat shift)) (\<lambda>h2.
     and_then (index_list filters k) (\<lambda>f.
     and_then (list_assign k (f OR (push_bit (unat (h mod bits)) 1
         OR push_bit (unat (h2 mod bits)) 1)) filters) (\<lambda>filters.
     bloom_fill hash shift cnt is filters)))))"

fun write_words :: "'w::len word list \<Rightarrow> 's writer \<Rightarrow> ('s writer, string) result" where
  "write_words [] self = Ok self"
| "write_words (x # xs) self =
    and_then (buffer_write (U_new (w_endian self) x) self) (\<lambda>self. write_words xs self)"

text \<open>
  Writing zeros while \<^verbatim>\<open>bucket\<close> is below a bound: the inner loop for the symbols and the loop after
  them.
\<close>

function gnu_pad_buckets :: "u32 \<Rightarrow> u32 \<Rightarrow> 's writer \<Rightarrow> (u32 \<times> 's writer, string) result" where
  "gnu_pad_buckets bucket bound self =
    (if bucket < bound then
       and_then (buffer_write (U_new (w_endian self) (0 :: u32)) self) (\<lambda>self.
       gnu_pad_buckets (bucket + 1) bound self)
     else Ok (bucket, self))"
  by pat_completeness auto
termination
proof (relation "measure (\<lambda>(bucket, bound, self). unat bound - unat bucket)", goal_cases)
  case (2 bucket bound self a)
  then have "unat bucket < unat bound" by (simp add: word_less_nat_alt)
  moreover from this have "unat (bucket + 1) = Suc (unat bucket)"
    using unsigned_less [of bound, where ?'a = nat] by (simp add: unat_word_ariths)
  ultimately show ?case by simp
qed simp

declare gnu_pad_buckets.simps [simp del]

fun gnu_write_buckets :: "(u32 \<Rightarrow> u32) \<Rightarrow> u32 \<Rightarrow> u32 \<Rightarrow> nat list \<Rightarrow> u32 \<Rightarrow> 's writer \<Rightarrow>
    (u32 \<times> 's writer, string) result" where
  "gnu_write_buckets hash base cnt [] bucket self = Ok (bucket, self)"
| "gnu_write_buckets hash base cnt (i # is) bucket self =
    and_then (word_rem (hash (word_of_nat i)) cnt) (\<lambda>symbol_bucket.
    and_then (gnu_pad_buckets bucket symbol_bucket self) (\<lambda>(bucket, self).
    if bucket = symbol_bucket then
      and_then (word_add base (word_of_nat i)) (\<lambda>v.
      and_then (buffer_write (U_new (w_endian self) v) self) (\<lambda>self.
      and_then (word_add bucket 1) (\<lambda>bucket.
      gnu_write_buckets hash base cnt is bucket self)))
    else gnu_write_buckets hash base cnt is bucket self))"

fun gnu_write_values :: "(u32 \<Rightarrow> u32) \<Rightarrow> u32 \<Rightarrow> u32 \<Rightarrow> nat list \<Rightarrow> 's writer \<Rightarrow>
    ('s writer, string) result" where
  "gnu_write_values hash cnt symbols [] self = Ok self"
| "gnu_write_values hash cnt symbols (i # is) self =
    (let h = hash (word_of_nat i) in
     and_then (word_sub symbols 1) (\<lambda>last.
     and_then (if word_of_nat i = last then Ok True
               else
                 and_then (word_rem h cnt) (\<lambda>b1.
                 and_then (word_add (word_of_nat i) 1) (\<lambda>j.
                 and_then (word_rem (hash j) cnt) (\<lambda>b2.
                 Ok (b1 \<noteq> b2))))) (\<lambda>stop.
     let h = (if stop then h OR 1 else h AND NOT 1) in
     and_then (buffer_write (U_new (w_endian self) h) self) (\<lambda>self.
     gnu_write_values hash cnt symbols is self))))"

definition Writer_write_gnu_hash :: "u32 \<Rightarrow> u32 \<Rightarrow> u32 \<Rightarrow> u32 \<Rightarrow> u32 \<Rightarrow> (u32 \<Rightarrow> u32) \<Rightarrow>
    's writer \<Rightarrow> ('s writer, string) result" where
  "Writer_write_gnu_hash base shift bloom buckets symbols hash self =
    and_then (buffer_align (w_elf_align self) self) (\<lambda>self.
    debug_assert (w_gnu_hash_offset self = Writer_len self) (
    and_then (buffer_write (encode_gnu_hash_header (w_endian self)
        \<lparr>gnu_bucket_count = buckets, symbol_base = base, bloom_count = bloom,
         bloom_shift = shift\<rparr>) self) (\<lambda>self.
    and_then (if w_is_64 self
              then and_then (bloom_fill hash shift bloom [0 ..< unat symbols]
                  (replicate (unat bloom) (0 :: u64))) (\<lambda>filters. write_words filters self)
              else and_then (bloom_fill hash shift bloom [0 ..< unat symbols]
                  (replicate (unat bloom) (0 :: u32))) (\<lambda>filters. write_words filters self)) (\<lambda>self.
    and_then (gnu_write_buckets hash base buckets [0 ..< unat symbols] 0 self) (\<lambda>(bucket, self).
    and_then (gnu_pad_buckets bucket buckets self) (\<lambda>(_, self).
    gnu_write_values hash buckets symbols [0 ..< unat symbols] self))))))"

definition Writer_reserve_gnu_hash_section_index_with_name ::
  "'s index_set_ops \<Rightarrow> bytes \<Rightarrow> 's writer \<Rightarrow> (u32 \<times> 's writer, string) result" where
  "Writer_reserve_gnu_hash_section_index_with_name ix name self =
    debug_assert (w_gnu_hash_str_id self = None) (
    and_then (Writer_add_section_name ix name self) (\<lambda>(sid, self).
    let self = self\<lparr>w_gnu_hash_str_id := Some sid\<rparr> in
    Writer_reserve_section_index self))"

definition Writer_reserve_gnu_hash_section_index ::
  "'s index_set_ops \<Rightarrow> 's writer \<Rightarrow> (u32 \<times> 's writer, string) result" where
  "Writer_reserve_gnu_hash_section_index ix self =
    Writer_reserve_gnu_hash_section_index_with_name ix (ascii ''.gnu.hash'') self"

definition Writer_write_gnu_hash_section_header :: "u64 \<Rightarrow> 's writer \<Rightarrow> ('s writer, string) result" where
  "Writer_write_gnu_hash_section_header addr self =
    (if w_gnu_hash_str_id self = None then Ok self
     else Writer_write_section_header
       \<lparr>sec_name = w_gnu_hash_str_id self, sec_type = SHT_GNU_HASH, sec_flags = SHF_ALLOC,
        sec_addr = addr, sec_offset = word_of_nat (w_gnu_hash_offset self),
        sec_size = word_of_nat (w_gnu_hash_size self), sec_link = w_dynsym_index self,
        sec_info = 0, sec_addralign = word_of_nat (w_elf_align self),
        sec_entsize = (if w_is_64 self then 0 else 4)\<rparr> self)"

section \<open>Symbol versions\<close>

definition Writer_reserve_gnu_versym :: "'s writer \<Rightarrow> (nat \<times> 's writer, string) result" where
  "Writer_reserve_gnu_versym self =
    debug_assert (w_gnu_versym_offset self = 0) (
    if w_dynsym_num self = 0 then Ok (0, self)
    else
      and_then (usize_mul (unat (w_dynsym_num self)) 2) (\<lambda>n.
      and_then (Writer_reserve n ALIGN_GNU_VERSYM self) (\<lambda>(offset, self).
      Ok (offset, self\<lparr>w_gnu_versym_offset := offset\<rparr>))))"

definition Writer_write_gnu_versym :: "u16 \<Rightarrow> 's writer \<Rightarrow> ('s writer, string) result" where
  "Writer_write_gnu_versym versym self = buffer_write (U_new (w_endian self) versym) self"

definition Writer_write_null_gnu_versym :: "'s writer \<Rightarrow> ('s writer, string) result" where
  "Writer_write_null_gnu_versym self =
    (if w_dynsym_num self = 0 then Ok self
     else
       and_then (buffer_align ALIGN_GNU_VERSYM self) (\<lambda>self.
       debug_assert (w_gnu_versym_offset self = Writer_len self) (
       Writer_write_gnu_versym 0 self)))"

definition Writer_reserve_gnu_versym_section_index_with_name ::
  "'s index_set_ops \<Rightarrow> bytes \<Rightarrow> 's writer \<Rightarrow> (u32 \<times> 's writer, string) result" where
  "Writer_reserve_gnu_versym_section_index_with_name ix name self =
    debug_assert (w_gnu_versym_str_id self = None) (
    and_then (Writer_add_section_name ix name self) (\<lambda>(sid, self).
    let self = self\<lparr>w_gnu_versym_str_id := Some sid\<rparr> in
    Writer_reserve_section_index self))"

definition Writer_reserve_gnu_versym_section_index ::
  "'s index_set_ops \<Rightarrow> 's writer \<Rightarrow> (u32 \<times> 's writer, string) result" where
  "Writer_reserve_gnu_versym_section_index ix self =
    Writer_reserve_gnu_versym_section_index_with_name ix (ascii ''.gnu.version'') self"

definition Writer_write_gnu_versym_section_header :: "u64 \<Rightarrow> 's writer \<Rightarrow> ('s writer, string) result" where
  "Writer_write_gnu_versym_section_header addr self =
    (if w_gnu_versym_str_id self = None then Ok self
     else
       and_then (Class_gnu_versym_size (w_is_64 self) (unat (w_dynsym_num self))) (\<lambda>sz.
       Writer_write_section_header
         \<lparr>sec_name = w_gnu_versym_str_id self, sec_type = SHT_GNU_VERSYM, sec_flags = SHF_ALLOC,
          sec_addr = addr, sec_offset = word_of_nat (w_gnu_versym_offset self),
          sec_size = word_of_nat sz, sec_link = w_dynsym_index self, sec_info = 0,
          sec_addralign = word_of_nat ALIGN_GNU_VERSYM, sec_entsize = 2\<rparr> self))"

section \<open>Version definitions\<close>

record Verdef =
  def_version :: u16
  def_flags :: u16
  def_index :: u16
  def_aux_count :: u16
  def_name :: nat

definition Writer_reserve_gnu_verdef ::
  "nat \<Rightarrow> nat \<Rightarrow> 's writer \<Rightarrow> (nat \<times> 's writer, string) result" where
  "Writer_reserve_gnu_verdef verdef_count verdaux_count self =
    debug_assert (w_gnu_verdef_offset self = 0) (
    if verdef_count = 0 then Ok (0, self)
    else
      and_then (Class_gnu_verdef_size (w_is_64 self) verdef_count verdaux_count) (\<lambda>sz.
      let self = self\<lparr>w_gnu_verdef_size := sz\<rparr> in
      and_then (Writer_reserve (w_gnu_verdef_size self) ALIGN_GNU_VERDEF self) (\<lambda>(offset, self).
      let self = self\<lparr>w_gnu_verdef_offset := offset, w_gnu_verdef_count := word_of_nat verdef_count\<rparr>;
          self = self\<lparr>w_gnu_verdef_remaining := w_gnu_verdef_count self\<rparr>
      in Ok (w_gnu_verdef_offset self, self))))"

definition Writer_write_align_gnu_verdef :: "'s writer \<Rightarrow> ('s writer, string) result" where
  "Writer_write_align_gnu_verdef self =
    (if w_gnu_verdef_offset self = 0 then Ok self
     else and_then (buffer_align ALIGN_GNU_VERDEF self) (\<lambda>self.
       debug_assert (w_gnu_verdef_offset self = Writer_len self) (Ok self)))"

definition Writer_write_gnu_verdaux :: "nat \<Rightarrow> 's writer \<Rightarrow> ('s writer, string) result" where
  "Writer_write_gnu_verdaux name self =
    debug_assert (w_gnu_verdaux_remaining self \<noteq> 0) (
    and_then (word_sub (w_gnu_verdaux_remaining self) 1) (\<lambda>r.
    let self = self\<lparr>w_gnu_verdaux_remaining := r\<rparr>;
        nxt = (if w_gnu_verdaux_remaining self = 0 then 0 else 8)
    in and_then (string_get_offset (w_dynstr self) name) (\<lambda>n.
    buffer_write (encode_verdaux (w_endian self) \<lparr>vda_name = word_of_nat n, vda_next = nxt\<rparr>) self)))"

definition Writer_write_gnu_verdef ::
  "'s index_set_ops \<Rightarrow> Verdef \<Rightarrow> 's writer \<Rightarrow> ('s writer, string) result" where
  "Writer_write_gnu_verdef ix d self =
    debug_assert (w_gnu_verdef_remaining self \<noteq> 0) (
    and_then (word_sub (w_gnu_verdef_remaining self) 1) (\<lambda>r.
    let self = self\<lparr>w_gnu_verdef_remaining := r\<rparr> in
    and_then (if w_gnu_verdef_remaining self = 0 then Ok 0
              else
                and_then (word_mul (ucast (def_aux_count d)) (8 :: u32)) (\<lambda>m. word_add 20 m)) (\<lambda>nxt.
    debug_assert (def_aux_count d \<noteq> 0) (
    let self = self\<lparr>w_gnu_verdaux_remaining := def_aux_count d\<rparr>; aux = 20 in
    and_then (string_get_string ix (w_dynstr self) (def_name d)) (\<lambda>str.
    and_then (buffer_write (encode_verdef (w_endian self)
        \<lparr>vd_version = def_version d, vd_flags = def_flags d, vd_ndx = def_index d,
         vd_cnt = def_aux_count d, vd_hash = elf_hash str, vd_aux = aux, vd_next = nxt\<rparr>) self) (\<lambda>self.
    Writer_write_gnu_verdaux (def_name d) self))))))"

definition Writer_write_gnu_verdef_shared ::
  "'s index_set_ops \<Rightarrow> Verdef \<Rightarrow> 's writer \<Rightarrow> ('s writer, string) result" where
  "Writer_write_gnu_verdef_shared ix d self =
    debug_assert (w_gnu_verdef_remaining self \<noteq> 0) (
    and_then (word_sub (w_gnu_verdef_remaining self) 1) (\<lambda>r.
    let self = self\<lparr>w_gnu_verdef_remaining := r\<rparr> in
    debug_assert (w_gnu_verdef_remaining self \<noteq> 0) (
    let nxt = 20 in
    debug_assert (def_aux_count d \<noteq> 0) (
    let self = self\<lparr>w_gnu_verdaux_remaining := 0\<rparr>; aux = 2 * 20 in
    and_then (string_get_string ix (w_dynstr self) (def_name d)) (\<lambda>str.
    buffer_write (encode_verdef (w_endian self)
        \<lparr>vd_version = def_version d, vd_flags = def_flags d, vd_ndx = def_index d,
         vd_cnt = def_aux_count d, vd_hash = elf_hash str, vd_aux = aux, vd_next = nxt\<rparr>) self)))))"

definition Writer_reserve_gnu_verdef_section_index_with_name ::
  "'s index_set_ops \<Rightarrow> bytes \<Rightarrow> 's writer \<Rightarrow> (u32 \<times> 's writer, string) result" where
  "Writer_reserve_gnu_verdef_section_index_with_name ix name self =
    debug_assert (w_gnu_verdef_str_id self = None) (
    and_then (Writer_add_section_name ix name self) (\<lambda>(sid, self).
    let self = self\<lparr>w_gnu_verdef_str_id := Some sid\<rparr> in
    Writer_reserve_section_index self))"

definition Writer_reserve_gnu_verdef_section_index ::
  "'s index_set_ops \<Rightarrow> 's writer \<Rightarrow> (u32 \<times> 's writer, string) result" where
  "Writer_reserve_gnu_verdef_section_index ix self =
    Writer_reserve_gnu_verdef_section_index_with_name ix (ascii ''.gnu.version_d'') self"

definition Writer_write_gnu_verdef_section_header :: "u64 \<Rightarrow> 's writer \<Rightarrow> ('s writer, string) result" where
  "Writer_write_gnu_verdef_section_header addr self =
    (if w_gnu_verdef_str_id self = None then Ok self
     else Writer_write_section_header
       \<lparr>sec_name = w_gnu_verdef_str_id self, sec_type = SHT_GNU_VERDEF, sec_flags = SHF_ALLOC,
        sec_addr = addr, sec_offset = word_of_nat (w_gnu_verdef_offset self),
        sec_size = word_of_nat (w_gnu_verdef_size self), sec_link = w_dynstr_index self,
        sec_info = ucast (w_gnu_verdef_count self),
        sec_addralign = word_of_nat ALIGN_GNU_VERDEF, sec_entsize = 0\<rparr> self)"

section \<open>Version dependencies\<close>

record Verneed =
  need_version :: u16
  need_aux_count :: u16
  need_file :: nat

record Vernaux =
  aux_flags :: u16
  aux_index :: u16
  aux_name :: nat

definition Writer_reserve_gnu_verneed ::
  "nat \<Rightarrow> nat \<Rightarrow> 's writer \<Rightarrow> (nat \<times> 's writer, string) result" where
  "Writer_reserve_gnu_verneed verneed_count vernaux_count self =
    debug_assert (w_gnu_verneed_offset self = 0) (
    if verneed_count = 0 then Ok (0, self)
    else
      and_then (Class_gnu_verneed_size (w_is_64 self) verneed_count vernaux_count) (\<lambda>sz.
      let self = self\<lparr>w_gnu_verneed_size := sz\<rparr> in
      and_then (Writer_reserve (w_gnu_verneed_size self) ALIGN_GNU_VERNEED self) (\<lambda>(offset, self).
      let self = self\<lparr>w_gnu_verneed_offset := offset, w_gnu_verneed_count := word_of_nat verneed_count\<rparr>;
          self = self\<lparr>w_gnu_verneed_remaining := w_gnu_verneed_count self\<rparr>
      in Ok (w_gnu_verneed_offset self, self))))"

definition Writer_write_align_gnu_verneed :: "'s writer \<Rightarrow> ('s writer, string) result" where
  "Writer_write_align_gnu_verneed self =
    (if w_gnu_verneed_offset self = 0 then Ok self
     else and_then (buffer_align ALIGN_GNU_VERNEED self) (\<lambda>self.
       debug_assert (w_gnu_verneed_offset self = Writer_len self) (Ok self)))"

definition Writer_write_gnu_verneed :: "Verneed \<Rightarrow> 's writer \<Rightarrow> ('s writer, string) result" where
  "Writer_write_gnu_verneed d self =
    debug_assert (w_gnu_verneed_remaining self \<noteq> 0) (
    and_then (word_sub (w_gnu_verneed_remaining self) 1) (\<lambda>r.
    let self = self\<lparr>w_gnu_verneed_remaining := r\<rparr> in
    and_then (if w_gnu_verneed_remaining self = 0 then Ok 0
              else
                and_then (word_mul (ucast (need_aux_count d)) (16 :: u32)) (\<lambda>m. word_add 16 m)) (\<lambda>nxt.
    let self = self\<lparr>w_gnu_vernaux_remaining := need_aux_count d\<rparr>;
        aux = (if need_aux_count d = 0 then 0 else 16) in
    and_then (string_get_offset (w_dynstr self) (need_file d)) (\<lambda>n.
    buffer_write (encode_verneed (w_endian self)
        \<lparr>vn_version = need_version d, vn_cnt = need_aux_count d, vn_file = word_of_nat n,
         vn_aux = aux, vn_next = nxt\<rparr>) self))))"

definition Writer_write_gnu_vernaux ::
  "'s index_set_ops \<Rightarrow> Vernaux \<Rightarrow> 's writer \<Rightarrow> ('s writer, string) result" where
  "Writer_write_gnu_vernaux ix d self =
    debug_assert (w_gnu_vernaux_remaining self \<noteq> 0) (
    and_then (word_sub (w_gnu_vernaux_remaining self) 1) (\<lambda>r.
    let self = self\<lparr>w_gnu_vernaux_remaining := r\<rparr>;
        nxt = (if w_gnu_vernaux_remaining self = 0 then 0 else 16)
    in and_then (string_get_string ix (w_dynstr self) (aux_name d)) (\<lambda>str.
    and_then (string_get_offset (w_dynstr self) (aux_name d)) (\<lambda>n.
    buffer_write (encode_vernaux (w_endian self)
        \<lparr>vna_hash = elf_hash str, vna_flags = aux_flags d, vna_other = aux_index d,
         vna_name = word_of_nat n, vna_next = nxt\<rparr>) self))))"

definition Writer_reserve_gnu_verneed_section_index_with_name ::
  "'s index_set_ops \<Rightarrow> bytes \<Rightarrow> 's writer \<Rightarrow> (u32 \<times> 's writer, string) result" where
  "Writer_reserve_gnu_verneed_section_index_with_name ix name self =
    debug_assert (w_gnu_verneed_str_id self = None) (
    and_then (Writer_add_section_name ix name self) (\<lambda>(sid, self).
    let self = self\<lparr>w_gnu_verneed_str_id := Some sid\<rparr> in
    Writer_reserve_section_index self))"

definition Writer_reserve_gnu_verneed_section_index ::
  "'s index_set_ops \<Rightarrow> 's writer \<Rightarrow> (u32 \<times> 's writer, string) result" where
  "Writer_reserve_gnu_verneed_section_index ix self =
    Writer_reserve_gnu_verneed_section_index_with_name ix (ascii ''.gnu.version_r'') self"

definition Writer_write_gnu_verneed_section_header :: "u64 \<Rightarrow> 's writer \<Rightarrow> ('s writer, string) result" where
  "Writer_write_gnu_verneed_section_header addr self =
    (if w_gnu_verneed_str_id self = None then Ok self
     else Writer_write_section_header
       \<lparr>sec_name = w_gnu_verneed_str_id self, sec_type = SHT_GNU_VERNEED, sec_flags = SHF_ALLOC,
        sec_addr = addr, sec_offset = word_of_nat (w_gnu_verneed_offset self),
        sec_size = word_of_nat (w_gnu_verneed_size self), sec_link = w_dynstr_index self,
        sec_info = ucast (w_gnu_verneed_count self),
        sec_addralign = word_of_nat ALIGN_GNU_VERNEED, sec_entsize = 0\<rparr> self)"

section \<open>GNU attributes\<close>

definition Writer_reserve_gnu_attributes_section_index_with_name ::
  "'s index_set_ops \<Rightarrow> bytes \<Rightarrow> 's writer \<Rightarrow> (u32 \<times> 's writer, string) result" where
  "Writer_reserve_gnu_attributes_section_index_with_name ix name self =
    debug_assert (w_gnu_attributes_str_id self = None) (
    and_then (Writer_add_section_name ix name self) (\<lambda>(sid, self).
    let self = self\<lparr>w_gnu_attributes_str_id := Some sid\<rparr> in
    Writer_reserve_section_index self))"

definition Writer_reserve_gnu_attributes_section_index ::
  "'s index_set_ops \<Rightarrow> 's writer \<Rightarrow> (u32 \<times> 's writer, string) result" where
  "Writer_reserve_gnu_attributes_section_index ix self =
    Writer_reserve_gnu_attributes_section_index_with_name ix (ascii ''.gnu.attributes'') self"

definition Writer_reserve_gnu_attributes :: "nat \<Rightarrow> 's writer \<Rightarrow> (nat \<times> 's writer, string) result" where
  "Writer_reserve_gnu_attributes attributes_size self =
    debug_assert (w_gnu_attributes_offset self = 0) (
    if attributes_size = 0 then Ok (0, self)
    else
      let self = self\<lparr>w_gnu_attributes_size := attributes_size\<rparr> in
      and_then (Writer_reserve (w_gnu_attributes_size self) (w_elf_align self) self) (\<lambda>(offset, self).
      Ok (offset, self\<lparr>w_gnu_attributes_offset := offset\<rparr>)))"

definition Writer_write_gnu_attributes_section_header :: "'s writer \<Rightarrow> ('s writer, string) result" where
  "Writer_write_gnu_attributes_section_header self =
    (if w_gnu_attributes_str_id self = None then Ok self
     else Writer_write_section_header
       \<lparr>sec_name = w_gnu_attributes_str_id self, sec_type = SHT_GNU_ATTRIBUTES, sec_flags = 0,
        sec_addr = 0, sec_offset = word_of_nat (w_gnu_attributes_offset self),
        sec_size = word_of_nat (w_gnu_attributes_size self), sec_link = w_dynstr_index self,
        sec_info = 0, sec_addralign = word_of_nat (w_elf_align self), sec_entsize = 0\<rparr> self)"

definition Writer_write_gnu_attributes :: "bytes \<Rightarrow> 's writer \<Rightarrow> ('s writer, string) result" where
  "Writer_write_gnu_attributes data self =
    (if w_gnu_attributes_offset self = 0 then Ok self
     else
       and_then (buffer_align (w_elf_align self) self) (\<lambda>self.
       debug_assert (w_gnu_attributes_offset self = Writer_len self) (
       Writer_write data self)))"

end
