(* ===== verification/Elf_Writer_Sections.thy ===== *)
theory Elf_Writer_Sections
  imports Elf_Writer_Dynamic
begin

text \<open>
  \<^verbatim>\<open>src/write/elf/writer.rs\<close>, fourth part: relocation sections, COMDAT sections and the
  \<^verbatim>\<open>AttributesWriter\<close>.
\<close>

section \<open>Relocations\<close>

record Rel =
  re_offset :: u64
  re_sym :: u32
  re_type :: u32
  re_addend :: i64

definition Writer_reserve_relocations ::
  "nat \<Rightarrow> bool \<Rightarrow> 's writer \<Rightarrow> (nat \<times> 's writer, string) result" where
  "Writer_reserve_relocations cnt is_rela self =
    and_then (usize_mul cnt (Class_rel_size (w_is_64 self) is_rela)) (\<lambda>n.
    Writer_reserve n (w_elf_align self) self)"

definition Writer_write_align_relocation :: "'s writer \<Rightarrow> ('s writer, string) result" where
  "Writer_write_align_relocation self = buffer_align (w_elf_align self) self"

definition Writer_write_relocation :: "bool \<Rightarrow> Rel \<Rightarrow> 's writer \<Rightarrow> ('s writer, string) result" where
  "Writer_write_relocation is_rela r self =
    (if w_is_64 self then
       if is_rela then
         buffer_write (encode_rela (w_endian self)
           (\<lparr>rela_r_offset = re_offset r,
             rela_r_info = Rela64_r_info (w_is_mips64el self) (re_sym r) (re_type r),
             rela_r_addend = re_addend r\<rparr> :: u64 rela_entry)) self
       else
         buffer_write (encode_rel (w_endian self)
           (\<lparr>rel_r_offset = re_offset r,
             rel_r_info = Rel64_r_info (re_sym r) (re_type r)\<rparr> :: u64 rel_entry)) self
     else
       if is_rela then
         buffer_write (encode_rela (w_endian self)
           (\<lparr>rela_r_offset = ucast (re_offset r),
             rela_r_info = Rel32_r_info (re_sym r) (ucast (re_type r)),
             rela_r_addend = ucast (re_addend r)\<rparr> :: u32 rela_entry)) self
       else
         buffer_write (encode_rel (w_endian self)
           (\<lparr>rel_r_offset = ucast (re_offset r),
             rel_r_info = Rel32_r_info (re_sym r) (ucast (re_type r))\<rparr> :: u32 rel_entry)) self)"

definition Writer_write_relocation_section_header ::
  "nat \<Rightarrow> u32 \<Rightarrow> u32 \<Rightarrow> nat \<Rightarrow> nat \<Rightarrow> bool \<Rightarrow> 's writer \<Rightarrow> ('s writer, string) result" where
  "Writer_write_relocation_section_header name sect symtab offset cnt is_rela self =
    and_then (usize_mul cnt (Class_rel_size (w_is_64 self) is_rela)) (\<lambda>sz.
    Writer_write_section_header
      \<lparr>sec_name = Some name, sec_type = (if is_rela then SHT_RELA else SHT_REL),
       sec_flags = SHF_INFO_LINK, sec_addr = 0, sec_offset = word_of_nat offset,
       sec_size = word_of_nat sz, sec_link = symtab, sec_info = sect,
       sec_addralign = word_of_nat (w_elf_align self),
       sec_entsize = word_of_nat (Class_rel_size (w_is_64 self) is_rela)\<rparr> self)"

definition Writer_write_relative_relocation_section_header ::
  "nat \<Rightarrow> nat \<Rightarrow> nat \<Rightarrow> 's writer \<Rightarrow> ('s writer, string) result" where
  "Writer_write_relative_relocation_section_header name offset sz self =
    Writer_write_section_header
      \<lparr>sec_name = Some name, sec_type = SHT_RELA, sec_flags = 0, sec_addr = 0,
       sec_offset = word_of_nat offset, sec_size = word_of_nat sz, sec_link = 0, sec_info = 0,
       sec_addralign = word_of_nat (w_elf_align self),
       sec_entsize = word_of_nat (Class_relr_size (w_is_64 self))\<rparr> self"

section \<open>COMDAT sections\<close>

definition Writer_reserve_comdat :: "nat \<Rightarrow> 's writer \<Rightarrow> (nat \<times> 's writer, string) result" where
  "Writer_reserve_comdat cnt self =
    and_then (usize_add cnt 1) (\<lambda>n.
    and_then (usize_mul n 4) (\<lambda>n.
    Writer_reserve n 4 self))"

definition Writer_write_comdat_header :: "'s writer \<Rightarrow> ('s writer, string) result" where
  "Writer_write_comdat_header self =
    and_then (buffer_align 4 self) (\<lambda>self.
    buffer_write (U_new (w_endian self) GRP_COMDAT) self)"

definition Writer_write_comdat_entry :: "u32 \<Rightarrow> 's writer \<Rightarrow> ('s writer, string) result" where
  "Writer_write_comdat_entry entry self = buffer_write (U_new (w_endian self) entry) self"

definition Writer_write_comdat_section_header ::
  "nat \<Rightarrow> u32 \<Rightarrow> u32 \<Rightarrow> nat \<Rightarrow> nat \<Rightarrow> 's writer \<Rightarrow> ('s writer, string) result" where
  "Writer_write_comdat_section_header name symtab symbol offset cnt self =
    and_then (usize_add cnt 1) (\<lambda>n.
    and_then (usize_mul n 4) (\<lambda>sz.
    Writer_write_section_header
      \<lparr>sec_name = Some name, sec_type = SHT_GROUP, sec_flags = 0, sec_addr = 0,
       sec_offset = word_of_nat offset, sec_size = word_of_nat sz, sec_link = symtab,
       sec_info = symbol, sec_addralign = 4, sec_entsize = 4\<rparr> self))"

section \<open>Attributes\<close>

record attributes_writer =
  aw_endian :: endianness
  aw_data :: bytes
  aw_subsection_offset :: nat
  aw_subsubsection_offset :: nat

definition AttributesWriter_new :: "endianness \<Rightarrow> attributes_writer" where
  "AttributesWriter_new e =
    \<lparr>aw_endian = e, aw_data = [0x41], aw_subsection_offset = 0, aw_subsubsection_offset = 0\<rparr>"

definition Writer_attributes_writer :: "'s writer \<Rightarrow> attributes_writer" where
  "Writer_attributes_writer self = AttributesWriter_new (w_endian self)"

definition Attr_start_subsection ::
  "bytes \<Rightarrow> attributes_writer \<Rightarrow> (attributes_writer, string) result" where
  "Attr_start_subsection vendor self =
    debug_assert (aw_subsection_offset self = 0) (
    debug_assert (aw_subsubsection_offset self = 0) (
    let self = self\<lparr>aw_subsection_offset := length (aw_data self)\<rparr>;
        self = self\<lparr>aw_data := aw_data self @ replicate 4 0\<rparr>;
        self = self\<lparr>aw_data := aw_data self @ vendor\<rparr>
    in Ok (self\<lparr>aw_data := aw_data self @ [0]\<rparr>)))"

text \<open>\<^verbatim>\<open>data[offset..][..4].copy_from_slice(..)\<close>: four bytes are replaced; panics out of range.\<close>

definition patch4 :: "nat \<Rightarrow> bytes \<Rightarrow> bytes \<Rightarrow> (bytes, string) result" where
  "patch4 offset new data =
    (if offset + 4 \<le> length data \<and> length new = 4
     then Ok (take offset data @ new @ drop (offset + 4) data) else Panic)"

definition Attr_end_subsection :: "attributes_writer \<Rightarrow> (attributes_writer, string) result" where
  "Attr_end_subsection self =
    debug_assert (aw_subsection_offset self \<noteq> 0) (
    debug_assert (aw_subsubsection_offset self = 0) (
    and_then (usize_sub (length (aw_data self)) (aw_subsection_offset self)) (\<lambda>len.
    and_then (patch4 (aw_subsection_offset self)
        (bytes_of (U_new (aw_endian self) (word_of_nat len :: u32))) (aw_data self)) (\<lambda>data.
    Ok (self\<lparr>aw_data := data, aw_subsection_offset := 0\<rparr>)))))"

definition Attr_start_subsubsection ::
  "u8 \<Rightarrow> attributes_writer \<Rightarrow> (attributes_writer, string) result" where
  "Attr_start_subsubsection tag self =
    debug_assert (aw_subsection_offset self \<noteq> 0) (
    debug_assert (aw_subsubsection_offset self = 0) (
    let self = self\<lparr>aw_subsubsection_offset := length (aw_data self)\<rparr>;
        self = self\<lparr>aw_data := aw_data self @ [tag]\<rparr>
    in Ok (self\<lparr>aw_data := aw_data self @ replicate 4 0\<rparr>)))"

text \<open>The two assertions of every method that writes inside a sub-subsection.\<close>

definition attr_inside ::
  "attributes_writer \<Rightarrow> (attributes_writer, string) result \<Rightarrow> (attributes_writer, string) result" where
  "attr_inside self r =
    debug_assert (aw_subsection_offset self \<noteq> 0) (
    debug_assert (aw_subsubsection_offset self \<noteq> 0) r)"

definition Attr_write_subsubsection_index ::
  "u32 \<Rightarrow> attributes_writer \<Rightarrow> (attributes_writer, string) result" where
  "Attr_write_subsubsection_index index self =
    attr_inside self (Ok (self\<lparr>aw_data := snd (write_uleb128 (aw_data self) (ucast index))\<rparr>))"

definition Attr_write_subsubsection_indices ::
  "bytes \<Rightarrow> attributes_writer \<Rightarrow> (attributes_writer, string) result" where
  "Attr_write_subsubsection_indices indices self =
    attr_inside self (
    let self = self\<lparr>aw_data := aw_data self @ indices\<rparr>
    in Ok (self\<lparr>aw_data := aw_data self @ [0]\<rparr>))"

definition Attr_write_attribute_tag ::
  "u64 \<Rightarrow> attributes_writer \<Rightarrow> (attributes_writer, string) result" where
  "Attr_write_attribute_tag tag self =
    attr_inside self (Ok (self\<lparr>aw_data := snd (write_uleb128 (aw_data self) tag)\<rparr>))"

definition Attr_write_attribute_integer ::
  "u64 \<Rightarrow> attributes_writer \<Rightarrow> (attributes_writer, string) result" where
  "Attr_write_attribute_integer val self =
    attr_inside self (Ok (self\<lparr>aw_data := snd (write_uleb128 (aw_data self) val)\<rparr>))"

definition Attr_write_attribute_string ::
  "bytes \<Rightarrow> attributes_writer \<Rightarrow> (attributes_writer, string) result" where
  "Attr_write_attribute_string val self =
    attr_inside self (
    let self = self\<lparr>aw_data := aw_data self @ val\<rparr>
    in Ok (self\<lparr>aw_data := aw_data self @ [0]\<rparr>))"

definition Attr_write_subsubsection_attributes ::
  "bytes \<Rightarrow> attributes_writer \<Rightarrow> (attributes_writer, string) result" where
  "Attr_write_subsubsection_attributes attributes self =
    attr_inside self (Ok (self\<lparr>aw_data := aw_data self @ attributes\<rparr>))"

definition Attr_end_subsubsection :: "attributes_writer \<Rightarrow> (attributes_writer, string) result" where
  "Attr_end_subsubsection self =
    attr_inside self (
    and_then (usize_sub (length (aw_data self)) (aw_subsubsection_offset self)) (\<lambda>len.
    and_then (patch4 (aw_subsubsection_offset self + 1)
        (bytes_of (U_new (aw_endian self) (word_of_nat len :: u32))) (aw_data self)) (\<lambda>data.
    Ok (self\<lparr>aw_data := data, aw_subsubsection_offset := 0\<rparr>))))"

definition Attr_data :: "attributes_writer \<Rightarrow> (bytes, string) result" where
  "Attr_data self =
    debug_assert (aw_subsection_offset self = 0) (
    debug_assert (aw_subsubsection_offset self = 0) (
    Ok (aw_data self)))"

end
