(* ===== verification/Elf_Reader.thy ===== *)
theory Elf_Reader
  imports Elf_Types Read_Util
begin

text \<open>
  The readers of \<^verbatim>\<open>src/read/elf/file.rs\<close> (trait \<^verbatim>\<open>FileHeader\<close>), \<^verbatim>\<open>src/read/elf/section.rs\<close> (trait
  \<^verbatim>\<open>SectionHeader\<close> and \<^verbatim>\<open>SectionTable\<close>) and \<^verbatim>\<open>src/read/elf/symbol.rs\<close> (\<^verbatim>\<open>SymbolTable\<close>, trait \<^verbatim>\<open>Sym\<close>).

  A reference to a structure in the file is its memory image; the accessor \<^verbatim>\<open>h.e_shoff(endian)\<close> is
  the field of the decoded image. The associated types of the traits, which differ between the two
  file classes, are the record \<open>elf_types\<close>, with the instances \<open>Elf32\<close> and \<open>Elf64\<close>. The \<^verbatim>\<open>ReadRef\<close> is
  a byte slice.
\<close>

section \<open>The associated types\<close>

record 'w elf_types =
  is_type_64 :: bool
  file_header_size :: nat
  section_header_size :: nat
  program_header_size :: nat
  sym_size :: nat
  decode_program_header :: "endianness \<Rightarrow> bytes \<Rightarrow> 'w program_header"
  decode_sym :: "endianness \<Rightarrow> bytes \<Rightarrow> 'w sym"

definition Elf32 :: "u32 elf_types" where
  "Elf32 = \<lparr>is_type_64 = False, file_header_size = 52, section_header_size = 40,
     program_header_size = 32, sym_size = 16, decode_program_header = decode_ProgramHeader32,
     decode_sym = decode_Sym32\<rparr>"

definition Elf64 :: "u64 elf_types" where
  "Elf64 = \<lparr>is_type_64 = True, file_header_size = 64, section_header_size = 64,
     program_header_size = 56, sym_size = 24, decode_program_header = decode_ProgramHeader64,
     decode_sym = decode_Sym64\<rparr>"

text \<open>The accessors of a file header, a section header and a symbol of the class \<open>C\<close>.\<close>

definition header_at :: "'w::len word elf_types \<Rightarrow> endianness \<Rightarrow> bytes \<Rightarrow> 'w word file_header" where
  "header_at C e self = decode_file_header e self"

definition section_at :: "'w::len word elf_types \<Rightarrow> endianness \<Rightarrow> bytes \<Rightarrow> 'w word section_header" where
  "section_at C e self = decode_section_header e self"

definition ident_of :: "bytes \<Rightarrow> ident" where
  "ident_of self = fst (decode_ident self)"

section \<open>FileHeader\<close>

definition is_class_32 :: "bytes \<Rightarrow> bool" where
  "is_class_32 self \<longleftrightarrow> ei_class (ident_of self) = ELFCLASS32"

definition is_class_64 :: "bytes \<Rightarrow> bool" where
  "is_class_64 self \<longleftrightarrow> ei_class (ident_of self) = ELFCLASS64"

definition header_is_little_endian :: "bytes \<Rightarrow> bool" where
  "header_is_little_endian self \<longleftrightarrow> ei_data (ident_of self) = ELFDATA2LSB"

definition header_is_big_endian :: "bytes \<Rightarrow> bool" where
  "header_is_big_endian self \<longleftrightarrow> ei_data (ident_of self) = ELFDATA2MSB"

definition is_supported :: "'w::len word elf_types \<Rightarrow> bytes \<Rightarrow> bool" where
  "is_supported C self \<longleftrightarrow>
    (let i = ident_of self in
     magic i = ELFMAG
     \<and> (is_type_64 C \<or> is_class_32 self)
     \<and> (\<not> is_type_64 C \<or> is_class_64 self)
     \<and> (header_is_little_endian self \<or> header_is_big_endian self)
     \<and> ei_version i = EV_CURRENT)"

definition FileHeader_parse :: "'w::len word elf_types \<Rightarrow> bytes \<Rightarrow> (bytes, string) result" where
  "FileHeader_parse C data =
    and_then (read_error (read_pod_at (file_header_size C) data 0)
        ''Invalid ELF header size or alignment'') (\<lambda>header.
    if \<not> is_supported C header then Err ''Unsupported ELF header'' else Ok header)"

definition header_endian :: "bytes \<Rightarrow> (endianness, string) result" where
  "header_endian self =
    ok_or (Endianness_from_big_endian (header_is_big_endian self)) ''Unsupported ELF endian''"

definition section_0 :: "'w::len word elf_types \<Rightarrow> bytes \<Rightarrow> endianness \<Rightarrow> bytes \<Rightarrow>
    (bytes option, string) result" where
  "section_0 C self e data =
    (let shoff = (ucast (e_shoff (header_at C e self)) :: u64) in
     if shoff = 0 then Ok None
     else
       let shentsize = unat (e_shentsize (header_at C e self)) in
       if shentsize \<noteq> section_header_size C then Err ''Invalid ELF section header entry size''
       else and_then (read_error (read_pod_at (section_header_size C) data shoff)
         ''Invalid ELF section header offset or size'') (\<lambda>s. Ok (Some s)))"

definition phnum :: "'w::len word elf_types \<Rightarrow> bytes \<Rightarrow> endianness \<Rightarrow> bytes \<Rightarrow> (nat, string) result" where
  "phnum C self e data =
    (let n = e_phnum (header_at C e self) in
     if n < PN_XNUM then Ok (unat n)
     else and_then (section_0 C self e data) (\<lambda>s0. case s0 of
         Some s \<Rightarrow> Ok (unat (sh_info (section_at C e s)))
       | None \<Rightarrow> Err ''Missing ELF section headers for e_phnum overflow''))"

text \<open>\<^verbatim>\<open>try_into\<close> from \<^verbatim>\<open>u64\<close> to \<^verbatim>\<open>usize\<close> cannot fail on a 64-bit target.\<close>

definition shnum :: "'w::len word elf_types \<Rightarrow> bytes \<Rightarrow> endianness \<Rightarrow> bytes \<Rightarrow> (nat, string) result" where
  "shnum C self e data =
    (let n = e_shnum (header_at C e self) in
     if n > 0 then Ok (unat n)
     else and_then (section_0 C self e data) (\<lambda>s0. case s0 of
         Some s \<Rightarrow> Ok (unat (ucast (sh_size (section_at C e s)) :: u64))
       | None \<Rightarrow> Ok 0))"

definition shstrndx :: "'w::len word elf_types \<Rightarrow> bytes \<Rightarrow> endianness \<Rightarrow> bytes \<Rightarrow> (u32, string) result" where
  "shstrndx C self e data =
    (let n = e_shstrndx (header_at C e self) in
     and_then (if n \<noteq> SHN_XINDEX then Ok (ucast n)
       else and_then (section_0 C self e data) (\<lambda>s0. case s0 of
           Some s \<Rightarrow> Ok (sh_link (section_at C e s))
         | None \<Rightarrow> Err ''Missing ELF section headers for e_shstrndx overflow'')) (\<lambda>index.
     if index = 0 then Err ''Missing ELF e_shstrndx'' else Ok index))"

definition program_headers :: "'w::len word elf_types \<Rightarrow> bytes \<Rightarrow> endianness \<Rightarrow> bytes \<Rightarrow>
    (bytes list, string) result" where
  "program_headers C self e data =
    (let phoff = (ucast (e_phoff (header_at C e self)) :: u64) in
     if phoff = 0 then Ok []
     else and_then (phnum C self e data) (\<lambda>n.
       if n = 0 then Ok []
       else
         let phentsize = unat (e_phentsize (header_at C e self)) in
         if phentsize \<noteq> program_header_size C then Err ''Invalid ELF program header entry size''
         else read_error (read_slice_at (program_header_size C) data phoff n)
           ''Invalid ELF program header size or alignment''))"

definition section_headers :: "'w::len word elf_types \<Rightarrow> bytes \<Rightarrow> endianness \<Rightarrow> bytes \<Rightarrow>
    (bytes list, string) result" where
  "section_headers C self e data =
    (let shoff = (ucast (e_shoff (header_at C e self)) :: u64) in
     if shoff = 0 then Ok []
     else and_then (shnum C self e data) (\<lambda>n.
       if n = 0 then Ok []
       else
         let shentsize = unat (e_shentsize (header_at C e self)) in
         if shentsize \<noteq> section_header_size C then Err ''Invalid ELF section header entry size''
         else read_error (read_slice_at (section_header_size C) data shoff n)
           ''Invalid ELF section header offset/size/alignment''))"

definition section_strings_index :: "'w::len word elf_types \<Rightarrow> bytes \<Rightarrow> endianness \<Rightarrow> bytes \<Rightarrow>
    (nat, string) result" where
  "section_strings_index C self e data =
    and_then (shstrndx C self e data) (\<lambda>index. Ok (unat index))"

section \<open>SectionHeader\<close>

definition file_range :: "'w::len word elf_types \<Rightarrow> bytes \<Rightarrow> endianness \<Rightarrow> (u64 \<times> u64) option" where
  "file_range C self e =
    (if sh_type (section_at C e self) = SHT_NOBITS then None
     else Some (ucast (sh_offset (section_at C e self)), ucast (sh_size (section_at C e self))))"

definition section_strings :: "'w::len word elf_types \<Rightarrow> bytes \<Rightarrow> endianness \<Rightarrow> bytes \<Rightarrow> bytes list \<Rightarrow>
    (read_string_table, string) result" where
  "section_strings C self e data sections =
    (if sections = [] then Ok StringTable_default
     else
       and_then (section_strings_index C self e data) (\<lambda>index.
       and_then (ok_or (get_opt sections index) ''Invalid ELF e_shstrndx'') (\<lambda>shstrtab.
       case file_range C shstrtab e of
         Some (offset, sz) \<Rightarrow>
           and_then (ok_or (word_checked_add offset sz) ''Invalid ELF shstrtab size'') (\<lambda>end1.
           Ok (StringTable_new data offset end1))
       | None \<Rightarrow> Ok StringTable_default)))"

record section_table =
  stab_sections :: "bytes list"
  stab_strings :: read_string_table

definition sections :: "'w::len word elf_types \<Rightarrow> bytes \<Rightarrow> endianness \<Rightarrow> bytes \<Rightarrow>
    (section_table, string) result" where
  "sections C self e data =
    and_then (section_headers C self e data) (\<lambda>secs.
    and_then (section_strings C self e data secs) (\<lambda>strs.
    Ok \<lparr>stab_sections = secs, stab_strings = strs\<rparr>))"

definition is_mips64el :: "'w::len word elf_types \<Rightarrow> bytes \<Rightarrow> endianness \<Rightarrow> bool" where
  "is_mips64el C self e \<longleftrightarrow>
    is_class_64 self \<and> header_is_little_endian self \<and> e_machine (header_at C e self) = EM_MIPS"

definition section_header_name :: "(u8 \<Rightarrow> bytes \<Rightarrow> nat option) \<Rightarrow> 'w::len word elf_types \<Rightarrow> bytes \<Rightarrow>
    endianness \<Rightarrow> read_string_table \<Rightarrow> (bytes, string) result" where
  "section_header_name memchr C self e strs =
    read_error (StringTable_get memchr strs (sh_name (section_at C e self)))
      ''Invalid ELF section name offset''"

definition section_link :: "'w::len word elf_types \<Rightarrow> bytes \<Rightarrow> endianness \<Rightarrow> nat" where
  "section_link C self e = unat (sh_link (section_at C e self))"

definition has_info_link :: "'w::len word elf_types \<Rightarrow> bytes \<Rightarrow> endianness \<Rightarrow> bool" where
  "has_info_link C self e \<longleftrightarrow> (ucast (sh_flags (section_at C e self)) :: u64) AND SHF_INFO_LINK \<noteq> 0"

definition info_link :: "'w::len word elf_types \<Rightarrow> bytes \<Rightarrow> endianness \<Rightarrow> nat" where
  "info_link C self e = unat (sh_info (section_at C e self))"

definition section_data :: "'w::len word elf_types \<Rightarrow> bytes \<Rightarrow> endianness \<Rightarrow> bytes \<Rightarrow>
    (bytes, string) result" where
  "section_data C self e data =
    (case file_range C self e of
       Some (offset, sz) \<Rightarrow>
         read_error (read_bytes_at data offset sz) ''Invalid ELF section size or offset''
     | None \<Rightarrow> Ok [])"

definition data_as_array :: "nat \<Rightarrow> 'w::len word elf_types \<Rightarrow> bytes \<Rightarrow> endianness \<Rightarrow> bytes \<Rightarrow>
    (bytes list, string) result" where
  "data_as_array size_of C self e data =
    and_then (section_data C self e data) (\<lambda>d.
    read_error (slice_from_all_bytes size_of 1 0 d) ''Invalid ELF section size or offset'')"

definition section_header_strings :: "'w::len word elf_types \<Rightarrow> bytes \<Rightarrow> endianness \<Rightarrow> bytes \<Rightarrow>
    (read_string_table option, string) result" where
  "section_header_strings C self e data =
    (if sh_type (section_at C e self) \<noteq> SHT_STRTAB then Ok None
     else
       let str_offset = ucast (sh_offset (section_at C e self));
           str_size = ucast (sh_size (section_at C e self))
       in and_then (ok_or (word_checked_add str_offset str_size)
           ''Invalid ELF string section offset or size'') (\<lambda>str_end.
         Ok (Some (StringTable_new data str_offset str_end))))"

section \<open>SectionTable\<close>

definition SectionTable_section :: "section_table \<Rightarrow> nat \<Rightarrow> (bytes, string) result" where
  "SectionTable_section self index =
    (if index = 0 then Err ''Invalid ELF section index''
     else ok_or (get_opt (stab_sections self) index) ''Invalid ELF section index'')"

definition SectionTable_section_name :: "(u8 \<Rightarrow> bytes \<Rightarrow> nat option) \<Rightarrow> 'w::len word elf_types \<Rightarrow>
    section_table \<Rightarrow> endianness \<Rightarrow> bytes \<Rightarrow> (bytes, string) result" where
  "SectionTable_section_name memchr C self e sect =
    section_header_name memchr C sect e (stab_strings self)"

text \<open>\<^verbatim>\<open>enumerate().find(..)\<close>: the first element that satisfies the predicate, with its index.\<close>

fun find_enumerated :: "('a \<Rightarrow> bool) \<Rightarrow> nat \<Rightarrow> 'a list \<Rightarrow> (nat \<times> 'a) option" where
  "find_enumerated p i [] = None"
| "find_enumerated p i (x # xs) = (if p x then Some (i, x) else find_enumerated p (Suc i) xs)"

definition section_by_name :: "(u8 \<Rightarrow> bytes \<Rightarrow> nat option) \<Rightarrow> 'w::len word elf_types \<Rightarrow>
    section_table \<Rightarrow> endianness \<Rightarrow> bytes \<Rightarrow> (nat \<times> bytes) option" where
  "section_by_name memchr C self e name =
    find_enumerated (\<lambda>s. SectionTable_section_name memchr C self e s = Ok name) 0 (stab_sections self)"

definition SectionTable_strings :: "'w::len word elf_types \<Rightarrow> section_table \<Rightarrow> endianness \<Rightarrow> bytes \<Rightarrow>
    nat \<Rightarrow> (read_string_table, string) result" where
  "SectionTable_strings C self e data index =
    (if index = 0 then Ok StringTable_default
     else
       and_then (SectionTable_section self index) (\<lambda>sect.
       and_then (section_header_strings C sect e data) (\<lambda>strs.
       ok_or strs ''Invalid ELF string section type'')))"

section \<open>SymbolTable\<close>

record symbol_table =
  symt_section :: nat
  symt_string_section :: nat
  symt_shndx_section :: nat
  symt_symbols :: "bytes list"
  symt_strings :: read_string_table
  symt_shndx :: "bytes list"

definition SymbolTable_default :: symbol_table where
  "SymbolTable_default = \<lparr>symt_section = 0, symt_string_section = 0, symt_shndx_section = 0,
     symt_symbols = [], symt_strings = StringTable_default, symt_shndx = []\<rparr>"

text \<open>The loop that looks for the extended section indices; the last match wins.\<close>

fun shndx_loop :: "'w::len word elf_types \<Rightarrow> endianness \<Rightarrow> bytes \<Rightarrow> nat \<Rightarrow> nat \<Rightarrow> bytes list \<Rightarrow>
    nat \<times> bytes list \<Rightarrow> (nat \<times> bytes list, string) result" where
  "shndx_loop C e data section_index i [] acc = Ok acc"
| "shndx_loop C e data section_index i (s # ss) acc =
    (if sh_type (section_at C e s) = SHT_SYMTAB_SHNDX \<and> section_link C s e = section_index then
       and_then (read_error (data_as_array 4 C s e data) ''Invalid ELF symtab_shndx data'') (\<lambda>shndx.
       shndx_loop C e data section_index (Suc i) ss (i, shndx))
     else shndx_loop C e data section_index (Suc i) ss acc)"

definition SymbolTable_parse :: "'w::len word elf_types \<Rightarrow> endianness \<Rightarrow> bytes \<Rightarrow> section_table \<Rightarrow> nat \<Rightarrow>
    bytes \<Rightarrow> (symbol_table, string) result" where
  "SymbolTable_parse C e data secs section_index sect =
    debug_assert (sh_type (section_at C e sect) = SHT_DYNSYM \<or> sh_type (section_at C e sect) = SHT_SYMTAB) (
    and_then (read_error (data_as_array (sym_size C) C sect e data)
        ''Invalid ELF symbol table data'') (\<lambda>symbols.
    let link = unat (sh_link (section_at C e sect)) in
    and_then (SectionTable_strings C secs e data link) (\<lambda>strs.
    and_then (shndx_loop C e data section_index 0 (stab_sections secs) (0, [])) (\<lambda>(shndx_section, shndx).
    Ok \<lparr>symt_section = section_index, symt_string_section = link,
        symt_shndx_section = shndx_section, symt_symbols = symbols, symt_strings = strs,
        symt_shndx = shndx\<rparr>))))"

definition SectionTable_symbols :: "'w::len word elf_types \<Rightarrow> section_table \<Rightarrow> endianness \<Rightarrow> bytes \<Rightarrow>
    u32 \<Rightarrow> (symbol_table, string) result" where
  "SectionTable_symbols C self e data ty =
    debug_assert (ty = SHT_DYNSYM \<or> ty = SHT_SYMTAB) (
    case find_enumerated (\<lambda>s. sh_type (section_at C e s) = ty) 0 (stab_sections self) of
      Some (index, sect) \<Rightarrow> SymbolTable_parse C e data self index sect
    | None \<Rightarrow> Ok SymbolTable_default)"

definition symbol_table_by_index :: "'w::len word elf_types \<Rightarrow> section_table \<Rightarrow> endianness \<Rightarrow> bytes \<Rightarrow>
    nat \<Rightarrow> (symbol_table, string) result" where
  "symbol_table_by_index C self e data index =
    and_then (SectionTable_section self index) (\<lambda>sect.
    if sh_type (section_at C e sect) = SHT_DYNSYM \<or> sh_type (section_at C e sect) = SHT_SYMTAB
    then SymbolTable_parse C e data self index sect
    else Err ''Invalid ELF symbol table section type'')"

definition SymbolTable_symbol :: "symbol_table \<Rightarrow> nat \<Rightarrow> (bytes, string) result" where
  "SymbolTable_symbol self index =
    (if index = 0 then Err ''Invalid ELF symbol index''
     else ok_or (get_opt (symt_symbols self) index) ''Invalid ELF symbol index'')"

definition SymbolTable_shndx :: "symbol_table \<Rightarrow> endianness \<Rightarrow> nat \<Rightarrow> u32 option" where
  "SymbolTable_shndx self e index = map_option (\<lambda>x. U_get x e) (get_opt (symt_shndx self) index)"

definition symbol_section :: "'w::len word elf_types \<Rightarrow> symbol_table \<Rightarrow> endianness \<Rightarrow> bytes \<Rightarrow> nat \<Rightarrow>
    (nat option, string) result" where
  "symbol_section C self e symbol index =
    (let n = st_shndx (decode_sym C e symbol) in
     if n = 0 then Ok None
     else if n = SHN_XINDEX then
       and_then (ok_or (SymbolTable_shndx self e index) ''Missing ELF symbol extended index'') (\<lambda>shndx.
       if shndx = 0 then Ok None else Ok (Some (unat shndx)))
     else if n < SHN_LORESERVE then Ok (Some (unat n))
     else Ok None)"

definition Sym_name :: "(u8 \<Rightarrow> bytes \<Rightarrow> nat option) \<Rightarrow> 'w::len word elf_types \<Rightarrow> bytes \<Rightarrow> endianness \<Rightarrow>
    read_string_table \<Rightarrow> (bytes, string) result" where
  "Sym_name memchr C self e strs =
    read_error (StringTable_get memchr strs (st_name (decode_sym C e self)))
      ''Invalid ELF symbol name offset''"

definition symbol_name :: "(u8 \<Rightarrow> bytes \<Rightarrow> nat option) \<Rightarrow> 'w::len word elf_types \<Rightarrow> symbol_table \<Rightarrow>
    endianness \<Rightarrow> bytes \<Rightarrow> (bytes, string) result" where
  "symbol_name memchr C self e symbol = Sym_name memchr C symbol e (symt_strings self)"

end
