(* ===== verification/Elf_Layout.thy ===== *)
theory Elf_Layout
  imports Elf_Writer_Sections
begin

text \<open>
  The two phases of the ELF \<^verbatim>\<open>Writer\<close>. \<open>layout\<close> is the abstract specification of the first phase
  (which file ranges a list of requests gets) and \<open>emitted_file\<close> of the second (which bytes aligned
  writes produce). The operations of the writer implement them, and an image written after the
  reservation of its range lands exactly in this range.
\<close>

section \<open>Results of the basic operations\<close>

definition w_bytes :: "'s writer \<Rightarrow> bytes" where
  "w_bytes self = vb_bytes (w_buffer self)"

definition w_capacity :: "'s writer \<Rightarrow> nat" where
  "w_capacity self = vb_capacity (w_buffer self)"

text \<open>The writer after appending bytes to the buffer.\<close>

definition put :: "bytes \<Rightarrow> 's writer \<Rightarrow> 's writer" where
  "put val self = self\<lparr>w_buffer := \<lparr>vb_bytes = w_bytes self @ val, vb_capacity = w_capacity self\<rparr>\<rparr>"

definition pad_to :: "nat \<Rightarrow> bytes \<Rightarrow> bytes" where
  "pad_to a bs = replicate (align_up (length bs) a - length bs) 0"

lemma w_bytes_put [simp]: "w_bytes (put val self) = w_bytes self @ val"
  by (simp add: w_bytes_def put_def)

lemma w_capacity_put [simp]: "w_capacity (put val self) = w_capacity self"
  by (simp add: w_capacity_def put_def)

lemma put_put [simp]: "put b (put a self) = put (a @ b) self"
  by (simp add: put_def w_bytes_def w_capacity_def)

lemma put_Nil [simp]: "put [] self = self"
  by (simp add: put_def w_bytes_def w_capacity_def)

lemma Writer_len_eq: "Writer_len self = length (w_bytes self)"
  by (simp add: Writer_len_def Vec_len_def w_bytes_def)

lemma length_pad_to: "length (pad_to (2 ^ k) bs) = align_up (length bs) (2 ^ k) - length bs"
  by (simp add: pad_to_def)

lemma length_padded: "length (bs @ pad_to (2 ^ k) bs) = align_up (length bs) (2 ^ k)"
  using align_up_ge [of "2 ^ k" "length bs"] by (simp add: length_pad_to)

lemma Writer_reserve_ok:
  assumes "w_len self + 2 ^ k + n \<le> usize_max"
  shows "Writer_reserve n (2 ^ k) self =
    Ok (align_up (w_len self) (2 ^ k), self\<lparr>w_len := align_up (w_len self) (2 ^ k) + n\<rparr>)"
proof -
  have "align_up (w_len self) (2 ^ k) < w_len self + 2 ^ k"
    by (rule align_up_less) simp
  with assms have fit: "align_up (w_len self) (2 ^ k) + n \<le> usize_max" by linarith
  show ?thesis
  proof (cases "(1 :: nat) < 2 ^ k")
    case True
    have "w_len self + (2 ^ k - 1) \<le> usize_max" using assms by linarith
    then show ?thesis
      using True fit by (simp add: Writer_reserve_def align_usize_eq util_align_eq usize_add_def)
  next
    case False
    then have "(2 :: nat) ^ k = 1"
      by (metis less_one linorder_cases power_eq_0_iff zero_neq_numeral)
    then show ?thesis
      using fit by (simp add: Writer_reserve_def usize_add_def)
  qed
qed

lemma buffer_write_ok:
  assumes "length (w_bytes self) + length val \<le> w_capacity self"
  shows "buffer_write val self = Ok (put val self)"
  using assms
  by (simp add: buffer_write_def Vec_write_pod_def Vec_write_bytes_def bytes_of_def put_def
      w_bytes_def w_capacity_def)

lemma Writer_write_ok:
  assumes "length (w_bytes self) + length val \<le> w_capacity self"
  shows "Writer_write val self = Ok (put val self)"
  using assms
  by (simp add: Writer_write_def Vec_write_bytes_def put_def w_bytes_def w_capacity_def)

lemma buffer_align_ok:
  assumes "align_up (length (w_bytes self)) (2 ^ k) \<le> w_capacity self"
    and "length (w_bytes self) + 2 ^ k \<le> usize_max"
  shows "buffer_align (2 ^ k) self = Ok (put (pad_to (2 ^ k) (w_bytes self)) self)"
proof -
  have "length (w_bytes self) + (2 ^ k - 1) \<le> usize_max" using assms(2) by linarith
  moreover have "length (w_bytes self) \<le> align_up (length (w_bytes self)) (2 ^ k)"
    by (rule align_up_ge) simp
  ultimately show ?thesis
    using assms(1)
    by (simp add: buffer_align_def write_align_def align_usize_eq util_align_eq Vec_len_def
        Vec_resize_def w_bytes_def w_capacity_def put_def pad_to_def max_def debug_assert_def)
qed

lemma Writer_write_align_ok:
  assumes "align_up (length (w_bytes self)) (2 ^ k) \<le> w_capacity self"
    and "length (w_bytes self) + 2 ^ k \<le> usize_max"
  shows "Writer_write_align (2 ^ k) self = Ok (put (pad_to (2 ^ k) (w_bytes self)) self)"
proof (cases "(1 :: nat) < 2 ^ k")
  case True
  then show ?thesis using buffer_align_ok [OF assms] by (simp add: Writer_write_align_def)
next
  case False
  then have "(2 :: nat) ^ k = 1"
    by (metis less_one linorder_cases power_eq_0_iff zero_neq_numeral)
  then show ?thesis by (simp add: Writer_write_align_def pad_to_def)
qed

section \<open>The abstract layout\<close>

text \<open>Requests are pairs of the exponent of the alignment and a length, or the data itself.\<close>

fun layout :: "nat \<Rightarrow> (nat \<times> nat) list \<Rightarrow> nat list \<times> nat" where
  "layout off [] = ([], off)"
| "layout off ((k, n) # reqs) =
    (let start = align_up off (2 ^ k); (offs, end1) = layout (start + n) reqs
     in (start # offs, end1))"

fun emitted_file :: "bytes \<Rightarrow> (nat \<times> bytes) list \<Rightarrow> bytes" where
  "emitted_file buf [] = buf"
| "emitted_file buf ((k, d) # items) = emitted_file ((buf @ pad_to (2 ^ k) buf) @ d) items"

abbreviation requests :: "(nat \<times> bytes) list \<Rightarrow> (nat \<times> nat) list" where
  "requests \<equiv> map (\<lambda>(k, d). (k, length d))"

lemma layout_mono: "off \<le> snd (layout off reqs)"
proof (induction off reqs rule: layout.induct)
  case (2 off k n reqs)
  have "off \<le> align_up off (2 ^ k)" by (rule align_up_ge) simp
  with 2 [OF refl] show ?case by (auto simp: Let_def split: prod.splits)
qed simp

lemma length_layout [simp]: "length (fst (layout off reqs)) = length reqs"
  by (induction off reqs rule: layout.induct) (auto simp: Let_def split: prod.splits)

lemma emitted_file_prefix: "take (length buf) (emitted_file buf items) = buf"
proof (induction buf items rule: emitted_file.induct)
  case (2 buf k d items)
  then have "take (length buf) (take (length ((buf @ pad_to (2 ^ k) buf) @ d))
      (emitted_file ((buf @ pad_to (2 ^ k) buf) @ d) items)) = buf" by simp
  then show ?case by (simp add: min_def)
qed simp

lemma length_padded_data:
  "length ((buf @ pad_to (2 ^ k) buf) @ d) = align_up (length buf) (2 ^ k) + length d"
  unfolding length_append [of _ d] length_padded ..

lemma layout_step:
  "fst (layout (length buf) (requests ((k, d) # items))) = length (buf @ pad_to (2 ^ k) buf) #
     fst (layout (length ((buf @ pad_to (2 ^ k) buf) @ d)) (requests items))"
  "snd (layout (length buf) (requests ((k, d) # items))) =
     snd (layout (length ((buf @ pad_to (2 ^ k) buf) @ d)) (requests items))"
  unfolding length_padded_data length_padded by (simp_all add: Let_def split_beta)

lemma length_emitted_file: "length (emitted_file buf items) = snd (layout (length buf) (requests items))"
proof (induction buf items rule: emitted_file.induct)
  case (2 buf k d items)
  then show ?case by (simp only: emitted_file.simps layout_step)
qed simp

lemma emitted_file_slices:
  "i < length items \<Longrightarrow> slice_at (emitted_file buf items)
     (fst (layout (length buf) (requests items)) ! i) (length (snd (items ! i))) = snd (items ! i)"
proof (induction buf items arbitrary: i rule: emitted_file.induct)
  case (2 buf k d items)
  let ?buf = "buf @ pad_to (2 ^ k) buf"
  have pre: "take (length (?buf @ d)) (emitted_file (?buf @ d) items) = ?buf @ d"
    by (rule emitted_file_prefix)
  note offs = layout_step(1) [of buf k d items]
  show ?case
  proof (cases i)
    case 0
    have "slice_at (emitted_file (?buf @ d) items) (length ?buf) (length d)
        = drop (length ?buf) (take (length (?buf @ d)) (emitted_file (?buf @ d) items))"
      by (simp add: slice_at_def take_drop ac_simps)
    also have "\<dots> = d" unfolding pre by simp
    finally show ?thesis using 0 by (simp only: emitted_file.simps offs nth_Cons_0 snd_conv)
  next
    case (Suc j)
    with 2 show ?thesis by (simp only: emitted_file.simps offs nth_Cons_Suc list.size)
  qed
qed simp

lemma layout_offset_fits:
  "i < length reqs \<Longrightarrow> fst (layout off reqs) ! i + snd (reqs ! i) \<le> snd (layout off reqs)"
proof (induction off reqs arbitrary: i rule: layout.induct)
  case (2 off k n reqs)
  show ?case
  proof (cases i)
    case 0
    then show ?thesis
      using layout_mono [of "align_up off (2 ^ k) + n" reqs] by (simp add: Let_def split_beta)
  next
    case (Suc j)
    with 2 show ?thesis by (simp add: Let_def split_beta)
  qed
qed simp

section \<open>The phases\<close>

fun reserve_all :: "(nat \<times> nat) list \<Rightarrow> 's writer \<Rightarrow> (nat list \<times> 's writer, string) result" where
  "reserve_all [] self = Ok ([], self)"
| "reserve_all ((k, n) # reqs) self =
    and_then (Writer_reserve n (2 ^ k) self) (\<lambda>(off, self).
    and_then (reserve_all reqs self) (\<lambda>(offs, self).
    Ok (off # offs, self)))"

fun write_all_data :: "(nat \<times> bytes) list \<Rightarrow> 's writer \<Rightarrow> ('s writer, string) result" where
  "write_all_data [] self = Ok self"
| "write_all_data ((k, d) # items) self =
    and_then (Writer_write_align (2 ^ k) self) (\<lambda>self.
    and_then (Writer_write d self) (\<lambda>self.
    write_all_data items self))"

text \<open>A bound that keeps every intermediate sum below the largest \<open>usize\<close>.\<close>

definition small_layout :: "nat \<Rightarrow> (nat \<times> nat) list \<Rightarrow> bool" where
  "small_layout off reqs \<longleftrightarrow> snd (layout off reqs) \<le> usize_max div 2 \<and>
    (\<forall>r \<in> set reqs. 2 ^ fst r \<le> usize_max div 2)"

lemma small_layout_Cons:
  assumes "small_layout off ((k, n) # reqs)"
  shows "off + 2 ^ k + n \<le> usize_max" "small_layout (align_up off (2 ^ k) + n) reqs"
proof -
  have "off \<le> align_up off (2 ^ k)" by (rule align_up_ge) simp
  moreover have "align_up off (2 ^ k) + n \<le> snd (layout (align_up off (2 ^ k) + n) reqs)"
    by (rule layout_mono)
  moreover have "snd (layout (align_up off (2 ^ k) + n) reqs) \<le> usize_max div 2"
    "2 ^ k \<le> usize_max div 2"
    using assms by (simp_all add: small_layout_def Let_def split_beta)
  ultimately have "off + n \<le> usize_max div 2" "2 ^ k \<le> usize_max div 2" by linarith+
  then show "off + 2 ^ k + n \<le> usize_max" by linarith
  show "small_layout (align_up off (2 ^ k) + n) reqs"
    using assms by (simp add: small_layout_def Let_def split_beta)
qed

lemma reserve_all_ok:
  "small_layout (w_len self) reqs \<Longrightarrow>
    reserve_all reqs self = Ok (fst (layout (w_len self) reqs),
      self\<lparr>w_len := snd (layout (w_len self) reqs)\<rparr>)"
proof (induction reqs arbitrary: self)
  case (Cons r reqs)
  obtain k n where r: "r = (k, n)" by force
  note small = small_layout_Cons [OF Cons.prems [unfolded r]]
  let ?self = "self\<lparr>w_len := align_up (w_len self) (2 ^ k) + n\<rparr>"
  have "reserve_all reqs ?self = Ok (fst (layout (w_len ?self) reqs),
      ?self\<lparr>w_len := snd (layout (w_len ?self) reqs)\<rparr>)"
    by (rule Cons.IH) (simp add: small)
  then show ?case
    by (simp add: r Writer_reserve_ok [OF small(1)] Let_def split_beta)
qed simp

lemma write_all_data_ok:
  "small_layout (length (w_bytes self)) (requests items) \<Longrightarrow>
    snd (layout (length (w_bytes self)) (requests items)) \<le> w_capacity self \<Longrightarrow>
    \<exists>d. write_all_data items self = Ok (put d self) \<and>
      w_bytes self @ d = emitted_file (w_bytes self) items"
proof (induction items arbitrary: self)
  case Nil
  then show ?case by (intro exI [of _ "[]"]) simp
next
  case (Cons item items)
  obtain k d where item: "item = (k, d)" by force
  let ?n = "length (w_bytes self)" and ?pad = "pad_to (2 ^ k) (w_bytes self)"
  have small: "small_layout ?n ((k, length d) # requests items)"
    and cap: "snd (layout ?n ((k, length d) # requests items)) \<le> w_capacity self"
    using Cons.prems by (simp_all add: item)
  note s = small_layout_Cons [OF small]
  have l: "length (w_bytes self @ ?pad) = align_up ?n (2 ^ k)" by (rule length_padded)
  have le: "align_up ?n (2 ^ k) + length d \<le> w_capacity self"
    using layout_mono [of "align_up ?n (2 ^ k) + length d" "requests items"] cap
    by (simp add: Let_def split_beta)
  have a: "Writer_write_align (2 ^ k) self = Ok (put ?pad self)"
    by (rule Writer_write_align_ok) (use le s(1) in linarith)+
  have b: "Writer_write d (put ?pad self) = Ok (put (?pad @ d) self)"
    by (subst Writer_write_ok) (use le l in simp_all)
  let ?self = "put (?pad @ d) self"
  have len: "length (w_bytes ?self) = align_up ?n (2 ^ k) + length d"
    using length_padded_data [of "w_bytes self" k d] by simp
  have "small_layout (length (w_bytes ?self)) (requests items)"
    and "snd (layout (length (w_bytes ?self)) (requests items)) \<le> w_capacity ?self"
    unfolding len using s(2) cap by (simp_all add: Let_def split_beta)
  from Cons.IH [OF this] obtain r where r: "write_all_data items ?self = Ok (put r ?self)"
      "w_bytes ?self @ r = emitted_file (w_bytes ?self) items" by blast
  show ?case
    by (intro exI [of _ "(?pad @ d) @ r"]) (use a b r in \<open>simp add: item\<close>)
qed

text \<open>
  The two phases together: the ranges reserved for the data from an empty file are exactly where
  the data is found after the writes, and the file has the reserved length.
\<close>

lemma two_phase:
  assumes "w_len self = 0" "w_bytes self = []" "small_layout 0 (requests items)"
    and "reserve_all (requests items) self = Ok (offs, self')"
    and "w_len self' \<le> w_capacity self'"
  obtains self'' where "write_all_data items self' = Ok self''"
    "length (w_bytes self'') = w_len self'"
    "\<forall>i < length items. slice_at (w_bytes self'') (offs ! i) (length (snd (items ! i))) = snd (items ! i)"
proof -
  have self': "self' = self\<lparr>w_len := snd (layout 0 (requests items))\<rparr>"
    and offs: "offs = fst (layout 0 (requests items))"
    using reserve_all_ok [of self "requests items"] assms by simp_all
  have b: "w_bytes self' = []" using assms(2) unfolding self' by (simp add: w_bytes_def)
  have c: "snd (layout 0 (requests items)) \<le> w_capacity self'" using assms(5) by (simp add: self')
  obtain d where d: "write_all_data items self' = Ok (put d self')" "d = emitted_file [] items"
    using write_all_data_ok [of self' items] assms(3) b c by auto
  show thesis
  proof (rule that [OF d(1)])
    show "length (w_bytes (put d self')) = w_len self'"
      using length_emitted_file [of "[]" items] by (simp add: b d(2)) (simp add: self')
    show "\<forall>i < length items. slice_at (w_bytes (put d self')) (offs ! i) (length (snd (items ! i)))
        = snd (items ! i)"
      using emitted_file_slices [of _ items "[]"] by (simp add: b d(2) offs)
  qed
qed

section \<open>Properties\<close>

text \<open>C6: the file ranges handed out by the reservation phase are those the write phase fills: the file has exactly the reserved length, and the data of each request is at the offset it was given.\<close>

theorem writer_two_phases_agree:
  assumes "w_len self = 0" "w_bytes self = []" "small_layout 0 (requests items)"
    and "reserve_all (requests items) self = Ok (offs, self')" "w_len self' \<le> w_capacity self'"
  shows "\<exists>self''. write_all_data items self' = Ok self'' \<and> length (w_bytes self'') = w_len self' \<and>
    (\<forall>i < length items. slice_at (w_bytes self'') (offs ! i) (length (snd (items ! i))) = snd (items ! i))"
  using two_phase [OF assms] by metis

theorem writer_two_phases_agree_witness:
  "\<exists>self''. write_all_data [(2, [1, 2, 3]), (3, [4])]
     ((Writer_new list_set Little True Vec_new)\<lparr>w_len := 9, w_buffer := \<lparr>vb_bytes = [], vb_capacity = 9\<rparr>\<rparr>) = Ok self''
    \<and> length (w_bytes self'') = 9 \<and> slice_at (w_bytes self'') 8 1 = [4]"
proof -
  let ?self = "(Writer_new list_set Little True Vec_new)\<lparr>w_buffer := \<lparr>vb_bytes = [], vb_capacity = 9\<rparr>\<rparr>"
  have layout: "layout 0 (requests [(2, [1, 2, 3]), (3, [4 :: u8])]) = ([0, 8], 9)"
    by (simp add: Let_def align_up_def)
  have len: "w_len ?self = 0" "w_bytes ?self = []" by (simp_all add: Writer_new_def w_bytes_def)
  have small: "small_layout (w_len ?self) (requests [(2, [1, 2, 3]), (3, [4 :: u8])])"
    unfolding small_layout_def len layout by (simp add: usize_max_def)
  show ?thesis
    using writer_two_phases_agree [OF len small [unfolded len] reserve_all_ok [OF small]]
    unfolding len layout by (auto simp: w_capacity_def nth_Cons Writer_new_def)
qed

end
