(* ===== verification/Elf_Class.thy ===== *)
theory Elf_Class
  imports Elf_Layout Elf_Reader
begin

text \<open>
  The contract between the ELF writer and the readers of a file class: the sizes the readers use are
  those of the images the writer produces, and a decoded image gives back the header that was
  written (with the addresses converted to the class). It is the locale \<open>elf_class\<close>, interpreted on
  \<open>Elf32\<close> and \<open>Elf64\<close>; the reading lemmas are proved once for both classes.
\<close>

section \<open>Conversions\<close>

lemma convert_64 [simp]:
  "convert_file_header h = (h :: u64 file_header)"
  "convert_section_header s = (s :: u64 section_header)"
  "convert_program_header p = (p :: u64 program_header)"
  "convert_sym y = (y :: u64 sym)"
  by (simp_all add: convert_file_header_def convert_section_header_def convert_program_header_def
      convert_sym_def)

section \<open>The images the writer produces\<close>

definition file_header_image :: "bool \<Rightarrow> endianness \<Rightarrow> u64 file_header \<Rightarrow> bytes" where
  "file_header_image is_64 e h =
    (if is_64 then encode_file_header e h
     else encode_file_header e (convert_file_header h :: u32 file_header))"

definition section_header_image :: "bool \<Rightarrow> endianness \<Rightarrow> u64 section_header \<Rightarrow> bytes" where
  "section_header_image is_64 e s =
    (if is_64 then encode_section_header e s
     else encode_section_header e (convert_section_header s :: u32 section_header))"

definition program_header_image :: "bool \<Rightarrow> endianness \<Rightarrow> u64 program_header \<Rightarrow> bytes" where
  "program_header_image is_64 e p =
    (if is_64 then encode_ProgramHeader64 e p
     else encode_ProgramHeader32 e (convert_program_header p))"

definition sym_image :: "bool \<Rightarrow> endianness \<Rightarrow> u64 sym \<Rightarrow> bytes" where
  "sym_image is_64 e s =
    (if is_64 then encode_Sym64 e s else encode_Sym32 e (convert_sym s))"

lemma length_images [len_simps]:
  "ident_ok (e_ident h) \<Longrightarrow> length (file_header_image is_64 e h) = Class_file_header_size is_64"
  "length (section_header_image is_64 e s) = Class_section_header_size is_64"
  "length (program_header_image is_64 e p) = Class_program_header_size is_64"
  "length (sym_image is_64 e y) = Class_sym_size is_64"
  by (simp_all add: file_header_image_def section_header_image_def program_header_image_def
      sym_image_def len_simps Class_file_header_size_def Class_section_header_size_def
      Class_program_header_size_def Class_sym_size_def convert_file_header_def)

text \<open>The sizes of \<^verbatim>\<open>Class\<close> are the lengths of the images of the structures.\<close>

lemma Class_sizes:
  "Class_rel_size True True = length (encode_rela e (a :: u64 rela_entry))"
  "Class_rel_size True False = length (encode_rel e (b :: u64 rel_entry))"
  "Class_rel_size False True = length (encode_rela e (c :: u32 rela_entry))"
  "Class_rel_size False False = length (encode_rel e (d :: u32 rel_entry))"
  "Class_relr_size True = length (U_new e (f :: u64))"
  "Class_relr_size False = length (U_new e (g :: u32))"
  "Class_dyn_size True = length (encode_dyn e (h :: u64 dyn_entry))"
  "Class_dyn_size False = length (encode_dyn e (i :: u32 dyn_entry))"
  by (simp_all add: Class_rel_size_def Class_relr_size_def Class_dyn_size_def len_simps)

section \<open>The contract\<close>

locale elf_class =
  fixes C :: "'w::len word elf_types"
  assumes width: "32 \<le> LENGTH('w)" "LENGTH('w) \<le> 64"
    and sizes: "file_header_size C = Class_file_header_size (is_type_64 C)"
      "section_header_size C = Class_section_header_size (is_type_64 C)"
      "program_header_size C = Class_program_header_size (is_type_64 C)"
      "sym_size C = Class_sym_size (is_type_64 C)"
    and header_image: "ident_ok (e_ident h) \<Longrightarrow>
      decode_file_header e (file_header_image (is_type_64 C) e h) = (convert_file_header h :: 'w word file_header)"
    and section_image: "decode_section_header e (section_header_image (is_type_64 C) e s) =
      (convert_section_header s :: 'w word section_header)"
    and program_header_image: "decode_program_header C e (program_header_image (is_type_64 C) e p) =
      convert_program_header p"
    and sym_image: "decode_sym C e (sym_image (is_type_64 C) e y) = convert_sym y"
begin

abbreviation hdr :: "endianness \<Rightarrow> u64 file_header \<Rightarrow> bytes" where
  "hdr \<equiv> file_header_image (is_type_64 C)"

abbreviation shdr :: "endianness \<Rightarrow> u64 section_header \<Rightarrow> bytes" where
  "shdr \<equiv> section_header_image (is_type_64 C)"

lemma header_at_hdr: "ident_ok (e_ident h) \<Longrightarrow> header_at C e (hdr e h) = convert_file_header h"
  by (simp add: header_at_def header_image)

lemma section_at_shdr: "section_at C e (shdr e s) = convert_section_header s"
  by (simp add: section_at_def section_image)

lemma ident_of_hdr: "ident_ok (e_ident h) \<Longrightarrow> ident_of (hdr e h) = e_ident h"
  by (simp add: ident_of_def file_header_image_def encode_file_header_def convert_file_header_def)

lemma section_size_bounds: "0 < section_header_size C" "section_header_size C < 2 ^ 16"
  by (simp_all add: sizes Class_section_header_size_def)

text \<open>An address that fits the class survives the conversion.\<close>

lemma word_round_trip:
  assumes "unat v < 2 ^ LENGTH('w)"
  shows "ucast (ucast v :: 'w word) = (v :: u64)"
proof -
  have "unat (ucast (ucast v :: 'w word) :: u64) = unat v"
    using assms width(2) by (simp add: unat_ucast_le unat_ucast_small)
  then show ?thesis by (rule word_unat_eq_iff [THEN iffD2])
qed

lemma count_round_trip: "unat (ucast (ucast (ucast n :: u64) :: 'w word) :: u64) = unat n" for n :: u32
proof -
  have n: "unat (ucast n :: u64) = unat n" by (simp add: unat_ucast_le)
  have "(2 :: nat) ^ 32 \<le> 2 ^ LENGTH('w)" using width(1) by (rule power_increasing) simp
  moreover have "unat n < 2 ^ 32" using unsigned_less [of n, where ?'a = nat] by simp
  ultimately have "unat (ucast n :: u64) < 2 ^ LENGTH('w)" unfolding n by (rule order.strict_trans2 [rotated])
  then show ?thesis by (simp only: word_round_trip n)
qed

section \<open>Parsing a header\<close>

lemma parse_ok:
  assumes "take (file_header_size C) data = hdr e h" "ident_ok (e_ident h)"
    and "magic (e_ident h) = ELFMAG" "ei_version (e_ident h) = EV_CURRENT"
    and "ei_class (e_ident h) = (if is_type_64 C then ELFCLASS64 else ELFCLASS32)"
    and "ei_data (e_ident h) = ELFDATA2LSB \<or> ei_data (e_ident h) = ELFDATA2MSB"
  shows "FileHeader_parse C data = Ok (hdr e h)"
proof -
  have "length (take (file_header_size C) data) = file_header_size C"
    using assms(1,2) by (simp add: len_simps sizes)
  then have "file_header_size C \<le> length data" by simp
  then have "read_pod_at (file_header_size C) data 0 = Ok (hdr e h)"
    using read_pod_at_ok [of 0 "file_header_size C" data] assms(1)
    by (simp add: sizes Class_file_header_size_def usize_max_def slice_at_def split: if_splits)
  moreover have "is_supported C (hdr e h)"
    using assms by (auto simp: is_supported_def Let_def ident_of_hdr is_class_32_def is_class_64_def
        header_is_little_endian_def header_is_big_endian_def)
  ultimately show ?thesis by (simp add: FileHeader_parse_def)
qed

lemma section_0_ok:
  assumes "ident_ok (e_ident h)" "e_shoff h = word_of_nat off" "0 < off"
    and "off < 2 ^ LENGTH('w)" "e_shentsize h = word_of_nat (section_header_size C)"
    and "slice_at data off (section_header_size C) = shdr e s"
  shows "section_0 C (hdr e h) e data = Ok (Some (shdr e s))"
proof -
  have "off < 2 ^ 64"
    using assms(4) width(2) by (meson order.strict_trans2 one_le_numeral power_increasing)
  then have u: "unat (word_of_nat off :: u64) = off" by (simp add: unat_of_nat)
  have shoff: "(ucast (ucast (word_of_nat off :: u64) :: 'w word) :: u64) = word_of_nat off"
    by (rule word_round_trip) (simp only: u assms(4))
  have nz: "(word_of_nat off :: u64) \<noteq> 0"
    using u assms(3) by (metis gr_implies_not0 unsigned_0)
  have ent: "unat (word_of_nat (section_header_size C) :: u16) = section_header_size C"
    using section_size_bounds(2) by (simp add: unat_of_nat)
  have "length (slice_at data off (section_header_size C)) = section_header_size C"
    unfolding assms(6) by (simp add: len_simps sizes)
  then have "off + section_header_size C \<le> length data"
    using section_size_bounds(1) by (auto simp: slice_at_def min_def split: if_splits)
  then have "read_pod_at (section_header_size C) data (word_of_nat off) = Ok (shdr e s)"
    using read_pod_at_ok [of "word_of_nat off" "section_header_size C" data] u assms(6)
      section_size_bounds(2) by (simp add: usize_max_def)
  then show ?thesis
    using header_at_hdr [OF assms(1), of e] assms(2,5) shoff nz ent
    by (simp add: section_0_def Let_def convert_file_header_def)
qed

text \<open>
  The section count and the index of the section names, in the header or, for values that are too
  large, in section 0.
\<close>

lemma lo_reserve: "unat (ucast SHN_LORESERVE :: u32) = 65280"
  by (simp add: unat_ucast_le)

lemma shnum_ok:
  fixes n :: u32
  assumes "ident_ok (e_ident h)"
    and "e_shnum h = (if n \<ge> ucast SHN_LORESERVE then 0 else ucast n)"
    and "sh_size s = (if n \<ge> ucast SHN_LORESERVE then ucast n else 0)"
    and "n \<noteq> 0" and "section_0 C (hdr e h) e data = Ok (Some (shdr e s))"
  shows "shnum C (hdr e h) e data = Ok (unat n)"
proof (cases "n \<ge> ucast SHN_LORESERVE")
  case True
  then show ?thesis
    using assms header_at_hdr [OF assms(1), of e] section_at_shdr [of e s] count_round_trip [of n]
    by (simp add: shnum_def Let_def convert_file_header_def convert_section_header_def)
next
  case False
  then have "unat n < 65280" using lo_reserve by (simp add: word_le_nat_alt)
  then have "unat (ucast n :: u16) = unat n" by (intro unat_ucast_small) simp
  moreover from this assms(4) have "(ucast n :: u16) > 0"
    by (metis unat_eq_zero unsigned_0 word_gt_0)
  ultimately show ?thesis
    using False assms(2) header_at_hdr [OF assms(1), of e]
    by (simp add: shnum_def Let_def convert_file_header_def)
qed

lemma shstrndx_ok:
  fixes n :: u32
  assumes "ident_ok (e_ident h)"
    and "e_shstrndx h = (if n \<ge> ucast SHN_LORESERVE then SHN_XINDEX else ucast n)"
    and "sh_link s = (if n \<ge> ucast SHN_LORESERVE then n else 0)"
    and "n \<noteq> 0" and "section_0 C (hdr e h) e data = Ok (Some (shdr e s))"
  shows "shstrndx C (hdr e h) e data = Ok n"
proof (cases "n \<ge> ucast SHN_LORESERVE")
  case True
  then show ?thesis
    using assms header_at_hdr [OF assms(1), of e] section_at_shdr [of e s]
    by (simp add: shstrndx_def Let_def convert_file_header_def convert_section_header_def)
next
  case False
  then have n: "unat n < 65280" using lo_reserve by (simp add: word_le_nat_alt)
  then have u: "unat (ucast n :: u16) = unat n" by (intro unat_ucast_small) simp
  have "(ucast n :: u16) \<noteq> SHN_XINDEX"
  proof
    assume "(ucast n :: u16) = SHN_XINDEX"
    with u have "unat n = unat SHN_XINDEX" by simp
    with n show False by simp
  qed
  moreover have "(ucast (ucast n :: u16) :: u32) = n"
    using u by (intro word_unat_eq_iff [THEN iffD2]) (simp add: unat_ucast_le)
  ultimately show ?thesis
    using False assms(2,4) header_at_hdr [OF assms(1), of e]
    by (simp add: shstrndx_def Let_def convert_file_header_def)
qed

lemma section_headers_ok:
  assumes "ident_ok (e_ident h)" "e_shoff h = word_of_nat off" "0 < off"
    and "off < 2 ^ LENGTH('w)" "e_shentsize h = word_of_nat (section_header_size C)"
    and "shnum C (hdr e h) e data = Ok n" "0 < n"
    and "off + n * section_header_size C \<le> length data" "length data \<le> usize_max"
  shows "section_headers C (hdr e h) e data =
    Ok (chunks (section_header_size C) n (slice_at data off (n * section_header_size C)))"
proof -
  have "off < 2 ^ 64"
    using assms(4) width(2) by (meson order.strict_trans2 one_le_numeral power_increasing)
  then have u: "unat (word_of_nat off :: u64) = off" by (simp add: unat_of_nat)
  have shoff: "(ucast (ucast (word_of_nat off :: u64) :: 'w word) :: u64) = word_of_nat off"
    by (rule word_round_trip) (simp only: u assms(4))
  have nz: "(word_of_nat off :: u64) \<noteq> 0"
    using u assms(3) by (metis gr_implies_not0 unsigned_0)
  have ent: "unat (word_of_nat (section_header_size C) :: u16) = section_header_size C"
    using section_size_bounds(2) by (simp add: unat_of_nat)
  have "read_slice_at (section_header_size C) data (word_of_nat off) n =
      Ok (chunks (section_header_size C) n (slice_at data off (n * section_header_size C)))"
    using read_slice_at_ok [of "word_of_nat off" n "section_header_size C" data] u assms(8,9) by simp
  then show ?thesis
    using header_at_hdr [OF assms(1), of e] assms(2,5,6,7) shoff nz ent
    by (simp add: section_headers_def Let_def convert_file_header_def)
qed

end

interpretation elf32: elf_class Elf32
  by unfold_locales
    (simp_all add: Elf32_def file_header_image_def section_header_image_def program_header_image_def
      sym_image_def decode_encode_file_header decode_encode_section_header
      Class_file_header_size_def Class_section_header_size_def Class_program_header_size_def
      Class_sym_size_def convert_file_header_def [of "_ :: u64 file_header", where ?'w = 32])

interpretation elf64: elf_class Elf64
  by unfold_locales
    (simp_all add: Elf64_def file_header_image_def section_header_image_def program_header_image_def
      sym_image_def decode_encode_file_header decode_encode_section_header
      Class_file_header_size_def Class_section_header_size_def Class_program_header_size_def
      Class_sym_size_def)

end
