(* ===== verification/Elf_Files.thy ===== *)
theory Elf_Files
  imports Elf_Class
begin

text \<open>
  Whole files: a client that writes sections with the ELF \<^verbatim>\<open>Writer\<close> in the documented order, and what
  the readers find in the file. \<open>reserve_object\<close> and \<open>write_object\<close> are this client; they call the
  operations of the writer only.
\<close>

section \<open>The client\<close>

record section_spec =
  ss_name :: bytes
  ss_align :: nat
  ss_data :: bytes
  ss_type :: u32
  ss_flags :: u64
  ss_addr :: u64
  ss_link :: u32
  ss_info :: u32
  ss_entsize :: u64

definition spec_header :: "nat \<Rightarrow> nat \<Rightarrow> section_spec \<Rightarrow> SectionHeader" where
  "spec_header sid off s =
    \<lparr>sec_name = Some sid, sec_type = ss_type s, sec_flags = ss_flags s, sec_addr = ss_addr s,
     sec_offset = word_of_nat off, sec_size = word_of_nat (length (ss_data s)),
     sec_link = ss_link s, sec_info = ss_info s, sec_addralign = word_of_nat (2 ^ ss_align s),
     sec_entsize = ss_entsize s\<rparr>"

fun reserve_sections ::
  "'s index_set_ops \<Rightarrow> bytes list \<Rightarrow> 's writer \<Rightarrow> (nat list \<times> 's writer, string) result" where
  "reserve_sections ix [] self = Ok ([], self)"
| "reserve_sections ix (name # names) self =
    and_then (Writer_reserve_section_index self) (\<lambda>(_, self).
    and_then (Writer_add_section_name ix name self) (\<lambda>(sid, self).
    and_then (reserve_sections ix names self) (\<lambda>(sids, self).
    Ok (sid # sids, self))))"

definition data_items :: "section_spec list \<Rightarrow> (nat \<times> bytes) list" where
  "data_items specs = map (\<lambda>s. (ss_align s, ss_data s)) specs"

definition reserve_object :: "'s index_set_ops \<Rightarrow> endianness \<Rightarrow> bool \<Rightarrow> section_spec list \<Rightarrow>
    (nat list \<times> nat list \<times> 's writer, string) result" where
  "reserve_object ix e is_64 specs =
    and_then (Writer_reserve_file_header (Writer_new ix e is_64 Vec_new)) (\<lambda>self.
    and_then (reserve_sections ix (map ss_name specs) self) (\<lambda>(sids, self).
    and_then (Writer_reserve_shstrtab_section_index ix self) (\<lambda>(_, self).
    and_then (reserve_all (requests (data_items specs)) self) (\<lambda>(offs, self).
    and_then (Writer_reserve_shstrtab ix self) (\<lambda>self.
    and_then (Writer_reserve_section_headers self) (\<lambda>self.
    Ok (sids, offs, self)))))))"

fun write_headers :: "(nat \<times> nat \<times> section_spec) list \<Rightarrow> 's writer \<Rightarrow> ('s writer, string) result" where
  "write_headers [] self = Ok self"
| "write_headers ((sid, off, s) # xs) self =
    and_then (Writer_write_section_header (spec_header sid off s) self) (\<lambda>self.
    write_headers xs self)"

definition write_object :: "FileHeader \<Rightarrow> nat list \<Rightarrow> nat list \<Rightarrow> section_spec list \<Rightarrow> 's writer \<Rightarrow>
    ('s writer, string) result" where
  "write_object header sids offs specs self =
    and_then (Writer_write_file_header header self) (\<lambda>self.
    and_then (write_all_data (data_items specs) self) (\<lambda>self.
    and_then (Writer_write_shstrtab self) (\<lambda>self.
    and_then (Writer_write_null_section_header self) (\<lambda>self.
    and_then (write_headers (zip sids (zip offs specs)) self) (\<lambda>self.
    Writer_write_shstrtab_section_header self)))))"

definition write_file :: "'s index_set_ops \<Rightarrow> endianness \<Rightarrow> bool \<Rightarrow> FileHeader \<Rightarrow> section_spec list \<Rightarrow>
    (bytes, string) result" where
  "write_file ix e is_64 header specs =
    and_then (reserve_object ix e is_64 specs) (\<lambda>(sids, offs, self).
    and_then (write_object header sids offs specs self) (\<lambda>self.
    Ok (w_bytes self)))"

text \<open>
  A bound of the file size that is linear in the sections: everything that follows holds below
  4 GiB.
\<close>

definition names_size :: "bytes list \<Rightarrow> nat" where
  "names_size names = sum_list (map (\<lambda>name. Suc (length name)) names)"

definition object_bound :: "section_spec list \<Rightarrow> nat" where
  "object_bound specs =
    64 + sum_list (map (\<lambda>s. 2 ^ ss_align s + length (ss_data s)) specs) + 1
    + names_size (map ss_name specs @ [ascii ''.shstrtab'']) + 8 + (length specs + 2) * 64"

definition specs_ok :: "section_spec list \<Rightarrow> bool" where
  "specs_ok specs \<longleftrightarrow> object_bound specs < 2 ^ 32 \<and> (\<forall>s \<in> set specs. 0 \<notin> set (ss_name s))"

section \<open>The reservation\<close>

definition next_index :: "'s writer \<Rightarrow> u32" where
  "next_index self = (if w_section_num self = 0 then 1 else w_section_num self)"

lemma Writer_reserve_section_index_ok:
  assumes "w_section_offset self = 0" "unat (next_index self) + 1 < 2 ^ 32"
  shows "Writer_reserve_section_index self =
    Ok (next_index self, self\<lparr>w_section_num := next_index self + 1\<rparr>)"
  using assms
  by (auto simp: Writer_reserve_section_index_def next_index_def word_add_def Let_def split: if_splits)

lemma Writer_add_section_name_ok:
  assumes ix: "index_set_laws ix elems" and "table_ok elems (w_shstrtab self)"
    and "tb_offsets (w_shstrtab self) = []" "0 \<notin> set name" "w_shstrtab_offset self = 0"
  obtains sid t where "Writer_add_section_name ix name self = Ok (sid, self\<lparr>w_shstrtab := t\<rparr>)"
    "table_ok elems t" "tb_offsets t = []" "string_get_string ix t sid = Ok name"
    "\<forall>j s. string_get_string ix (w_shstrtab self) j = Ok s \<longrightarrow> string_get_string ix t j = Ok s"
    "set (elems (tb_strings t)) = insert name (set (elems (tb_strings (w_shstrtab self))))"
proof -
  from string_add_ok [OF ix assms(2,3,4)] obtain sid t where
    t: "string_add ix name (w_shstrtab self) = Ok (sid, t)" "table_ok elems t" "tb_offsets t = []"
      "string_get_string ix t sid = Ok name"
      "\<forall>j s. string_get_string ix (w_shstrtab self) j = Ok s \<longrightarrow> string_get_string ix t j = Ok s"
    by metis
  note set = string_add_elems [OF ix t(1)]
  have all: "\<forall>j s. string_get_string ix (w_shstrtab self) j = Ok s \<longrightarrow> string_get_string ix t j = Ok s"
    using t(5) by blast
  show thesis
    by (rule that [OF _ t(2-4) all set]) (simp_all add: Writer_add_section_name_def assms(5) t(1))
qed

lemma reserve_sections_ok:
  assumes ix: "index_set_laws ix elems"
  shows "table_ok elems (w_shstrtab self) \<Longrightarrow> tb_offsets (w_shstrtab self) = [] \<Longrightarrow>
    w_shstrtab_offset self = 0 \<Longrightarrow> w_section_offset self = 0 \<Longrightarrow>
    (\<forall>name \<in> set names. 0 \<notin> set name) \<Longrightarrow> unat (next_index self) + length names < 2 ^ 32 \<Longrightarrow>
    \<exists>sids t num. reserve_sections ix names self =
        Ok (sids, self\<lparr>w_section_num := num, w_shstrtab := t\<rparr>) \<and>
      table_ok elems t \<and> tb_offsets t = [] \<and> length sids = length names \<and>
      (if num = 0 then 1 else num) = next_index self + word_of_nat (length names) \<and>
      (\<forall>i < length names. string_get_string ix t (sids ! i) = Ok (names ! i)) \<and>
      (\<forall>j s. string_get_string ix (w_shstrtab self) j = Ok s \<longrightarrow> string_get_string ix t j = Ok s) \<and>
      set (elems (tb_strings t)) = set names \<union> set (elems (tb_strings (w_shstrtab self)))"
proof (induction names arbitrary: self)
  case Nil
  show ?case
    by (intro exI [of _ "[]"] exI [of _ "w_shstrtab self"] exI [of _ "w_section_num self"])
      (use Nil in \<open>simp add: next_index_def\<close>)
next
  case (Cons name names)
  let ?n = "next_index self"
  let ?self = "self\<lparr>w_section_num := ?n + 1\<rparr>"
  have n: "unat ?n + 1 < 2 ^ 32" using Cons.prems(6) by simp
  then have n1: "unat (?n + 1) = unat ?n + 1" by (simp add: unat_word_ariths)
  then have n2: "?n + 1 \<noteq> 0" by (metis add_is_0 one_neq_zero unsigned_0)
  have a: "Writer_reserve_section_index self = Ok (?n, ?self)"
    using Cons.prems(4) n by (rule Writer_reserve_section_index_ok)
  obtain sid t where t: "Writer_add_section_name ix name ?self = Ok (sid, ?self\<lparr>w_shstrtab := t\<rparr>)"
    "table_ok elems t" "tb_offsets t = []" "string_get_string ix t sid = Ok name"
    "\<forall>j s. string_get_string ix (w_shstrtab self) j = Ok s \<longrightarrow> string_get_string ix t j = Ok s"
    "set (elems (tb_strings t)) = insert name (set (elems (tb_strings (w_shstrtab self))))"
    using Writer_add_section_name_ok [OF ix, of ?self name] Cons.prems by auto
  let ?self2 = "?self\<lparr>w_shstrtab := t\<rparr>"
  have nx: "next_index ?self2 = ?n + 1" using n2 by (simp add: next_index_def [of ?self2])
  obtain sids t' num where r: "reserve_sections ix names ?self2 =
        Ok (sids, ?self2\<lparr>w_section_num := num, w_shstrtab := t'\<rparr>)"
      "table_ok elems t'" "tb_offsets t' = []" "length sids = length names"
      "(if num = 0 then 1 else num) = next_index ?self2 + word_of_nat (length names)"
      "\<forall>i < length names. string_get_string ix t' (sids ! i) = Ok (names ! i)"
      "\<forall>j s. string_get_string ix t j = Ok s \<longrightarrow> string_get_string ix t' j = Ok s"
      "set (elems (tb_strings t')) = set names \<union> set (elems (tb_strings t))"
    using Cons.IH [of ?self2] Cons.prems t n1 nx by auto
  have "reserve_sections ix (name # names) self =
      Ok (sid # sids, self\<lparr>w_section_num := num, w_shstrtab := t'\<rparr>)"
    using a t(1) r(1) by simp
  moreover have "(if num = 0 then 1 else num) = ?n + word_of_nat (length (name # names))"
    using r(5) nx by simp
  moreover have "string_get_string ix t' ((sid # sids) ! i) = Ok ((name # names) ! i)"
    if "i < length (name # names)" for i
    using that r(6,7) t(4) by (cases i) auto
  ultimately show ?case
    using r(2-4,7,8) t(5,6) by (intro exI [of _ "sid # sids"] exI [of _ t'] exI [of _ num]) auto
qed

lemma layout_bound:
  "snd (layout off reqs) \<le> off + sum_list (map (\<lambda>(k, n). 2 ^ k + n) reqs)"
proof (induction off reqs rule: layout.induct)
  case (2 off k n reqs)
  have "align_up off (2 ^ k) \<le> off + 2 ^ k"
    using align_up_less [of "2 ^ k" off] by simp
  with 2 [OF refl] show ?case by (simp add: Let_def split_beta)
qed simp

definition align_exp :: "bool \<Rightarrow> nat" where
  "align_exp is_64 = (if is_64 then 3 else 2)"

lemma Class_align_exp: "Class_align is_64 = 2 ^ align_exp is_64"
  by (simp add: Class_align_def align_exp_def)

text \<open>
  What the reservation establishes: where everything is, and that the name of every section is in
  the string table at the offset of its id.
\<close>

definition name_at :: "'s writer \<Rightarrow> nat \<Rightarrow> bytes \<Rightarrow> bool" where
  "name_at self sid name \<longleftrightarrow>
    sid < length (tb_offsets (w_shstrtab self)) \<and> 0 \<notin> set name \<and>
    slice_at (w_shstrtab_data self) (tb_offsets (w_shstrtab self) ! sid) (Suc (length name)) = name @ [0]"

definition data_end :: "bool \<Rightarrow> section_spec list \<Rightarrow> nat" where
  "data_end is_64 specs = snd (layout (Class_file_header_size is_64) (requests (data_items specs)))"

definition data_offsets :: "bool \<Rightarrow> section_spec list \<Rightarrow> nat list" where
  "data_offsets is_64 specs = fst (layout (Class_file_header_size is_64) (requests (data_items specs)))"

definition reserved_object :: "endianness \<Rightarrow> bool \<Rightarrow> section_spec list \<Rightarrow> nat list \<Rightarrow> nat \<Rightarrow> 's writer \<Rightarrow> bool" where
  "reserved_object e is_64 specs sids sidx self \<longleftrightarrow>
    w_endian self = e \<and> w_is_64 self = is_64 \<and> w_elf_align self = Class_align is_64 \<and>
    w_bytes self = [] \<and>
    w_segment_num self = 0 \<and> w_segment_offset self = 0 \<and>
    w_section_num self = word_of_nat (length specs + 2) \<and>
    w_shstrtab_index self = word_of_nat (length specs + 1) \<and>
    w_shstrtab_str_id self = Some sidx \<and>
    w_shstrtab_offset self = data_end is_64 specs \<and>
    w_section_offset self =
      align_up (data_end is_64 specs + length (w_shstrtab_data self)) (Class_align is_64) \<and>
    w_len self = w_section_offset self + (length specs + 2) * Class_section_header_size is_64 \<and>
    w_len self < 2 ^ 32 \<and>
    length sids = length specs \<and>
    (\<forall>i < length specs. name_at self (sids ! i) (ss_name (specs ! i))) \<and>
    name_at self sidx (ascii ''.shstrtab'')"

lemma unat_u32: "n < 2 ^ 32 \<Longrightarrow> unat (word_of_nat n :: u32) = n"
  by (simp add: unat_of_nat)

lemma u32_nonzero: "0 < n \<Longrightarrow> n < 2 ^ 32 \<Longrightarrow> (word_of_nat n :: u32) \<noteq> 0"
  using unat_u32 [of n] by (cases "(word_of_nat n :: u32) = 0") simp_all

lemma spec_count: "specs_ok specs \<Longrightarrow> length specs + 2 < 2 ^ 26"
  by (simp add: specs_ok_def object_bound_def)

lemma data_end_bound:
  "data_end is_64 specs \<le>
    Class_file_header_size is_64 + sum_list (map (\<lambda>s. 2 ^ ss_align s + length (ss_data s)) specs)"
  using layout_bound [of "Class_file_header_size is_64" "requests (data_items specs)"]
  by (simp add: data_end_def data_items_def o_def)

lemma member_le_sum_list: "x \<in> set xs \<Longrightarrow> f x \<le> sum_list (map f xs)" for f :: "'a \<Rightarrow> nat"
  by (induction xs) auto

lemma small_data_layout:
  assumes "specs_ok specs"
  shows "small_layout (Class_file_header_size is_64) (requests (data_items specs))"
proof -
  have b: "data_end is_64 specs < 2 ^ 32"
    using data_end_bound [of is_64 specs] assms
    by (auto simp: specs_ok_def object_bound_def Class_file_header_size_def split: if_splits)
  have "2 ^ ss_align s \<le> usize_max div 2" if "s \<in> set specs" for s
  proof -
    have "2 ^ ss_align s + length (ss_data s) < 2 ^ 32"
      using member_le_sum_list [OF that, of "\<lambda>s. 2 ^ ss_align s + length (ss_data s)"] assms
      by (simp add: specs_ok_def object_bound_def)
    then show ?thesis by (simp add: usize_max_def)
  qed
  with b show ?thesis
    unfolding small_layout_def data_end_def [symmetric]
    by (auto simp: data_items_def usize_max_def)
qed

lemma ascii_shstrtab: "0 \<notin> set (ascii ''.shstrtab'')"
  by (simp add: ascii_def)

lemma names_unmerged:
  "string_get_string ix t i = Ok name \<Longrightarrow> index_set_laws ix elems \<Longrightarrow>
    i < length (elems (tb_strings t)) \<and> elems (tb_strings t) ! i = name"
  by (auto simp: string_get_string_def index_set_get res_simps)

lemma Writer_reserve_1:
  "w_len self + 1 + n \<le> usize_max \<Longrightarrow>
    Writer_reserve n 1 self = Ok (w_len self, self\<lparr>w_len := w_len self + n\<rparr>)"
  using Writer_reserve_ok [of self 0 n] by simp

lemma reserve_shstrtab_index_ok:
  assumes ix: "index_set_laws ix elems" and "table_ok elems (w_shstrtab self)"
    and "tb_offsets (w_shstrtab self) = []" "w_shstrtab_offset self = 0"
    and "w_shstrtab_index self = 0" "w_section_offset self = 0" "unat (next_index self) + 1 < 2 ^ 32"
  obtains sid t where "Writer_reserve_shstrtab_section_index ix self =
      Ok (next_index self, self\<lparr>w_shstrtab := t, w_shstrtab_str_id := Some sid,
        w_section_num := next_index self + 1, w_shstrtab_index := next_index self\<rparr>)"
    "table_ok elems t" "tb_offsets t = []" "string_get_string ix t sid = Ok (ascii ''.shstrtab'')"
    "\<forall>j s. string_get_string ix (w_shstrtab self) j = Ok s \<longrightarrow> string_get_string ix t j = Ok s"
    "set (elems (tb_strings t)) = insert (ascii ''.shstrtab'') (set (elems (tb_strings (w_shstrtab self))))"
proof -
  obtain sid t where t: "Writer_add_section_name ix (ascii ''.shstrtab'') self =
      Ok (sid, self\<lparr>w_shstrtab := t\<rparr>)"
    "table_ok elems t" "tb_offsets t = []" "string_get_string ix t sid = Ok (ascii ''.shstrtab'')"
    "\<forall>j s. string_get_string ix (w_shstrtab self) j = Ok s \<longrightarrow> string_get_string ix t j = Ok s"
    "set (elems (tb_strings t)) = insert (ascii ''.shstrtab'') (set (elems (tb_strings (w_shstrtab self))))"
    by (rule Writer_add_section_name_ok [OF ix assms(2,3) ascii_shstrtab assms(4)])
  let ?self = "self\<lparr>w_shstrtab := t, w_shstrtab_str_id := Some sid\<rparr>"
  have n: "next_index ?self = next_index self" by (simp add: next_index_def)
  have "Writer_reserve_section_index ?self =
      Ok (next_index self, ?self\<lparr>w_section_num := next_index self + 1\<rparr>)"
    using Writer_reserve_section_index_ok [of ?self] assms(6,7) by (simp add: n)
  then have "Writer_reserve_shstrtab_section_index ix self =
      Ok (next_index self, self\<lparr>w_shstrtab := t, w_shstrtab_str_id := Some sid,
        w_section_num := next_index self + 1, w_shstrtab_index := next_index self\<rparr>)"
    using assms(5) t(1)
    by (simp add: Writer_reserve_shstrtab_section_index_def
        Writer_reserve_shstrtab_section_index_with_name_def)
  then show thesis by (rule that [OF _ t(2-6)])
qed

lemma reserve_shstrtab_ok:
  assumes ix: "index_set_laws ix elems" and ok: "table_ok elems (w_shstrtab self)"
    and new: "tb_offsets (w_shstrtab self) = []" "w_shstrtab_offset self = 0"
    and num: "w_section_num self \<noteq> 0"
    and names: "set (elems (tb_strings (w_shstrtab self))) \<subseteq> set names"
    and fit: "w_len self + 2 + names_size names \<le> usize_max"
  obtains offsets data where "Writer_reserve_shstrtab ix self =
      Ok (self\<lparr>w_shstrtab := (w_shstrtab self)\<lparr>tb_offsets := offsets\<rparr>, w_shstrtab_data := data,
        w_len := w_len self + length data, w_shstrtab_offset := w_len self\<rparr>)"
    "length data \<le> 1 + names_size names"
    "length offsets = length (elems (tb_strings (w_shstrtab self)))"
    "\<forall>i < length offsets. slice_at data (offsets ! i)
       (Suc (length (elems (tb_strings (w_shstrtab self)) ! i))) =
       elems (tb_strings (w_shstrtab self)) ! i @ [0]"
proof -
  let ?t = "w_shstrtab self" and ?img = "table_image (written_strings ix elems (w_shstrtab self))"
  have len: "length ?img \<le> names_size names"
    using table_image_bound [OF ix ok names] by (simp add: names_size_def)
  have "length [0 :: u8] + length ?img \<le> usize_max" using len fit by simp
  then obtain offsets where o: "string_write ix 1 ?t [0] = Ok (?t\<lparr>tb_offsets := offsets\<rparr>, [0] @ ?img)"
    "length offsets = length (elems (tb_strings ?t))"
    "\<forall>i < length (elems (tb_strings ?t)). slice_at ([0] @ ?img) (offsets ! i)
       (Suc (length (elems (tb_strings ?t) ! i))) = elems (tb_strings ?t) ! i @ [0]"
    using string_write_ok [OF ix ok new(1), of "[0]" "[0]"] by auto
  let ?self = "self\<lparr>w_shstrtab := ?t\<lparr>tb_offsets := offsets\<rparr>, w_shstrtab_data := [0] @ ?img\<rparr>"
  have "w_len ?self + 1 + length ([0] @ ?img) \<le> usize_max" using len fit by simp
  from Writer_reserve_1 [OF this]
  have "Writer_reserve_shstrtab ix self = Ok (?self\<lparr>w_len := w_len self + length ([0] @ ?img),
      w_shstrtab_offset := w_len self\<rparr>)"
    using new(2) num o(1) by (simp add: Writer_reserve_shstrtab_def)
  then show thesis by (intro that [where offsets = offsets and data = "[0] @ ?img"]) (use o(2,3) len in simp_all)
qed

lemma reserve_object_ok:
  assumes ix: "index_set_laws ix elems" and specs: "specs_ok specs"
  obtains sids sidx self where
    "reserve_object ix e is_64 specs = Ok (sids, data_offsets is_64 specs, self)"
    "reserved_object e is_64 specs sids sidx self"
proof -
  let ?n = "length specs" and ?hs = "Class_file_header_size is_64" and ?names = "map ss_name specs"
  let ?all = "?names @ [ascii ''.shstrtab'']"
  have bound: "data_end is_64 specs + 1 + names_size ?all + 8 + (?n + 2) * 64 < 2 ^ 32"
    using data_end_bound [of is_64 specs] specs
    by (simp add: specs_ok_def object_bound_def Class_file_header_size_def split: if_splits)
  have nb: "?n + 2 < 2 ^ 26" using bound by simp
  define w0 where "w0 = Writer_new ix e is_64 Vec_new"
  define w1 where "w1 = w0\<lparr>w_len := ?hs\<rparr>"
  have hs: "?hs \<le> 64" by (simp add: Class_file_header_size_def)
  then have "Writer_reserve ?hs 1 w0 = Ok (w_len w0, w0\<lparr>w_len := w_len w0 + ?hs\<rparr>)"
    by (intro Writer_reserve_1) (simp add: w0_def Writer_new_def usize_max_def)
  then have s1: "Writer_reserve_file_header (Writer_new ix e is_64 Vec_new) = Ok w1"
    by (simp add: Writer_reserve_file_header_def w0_def w1_def Writer_new_def)
  have w1: "w_shstrtab w1 = string_table_default ix" "w_shstrtab_offset w1 = 0"
    "w_section_offset w1 = 0" "next_index w1 = 1" "w_len w1 = ?hs"
    by (simp_all add: w1_def w0_def Writer_new_def next_index_def)
  have "\<forall>name \<in> set ?names. 0 \<notin> set name" using specs by (simp add: specs_ok_def)
  moreover have "table_ok elems (w_shstrtab w1)"
    unfolding w1 by (rule table_ok_default [OF ix])
  moreover have "tb_offsets (w_shstrtab w1) = []"
    by (simp add: w1 string_table_default_def)
  ultimately obtain sids t num where r2: "reserve_sections ix ?names w1 =
        Ok (sids, w1\<lparr>w_section_num := num, w_shstrtab := t\<rparr>)"
      "table_ok elems t" "tb_offsets t = []" "length sids = length ?names"
      "(if num = 0 then 1 else num) = next_index w1 + word_of_nat (length ?names)"
      "\<forall>i < length ?names. string_get_string ix t (sids ! i) = Ok (?names ! i)"
      "set (elems (tb_strings t)) = set ?names \<union> set (elems (tb_strings (w_shstrtab w1)))"
    using reserve_sections_ok [OF ix, of w1 ?names] w1 nb by auto
  define w2 where "w2 = w1\<lparr>w_section_num := num, w_shstrtab := t\<rparr>"
  have n2: "next_index w2 = word_of_nat (?n + 1)"
  proof -
    have "next_index w2 = (if num = 0 then 1 else num)" by (simp add: next_index_def w2_def)
    then show ?thesis using r2(5) w1(4) by simp
  qed
  have u2: "unat (next_index w2) = ?n + 1"
    unfolding n2 by (rule unat_u32) (use nb in simp)
  have pre3: "table_ok elems (w_shstrtab w2)" "tb_offsets (w_shstrtab w2) = []" "w_shstrtab_offset w2 = 0"
    "w_shstrtab_index w2 = 0" "w_section_offset w2 = 0" "unat (next_index w2) + 1 < 2 ^ 32"
    using r2(2,3) u2 nb by (simp_all add: w2_def w1_def w0_def Writer_new_def)
  obtain sidx t3 where r3:
    "Writer_reserve_shstrtab_section_index ix w2 =
      Ok (next_index w2, w2\<lparr>w_shstrtab := t3, w_shstrtab_str_id := Some sidx,
        w_section_num := next_index w2 + 1, w_shstrtab_index := next_index w2\<rparr>)"
    "table_ok elems t3" "tb_offsets t3 = []" "string_get_string ix t3 sidx = Ok (ascii ''.shstrtab'')"
    "\<forall>j s. string_get_string ix (w_shstrtab w2) j = Ok s \<longrightarrow> string_get_string ix t3 j = Ok s"
    "set (elems (tb_strings t3)) = insert (ascii ''.shstrtab'') (set (elems (tb_strings (w_shstrtab w2))))"
    by (rule reserve_shstrtab_index_ok [OF ix pre3])
  define w3 where "w3 = w2\<lparr>w_shstrtab := t3, w_shstrtab_str_id := Some sidx,
        w_section_num := next_index w2 + 1, w_shstrtab_index := next_index w2\<rparr>"
  have l3: "w_len w3 = ?hs" by (simp add: w3_def w2_def w1)
  define w4 where "w4 = w3\<lparr>w_len := data_end is_64 specs\<rparr>"
  have r4: "reserve_all (requests (data_items specs)) w3 = Ok (data_offsets is_64 specs, w4)"
    using reserve_all_ok [of w3 "requests (data_items specs)"] small_data_layout [OF specs, of is_64]
    by (simp add: l3 w4_def data_offsets_def data_end_def)
  have num4: "w_section_num w4 = word_of_nat (?n + 2)"
    by (simp add: w4_def w3_def n2)
  have "unat (w_section_num w4) = ?n + 2"
    unfolding num4 by (rule unat_u32) (use nb in simp)
  then have nz4: "w_section_num w4 \<noteq> 0"
    by (cases "w_section_num w4 = 0") simp_all
  have tb4: "w_shstrtab w4 = t3" and so4: "w_shstrtab_offset w4 = 0"
    by (simp_all add: w4_def w3_def w2_def w1_def w0_def Writer_new_def)
  have names: "set (elems (tb_strings t3)) \<subseteq> set ?all"
    using r3(6) r2(7) by (auto simp: w2_def w1 string_table_default_def index_set_new [OF ix])
  have fit: "w_len w4 + 2 + names_size ?all \<le> usize_max"
    using bound by (simp add: w4_def usize_max_def)
  obtain offsets data where r5: "Writer_reserve_shstrtab ix w4 =
      Ok (w4\<lparr>w_shstrtab := t3\<lparr>tb_offsets := offsets\<rparr>, w_shstrtab_data := data,
        w_len := w_len w4 + length data, w_shstrtab_offset := w_len w4\<rparr>)"
    "length data \<le> 1 + names_size ?all" "length offsets = length (elems (tb_strings t3))"
    "\<forall>i < length offsets. slice_at data (offsets ! i) (Suc (length (elems (tb_strings t3) ! i))) =
       elems (tb_strings t3) ! i @ [0]"
    by (rule reserve_shstrtab_ok [OF ix, of w4 ?all, unfolded tb4, OF r3(2,3) so4 nz4 names fit])
  define w5 where "w5 = w4\<lparr>w_shstrtab := t3\<lparr>tb_offsets := offsets\<rparr>, w_shstrtab_data := data,
        w_len := w_len w4 + length data, w_shstrtab_offset := w_len w4\<rparr>"
  let ?so = "align_up (w_len w5) (Class_align is_64)" and ?shs = "Class_section_header_size is_64"
  have f5: "w_section_num w5 = word_of_nat (?n + 2)" "w_section_offset w5 = 0" "w_is_64 w5 = is_64"
    "w_elf_align w5 = 2 ^ align_exp is_64" "w_len w5 = data_end is_64 specs + length data"
    by (simp add: w5_def num4)
      (simp_all add: w5_def w4_def w3_def w2_def w1_def w0_def Writer_new_def Class_align_def align_exp_def)
  have sn5: "unat (w_section_num w5) = ?n + 2"
    unfolding f5 by (rule unat_u32) (use nb in simp)
  have shs: "?shs \<le> 64" by (simp add: Class_section_header_size_def)
  have tot: "w_len w5 + 8 + (?n + 2) * ?shs < 2 ^ 32"
    using r5(2) bound mult_le_mono2 [OF shs, of "?n + 2"] unfolding f5 by linarith
  have al: "(2 :: nat) ^ align_exp is_64 \<le> 8" by (simp add: align_exp_def)
  define w6 where "w6 = w5\<lparr>w_len := ?so + (?n + 2) * ?shs, w_section_offset := ?so\<rparr>"
  have "Writer_reserve ((?n + 2) * ?shs) (2 ^ align_exp is_64) w5 =
      Ok (?so, w5\<lparr>w_len := ?so + (?n + 2) * ?shs\<rparr>)"
    unfolding Class_align_exp by (rule Writer_reserve_ok) (use tot al in \<open>simp add: usize_max_def\<close>)
  then have s6: "Writer_reserve_section_headers w5 = Ok w6"
    using tot nz4 f5 sn5
    by (simp add: Writer_reserve_section_headers_def usize_mul_def usize_max_def w6_def w5_def)
  have so: "?so < w_len w5 + 8"
    using align_up_less [of "2 ^ align_exp is_64" "w_len w5"] al unfolding Class_align_exp by simp
  have run: "reserve_object ix e is_64 specs = Ok (sids, data_offsets is_64 specs, w6)"
    using s1 r2(1) r3(1) r4 r5(1) s6
    by (simp add: reserve_object_def w2_def [symmetric] w3_def [symmetric] w5_def [symmetric])
  have named: "name_at w6 i name" if "string_get_string ix t3 i = Ok name" "0 \<notin> set name" for i name
    using names_unmerged [OF that(1) ix] r5(3,4) that(2)
    by (auto simp: name_at_def w6_def w5_def)
  have "name_at w6 (sids ! i) (ss_name (specs ! i))" if "i < ?n" for i
    using that r2(6) r3(5) specs by (intro named) (simp_all add: w2_def specs_ok_def)
  moreover have "w_section_num w6 = word_of_nat (?n + 2)" "w_section_offset w6 = ?so"
    "w_len w6 = ?so + (?n + 2) * ?shs" "w_len w6 < 2 ^ 32"
    using f5(1) so tot by (simp_all add: w6_def)
  moreover have "w_shstrtab_index w6 = word_of_nat (?n + 1)" "w_shstrtab_str_id w6 = Some sidx"
    by (simp_all add: w6_def w5_def w4_def w3_def n2)
  moreover have "w_endian w6 = e" "w_is_64 w6 = is_64" "w_elf_align w6 = Class_align is_64"
    "w_bytes w6 = []" "w_segment_num w6 = 0" "w_segment_offset w6 = 0"
    "w_shstrtab_offset w6 = data_end is_64 specs" "w_shstrtab_data w6 = data"
    by (simp_all add: w6_def w5_def w4_def w3_def w2_def w1_def w0_def Writer_new_def w_bytes_def
        align_exp_def Class_align_def Vec_new_def)
  ultimately have "reserved_object e is_64 specs sids sidx w6"
    using named [OF r3(4) ascii_shstrtab] r2(4) f5(5)
    unfolding reserved_object_def by simp
  then show thesis by (rule that [OF run])
qed

section \<open>The bytes of the file\<close>

lemma put_fields [simp]:
  "w_endian (put v self) = w_endian self" "w_is_64 (put v self) = w_is_64 self"
  "w_elf_align (put v self) = w_elf_align self" "w_section_num (put v self) = w_section_num self"
  "w_section_offset (put v self) = w_section_offset self" "w_shstrtab (put v self) = w_shstrtab self"
  "w_shstrtab_index (put v self) = w_shstrtab_index self"
  "w_shstrtab_str_id (put v self) = w_shstrtab_str_id self"
  "w_shstrtab_offset (put v self) = w_shstrtab_offset self"
  "w_shstrtab_data (put v self) = w_shstrtab_data self"
  by (simp_all add: put_def)

definition null_header :: "'s writer \<Rightarrow> u64 section_header" where
  "null_header self = section_header_of
    \<lparr>sec_name = None, sec_type = 0, sec_flags = 0, sec_addr = 0, sec_offset = 0,
     sec_size = (if w_section_num self \<ge> ucast SHN_LORESERVE then ucast (w_section_num self) else 0),
     sec_link = (if w_shstrtab_index self \<ge> ucast SHN_LORESERVE then w_shstrtab_index self else 0),
     sec_info = 0, sec_addralign = 0, sec_entsize = 0\<rparr> 0"

definition written_header :: "'s writer \<Rightarrow> nat \<Rightarrow> nat \<Rightarrow> section_spec \<Rightarrow> u64 section_header" where
  "written_header self sid off s =
    section_header_of (spec_header sid off s) (word_of_nat (tb_offsets (w_shstrtab self) ! sid))"

definition names_header :: "'s writer \<Rightarrow> nat \<Rightarrow> u64 section_header" where
  "names_header self sidx = section_header_of
    \<lparr>sec_name = Some sidx, sec_type = SHT_STRTAB, sec_flags = 0, sec_addr = 0,
     sec_offset = word_of_nat (w_shstrtab_offset self),
     sec_size = word_of_nat (length (w_shstrtab_data self)), sec_link = 0, sec_info = 0,
     sec_addralign = 1, sec_entsize = 0\<rparr> (word_of_nat (tb_offsets (w_shstrtab self) ! sidx))"

definition object_headers :: "'s writer \<Rightarrow> nat list \<Rightarrow> nat \<Rightarrow> nat list \<Rightarrow> section_spec list \<Rightarrow>
    u64 section_header list" where
  "object_headers self sids sidx offs specs =
    null_header self # map (\<lambda>(sid, off, s). written_header self sid off s) (zip sids (zip offs specs))
    @ [names_header self sidx]"

definition object_bytes :: "FileHeader \<Rightarrow> 's writer \<Rightarrow> nat list \<Rightarrow> nat \<Rightarrow> nat list \<Rightarrow> section_spec list \<Rightarrow>
    bytes" where
  "object_bytes header self sids sidx offs specs =
    (let is_64 = w_is_64 self; e = w_endian self;
         body = emitted_file (file_header_image is_64 e (derived_file_header header self)) (data_items specs)
           @ w_shstrtab_data self
     in body @ pad_to (2 ^ align_exp is_64) body
        @ concat (map (section_header_image is_64 e) (object_headers self sids sidx offs specs)))"

lemma Writer_write_section_header_ok:
  assumes "sec_name sect = Some sid" "sid < length (tb_offsets (w_shstrtab self))"
    and "length (w_bytes self) + Class_section_header_size (w_is_64 self) \<le> w_capacity self"
  shows "Writer_write_section_header sect self =
    Ok (put (section_header_image (w_is_64 self) (w_endian self)
      (section_header_of sect (word_of_nat (tb_offsets (w_shstrtab self) ! sid)))) self)"
proof -
  let ?s = "section_header_of sect (word_of_nat (tb_offsets (w_shstrtab self) ! sid))"
  have "buffer_write (section_header_image (w_is_64 self) (w_endian self) ?s) self =
      Ok (put (section_header_image (w_is_64 self) (w_endian self) ?s) self)"
    using assms(3) by (intro buffer_write_ok) (simp add: len_simps)
  moreover have "string_get_offset (w_shstrtab self) sid = Ok (tb_offsets (w_shstrtab self) ! sid)"
    using assms(2) by (auto simp: string_get_offset_def res_simps get_opt_def)
  ultimately show ?thesis
    using assms(1) by (simp add: Writer_write_section_header_def section_header_image_def split: if_splits)
qed

lemma write_headers_ok:
  "(\<forall>(sid, off, s) \<in> set xs. sid < length (tb_offsets (w_shstrtab self))) \<Longrightarrow>
    length (w_bytes self) + length xs * Class_section_header_size (w_is_64 self) \<le> w_capacity self \<Longrightarrow>
    write_headers xs self = Ok (put (concat (map (section_header_image (w_is_64 self) (w_endian self))
      (map (\<lambda>(sid, off, s). written_header self sid off s) xs))) self)"
proof (induction xs arbitrary: self)
  case (Cons x xs)
  obtain sid off s where x: "x = (sid, off, s)" by (metis prod_cases3)
  have "Writer_write_section_header (spec_header sid off s) self =
      Ok (put (section_header_image (w_is_64 self) (w_endian self) (written_header self sid off s)) self)"
    using Cons.prems unfolding written_header_def
    by (intro Writer_write_section_header_ok) (auto simp: x spec_header_def)
  then show ?case
    using Cons.IH [of "put (section_header_image (w_is_64 self) (w_endian self)
        (written_header self sid off s)) self"] Cons.prems
    by (simp add: x len_simps written_header_def split_beta)
qed simp

lemma derived_other:
  "derived_file_header header (self\<lparr>w_is_mips64el := m, w_buffer := b\<rparr>) = derived_file_header header self"
  by (simp add: derived_file_header_def)

lemma ident_ok_derived: "ident_ok (e_ident (derived_file_header header self))"
  by (simp add: derived_file_header_def ident_ok_def)

lemma Writer_write_file_header_ok:
  assumes "w_bytes self = []" "Class_file_header_size (w_is_64 self) \<le> w_len self"
  obtains m c where "Writer_write_file_header header self =
      Ok (put (file_header_image (w_is_64 self) (w_endian self) (derived_file_header header self))
        (self\<lparr>w_is_mips64el := m, w_buffer := \<lparr>vb_bytes = [], vb_capacity = c\<rparr>\<rparr>))"
    "w_len self \<le> c"
proof -
  let ?m = "w_is_64 self \<and> is_little_endian is_big_endian (w_endian self) \<and> fh_e_machine header = EM_MIPS"
  let ?c = "max (w_capacity self) (w_len self)"
  let ?self = "self\<lparr>w_is_mips64el := ?m, w_buffer := \<lparr>vb_bytes = [], vb_capacity = ?c\<rparr>\<rparr>"
  have "length (file_header_image (w_is_64 self) (w_endian self) (derived_file_header header self)) =
      Class_file_header_size (w_is_64 self)" by (rule length_images) (rule ident_ok_derived)
  then have "buffer_write (file_header_image (w_is_64 self) (w_endian self)
        (derived_file_header header self)) ?self =
      Ok (put (file_header_image (w_is_64 self) (w_endian self) (derived_file_header header self)) ?self)"
    using assms(2) by (intro buffer_write_ok) (simp add: w_bytes_def w_capacity_def)
  moreover have "w_buffer self = \<lparr>vb_bytes = [], vb_capacity = w_capacity self\<rparr>"
    using assms(1) by (simp add: w_bytes_def w_capacity_def)
  ultimately have "Writer_write_file_header header self =
      Ok (put (file_header_image (w_is_64 self) (w_endian self) (derived_file_header header self)) ?self)"
    by (simp add: Writer_write_file_header_def Let_def derived_other file_header_image_def Vec_reserve_def
        Writer_len_eq w_bytes_def res_simps split: if_splits)
  then show thesis by (rule that) simp
qed

lemma zip_fst_bound:
  "(\<forall>sid \<in> set sids. P sid) \<Longrightarrow> \<forall>(sid, off, s) \<in> set (zip sids (zip offs specs)). P sid"
  by (auto dest: set_zip_leftD)

lemma write_object_ok:
  assumes self: "reserved_object e is_64 specs sids sidx self" and specs: "specs_ok specs"
  obtains self' where
    "write_object header sids (data_offsets is_64 specs) specs self = Ok self'"
    "w_bytes self' = object_bytes header self sids sidx (data_offsets is_64 specs) specs"
    "length (w_bytes self') = w_len self"
proof -
  let ?n = "length specs" and ?shs = "Class_section_header_size is_64"
  let ?offs = "data_offsets is_64 specs" and ?items = "data_items specs"
  let ?h = "file_header_image is_64 e (derived_file_header header self)"
  let ?image = "section_header_image is_64 e"
  have s: "w_endian self = e" "w_is_64 self = is_64" "w_elf_align self = 2 ^ align_exp is_64"
    "w_bytes self = []" "w_section_num self = word_of_nat (?n + 2)"
    "w_shstrtab_index self = word_of_nat (?n + 1)" "w_shstrtab_str_id self = Some sidx"
    "w_shstrtab_offset self = data_end is_64 specs"
    "w_section_offset self = align_up (data_end is_64 specs + length (w_shstrtab_data self)) (2 ^ align_exp is_64)"
    "w_len self = w_section_offset self + (?n + 2) * ?shs" "w_len self < 2 ^ 32" "length sids = ?n"
    using self by (simp_all add: reserved_object_def Class_align_exp)
  have sids: "\<forall>sid \<in> set sids. sid < length (tb_offsets (w_shstrtab self))"
    "sidx < length (tb_offsets (w_shstrtab self))"
    using self by (auto simp: reserved_object_def name_at_def in_set_conv_nth)
  have lh: "length ?h = Class_file_header_size is_64"
    by (rule length_images) (rule ident_ok_derived)
  have end1: "Class_file_header_size is_64 \<le> data_end is_64 specs"
    unfolding data_end_def by (rule layout_mono)
  have end2: "data_end is_64 specs + length (w_shstrtab_data self) \<le> w_section_offset self"
    unfolding s(9) by (rule align_up_ge) simp
  have "Class_file_header_size (w_is_64 self) \<le> w_len self"
    unfolding s(2,10) using end1 end2 by linarith
  then obtain m c where r1: "Writer_write_file_header header self =
      Ok (put (file_header_image (w_is_64 self) (w_endian self) (derived_file_header header self))
        (self\<lparr>w_is_mips64el := m, w_buffer := \<lparr>vb_bytes = [], vb_capacity = c\<rparr>\<rparr>))" and c: "w_len self \<le> c"
    by (rule Writer_write_file_header_ok [OF s(4)])
  define w0 where "w0 = self\<lparr>w_is_mips64el := m, w_buffer := \<lparr>vb_bytes = [], vb_capacity = c\<rparr>\<rparr>"
  have w0: "w_bytes w0 = []" "w_capacity w0 = c" "w_endian w0 = e" "w_is_64 w0 = is_64"
    "w_elf_align w0 = 2 ^ align_exp is_64" "w_section_num w0 = w_section_num self"
    "w_shstrtab_index w0 = w_shstrtab_index self" "w_shstrtab_str_id w0 = Some sidx"
    "w_shstrtab_offset w0 = data_end is_64 specs" "w_section_offset w0 = w_section_offset self"
    "w_shstrtab w0 = w_shstrtab self" "w_shstrtab_data w0 = w_shstrtab_data self"
    using s by (simp_all add: w0_def w_bytes_def w_capacity_def)
  have small: "small_layout (length (w_bytes (put ?h w0))) (requests ?items)"
    using small_data_layout [OF specs, of is_64] by (simp add: w0 lh)
  have "snd (layout (length (w_bytes (put ?h w0))) (requests ?items)) \<le> w_capacity (put ?h w0)"
    using end2 c s(10) by (simp add: w0 lh data_end_def)
  with write_all_data_ok [OF small] obtain d where
    r2: "write_all_data ?items (put ?h w0) = Ok (put (?h @ d) w0)" and d: "?h @ d = emitted_file ?h ?items"
    by (auto simp: w0)
  define F1 where "F1 = ?h @ d"
  have l1: "length F1 = data_end is_64 specs"
    by (simp add: F1_def d length_emitted_file lh data_end_def)
  define F2 where "F2 = F1 @ w_shstrtab_data self"
  have l2: "length F2 = data_end is_64 specs + length (w_shstrtab_data self)"
    by (simp add: F2_def l1)
  have nz: "data_end is_64 specs \<noteq> 0"
    using end1 by (auto simp: Class_file_header_size_def split: if_splits)
  have "Writer_write (w_shstrtab_data self) (put F1 w0) = Ok (put (w_shstrtab_data self) (put F1 w0))"
    using end2 c s(10) by (intro Writer_write_ok) (simp add: w0 l1)
  then have r3: "Writer_write_shstrtab (put F1 w0) = Ok (put F2 w0)"
    using nz by (simp add: Writer_write_shstrtab_def Writer_len_eq w0 l1 F2_def)
  define F3 where "F3 = F2 @ pad_to (2 ^ align_exp is_64) F2"
  have l3: "length F3 = w_section_offset self"
    unfolding F3_def length_padded l2 s(9) ..
  have al: "(2 :: nat) ^ align_exp is_64 \<le> 8" by (simp add: align_exp_def)
  have "buffer_align (2 ^ align_exp is_64) (put F2 w0) =
      Ok (put (pad_to (2 ^ align_exp is_64) (w_bytes (put F2 w0))) (put F2 w0))"
    using c s(9,10,11) end2 al by (intro buffer_align_ok) (simp_all add: w0 l2 usize_max_def)
  then have a3: "buffer_align (2 ^ align_exp is_64) (put F2 w0) = Ok (put F3 w0)"
    by (simp add: w0 F3_def)
  have null: "Writer_write_section_header
       \<lparr>sec_name = None, sec_type = 0, sec_flags = 0, sec_addr = 0, sec_offset = 0,
        sec_size = (if w_section_num self \<ge> ucast SHN_LORESERVE then ucast (w_section_num self) else 0),
        sec_link = (if w_shstrtab_index self \<ge> ucast SHN_LORESERVE then w_shstrtab_index self else 0),
        sec_info = 0, sec_addralign = 0, sec_entsize = 0\<rparr> (put F3 w0) =
      Ok (put (?image (null_header self)) (put F3 w0))"
  proof -
    have "buffer_write (?image (null_header self)) (put F3 w0) = Ok (put (?image (null_header self)) (put F3 w0))"
      using c s(10) by (intro buffer_write_ok) (simp add: w0 l3 len_simps)
    then show ?thesis
      by (simp add: Writer_write_section_header_def section_header_image_def null_header_def w0
          split: if_splits)
  qed
  have nz5: "w_section_num self \<noteq> 0" and nz6: "w_shstrtab_index self \<noteq> 0"
    unfolding s(5,6) by (rule u32_nonzero; use spec_count [OF specs] in simp)+
  define F4 where "F4 = F3 @ ?image (null_header self)"
  have r4: "Writer_write_null_section_header (put F2 w0) = Ok (put F4 w0)"
    using null nz5 a3 l3
    by (simp add: Writer_write_null_section_header_def Writer_len_eq w0 F4_def split del: if_split cong: if_cong)
  have l4: "length F4 = w_section_offset self + ?shs"
    by (simp add: F4_def l3 len_simps)
  let ?xs = "zip sids (zip ?offs specs)"
  have lxs: "length ?xs = ?n" using s(12) by (simp add: data_offsets_def data_items_def)
  define F5 where "F5 = F4 @ concat (map ?image (map (\<lambda>(sid, off, s). written_header self sid off s) ?xs))"
  have wh: "written_header (put F4 w0) = written_header self"
    by (intro ext) (simp add: written_header_def w0)
  have pre: "\<forall>(sid, off, s) \<in> set ?xs. sid < length (tb_offsets (w_shstrtab (put F4 w0)))"
    unfolding put_fields w0(11) by (rule zip_fst_bound [OF sids(1)])
  have cap: "length (w_bytes (put F4 w0)) + length ?xs * Class_section_header_size (w_is_64 (put F4 w0))
      \<le> w_capacity (put F4 w0)"
    unfolding lxs using c s(10) by (simp add: w0 l4)
  have r5: "write_headers ?xs (put F4 w0) = Ok (put F5 w0)"
    using write_headers_ok [OF pre cap] by (simp add: w0 wh F5_def)
  have l5: "length F5 = w_section_offset self + (?n + 1) * ?shs"
    using lxs by (simp add: F5_def l4 length_concat o_def len_simps sum_list_triv split_beta)
  define F6 where "F6 = F5 @ ?image (names_header self sidx)"
  have r6: "Writer_write_shstrtab_section_header (put F5 w0) = Ok (put F6 w0)"
    using Writer_write_section_header_ok [of "\<lparr>sec_name = Some sidx, sec_type = SHT_STRTAB, sec_flags = 0,
        sec_addr = 0, sec_offset = word_of_nat (w_shstrtab_offset self),
        sec_size = word_of_nat (length (w_shstrtab_data self)), sec_link = 0, sec_info = 0,
        sec_addralign = 1, sec_entsize = 0\<rparr>" sidx "put F5 w0"] sids(2) c s(8,10) nz6
    by (simp add: w0 l5 Writer_write_shstrtab_section_header_def names_header_def F6_def)
  have l6: "length F6 = w_len self"
    by (simp add: F6_def l5 s(10) len_simps)
  have "write_object header sids ?offs specs self = Ok (put F6 w0)"
    using r1 r2 r3 r4 r5 r6
    by (simp add: write_object_def w0_def [symmetric] s(1,2) F1_def [symmetric])
  moreover have "F6 = object_bytes header self sids sidx ?offs specs"
    by (simp add: object_bytes_def Let_def s(1,2) object_headers_def F6_def F5_def F4_def F3_def F2_def F1_def d)
  ultimately show thesis
    using l6 by (intro that [of "put F6 w0"]) (simp_all add: w0)
qed

section \<open>Reading the file\<close>

text \<open>
  What the reader finds for section \<open>Suc i\<close> of a file (section 0 is the null section): its name, its
  data unless it is \<^verbatim>\<open>SHT_NOBITS\<close>, and the fields of its header.
\<close>

definition section_reads_back :: "(u8 \<Rightarrow> bytes \<Rightarrow> nat option) \<Rightarrow> 'w::len word elf_types \<Rightarrow> endianness \<Rightarrow>
    bytes \<Rightarrow> section_table \<Rightarrow> nat \<Rightarrow> section_spec \<Rightarrow> bool" where
  "section_reads_back memchr C e data table i s \<longleftrightarrow>
    (case SectionTable_section table (Suc i) of
       Ok sect \<Rightarrow>
         SectionTable_section_name memchr C table e sect = Ok (ss_name s) \<and>
         (if ss_type s = SHT_NOBITS then section_data C sect e data = Ok []
          else section_data C sect e data = Ok (ss_data s)) \<and>
         sh_type (section_at C e sect) = ss_type s \<and>
         sh_flags (section_at C e sect) = ucast (ss_flags s) \<and>
         sh_addr (section_at C e sect) = ucast (ss_addr s) \<and>
         sh_link (section_at C e sect) = ss_link s \<and>
         sh_info (section_at C e sect) = ss_info s \<and>
         sh_entsize (section_at C e sect) = ucast (ss_entsize s)
     | _ \<Rightarrow> False)"

definition header_reads_back :: "'w::len word elf_types \<Rightarrow> endianness \<Rightarrow> bytes \<Rightarrow> FileHeader \<Rightarrow> bool" where
  "header_reads_back C e self header \<longleftrightarrow>
    header_endian self = Ok e \<and>
    os_abi (ident_of self) = fh_os_abi header \<and>
    abi_version (ident_of self) = fh_abi_version header \<and>
    e_type (header_at C e self) = fh_e_type header \<and>
    e_machine (header_at C e self) = fh_e_machine header \<and>
    e_entry (header_at C e self) = ucast (fh_e_entry header) \<and>
    e_flags (header_at C e self) = fh_e_flags header"

definition file_reads_back :: "(u8 \<Rightarrow> bytes \<Rightarrow> nat option) \<Rightarrow> 'w::len word elf_types \<Rightarrow> endianness \<Rightarrow>
    bytes \<Rightarrow> FileHeader \<Rightarrow> section_spec list \<Rightarrow> bool" where
  "file_reads_back memchr C e data fh specs \<longleftrightarrow>
    (case FileHeader_parse C data of
       Ok header \<Rightarrow>
         header_reads_back C e header fh \<and>
         (case sections C header e data of
            Ok table \<Rightarrow>
              length (stab_sections table) = length specs + 2 \<and>
              (\<forall>i < length specs. section_reads_back memchr C e data table i (specs ! i))
          | _ \<Rightarrow> False)
     | _ \<Rightarrow> False)"

lemma slice_at_append: "slice_at (xs @ ys) (length xs + k) n = slice_at ys k n"
  by (simp add: slice_at_def)

lemma data_offset_fits:
  assumes "i < length specs"
  shows "data_offsets is_64 specs ! i + length (ss_data (specs ! i)) \<le> data_end is_64 specs"
  using layout_offset_fits [of i "requests (data_items specs)" "Class_file_header_size is_64"] assms
  by (simp add: data_offsets_def data_end_def data_items_def)

context elf_class begin

lemma small_round_trip: "n < 2 ^ 32 \<Longrightarrow> ucast (ucast (word_of_nat n :: u64) :: 'w word) = (word_of_nat n :: u64)"
proof (rule word_round_trip)
  assume n: "n < 2 ^ 32"
  have "(2 :: nat) ^ 32 \<le> 2 ^ LENGTH('w)" using width(1) by (rule power_increasing) simp
  with n show "unat (word_of_nat n :: u64) < 2 ^ LENGTH('w)" by (simp add: unat_of_nat)
qed

text \<open>The parts of the bytes of a file.\<close>

lemma object_parts:
  assumes self: "reserved_object e (is_type_64 C) specs sids sidx self"
    and F: "F = object_bytes header self sids sidx (data_offsets (is_type_64 C) specs) specs"
    and len: "length F = w_len self"
  shows "take (file_header_size C) F = hdr e (derived_file_header header self)"
    and "slice_at F (w_section_offset self) ((length specs + 2) * section_header_size C) =
      concat (map (shdr e) (object_headers self sids sidx (data_offsets (is_type_64 C) specs) specs))"
    and "slice_at F (w_section_offset self) (section_header_size C) = shdr e (null_header self)"
    and "slice_at F (w_shstrtab_offset self) (length (w_shstrtab_data self)) = w_shstrtab_data self"
    and "i < length specs \<Longrightarrow> slice_at F (data_offsets (is_type_64 C) specs ! i)
      (length (ss_data (specs ! i))) = ss_data (specs ! i)"
proof -
  let ?is_64 = "is_type_64 C" and ?n = "length specs" and ?sz = "section_header_size C"
  let ?offs = "data_offsets ?is_64 specs" and ?items = "data_items specs"
  let ?h = "hdr e (derived_file_header header self)"
  let ?hs = "map (shdr e) (object_headers self sids sidx ?offs specs)"
  define E where "E = emitted_file ?h ?items"
  define B where "B = E @ w_shstrtab_data self"
  define P where "P = B @ pad_to (2 ^ align_exp ?is_64) B"
  have s: "w_endian self = e" "w_is_64 self = ?is_64" "length sids = ?n"
    "w_shstrtab_offset self = data_end ?is_64 specs"
    "w_section_offset self =
      align_up (data_end ?is_64 specs + length (w_shstrtab_data self)) (2 ^ align_exp ?is_64)"
    "w_len self = w_section_offset self + (?n + 2) * ?sz"
    using self by (simp_all add: reserved_object_def Class_align_exp sizes)
  have F2: "F = P @ concat ?hs"
    by (simp add: F object_bytes_def Let_def s(1,2) P_def B_def E_def)
  have lh: "length ?h = file_header_size C"
    unfolding sizes by (rule length_images) (rule ident_ok_derived)
  have lE: "length E = data_end ?is_64 specs"
    unfolding E_def length_emitted_file lh data_end_def sizes ..
  have lP: "length P = w_section_offset self"
    unfolding P_def length_padded s(5) by (simp add: B_def lE)
  have "length (concat ?hs) = (?n + 2) * ?sz"
    using len F2 lP s(6) by simp
  then show "slice_at F (w_section_offset self) ((?n + 2) * ?sz) = concat ?hs"
    using slice_at_append [of P "concat ?hs" 0] by (simp add: F2 lP [symmetric] slice_at_def)
  have "slice_at F (w_section_offset self) ?sz = slice_at (concat ?hs) 0 ?sz"
    using slice_at_append [of P "concat ?hs" 0 ?sz] by (simp add: F2 lP)
  then show "slice_at F (w_section_offset self) ?sz = shdr e (null_header self)"
    by (simp add: object_headers_def slice_at_def sizes len_simps)
  have pre: "take (length ?h) E = ?h" unfolding E_def by (rule emitted_file_prefix)
  have "length ?h \<le> length E" using arg_cong [OF pre, of length] by simp
  with pre show "take (file_header_size C) F = ?h"
    by (simp add: F2 P_def B_def lh)
  show "slice_at F (w_shstrtab_offset self) (length (w_shstrtab_data self)) = w_shstrtab_data self"
    unfolding F2 P_def B_def by (simp add: s(4) lE [symmetric] slice_at_def)
  show "slice_at F (?offs ! i) (length (ss_data (specs ! i))) = ss_data (specs ! i)" if "i < ?n"
  proof -
    have "slice_at E (fst (layout (length ?h) (requests ?items)) ! i) (length (snd (?items ! i))) = snd (?items ! i)"
      unfolding E_def by (rule emitted_file_slices) (use that in \<open>simp add: data_items_def\<close>)
    then have sl: "slice_at E (?offs ! i) (length (ss_data (specs ! i))) = ss_data (specs ! i)"
      using that by (simp add: data_offsets_def lh sizes data_items_def)
    have "fst (layout (length ?h) (requests ?items)) ! i + snd (requests ?items ! i) \<le> length E"
      unfolding E_def length_emitted_file by (rule layout_offset_fits) (use that in \<open>simp add: data_items_def\<close>)
    then have "?offs ! i + length (ss_data (specs ! i)) \<le> length E"
      using that by (simp add: data_offsets_def lh sizes data_items_def)
    with sl show ?thesis
      unfolding F2 P_def B_def by (simp add: slice_at_append_left)
  qed
qed

lemma header_ok:
  assumes take: "take (file_header_size C) F = hdr e (derived_file_header header self)"
    and self: "w_is_64 self = is_type_64 C" "w_endian self = e"
  shows "FileHeader_parse C F = Ok (hdr e (derived_file_header header self))"
    "header_reads_back C e (hdr e (derived_file_header header self)) header"
proof -
  show "FileHeader_parse C F = Ok (hdr e (derived_file_header header self))"
    by (rule parse_ok [OF take ident_ok_derived]) (simp_all add: derived_file_header_def self)
  have "header_endian (hdr e (derived_file_header header self)) = Ok e"
    using ident_of_hdr [OF ident_ok_derived, of e header self]
    by (cases e) (simp_all add: header_endian_def header_is_big_endian_def derived_file_header_def self
        is_little_endian_def is_big_endian_def Endianness_from_big_endian_def)
  then show "header_reads_back C e (hdr e (derived_file_header header self)) header"
    using ident_of_hdr [OF ident_ok_derived, of e header self]
      header_at_hdr [OF ident_ok_derived, of e header self]
    by (simp add: header_reads_back_def derived_file_header_def convert_file_header_def)
qed

lemma object_sections:
  assumes self: "reserved_object e (is_type_64 C) specs sids sidx self" and specs: "specs_ok specs"
    and F: "F = object_bytes header self sids sidx (data_offsets (is_type_64 C) specs) specs"
    and len: "length F = w_len self"
  shows "sections C (hdr e (derived_file_header header self)) e F = Ok
    \<lparr>stab_sections = map (shdr e) (object_headers self sids sidx (data_offsets (is_type_64 C) specs) specs),
     stab_strings = StringTable_new F (word_of_nat (w_shstrtab_offset self))
       (word_of_nat (w_shstrtab_offset self + length (w_shstrtab_data self)))\<rparr>"
proof -
  let ?n = "length specs" and ?sz = "section_header_size C" and ?off = "w_section_offset self"
  let ?h = "derived_file_header header self" and ?start = "w_shstrtab_offset self"
  let ?hs = "object_headers self sids sidx (data_offsets (is_type_64 C) specs) specs"
  let ?size = "length (w_shstrtab_data self)"
  note parts = object_parts [OF self F len]
  have s: "w_endian self = e" "w_is_64 self = is_type_64 C" "length sids = ?n"
    "w_section_num self = word_of_nat (?n + 2)" "w_shstrtab_index self = word_of_nat (?n + 1)"
    "?start = data_end (is_type_64 C) specs"
    "?off = align_up (data_end (is_type_64 C) specs + ?size) (2 ^ align_exp (is_type_64 C))"
    "w_len self = ?off + (?n + 2) * ?sz" "w_len self < 2 ^ 32"
    using self by (simp_all add: reserved_object_def Class_align_exp sizes)
  have n: "?n + 2 < 2 ^ 26" by (rule spec_count [OF specs])
  have num: "unat (w_section_num self) = ?n + 2" "w_section_num self \<noteq> 0"
    unfolding s(4) by (rule unat_u32 u32_nonzero; use n in simp)+
  have idx: "unat (w_shstrtab_index self) = ?n + 1" "w_shstrtab_index self \<noteq> 0"
    unfolding s(5) by (rule unat_u32 u32_nonzero; use n in simp)+
  have "Class_file_header_size (is_type_64 C) \<le> data_end (is_type_64 C) specs"
    unfolding data_end_def by (rule layout_mono)
  moreover have fit: "?start + ?size \<le> ?off" unfolding s(6,7) by (rule align_up_ge) simp
  moreover have "0 < Class_file_header_size (is_type_64 C)" by (simp add: Class_file_header_size_def)
  ultimately have off0: "0 < ?off" using s(6) by linarith
  have off32: "?off < 2 ^ 32" using s(8,9) by linarith
  also have "(2 :: nat) ^ 32 \<le> 2 ^ LENGTH('w)" using width(1) by (rule power_increasing) simp
  finally have off: "0 < ?off" "?off < 2 ^ LENGTH('w)" using off0 by simp_all
  have s0: "section_0 C (hdr e ?h) e F = Ok (Some (shdr e (null_header self)))"
    using off num(2) parts(3) s(2)
    by (intro section_0_ok [OF ident_ok_derived]) (simp_all add: derived_file_header_def sizes)
  have cnt: "shnum C (hdr e ?h) e F = Ok (?n + 2)"
    unfolding num(1) [symmetric] using num(2) s0
    by (intro shnum_ok [OF ident_ok_derived, where s = "null_header self"])
      (simp_all add: derived_file_header_def null_header_def section_header_of_def)
  have ndx: "shstrndx C (hdr e ?h) e F = Ok (w_shstrtab_index self)"
    using idx(2) s0
    by (intro shstrndx_ok [OF ident_ok_derived, where s = "null_header self"])
      (simp_all add: derived_file_header_def null_header_def section_header_of_def)
  have lhs: "length ?hs = ?n + 2" by (simp add: object_headers_def s(3) data_offsets_def data_items_def)
  have "section_headers C (hdr e ?h) e F = Ok (chunks ?sz (?n + 2) (slice_at F ?off ((?n + 2) * ?sz)))"
    using off num(2) len s(2,8,9) cnt
    by (intro section_headers_ok [OF ident_ok_derived])
      (simp_all add: derived_file_header_def sizes usize_max_def)
  moreover have "chunks ?sz (?n + 2) (concat (map (shdr e) ?hs)) = map (shdr e) ?hs"
    using chunks_concat [of "map (shdr e) ?hs" ?sz "[]"] lhs by (simp add: len_simps sizes)
  ultimately have hs: "section_headers C (hdr e ?h) e F = Ok (map (shdr e) ?hs)"
    unfolding parts(2) by simp
  have nth: "?hs ! (?n + 1) = names_header self sidx"
    by (simp add: object_headers_def nth_append s(3) data_offsets_def data_items_def)
  have "file_range C (shdr e (names_header self sidx)) e = Some (word_of_nat ?start, word_of_nat ?size)"
    using fit off32
    by (simp add: file_range_def section_at_shdr names_header_def section_header_of_def
        convert_section_header_def small_round_trip)
  moreover have "word_checked_add (word_of_nat ?start :: u64) (word_of_nat ?size) =
      Some (word_of_nat (?start + ?size))"
    using fit off32 by (simp add: word_checked_add_def unat_of_nat)
  moreover have "get_opt (map (shdr e) ?hs) (?n + 1) = Some (shdr e (names_header self sidx))"
    using lhs nth by (simp add: get_opt_def)
  ultimately have "section_strings C (hdr e ?h) e F (map (shdr e) ?hs) =
      Ok (StringTable_new F (word_of_nat ?start) (word_of_nat (?start + ?size)))"
    using lhs by (simp add: section_strings_def section_strings_index_def ndx idx(1) object_headers_def)
  with hs show ?thesis by (simp add: sections_def)
qed

lemma object_reads_back:
  assumes mc: "memchr_spec mc" and specs: "specs_ok specs"
    and self: "reserved_object e (is_type_64 C) specs sids sidx self"
    and F: "F = object_bytes header self sids sidx (data_offsets (is_type_64 C) specs) specs"
    and len: "length F = w_len self"
  shows "file_reads_back mc C e F header specs"
proof -
  let ?n = "length specs" and ?offs = "data_offsets (is_type_64 C) specs"
  let ?h = "derived_file_header header self" and ?start = "w_shstrtab_offset self"
  let ?hs = "object_headers self sids sidx ?offs specs" and ?size = "length (w_shstrtab_data self)"
  let ?tab = "\<lparr>stab_sections = map (shdr e) ?hs, stab_strings = StringTable_new F (word_of_nat ?start)
     (word_of_nat (?start + ?size))\<rparr>"
  note parts = object_parts [OF self F len]
  have lhs: "length ?hs = ?n + 2" using self
    by (simp add: reserved_object_def object_headers_def data_offsets_def data_items_def)
  have small: "data_end (is_type_64 C) specs \<le> length F" "?start + ?size \<le> length F" "length F < 2 ^ 32"
  proof -
    have "?start = data_end (is_type_64 C) specs" "?start + ?size \<le> w_section_offset self"
      "w_section_offset self \<le> w_len self" "w_len self < 2 ^ 32"
      using self align_up_ge [of "Class_align (is_type_64 C)" "data_end (is_type_64 C) specs + ?size"]
      by (simp_all add: reserved_object_def Class_align_def)
    then show "data_end (is_type_64 C) specs \<le> length F" "?start + ?size \<le> length F" "length F < 2 ^ 32"
      unfolding len by linarith+
  qed
  have "section_reads_back mc C e F ?tab i (specs ! i)" if i: "i < ?n" for i
  proof -
    let ?s = "specs ! i" and ?w = "written_header self (sids ! i) (?offs ! i) (specs ! i)"
    have "?hs ! Suc i = ?w"
      using i self by (simp add: object_headers_def nth_append reserved_object_def data_offsets_def data_items_def)
    then have sect: "SectionTable_section ?tab (Suc i) = Ok (shdr e ?w)"
      using lhs i by (simp add: SectionTable_section_def get_opt_def)
    have at: "section_at C e (shdr e ?w) = convert_section_header ?w" by (rule section_at_shdr)
    have w: "sh_name ?w = word_of_nat (tb_offsets (w_shstrtab self) ! (sids ! i))" "sh_type ?w = ss_type ?s"
      "sh_flags ?w = ss_flags ?s" "sh_addr ?w = ss_addr ?s" "sh_link ?w = ss_link ?s"
      "sh_info ?w = ss_info ?s" "sh_entsize ?w = ss_entsize ?s" "sh_offset ?w = word_of_nat (?offs ! i)"
      "sh_size ?w = word_of_nat (length (ss_data ?s))"
      by (simp_all add: written_header_def spec_header_def section_header_of_def)
    have nm: "slice_at (w_shstrtab_data self) (tb_offsets (w_shstrtab self) ! (sids ! i))
        (Suc (length (ss_name ?s))) = ss_name ?s @ [0]" "0 \<notin> set (ss_name ?s)"
      using self i by (simp_all add: reserved_object_def name_at_def)
    have "StringTable_get mc (StringTable_new F (word_of_nat ?start) (word_of_nat (?start + ?size)))
        (word_of_nat (tb_offsets (w_shstrtab self) ! (sids ! i))) = Ok (ss_name ?s)"
      using small by (intro StringTable_get_written [OF mc nm(2,1) parts(4)]) (simp_all add: usize_max_def)
    then have name: "SectionTable_section_name mc C ?tab e (shdr e ?w) = Ok (ss_name ?s)"
      by (simp add: SectionTable_section_name_def section_header_name_def at convert_section_header_def w)
    have fits: "?offs ! i + length (ss_data ?s) \<le> length F" "length F < 2 ^ 32"
      using data_offset_fits [OF i, of "is_type_64 C"] small by simp_all
    then have "read_bytes_at F (word_of_nat (?offs ! i)) (word_of_nat (length (ss_data ?s))) =
        Ok (slice_at F (?offs ! i) (length (ss_data ?s)))"
      using read_bytes_at_ok [of "word_of_nat (?offs ! i)" "word_of_nat (length (ss_data ?s))" F]
      by (simp add: unat_word_of_nat_u64 usize_max_def)
    then have "section_data C (shdr e ?w) e F =
        (if ss_type ?s = SHT_NOBITS then Ok [] else Ok (ss_data ?s))"
      using parts(5) [OF i] fits
      by (simp add: section_data_def file_range_def at convert_section_header_def w small_round_trip)
    with sect name show ?thesis
      by (simp add: section_reads_back_def at convert_section_header_def w)
  qed
  then show ?thesis
    using header_ok [OF parts(1)] object_sections [OF self specs F len] self lhs
    by (simp add: file_reads_back_def reserved_object_def)
qed

lemma file_ok:
  assumes ix: "index_set_laws ix elems" and mc: "memchr_spec mc" and specs: "specs_ok specs"
  obtains data where "write_file ix e (is_type_64 C) header specs = Ok data"
    "file_reads_back mc C e data header specs"
proof -
  let ?n = "length specs" and ?is_64 = "is_type_64 C" and ?sz = "section_header_size C"
  let ?offs = "data_offsets ?is_64 specs" and ?items = "data_items specs"
  obtain sids sidx self where run: "reserve_object ix e ?is_64 specs = Ok (sids, ?offs, self)"
    and self: "reserved_object e ?is_64 specs sids sidx self"
    by (rule reserve_object_ok [OF ix specs])
  obtain self' where wr: "write_object header sids ?offs specs self = Ok self'"
    and bytes: "w_bytes self' = object_bytes header self sids sidx ?offs specs"
    and len: "length (w_bytes self') = w_len self"
    by (rule write_object_ok [OF self specs])
  define F where "F = w_bytes self'"
  have "write_file ix e ?is_64 header specs = Ok F"
    using run wr by (simp add: write_file_def F_def)
  moreover have "file_reads_back mc C e F header specs"
    by (rule object_reads_back [OF mc specs self, of F header]) (simp_all add: F_def bytes len [unfolded bytes])
  ultimately show thesis by (rule that)
qed

end

section \<open>Properties\<close>

text \<open>C1: a 64-bit file written with the two-phase writer is parsed by the reader, in either byte order: the file header, the number of sections (more than 65279 included) and, for each section, the name, the data and the header fields.\<close>

theorem elf64_file_round_trip:
  assumes "index_set_laws ix elems" "memchr_spec memchr" "specs_ok specs"
  shows "\<exists>data. write_file ix e True header specs = Ok data \<and>
    file_reads_back memchr Elf64 e data header specs"
proof -
  have "is_type_64 Elf64 = True" by (simp add: Elf64_def)
  then show ?thesis using elf64.file_ok [OF assms, of e header] by metis
qed

text \<open>Two sections for the concrete instance.\<close>

abbreviation example_specs :: "section_spec list" where
  "example_specs \<equiv>
    [\<lparr>ss_name = [46, 116], ss_align = 4, ss_data = [1, 2, 3], ss_type = 1, ss_flags = 6,
      ss_addr = 0, ss_link = 0, ss_info = 0, ss_entsize = 0\<rparr>,
     \<lparr>ss_name = [46, 100], ss_align = 3, ss_data = [4, 5], ss_type = 1, ss_flags = 3,
      ss_addr = 0, ss_link = 0, ss_info = 0, ss_entsize = 0\<rparr>]"

theorem elf64_file_round_trip_witness:
  "\<exists>data. write_file list_set Little True
     \<lparr>fh_os_abi = 0, fh_abi_version = 0, fh_e_type = 1, fh_e_machine = 62, fh_e_entry = 0, fh_e_flags = 0\<rparr>
     example_specs = Ok data \<and>
   file_reads_back first_index Elf64 Little data
     \<lparr>fh_os_abi = 0, fh_abi_version = 0, fh_e_type = 1, fh_e_machine = 62, fh_e_entry = 0, fh_e_flags = 0\<rparr>
     example_specs"
  using elf64_file_round_trip [OF index_set_laws_list_set memchr_spec_first_index, of example_specs Little]
  by (simp add: specs_ok_def object_bound_def names_size_def ascii_def)

text \<open>C2: the same for a 32-bit file, whose addresses are truncated to 32 bits.\<close>

theorem elf32_file_round_trip:
  assumes "index_set_laws ix elems" "memchr_spec memchr" "specs_ok specs"
  shows "\<exists>data. write_file ix e False header specs = Ok data \<and>
    file_reads_back memchr Elf32 e data header specs"
proof -
  have "is_type_64 Elf32 = False" by (simp add: Elf32_def)
  then show ?thesis using elf32.file_ok [OF assms, of e header] by metis
qed

theorem elf32_file_round_trip_witness:
  "\<exists>data. write_file list_set Big False
     \<lparr>fh_os_abi = 0, fh_abi_version = 0, fh_e_type = 1, fh_e_machine = 8, fh_e_entry = 0, fh_e_flags = 0\<rparr>
     example_specs = Ok data \<and>
   file_reads_back first_index Elf32 Big data
     \<lparr>fh_os_abi = 0, fh_abi_version = 0, fh_e_type = 1, fh_e_machine = 8, fh_e_entry = 0, fh_e_flags = 0\<rparr>
     example_specs"
  using elf32_file_round_trip [OF index_set_laws_list_set memchr_spec_first_index, of example_specs Big]
  by (simp add: specs_ok_def object_bound_def names_size_def ascii_def)

end
