(* ===== verification/Stateful.thy ===== *)
theory Stateful
  imports Prelude
begin

text \<open>
  Methods that update a state (\<^verbatim>\<open>&mut self\<close>): functions from the state to an outcome and the new
  state, which is there also after an error. A sequencing operator, the computations that read or
  change the state, and triples over them. The iterators, the read cache, the archive reader and the
  object writer are written with them.
\<close>

text \<open>Sequencing with the \<^verbatim>\<open>?\<close> operator of methods that update a state.\<close>

definition state_then :: "('s \<Rightarrow> ('a, 'e) result \<times> 's) \<Rightarrow> ('a \<Rightarrow> 's \<Rightarrow> ('b, 'e) result \<times> 's) \<Rightarrow>
    's \<Rightarrow> ('b, 'e) result \<times> 's" where
  "state_then m f = (\<lambda>self. case m self of
     (Ok a, self') \<Rightarrow> f a self'
   | (Err e, self') \<Rightarrow> (Err e, self')
   | (Panic, self') \<Rightarrow> (Panic, self'))"

lemma state_then_simps:
  "m self = (Ok a, self') \<Longrightarrow> state_then m f self = f a self'"
  "m self = (Err e, self') \<Longrightarrow> state_then m f self = (Err e, self')"
  "m self = (Panic, self') \<Longrightarrow> state_then m f self = (Panic, self')"
  by (simp_all add: state_then_def)

lemma state_then_Panic:
  "fst (state_then m f s) = Panic \<longleftrightarrow> fst (m s) = Panic \<or> (\<exists>a s'. m s = (Ok a, s') \<and> fst (f a s') = Panic)"
  by (auto simp: state_then_def split: prod.splits result.splits)

text \<open>A computation that does not touch the state.\<close>

definition state_lift :: "('a, 'e) result \<Rightarrow> 's \<Rightarrow> ('a, 'e) result \<times> 's" where
  "state_lift r self = (r, self)"

lemma state_then_lift_Ok [simp]: "state_then (state_lift (Ok a)) f = f a"
  by (simp add: state_then_def state_lift_def)

text \<open>A value that depends on the state, which may be an error or a panic.\<close>

definition state_get :: "('s \<Rightarrow> ('a, 'e) result) \<Rightarrow> 's \<Rightarrow> ('a, 'e) result \<times> 's" where
  "state_get f self = (f self, self)"

text \<open>A plain update of the state, and an operation on a part of it.\<close>

definition state_modify :: "('s \<Rightarrow> 's) \<Rightarrow> 's \<Rightarrow> (unit, 'e) result \<times> 's" where
  "state_modify f self = (Ok (), f self)"

definition state_at :: "('s \<Rightarrow> 'x list) \<Rightarrow> ('x list \<Rightarrow> 's \<Rightarrow> 's) \<Rightarrow> nat \<Rightarrow> ('x \<Rightarrow> ('a, 'e) result \<times> 'x) \<Rightarrow>
    's \<Rightarrow> ('a, 'e) result \<times> 's" where
  "state_at get upd i m self =
    (if i < length (get self)
     then (case m (get self ! i) of (r, x) \<Rightarrow> (r, upd ((get self)[i := x]) self))
     else (Panic, self))"

text \<open>A method of a lower layer whose error gets a message (\<^verbatim>\<open>read_error\<close>).\<close>

definition state_error :: "('s \<Rightarrow> ('a, 'd) result \<times> 's) \<Rightarrow> string \<Rightarrow> 's \<Rightarrow> ('a, string) result \<times> 's" where
  "state_error m msg self = (case m self of (r, self') \<Rightarrow> (read_error r msg, self'))"

text \<open>\<^verbatim>\<open>unwrap\<close> of the result: an error panics.\<close>

definition state_unwrap :: "('s \<Rightarrow> ('a, 'd) result \<times> 's) \<Rightarrow> 's \<Rightarrow> ('a, 'e) result \<times> 's" where
  "state_unwrap m self = (case m self of
     (Ok a, self') \<Rightarrow> (Ok a, self')
   | (_, self') \<Rightarrow> (Panic, self'))"

text \<open>
  A triple for such methods: from a state that satisfies \<open>P\<close> there is no panic, a result satisfies \<open>Q\<close>
  and an error leaves a state that satisfies \<open>E\<close>.
\<close>

definition triple :: "('s \<Rightarrow> bool) \<Rightarrow> ('s \<Rightarrow> bool) \<Rightarrow> ('s \<Rightarrow> ('a, 'e) result \<times> 's) \<Rightarrow> ('a \<Rightarrow> 's \<Rightarrow> bool) \<Rightarrow> bool" where
  "triple E P m Q \<longleftrightarrow> (\<forall>s. P s \<longrightarrow> fst (m s) \<noteq> Panic \<and>
     (\<forall>a s'. m s = (Ok a, s') \<longrightarrow> Q a s') \<and> (\<forall>e s'. m s = (Err e, s') \<longrightarrow> E s'))"

lemma triple_then:
  assumes "triple E P m Q" "\<And>a. triple E (Q a) (f a) R"
  shows "triple E P (state_then m f) R"
  unfolding triple_def
proof (intro allI impI)
  fix s assume "P s"
  show "fst (state_then m f s) \<noteq> Panic \<and> (\<forall>a s'. state_then m f s = (Ok a, s') \<longrightarrow> R a s') \<and>
    (\<forall>e s'. state_then m f s = (Err e, s') \<longrightarrow> E s')"
  proof (cases "m s")
    case (Pair r s')
    show ?thesis
    proof (cases r)
      case (Ok a)
      then have "Q a s'" using assms(1) Pair \<open>P s\<close> by (simp add: triple_def)
      then show ?thesis using assms(2) [of a] Pair Ok by (simp add: triple_def state_then_def)
    qed (use assms(1) Pair \<open>P s\<close> in \<open>auto simp: triple_def state_then_def\<close>)
  qed
qed

lemma triple_lift:
  "(\<And>s. P s \<Longrightarrow> (case r of Ok a \<Rightarrow> Q a s | Err e \<Rightarrow> E s | Panic \<Rightarrow> False)) \<Longrightarrow> triple E P (state_lift r) Q"
  by (cases r) (auto simp: triple_def state_lift_def)

lemma triple_get:
  assumes "\<And>s. P s \<Longrightarrow> (case f s of Ok a \<Rightarrow> Q a s | Err e \<Rightarrow> E s | Panic \<Rightarrow> False)"
  shows "triple E P (state_get f) Q"
  unfolding triple_def
proof (intro allI impI)
  fix s assume "P s"
  from assms [OF this] show "fst (state_get f s) \<noteq> Panic \<and> (\<forall>a s'. state_get f s = (Ok a, s') \<longrightarrow> Q a s') \<and>
    (\<forall>e s'. state_get f s = (Err e, s') \<longrightarrow> E s')"
    by (cases "f s") (simp_all add: state_get_def)
qed

lemma triple_modify: "(\<And>s. P s \<Longrightarrow> Q () (f s)) \<Longrightarrow> triple E P (state_modify f) Q"
  by (simp add: triple_def state_modify_def)

lemma triple_unwrap: "triple (\<lambda>_. False) P m Q \<Longrightarrow> triple E P (state_unwrap m) Q"
  unfolding triple_def state_unwrap_def by (auto split: prod.splits result.splits)

lemma triple_at:
  assumes "\<And>s. P s \<Longrightarrow> i < length (get s)"
    and "\<And>s. P s \<Longrightarrow> (case m (get s ! i) of
      (Ok a, x) \<Rightarrow> Q a (upd ((get s)[i := x]) s)
    | (Err e, x) \<Rightarrow> E (upd ((get s)[i := x]) s)
    | (Panic, x) \<Rightarrow> False)"
  shows "triple E P (state_at get upd i m) Q"
  unfolding triple_def
proof (intro allI impI)
  fix s assume "P s"
  with assms(1) [of s] assms(2) [of s]
  show "fst (state_at get upd i m s) \<noteq> Panic \<and> (\<forall>a s'. state_at get upd i m s = (Ok a, s') \<longrightarrow> Q a s') \<and>
    (\<forall>e s'. state_at get upd i m s = (Err e, s') \<longrightarrow> E s')"
    by (cases "m (get s ! i)") (auto simp: state_at_def split: result.splits)
qed

text \<open>A method whose code depends on the state it starts in.\<close>

lemma triple_self: "(\<And>s0. P s0 \<Longrightarrow> triple E (\<lambda>s. s = s0) (f s0) Q) \<Longrightarrow> triple E P (\<lambda>s. f s s) Q"
  unfolding triple_def by blast

lemma triple_if:
  "(b \<Longrightarrow> triple E P m Q) \<Longrightarrow> (\<not> b \<Longrightarrow> triple E P m' Q) \<Longrightarrow> triple E P (if b then m else m') Q"
  by simp

lemma triple_conseq:
  "triple E P m Q \<Longrightarrow> (\<And>s. P' s \<Longrightarrow> P s) \<Longrightarrow> (\<And>a s. Q a s \<Longrightarrow> Q' a s) \<Longrightarrow> triple E P' m Q'"
  unfolding triple_def by blast

text \<open>A lookup, or what computes the value that is not there.\<close>

lemma triple_cached:
  assumes "\<And>s a. P s \<Longrightarrow> look s = Some a \<Longrightarrow> Q a s" "triple E P m Q"
  shows "triple E P (\<lambda>s. case look s of Some a \<Rightarrow> (Ok a, s) | None \<Rightarrow> m s) Q"
  unfolding triple_def
proof (intro allI impI)
  fix s assume "P s"
  then show "fst (case look s of Some a \<Rightarrow> (Ok a, s) | None \<Rightarrow> m s) \<noteq> Panic \<and>
    (\<forall>a s'. (case look s of Some a \<Rightarrow> (Ok a, s) | None \<Rightarrow> m s) = (Ok a, s') \<longrightarrow> Q a s') \<and>
    (\<forall>e s'. (case look s of Some a \<Rightarrow> (Ok a, s) | None \<Rightarrow> m s) = (Err e, s') \<longrightarrow> E s')"
    using assms by (cases "look s") (auto simp: triple_def)
qed

lemma triple_ok_or:
  "(\<And>a. x = Some a \<Longrightarrow> triple E P (f a) Q) \<Longrightarrow> (\<And>s. P s \<Longrightarrow> E s) \<Longrightarrow> triple E P (state_then (state_lift (ok_or x e)) f) Q"
  by (cases x) (simp_all add: triple_def state_then_def state_lift_def)

lemma tripleD: "triple E P m Q \<Longrightarrow> P s \<Longrightarrow> m s = (Ok a, s') \<Longrightarrow> Q a s'"
  by (simp add: triple_def)

definition succeeds :: "('s \<Rightarrow> ('a, 'e) result \<times> 's) \<Rightarrow> 's \<Rightarrow> bool" where
  "succeeds m s \<longleftrightarrow> (\<exists>a s'. m s = (Ok a, s'))"

lemma succeeds_then:
  "succeeds m s \<Longrightarrow> (\<And>a s'. m s = (Ok a, s') \<Longrightarrow> succeeds (f a) s') \<Longrightarrow> succeeds (state_then m f) s"
  by (auto simp: succeeds_def state_then_def)

text \<open>
  The same for methods that may panic, after which there is no state to speak of: what holds of the
  state after a result or an error. \<open>outcome\<close> has the rules of \<open>triple\<close>.
\<close>

definition outcome :: "('s \<Rightarrow> bool) \<Rightarrow> ('s \<Rightarrow> bool) \<Rightarrow> ('s \<Rightarrow> ('a, 'e) result \<times> 's) \<Rightarrow> ('a \<Rightarrow> 's \<Rightarrow> bool) \<Rightarrow> bool" where
  "outcome E P m Q \<longleftrightarrow> (\<forall>s. P s \<longrightarrow> (\<forall>a s'. m s = (Ok a, s') \<longrightarrow> Q a s') \<and> (\<forall>e s'. m s = (Err e, s') \<longrightarrow> E s'))"

lemma outcome_then:
  "outcome E P m Q \<Longrightarrow> (\<And>a. outcome E (Q a) (f a) R) \<Longrightarrow> outcome E P (state_then m f) R"
  unfolding outcome_def state_then_def by (auto split: prod.splits result.splits)

lemma outcome_conseq:
  "outcome E P m Q \<Longrightarrow> (\<And>s. P' s \<Longrightarrow> P s) \<Longrightarrow> (\<And>a s. Q a s \<Longrightarrow> Q' a s) \<Longrightarrow> outcome E P' m Q'"
  unfolding outcome_def by blast

lemma outcome_lift:
  "(\<And>s a. P s \<Longrightarrow> r = Ok a \<Longrightarrow> Q a s) \<Longrightarrow> (\<And>s e. P s \<Longrightarrow> r = Err e \<Longrightarrow> E s) \<Longrightarrow> outcome E P (state_lift r) Q"
  by (simp add: outcome_def state_lift_def)

lemma outcome_get:
  "(\<And>s a. P s \<Longrightarrow> f s = Ok a \<Longrightarrow> Q a s) \<Longrightarrow> (\<And>s e. P s \<Longrightarrow> f s = Err e \<Longrightarrow> E s) \<Longrightarrow> outcome E P (state_get f) Q"
  by (simp add: outcome_def state_get_def)

lemma outcome_modify: "(\<And>s. P s \<Longrightarrow> Q () (f s)) \<Longrightarrow> outcome E P (state_modify f) Q"
  by (simp add: outcome_def state_modify_def)

lemma outcome_at:
  assumes "\<And>s. P s \<Longrightarrow> i < length (get s) \<Longrightarrow> (case m (get s ! i) of
      (Ok a, x) \<Rightarrow> Q a (upd ((get s)[i := x]) s)
    | (Err e, x) \<Rightarrow> E (upd ((get s)[i := x]) s)
    | (Panic, x) \<Rightarrow> True)"
  shows "outcome E P (state_at get upd i m) Q"
  unfolding outcome_def
proof (intro allI impI)
  fix s assume "P s"
  with assms [of s] show "(\<forall>a s'. state_at get upd i m s = (Ok a, s') \<longrightarrow> Q a s') \<and>
    (\<forall>e s'. state_at get upd i m s = (Err e, s') \<longrightarrow> E s')"
    by (cases "m (get s ! i)") (auto simp: state_at_def split: result.splits)
qed

lemma outcome_unwrap: "outcome (\<lambda>_. True) P m Q \<Longrightarrow> outcome E P (state_unwrap m) Q"
  unfolding outcome_def state_unwrap_def by (auto split: prod.splits result.splits)

lemma outcome_self: "(\<And>s0. P s0 \<Longrightarrow> outcome E (\<lambda>s. s = s0) (f s0) Q) \<Longrightarrow> outcome E P (\<lambda>s. f s s) Q"
  unfolding outcome_def by blast

lemma outcome_if:
  "(b \<Longrightarrow> outcome E P m Q) \<Longrightarrow> (\<not> b \<Longrightarrow> outcome E P m' Q) \<Longrightarrow> outcome E P (if b then m else m') Q"
  by simp

lemma outcomeD:
  "outcome E P m Q \<Longrightarrow> P s \<Longrightarrow> m s = (Ok a, s') \<Longrightarrow> Q a s'"
  by (simp add: outcome_def)

lemma outcome_Err:
  "outcome E P m Q \<Longrightarrow> P s \<Longrightarrow> m s = (Err e, s') \<Longrightarrow> E s'"
  by (simp add: outcome_def)

lemma triple_outcome: "triple E P m Q \<Longrightarrow> outcome E P m Q"
  by (simp add: triple_def outcome_def)

end
