(* ===== verification/Iterators.thy ===== *)
theory Iterators
  imports Stateful
begin

text \<open>
  The contract of the fallible iterators of the readers (\<^verbatim>\<open>next(&mut self) -> Result<Option<T>>\<close>):
  every item uses up some of what remains, an error uses up the rest, and an iterator without a rest
  stays at its end. A loop over such an iterator ends, also after an error.
\<close>

type_synonym ('it, 'a) iter_next = "'it \<Rightarrow> ('a option, string) result \<times> 'it"

text \<open>
  The shape that the \<^verbatim>\<open>next\<close> methods share: nothing when the data is empty, otherwise the result of
  \<^verbatim>\<open>parse\<close>, and after an error the data is emptied.
\<close>

definition next_or_clear :: "('it \<Rightarrow> bytes) \<Rightarrow> ('it \<Rightarrow> 'it) \<Rightarrow> ('it \<Rightarrow> ('a, string) result \<times> 'it) \<Rightarrow>
    ('it, 'a) iter_next" where
  "next_or_clear data clear parse self =
    (if data self = [] then (Ok None, self)
     else (case parse self of
         (Ok a, self) \<Rightarrow> (Ok (Some a), self)
       | (Err e, self) \<Rightarrow> (Err e, clear self)
       | (Panic, self) \<Rightarrow> (Panic, self)))"

text \<open>A client loop \<^verbatim>\<open>while let Some(x) = iter.next()?\<close> that collects the items, with a bound on the calls.\<close>

fun drain :: "('it, 'a) iter_next \<Rightarrow> nat \<Rightarrow> 'it \<Rightarrow> ('a list, string) result option" where
  "drain nxt 0 it = None"
| "drain nxt (Suc n) it =
    (case nxt it of
       (Ok None, _) \<Rightarrow> Some (Ok [])
     | (Ok (Some a), it') \<Rightarrow> map_option (\<lambda>r. and_then r (\<lambda>as. Ok (a # as))) (drain nxt n it')
     | (Err e, _) \<Rightarrow> Some (Err e)
     | (Panic, _) \<Rightarrow> Some Panic)"

lemma drain_mono: "drain nxt n it = Some r \<Longrightarrow> n \<le> m \<Longrightarrow> drain nxt m it = Some r"
proof (induction nxt n it arbitrary: r m rule: drain.induct)
  case (2 nxt n it)
  then obtain k where m: "m = Suc k" "n \<le> k" by (cases m) auto
  show ?case
  proof (cases "\<exists>a it'. nxt it = (Ok (Some a), it')")
    case True
    then obtain a it' where step: "nxt it = (Ok (Some a), it')" by blast
    with 2(2) obtain r' where "drain nxt n it' = Some r'" "r = and_then r' (\<lambda>as. Ok (a # as))" by auto
    with 2(1) [OF step [symmetric] refl refl] m step show ?thesis by simp
  qed (use 2(2) m in \<open>auto split: prod.splits result.splits option.splits\<close>)
qed simp

text \<open>The loop with a bound that is enough for every iterator that uses up what remains.\<close>

definition collect :: "('it, 'a) iter_next \<Rightarrow> ('it \<Rightarrow> nat) \<Rightarrow> 'it \<Rightarrow> ('a list, string) result" where
  "collect nxt remaining it = (case drain nxt (Suc (remaining it)) it of Some r \<Rightarrow> r | None \<Rightarrow> Panic)"

text \<open>Reading items whose images stand one after the other.\<close>

lemma drain_images:
  assumes "nxt (mk []) = (Ok None, mk [])"
  shows "(\<forall>x \<in> set xs. \<forall>rest. nxt (mk (enc x @ rest)) = (Ok (Some (val x)), mk rest)) \<Longrightarrow> length xs < n \<Longrightarrow>
    drain nxt n (mk (concat (map enc xs))) = Some (Ok (map val xs))"
proof (induction xs arbitrary: n)
  case Nil
  then show ?case using assms by (cases n) simp_all
next
  case (Cons x xs)
  then show ?case by (cases n) simp_all
qed

lemma collect_images:
  fixes mk :: "bytes \<Rightarrow> 'it" and enc :: "'x \<Rightarrow> bytes"
  assumes "nxt (mk []) = (Ok None, mk [])"
    and "\<forall>x \<in> set xs. \<forall>rest. nxt (mk (enc x @ rest)) = (Ok (Some (val x)), mk rest)"
    and "\<forall>x \<in> set xs. enc x \<noteq> []" "\<forall>d. remaining (mk d) = length d"
  shows "collect nxt remaining (mk (concat (map enc xs))) = Ok (map val xs)"
proof -
  have "length xs \<le> length (concat (map enc xs))"
    using assms(3)
  proof (induction xs)
    case (Cons x xs)
    then show ?case by (cases "enc x") auto
  qed simp
  then show ?thesis
    using drain_images [of nxt mk xs enc val "Suc (length (concat (map enc xs)))"] assms(1,2,4)
    by (simp add: collect_def del: drain.simps)
qed

text \<open>
  The same loop without a bound, for an iterator whose \<^verbatim>\<open>next\<close> may itself not return: \<open>None\<close> is not
  returning.
\<close>

partial_function (option) exhaust :: "('it \<Rightarrow> (('a option, 'e) result \<times> 'it) option) \<Rightarrow> 'it \<Rightarrow> ('a list, 'e) result option" where
  "exhaust nxt it =
    (case nxt it of
       None \<Rightarrow> None
     | Some (r, it') \<Rightarrow>
         (case r of
            Ok x \<Rightarrow>
              (case x of
                 None \<Rightarrow> Some (Ok [])
               | Some a \<Rightarrow> Option.bind (exhaust nxt it') (\<lambda>r. Some (and_then r (\<lambda>as. Ok (a # as)))))
          | Err e \<Rightarrow> Some (Err e)
          | Panic \<Rightarrow> Some Panic))"

lemma exhaust_end: "nxt it = Some (Ok None, it') \<Longrightarrow> exhaust nxt it = Some (Ok [])"
  by (simp add: exhaust.simps [of nxt it])

lemma exhaust_item:
  "nxt it = Some (Ok (Some a), it') \<Longrightarrow> exhaust nxt it' = Some (Ok as) \<Longrightarrow> exhaust nxt it = Some (Ok (a # as))"
  by (simp add: exhaust.simps [of nxt it])

lemma exhaust_same: "nxt it = nxt it' \<Longrightarrow> exhaust nxt it = exhaust nxt it'"
  by (simp add: exhaust.simps [of nxt it] exhaust.simps [of nxt it'])

text \<open>
  The results of the first \<open>n\<close> calls, whatever they are: a client that goes on after an error.
  \<open>fused_results\<close>: at most \<open>m\<close> items, then, when there is more, the end or an error, and then the end
  for ever.
\<close>

primrec calls :: "('it, 'a) iter_next \<Rightarrow> nat \<Rightarrow> 'it \<Rightarrow> ('a option, string) result list" where
  "calls nxt 0 it = []"
| "calls nxt (Suc n) it = fst (nxt it) # calls nxt n (snd (nxt it))"

definition fused_results :: "nat \<Rightarrow> 'a list \<Rightarrow> ('a option, string) result list \<Rightarrow> bool" where
  "fused_results m items rs \<longleftrightarrow> length items \<le> m \<and>
    (rs = map (\<lambda>a. Ok (Some a)) items \<or>
     (\<exists>r k. rs = map (\<lambda>a. Ok (Some a)) items @ r # replicate k (Ok None) \<and>
       (r = Ok None \<or> (\<exists>e. r = Err e))))"

lemma fused_results_Cons:
  "fused_results m items rs \<Longrightarrow> m < m' \<Longrightarrow> fused_results m' (a # items) (Ok (Some a) # rs)"
  by (auto simp: fused_results_def)

text \<open>\<open>valid\<close> is the invariant that the constructor of the iterator establishes.\<close>

locale fallible_iterator =
  fixes nxt :: "'it \<Rightarrow> ('a option, string) result \<times> 'it"
    and remaining :: "'it \<Rightarrow> nat" and valid :: "'it \<Rightarrow> bool"
  assumes at_end: "remaining it = 0 \<Longrightarrow> nxt it = (Ok None, it)"
    and item: "valid it \<Longrightarrow> nxt it = (Ok (Some a), it') \<Longrightarrow> remaining it' < remaining it"
    and error: "valid it \<Longrightarrow> nxt it = (Err e, it') \<Longrightarrow> remaining it' = 0"
    and none: "valid it \<Longrightarrow> nxt it = (Ok None, it') \<Longrightarrow> remaining it' = 0"
    and no_panic: "valid it \<Longrightarrow> fst (nxt it) \<noteq> Panic"
    and stays_valid: "valid it \<Longrightarrow> valid (snd (nxt it))"
begin

lemma drain_ends: "valid it \<Longrightarrow> remaining it < n \<Longrightarrow> \<exists>r. drain nxt n it = Some r \<and> r \<noteq> Panic"
proof (induction n arbitrary: it)
  case (Suc n)
  obtain r it' where step: "nxt it = (r, it')" by fastforce
  consider "r = Ok None" | a where "r = Ok (Some a)" | e where "r = Err e" | "r = Panic"
    by (cases r) (auto simp: option.nchotomy)
  then show ?case
  proof cases
    case (2 a)
    then have "remaining it' < n" "valid it'"
      using item [of it a it'] stays_valid [of it] step Suc.prems by simp_all
    with Suc.IH obtain r' where "drain nxt n it' = Some r'" "r' \<noteq> Panic" by blast
    then show ?thesis using step 2 by (cases r') auto
  next
    case 4
    then show ?thesis using no_panic [of it] step Suc.prems by simp
  qed (use step in simp_all)
qed simp

lemma drain_length: "valid it \<Longrightarrow> drain nxt n it = Some (Ok items) \<Longrightarrow> length items \<le> remaining it"
proof (induction n arbitrary: it items)
  case (Suc n)
  show ?case
  proof (cases "\<exists>a it'. nxt it = (Ok (Some a), it')")
    case True
    then obtain a it' where step: "nxt it = (Ok (Some a), it')" by blast
    with Suc.prems obtain as where "drain nxt n it' = Some (Ok as)" "items = a # as"
      by (auto simp: res_simps)
    moreover have "valid it'" using stays_valid [OF Suc.prems(1)] step by simp
    ultimately show ?thesis using Suc.IH [of it' as] item [OF Suc.prems(1) step] by simp
  qed (use Suc.prems in \<open>auto split: prod.splits result.splits option.splits\<close>)
qed simp

lemma drain_total:
  assumes "valid it"
  shows "\<exists>r. drain nxt (Suc (remaining it)) it = Some r \<and> r \<noteq> Panic \<and>
    (\<forall>items. r = Ok items \<longrightarrow> length items \<le> remaining it)"
  using drain_ends [OF assms, of "Suc (remaining it)"] drain_length [OF assms, of "Suc (remaining it)"]
  by auto

lemma fused:
  assumes "valid it" "nxt it = (r, it')" "\<forall>a. r \<noteq> Ok (Some a)"
  shows "nxt it' = (Ok None, it')"
proof (rule at_end)
  show "remaining it' = 0"
  proof (cases r)
    case (Ok x)
    then show ?thesis using assms none [of it it'] by (cases x) auto
  next
    case (Err e)
    then show ?thesis using assms error [of it e it'] by simp
  next
    case Panic
    then show ?thesis using assms no_panic [of it] by simp
  qed
qed

lemma calls_at_end: "remaining it = 0 \<Longrightarrow> calls nxt n it = replicate n (Ok None)"
  by (induction n) (simp_all add: at_end)

lemma calls_total: "valid it \<Longrightarrow> \<exists>items. fused_results (remaining it) items (calls nxt n it)"
proof (induction n arbitrary: it)
  case 0
  then show ?case by (intro exI [of _ "[]"]) (simp add: fused_results_def)
next
  case (Suc n)
  obtain r it' where step: "nxt it = (r, it')" by fastforce
  show ?case
  proof (cases "\<exists>a. r = Ok (Some a)")
    case True
    then obtain a where a: "r = Ok (Some a)" by blast
    have less: "remaining it' < remaining it" using item [OF Suc.prems] step a by simp
    have "valid it'" using stays_valid [OF Suc.prems] step by simp
    then obtain items where "fused_results (remaining it') items (calls nxt n it')" using Suc.IH by blast
    from fused_results_Cons [OF this less, of a] show ?thesis using step a by auto
  next
    case False
    then have "r = Ok None \<or> (\<exists>e. r = Err e)"
      using no_panic [OF Suc.prems] step by (cases r) (auto simp: option.nchotomy)
    moreover from this have "remaining it' = 0"
      using error [OF Suc.prems] none [OF Suc.prems] step by blast
    ultimately have "fused_results (remaining it) [] (calls nxt (Suc n) it)"
      using step by (auto simp: fused_results_def calls_at_end)
    then show ?thesis by blast
  qed
qed

end

text \<open>The contract holds for \<open>next_or_clear\<close> when \<open>parse\<close> uses up data and does not panic.\<close>

lemma next_or_clear_iterator:
  assumes "\<And>self. data (clear self) = []" "\<And>self. valid self \<Longrightarrow> valid (clear self)"
    and "\<And>self a self'. valid self \<Longrightarrow> data self \<noteq> [] \<Longrightarrow> parse self = (Ok a, self') \<Longrightarrow>
      length (data self') < length (data self)"
    and "\<And>self. valid self \<Longrightarrow> fst (parse self) \<noteq> Panic"
    and "\<And>self. valid self \<Longrightarrow> valid (snd (parse self))"
  shows "fallible_iterator (next_or_clear data clear parse) (\<lambda>self. length (data self)) valid"
proof
  fix it
  assume it: "valid it"
  show "fst (next_or_clear data clear parse it) \<noteq> Panic"
    using assms(4) [OF it] by (auto simp: next_or_clear_def split: prod.splits result.splits)
  obtain r it' where "parse it = (r, it')" by fastforce
  then show "valid (snd (next_or_clear data clear parse it))"
    using it assms(2,5) [of it'] assms(5) [OF it]
    by (cases r) (auto simp: next_or_clear_def assms(2))
qed (use assms in \<open>auto simp: next_or_clear_def split: if_splits prod.splits result.splits\<close>)

text \<open>
  An iterator that refines a list: \<open>view\<close> is what it will still return. Such an iterator needs no
  bound on its input; the loop over it collects the list.
\<close>

locale iterator_view =
  fixes nxt :: "'it \<Rightarrow> ('a option, string) result \<times> 'it"
    and view :: "'it \<Rightarrow> 'a list" and inv :: "'it \<Rightarrow> bool"
  assumes view_Nil: "inv it \<Longrightarrow> view it = [] \<Longrightarrow> fst (nxt it) = Ok None"
    and view_Cons: "inv it \<Longrightarrow> view it = a # as \<Longrightarrow> \<exists>it'. nxt it = (Ok (Some a), it') \<and> inv it' \<and> view it' = as"
begin

lemma drain_view: "inv it \<Longrightarrow> length (view it) < n \<Longrightarrow> drain nxt n it = Some (Ok (view it))"
proof (induction n arbitrary: it)
  case (Suc n)
  show ?case
  proof (cases "view it")
    case Nil
    then show ?thesis using view_Nil [OF Suc.prems(1)] by (cases "nxt it") simp
  next
    case (Cons a as)
    then obtain it' where "nxt it = (Ok (Some a), it')" "inv it'" "view it' = as"
      using view_Cons [OF Suc.prems(1)] by blast
    then show ?thesis using Suc.IH [of it'] Suc.prems(2) Cons by simp
  qed
qed simp

lemma collect_view: "inv it \<Longrightarrow> length (view it) \<le> remaining it \<Longrightarrow> collect nxt remaining it = Ok (view it)"
  using drain_view [of it "Suc (remaining it)"] by (simp add: collect_def del: drain.simps)

end

end
