(* ===== verification/Elf_Version.thy ===== *)
theory Elf_Version
  imports Elf_Reader Iterators
begin

text \<open>
  \<^verbatim>\<open>src/read/elf/version.rs\<close>: the iterators over version definitions and dependencies, and the table
  that maps a symbol to its version. A method \<^verbatim>\<open>next(&mut self)\<close> returns its result and the new state
  of the iterator; the loops \<^verbatim>\<open>while let Some(..) = it.next()?\<close> recurse on the state, which shrinks.
\<close>

section \<open>Indices and versions\<close>

abbreviation "VERSYM_VERSION \<equiv> (0x7fff :: u16)"
abbreviation "VERSYM_HIDDEN \<equiv> (0x8000 :: u16)"
abbreviation "VER_NDX_LOCAL \<equiv> (0 :: u16)"
abbreviation "VER_NDX_GLOBAL \<equiv> (1 :: u16)"
abbreviation "VER_FLG_BASE \<equiv> (1 :: u16)"

definition VersionIndex_index :: "u16 \<Rightarrow> u16" where
  "VersionIndex_index self = self AND VERSYM_VERSION"

definition VersionIndex_is_local :: "u16 \<Rightarrow> bool" where
  "VersionIndex_is_local self \<longleftrightarrow> VersionIndex_index self = VER_NDX_LOCAL"

definition VersionIndex_is_global :: "u16 \<Rightarrow> bool" where
  "VersionIndex_is_global self \<longleftrightarrow> VersionIndex_index self = VER_NDX_GLOBAL"

definition VersionIndex_is_hidden :: "u16 \<Rightarrow> bool" where
  "VersionIndex_is_hidden self \<longleftrightarrow> self AND VERSYM_HIDDEN \<noteq> 0"

record version =
  version_name :: bytes
  version_hash :: u32
  version_valid :: bool
  version_file :: "bytes option"

definition Version_default :: version where
  "Version_default = \<lparr>version_name = [], version_hash = 0, version_valid = False, version_file = None\<rparr>"

section \<open>Iterators\<close>

record aux_iterator =
  aux_endian :: endianness
  aux_data :: bytes
  aux_count :: u16

record entry_iterator =
  entry_endian :: endianness
  entry_data :: bytes

definition VerdauxIterator_new :: "endianness \<Rightarrow> bytes \<Rightarrow> u16 \<Rightarrow> aux_iterator" where
  "VerdauxIterator_new e data cnt = \<lparr>aux_endian = e, aux_data = data, aux_count = cnt\<rparr>"

definition VerdauxIterator_parse :: "aux_iterator \<Rightarrow> (bytes, string) result \<times> aux_iterator" where
  "VerdauxIterator_parse self =
    (case read_error (Bytes_read_at 8 (aux_data self) 0) ''ELF verdaux is too short'' of
       Ok verdaux \<Rightarrow>
         (case skip (unat (vda_next (decode_verdaux (aux_endian self) verdaux))) (aux_data self) of
            (r, data) \<Rightarrow> (and_then (read_error r ''Invalid ELF vda_next'') (\<lambda>_. Ok verdaux),
              self\<lparr>aux_data := data\<rparr>))
     | r \<Rightarrow> (r, self))"

definition VerdauxIterator_next :: "aux_iterator \<Rightarrow> (bytes option, string) result \<times> aux_iterator" where
  "VerdauxIterator_next self =
    (if aux_count self = 0 then (Ok None, self)
     else (case VerdauxIterator_parse self of
         (Ok verdaux, self) \<Rightarrow> (Ok (Some verdaux), self\<lparr>aux_count := aux_count self - 1\<rparr>)
       | (Err e, self) \<Rightarrow> (Err e, self\<lparr>aux_count := 0\<rparr>)
       | (Panic, self) \<Rightarrow> (Panic, self)))"

definition VernauxIterator_new :: "endianness \<Rightarrow> bytes \<Rightarrow> u16 \<Rightarrow> aux_iterator" where
  "VernauxIterator_new e data cnt = \<lparr>aux_endian = e, aux_data = data, aux_count = cnt\<rparr>"

definition VernauxIterator_parse :: "aux_iterator \<Rightarrow> (bytes, string) result \<times> aux_iterator" where
  "VernauxIterator_parse self =
    (case read_error (Bytes_read_at 16 (aux_data self) 0) ''ELF vernaux is too short'' of
       Ok vernaux \<Rightarrow>
         (case skip (unat (vna_next (decode_vernaux (aux_endian self) vernaux))) (aux_data self) of
            (r, data) \<Rightarrow> (and_then (read_error r ''Invalid ELF vna_next'') (\<lambda>_. Ok vernaux),
              self\<lparr>aux_data := data\<rparr>))
     | r \<Rightarrow> (r, self))"

definition VernauxIterator_next :: "aux_iterator \<Rightarrow> (bytes option, string) result \<times> aux_iterator" where
  "VernauxIterator_next self =
    (if aux_count self = 0 then (Ok None, self)
     else (case VernauxIterator_parse self of
         (Ok vernaux, self) \<Rightarrow> (Ok (Some vernaux), self\<lparr>aux_count := aux_count self - 1\<rparr>)
       | (Err e, self) \<Rightarrow> (Err e, self\<lparr>aux_count := 0\<rparr>)
       | (Panic, self) \<Rightarrow> (Panic, self)))"

definition VerdefIterator_new :: "endianness \<Rightarrow> bytes \<Rightarrow> entry_iterator" where
  "VerdefIterator_new e data = \<lparr>entry_endian = e, entry_data = data\<rparr>"

text \<open>The end of \<^verbatim>\<open>parse\<close>: advance to the next entry, or to the end after the last one.\<close>

definition advance_entry :: "u32 \<Rightarrow> string \<Rightarrow> 'a \<Rightarrow> entry_iterator \<Rightarrow> ('a, string) result \<times> entry_iterator" where
  "advance_entry nxt msg item self =
    (if nxt \<noteq> 0 then
       (case skip (unat nxt) (entry_data self) of
          (r, data) \<Rightarrow> (and_then (read_error r msg) (\<lambda>_. Ok item), self\<lparr>entry_data := data\<rparr>))
     else (Ok item, self\<lparr>entry_data := []\<rparr>))"

definition VerdefIterator_parse ::
  "entry_iterator \<Rightarrow> (bytes \<times> aux_iterator, string) result \<times> entry_iterator" where
  "VerdefIterator_parse self =
    (case and_then (read_error (Bytes_read_at 20 (entry_data self) 0) ''ELF verdef is too short'') (\<lambda>verdef.
       let d = decode_verdef (entry_endian self) verdef in
       case skip (unat (vd_aux d)) (entry_data self) of
         (r, verdaux_data) \<Rightarrow> and_then (read_error r ''Invalid ELF vd_aux'') (\<lambda>_.
           Ok (verdef, d, VerdauxIterator_new (entry_endian self) verdaux_data (vd_cnt d)))) of
       Ok (verdef, d, verdaux) \<Rightarrow> advance_entry (vd_next d) ''Invalid ELF vd_next'' (verdef, verdaux) self
     | Err e \<Rightarrow> (Err e, self)
     | Panic \<Rightarrow> (Panic, self))"

definition VerdefIterator_next ::
  "entry_iterator \<Rightarrow> ((bytes \<times> aux_iterator) option, string) result \<times> entry_iterator" where
  "VerdefIterator_next self =
    (if Bytes_is_empty (entry_data self) then (Ok None, self)
     else (case VerdefIterator_parse self of
         (Ok r, self) \<Rightarrow> (Ok (Some r), self)
       | (Err e, self) \<Rightarrow> (Err e, self\<lparr>entry_data := []\<rparr>)
       | (Panic, self) \<Rightarrow> (Panic, self)))"

definition VerneedIterator_new :: "endianness \<Rightarrow> bytes \<Rightarrow> entry_iterator" where
  "VerneedIterator_new e data = \<lparr>entry_endian = e, entry_data = data\<rparr>"

definition VerneedIterator_parse ::
  "entry_iterator \<Rightarrow> (bytes \<times> aux_iterator, string) result \<times> entry_iterator" where
  "VerneedIterator_parse self =
    (case and_then (read_error (Bytes_read_at 16 (entry_data self) 0) ''ELF verneed is too short'') (\<lambda>verneed.
       let d = decode_verneed (entry_endian self) verneed in
       case skip (unat (vn_aux d)) (entry_data self) of
         (r, vernaux_data) \<Rightarrow> and_then (read_error r ''Invalid ELF vn_aux'') (\<lambda>_.
           Ok (verneed, d, VernauxIterator_new (entry_endian self) vernaux_data (vn_cnt d)))) of
       Ok (verneed, d, vernaux) \<Rightarrow> advance_entry (vn_next d) ''Invalid ELF vn_next'' (verneed, vernaux) self
     | Err e \<Rightarrow> (Err e, self)
     | Panic \<Rightarrow> (Panic, self))"

definition VerneedIterator_next ::
  "entry_iterator \<Rightarrow> ((bytes \<times> aux_iterator) option, string) result \<times> entry_iterator" where
  "VerneedIterator_next self =
    (if Bytes_is_empty (entry_data self) then (Ok None, self)
     else (case VerneedIterator_parse self of
         (Ok r, self) \<Rightarrow> (Ok (Some r), self)
       | (Err e, self) \<Rightarrow> (Err e, self\<lparr>entry_data := []\<rparr>)
       | (Panic, self) \<Rightarrow> (Panic, self)))"

section \<open>Names\<close>

definition Verdaux_name :: "(u8 \<Rightarrow> bytes \<Rightarrow> nat option) \<Rightarrow> bytes \<Rightarrow> endianness \<Rightarrow> read_string_table \<Rightarrow>
    (bytes, string) result" where
  "Verdaux_name memchr self e strs =
    read_error (StringTable_get memchr strs (vda_name (decode_verdaux e self))) ''Invalid ELF vda_name''"

definition Verneed_file :: "(u8 \<Rightarrow> bytes \<Rightarrow> nat option) \<Rightarrow> bytes \<Rightarrow> endianness \<Rightarrow> read_string_table \<Rightarrow>
    (bytes, string) result" where
  "Verneed_file memchr self e strs =
    read_error (StringTable_get memchr strs (vn_file (decode_verneed e self))) ''Invalid ELF vn_file''"

definition Vernaux_name :: "(u8 \<Rightarrow> bytes \<Rightarrow> nat option) \<Rightarrow> bytes \<Rightarrow> endianness \<Rightarrow> read_string_table \<Rightarrow>
    (bytes, string) result" where
  "Vernaux_name memchr self e strs =
    read_error (StringTable_get memchr strs (vna_name (decode_vernaux e self))) ''Invalid ELF vna_name''"

section \<open>Termination of the loops over the iterators\<close>

lemma skip_shrinks: "skip n self = (r, self') \<Longrightarrow> 0 < n \<Longrightarrow> self \<noteq> [] \<Longrightarrow> length self' < length self"
  by (auto simp: skip_def get_from_def split: if_splits)

lemma advance_entry_shrinks:
  "advance_entry nxt msg item self = (r, self') \<Longrightarrow> entry_data self \<noteq> [] \<Longrightarrow>
    length (entry_data self') < length (entry_data self)"
  by (auto simp: advance_entry_def unat_gt_0 dest!: skip_shrinks split: if_splits prod.splits)

lemma VerdefIterator_next_shrinks:
  assumes "VerdefIterator_next self = (Ok (Some r), self')"
  shows "length (entry_data self') < length (entry_data self)"
  using assms
  by (auto simp: VerdefIterator_next_def VerdefIterator_parse_def Bytes_is_empty_def
      dest!: advance_entry_shrinks split: if_splits result.splits prod.splits)

lemma VerneedIterator_next_shrinks:
  assumes "VerneedIterator_next self = (Ok (Some r), self')"
  shows "length (entry_data self') < length (entry_data self)"
  using assms
  by (auto simp: VerneedIterator_next_def VerneedIterator_parse_def Bytes_is_empty_def
      dest!: advance_entry_shrinks split: if_splits result.splits prod.splits)

lemma VernauxIterator_next_shrinks:
  assumes "VernauxIterator_next self = (Ok (Some r), self')"
  shows "unat (aux_count self') < unat (aux_count self)"
proof -
  from assms have nz: "aux_count self \<noteq> 0"
    and c: "aux_count self' = aux_count self - 1"
    by (auto simp: VernauxIterator_next_def VernauxIterator_parse_def
        split: if_splits result.splits prod.splits)
  then show ?thesis by (simp add: unat_minus_one unat_gt_0)
qed

section \<open>The version table\<close>

record version_table =
  vt_symbols :: "bytes list"
  vt_versions :: "version list"

definition VersionTable_default :: version_table where
  "VersionTable_default = \<lparr>vt_symbols = [], vt_versions = []\<rparr>"

text \<open>The first two loops of \<^verbatim>\<open>parse\<close>: the largest version index.\<close>

function verdef_max :: "endianness \<Rightarrow> entry_iterator \<Rightarrow> u16 \<Rightarrow> (u16, string) result" where
  "verdef_max e verdefs max_index =
    (case VerdefIterator_next verdefs of
       (Ok (Some (verdef, _)), verdefs') \<Rightarrow>
         (if vd_flags (decode_verdef e verdef) AND VER_FLG_BASE \<noteq> 0 then verdef_max e verdefs' max_index
          else
            let index = vd_ndx (decode_verdef e verdef) AND VERSYM_VERSION
            in verdef_max e verdefs' (if max_index < index then index else max_index))
     | (Ok None, _) \<Rightarrow> Ok max_index
     | (Err m, _) \<Rightarrow> Err m
     | (Panic, _) \<Rightarrow> Panic)"
  by pat_completeness auto
termination
  by (relation "measure (\<lambda>(_, it, _). length (entry_data it))")
    (auto dest!: VerdefIterator_next_shrinks [OF sym])

function vernaux_max :: "endianness \<Rightarrow> aux_iterator \<Rightarrow> u16 \<Rightarrow> (u16, string) result" where
  "vernaux_max e vernauxs max_index =
    (case VernauxIterator_next vernauxs of
       (Ok (Some vernaux), vernauxs') \<Rightarrow>
         (let index = vna_other (decode_vernaux e vernaux) AND VERSYM_VERSION
          in vernaux_max e vernauxs' (if max_index < index then index else max_index))
     | (Ok None, _) \<Rightarrow> Ok max_index
     | (Err m, _) \<Rightarrow> Err m
     | (Panic, _) \<Rightarrow> Panic)"
  by pat_completeness auto
termination
  by (relation "measure (\<lambda>(_, it, _). unat (aux_count it))")
    (auto dest!: VernauxIterator_next_shrinks [OF sym])

function verneed_max :: "endianness \<Rightarrow> entry_iterator \<Rightarrow> u16 \<Rightarrow> (u16, string) result" where
  "verneed_max e verneeds max_index =
    (case VerneedIterator_next verneeds of
       (Ok (Some (_, vernauxs)), verneeds') \<Rightarrow>
         and_then (vernaux_max e vernauxs max_index) (verneed_max e verneeds')
     | (Ok None, _) \<Rightarrow> Ok max_index
     | (Err m, _) \<Rightarrow> Err m
     | (Panic, _) \<Rightarrow> Panic)"
  by pat_completeness auto
termination
  by (relation "measure (\<lambda>(_, it, _). length (entry_data it))")
    (auto dest!: VerneedIterator_next_shrinks [OF sym])

text \<open>The last two loops: the entries of the table.\<close>

function verdef_versions :: "(u8 \<Rightarrow> bytes \<Rightarrow> nat option) \<Rightarrow> endianness \<Rightarrow> read_string_table \<Rightarrow>
    entry_iterator \<Rightarrow> version list \<Rightarrow> (version list, string) result" where
  "verdef_versions memchr e strs verdefs versions =
    (case VerdefIterator_next verdefs of
       (Ok (Some (verdef, verdauxs)), verdefs') \<Rightarrow>
         (if vd_flags (decode_verdef e verdef) AND VER_FLG_BASE \<noteq> 0
          then verdef_versions memchr e strs verdefs' versions
          else
            let index = vd_ndx (decode_verdef e verdef) AND VERSYM_VERSION
            in if index \<le> VER_NDX_GLOBAL then verdef_versions memchr e strs verdefs' versions
               else
                 and_then (fst (VerdauxIterator_next verdauxs)) (\<lambda>verdaux.
                 case verdaux of
                   Some verdaux \<Rightarrow>
                     and_then (Verdaux_name memchr verdaux e strs) (\<lambda>name.
                     and_then (list_assign (unat index)
                       \<lparr>version_name = name, version_hash = vd_hash (decode_verdef e verdef),
                        version_valid = True, version_file = None\<rparr> versions) (\<lambda>versions.
                     verdef_versions memchr e strs verdefs' versions))
                 | None \<Rightarrow> verdef_versions memchr e strs verdefs' versions))
     | (Ok None, _) \<Rightarrow> Ok versions
     | (Err m, _) \<Rightarrow> Err m
     | (Panic, _) \<Rightarrow> Panic)"
  by pat_completeness auto
termination
  by (relation "measure (\<lambda>(_, _, _, it, _). length (entry_data it))")
    (auto dest!: VerdefIterator_next_shrinks [OF sym])

function vernaux_versions :: "(u8 \<Rightarrow> bytes \<Rightarrow> nat option) \<Rightarrow> endianness \<Rightarrow> read_string_table \<Rightarrow>
    bytes \<Rightarrow> aux_iterator \<Rightarrow> version list \<Rightarrow> (version list, string) result" where
  "vernaux_versions memchr e strs verneed vernauxs versions =
    (case VernauxIterator_next vernauxs of
       (Ok (Some vernaux), vernauxs') \<Rightarrow>
         (let index = vna_other (decode_vernaux e vernaux) AND VERSYM_VERSION
          in if index \<le> VER_NDX_GLOBAL
             then vernaux_versions memchr e strs verneed vernauxs' versions
             else
               and_then (Vernaux_name memchr vernaux e strs) (\<lambda>name.
               and_then (Verneed_file memchr verneed e strs) (\<lambda>fname.
               and_then (list_assign (unat index)
                 \<lparr>version_name = name, version_hash = vna_hash (decode_vernaux e vernaux),
                  version_valid = True, version_file = Some fname\<rparr> versions) (\<lambda>versions.
               vernaux_versions memchr e strs verneed vernauxs' versions))))
     | (Ok None, _) \<Rightarrow> Ok versions
     | (Err m, _) \<Rightarrow> Err m
     | (Panic, _) \<Rightarrow> Panic)"
  by pat_completeness auto
termination
  by (relation "measure (\<lambda>(_, _, _, _, it, _). unat (aux_count it))")
    (auto dest!: VernauxIterator_next_shrinks [OF sym])

function verneed_versions :: "(u8 \<Rightarrow> bytes \<Rightarrow> nat option) \<Rightarrow> endianness \<Rightarrow> read_string_table \<Rightarrow>
    entry_iterator \<Rightarrow> version list \<Rightarrow> (version list, string) result" where
  "verneed_versions memchr e strs verneeds versions =
    (case VerneedIterator_next verneeds of
       (Ok (Some (verneed, vernauxs)), verneeds') \<Rightarrow>
         and_then (vernaux_versions memchr e strs verneed vernauxs versions)
           (verneed_versions memchr e strs verneeds')
     | (Ok None, _) \<Rightarrow> Ok versions
     | (Err m, _) \<Rightarrow> Err m
     | (Panic, _) \<Rightarrow> Panic)"
  by pat_completeness auto
termination
  by (relation "measure (\<lambda>(_, _, _, it, _). length (entry_data it))")
    (auto dest!: VerneedIterator_next_shrinks [OF sym])

declare verdef_max.simps [simp del] vernaux_max.simps [simp del] verneed_max.simps [simp del]
  verdef_versions.simps [simp del] vernaux_versions.simps [simp del] verneed_versions.simps [simp del]

definition VersionTable_parse :: "(u8 \<Rightarrow> bytes \<Rightarrow> nat option) \<Rightarrow> endianness \<Rightarrow> bytes list \<Rightarrow>
    entry_iterator option \<Rightarrow> entry_iterator option \<Rightarrow> read_string_table \<Rightarrow>
    (version_table, string) result" where
  "VersionTable_parse memchr e versyms verdefs verneeds strs =
    and_then (case verdefs of Some it \<Rightarrow> verdef_max e it 0 | None \<Rightarrow> Ok 0) (\<lambda>max_index.
    and_then (case verneeds of Some it \<Rightarrow> verneed_max e it max_index | None \<Rightarrow> Ok max_index) (\<lambda>max_index.
    let versions = replicate (unat max_index + 1) Version_default in
    and_then (case verdefs of Some it \<Rightarrow> verdef_versions memchr e strs it versions
              | None \<Rightarrow> Ok versions) (\<lambda>versions.
    and_then (case verneeds of Some it \<Rightarrow> verneed_versions memchr e strs it versions
              | None \<Rightarrow> Ok versions) (\<lambda>versions.
    Ok \<lparr>vt_symbols = versyms, vt_versions = versions\<rparr>))))"

definition VersionTable_is_empty :: "version_table \<Rightarrow> bool" where
  "VersionTable_is_empty self \<longleftrightarrow> vt_symbols self = []"

definition version_index :: "version_table \<Rightarrow> endianness \<Rightarrow> nat \<Rightarrow> u16" where
  "version_index self e index =
    (case get_opt (vt_symbols self) index of Some x \<Rightarrow> U_get x e | None \<Rightarrow> VER_NDX_GLOBAL)"

definition VersionTable_version :: "version_table \<Rightarrow> u16 \<Rightarrow> (version option, string) result" where
  "VersionTable_version self index =
    (if VersionIndex_index index \<le> VER_NDX_GLOBAL then Ok None
     else
       (case get_opt (vt_versions self) (unat (VersionIndex_index index)) of
          Some v \<Rightarrow> if version_valid v then Ok (Some v) else Err ''Invalid ELF symbol version index''
        | None \<Rightarrow> Err ''Invalid ELF symbol version index''))"

definition version_matches :: "version_table \<Rightarrow> endianness \<Rightarrow> nat \<Rightarrow> version option \<Rightarrow> bool" where
  "version_matches self e index need =
    (let vi = version_index self e index in
     case VersionTable_version self vi of
       Ok d \<Rightarrow>
         (case (d, need) of
            (Some d, Some need) \<Rightarrow> version_hash need = version_hash d \<and> version_name need = version_name d
          | (None, Some _) \<Rightarrow> False
          | (Some _, None) \<Rightarrow> \<not> VersionIndex_is_hidden vi
          | (None, None) \<Rightarrow> True)
     | _ \<Rightarrow> False)"

section \<open>Malformed input\<close>

text \<open>No operation on the iterators panics, whatever the section contains.\<close>

lemma names_no_panic:
  "Verdaux_name memchr x e strs \<noteq> Panic" "Verneed_file memchr x e strs \<noteq> Panic"
  "Vernaux_name memchr x e strs \<noteq> Panic"
  by (simp_all add: Verdaux_name_def Verneed_file_def Vernaux_name_def res_simps StringTable_get_no_panic)

lemma advance_entry_no_panic: "advance_entry nxt msg item self \<noteq> (Panic, self')"
  by (auto simp: advance_entry_def and_then_eq_Panic res_simps skip_no_panic split: prod.splits)

lemma entry_next_no_panic:
  "VerdefIterator_next self \<noteq> (Panic, self')" "VerneedIterator_next self \<noteq> (Panic, self')"
  by (auto simp: VerdefIterator_next_def VerneedIterator_next_def VerdefIterator_parse_def
      VerneedIterator_parse_def and_then_eq_Panic res_simps skip_no_panic advance_entry_no_panic
      Bytes_read_at_no_panic Let_def split: if_splits prod.splits result.splits)

lemma aux_next_no_panic:
  "VerdauxIterator_next a \<noteq> (Panic, a')" "VernauxIterator_next a \<noteq> (Panic, a')"
  by (auto simp: VerdauxIterator_next_def VerdauxIterator_parse_def VernauxIterator_next_def
      VernauxIterator_parse_def and_then_eq_Panic res_simps skip_no_panic Bytes_read_at_no_panic
      split: if_splits prod.splits result.splits)

lemma fst_next_no_panic: "fst (VerdauxIterator_next a) \<noteq> Panic"
  by (metis aux_next_no_panic(1) prod.collapse)

text \<open>The three ways a call of \<^verbatim>\<open>next\<close> can go, for each iterator of a loop.\<close>

lemma verdef_cases:
  obtains (finished) it' where "VerdefIterator_next it = (Ok None, it')"
  | (entry) d a it' where "VerdefIterator_next it = (Ok (Some (d, a)), it')"
      "length (entry_data it') < length (entry_data it)"
  | (error) m it' where "VerdefIterator_next it = (Err m, it')"
  using VerdefIterator_next_shrinks [of it] entry_next_no_panic(1) [of it]
  by (metis option.exhaust result.exhaust surj_pair)

lemma verneed_cases:
  obtains (finished) it' where "VerneedIterator_next it = (Ok None, it')"
  | (entry) d a it' where "VerneedIterator_next it = (Ok (Some (d, a)), it')"
      "length (entry_data it') < length (entry_data it)"
  | (error) m it' where "VerneedIterator_next it = (Err m, it')"
  using VerneedIterator_next_shrinks [of it] entry_next_no_panic(2) [of it]
  by (metis option.exhaust result.exhaust surj_pair)

lemma vernaux_cases:
  obtains (finished) it' where "VernauxIterator_next it = (Ok None, it')"
  | (entry) d it' where "VernauxIterator_next it = (Ok (Some d), it')"
      "unat (aux_count it') < unat (aux_count it)"
  | (error) m it' where "VernauxIterator_next it = (Err m, it')"
  using VernauxIterator_next_shrinks [of it] aux_next_no_panic(2) [of it]
  by (metis option.exhaust result.exhaust surj_pair)

lemma verdef_loop_simps [simp]:
  "VerdefIterator_next it = (Ok None, it') \<Longrightarrow> verdef_max e it m = Ok m"
  "VerdefIterator_next it = (Err x, it') \<Longrightarrow> verdef_max e it m = Err x"
  "VerdefIterator_next it = (Ok None, it') \<Longrightarrow> verdef_versions memchr e strs it vs = Ok vs"
  "VerdefIterator_next it = (Err x, it') \<Longrightarrow> verdef_versions memchr e strs it vs = Err x"
  by (simp_all add: verdef_max.simps [of e it] verdef_versions.simps [of memchr e strs it])

lemma vernaux_loop_simps [simp]:
  "VernauxIterator_next ait = (Ok None, ait') \<Longrightarrow> vernaux_max e ait m = Ok m"
  "VernauxIterator_next ait = (Err x, ait') \<Longrightarrow> vernaux_max e ait m = Err x"
  "VernauxIterator_next ait = (Ok None, ait') \<Longrightarrow> vernaux_versions memchr e strs d ait vs = Ok vs"
  "VernauxIterator_next ait = (Err x, ait') \<Longrightarrow> vernaux_versions memchr e strs d ait vs = Err x"
  by (simp_all add: vernaux_max.simps [of e ait] vernaux_versions.simps [of memchr e strs d ait])

lemma verneed_loop_simps [simp]:
  "VerneedIterator_next it = (Ok None, it') \<Longrightarrow> verneed_max e it m = Ok m"
  "VerneedIterator_next it = (Err x, it') \<Longrightarrow> verneed_max e it m = Err x"
  "VerneedIterator_next it = (Ok None, it') \<Longrightarrow> verneed_versions memchr e strs it vs = Ok vs"
  "VerneedIterator_next it = (Err x, it') \<Longrightarrow> verneed_versions memchr e strs it vs = Err x"
  by (simp_all add: verneed_max.simps [of e it] verneed_versions.simps [of memchr e strs it])

lemmas verdef_step = verdef_max.simps [of e it for e it] verdef_versions.simps [of memchr e strs it for memchr e strs it]
lemmas vernaux_step = vernaux_max.simps [of e it for e it] vernaux_versions.simps [of memchr e strs d it for memchr e strs d it]
lemmas verneed_step = verneed_max.simps [of e it for e it] verneed_versions.simps [of memchr e strs it for memchr e strs it]

text \<open>
  The first loops do not panic and compute an upper bound; the table has more entries than this
  bound, so the loops that fill it do not panic either.
\<close>

lemma verdef_max_ok: "verdef_max e it m \<noteq> Panic \<and> (\<forall>M. verdef_max e it m = Ok M \<longrightarrow> m \<le> M)"
proof (induction "length (entry_data it)" arbitrary: it m rule: less_induct)
  case less
  show ?case
  proof (cases it rule: verdef_cases)
    case (entry d a it')
    with less.hyps [of it'] show ?thesis
      by (auto simp: verdef_max.simps [of e it] Let_def intro: order.trans less_imp_le)
  qed auto
qed

lemma vernaux_max_ok: "vernaux_max e it m \<noteq> Panic \<and> (\<forall>M. vernaux_max e it m = Ok M \<longrightarrow> m \<le> M)"
proof (induction "unat (aux_count it)" arbitrary: it m rule: less_induct)
  case less
  show ?case
  proof (cases it rule: vernaux_cases)
    case (entry d it')
    with less.hyps [of it'] show ?thesis
      by (auto simp: vernaux_max.simps [of e it] Let_def intro: order.trans less_imp_le)
  qed auto
qed

lemma verneed_max_ok: "verneed_max e it m \<noteq> Panic \<and> (\<forall>M. verneed_max e it m = Ok M \<longrightarrow> m \<le> M)"
proof (induction "length (entry_data it)" arbitrary: it m rule: less_induct)
  case less
  show ?case
  proof (cases it rule: verneed_cases)
    case (entry d a it')
    with less.hyps [of it'] vernaux_max_ok [of e a m] show ?thesis
      by (auto simp: verneed_max.simps [of e it] split: and_then_split intro: order.trans)
  qed auto
qed

definition table_step_ok :: "nat \<Rightarrow> (version list, string) result \<Rightarrow> bool" where
  "table_step_ok n r \<longleftrightarrow> r \<noteq> Panic \<and> (\<forall>versions. r = Ok versions \<longrightarrow> length versions = n)"

lemma table_step_ok_simps [simp]:
  "table_step_ok n (Err m)" "table_step_ok n (Ok versions) \<longleftrightarrow> length versions = n"
  by (simp_all add: table_step_ok_def)

lemma table_step_ok_assign:
  "i < length versions \<Longrightarrow> (\<And>versions'. length versions' = length versions \<Longrightarrow> table_step_ok n (f versions')) \<Longrightarrow>
    table_step_ok n (and_then (list_assign i v versions) f)"
  by (simp add: list_assign_def)

lemma table_step_ok_then:
  "m \<noteq> Panic \<Longrightarrow> (\<And>a. m = Ok a \<Longrightarrow> table_step_ok n (f a)) \<Longrightarrow> table_step_ok n (and_then m f)"
  by (cases m) simp_all

lemma verdef_versions_ok:
  "verdef_max e it m = Ok M \<Longrightarrow> unat M < length versions \<Longrightarrow>
    table_step_ok (length versions) (verdef_versions memchr e strs it versions)"
proof (induction "length (entry_data it)" arbitrary: it m versions rule: less_induct)
  case less
  show ?case
  proof (cases it rule: verdef_cases)
    case (entry d a it')
    note step = verdef_max.simps [of e it] verdef_versions.simps [of memchr e strs it] entry(1)
    let ?i = "vd_ndx (decode_verdef e d) AND VERSYM_VERSION"
    show ?thesis
    proof (cases "vd_flags (decode_verdef e d) AND VER_FLG_BASE \<noteq> 0")
      case True
      with less.hyps [OF entry(2), of m versions] less.prems show ?thesis by (simp add: step)
    next
      case False
      define m' where "m' = (if m < ?i then ?i else m)"
      have M: "verdef_max e it' m' = Ok M" using False less.prems(1) by (simp add: step Let_def m'_def)
      have IH: "length vs = length versions \<Longrightarrow>
          table_step_ok (length versions) (verdef_versions memchr e strs it' vs)" for vs
        using less.hyps [OF entry(2) M, of vs] less.prems(2) by simp
      have "?i \<le> m'" by (simp add: m'_def not_less)
      with M verdef_max_ok [of e it' m'] have "unat ?i \<le> unat M"
        by (auto simp flip: word_le_nat_alt intro: order.trans)
      then have i: "unat ?i < length versions" using less.prems(2) by simp
      show ?thesis
        using False
        by (auto simp: step Let_def IH names_no_panic fst_next_no_panic i
            intro!: table_step_ok_then table_step_ok_assign split: option.splits)
    qed
  qed auto
qed

lemma vernaux_versions_ok:
  "vernaux_max e it m = Ok M \<Longrightarrow> unat M < length versions \<Longrightarrow>
    table_step_ok (length versions) (vernaux_versions memchr e strs need it versions)"
proof (induction "unat (aux_count it)" arbitrary: it m versions rule: less_induct)
  case less
  show ?case
  proof (cases it rule: vernaux_cases)
    case (entry d it')
    note step = vernaux_max.simps [of e it] vernaux_versions.simps [of memchr e strs need it] entry(1)
    let ?i = "vna_other (decode_vernaux e d) AND VERSYM_VERSION"
    define m' where "m' = (if m < ?i then ?i else m)"
    have M: "vernaux_max e it' m' = Ok M" using less.prems(1) by (simp add: step Let_def m'_def)
    have IH: "length vs = length versions \<Longrightarrow>
        table_step_ok (length versions) (vernaux_versions memchr e strs need it' vs)" for vs
      using less.hyps [OF entry(2) M, of vs] less.prems(2) by simp
    have "?i \<le> m'" by (simp add: m'_def not_less)
    with M vernaux_max_ok [of e it' m'] have "unat ?i \<le> unat M"
      by (auto simp flip: word_le_nat_alt intro: order.trans)
    then have i: "unat ?i < length versions" using less.prems(2) by simp
    show ?thesis
      by (auto simp: step Let_def IH names_no_panic i intro!: table_step_ok_then table_step_ok_assign)
  qed auto
qed

lemma verneed_versions_ok:
  "verneed_max e it m = Ok M \<Longrightarrow> unat M < length versions \<Longrightarrow>
    table_step_ok (length versions) (verneed_versions memchr e strs it versions)"
proof (induction "length (entry_data it)" arbitrary: it m versions rule: less_induct)
  case less
  show ?case
  proof (cases it rule: verneed_cases)
    case (entry d a it')
    note step = verneed_max.simps [of e it] verneed_versions.simps [of memchr e strs it] entry(1)
    from less.prems(1) obtain m' where m': "vernaux_max e a m = Ok m'" "verneed_max e it' m' = Ok M"
      by (auto simp: step res_simps)
    then have "unat m' \<le> unat M" using verneed_max_ok [of e it' m'] by (auto simp flip: word_le_nat_alt)
    with less.prems(2) have "table_step_ok (length versions) (vernaux_versions memchr e strs d a versions)"
      by (intro vernaux_versions_ok [OF m'(1)]) simp
    then have np: "vernaux_versions memchr e strs d a versions \<noteq> Panic"
      and len: "vernaux_versions memchr e strs d a versions = Ok vs \<Longrightarrow> length vs = length versions" for vs
      by (simp_all add: table_step_ok_def)
    from np have "table_step_ok (length versions) (and_then (vernaux_versions memchr e strs d a versions)
        (verneed_versions memchr e strs it'))"
    proof (rule table_step_ok_then)
      fix vs assume "vernaux_versions memchr e strs d a versions = Ok vs"
      with len have "length vs = length versions" by simp
      then show "table_step_ok (length versions) (verneed_versions memchr e strs it' vs)"
        using less.hyps [OF entry(2) m'(2), of vs] less.prems(2) by simp
    qed
    then show ?thesis by (simp add: step(2) entry(1))
  qed auto
qed

lemma VersionTable_parse_ok:
  "VersionTable_parse memchr e versyms verdefs verneeds strs \<noteq> Panic"
proof -
  let ?defs = "case verdefs of Some it \<Rightarrow> verdef_max e it 0 | None \<Rightarrow> Ok 0"
  let ?needs = "\<lambda>M. case verneeds of Some it \<Rightarrow> verneed_max e it M | None \<Rightarrow> Ok M"
  have defs: "?defs \<noteq> Panic" using verdef_max_ok by (auto split: option.splits)
  have needs: "?needs M \<noteq> Panic" for M using verneed_max_ok by (auto split: option.splits)
  have fill: "table_step_ok n (case verdefs of Some it \<Rightarrow> verdef_versions memchr e strs it vs | None \<Rightarrow> Ok vs)"
    if "?defs = Ok M1" "M1 \<le> M" "length vs = n" "unat M < n" for M1 M vs n
  proof (cases verdefs)
    case (Some it)
    have "unat M1 < length vs" using that by (simp add: word_le_nat_alt)
    with Some that show ?thesis using verdef_versions_ok [of e it 0 M1 vs memchr strs] by simp
  qed (use that in simp)
  have fill2: "table_step_ok n (case verneeds of Some it \<Rightarrow> verneed_versions memchr e strs it vs | None \<Rightarrow> Ok vs)"
    if "?needs M1 = Ok M" "length vs = n" "unat M < n" for M1 M vs n
    using that verneed_versions_ok [of e _ M1 M vs memchr strs] by (auto split: option.splits)
  have mono: "M1 \<le> M" if "?needs M1 = Ok M" for M1 M
    using that verneed_max_ok [of e _ M1] by (auto split: option.splits)
  have fill_all: "and_then (case verdefs of Some it \<Rightarrow> verdef_versions memchr e strs it vs | None \<Rightarrow> Ok vs) (\<lambda>vs.
      and_then (case verneeds of Some it \<Rightarrow> verneed_versions memchr e strs it vs | None \<Rightarrow> Ok vs) (\<lambda>vs.
      Ok \<lparr>vt_symbols = versyms, vt_versions = vs\<rparr>)) \<noteq> Panic"
    if "?defs = Ok M1" "?needs M1 = Ok M" "length vs = unat M + 1" for M1 M vs
    using fill [OF that(1) mono [OF that(2)] that(3)] fill2 [OF that(2)]
    by (auto simp: and_then_eq_Panic table_step_ok_def)
  show ?thesis
  proof (cases ?defs)
    case (Ok M1)
    show ?thesis
    proof (cases "?needs M1")
      case M: (Ok M)
      show ?thesis
        using fill_all [OF Ok M] by (simp add: VersionTable_parse_def Ok M Let_def del: replicate.simps)
    next
      case Panic
      with needs show ?thesis by simp
    qed (simp add: VersionTable_parse_def Ok)
  next
    case Panic
    with defs show ?thesis by simp
  qed (simp add: VersionTable_parse_def)
qed

section \<open>The contract of the iterators\<close>

interpretation verdef_iter: fallible_iterator VerdefIterator_next "\<lambda>self. length (entry_data self)" "\<lambda>_. True"
proof
  fix it it' :: entry_iterator and a e
  show "fst (VerdefIterator_next it) \<noteq> Panic" using entry_next_no_panic(1) [of it] by (metis prod.collapse)
  show "VerdefIterator_next it = (Ok (Some a), it') \<Longrightarrow> length (entry_data it') < length (entry_data it)"
    by (rule VerdefIterator_next_shrinks)
qed (auto simp: VerdefIterator_next_def Bytes_is_empty_def split: if_splits prod.splits result.splits)

interpretation verneed_iter: fallible_iterator VerneedIterator_next "\<lambda>self. length (entry_data self)" "\<lambda>_. True"
proof
  fix it it' :: entry_iterator and a e
  show "fst (VerneedIterator_next it) \<noteq> Panic" using entry_next_no_panic(2) [of it] by (metis prod.collapse)
  show "VerneedIterator_next it = (Ok (Some a), it') \<Longrightarrow> length (entry_data it') < length (entry_data it)"
    by (rule VerneedIterator_next_shrinks)
qed (auto simp: VerneedIterator_next_def Bytes_is_empty_def split: if_splits prod.splits result.splits)

interpretation verdaux_iter: fallible_iterator VerdauxIterator_next "\<lambda>self. unat (aux_count self)" "\<lambda>_. True"
proof
  fix it it' :: aux_iterator and a e
  show "fst (VerdauxIterator_next it) \<noteq> Panic" by (rule fst_next_no_panic)
  assume "VerdauxIterator_next it = (Ok (Some a), it')"
  then have "aux_count it \<noteq> 0" "aux_count it' = aux_count it - 1"
    by (auto simp: VerdauxIterator_next_def VerdauxIterator_parse_def split: if_splits result.splits prod.splits)
  then show "unat (aux_count it') < unat (aux_count it)" by (simp add: unat_minus_one unat_gt_0)
qed (auto simp: VerdauxIterator_next_def unat_eq_0 split: if_splits prod.splits result.splits)

interpretation vernaux_iter: fallible_iterator VernauxIterator_next "\<lambda>self. unat (aux_count self)" "\<lambda>_. True"
proof
  fix it it' :: aux_iterator and a e
  show "fst (VernauxIterator_next it) \<noteq> Panic" using aux_next_no_panic(2) [of it] by (metis prod.collapse)
  show "VernauxIterator_next it = (Ok (Some a), it') \<Longrightarrow> unat (aux_count it') < unat (aux_count it)"
    by (rule VernauxIterator_next_shrinks)
qed (auto simp: VernauxIterator_next_def unat_eq_0 split: if_splits prod.splits result.splits)

section \<open>Properties\<close>

text \<open>C12: building the version table never panics, whatever the contents of the version sections: every index that is stored lies below the size computed by the first pass over the same entries.\<close>

theorem version_table_parse_total:
  "VersionTable_parse memchr e versyms verdefs verneeds strs \<noteq> Panic"
  by (rule VersionTable_parse_ok)

end
