(* ===== verification/Elf_Hash.thy ===== *)
theory Elf_Hash
  imports Elf_Version Elf_Writer_Dynamic Elf_Layout
begin

text \<open>
  \<^verbatim>\<open>src/read/elf/hash.rs\<close>: the readers of the SysV and GNU symbol hash tables, and what the reader
  finds in a table that \<^verbatim>\<open>Writer::write_hash\<close> has filled. An index out of range and a division by
  the number of buckets when there are none are panics, as in the code.
\<close>

section \<open>The SysV hash table\<close>

record hash_table =
  ht_buckets :: "bytes list"
  ht_chains :: "bytes list"

definition HashTable_parse :: "endianness \<Rightarrow> bytes \<Rightarrow> (hash_table, string) result" where
  "HashTable_parse e data =
    (case read_pod 8 data 0 of (header, offset) \<Rightarrow>
     and_then (read_error header ''Invalid hash header'') (\<lambda>header.
     case read_slice 4 data offset (unat (bucket_count (decode_hash_header e header))) of (buckets, offset) \<Rightarrow>
     and_then (read_error buckets ''Invalid hash buckets'') (\<lambda>buckets.
     case read_slice 4 data offset (unat (chain_count (decode_hash_header e header))) of (chain_words, _) \<Rightarrow>
     and_then (read_error chain_words ''Invalid hash chains'') (\<lambda>chain_words.
     Ok \<lparr>ht_buckets = buckets, ht_chains = chain_words\<rparr>))))"

definition HashTable_symbol_table_length :: "hash_table \<Rightarrow> u32" where
  "HashTable_symbol_table_length self = word_of_nat (length (ht_chains self))"

definition hash_bucket :: "bytes list \<Rightarrow> endianness \<Rightarrow> u32 \<Rightarrow> (nat, string) result" where
  "hash_bucket buckets e hash =
    (if length buckets = 0 then Panic
     else and_then (index_list buckets (unat hash mod length buckets)) (\<lambda>b. Ok (unat (U_get b e :: u32))))"

definition hash_chain :: "hash_table \<Rightarrow> endianness \<Rightarrow> nat \<Rightarrow> (nat, string) result" where
  "hash_chain self e index =
    and_then (index_list (ht_chains self) index) (\<lambda>c. Ok (unat (U_get c e :: u32)))"

text \<open>The test of a candidate.\<close>

definition symbol_matches :: "(u8 \<Rightarrow> bytes \<Rightarrow> nat option) \<Rightarrow> 'w::len word elf_types \<Rightarrow> endianness \<Rightarrow>
    bytes \<Rightarrow> version option \<Rightarrow> symbol_table \<Rightarrow> version_table \<Rightarrow> nat \<Rightarrow> bytes \<Rightarrow> bool" where
  "symbol_matches memchr C e name version symbols versions index symbol \<longleftrightarrow>
    Sym_name memchr C symbol e (symt_strings symbols) = Ok name \<and> version_matches versions e index version"

function hash_find_loop :: "(u8 \<Rightarrow> bytes \<Rightarrow> nat option) \<Rightarrow> 'w::len word elf_types \<Rightarrow> hash_table \<Rightarrow>
    endianness \<Rightarrow> bytes \<Rightarrow> version option \<Rightarrow> symbol_table \<Rightarrow> version_table \<Rightarrow> nat \<Rightarrow> nat \<Rightarrow>
    ((nat \<times> bytes) option, string) result" where
  "hash_find_loop memchr C self e name version symbols versions index i =
    (if index \<noteq> 0 \<and> i < length (ht_chains self) then
       (case SymbolTable_symbol symbols index of
          Ok symbol \<Rightarrow>
            if symbol_matches memchr C e name version symbols versions index symbol
            then Ok (Some (index, symbol))
            else and_then (hash_chain self e index) (\<lambda>index.
              hash_find_loop memchr C self e name version symbols versions index (i + 1))
        | _ \<Rightarrow> and_then (hash_chain self e index) (\<lambda>index.
              hash_find_loop memchr C self e name version symbols versions index (i + 1)))
     else Ok None)"
  by pat_completeness auto
termination
  by (relation "measure (\<lambda>(_, _, self, _, _, _, _, _, _, i). length (ht_chains self) - i)") auto

declare hash_find_loop.simps [simp del]

definition HashTable_find :: "(u8 \<Rightarrow> bytes \<Rightarrow> nat option) \<Rightarrow> 'w::len word elf_types \<Rightarrow> hash_table \<Rightarrow>
    endianness \<Rightarrow> bytes \<Rightarrow> u32 \<Rightarrow> version option \<Rightarrow> symbol_table \<Rightarrow> version_table \<Rightarrow>
    ((nat \<times> bytes) option, string) result" where
  "HashTable_find memchr C self e name hash version symbols versions =
    and_then (hash_bucket (ht_buckets self) e hash) (\<lambda>index.
    hash_find_loop memchr C self e name version symbols versions index 0)"

section \<open>The GNU hash table\<close>

record gnu_hash_table =
  gt_symbol_base :: u32
  gt_bloom_shift :: u32
  gt_bloom_filters :: bytes
  gt_buckets :: "bytes list"
  gt_values :: "bytes list"

text \<open>\<^verbatim>\<open>mem::size_of::<Elf::Word>()\<close>.\<close>

definition size_of_word :: "'w::len word elf_types \<Rightarrow> nat" where
  "size_of_word C = LENGTH('w) div 8"

definition GnuHashTable_parse :: "'w::len word elf_types \<Rightarrow> endianness \<Rightarrow> bytes \<Rightarrow>
    (gnu_hash_table, string) result" where
  "GnuHashTable_parse C e data =
    (case read_pod 16 data 0 of (header, offset) \<Rightarrow>
     and_then (read_error header ''Invalid GNU hash header'') (\<lambda>header.
     let h = decode_gnu_hash_header e header in
     and_then (word_mul (ucast (bloom_count h)) (word_of_nat (size_of_word C) :: u64)) (\<lambda>bloom_len.
     case read_bytes data offset bloom_len of (filters, offset) \<Rightarrow>
     and_then (read_error filters ''Invalid GNU hash bloom filters'') (\<lambda>filters.
     case read_slice 4 data offset (unat (gnu_bucket_count h)) of (buckets, offset) \<Rightarrow>
     and_then (read_error buckets ''Invalid GNU hash buckets'') (\<lambda>buckets.
     and_then (usize_sub (length data) (unat offset)) (\<lambda>rest.
     case read_slice 4 data offset (rest div 4) of (values, _) \<Rightarrow>
     and_then (read_error values ''Invalid GNU hash values'') (\<lambda>values.
     Ok \<lparr>gt_symbol_base = symbol_base h, gt_bloom_shift = bloom_shift h,
         gt_bloom_filters = filters, gt_buckets = buckets, gt_values = values\<rparr>)))))))"

text \<open>The two loops of \<^verbatim>\<open>symbol_table_length\<close>.\<close>

definition max_bucket :: "endianness \<Rightarrow> bytes list \<Rightarrow> u32" where
  "max_bucket e buckets =
    fold (\<lambda>b m. let v = U_get b e in if m < v then v else m) buckets 0"

fun chain_end_loop :: "endianness \<Rightarrow> u32 \<Rightarrow> bytes list \<Rightarrow> (u32 option, string) result" where
  "chain_end_loop e max_symbol [] = Ok None"
| "chain_end_loop e max_symbol (v # vs) =
    and_then (word_add max_symbol 1) (\<lambda>max_symbol.
    if U_get v e AND (1 :: u32) \<noteq> 0 then Ok (Some max_symbol) else chain_end_loop e max_symbol vs)"

definition GnuHashTable_symbol_table_length :: "gnu_hash_table \<Rightarrow> endianness \<Rightarrow> (u32 option, string) result" where
  "GnuHashTable_symbol_table_length self e =
    (if gt_symbol_base self = 0 then Ok None
     else
       let max_symbol = max_bucket e (gt_buckets self) in
       case word_checked_sub max_symbol (gt_symbol_base self) of
         None \<Rightarrow> Ok None
       | Some start \<Rightarrow>
           (case get_from (gt_values self) (unat start) of
              None \<Rightarrow> Ok None
            | Some values \<Rightarrow> chain_end_loop e max_symbol values))"

fun gnu_find_loop :: "(u8 \<Rightarrow> bytes \<Rightarrow> nat option) \<Rightarrow> 'w::len word elf_types \<Rightarrow> endianness \<Rightarrow> bytes \<Rightarrow>
    u32 \<Rightarrow> version option \<Rightarrow> symbol_table \<Rightarrow> version_table \<Rightarrow> nat \<Rightarrow> (bytes \<times> bytes) list \<Rightarrow>
    (nat \<times> bytes) option" where
  "gnu_find_loop memchr C e name hash version symbols versions index [] = None"
| "gnu_find_loop memchr C e name hash version symbols versions index ((symbol, value) # rest) =
    (let v = U_get value e :: u32 in
     if v OR 1 = hash OR 1 \<and> symbol_matches memchr C e name version symbols versions index symbol
     then Some (index, symbol)
     else if v AND 1 \<noteq> 0 then None
     else gnu_find_loop memchr C e name hash version symbols versions (index + 1) rest)"

text \<open>The test against the bloom filter in \<^verbatim>\<open>find\<close>; a filter that cannot be read is a \<^verbatim>\<open>None\<close>.\<close>

definition gnu_bloom_test :: "'w::len word elf_types \<Rightarrow> gnu_hash_table \<Rightarrow> endianness \<Rightarrow> u32 \<Rightarrow>
    (bool, string) result" where
  "gnu_bloom_test C self e hash =
    and_then (word_mul (word_of_nat (size_of_word C)) (8 :: u32)) (\<lambda>word_bits.
    let bloom_cnt = length (gt_bloom_filters self) div size_of_word C in
    and_then (word_sub (word_of_nat bloom_cnt) (1 :: u32)) (\<lambda>m.
    and_then (word_mul ((hash div word_bits) AND m) (word_of_nat (size_of_word C))) (\<lambda>offset.
    case (if word_bits = 64
          then and_then (read_pod_at 8 (gt_bloom_filters self) (ucast offset)) (\<lambda>f. Ok (U_get f e :: u64))
          else and_then (read_pod_at 4 (gt_bloom_filters self) (ucast offset)) (\<lambda>f. Ok (ucast (U_get f e :: u32)))) of
      Err _ \<Rightarrow> Ok False
    | Panic \<Rightarrow> Panic
    | Ok filt \<Rightarrow>
        if filt AND push_bit (unat (hash mod word_bits)) 1 = 0 then Ok False
        else
          and_then (word_shr hash (unat (gt_bloom_shift self))) (\<lambda>h2.
          Ok (filt AND push_bit (unat (h2 mod word_bits)) 1 \<noteq> 0)))))"

text \<open>The rest of \<^verbatim>\<open>find\<close>: the chain of the bucket.\<close>

definition gnu_chain_find :: "(u8 \<Rightarrow> bytes \<Rightarrow> nat option) \<Rightarrow> 'w::len word elf_types \<Rightarrow>
    gnu_hash_table \<Rightarrow> endianness \<Rightarrow> bytes \<Rightarrow> u32 \<Rightarrow> version option \<Rightarrow> symbol_table \<Rightarrow> version_table \<Rightarrow>
    ((nat \<times> bytes) option, string) result" where
  "gnu_chain_find memchr C self e name hash version symbols versions =
    and_then (hash_bucket (gt_buckets self) e hash) (\<lambda>index.
    if index = 0 then Ok None
    else
      (case get_from (symt_symbols symbols) index of
         None \<Rightarrow> Ok None
       | Some syms \<Rightarrow>
           if index < unat (gt_symbol_base self) then Ok None
           else
             (case get_from (gt_values self) (index - unat (gt_symbol_base self)) of
                None \<Rightarrow> Ok None
              | Some values \<Rightarrow>
                  Ok (gnu_find_loop memchr C e name hash version symbols versions index
                    (zip syms values)))))"

definition GnuHashTable_find :: "(u8 \<Rightarrow> bytes \<Rightarrow> nat option) \<Rightarrow> 'w::len word elf_types \<Rightarrow>
    gnu_hash_table \<Rightarrow> endianness \<Rightarrow> bytes \<Rightarrow> u32 \<Rightarrow> version option \<Rightarrow> symbol_table \<Rightarrow> version_table \<Rightarrow>
    ((nat \<times> bytes) option, string) result" where
  "GnuHashTable_find memchr C self e name hash version symbols versions =
    and_then (gnu_bloom_test C self e hash) (\<lambda>passed.
    if passed then gnu_chain_find memchr C self e name hash version symbols versions else Ok None)"

section \<open>What \<open>write_hash\<close> stores\<close>

text \<open>The largest index below a bound with a property, or 0.\<close>

primrec last_below :: "(nat \<Rightarrow> bool) \<Rightarrow> nat \<Rightarrow> nat" where
  "last_below P 0 = 0"
| "last_below P (Suc n) = (if P n then n else last_below P n)"

lemma last_below_less: "last_below P n \<noteq> 0 \<Longrightarrow> last_below P n < n \<and> P (last_below P n)"
  by (induction n) (auto simp: less_Suc_eq)

lemma last_below_max: "j < n \<Longrightarrow> P j \<Longrightarrow> j \<le> last_below P n"
  by (induction n) (auto simp: less_Suc_eq dest: last_below_less intro: order.trans less_imp_le)

lemma last_below_le: "last_below P n \<le> n"
  by (induction n) auto

text \<open>The bucket of a symbol, and the contents of the two arrays after the symbols below \<open>k\<close>.\<close>

definition bucket_of :: "(u32 \<Rightarrow> u32 option) \<Rightarrow> u32 \<Rightarrow> nat \<Rightarrow> nat option" where
  "bucket_of hash cnt i = map_option (\<lambda>h. unat (h mod cnt)) (hash (word_of_nat i))"

definition filled_buckets :: "(u32 \<Rightarrow> u32 option) \<Rightarrow> u32 \<Rightarrow> nat \<Rightarrow> u32 list" where
  "filled_buckets hash cnt k =
    map (\<lambda>b. word_of_nat (last_below (\<lambda>i. bucket_of hash cnt i = Some b) k)) [0 ..< unat cnt]"

definition chain_word :: "(u32 \<Rightarrow> u32 option) \<Rightarrow> u32 \<Rightarrow> nat \<Rightarrow> u32" where
  "chain_word hash cnt i =
    (case bucket_of hash cnt i of None \<Rightarrow> 0
     | Some b \<Rightarrow> word_of_nat (last_below (\<lambda>j. bucket_of hash cnt j = Some b) i))"

definition filled_chains :: "(u32 \<Rightarrow> u32 option) \<Rightarrow> u32 \<Rightarrow> nat \<Rightarrow> nat \<Rightarrow> u32 list" where
  "filled_chains hash cnt n k = map (\<lambda>i. if i < k then chain_word hash cnt i else 0) [0 ..< n]"

lemma hash_fill_append:
  "hash_fill hash cnt (xs @ ys) bs cs =
    and_then (hash_fill hash cnt xs bs cs) (\<lambda>(bs, cs). hash_fill hash cnt ys bs cs)"
  by (induction xs arbitrary: bs cs) (auto simp: and_then_assoc split: option.split)

lemma bucket_of_bound: "cnt \<noteq> 0 \<Longrightarrow> bucket_of hash cnt i = Some b \<Longrightarrow> b < unat cnt"
  by (auto simp: bucket_of_def unat_mod unat_gt_0)

lemma hash_fill_ok:
  assumes "cnt \<noteq> 0"
  shows "k \<le> n \<Longrightarrow> hash_fill hash cnt [0 ..< k] (replicate (unat cnt) 0) (replicate n 0) =
    Ok (filled_buckets hash cnt k, filled_chains hash cnt n k)"
proof (induction k)
  case 0
  show ?case by (simp add: filled_buckets_def filled_chains_def map_replicate_const)
next
  case (Suc k)
  let ?bs = "filled_buckets hash cnt k" and ?cs = "filled_chains hash cnt n k"
  have step: "hash_fill hash cnt [0 ..< Suc k] (replicate (unat cnt) 0) (replicate n 0) =
      hash_fill hash cnt [k] ?bs ?cs"
    using Suc by (simp add: hash_fill_append del: hash_fill.simps)
  show ?case
  proof (cases "hash (word_of_nat k)")
    case None
    then have b: "bucket_of hash cnt k = None" by (simp add: bucket_of_def)
    have "filled_buckets hash cnt (Suc k) = ?bs" by (simp add: filled_buckets_def b)
    moreover have "filled_chains hash cnt n (Suc k) = ?cs"
      using b by (auto simp: filled_chains_def chain_word_def less_Suc_eq)
    ultimately show ?thesis unfolding step by (simp add: None)
  next
    case (Some h)
    let ?b = "unat (h mod cnt)"
    have b: "bucket_of hash cnt k = Some ?b" using Some by (simp add: bucket_of_def)
    have bound: "?b < unat cnt" using assms by (simp add: unat_mod unat_gt_0)
    have prev: "index_list ?bs ?b = (Ok (chain_word hash cnt k) :: (u32, string) result)"
      using bound b by (simp add: index_list_def filled_buckets_def chain_word_def)
    have "?cs[k := chain_word hash cnt k] = filled_chains hash cnt n (Suc k)"
      using Suc.prems by (intro nth_equalityI) (auto simp: filled_chains_def nth_list_update less_Suc_eq)
    moreover have "?bs[?b := word_of_nat k] = filled_buckets hash cnt (Suc k)"
      using bound b by (intro nth_equalityI) (auto simp: filled_buckets_def nth_list_update)
    moreover have "k < length ?cs" "?b < length ?bs"
      using Suc.prems bound by (simp_all add: filled_chains_def filled_buckets_def)
    ultimately show ?thesis
      unfolding step using assms prev by (simp add: Some word_rem_def list_assign_def)
  qed
qed

section \<open>Finding a symbol\<close>

definition candidate :: "(u8 \<Rightarrow> bytes \<Rightarrow> nat option) \<Rightarrow> 'w::len word elf_types \<Rightarrow> endianness \<Rightarrow> bytes \<Rightarrow>
    version option \<Rightarrow> symbol_table \<Rightarrow> version_table \<Rightarrow> nat \<Rightarrow> bool" where
  "candidate memchr C e name version symbols versions j \<longleftrightarrow>
    j < length (symt_symbols symbols) \<and>
    symbol_matches memchr C e name version symbols versions j (symt_symbols symbols ! j)"

definition written_table :: "endianness \<Rightarrow> (u32 \<Rightarrow> u32 option) \<Rightarrow> u32 \<Rightarrow> nat \<Rightarrow> hash_table" where
  "written_table e hash cnt n =
    \<lparr>ht_buckets = map (U_new e) (filled_buckets hash cnt n),
     ht_chains = map (U_new e) (filled_chains hash cnt n n)\<rparr>"

lemma find_rev_upt_skip:
  "k \<le> m \<Longrightarrow> 1 \<le> k \<Longrightarrow> \<forall>j. k \<le> j \<and> j < m \<longrightarrow> \<not> P j \<Longrightarrow>
    find P (rev [1 ..< m]) = find P (rev [1 ..< k])"
  by (induction m rule: dec_induct) auto

lemma find_rev_upt_first:
  assumes "1 \<le> j" "j < m" "P j" "\<forall>i. j < i \<and> i < m \<longrightarrow> \<not> P i"
  shows "find P (rev [1 ..< m]) = Some j"
  using find_rev_upt_skip [of "Suc j" m P] assms by (simp add: Suc_le_eq)

lemma hash_chain_written:
  assumes "j < n" "n \<le> 2 ^ 32" "bucket_of hash cnt j = Some b"
  shows "hash_chain (written_table e hash cnt n) e j = Ok (last_below (\<lambda>i. bucket_of hash cnt i = Some b) j)"
proof -
  have "last_below (\<lambda>i. bucket_of hash cnt i = Some b) j < 2 ^ 32"
    using last_below_le [of "\<lambda>i. bucket_of hash cnt i = Some b" j] assms by linarith
  then show ?thesis using assms
    by (simp add: hash_chain_def written_table_def filled_chains_def chain_word_def res_simps unat_of_nat)
qed

lemma hash_bucket_written:
  assumes "cnt \<noteq> 0" "n \<le> 2 ^ 32" "n > 0"
  shows "hash_bucket (ht_buckets (written_table e hash cnt n)) e h =
    Ok (last_below (\<lambda>i. bucket_of hash cnt i = Some (unat (h mod cnt))) n)"
proof -
  let ?Q = "\<lambda>i. bucket_of hash cnt i = Some (unat (h mod cnt))"
  have "last_below ?Q n < 2 ^ 32"
    using last_below_less [of ?Q n] assms by (cases "last_below ?Q n = 0") auto
  moreover have "0 < unat cnt" "unat h mod unat cnt < unat cnt"
    using assms(1) by (simp_all add: unat_gt_0)
  ultimately show ?thesis
    by (simp add: hash_bucket_def written_table_def filled_buckets_def res_simps unat_of_nat unat_mod)
qed

lemma SymbolTable_symbol_cases:
  "j \<noteq> 0 \<Longrightarrow> SymbolTable_symbol symbols j =
    (if j < length (symt_symbols symbols) then Ok (symt_symbols symbols ! j)
     else Err ''Invalid ELF symbol index'')"
  by (simp add: SymbolTable_symbol_def get_opt_def)

lemma hash_find_loop_step:
  assumes "index \<noteq> 0" "i < length (ht_chains self)"
  shows "hash_find_loop memchr C self e name version symbols versions index i =
    (if candidate memchr C e name version symbols versions index
     then Ok (Some (index, symt_symbols symbols ! index))
     else and_then (hash_chain self e index) (\<lambda>index.
       hash_find_loop memchr C self e name version symbols versions index (i + 1)))"
  using assms
  by (subst hash_find_loop.simps) (simp add: SymbolTable_symbol_cases candidate_def)

lemma hash_find_loop_written:
  fixes C :: "'w::len word elf_types"
  assumes n: "n \<le> 2 ^ 32"
  shows "m \<le> n \<Longrightarrow> i + m \<le> n \<Longrightarrow>
    hash_find_loop memchr C (written_table e hash cnt n) e name version symbols versions
      (last_below (\<lambda>j. bucket_of hash cnt j = Some b) m) i =
    Ok (map_option (\<lambda>j. (j, symt_symbols symbols ! j))
      (find (\<lambda>j. bucket_of hash cnt j = Some b \<and> candidate memchr C e name version symbols versions j)
        (rev [1 ..< m])))"
proof (induction m arbitrary: i rule: less_induct)
  case (less m)
  let ?Q = "\<lambda>j. bucket_of hash cnt j = Some b"
  let ?S = "candidate memchr C e name version symbols versions"
  let ?t = "written_table e hash cnt n"
  let ?j = "last_below ?Q m"
  have above: "\<forall>k. ?j < k \<and> k < m \<longrightarrow> \<not> ?Q k"
    using last_below_max [of _ m ?Q] by (meson not_less)
  show ?case
  proof (cases "?j = 0")
    case True
    then have "\<forall>k. 1 \<le> k \<and> k < m \<longrightarrow> \<not> ?Q k" using above by simp
    then have "find (\<lambda>j. ?Q j \<and> ?S j) (rev [1 ..< m]) = None"
      by (auto simp: find_None_iff)
    then show ?thesis using True by (simp add: hash_find_loop.simps)
  next
    case False
    then have j: "?j < m" "?Q ?j" using last_below_less [of ?Q m] by auto
    have i: "i < length (ht_chains ?t)"
      using less.prems j by (simp add: written_table_def filled_chains_def)
    have step: "hash_find_loop memchr C ?t e name version symbols versions ?j i =
      (if ?S ?j then Ok (Some (?j, symt_symbols symbols ! ?j))
       else hash_find_loop memchr C ?t e name version symbols versions (last_below ?Q ?j) (i + 1))"
      using hash_chain_written [OF _ n j(2), of e] less.prems j(1)
      by (simp only: hash_find_loop_step [OF False i]) simp
    show ?thesis
    proof (cases "?S ?j")
      case True
      then have "find (\<lambda>j. ?Q j \<and> ?S j) (rev [1 ..< m]) = Some ?j"
        using False j above by (intro find_rev_upt_first) auto
      then show ?thesis using True by (simp only: step) simp
    next
      case S: False
      have "find (\<lambda>j. ?Q j \<and> ?S j) (rev [1 ..< m]) = find (\<lambda>j. ?Q j \<and> ?S j) (rev [1 ..< ?j])"
        using False j(1) above S by (intro find_rev_upt_skip) (auto simp: le_eq_less_or_eq)
      moreover have "hash_find_loop memchr C ?t e name version symbols versions (last_below ?Q ?j) (i + 1) =
          Ok (map_option (\<lambda>j. (j, symt_symbols symbols ! j)) (find (\<lambda>j. ?Q j \<and> ?S j) (rev [1 ..< ?j])))"
        using less.prems j(1) by (intro less.IH) auto
      ultimately show ?thesis using S by (simp only: step) simp
    qed
  qed
qed

lemma HashTable_find_written:
  assumes "cnt \<noteq> 0" "n \<le> 2 ^ 32" "n > 0"
  shows "HashTable_find memchr C (written_table e hash cnt n) e name h version symbols versions =
    Ok (map_option (\<lambda>j. (j, symt_symbols symbols ! j))
      (find (\<lambda>j. bucket_of hash cnt j = Some (unat (h mod cnt)) \<and>
          candidate memchr C e name version symbols versions j) (rev [1 ..< n])))"
  using hash_bucket_written [OF assms, of e hash h]
    hash_find_loop_written [OF assms(2) le_refl, of 0 memchr C e hash cnt name version symbols versions]
  by (simp add: HashTable_find_def)

section \<open>Parsing the table that was written\<close>

definition hash_image :: "endianness \<Rightarrow> u32 \<Rightarrow> u32 \<Rightarrow> u32 list \<Rightarrow> u32 list \<Rightarrow> bytes" where
  "hash_image e cnt chain_cnt bs cs =
    encode_hash_header e \<lparr>bucket_count = cnt, chain_count = chain_cnt\<rparr> @
    concat (map (U_new e) bs) @ concat (map (U_new e) cs)"

lemma read_slice_concat:
  fixes offset :: u64
  assumes "\<forall>x \<in> set xs. length x = sz" "unat offset = length pre"
    and "length (pre @ concat xs @ post) \<le> usize_max"
  shows "read_slice sz (pre @ concat xs @ post) offset (length xs) =
    (Ok xs, word_of_nat (length pre + length (concat xs)))"
proof -
  have len: "length (concat xs) = length xs * sz"
    using assms(1) by (rule length_concat_const)
  have "word_of_nat (unat offset) = offset" by simp
  then have "offset + word_of_nat (length xs * sz) = word_of_nat (length pre + length (concat xs))"
    using assms(2) len by (metis of_nat_add)
  moreover have "chunks sz (length xs) (slice_at (pre @ concat xs @ post) (unat offset) (length xs * sz)) = xs"
    using assms(1,2) chunks_concat [of xs sz "[]"] by (simp add: slice_at_def flip: len)
  ultimately show ?thesis
    using assms(2,3) len
    by (subst read_slice_ok) (simp_all del: of_nat_mult of_nat_add)
qed

lemma HashTable_parse_image:
  assumes "length bs = unat cnt" "length cs = unat chain_cnt"
    and "length (hash_image e cnt chain_cnt bs cs @ rest) \<le> usize_max"
  shows "HashTable_parse e (hash_image e cnt chain_cnt bs cs @ rest) =
    Ok \<lparr>ht_buckets = map (U_new e) bs, ht_chains = map (U_new e) cs\<rparr>"
proof -
  let ?h = "encode_hash_header e \<lparr>bucket_count = cnt, chain_count = chain_cnt\<rparr>"
  let ?B = "map (U_new e) bs" and ?C = "map (U_new e) cs"
  let ?d = "hash_image e cnt chain_cnt bs cs @ rest"
  have d1: "?d = ?h @ concat ?B @ (concat ?C @ rest)" by (simp add: hash_image_def)
  have d2: "?d = (?h @ concat ?B) @ concat ?C @ rest" by (simp add: hash_image_def)
  have fit: "8 + length (concat ?B) \<le> usize_max" "length ?d \<le> usize_max"
    using assms(3) by (simp_all add: hash_image_def len_simps)
  have "read_pod 8 ?d 0 = (Ok ?h, 8)"
    unfolding d1 by (subst read_pod_ok) (simp_all add: slice_at_def len_simps usize_max_def)
  moreover have "read_slice 4 ?d 8 (unat cnt) = (Ok ?B, word_of_nat (8 + length (concat ?B)))"
    using read_slice_concat [of ?B 4 8 ?h "concat ?C @ rest"] fit(2) assms(1)
    by (simp add: len_simps flip: d1)
  moreover have "read_slice 4 ?d (word_of_nat (8 + length (concat ?B))) (unat chain_cnt) =
      (Ok ?C, word_of_nat (8 + length (concat ?B) + length (concat ?C)))"
    using read_slice_concat [of ?C 4 "word_of_nat (8 + length (concat ?B))" "?h @ concat ?B" rest]
      unat_word_of_nat_u64 [OF fit(1)] fit(2) assms(2) unfolding d2 [symmetric]
    by (simp add: len_simps del: of_nat_add)
  ultimately show ?thesis
    by (simp add: HashTable_parse_def del: of_nat_add)
qed

text \<open>The writer, with the room that \<open>reserve_hash\<close> has made.\<close>

lemma length_hash_image:
  "length (hash_image e cnt chain_cnt bs cs) = 8 + 4 * length bs + 4 * length cs"
  by (simp add: hash_image_def len_simps length_concat_const [of _ 4])

lemma Writer_write_hash_ok:
  assumes cnt: "cnt \<noteq> 0"
    and off: "w_hash_offset self = align_up (length (w_bytes self)) 4"
    and cap: "w_hash_offset self + 8 + 4 * unat cnt + 4 * unat chain_cnt \<le> w_capacity self"
    and max: "w_capacity self \<le> usize_max - 4"
  shows "Writer_write_hash cnt chain_cnt hash self =
    Ok (put (pad_to 4 (w_bytes self) @ hash_image (w_endian self) cnt chain_cnt
      (filled_buckets hash cnt (unat chain_cnt))
      (filled_chains hash cnt (unat chain_cnt) (unat chain_cnt))) self)"
proof -
  let ?bs = "filled_buckets hash cnt (unat chain_cnt)"
  let ?cs = "filled_chains hash cnt (unat chain_cnt) (unat chain_cnt)"
  let ?a = "put (pad_to 4 (w_bytes self)) self"
  have [simp]: "length ?bs = unat cnt" "length ?cs = unat chain_cnt"
    by (simp_all add: filled_buckets_def filled_chains_def)
  have endian [simp]: "w_endian (put x s) = w_endian s" "w_hash_offset (put x s) = w_hash_offset s"
    for x and s :: "'a writer" by (simp_all add: put_def)
  have a: "length (w_bytes ?a) = w_hash_offset self"
    using length_padded [of "w_bytes self" 2] off by simp
  have "length (w_bytes self) \<le> align_up (length (w_bytes self)) 4"
    using align_up_ge [of 4] by simp
  then have "length (w_bytes self) + 4 \<le> usize_max" using off cap max by (simp add: usize_max_def)
  then have "buffer_align 4 self = Ok ?a"
    using buffer_align_ok [of self 2] off cap by simp
  moreover have "hash_fill hash cnt [0 ..< unat chain_cnt] (replicate (unat cnt) 0)
      (replicate (unat chain_cnt) 0) = Ok (?bs, ?cs)"
    by (rule hash_fill_ok [OF cnt order.refl])
  moreover have "length (concat (map (U_new (w_endian self)) ?bs)) = 4 * unat cnt"
    "length (concat (map (U_new (w_endian self)) ?cs)) = 4 * unat chain_cnt"
    by (simp_all add: length_concat_const [of _ 4])
  ultimately show ?thesis
    using a cap
    by (simp add: Writer_write_hash_def ALIGN_HASH_def Writer_len_eq res_simps buffer_write_ok
        len_simps hash_image_def del: w_bytes_put) (simp add: buffer_write_ok len_simps)
qed

section \<open>Properties\<close>

text \<open>C8: a SysV hash table that \<^verbatim>\<open>Writer::write_hash\<close> has written can be parsed, and the lookup in it returns the symbol with the largest index, other than 0, that is hashed to the bucket and has the name and the version asked for, and nothing when there is none.\<close>

theorem hash_table_finds_symbols:
  assumes "cnt \<noteq> 0" "chain_cnt \<noteq> 0"
    and "w_hash_offset self = align_up (length (w_bytes self)) 4"
    and "w_hash_offset self + 8 + 4 * unat cnt + 4 * unat chain_cnt \<le> w_capacity self"
    and "w_capacity self \<le> usize_max - 4"
  shows "\<exists>self' t. Writer_write_hash cnt chain_cnt hash self = Ok self' \<and>
    HashTable_parse (w_endian self) (drop (w_hash_offset self) (w_bytes self')) = Ok t \<and>
    HashTable_symbol_table_length t = chain_cnt \<and>
    HashTable_find memchr C t (w_endian self) name h version symbols versions =
      Ok (map_option (\<lambda>j. (j, symt_symbols symbols ! j))
        (find (\<lambda>j. map_option (\<lambda>h'. h' mod cnt) (hash (word_of_nat j)) = Some (h mod cnt) \<and>
            j < length (symt_symbols symbols) \<and>
            Sym_name memchr C (symt_symbols symbols ! j) (w_endian self) (symt_strings symbols) = Ok name \<and>
            version_matches versions (w_endian self) j version)
          (rev [1 ..< unat chain_cnt])))"
proof -
  let ?bs = "filled_buckets hash cnt (unat chain_cnt)"
  let ?cs = "filled_chains hash cnt (unat chain_cnt) (unat chain_cnt)"
  let ?i = "hash_image (w_endian self) cnt chain_cnt ?bs ?cs"
  have "length (w_bytes self @ pad_to 4 (w_bytes self)) = w_hash_offset self"
    using length_padded [of "w_bytes self" 2] assms(3) by simp
  then have "drop (w_hash_offset self) (w_bytes (put (pad_to 4 (w_bytes self) @ ?i) self)) = ?i @ []"
    by (simp flip: append_assoc)
  moreover have len: "length ?bs = unat cnt" "length ?cs = unat chain_cnt"
    by (simp_all add: filled_buckets_def filled_chains_def)
  then have "HashTable_parse (w_endian self) (?i @ []) =
      Ok (written_table (w_endian self) hash cnt (unat chain_cnt))"
    unfolding written_table_def using assms(4,5)
    by (intro HashTable_parse_image) (simp_all add: length_hash_image usize_max_def)
  moreover have "HashTable_symbol_table_length (written_table (w_endian self) hash cnt (unat chain_cnt)) = chain_cnt"
    using len by (simp add: HashTable_symbol_table_length_def written_table_def)
  moreover have "unat chain_cnt < 2 ^ LENGTH(32)" by (rule unsigned_less)
  then have "HashTable_find memchr C (written_table (w_endian self) hash cnt (unat chain_cnt))
      (w_endian self) name h version symbols versions =
    Ok (map_option (\<lambda>j. (j, symt_symbols symbols ! j))
      (find (\<lambda>j. bucket_of hash cnt j = Some (unat (h mod cnt)) \<and>
          candidate memchr C (w_endian self) name version symbols versions j) (rev [1 ..< unat chain_cnt])))"
    using assms(2) by (intro HashTable_find_written [OF assms(1)]) (simp_all add: unat_gt_0)
  moreover have "bucket_of hash cnt j = Some (unat (h mod cnt)) \<longleftrightarrow>
      map_option (\<lambda>h'. h' mod cnt) (hash (word_of_nat j)) = Some (h mod cnt)" for j
    by (auto simp: bucket_of_def word_unat_eq_iff)
  ultimately show ?thesis
    unfolding candidate_def symbol_matches_def using Writer_write_hash_ok [OF assms(1,3-5)] by simp
qed

text \<open>Three symbols in one bucket, the last two of them with the name asked for.\<close>

definition example_symbol :: bytes where
  "example_symbol = encode_Sym64 Little
     \<lparr>st_name = 1, st_info = 18, st_other = 0, st_shndx = 1, st_value = 64, st_size = 8\<rparr>"

definition example_symbols :: symbol_table where
  "example_symbols = SymbolTable_default
     \<lparr>symt_symbols := [replicate 24 0, example_symbol, example_symbol],
      symt_strings := StringTable_new [0, 102, 0] 0 3\<rparr>"

lemma example_symbols_name:
  "Sym_name first_index Elf64 example_symbol Little (symt_strings example_symbols) = Ok [102]"
proof -
  have "read_bytes_at_until first_index [0, 102, 0] 1 3 0 = Ok [102]"
    by (rule read_bytes_at_until_ok [OF memchr_spec_first_index, where pre = "[0]" and post = "[]"]) auto
  then show ?thesis
    by (simp add: Sym_name_def Elf64_def example_symbol_def decode_encode_sym example_symbols_def
        StringTable_get_def StringTable_new_def word_checked_add_def)
qed

theorem hash_table_finds_symbols_witness:
  "\<exists>self' t. Writer_write_hash 1 3 (\<lambda>i. if i = 0 then None else Some 102)
      ((Writer_new list_set Little True Vec_new)
        \<lparr>w_buffer := \<lparr>vb_bytes = [], vb_capacity = 40\<rparr>, w_hash_offset := 0\<rparr>) = Ok self' \<and>
    HashTable_parse Little (w_bytes self') = Ok t \<and>
    HashTable_find first_index Elf64 t Little [102] 102 None example_symbols VersionTable_default =
      Ok (Some (2, example_symbol))"
proof -
  let ?self = "(Writer_new list_set Little True Vec_new)
        \<lparr>w_buffer := \<lparr>vb_bytes = [], vb_capacity = 40\<rparr>, w_hash_offset := 0\<rparr>"
  have len: "w_hash_offset ?self = 0" "w_bytes ?self = []" "w_capacity ?self = 40" "w_endian ?self = Little"
    by (simp_all add: Writer_new_def w_bytes_def w_capacity_def)
  have "version_matches VersionTable_default Little 2 None"
    by (simp add: version_matches_def version_index_def VersionTable_default_def get_opt_def
        VersionTable_version_def VersionIndex_index_def)
  moreover have "length (symt_symbols example_symbols) = 3" "symt_symbols example_symbols ! 2 = example_symbol"
    by (simp_all add: example_symbols_def)
  moreover have "rev [1 ..< unat (3 :: u32)] = [2, 1]" by (simp add: upt_rec)
  ultimately show ?thesis
    using hash_table_finds_symbols [of 1 3 ?self "\<lambda>i. if i = 0 then None else Some 102" first_index Elf64
        "[102]" 102 None example_symbols VersionTable_default] example_symbols_name unfolding len
    by (simp add: usize_max_def align_up_def) blast
qed

end
