(* ===== verification/Elf_Gnu_Hash.thy ===== *)
theory Elf_Gnu_Hash
  imports Elf_Hash Elf_Class
begin

text \<open>
  The GNU hash table that \<^verbatim>\<open>Writer::write_gnu_hash\<close> writes, read with \<^verbatim>\<open>GnuHashTable::find\<close> of
  \<^verbatim>\<open>src/read/elf/hash.rs\<close>: the bloom filter has no false negatives, and the chains lead to every
  symbol when the symbols are sorted by bucket.
\<close>

section \<open>The bloom filter\<close>

definition bloom_index :: "nat \<Rightarrow> u32 \<Rightarrow> u32 \<Rightarrow> nat" where
  "bloom_index bits cnt h = unat ((h div word_of_nat bits) AND (cnt - 1))"

definition bloom_has :: "u32 \<Rightarrow> u32 \<Rightarrow> 'w::len word list \<Rightarrow> u32 \<Rightarrow> bool" where
  "bloom_has shift cnt filters h \<longleftrightarrow>
    (let f = filters ! bloom_index LENGTH('w) cnt h in
     bit f (unat (h mod word_of_nat LENGTH('w))) \<and>
     bit f (unat (drop_bit (unat shift) h mod word_of_nat LENGTH('w))))"

lemma bloom_index_less: "cnt \<noteq> 0 \<Longrightarrow> bloom_index bits cnt h < unat cnt"
proof -
  assume "cnt \<noteq> 0"
  have "(h div word_of_nat bits) AND (cnt - 1) \<le> cnt - 1" by (rule word_and_le1)
  then have "bloom_index bits cnt h \<le> unat (cnt - 1)" by (simp add: bloom_index_def word_le_nat_alt)
  also have "\<dots> = unat cnt - 1" using \<open>cnt \<noteq> 0\<close> by (rule unat_minus_one)
  finally have "bloom_index bits cnt h \<le> unat cnt - 1" .
  moreover have "0 < unat cnt" using \<open>cnt \<noteq> 0\<close> by (simp add: unat_gt_0)
  ultimately show ?thesis by linarith
qed

lemma bloom_fill_ok:
  fixes filters :: "'w::len word list"
  assumes "cnt \<noteq> 0" "unat shift < 32"
  shows "length filters = unat cnt \<Longrightarrow> \<exists>filters'. bloom_fill hash shift cnt is filters = Ok filters' \<and>
    length filters' = unat cnt \<and> (\<forall>k n. k < unat cnt \<longrightarrow> bit (filters ! k) n \<longrightarrow> bit (filters' ! k) n) \<and>
    (LENGTH('w) < 2 ^ 32 \<longrightarrow> (\<forall>i \<in> set is. bloom_has shift cnt filters' (hash (word_of_nat i))))"
proof (induction "is" arbitrary: filters)
  case (Cons i "is")
  let ?h = "hash (word_of_nat i)" and ?W = "word_of_nat LENGTH('w) :: u32"
  let ?k = "bloom_index LENGTH('w) cnt ?h" and ?b1 = "unat (?h mod ?W)"
  let ?b2 = "unat (drop_bit (unat shift) ?h mod ?W)"
  let ?f = "filters ! ?k OR (push_bit ?b1 1 OR push_bit ?b2 1)"
  have k: "?k < unat cnt" using assms(1) by (rule bloom_index_less)
  have "1 \<le> cnt" using assms(1) by (simp add: word_le_nat_alt unat_gt_0 Suc_le_eq)
  then have step: "bloom_fill hash shift cnt (i # is) filters = bloom_fill hash shift cnt is (filters[?k := ?f])"
    using k Cons.prems assms(2)
    by (simp add: Let_def word_sub_def word_shr_def index_list_def list_assign_def bloom_index_def)
  obtain filters' where f': "bloom_fill hash shift cnt is (filters[?k := ?f]) = Ok filters'"
      "length filters' = unat cnt"
      "\<forall>k n. k < unat cnt \<longrightarrow> bit (filters[?k := ?f] ! k) n \<longrightarrow> bit (filters' ! k) n"
      "LENGTH('w) < 2 ^ 32 \<longrightarrow> (\<forall>i \<in> set is. bloom_has shift cnt filters' (hash (word_of_nat i)))"
    using Cons.IH [of "filters[?k := ?f]"] Cons.prems by auto
  have mono: "bit (filters' ! k) n" if "k < unat cnt" "bit (filters ! k) n" for k n
    using f'(3) that Cons.prems by (cases "k = ?k") (auto simp: bit_or_iff)
  have "bloom_has shift cnt filters' ?h" if small: "LENGTH('w) < 2 ^ 32"
  proof -
    have "unat ?W = LENGTH('w)" using small by (simp add: unat_of_nat)
    moreover then have "?W \<noteq> 0" by (metis len_not_eq_0 unat_0)
    ultimately have "?b1 < LENGTH('w)" "?b2 < LENGTH('w)"
      by (simp_all add: unat_mod)
    then have "bit ?f ?b1" "bit ?f ?b2" by (auto simp: bit_or_iff bit_exp_iff)
    then show ?thesis
      using f'(3) k Cons.prems by (simp add: bloom_has_def Let_def)
  qed
  then show ?case unfolding step using f' mono by auto
qed simp

section \<open>Sorted buckets\<close>

definition bucket_entry :: "(nat \<Rightarrow> u32) \<Rightarrow> u32 \<Rightarrow> nat \<Rightarrow> nat \<Rightarrow> u32" where
  "bucket_entry bk base n b =
    (case find (\<lambda>i. unat (bk i) = b) [0 ..< n] of Some i \<Rightarrow> base + word_of_nat i | None \<Rightarrow> 0)"

definition chain_end :: "(nat \<Rightarrow> u32) \<Rightarrow> nat \<Rightarrow> nat \<Rightarrow> bool" where
  "chain_end bk n i \<longleftrightarrow> i = n - 1 \<or> bk i \<noteq> bk (i + 1)"

definition chain_value :: "(nat \<Rightarrow> u32) \<Rightarrow> (nat \<Rightarrow> u32) \<Rightarrow> nat \<Rightarrow> nat \<Rightarrow> u32" where
  "chain_value hs bk n i = (if chain_end bk n i then hs i OR 1 else hs i AND NOT 1)"

definition u32_array :: "endianness \<Rightarrow> u32 list \<Rightarrow> bytes" where
  "u32_array e xs = concat (map (U_new e) xs)"

lemma u32_array_simps [simp]:
  "u32_array e [] = []" "u32_array e (x # xs) = U_new e x @ u32_array e xs"
  "u32_array e (xs @ ys) = u32_array e xs @ u32_array e ys"
  by (simp_all add: u32_array_def)

lemma length_u32_array [simp]: "length (u32_array e xs) = 4 * length xs"
  by (simp add: u32_array_def length_concat_const [of _ 4])

lemma w_endian_put [simp]: "w_endian (put x s) = w_endian s"
  by (simp add: put_def)

lemma gnu_pad_buckets_ok:
  "length (w_bytes self) + 4 * (unat bound - unat bucket) \<le> w_capacity self \<Longrightarrow>
    gnu_pad_buckets bucket bound self =
      Ok (if bucket < bound then bound else bucket,
        put (u32_array (w_endian self) (replicate (unat bound - unat bucket) 0)) self)"
proof (induction "unat bound - unat bucket" arbitrary: bucket self)
  case 0
  then show ?case by (simp add: gnu_pad_buckets.simps word_less_nat_alt)
next
  case (Suc n)
  then have less: "bucket < bound" "unat bucket < unat bound" by (simp_all add: word_less_nat_alt)
  have next_bucket: "unat (bucket + 1) = Suc (unat bucket)"
    using less(2) unsigned_less [of bound, where ?'a = nat] by (simp add: unat_word_ariths)
  have n: "n = unat bound - unat (bucket + 1)" using Suc.hyps(2) next_bucket by simp
  have "buffer_write (U_new (w_endian self) (0 :: u32)) self = Ok (put (U_new (w_endian self) (0 :: u32)) self)"
    using Suc.prems less(2) by (intro buffer_write_ok) simp
  moreover have "unat bound - unat bucket = Suc (unat bound - unat (bucket + 1))"
    using n Suc.hyps(2) by simp
  moreover have "bound = bucket + 1 \<or> bucket + 1 < bound"
    using less next_bucket by (auto simp: word_less_nat_alt word_unat_eq_iff)
  ultimately show ?case
    using Suc.hyps(1) [OF n, of "put (U_new (w_endian self) (0 :: u32)) self"] Suc.prems less(1) next_bucket
    by (subst gnu_pad_buckets.simps) (auto simp: less_le_trans)
qed

definition sorted_buckets :: "(nat \<Rightarrow> u32) \<Rightarrow> nat \<Rightarrow> u32 \<Rightarrow> bool" where
  "sorted_buckets bk n cnt \<longleftrightarrow> (\<forall>j < n. bk j < cnt \<and> (\<forall>i \<le> j. bk i \<le> bk j))"

lemma bucket_entry_none:
  "\<forall>i < n. unat (bk i) \<noteq> b \<Longrightarrow> bucket_entry bk base n b = 0"
proof -
  assume "\<forall>i < n. unat (bk i) \<noteq> b"
  then have "find (\<lambda>i. unat (bk i) = b) [0 ..< n] = None" by (auto simp: find_None_iff)
  then show ?thesis by (simp add: bucket_entry_def)
qed

lemma bucket_entry_first:
  assumes "i < n" "\<forall>j < i. bk j \<noteq> bk i"
  shows "bucket_entry bk base n (unat (bk i)) = base + word_of_nat i"
proof -
  have "find (\<lambda>j. unat (bk j) = unat (bk i)) [0 ..< n] = Some i"
    using assms by (auto simp: find_Some_iff word_unat_eq_iff intro!: exI [of _ i])
  then show ?thesis by (simp add: bucket_entry_def)
qed

lemma bucket_entry_range:
  "\<forall>b. lo \<le> b \<and> b < hi \<longrightarrow> (\<forall>i < n. unat (bk i) \<noteq> b) \<Longrightarrow>
    map (bucket_entry bk base n) [lo ..< hi] = replicate (hi - lo) 0"
  by (rule nth_equalityI) (simp_all add: bucket_entry_none)

text \<open>The state of the loop: every bucket of the symbols below \<open>k\<close> has been written.\<close>

definition buckets_done :: "(nat \<Rightarrow> u32) \<Rightarrow> nat \<Rightarrow> u32 \<Rightarrow> bool" where
  "buckets_done bk k b \<longleftrightarrow> (if k = 0 then b = 0 else unat b = Suc (unat (bk (k - 1))))"

lemma gnu_write_buckets_ok:
  assumes sorted: "sorted_buckets bk n cnt" and bk: "\<And>i. i < n \<Longrightarrow> hash (word_of_nat i) mod cnt = bk i"
    and cnt: "cnt \<noteq> 0" and base: "unat base + n < 2 ^ 32"
  shows "k \<le> n \<Longrightarrow> buckets_done bk k b \<Longrightarrow>
    length (w_bytes self) + 4 * (unat cnt - unat b) \<le> w_capacity self \<Longrightarrow>
    \<exists>b'. buckets_done bk n b' \<and> unat b \<le> unat b' \<and> unat b' \<le> unat cnt \<and>
      gnu_write_buckets hash base cnt [k ..< n] b self =
        Ok (b', put (u32_array (w_endian self) (map (bucket_entry bk base n) [unat b ..< unat b'])) self)"
proof (induction "n - k" arbitrary: k b self)
  case 0
  have "unat b \<le> unat cnt"
  proof (cases "k = 0")
    case False
    then have "bk (k - 1) < cnt" using sorted 0 by (simp add: sorted_buckets_def)
    then show ?thesis using 0 False by (simp add: buckets_done_def word_less_nat_alt)
  qed (use 0 in \<open>simp add: buckets_done_def\<close>)
  with 0 show ?case by (intro exI [of _ b]) simp
next
  case (Suc d)
  let ?s = "bk k" and ?e = "w_endian self"
  have k: "k < n" using Suc.hyps(2) by simp
  then have split: "[k ..< n] = k # [Suc k ..< n]" by (rule upt_conv_Cons)
  have s: "hash (word_of_nat k) mod cnt = ?s" "unat ?s < unat cnt"
    using bk [OF k] sorted k by (auto simp: sorted_buckets_def word_less_nat_alt)
  have le: "unat (bk i) \<le> unat (bk j)" if "i \<le> j" "j < n" for i j
    using sorted that by (auto simp: sorted_buckets_def word_le_nat_alt)
  show ?case
  proof (cases "b \<le> ?s")
    case False
    then have "unat ?s < unat b" by (simp add: word_less_nat_alt word_le_nat_alt)
    moreover from this have "k \<noteq> 0" "unat b = Suc (unat (bk (k - 1)))"
      using Suc.prems(2) by (auto simp: buckets_done_def split: if_splits)
    ultimately have "unat b = Suc (unat ?s)" using le [of "k - 1" k] k by simp
    then have fin: "buckets_done bk (Suc k) b" by (simp add: buckets_done_def)
    have "gnu_pad_buckets b ?s self = Ok (b, self)"
      using False by (subst gnu_pad_buckets.simps) auto
    moreover have "b \<noteq> ?s" using False by auto
    ultimately have "gnu_write_buckets hash base cnt (k # [Suc k ..< n]) b self =
        gnu_write_buckets hash base cnt [Suc k ..< n] b self"
      using cnt s by (simp add: word_rem_def)
    then show ?thesis
      unfolding split using Suc.hyps(1) [of "Suc k" b self] Suc.hyps(2) Suc.prems(3) k fin by simp
  next
    case True
    then have b: "unat b \<le> unat ?s" by (simp add: word_le_nat_alt)
    have before: "unat (bk i) < unat b" if "i < k" for i
    proof -
      have "i \<le> k - 1" "k - 1 < n" using that k by simp_all
      from le [OF this] show ?thesis using Suc.prems(2) that by (simp add: buckets_done_def)
    qed
    let ?pad = "u32_array ?e (replicate (unat ?s - unat b) 0)"
    let ?self = "put (?pad @ U_new ?e (base + word_of_nat k)) self"
    have pad: "gnu_pad_buckets b ?s self = Ok (?s, put ?pad self)"
      using gnu_pad_buckets_ok [of self ?s b] Suc.prems(3) s(2) b True
      by (auto simp: less_le word_le_nat_alt)
    have sum: "word_add base (word_of_nat k) = (Ok (base + word_of_nat k) :: (u32, string) result)"
      using base k by (simp add: word_add_def unat_of_nat)
    have succ: "unat (?s + 1) = Suc (unat ?s)" and succ_ok: "word_add ?s 1 = (Ok (?s + 1) :: (u32, string) result)"
      using s(2) unsigned_less [of cnt, where ?'a = nat] by (simp_all add: unat_word_ariths word_add_def)
    have room: "length (w_bytes self) + 4 * (unat ?s - unat b) + 4 + 4 * (unat cnt - unat (?s + 1)) \<le> w_capacity self"
      using Suc.prems(3) s(2) b succ by simp
    have write1: "buffer_write (U_new ?e (base + word_of_nat k)) (put ?pad self) = Ok ?self"
      using room by (subst buffer_write_ok) simp_all
    have step: "gnu_write_buckets hash base cnt (k # [Suc k ..< n]) b self =
        gnu_write_buckets hash base cnt [Suc k ..< n] (?s + 1) ?self"
      using cnt s(1) pad sum succ_ok write1 by (simp add: word_rem_def)
    have d: "d = n - Suc k" "Suc k \<le> n" using Suc.hyps(2) k by simp_all
    have fin: "buckets_done bk (Suc k) (?s + 1)" using succ by (simp add: buckets_done_def)
    have next_room: "length (w_bytes ?self) + 4 * (unat cnt - unat (?s + 1)) \<le> w_capacity ?self"
      using room by simp
    from Suc.hyps(1) [OF d fin next_room] obtain b' where
      "buckets_done bk n b' \<and> unat (?s + 1) \<le> unat b' \<and> unat b' \<le> unat cnt \<and>
       gnu_write_buckets hash base cnt [Suc k ..< n] (?s + 1) ?self =
        Ok (b', put (u32_array (w_endian ?self) (map (bucket_entry bk base n) [unat (?s + 1) ..< unat b'])) ?self)" ..
    then have b': "buckets_done bk n b'" "unat (?s + 1) \<le> unat b'" "unat b' \<le> unat cnt"
      and rest: "gnu_write_buckets hash base cnt [Suc k ..< n] (?s + 1) ?self =
        Ok (b', put (u32_array ?e (map (bucket_entry bk base n) [unat (?s + 1) ..< unat b'])) ?self)"
      by simp_all
    have "unat (bk i) \<noteq> c" if "unat b \<le> c" "c < unat ?s" "i < n" for c i
      using before [of i] le [of k i] that by (cases "i < k") auto
    then have low: "map (bucket_entry bk base n) [unat b ..< unat ?s] = replicate (unat ?s - unat b) 0"
      by (intro bucket_entry_range) blast
    have "\<forall>j < k. bk j \<noteq> ?s" using before b by fastforce
    then have mid: "bucket_entry bk base n (unat ?s) = base + word_of_nat k"
      using k by (rule bucket_entry_first [rotated])
    have "[unat b ..< unat b'] = [unat b ..< unat ?s] @ unat ?s # [Suc (unat ?s) ..< unat b']"
      using b b'(2) succ upt_add_eq_append [of "unat b" "unat ?s" "unat b' - unat ?s"]
      by (simp add: upt_conv_Cons)
    then have "u32_array ?e (map (bucket_entry bk base n) [unat b ..< unat b']) =
        ?pad @ U_new ?e (base + word_of_nat k) @
        u32_array ?e (map (bucket_entry bk base n) [unat (?s + 1) ..< unat b'])"
      using low mid succ by simp
    then show ?thesis
      unfolding split step rest using b' succ b by (intro exI [of _ b']) simp
  qed
qed

text \<open>The three loops in sequence.\<close>

lemma gnu_buckets_written:
  assumes sorted: "sorted_buckets bk n cnt" and bk: "\<And>i. i < n \<Longrightarrow> hash (word_of_nat i) mod cnt = bk i"
    and cnt: "cnt \<noteq> 0" and base: "unat base + n < 2 ^ 32"
    and room: "length (w_bytes self) + 4 * unat cnt \<le> w_capacity self"
  shows "and_then (gnu_write_buckets hash base cnt [0 ..< n] 0 self) (\<lambda>(bucket, self).
      and_then (gnu_pad_buckets bucket cnt self) (\<lambda>(_, self). f self)) =
    f (put (u32_array (w_endian self) (map (bucket_entry bk base n) [0 ..< unat cnt])) self)"
proof -
  have "buckets_done bk 0 0" by (simp add: buckets_done_def)
  then obtain b where b: "buckets_done bk n b" "unat b \<le> unat cnt"
    "gnu_write_buckets hash base cnt [0 ..< n] 0 self =
      Ok (b, put (u32_array (w_endian self) (map (bucket_entry bk base n) [0 ..< unat b])) self)"
    using gnu_write_buckets_ok [OF sorted bk cnt base, of 0 0 self] room by auto
  have "unat (bk i) \<noteq> c" if "unat b \<le> c" "i < n" for c i
  proof -
    have "unat (bk i) \<le> unat (bk (n - 1))"
      using sorted that by (auto simp: sorted_buckets_def word_le_nat_alt)
    then show ?thesis using b(1) that by (auto simp: buckets_done_def)
  qed
  then have "map (bucket_entry bk base n) [unat b ..< unat cnt] = replicate (unat cnt - unat b) 0"
    by (intro bucket_entry_range) blast
  moreover have "[0 ..< unat cnt] = [0 ..< unat b] @ [unat b ..< unat cnt]"
    using b(2) upt_add_eq_append [of 0 "unat b" "unat cnt - unat b"] by simp
  ultimately have "u32_array (w_endian self) (map (bucket_entry bk base n) [0 ..< unat cnt]) =
      u32_array (w_endian self) (map (bucket_entry bk base n) [0 ..< unat b]) @
      u32_array (w_endian self) (replicate (unat cnt - unat b) 0)"
    by simp
  then show ?thesis
    using b(2,3) room by (simp add: gnu_pad_buckets_ok)
qed

lemma gnu_values_written:
  assumes hs: "\<And>i. i < n \<Longrightarrow> hash (word_of_nat i) = hs i" and bk: "\<And>i. i < n \<Longrightarrow> hs i mod cnt = bk i"
    and cnt: "cnt \<noteq> 0" and n: "n = unat symbols"
  shows "k \<le> n \<Longrightarrow> length (w_bytes self) + 4 * (n - k) \<le> w_capacity self \<Longrightarrow>
    gnu_write_values hash cnt symbols [k ..< n] self =
      Ok (put (u32_array (w_endian self) (map (chain_value hs bk n) [k ..< n])) self)"
proof (induction "n - k" arbitrary: k self)
  case (Suc d)
  let ?v = "chain_value hs bk n k"
  have k: "k < n" using Suc.hyps(2) by simp
  then have split: "[k ..< n] = k # [Suc k ..< n]" by (rule upt_conv_Cons)
  have small: "k + 1 < 2 ^ 32 \<or> k = n - 1"
    using k n unsigned_less [of symbols, where ?'a = nat] by auto
  have k32: "unat (word_of_nat k :: u32) = k"
    using k n unsigned_less [of symbols, where ?'a = nat] by (simp add: unat_of_nat)
  have "1 \<le> symbols" using k n by (simp add: word_le_nat_alt)
  then have sub: "word_sub symbols 1 = (Ok (symbols - 1) :: (u32, string) result)" by (simp add: word_sub_def)
  have "symbols \<noteq> 0" using k n by auto
  then have last: "word_of_nat k = symbols - 1 \<longleftrightarrow> k = n - 1"
    using k32 n by (simp add: word_unat_eq_iff unat_minus_one)
  have stop: "(if word_of_nat k = symbols - 1 then Ok True
      else and_then (word_rem (hs k) cnt) (\<lambda>b1.
        and_then (word_add (word_of_nat k) 1) (\<lambda>j.
        and_then (word_rem (hash j) cnt) (\<lambda>b2. Ok (b1 \<noteq> b2))))) = (Ok (chain_end bk n k) :: (bool, string) result)"
  proof (cases "k = n - 1")
    case True
    then have "word_of_nat k = symbols - 1" using last by blast
    then show ?thesis using True by (simp add: chain_end_def)
  next
    case False
    then have next_k: "Suc k < n" using k by simp
    have "k + 1 < 2 ^ LENGTH(32)" using False small by simp
    then have "word_add (word_of_nat k) 1 = (Ok (word_of_nat k + 1) :: (u32, string) result)"
      unfolding word_add_def k32 unat_1 by (simp only: if_True)
    also have "word_of_nat k + 1 = (word_of_nat (Suc k) :: u32)" by simp
    finally show ?thesis
      using False cnt by (simp add: last chain_end_def word_rem_def hs [OF next_k] bk [OF k] bk [OF next_k] del: of_nat_Suc)
  qed
  have head: "gnu_write_values hash cnt symbols (k # [Suc k ..< n]) self =
      and_then (buffer_write (U_new (w_endian self) ?v) self) (gnu_write_values hash cnt symbols [Suc k ..< n])"
    by (simp only: gnu_write_values.simps Let_def hs [OF k] sub and_then.simps stop chain_value_def)
  have written: "buffer_write (U_new (w_endian self) ?v) self = Ok (put (U_new (w_endian self) ?v) self)"
    using Suc.prems(2) k by (intro buffer_write_ok) simp
  have d: "d = n - Suc k" "Suc k \<le> n" using Suc.hyps(2) k by simp_all
  have room: "length (w_bytes (put (U_new (w_endian self) ?v) self)) + 4 * (n - Suc k) \<le>
      w_capacity (put (U_new (w_endian self) ?v) self)"
    using Suc.prems(2) k by simp
  show ?case
    unfolding split head written and_then.simps Suc.hyps(1) [OF d room] by simp
qed simp

lemma write_words_ok:
  fixes xs :: "'w::len word list"
  shows "length (w_bytes self) + (LENGTH('w) div 8) * length xs \<le> w_capacity self \<Longrightarrow>
    write_words xs self = Ok (put (concat (map (U_new (w_endian self)) xs)) self)"
  by (induction xs arbitrary: self) (simp_all add: buffer_write_ok)

section \<open>Following a chain\<close>

lemma low_bit_or: "(x OR 1) AND 1 = (1 :: u32)" "(x AND NOT 1) AND 1 = (0 :: u32)"
    "(x AND NOT 1) OR 1 = x OR 1" "(x OR 1) OR 1 = x OR 1" for x :: u32
  by (rule bit_word_eqI; auto simp: bit_simps)+

lemma chain_value_facts:
  "chain_value hs bk n i OR 1 = hs i OR 1"
  "chain_value hs bk n i AND 1 \<noteq> 0 \<longleftrightarrow> chain_end bk n i"
  unfolding chain_value_def
  by (cases "chain_end bk n i"; simp only: low_bit_or if_True if_False simp_thms one_neq_zero)+

lemma gnu_find_loop_chain:
  assumes sorted: "sorted_buckets bk n cnt" and t: "t < n" "bk t = bk k" "hs t OR 1 = h OR 1"
    and cand: "candidate memchr C e name version symbols versions (base + t)"
  shows "k \<le> t \<Longrightarrow> \<exists>j. k \<le> j \<and> j \<le> t \<and> hs j OR 1 = h OR 1 \<and>
    candidate memchr C e name version symbols versions (base + j) \<and>
    gnu_find_loop memchr C e name h version symbols versions (base + k)
      (zip (drop (base + k) (symt_symbols symbols))
        (map (U_new e) (map (chain_value hs bk n) [k ..< n]))) =
      Some (base + j, symt_symbols symbols ! (base + j))"
  using t(2)
proof (induction "t - k" arbitrary: k)
  case (Suc d)
  let ?S = "symt_symbols symbols"
  let ?cand = "candidate memchr C e name version symbols versions"
  let ?loop = "gnu_find_loop memchr C e name h version symbols versions"
  have k: "k < t" "k < n" using Suc.hyps(2) t(1) by simp_all
  have len: "base + k < length ?S" using cand k(1) by (simp add: candidate_def)
  have le: "bk i \<le> bk j" if "i \<le> j" "j < n" for i j
    using sorted that by (simp add: sorted_buckets_def)
  have same: "bk (Suc k) = bk k"
    using le [of k "Suc k"] le [of "Suc k" t] k t(1) Suc.prems(2) by simp
  have "\<not> chain_end bk n k" using same k t(1) by (simp add: chain_end_def)
  then have more: "chain_value hs bk n k AND 1 = 0" using chain_value_facts(2) [of hs bk n k] by blast
  have pair: "zip (drop (base + k) ?S) (map (U_new e) (map (chain_value hs bk n) [k ..< n])) =
      (?S ! (base + k), U_new e (chain_value hs bk n k)) #
      zip (drop (base + Suc k) ?S) (map (U_new e) (map (chain_value hs bk n) [Suc k ..< n]))"
    using len k(2) by (simp add: upt_conv_Cons flip: Cons_nth_drop_Suc)
  have step: "?loop (base + k) (zip (drop (base + k) ?S) (map (U_new e) (map (chain_value hs bk n) [k ..< n]))) =
      (if hs k OR 1 = h OR 1 \<and> ?cand (base + k) then Some (base + k, ?S ! (base + k))
       else ?loop (base + Suc k) (zip (drop (base + Suc k) ?S)
         (map (U_new e) (map (chain_value hs bk n) [Suc k ..< n]))))"
    unfolding pair using len
    by (simp add: Let_def more chain_value_facts(1) candidate_def del: map_map)
  have d: "d = t - Suc k" "Suc k \<le> t" "bk t = bk (Suc k)" using Suc.hyps(2) k same Suc.prems(2) by simp_all
  show ?case
  proof (cases "hs k OR 1 = h OR 1 \<and> ?cand (base + k)")
    case True
    then show ?thesis unfolding step using k by (intro exI [of _ k]) simp
  next
    case False
    from Suc.hyps(1) [OF d] obtain j where
      "Suc k \<le> j \<and> j \<le> t \<and> hs j OR 1 = h OR 1 \<and> ?cand (base + j) \<and>
       ?loop (base + Suc k) (zip (drop (base + Suc k) ?S)
         (map (U_new e) (map (chain_value hs bk n) [Suc k ..< n]))) = Some (base + j, ?S ! (base + j))" ..
    then show ?thesis unfolding step using False by (intro exI [of _ j]) (simp del: map_map)
  qed
next
  case 0
  let ?S = "symt_symbols symbols"
  have k: "k = t" using 0 by simp
  have "base + k < length ?S" using cand k by (simp add: candidate_def)
  then have pair: "zip (drop (base + k) ?S) (map (U_new e) (map (chain_value hs bk n) [k ..< n])) =
      (?S ! (base + k), U_new e (chain_value hs bk n k)) #
      zip (drop (base + Suc k) ?S) (map (U_new e) (map (chain_value hs bk n) [Suc k ..< n]))"
    using t(1) k by (simp add: upt_conv_Cons flip: Cons_nth_drop_Suc)
  show ?case unfolding pair using t(3) cand k
    by (intro exI [of _ t]) (simp add: Let_def chain_value_facts(1) candidate_def del: map_map)
qed

lemma gnu_find_loop_sound:
  "gnu_find_loop memchr C e name h version symbols versions k (zip (drop k (symt_symbols symbols)) vs) =
    Some (j, s) \<Longrightarrow> s = symt_symbols symbols ! j \<and> candidate memchr C e name version symbols versions j"
proof (induction vs arbitrary: k)
  case (Cons v vs)
  show ?case
  proof (cases "k < length (symt_symbols symbols)")
    case True
    then have "zip (drop k (symt_symbols symbols)) (v # vs) =
        (symt_symbols symbols ! k, v) # zip (drop (k + 1) (symt_symbols symbols)) vs"
      by (simp flip: Cons_nth_drop_Suc)
    with Cons True show ?thesis
      by (auto simp: Let_def candidate_def split: if_splits)
  qed (use Cons.prems in simp)
qed simp

lemma gnu_chain_find_sound:
  "gnu_chain_find memchr C t e name h version symbols versions = Ok (Some (j, s)) \<Longrightarrow>
    s = symt_symbols symbols ! j \<and> candidate memchr C e name version symbols versions j"
  by (auto simp: gnu_chain_find_def res_simps get_from_def split: if_splits option.splits
      dest!: gnu_find_loop_sound)

section \<open>Reading the filter\<close>

lemma slice_concat_const:
  fixes xs :: "bytes list"
  assumes "\<forall>x \<in> set xs. length x = sz" "k < length xs"
  shows "slice_at (concat xs) (k * sz) sz = xs ! k"
  using nth_chunks [OF assms(2), of sz "concat xs"] chunks_concat [OF assms(1), of "[]"] by simp

text \<open>\<open>C\<close> fixes the class of the reader, \<open>'v\<close> the word of the filters that were written.\<close>

lemma gnu_bloom_test_passes:
  fixes C :: "'w::len word elf_types" and fs :: "'v::len word list"
  assumes bits: "LENGTH('w) = LENGTH('v)" "LENGTH('v) = 64 \<or> LENGTH('v) = 32"
    and fs: "gt_bloom_filters t = concat (map (U_new e) fs)" "length fs = unat bloom"
    and bloom: "bloom \<noteq> 0" "8 * unat bloom < 2 ^ 32"
    and shift: "unat (gt_bloom_shift t) < 32"
    and has: "bloom_has (gt_bloom_shift t) bloom fs h"
    and conv: "\<And>f :: 'v word. if LENGTH('v) = 64 then U_get (U_new e f) e = (ucast f :: u64)
      else ucast (U_get (U_new e f) e :: u32) = (ucast f :: u64)"
  shows "gnu_bloom_test C t e h = Ok True"
proof -
  let ?sz = "LENGTH('v) div 8" and ?W = "word_of_nat LENGTH('v) :: u32"
  let ?k = "bloom_index LENGTH('v) bloom h"
  let ?F = "concat (map (U_new e) fs)" and ?off = "(h div ?W AND (bloom - 1)) * word_of_nat ?sz"
  have sz: "?sz = 8 \<or> ?sz = 4" "8 * ?sz = LENGTH('v)" "8 dvd LENGTH('v)" "size_of_word C = ?sz"
    using bits by (auto simp: size_of_word_def)
  have each: "\<forall>x \<in> set (map (U_new e) fs). length x = ?sz" by auto
  have lenF: "length ?F = unat bloom * ?sz"
    using length_concat_const [OF each] fs(2) by simp
  have k: "?k < unat bloom" using bloom(1) by (rule bloom_index_less)
  have W: "word_mul (word_of_nat ?sz) (8 :: u32) = (Ok ?W :: (u32, string) result)"
    using sz(1) bits(2) by (auto simp: word_mul_def)
  have one: "word_sub bloom 1 = (Ok (bloom - 1) :: (u32, string) result)"
    using bloom(1) by (simp add: word_sub_def word_le_nat_alt unat_gt_0 Suc_le_eq)
  have small: "unat (h div ?W AND (bloom - 1)) * ?sz < 2 ^ 32"
    using k bloom(2) sz(1) by (auto simp: bloom_index_def)
  have usz: "unat (word_of_nat ?sz :: u32) = ?sz" using sz(1) by auto
  have off: "word_mul (h div ?W AND (bloom - 1)) (word_of_nat ?sz) = (Ok ?off :: (u32, string) result)"
    using small usz by (simp add: word_mul_def)
  have uoff: "unat (ucast ?off :: u64) = ?k * ?sz"
    using small usz by (simp add: unat_ucast_le bloom_index_def unat_word_ariths)
  have "?k * ?sz + ?sz \<le> length ?F"
    using k unfolding lenF by (metis Suc_leI add.commute mult_Suc mult_le_mono1)
  then have "read_pod_at ?sz ?F (ucast ?off) = Ok (slice_at ?F (?k * ?sz) ?sz)"
    using read_pod_at_ok [of "ucast ?off" ?sz ?F] sz(1) uoff by (auto simp: usize_max_def)
  also have "slice_at ?F (?k * ?sz) ?sz = U_new e (fs ! ?k)"
    using slice_concat_const [OF each] k fs(2) by simp
  finally have entry: "read_pod_at ?sz ?F (ucast ?off) = Ok (U_new e (fs ! ?k))" .
  have loaded: "(if ?W = 64 then and_then (read_pod_at 8 ?F (ucast ?off)) (\<lambda>f. Ok (U_get f e :: u64))
      else and_then (read_pod_at 4 ?F (ucast ?off)) (\<lambda>f. Ok (ucast (U_get f e :: u32)))) =
    Ok (ucast (fs ! ?k))"
    using bits(2) entry conv [of "fs ! ?k"] by auto
  have below: "unat (x mod ?W) < LENGTH('v) \<and> LENGTH('v) \<le> 64" for x :: u32
    using bits(2) by (auto simp: unat_mod)
  have test: "ucast (fs ! ?k) AND push_bit n 1 \<noteq> (0 :: u64) \<longleftrightarrow> bit (fs ! ?k) n" if "n < LENGTH('v)" "LENGTH('v) \<le> 64" for n
    using that by (simp add: and_exp_eq_0_iff_not_bit bit_unsigned_iff)
  have "bit (fs ! ?k) (unat (h mod ?W))" "bit (fs ! ?k) (unat (drop_bit (unat (gt_bloom_shift t)) h mod ?W))"
    using has by (simp_all add: bloom_has_def Let_def)
  then have masks: "ucast (fs ! ?k) AND push_bit (unat (h mod ?W)) 1 \<noteq> (0 :: u64)"
    "ucast (fs ! ?k) AND push_bit (unat (drop_bit (unat (gt_bloom_shift t)) h mod ?W)) 1 \<noteq> (0 :: u64)"
    using test below by blast+
  have shr: "word_shr h (unat (gt_bloom_shift t)) = (Ok (drop_bit (unat (gt_bloom_shift t)) h) :: (u32, string) result)"
    using shift by (simp add: word_shr_def)
  have cnt: "word_of_nat (length ?F div ?sz) = bloom" using lenF sz(1) by auto
  show ?thesis
    unfolding gnu_bloom_test_def fs(1) sz(4) W and_then.simps Let_def cnt one off loaded result.case shr
    using masks by (simp only: if_False simp_thms)
qed

section \<open>The whole table\<close>

definition gnu_hash_image :: "endianness \<Rightarrow> gnu_hash_header \<Rightarrow> bytes \<Rightarrow> u32 list \<Rightarrow> u32 list \<Rightarrow> bytes" where
  "gnu_hash_image e h fs bs vs = encode_gnu_hash_header e h @ fs @ u32_array e bs @ u32_array e vs"

lemma read_bytes_ok:
  assumes "unat offset + unat sz \<le> length self"
  shows "read_bytes self offset sz = (Ok (slice_at self (unat offset) (unat sz)), offset + sz)"
  using read_bytes_at_ok [OF assms] by (simp add: read_bytes_def)

lemma GnuHashTable_parse_image:
  fixes C :: "'w::len word elf_types"
  assumes fs: "length fs = unat (bloom_count h) * size_of_word C" and sz: "size_of_word C \<le> 8"
    and bs: "length bs = unat (gnu_bucket_count h)"
    and fit: "length (gnu_hash_image e h fs bs vs) \<le> usize_max"
  shows "GnuHashTable_parse C e (gnu_hash_image e h fs bs vs) =
    Ok \<lparr>gt_symbol_base = symbol_base h, gt_bloom_shift = bloom_shift h, gt_bloom_filters = fs,
        gt_buckets = map (U_new e) bs, gt_values = map (U_new e) vs\<rparr>"
proof -
  let ?H = "encode_gnu_hash_header e h" and ?B = "map (U_new e) bs" and ?V = "map (U_new e) vs"
  let ?d = "gnu_hash_image e h fs bs vs"
  have H: "length ?H = 16" by (simp add: len_simps)
  have d1: "?d = ?H @ fs @ concat ?B @ concat ?V" by (simp add: gnu_hash_image_def u32_array_def)
  have d2: "?d = (?H @ fs) @ concat ?B @ concat ?V" unfolding d1 by simp
  have d3: "?d = (?H @ fs @ concat ?B) @ concat ?V @ []" unfolding d1 by simp
  have lenB: "length (concat ?B) = 4 * length bs" and lenV: "length (concat ?V) = 4 * length vs"
    by (simp_all add: length_concat_const [of _ 4])
  have total: "length ?d = 16 + length fs + 4 * length bs + 4 * length vs"
    unfolding d1 using H lenB lenV by simp
  have "unat (bloom_count h) < 2 ^ 32" using unsigned_less [of "bloom_count h", where ?'a = nat] by simp
  moreover have "length fs \<le> unat (bloom_count h) * 8" unfolding fs using sz by simp
  ultimately have fs_small: "length fs < 2 ^ 35" by simp
  have len: "word_mul (ucast (bloom_count h)) (word_of_nat (size_of_word C) :: u64) =
      (Ok (word_of_nat (length fs)) :: (u64, string) result)"
  proof -
    have "unat (ucast (bloom_count h) :: u64) = unat (bloom_count h)"
      "unat (word_of_nat (size_of_word C) :: u64) = size_of_word C"
      using sz by (simp_all add: unat_ucast_le unat_of_nat)
    moreover have "ucast (bloom_count h) * word_of_nat (size_of_word C) = (word_of_nat (length fs) :: u64)"
      unfolding fs by simp
    ultimately show ?thesis using fs_small by (simp add: word_mul_def flip: fs)
  qed
  have header: "read_pod 16 ?d 0 = (Ok ?H, 16)"
    unfolding d1 by (subst read_pod_ok) (simp_all add: slice_at_def H usize_max_def)
  have ufs: "unat (word_of_nat (length fs) :: u64) = length fs" using fs_small by (simp add: unat_of_nat)
  have filters: "read_bytes ?d 16 (word_of_nat (length fs)) = (Ok fs, word_of_nat (16 + length fs))"
    using read_bytes_ok [of 16 "word_of_nat (length fs)" ?d] H
    unfolding ufs total by (simp add: slice_at_def d1)
  have off1: "unat (word_of_nat (16 + length fs) :: u64) = length (?H @ fs)"
    using fs_small H by (simp add: unat_of_nat del: of_nat_add)
  have buckets: "read_slice 4 ?d (word_of_nat (16 + length fs)) (unat (gnu_bucket_count h)) =
      (Ok ?B, word_of_nat (length (?H @ fs) + length (concat ?B)))"
    using read_slice_concat [of ?B 4 "word_of_nat (16 + length fs)" "?H @ fs" "concat ?V", OF _ off1] fit
    unfolding d2 bs [symmetric] by simp
  have fit3: "16 + length fs + 4 * length bs \<le> usize_max" using fit total by linarith
  have off2: "unat (word_of_nat (length (?H @ fs) + length (concat ?B)) :: u64) = length (?H @ fs @ concat ?B)"
    using unat_word_of_nat_u64 [OF fit3] H lenB by (simp add: add.assoc del: of_nat_add)
  have "length (?H @ fs @ concat ?B) = 16 + length fs + 4 * length bs" using H lenB by simp
  then have rest: "usize_sub (length ?d) (unat (word_of_nat (length (?H @ fs) + length (concat ?B)) :: u64)) =
      (Ok (4 * length vs) :: (nat, string) result)"
    unfolding off2 total by (simp add: usize_sub_def)
  have vals: "read_slice 4 ?d (word_of_nat (length (?H @ fs) + length (concat ?B))) (length vs) =
      (Ok ?V, word_of_nat (length (?H @ fs @ concat ?B) + length (concat ?V)))"
    using read_slice_concat [of ?V 4 _ "?H @ fs @ concat ?B" "[]", OF _ off2] fit
    unfolding d3 by simp
  show ?thesis
    by (simp add: GnuHashTable_parse_def header Let_def len filters buckets rest vals
        del: of_nat_add of_nat_Suc length_append length_map)
qed

lemma gnu_tail_written:
  assumes sorted: "sorted_buckets bk n cnt" and n: "n = unat symbols"
    and hs: "\<And>i. i < n \<Longrightarrow> hash (word_of_nat i) = hs i" and bk: "\<And>i. i < n \<Longrightarrow> hs i mod cnt = bk i"
    and cnt: "cnt \<noteq> 0" and base: "unat base + n < 2 ^ 32"
    and room: "length (w_bytes self) + 4 * unat cnt + 4 * n \<le> w_capacity self"
  shows "and_then (gnu_write_buckets hash base cnt [0 ..< n] 0 self) (\<lambda>(bucket, self).
      and_then (gnu_pad_buckets bucket cnt self) (\<lambda>(_, self).
      gnu_write_values hash cnt symbols [0 ..< n] self)) =
    Ok (put (u32_array (w_endian self) (map (bucket_entry bk base n) [0 ..< unat cnt]) @
      u32_array (w_endian self) (map (chain_value hs bk n) [0 ..< n])) self)"
proof -
  have "and_then (gnu_write_buckets hash base cnt [0 ..< n] 0 self) (\<lambda>(bucket, self).
      and_then (gnu_pad_buckets bucket cnt self) (\<lambda>(_, self).
      gnu_write_values hash cnt symbols [0 ..< n] self)) =
    gnu_write_values hash cnt symbols [0 ..< n]
      (put (u32_array (w_endian self) (map (bucket_entry bk base n) [0 ..< unat cnt])) self)"
    using room by (intro gnu_buckets_written [OF sorted _ cnt base]) (simp_all add: hs bk)
  also have "\<dots> = Ok (put (u32_array (w_endian self) (map (chain_value hs bk n) [0 ..< n]))
      (put (u32_array (w_endian self) (map (bucket_entry bk base n) [0 ..< unat cnt])) self))"
    using gnu_values_written [of n hash hs cnt bk symbols 0
        "put (u32_array (w_endian self) (map (bucket_entry bk base n) [0 ..< unat cnt])) self",
        OF hs bk cnt n] room
    by simp
  finally show ?thesis by simp
qed

text \<open>The filters as written, and the test that every symbol in the table passes.\<close>

definition filters_pass :: "'w::len word elf_types \<Rightarrow> endianness \<Rightarrow> u32 \<Rightarrow> (nat \<Rightarrow> u32) \<Rightarrow> nat \<Rightarrow> bytes \<Rightarrow> bool" where
  "filters_pass C e shift hs n F \<longleftrightarrow>
    (\<forall>t i. gt_bloom_filters t = F \<and> gt_bloom_shift t = shift \<and> i < n \<longrightarrow> gnu_bloom_test C t e (hs i) = Ok True)"

lemma bloom_filters_written:
  fixes C :: "'w::len word elf_types" and z :: "'v::len word"
  assumes bits: "LENGTH('w) = LENGTH('v)" "LENGTH('v) = 64 \<or> LENGTH('v) = 32"
    and bloom: "bloom \<noteq> 0" "8 * unat bloom < 2 ^ 32" and shift: "unat shift < 32"
    and hs: "\<And>i. i < n \<Longrightarrow> hash (word_of_nat i) = hs i"
    and room: "length (w_bytes self) + size_of_word C * unat bloom \<le> w_capacity self"
    and conv: "\<And>f :: 'v word. if LENGTH('v) = 64 then U_get (U_new (w_endian self) f) (w_endian self) = (ucast f :: u64)
      else ucast (U_get (U_new (w_endian self) f) (w_endian self) :: u32) = (ucast f :: u64)"
  shows "\<exists>F. length F = unat bloom * size_of_word C \<and> filters_pass C (w_endian self) shift hs n F \<and>
    and_then (bloom_fill hash shift bloom [0 ..< n] (replicate (unat bloom) (0 :: 'v word)))
      (\<lambda>filters. write_words filters self) = Ok (put F self)"
proof -
  obtain fs :: "'v word list" where fs: "bloom_fill hash shift bloom [0 ..< n] (replicate (unat bloom) 0) = Ok fs"
      "length fs = unat bloom" "\<forall>i \<in> set [0 ..< n]. bloom_has shift bloom fs (hash (word_of_nat i))"
    using bloom_fill_ok [OF bloom(1) shift, of "replicate (unat bloom) (0 :: 'v word)" hash "[0 ..< n]"] bits(2)
    by auto
  let ?F = "concat (map (U_new (w_endian self)) fs)"
  have sz: "size_of_word C = LENGTH('v) div 8" using bits by (simp add: size_of_word_def)
  have "write_words fs self = Ok (put ?F self)"
    using room fs(2) by (intro write_words_ok) (simp add: sz)
  moreover have "length ?F = unat bloom * size_of_word C"
    using fs(2) by (subst length_concat_const [of _ "LENGTH('v) div 8"]) (auto simp: sz)
  moreover have "filters_pass C (w_endian self) shift hs n ?F"
    unfolding filters_pass_def
  proof (intro allI impI)
    fix t :: gnu_hash_table and i
    assume t: "gt_bloom_filters t = ?F \<and> gt_bloom_shift t = shift \<and> i < n"
    then have "bloom_has (gt_bloom_shift t) bloom fs (hs i)" using fs(3) hs by auto
    then show "gnu_bloom_test C t (w_endian self) (hs i) = Ok True"
      using t shift by (intro gnu_bloom_test_passes [OF bits _ fs(2) bloom _ _ conv]) simp_all
  qed
  ultimately show ?thesis using fs(1) by (intro exI [of _ ?F]) simp
qed

text \<open>The writer in either class, with the room that \<open>reserve_gnu_hash\<close> has made.\<close>

lemma Writer_write_gnu_hash_ok:
  fixes C :: "'w::len word elf_types"
  assumes cls: "w_is_64 self \<longleftrightarrow> LENGTH('w) = 64" "LENGTH('w) = 64 \<or> LENGTH('w) = 32"
      "w_elf_align self = size_of_word C"
    and off: "w_gnu_hash_offset self = align_up (length (w_bytes self)) (w_elf_align self)"
    and room: "w_gnu_hash_offset self + 16 + size_of_word C * unat bloom + 4 * unat cnt + 4 * n \<le> w_capacity self"
      "w_capacity self \<le> usize_max - 8"
    and sorted: "sorted_buckets bk n cnt" and n: "n = unat symbols"
    and hs: "\<And>i. i < n \<Longrightarrow> hash (word_of_nat i) = hs i" and bk: "\<And>i. i < n \<Longrightarrow> hs i mod cnt = bk i"
    and cnt: "cnt \<noteq> 0" and base: "unat base + n < 2 ^ 32"
    and bloom: "bloom \<noteq> 0" "8 * unat bloom < 2 ^ 32" and shift: "unat shift < 32"
  shows "\<exists>F. length F = unat bloom * size_of_word C \<and> filters_pass C (w_endian self) shift hs n F \<and>
    Writer_write_gnu_hash base shift bloom cnt symbols hash self =
      Ok (put (pad_to (size_of_word C) (w_bytes self) @
        gnu_hash_image (w_endian self)
          \<lparr>gnu_bucket_count = cnt, symbol_base = base, bloom_count = bloom, bloom_shift = shift\<rparr> F
          (map (bucket_entry bk base n) [0 ..< unat cnt]) (map (chain_value hs bk n) [0 ..< n])) self)"
proof -
  let ?sz = "size_of_word C" and ?e = "w_endian self"
  let ?h = "\<lparr>gnu_bucket_count = cnt, symbol_base = base, bloom_count = bloom, bloom_shift = shift\<rparr>"
  let ?a = "put (pad_to ?sz (w_bytes self)) self"
  let ?b = "put (pad_to ?sz (w_bytes self) @ encode_gnu_hash_header ?e ?h) self"
  let ?tail = "\<lambda>self. and_then (gnu_write_buckets hash base cnt [0 ..< n] 0 self) (\<lambda>(bucket, self).
      and_then (gnu_pad_buckets bucket cnt self) (\<lambda>(_, self).
      gnu_write_values hash cnt symbols [0 ..< n] self))"
  have sz: "?sz = 8 \<and> LENGTH('w) = 64 \<or> ?sz = 4 \<and> LENGTH('w) = 32"
    using cls(2) by (auto simp: size_of_word_def)
  then obtain k where k: "?sz = 2 ^ k" using that [of 3] that [of 2] by auto
  have alen: "length (w_bytes ?a) = w_gnu_hash_offset self"
    using length_padded [of "w_bytes self" k] off cls(3) k by simp
  have a: "buffer_align (w_elf_align self) self = Ok ?a"
  proof -
    have "length (w_bytes self) \<le> w_gnu_hash_offset self" using alen by simp
    then have "length (w_bytes self) + ?sz \<le> usize_max" using room sz by (auto simp: usize_max_def)
    then show ?thesis using buffer_align_ok [of self k] off room(1) cls(3) k by simp
  qed
  have b: "buffer_write (encode_gnu_hash_header ?e ?h) ?a = Ok ?b"
    using alen room(1) by (subst buffer_write_ok) (simp_all add: len_simps)
  have blen: "length (w_bytes ?b) + ?sz * unat bloom + 4 * unat cnt + 4 * n \<le> w_capacity ?b"
    using alen room(1) by (simp add: len_simps)
  obtain F where F: "length F = unat bloom * ?sz" "filters_pass C ?e shift hs n F"
    "(if w_is_64 ?b
      then and_then (bloom_fill hash shift bloom [0 ..< n] (replicate (unat bloom) (0 :: u64)))
        (\<lambda>filters. write_words filters ?b)
      else and_then (bloom_fill hash shift bloom [0 ..< n] (replicate (unat bloom) (0 :: u32)))
        (\<lambda>filters. write_words filters ?b)) = Ok (put F ?b)"
  proof -
    have e: "w_endian ?b = ?e" "w_is_64 ?b = w_is_64 self" by (simp_all add: put_def)
    have r: "length (w_bytes ?b) + ?sz * unat bloom \<le> w_capacity ?b" using blen by simp
    show thesis
    proof (cases "w_is_64 self")
      case True
      then have "LENGTH('w) = LENGTH(64)" using cls(1) by simp
      from bloom_filters_written [where hash = hash and hs = hs and n = n and 'v = 64, OF this _ bloom shift hs r] True that show thesis
        unfolding e by auto
    next
      case False
      then have "LENGTH('w) = LENGTH(32)" using cls(1,2) by simp
      from bloom_filters_written [where hash = hash and hs = hs and n = n and 'v = 32, OF this _ bloom shift hs r] False that show thesis
        unfolding e by auto
    qed
  qed
  have "?tail (put F ?b) = Ok (put (u32_array (w_endian (put F ?b)) (map (bucket_entry bk base n) [0 ..< unat cnt]) @
      u32_array (w_endian (put F ?b)) (map (chain_value hs bk n) [0 ..< n])) (put F ?b))"
    using blen F(1) by (intro gnu_tail_written [OF sorted n hs bk cnt base]) (simp_all add: mult.commute)
  then have tail: "?tail (put F ?b) = Ok (put (pad_to ?sz (w_bytes self) @ gnu_hash_image ?e ?h F
      (map (bucket_entry bk base n) [0 ..< unat cnt]) (map (chain_value hs bk n) [0 ..< n])) self)"
    by (simp add: gnu_hash_image_def)
  have "w_gnu_hash_offset ?a = Writer_len ?a" "w_endian ?a = ?e"
    using alen by (simp_all add: Writer_len_eq put_def)
  then have "Writer_write_gnu_hash base shift bloom cnt symbols hash self = ?tail (put F ?b)"
    unfolding Writer_write_gnu_hash_def a and_then.simps n [symmetric]
    by (simp only: debug_assert_holds b F(3) and_then.simps)
  then show ?thesis using F(1,2) tail by auto
qed

section \<open>Looking up a symbol in the table\<close>

definition written_gnu_table :: "endianness \<Rightarrow> u32 \<Rightarrow> u32 \<Rightarrow> bytes \<Rightarrow> (nat \<Rightarrow> u32) \<Rightarrow> (nat \<Rightarrow> u32) \<Rightarrow> nat \<Rightarrow> u32 \<Rightarrow>
    gnu_hash_table" where
  "written_gnu_table e base shift F bk hs n cnt =
    \<lparr>gt_symbol_base = base, gt_bloom_shift = shift, gt_bloom_filters = F,
     gt_buckets = map (U_new e) (map (bucket_entry bk base n) [0 ..< unat cnt]),
     gt_values = map (U_new e) (map (chain_value hs bk n) [0 ..< n])\<rparr>"

lemma gnu_chain_find_written:
  assumes sorted: "sorted_buckets bk n cnt" and bk: "\<And>i. i < n \<Longrightarrow> hs i mod cnt = bk i"
    and cnt: "cnt \<noteq> 0" and base: "base \<noteq> 0" "unat base + n < 2 ^ 32"
    and t: "t < n" and cand: "candidate memchr C e name version symbols versions (unat base + t)"
  shows "\<exists>j. unat base \<le> j \<and> j \<le> unat base + t \<and> candidate memchr C e name version symbols versions j \<and>
    gnu_chain_find memchr C (written_gnu_table e base shift F bk hs n cnt) e name (hs t) version symbols versions =
      Ok (Some (j, symt_symbols symbols ! j))"
proof -
  let ?T = "written_gnu_table e base shift F bk hs n cnt" and ?S = "symt_symbols symbols"
  define k where "k = (LEAST i. bk i = bk t)"
  have k: "bk k = bk t" "k \<le> t"
    unfolding k_def by (rule LeastI [where P = "\<lambda>i. bk i = bk t"], rule refl) (rule Least_le, rule refl)
  have first: "\<forall>i < k. bk i \<noteq> bk k"
    unfolding k(1) unfolding k_def by (intro allI impI) (rule not_less_Least)
  have kn: "k < n" using k(2) t by simp
  have bucket: "unat (bk t) < unat cnt" using sorted t by (auto simp: sorted_buckets_def word_less_nat_alt)
  have hash: "unat (hs t) mod unat cnt = unat (bk t)" using bk [OF t] by (metis unat_mod_distrib)
  have entry: "unat (bucket_entry bk base n (unat (bk t))) = unat base + k"
    using bucket_entry_first [OF kn first, of base] base(2) kn
    by (simp add: k(1) unat_word_ariths unat_of_nat)
  have "hash_bucket (gt_buckets ?T) e (hs t) = Ok (unat base + k)"
    using bucket hash entry cnt
    by (simp add: hash_bucket_def written_gnu_table_def res_simps unat_gt_0)
  moreover have "unat base + k \<noteq> 0" using base(1) by (simp add: unat_eq_0)
  moreover have "unat base + k < length ?S" using cand k(2) by (simp add: candidate_def)
  moreover have "drop k [0 ..< n] = [k ..< n]" by simp
  then have "get_from (gt_values ?T) k = Some (map (U_new e) (map (chain_value hs bk n) [k ..< n]))"
    using kn by (simp add: get_from_def written_gnu_table_def drop_map)
  moreover obtain j where "k \<le> j \<and> j \<le> t \<and> hs j OR 1 = hs t OR 1 \<and>
    candidate memchr C e name version symbols versions (unat base + j) \<and>
    gnu_find_loop memchr C e name (hs t) version symbols versions (unat base + k)
      (zip (drop (unat base + k) ?S) (map (U_new e) (map (chain_value hs bk n) [k ..< n]))) =
      Some (unat base + j, ?S ! (unat base + j))"
    using gnu_find_loop_chain [OF sorted t k(1) [symmetric] refl cand k(2)] ..
  ultimately show ?thesis
    by (intro exI [of _ "unat base + j"])
      (simp add: gnu_chain_find_def get_from_def written_gnu_table_def del: map_map)
qed

section \<open>Properties\<close>

text \<open>C7: a GNU hash table that \<^verbatim>\<open>Writer::write_gnu_hash\<close> has written for symbols sorted by bucket can be parsed, and the lookup has no false negatives: for every symbol of the table, asked for by its hash, name and version, it returns a symbol of that name and version that is not after it; whatever is asked for, a symbol that is returned has the name and the version.\<close>

theorem gnu_hash_table_finds_symbols:
  fixes C :: "'w::len word elf_types"
  assumes "w_is_64 self \<longleftrightarrow> LENGTH('w) = 64" "LENGTH('w) = 64 \<or> LENGTH('w) = 32"
    and "w_elf_align self = LENGTH('w) div 8"
    and "w_gnu_hash_offset self = align_up (length (w_bytes self)) (w_elf_align self)"
    and "w_gnu_hash_offset self + 16 + (LENGTH('w) div 8) * unat bloom + 4 * unat cnt + 4 * unat symbol_cnt
      \<le> w_capacity self" "w_capacity self \<le> usize_max - 8"
    and "cnt \<noteq> 0" "base \<noteq> 0" "unat base + unat symbol_cnt < 2 ^ 32"
    and "bloom \<noteq> 0" "8 * unat bloom < 2 ^ 32" "unat shift < 32"
    and "\<forall>j < unat symbol_cnt. \<forall>i \<le> j. hash (word_of_nat i) mod cnt \<le> hash (word_of_nat j) mod cnt"
  shows "\<exists>self' tbl. Writer_write_gnu_hash base shift bloom cnt symbol_cnt hash self = Ok self' \<and>
    GnuHashTable_parse C (w_endian self) (drop (w_gnu_hash_offset self) (w_bytes self')) = Ok tbl \<and>
    (\<forall>t < unat symbol_cnt. candidate memchr C (w_endian self) name version symbols versions (unat base + t) \<longrightarrow>
      (\<exists>j. unat base \<le> j \<and> j \<le> unat base + t \<and> candidate memchr C (w_endian self) name version symbols versions j \<and>
        GnuHashTable_find memchr C tbl (w_endian self) name (hash (word_of_nat t)) version symbols versions =
          Ok (Some (j, symt_symbols symbols ! j)))) \<and>
    (\<forall>h j s. GnuHashTable_find memchr C tbl (w_endian self) name h version symbols versions = Ok (Some (j, s)) \<longrightarrow>
      s = symt_symbols symbols ! j \<and> candidate memchr C (w_endian self) name version symbols versions j)"
proof -
  let ?sz = "size_of_word C" and ?e = "w_endian self" and ?n = "unat symbol_cnt"
  let ?hs = "\<lambda>i. hash (word_of_nat i)" and ?bk = "\<lambda>i. hash (word_of_nat i) mod cnt"
  let ?h = "\<lparr>gnu_bucket_count = cnt, symbol_base = base, bloom_count = bloom, bloom_shift = shift\<rparr>"
  let ?B = "map (bucket_entry ?bk base ?n) [0 ..< unat cnt]" and ?V = "map (chain_value ?hs ?bk ?n) [0 ..< ?n]"
  have sz: "?sz = LENGTH('w) div 8" "?sz \<le> 8" using assms(2) by (auto simp: size_of_word_def)
  have sorted: "sorted_buckets ?bk ?n cnt"
    using assms(7,13) by (simp add: sorted_buckets_def word_less_nat_alt unat_mod unat_gt_0)
  obtain F where F: "length F = unat bloom * ?sz" "filters_pass C ?e shift ?hs ?n F"
      "Writer_write_gnu_hash base shift bloom cnt symbol_cnt hash self =
        Ok (put (pad_to ?sz (w_bytes self) @ gnu_hash_image ?e ?h F ?B ?V) self)"
    using Writer_write_gnu_hash_ok [of self C bloom cnt ?n ?bk symbol_cnt hash ?hs base shift] assms sorted sz
    by auto
  obtain k where k: "?sz = 2 ^ k" using assms(2) that [of 3] that [of 2] by (auto simp: size_of_word_def)
  have "length (w_bytes self @ pad_to ?sz (w_bytes self)) = w_gnu_hash_offset self"
    using length_padded [of "w_bytes self" k] assms(3,4) k sz by simp
  then have image: "drop (w_gnu_hash_offset self) (w_bytes (put (pad_to ?sz (w_bytes self) @
      gnu_hash_image ?e ?h F ?B ?V) self)) = gnu_hash_image ?e ?h F ?B ?V"
    by (simp flip: append_assoc)
  have "length (gnu_hash_image ?e ?h F ?B ?V) \<le> usize_max"
    using assms(5,6) F(1) sz(1) by (simp add: gnu_hash_image_def len_simps mult.commute)
  then have parse: "GnuHashTable_parse C ?e (gnu_hash_image ?e ?h F ?B ?V) =
      Ok (written_gnu_table ?e base shift F ?bk ?hs ?n cnt)"
    using GnuHashTable_parse_image [of F ?h C ?B ?e ?V] F(1) sz(2)
    by (simp add: written_gnu_table_def)
  let ?T = "written_gnu_table ?e base shift F ?bk ?hs ?n cnt"
  have passes: "gnu_bloom_test C ?T ?e (?hs t) = Ok True" if "t < ?n" for t
    using F(2) that by (simp add: filters_pass_def written_gnu_table_def)
  have complete: "\<exists>j. unat base \<le> j \<and> j \<le> unat base + t \<and> candidate memchr C ?e name version symbols versions j \<and>
      GnuHashTable_find memchr C ?T ?e name (?hs t) version symbols versions = Ok (Some (j, symt_symbols symbols ! j))"
    if "t < ?n" "candidate memchr C ?e name version symbols versions (unat base + t)" for t
    unfolding GnuHashTable_find_def passes [OF that(1)] and_then.simps if_True
    by (rule gnu_chain_find_written [OF sorted refl assms(7,8,9) that])
  have sound: "s = symt_symbols symbols ! j \<and> candidate memchr C ?e name version symbols versions j"
    if "GnuHashTable_find memchr C ?T ?e name h version symbols versions = Ok (Some (j, s))" for h j s
    using that by (auto simp: GnuHashTable_find_def res_simps split: if_splits dest!: gnu_chain_find_sound)
  show ?thesis
  proof (rule exI, rule exI, intro conjI)
    show "Writer_write_gnu_hash base shift bloom cnt symbol_cnt hash self =
      Ok (put (pad_to ?sz (w_bytes self) @ gnu_hash_image ?e ?h F ?B ?V) self)" by (rule F(3))
    show "GnuHashTable_parse C ?e (drop (w_gnu_hash_offset self) (w_bytes (put (pad_to ?sz (w_bytes self) @
      gnu_hash_image ?e ?h F ?B ?V) self))) = Ok ?T" unfolding image by (rule parse)
  qed (intro allI impI, erule (1) complete, intro allI impI, erule sound)
qed

theorem gnu_hash_table_finds_symbols_witness:
  "\<exists>self' tbl. Writer_write_gnu_hash 1 6 1 1 2 (\<lambda>i. 102)
      ((Writer_new list_set Little True Vec_new)\<lparr>w_buffer := \<lparr>vb_bytes = [], vb_capacity = 64\<rparr>\<rparr>) = Ok self' \<and>
    GnuHashTable_parse Elf64 Little (w_bytes self') = Ok tbl \<and>
    GnuHashTable_find first_index Elf64 tbl Little [102] 102 None example_symbols VersionTable_default =
      Ok (Some (1, example_symbol))"
proof -
  let ?self = "(Writer_new list_set Little True Vec_new)\<lparr>w_buffer := \<lparr>vb_bytes = [], vb_capacity = 64\<rparr>\<rparr>"
  let ?cand = "candidate first_index Elf64 Little [102] None example_symbols VersionTable_default"
  have len: "w_gnu_hash_offset ?self = 0" "w_bytes ?self = []" "w_capacity ?self = 64" "w_endian ?self = Little"
      "w_is_64 ?self = True" "w_elf_align ?self = 8"
    by (simp_all add: Writer_new_def w_bytes_def w_capacity_def)
  have nums: "unat (1 :: u32) = 1" "unat (2 :: u32) = 2" "unat (6 :: u32) = 6" by simp_all
  have "version_matches VersionTable_default Little 1 None"
    by (simp add: version_matches_def version_index_def VersionTable_default_def get_opt_def
        VersionTable_version_def VersionIndex_index_def)
  then have cand: "?cand (1 + 0)"
    using example_symbols_name
    by (simp add: candidate_def symbol_matches_def example_symbols_def)
  have "\<exists>self' tbl. Writer_write_gnu_hash 1 6 1 1 2 (\<lambda>i. 102) ?self = Ok self' \<and>
      GnuHashTable_parse Elf64 Little (drop 0 (w_bytes self')) = Ok tbl \<and>
      (\<forall>t < 2. ?cand (1 + t) \<longrightarrow> (\<exists>j. 1 \<le> j \<and> j \<le> 1 + t \<and> ?cand j \<and>
        GnuHashTable_find first_index Elf64 tbl Little [102] 102 None example_symbols VersionTable_default =
          Ok (Some (j, symt_symbols example_symbols ! j))))"
    using gnu_hash_table_finds_symbols [of ?self 1 1 2 1 6 "\<lambda>i. 102" Elf64 first_index "[102]" None
        example_symbols VersionTable_default] unfolding len nums
    by (simp add: align_up_def usize_max_def) blast
  then obtain self' tbl where "Writer_write_gnu_hash 1 6 1 1 2 (\<lambda>i. 102) ?self = Ok self'"
    "GnuHashTable_parse Elf64 Little (drop 0 (w_bytes self')) = Ok tbl"
    and all: "\<forall>t < 2. ?cand (1 + t) \<longrightarrow> (\<exists>j. 1 \<le> j \<and> j \<le> 1 + t \<and> ?cand j \<and>
        GnuHashTable_find first_index Elf64 tbl Little [102] 102 None example_symbols VersionTable_default =
          Ok (Some (j, symt_symbols example_symbols ! j)))"
    by (elim exE conjE) (rule that)
  moreover obtain j where "1 \<le> j" "j \<le> 1 + 0"
      "GnuHashTable_find first_index Elf64 tbl Little [102] 102 None example_symbols VersionTable_default =
          Ok (Some (j, symt_symbols example_symbols ! j))"
    using all cand by (metis zero_less_numeral)
  moreover from this have "j = 1" by simp
  moreover have "symt_symbols example_symbols ! 1 = example_symbol" by (simp add: example_symbols_def)
  ultimately show ?thesis by auto
qed

end
