(* ===== verification/Elf_Notes.thy ===== *)
theory Elf_Notes
  imports Elf_Reader Iterators
begin

text \<open>
  \<^verbatim>\<open>src/read/elf/note.rs\<close>: the iterators over notes and over the properties of a GNU property note,
  and the layout of a note section from which they read back every note. The two note headers have
  the same layout and are one record.
\<close>

section \<open>Note headers\<close>

record note_header =
  n_namesz :: u32
  n_descsz :: u32
  n_type :: u32

definition decode_note_header :: "endianness \<Rightarrow> bytes \<Rightarrow> note_header" where
  "decode_note_header e bs =
    (case fld e bs of (namesz, bs) \<Rightarrow>
     case fld e bs of (descsz, bs) \<Rightarrow>
     case fld e bs of (t, bs) \<Rightarrow>
     \<lparr>n_namesz = namesz, n_descsz = descsz, n_type = t\<rparr>)"

definition encode_note_header :: "endianness \<Rightarrow> note_header \<Rightarrow> bytes" where
  "encode_note_header e s = U_new e (n_namesz s) @ U_new e (n_descsz s) @ U_new e (n_type s)"

lemma decode_encode_note_header [simp]: "decode_note_header e (encode_note_header e s) = s"
  by (simp add: decode_note_header_def encode_note_header_def)

lemma length_encode_note_header [simp]: "length (encode_note_header e s) = 12"
  by (simp add: encode_note_header_def)

section \<open>Notes\<close>

record elf_note =
  nt_header :: bytes
  nt_name :: bytes
  nt_desc :: bytes

record note_iterator =
  ni_endian :: endianness
  ni_align :: nat
  ni_data :: bytes

definition NoteIterator_new :: "endianness \<Rightarrow> 'w::len word \<Rightarrow> bytes \<Rightarrow> (note_iterator, string) result" where
  "NoteIterator_new e align data =
    and_then (if unat align \<le> 4 then Ok 4 else if unat align = 8 then Ok 8
              else Err ''Invalid ELF note alignment'') (\<lambda>align.
    Ok \<lparr>ni_endian = e, ni_align = align, ni_data = data\<rparr>)"

text \<open>\<^verbatim>\<open>parse\<close>: the note and the offset of the next one; the rest is empty when the offset is beyond the end.\<close>

definition note_at :: "note_iterator \<Rightarrow> (elf_note \<times> nat, string) result" where
  "note_at self =
    and_then (read_error (Bytes_read_at 12 (ni_data self) 0) ''ELF note is too short'') (\<lambda>header.
    let h = decode_note_header (ni_endian self) header; namesz = unat (n_namesz h) in
    and_then (read_error (Bytes_read_bytes_at (ni_data self) 12 namesz) ''Invalid ELF note namesz'') (\<lambda>name.
    and_then (usize_add 12 namesz) (\<lambda>offset.
    and_then (util_align offset (ni_align self)) (\<lambda>offset.
    let descsz = unat (n_descsz h) in
    and_then (read_error (Bytes_read_bytes_at (ni_data self) offset descsz) ''Invalid ELF note descsz'') (\<lambda>desc.
    and_then (usize_add offset descsz) (\<lambda>offset.
    and_then (util_align offset (ni_align self)) (\<lambda>offset.
    Ok (\<lparr>nt_header = header, nt_name = name, nt_desc = desc\<rparr>, offset))))))))"

definition NoteIterator_parse :: "note_iterator \<Rightarrow> (elf_note, string) result \<times> note_iterator" where
  "NoteIterator_parse self =
    (case note_at self of
       Ok (n, offset) \<Rightarrow>
         (Ok n, self\<lparr>ni_data := (case skip offset (ni_data self) of (Ok _, data) \<Rightarrow> data | _ \<Rightarrow> [])\<rparr>)
     | Err e \<Rightarrow> (Err e, self)
     | Panic \<Rightarrow> (Panic, self))"

definition NoteIterator_next :: "note_iterator \<Rightarrow> (elf_note option, string) result \<times> note_iterator" where
  "NoteIterator_next = next_or_clear ni_data (\<lambda>self. self\<lparr>ni_data := []\<rparr>) NoteIterator_parse"

definition Note_n_type :: "elf_note \<Rightarrow> endianness \<Rightarrow> u32" where
  "Note_n_type self e = n_type (decode_note_header e (nt_header self))"

definition Note_n_namesz :: "elf_note \<Rightarrow> endianness \<Rightarrow> u32" where
  "Note_n_namesz self e = n_namesz (decode_note_header e (nt_header self))"

definition Note_n_descsz :: "elf_note \<Rightarrow> endianness \<Rightarrow> u32" where
  "Note_n_descsz self e = n_descsz (decode_note_header e (nt_header self))"

definition name_bytes :: "elf_note \<Rightarrow> bytes" where
  "name_bytes self = nt_name self"

text \<open>The loop of \<^verbatim>\<open>name\<close> that drops trailing null bytes.\<close>

function strip_nulls :: "bytes \<Rightarrow> bytes" where
  "strip_nulls name = (if name \<noteq> [] \<and> last name = 0 then strip_nulls (butlast name) else name)"
  by auto
termination by (relation "measure length") auto

declare strip_nulls.simps [simp del]

definition Note_name :: "elf_note \<Rightarrow> bytes" where
  "Note_name self = strip_nulls (nt_name self)"

definition Note_desc :: "elf_note \<Rightarrow> bytes" where
  "Note_desc self = nt_desc self"

section \<open>GNU properties\<close>

record gnu_property =
  pr_type :: u32
  pr_data :: bytes

record gnu_property_iterator =
  gp_endian :: endianness
  gp_align :: nat
  gp_data :: bytes

abbreviation "NT_GNU_PROPERTY_TYPE_0 \<equiv> (5 :: u32)"

definition ELF_NOTE_GNU :: bytes where
  "ELF_NOTE_GNU = [0x47, 0x4e, 0x55]"

definition gnu_properties :: "'w::len word elf_types \<Rightarrow> elf_note \<Rightarrow> endianness \<Rightarrow> gnu_property_iterator option" where
  "gnu_properties C self e =
    (if Note_name self \<noteq> ELF_NOTE_GNU \<or> Note_n_type self e \<noteq> NT_GNU_PROPERTY_TYPE_0 then None
     else
       let align = if is_type_64 C then 8 else 4 in
       Some \<lparr>gp_endian = e, gp_align = align, gp_data = nt_desc self\<rparr>)"

text \<open>The closure in \<^verbatim>\<open>parse\<close>; its errors are mapped to one message by the caller.\<close>

definition gnu_property_at :: "gnu_property_iterator \<Rightarrow> (gnu_property \<times> bytes, unit) result" where
  "gnu_property_at self =
    and_then (Bytes_read_at 4 (gp_data self) 0) (\<lambda>t.
    let pr_type = U_get t (gp_endian self) in
    and_then (Bytes_read_at 4 (gp_data self) 4) (\<lambda>sz.
    let pr_datasz = unat (U_get sz (gp_endian self) :: u32) in
    and_then (Bytes_read_bytes_at (gp_data self) 8 pr_datasz) (\<lambda>pr_data.
    and_then (usize_add 8 pr_datasz) (\<lambda>n.
    and_then (util_align n (gp_align self)) (\<lambda>n.
    case skip n (gp_data self) of (r, data) \<Rightarrow>
    and_then r (\<lambda>_. Ok (\<lparr>pr_type = pr_type, pr_data = pr_data\<rparr>, data)))))))"

definition GnuPropertyIterator_parse :: "gnu_property_iterator \<Rightarrow>
    (gnu_property, string) result \<times> gnu_property_iterator" where
  "GnuPropertyIterator_parse self =
    (case read_error (gnu_property_at self) ''Invalid ELF GNU property'' of
       Ok (p, data) \<Rightarrow> (Ok p, self\<lparr>gp_data := data\<rparr>)
     | Err e \<Rightarrow> (Err e, self)
     | Panic \<Rightarrow> (Panic, self))"

definition GnuPropertyIterator_next :: "gnu_property_iterator \<Rightarrow>
    (gnu_property option, string) result \<times> gnu_property_iterator" where
  "GnuPropertyIterator_next = next_or_clear gp_data (\<lambda>self. self\<lparr>gp_data := []\<rparr>) GnuPropertyIterator_parse"

definition GnuProperty_data_u32 :: "gnu_property \<Rightarrow> endianness \<Rightarrow> (u32, string) result" where
  "GnuProperty_data_u32 self e =
    and_then (read_error (Bytes_read_at 4 (pr_data self) 0) ''Invalid ELF GNU property data'') (\<lambda>val.
    Ok (U_get val e))"

section \<open>The iterators end\<close>

definition note_iterator_ok :: "note_iterator \<Rightarrow> bool" where
  "note_iterator_ok self \<longleftrightarrow> ni_align self = 4 \<or> ni_align self = 8"

definition gnu_property_iterator_ok :: "gnu_property_iterator \<Rightarrow> bool" where
  "gnu_property_iterator_ok self \<longleftrightarrow> gp_align self = 4 \<or> gp_align self = 8"

lemma NoteIterator_new_ok: "NoteIterator_new e align data = Ok it \<Longrightarrow> note_iterator_ok it"
  by (auto simp: NoteIterator_new_def note_iterator_ok_def split: if_splits)

lemma gnu_properties_ok: "gnu_properties C n e = Some it \<Longrightarrow> gnu_property_iterator_ok it"
  by (auto simp: gnu_properties_def gnu_property_iterator_ok_def Let_def split: if_splits)

lemma util_align_small: "a = 4 \<or> a = 8 \<Longrightarrow> n < 2 ^ 40 \<Longrightarrow> util_align n a = Ok (align_up n a)"
  using util_align_eq [of n 2] util_align_eq [of n 3] by (auto simp: usize_max_def)

lemma align_up_small: "a = 4 \<or> a = 8 \<Longrightarrow> n \<le> align_up n a \<and> align_up n a < n + 8"
  using align_up_ge [of a n] align_up_less [of a n] by auto

text \<open>\<open>note_at\<close> without the arithmetic that cannot overflow.\<close>

lemma note_at_eq:
  assumes "note_iterator_ok self"
  shows "note_at self =
    and_then (read_error (Bytes_read_at 12 (ni_data self) 0) ''ELF note is too short'') (\<lambda>header.
    let h = decode_note_header (ni_endian self) header;
        offset = align_up (12 + unat (n_namesz h)) (ni_align self)
    in and_then (read_error (Bytes_read_bytes_at (ni_data self) 12 (unat (n_namesz h))) ''Invalid ELF note namesz'') (\<lambda>name.
    and_then (read_error (Bytes_read_bytes_at (ni_data self) offset (unat (n_descsz h))) ''Invalid ELF note descsz'') (\<lambda>desc.
    Ok (\<lparr>nt_header = header, nt_name = name, nt_desc = desc\<rparr>,
      align_up (offset + unat (n_descsz h)) (ni_align self)))))"
proof -
  have a: "ni_align self = 4 \<or> ni_align self = 8" using assms by (simp add: note_iterator_ok_def)
  have "usize_add 12 (unat w) = (Ok (12 + unat w) :: (nat, string) result)" for w :: u32
    using unat_u32_bound [of w] by (simp add: usize_add_def usize_max_def)
  moreover have "util_align (12 + unat w) (ni_align self) = (Ok (align_up (12 + unat w) (ni_align self)) :: (nat, string) result)" for w :: u32
    using unat_u32_bound [of w] by (intro util_align_small [OF a]) simp
  moreover have bound: "align_up (12 + unat w) (ni_align self) + unat v < 2 ^ 40" for w v :: u32
    using unat_u32_bound [of w] unat_u32_bound [of v] align_up_small [OF a, of "12 + unat w"] by simp
  moreover have "usize_add (align_up (12 + unat w) (ni_align self)) (unat v) =
      (Ok (align_up (12 + unat w) (ni_align self) + unat v) :: (nat, string) result)" for w v :: u32
    using bound [of w v] by (simp add: usize_add_def usize_max_def)
  moreover have "util_align (align_up (12 + unat w) (ni_align self) + unat v) (ni_align self) =
      (Ok (align_up (align_up (12 + unat w) (ni_align self) + unat v) (ni_align self)) :: (nat, string) result)"
    for w v :: u32
    by (intro util_align_small [OF a] bound)
  ultimately show ?thesis by (simp add: note_at_def Let_def)
qed

lemma note_at_facts:
  assumes "note_iterator_ok self"
  shows "note_at self \<noteq> Panic" "note_at self = Ok (n, offset) \<Longrightarrow> 12 \<le> offset"
proof -
  have a: "ni_align self = 4 \<or> ni_align self = 8" using assms by (simp add: note_iterator_ok_def)
  show "note_at self \<noteq> Panic"
    unfolding note_at_eq [OF assms]
    by (simp add: and_then_eq_Panic read_error_eq_Panic Bytes_read_at_no_panic Let_def)
  assume "note_at self = Ok (n, offset)"
  then obtain w v :: u32 where "offset = align_up (align_up (12 + unat w) (ni_align self) + unat v) (ni_align self)"
    unfolding note_at_eq [OF assms] by (auto simp: Let_def res_simps)
  then show "12 \<le> offset"
    using align_up_small [OF a, of "12 + unat w"]
      align_up_small [OF a, of "align_up (12 + unat w) (ni_align self) + unat v"] by simp
qed

interpretation note_iter: fallible_iterator NoteIterator_next "\<lambda>self. length (ni_data self)" note_iterator_ok
  unfolding NoteIterator_next_def
proof (rule next_or_clear_iterator)
  fix self :: note_iterator
  assume ok: "note_iterator_ok self"
  then show "note_iterator_ok (self\<lparr>ni_data := []\<rparr>)" by (simp add: note_iterator_ok_def)
  show "fst (NoteIterator_parse self) \<noteq> Panic"
    using note_at_facts(1) [OF ok] by (auto simp: NoteIterator_parse_def split: result.splits)
  show "note_iterator_ok (snd (NoteIterator_parse self))"
    using ok by (auto simp: NoteIterator_parse_def note_iterator_ok_def split: result.splits)
  fix n self' assume nonempty: "ni_data self \<noteq> []" and parse: "NoteIterator_parse self = (Ok n, self')"
  then obtain offset where o: "note_at self = Ok (n, offset)"
    "ni_data self' = (case skip offset (ni_data self) of (Ok _, data) \<Rightarrow> data | _ \<Rightarrow> [])"
    by (auto simp: NoteIterator_parse_def split: result.splits)
  with note_at_facts(2) [OF ok o(1)] nonempty show "length (ni_data self') < length (ni_data self)"
    by (cases "offset \<le> length (ni_data self)") (auto simp: skip_ok skip_short)
qed simp

lemma gnu_property_at_facts:
  assumes "gnu_property_iterator_ok self"
  shows "gnu_property_at self \<noteq> Panic"
    "gnu_property_at self = Ok (p, data) \<Longrightarrow> \<exists>n \<ge> 8. n \<le> length (gp_data self) \<and> data = drop n (gp_data self)"
proof -
  have a: "gp_align self = 4 \<or> gp_align self = 8" using assms by (simp add: gnu_property_iterator_ok_def)
  have add: "usize_add 8 (unat w) = (Ok (8 + unat w) :: (nat, unit) result)" for w :: u32
    using unat_u32_bound [of w] by (simp add: usize_add_def usize_max_def)
  have align: "util_align (8 + unat w) (gp_align self) = (Ok (align_up (8 + unat w) (gp_align self)) :: (nat, unit) result)" for w :: u32
    using unat_u32_bound [of w] by (intro util_align_small [OF a]) simp
  have skips: "fst (skip n d) \<noteq> Panic" for n d by (simp add: skip_def split: option.split)
  show "gnu_property_at self \<noteq> Panic"
    by (auto simp: gnu_property_at_def Let_def and_then_eq_Panic Bytes_read_at_no_panic add align
        split: prod.splits) (metis fst_conv skips)+
  assume "gnu_property_at self = Ok (p, data)"
  then obtain w :: u32 and r where
    "skip (align_up (8 + unat w) (gp_align self)) (gp_data self) = (Ok r, data)"
    by (auto simp: gnu_property_at_def Let_def res_simps add align split: prod.splits)
  then have "align_up (8 + unat w) (gp_align self) \<le> length (gp_data self)"
    "data = drop (align_up (8 + unat w) (gp_align self)) (gp_data self)"
    by (auto simp: skip_def res_simps split: option.splits)
  then show "\<exists>n \<ge> 8. n \<le> length (gp_data self) \<and> data = drop n (gp_data self)"
    using align_up_small [OF a, of "8 + unat w"] by (intro exI conjI) auto
qed

interpretation property_iter: fallible_iterator GnuPropertyIterator_next "\<lambda>self. length (gp_data self)"
    gnu_property_iterator_ok
  unfolding GnuPropertyIterator_next_def
proof (rule next_or_clear_iterator)
  fix self :: gnu_property_iterator
  assume ok: "gnu_property_iterator_ok self"
  then show "gnu_property_iterator_ok (self\<lparr>gp_data := []\<rparr>)" by (simp add: gnu_property_iterator_ok_def)
  show "fst (GnuPropertyIterator_parse self) \<noteq> Panic"
    using gnu_property_at_facts(1) [OF ok]
    by (auto simp: GnuPropertyIterator_parse_def read_error_eq_Panic split: result.splits)
  show "gnu_property_iterator_ok (snd (GnuPropertyIterator_parse self))"
    using ok by (auto simp: GnuPropertyIterator_parse_def gnu_property_iterator_ok_def split: result.splits)
  fix n self' assume nonempty: "gp_data self \<noteq> []" and "GnuPropertyIterator_parse self = (Ok n, self')"
  then have "gnu_property_at self = Ok (n, gp_data self')"
    by (auto simp: GnuPropertyIterator_parse_def res_simps split: result.splits)
  from gnu_property_at_facts(2) [OF ok this] nonempty
  show "length (gp_data self') < length (gp_data self)" by auto
qed simp

section \<open>The layout of a note section\<close>

type_synonym note_value = "u32 \<times> bytes \<times> bytes"

definition header_of :: "note_value \<Rightarrow> note_header" where
  "header_of v = (case v of (t, name, desc) \<Rightarrow>
     \<lparr>n_namesz = word_of_nat (length name), n_descsz = word_of_nat (length desc), n_type = t\<rparr>)"

text \<open>A note without the padding after the descriptor, and the length of that padding.\<close>

definition note_body :: "endianness \<Rightarrow> nat \<Rightarrow> note_value \<Rightarrow> bytes" where
  "note_body e a v = (case v of (t, name, desc) \<Rightarrow>
     encode_note_header e (header_of v) @ name @
     replicate (align_up (12 + length name) a - (12 + length name)) 0 @ desc)"

definition note_padding :: "endianness \<Rightarrow> nat \<Rightarrow> note_value \<Rightarrow> nat" where
  "note_padding e a v = align_up (length (note_body e a v)) a - length (note_body e a v)"

definition note_image :: "endianness \<Rightarrow> nat \<Rightarrow> note_value \<Rightarrow> bytes" where
  "note_image e a v = note_body e a v @ replicate (note_padding e a v) 0"

definition read_note :: "endianness \<Rightarrow> note_value \<Rightarrow> elf_note" where
  "read_note e v = (case v of (t, name, desc) \<Rightarrow>
     \<lparr>nt_header = encode_note_header e (header_of v), nt_name = name, nt_desc = desc\<rparr>)"

definition note_fits :: "note_value \<Rightarrow> bool" where
  "note_fits v \<longleftrightarrow> (case v of (t, name, desc) \<Rightarrow> length name < 2 ^ 32 \<and> length desc < 2 ^ 32)"

lemma note_body_length: "12 \<le> length (note_body e a v)"
  by (cases v) (simp add: note_body_def)

lemma note_at_body:
  assumes ok: "note_iterator_ok self" and fits: "note_fits v"
    and data: "ni_data self = note_body (ni_endian self) (ni_align self) v @ tail"
  shows "note_at self = Ok (read_note (ni_endian self) v,
    align_up (length (note_body (ni_endian self) (ni_align self) v)) (ni_align self))"
proof -
  obtain t name desc where v: "v = (t, name, desc)" by (cases v)
  let ?e = "ni_endian self" and ?a = "ni_align self"
  let ?H = "encode_note_header ?e (header_of v)" and ?o = "align_up (12 + length name) ?a"
  let ?pad = "replicate (?o - (12 + length name)) (0 :: u8)"
  have a: "?a = 4 \<or> ?a = 8" using ok by (simp add: note_iterator_ok_def)
  have o: "12 + length name \<le> ?o" using align_up_small [OF a] by blast
  have body: "note_body ?e ?a v = ?H @ name @ ?pad @ desc" by (simp add: note_body_def v)
  have d: "ni_data self = ?H @ name @ ?pad @ desc @ tail" by (simp add: data body)
  have len: "length (note_body ?e ?a v) = ?o + length desc" using o by (simp add: body)
  have sizes: "unat (n_namesz (header_of v)) = length name" "unat (n_descsz (header_of v)) = length desc"
    using fits by (simp_all add: header_of_def note_fits_def v unat_of_nat)
  have "Bytes_read_at 12 (ni_data self) 0 = Ok ?H"
    unfolding d by (simp add: res_simps slice_at_def)
  moreover have "Bytes_read_bytes_at (ni_data self) 12 (length name) = Ok name"
    unfolding d by (simp add: res_simps slice_at_middle [of 12 ?H "length name" name])
  moreover have "Bytes_read_bytes_at (ni_data self) ?o (length desc) = Ok desc"
  proof -
    have d': "ni_data self = (?H @ name @ ?pad) @ desc @ tail" unfolding d by simp
    have "length (?H @ name @ ?pad) = ?o" using o by simp
    then show ?thesis
      unfolding d' Bytes_read_bytes_at_eq_Ok by (simp add: slice_at_def del: append_assoc)
  qed
  ultimately show ?thesis
    unfolding note_at_eq [OF ok] by (simp add: Let_def sizes [unfolded v] len [unfolded v] read_note_def v)
qed

lemma NoteIterator_next_body:
  assumes ok: "note_iterator_ok self" and fits: "note_fits v"
    and data: "ni_data self = note_body (ni_endian self) (ni_align self) v @ replicate k 0 @ rest"
    and k: "k = note_padding (ni_endian self) (ni_align self) v \<or>
      k \<le> note_padding (ni_endian self) (ni_align self) v \<and> rest = []"
  shows "NoteIterator_next self = (Ok (Some (read_note (ni_endian self) v)), self\<lparr>ni_data := rest\<rparr>)"
proof -
  let ?b = "note_body (ni_endian self) (ni_align self) v"
  let ?o = "align_up (length ?b) (ni_align self)"
  have a: "ni_align self = 4 \<or> ni_align self = 8" using ok by (simp add: note_iterator_ok_def)
  have o: "length ?b \<le> ?o" using align_up_small [OF a] by blast
  have at: "note_at self = Ok (read_note (ni_endian self) v, ?o)"
    by (rule note_at_body [OF ok fits data])
  have "ni_data self \<noteq> []" using data note_body_length [of "ni_endian self" "ni_align self" v] by auto
  moreover have "(case skip ?o (ni_data self) of (Ok _, data) \<Rightarrow> data | _ \<Rightarrow> []) = rest"
  proof (cases "k = note_padding (ni_endian self) (ni_align self) v")
    case True
    then have "length (?b @ replicate k 0) = ?o" using o by (simp add: note_padding_def)
    then show ?thesis unfolding data by (simp add: skip_ok flip: append_assoc)
  next
    case False
    then have "k < note_padding (ni_endian self) (ni_align self) v" "rest = []" using k by auto
    then have "length (ni_data self) < ?o" "rest = []" using o data unfolding note_padding_def by simp_all
    then show ?thesis by (simp add: skip_short)
  qed
  ultimately show ?thesis
    by (simp add: NoteIterator_next_def next_or_clear_def NoteIterator_parse_def at)
qed

lemma drain_notes:
  assumes "\<forall>v \<in> set vs. note_fits v" "note_fits w" "k \<le> note_padding e a w" "a = 4 \<or> a = 8"
  shows "length vs + 1 < n \<Longrightarrow>
    drain NoteIterator_next n \<lparr>ni_endian = e, ni_align = a,
        ni_data = concat (map (note_image e a) vs) @ note_body e a w @ replicate k 0\<rparr> =
      Some (Ok (map (read_note e) (vs @ [w])))"
  using assms(1)
proof (induction vs arbitrary: n)
  case Nil
  let ?it = "\<lparr>ni_endian = e, ni_align = a, ni_data = note_body e a w @ replicate k 0\<rparr>"
  obtain m where n: "n = Suc (Suc m)" using Nil(1) by (cases n; cases "n - 1") auto
  have "NoteIterator_next ?it = (Ok (Some (read_note e w)), ?it\<lparr>ni_data := []\<rparr>)"
    using NoteIterator_next_body [of ?it w k "[]"] assms(2-4) by (simp add: note_iterator_ok_def)
  then show ?case
    by (simp add: n NoteIterator_next_def next_or_clear_def [of _ _ _ "\<lparr>ni_endian = _, ni_align = _, ni_data = []\<rparr>"])
next
  case (Cons v vs)
  let ?rest = "concat (map (note_image e a) vs) @ note_body e a w @ replicate k 0"
  let ?it = "\<lparr>ni_endian = e, ni_align = a, ni_data = note_body e a v @ replicate (note_padding e a v) 0 @ ?rest\<rparr>"
  obtain m where n: "n = Suc m" using Cons(2) by (cases n) auto
  have "NoteIterator_next ?it = (Ok (Some (read_note e v)), ?it\<lparr>ni_data := ?rest\<rparr>)"
    using NoteIterator_next_body [of ?it v "note_padding e a v" ?rest] Cons(3) assms(4)
    by (simp add: note_iterator_ok_def)
  moreover have "drain NoteIterator_next m (?it\<lparr>ni_data := ?rest\<rparr>) = Some (Ok (map (read_note e) (vs @ [w])))"
    using Cons n by simp
  ultimately show ?case by (simp add: n note_image_def [of e a v])
qed

section \<open>Properties\<close>

text \<open>C19: from a note section, the iterator returns exactly the notes that it consists of, each with its type, name and descriptor, for both alignments; the padding after the last note may be missing.\<close>

theorem notes_read_back:
  assumes "\<forall>v \<in> set (vs @ [w]). note_fits v" "k \<le> note_padding e a w"
    and "a = 4 \<or> a = 8"
    and "data = concat (map (note_image e a) vs) @ note_body e a w @ replicate k 0"
  shows "\<exists>it. NoteIterator_new e (word_of_nat a :: u64) data = Ok it \<and>
    (\<exists>read. drain NoteIterator_next (length data + 1) it = Some (Ok read) \<and>
      map (\<lambda>n. (Note_n_type n e, name_bytes n, Note_desc n)) read = vs @ [w])"
proof -
  let ?it = "\<lparr>ni_endian = e, ni_align = a, ni_data = data\<rparr>"
  have new: "NoteIterator_new e (word_of_nat a :: u64) data = Ok ?it"
    using assms(3) by (auto simp: NoteIterator_new_def)
  have "length vs \<le> length (concat (map (note_image e a) vs))"
  proof (induction vs)
    case (Cons v vs)
    then show ?case using note_body_length [of e a v] by (simp add: note_image_def)
  qed simp
  then have "length vs + 1 < length data + 1" using assms(4) note_body_length [of e a w] by simp
  then have run: "drain NoteIterator_next (length data + 1) ?it = Some (Ok (map (read_note e) (vs @ [w])))"
    using drain_notes [of vs w k e a "length data + 1"] assms by simp
  have "(Note_n_type (read_note e v) e, name_bytes (read_note e v), Note_desc (read_note e v)) = v" for v
    by (cases v) (simp add: Note_n_type_def read_note_def name_bytes_def Note_desc_def header_of_def)
  then have "map (\<lambda>n. (Note_n_type n e, name_bytes n, Note_desc n)) (map (read_note e) (vs @ [w])) = vs @ [w]"
    unfolding map_map o_def by simp
  with new run show ?thesis by blast
qed

theorem notes_read_back_witness:
  "\<exists>it. NoteIterator_new Big (word_of_nat 4 :: u64)
      (note_image Big 4 (1, [71, 78, 85, 0], [1, 2, 3]) @ note_body Big 4 (7, [65], [9])) = Ok it \<and>
    (\<exists>read. drain NoteIterator_next 38 it = Some (Ok read) \<and>
      map (\<lambda>n. (Note_n_type n Big, name_bytes n, Note_desc n)) read = [(1, [71, 78, 85, 0], [1, 2, 3]), (7, [65], [9])])"
proof -
  have "length (note_image Big 4 (1, [71, 78, 85, 0], [1, 2, 3]) @ note_body Big 4 (7, [65], [9])) + 1 = 38"
    by (simp add: note_image_def note_padding_def note_body_def align_up_def)
  then show ?thesis
    using notes_read_back [of "[(1, [71, 78, 85, 0], [1, 2, 3])]" "(7, [65], [9])" 0 Big 4
        "note_image Big 4 (1, [71, 78, 85, 0], [1, 2, 3]) @ note_body Big 4 (7, [65], [9])"]
    by (simp add: note_fits_def del: length_append drain.simps)
qed

text \<open>C20: any number of calls of an iterator over the notes of a section with arbitrary contents, or over the properties of one of these notes, returns no more items than there are bytes, then an error or the end, and from then on the end; it never panics.\<close>

theorem note_iteration_total:
  assumes "NoteIterator_new e align data = Ok it"
  shows "\<exists>items. fused_results (length data) items (calls NoteIterator_next n it) \<and>
    (\<forall>note \<in> set items. \<forall>pit m. gnu_properties C note e = Some pit \<longrightarrow>
      (\<exists>props. fused_results (length (nt_desc note)) props (calls GnuPropertyIterator_next m pit)))"
proof -
  have "ni_data it = data" using assms by (auto simp: NoteIterator_new_def res_simps)
  moreover have "\<exists>props. fused_results (length (nt_desc nt)) props (calls GnuPropertyIterator_next m pit)"
    if "gnu_properties C nt e = Some pit" for nt pit m
  proof -
    have "gp_data pit = nt_desc nt" using that by (auto simp: gnu_properties_def Let_def split: if_splits)
    then show ?thesis using property_iter.calls_total [OF gnu_properties_ok [OF that]] by metis
  qed
  ultimately show ?thesis
    using note_iter.calls_total [OF NoteIterator_new_ok [OF assms], of n] by metis
qed

text \<open>Two bytes are no note header: an error, and then the end.\<close>

theorem note_iteration_total_witness:
  "\<exists>msg. calls NoteIterator_next 3 \<lparr>ni_endian = Little, ni_align = 4, ni_data = [1, 2]\<rparr> = [Err msg, Ok None, Ok None]"
proof -
  let ?it = "\<lparr>ni_endian = Little, ni_align = 4, ni_data = [1, 2]\<rparr>"
  have "NoteIterator_new Little 4 [1, 2] = Ok ?it" by (simp add: NoteIterator_new_def)
  from note_iteration_total [OF this, of 3 Elf64]
  obtain items where f: "fused_results (length [1 :: u8, 2]) items (calls NoteIterator_next 3 ?it)" by blast
  have "Bytes_read_at 12 [1, 2] 0 = Err ()"
    by (simp add: Bytes_read_at_def cursor_then_def skip_ok Bytes_read_short)
  then have "fst (NoteIterator_next ?it) = Err ''ELF note is too short''"
    by (simp add: NoteIterator_next_def next_or_clear_def NoteIterator_parse_def note_at_def)
  then obtain rs where r: "calls NoteIterator_next 3 ?it = Err ''ELF note is too short'' # rs" "length rs = 2"
    by (simp add: numeral_3_eq_3 numeral_2_eq_2)
  then show ?thesis using f
    by (cases items) (auto simp: fused_results_def Cons_eq_append_conv numeral_2_eq_2)
qed

end
