(* ===== verification/Elf_Attributes.thy ===== *)
theory Elf_Attributes
  imports Elf_Writer_Sections Elf_Class Leb128 Iterators
begin

text \<open>
  \<^verbatim>\<open>src/read/elf/attributes.rs\<close>: the reader of attributes sections, and the round trip with
  \<^verbatim>\<open>AttributesWriter\<close>.
\<close>

abbreviation "Tag_File \<equiv> (1 :: u8)"
abbreviation "Tag_Section \<equiv> (2 :: u8)"
abbreviation "Tag_Symbol \<equiv> (3 :: u8)"

section \<open>The section\<close>

record attributes_section =
  as_endian :: endianness
  as_version :: u8
  as_data :: bytes

text \<open>The iterators over subsections and over sub-subsections have the same fields.\<close>

record attributes_iterator =
  ai_endian :: endianness
  ai_data :: bytes

definition AttributesSection_new :: "endianness \<Rightarrow> bytes \<Rightarrow> (attributes_section, string) result" where
  "AttributesSection_new e data =
    (case Bytes_read 1 data of (r, data) \<Rightarrow>
     let version = (case r of Ok v \<Rightarrow> hd v | _ \<Rightarrow> 0x41) in
     Ok \<lparr>as_endian = e, as_version = version, as_data = data\<rparr>)"

definition AttributesSection_version :: "attributes_section \<Rightarrow> u8" where
  "AttributesSection_version self = as_version self"

definition subsections :: "attributes_section \<Rightarrow> (attributes_iterator, string) result" where
  "subsections self =
    (if as_version self \<noteq> 0x41 then Err ''Unsupported ELF attributes section version''
     else Ok \<lparr>ai_endian = as_endian self, ai_data = as_data self\<rparr>)"

section \<open>Subsections\<close>

record attributes_subsection =
  sub_endian :: endianness
  sub_length :: u32
  sub_vendor :: bytes
  sub_data :: bytes

definition Subsection_parse :: "(u8 \<Rightarrow> bytes \<Rightarrow> nat option) \<Rightarrow> attributes_iterator \<Rightarrow>
    (attributes_subsection, string) result \<times> attributes_iterator" where
  "Subsection_parse memchr self =
    (case read_error (fst (Bytes_read 4 (ai_data self))) ''ELF attributes section is too short'' of
       Ok len \<Rightarrow>
         (let len = U_get len (ai_endian self) :: u32 in
          case Bytes_read_bytes (unat len) (ai_data self) of (r, rest) \<Rightarrow>
            (and_then (read_error r ''Invalid ELF attributes subsection length'') (\<lambda>data.
             case skip 4 data of (r, data) \<Rightarrow>
             and_then (read_error r ''Invalid ELF attributes subsection length'') (\<lambda>_.
             case Bytes_read_string memchr data of (r, data) \<Rightarrow>
             and_then (read_error r ''Invalid ELF attributes vendor'') (\<lambda>vendor.
             Ok \<lparr>sub_endian = ai_endian self, sub_length = len, sub_vendor = vendor, sub_data = data\<rparr>))),
             self\<lparr>ai_data := rest\<rparr>))
     | Err e \<Rightarrow> (Err e, self)
     | Panic \<Rightarrow> (Panic, self))"

definition Subsection_next :: "(u8 \<Rightarrow> bytes \<Rightarrow> nat option) \<Rightarrow> attributes_iterator \<Rightarrow>
    (attributes_subsection option, string) result \<times> attributes_iterator" where
  "Subsection_next memchr = next_or_clear ai_data (\<lambda>self. self\<lparr>ai_data := []\<rparr>) (Subsection_parse memchr)"

definition Subsection_length :: "attributes_subsection \<Rightarrow> u32" where
  "Subsection_length self = sub_length self"

definition Subsection_vendor :: "attributes_subsection \<Rightarrow> bytes" where
  "Subsection_vendor self = sub_vendor self"

definition subsubsections :: "attributes_subsection \<Rightarrow> attributes_iterator" where
  "subsubsections self = \<lparr>ai_endian = sub_endian self, ai_data = sub_data self\<rparr>"

section \<open>Sub-subsections\<close>

record attributes_subsubsection =
  ss_tag :: u8
  ss_length :: u32
  ss_indices :: bytes
  ss_data :: bytes

definition Subsubsection_parse :: "(u8 \<Rightarrow> bytes \<Rightarrow> nat option) \<Rightarrow> attributes_iterator \<Rightarrow>
    (attributes_subsubsection, string) result \<times> attributes_iterator" where
  "Subsubsection_parse memchr self =
    (case Bytes_read 1 (ai_data self) of (r, data) \<Rightarrow>
     case and_then (read_error r ''ELF attributes subsection is too short'') (\<lambda>tag.
          and_then (read_error (fst (Bytes_read 4 data)) ''ELF attributes subsection is too short'') (\<lambda>len.
          Ok (hd tag, U_get len (ai_endian self) :: u32))) of
       Ok (tag, len) \<Rightarrow>
         (case Bytes_read_bytes (unat len) (ai_data self) of (r, rest) \<Rightarrow>
            (and_then (read_error r ''Invalid ELF attributes sub-subsection length'') (\<lambda>data.
             case skip (1 + 4) data of (r, data) \<Rightarrow>
             and_then (read_error r ''Invalid ELF attributes sub-subsection length'') (\<lambda>_.
             if tag = Tag_Section \<or> tag = Tag_Symbol then
               (case Bytes_read_string memchr data of (r, data) \<Rightarrow>
                and_then (read_error r ''Missing ELF attributes sub-subsection indices'') (\<lambda>indices.
                Ok \<lparr>ss_tag = tag, ss_length = len, ss_indices = indices, ss_data = data\<rparr>))
             else if tag = Tag_File then
               Ok \<lparr>ss_tag = tag, ss_length = len, ss_indices = [], ss_data = data\<rparr>
             else Err ''Unimplemented ELF attributes sub-subsection tag'')),
             self\<lparr>ai_data := rest\<rparr>))
     | Err e \<Rightarrow> (Err e, self)
     | Panic \<Rightarrow> (Panic, self))"

definition Subsubsection_next :: "(u8 \<Rightarrow> bytes \<Rightarrow> nat option) \<Rightarrow> attributes_iterator \<Rightarrow>
    (attributes_subsubsection option, string) result \<times> attributes_iterator" where
  "Subsubsection_next memchr = next_or_clear ai_data (\<lambda>self. self\<lparr>ai_data := []\<rparr>) (Subsubsection_parse memchr)"

definition Subsubsection_tag :: "attributes_subsubsection \<Rightarrow> u8" where
  "Subsubsection_tag self = ss_tag self"

definition Subsubsection_length :: "attributes_subsubsection \<Rightarrow> u32" where
  "Subsubsection_length self = ss_length self"

definition indices_data :: "attributes_subsubsection \<Rightarrow> bytes" where
  "indices_data self = ss_indices self"

text \<open>The iterator over indices and the reader of attributes are their data.\<close>

definition indices :: "attributes_subsubsection \<Rightarrow> bytes" where
  "indices self = ss_indices self"

definition attributes_data :: "attributes_subsubsection \<Rightarrow> bytes" where
  "attributes_data self = ss_data self"

definition attributes :: "attributes_subsubsection \<Rightarrow> bytes" where
  "attributes self = ss_data self"

section \<open>Indices and attributes\<close>

definition AttributeIndex_parse :: "bytes \<Rightarrow> (u32, string) result \<times> bytes" where
  "AttributeIndex_parse self =
    (case read_uleb128 self of (r, self) \<Rightarrow>
      (and_then (read_error r ''Invalid ELF attribute index'') (\<lambda>val.
       if unat val < 2 ^ 32 then Ok (ucast val) else Err ''Invalid ELF attribute index''), self))"

definition AttributeIndex_next :: "bytes \<Rightarrow> (u32 option, string) result \<times> bytes" where
  "AttributeIndex_next = next_or_clear id (\<lambda>_. []) AttributeIndex_parse"

definition AttributeReader_read_tag :: "bytes \<Rightarrow> (u64 option, string) result \<times> bytes" where
  "AttributeReader_read_tag self =
    (if self = [] then (Ok None, self)
     else (case read_uleb128 self of (r, self) \<Rightarrow>
       (and_then (read_error r ''Invalid ELF attribute tag'') (\<lambda>t. Ok (Some t)), self)))"

definition AttributeReader_read_integer :: "bytes \<Rightarrow> (u64, string) result \<times> bytes" where
  "AttributeReader_read_integer self =
    (case read_uleb128 self of (r, self) \<Rightarrow> (read_error r ''Invalid ELF attribute integer value'', self))"

definition AttributeReader_read_string :: "(u8 \<Rightarrow> bytes \<Rightarrow> nat option) \<Rightarrow> bytes \<Rightarrow>
    (bytes, string) result \<times> bytes" where
  "AttributeReader_read_string memchr self =
    (case Bytes_read_string memchr self of (r, self) \<Rightarrow>
      (read_error r ''Invalid ELF attribute string value'', self))"

section \<open>The iterators end\<close>

lemma Bytes_read_bytes_eq_Ok [res_simps]:
  "Bytes_read_bytes n self = (Ok d, rest) \<longleftrightarrow> n \<le> length self \<and> d = take n self \<and> rest = drop n self"
  by (auto simp: Bytes_read_bytes_def get_to_def get_from_def)

lemma fst_cursor_eq_Ok [res_simps]:
  "fst (skip n self) = Ok u \<longleftrightarrow> n \<le> length self"
  "fst (Bytes_read_bytes n self) = Ok d \<longleftrightarrow> n \<le> length self \<and> d = take n self"
  by (auto simp: skip_def Bytes_read_bytes_def get_to_def get_from_def)

interpretation subsection_iter: fallible_iterator "Subsection_next memchr" "\<lambda>self. length (ai_data self)" "\<lambda>_. True"
  for memchr
  unfolding Subsection_next_def
proof (rule next_or_clear_iterator)
  fix self :: attributes_iterator
  show "fst (Subsection_parse memchr self) \<noteq> Panic"
    by (auto simp: Subsection_parse_def Let_def and_then_eq_Panic res_simps Bytes_read_no_panic
        Bytes_read_bytes_no_panic Bytes_read_string_no_panic skip_no_panic split: result.splits prod.splits)
  fix a self' assume "Subsection_parse memchr self = (Ok a, self')" "ai_data self \<noteq> []"
  then show "length (ai_data self') < length (ai_data self)"
    by (auto simp: Subsection_parse_def Let_def res_simps case_prod_beta Bytes_read_bytes_def get_to_def
        get_from_def split: result.splits option.splits if_splits)
qed simp_all

interpretation subsubsection_iter: fallible_iterator "Subsubsection_next memchr"
    "\<lambda>self. length (ai_data self)" "\<lambda>_. True"
  for memchr
  unfolding Subsubsection_next_def
proof (rule next_or_clear_iterator)
  fix self :: attributes_iterator
  show "fst (Subsubsection_parse memchr self) \<noteq> Panic"
    by (auto simp: Subsubsection_parse_def Let_def and_then_eq_Panic res_simps Bytes_read_no_panic
        Bytes_read_bytes_no_panic Bytes_read_string_no_panic skip_no_panic
        split: result.splits prod.splits if_splits)
  fix a self' assume "Subsubsection_parse memchr self = (Ok a, self')" "ai_data self \<noteq> []"
  then show "length (ai_data self') < length (ai_data self)"
    by (auto simp: Subsubsection_parse_def Let_def res_simps case_prod_beta Bytes_read_bytes_def get_to_def
        get_from_def split: result.splits option.splits if_splits)
qed simp_all

interpretation index_iter: fallible_iterator AttributeIndex_next length "\<lambda>_. True"
proof -
  have "fst (AttributeIndex_parse self) \<noteq> Panic" for self
    using read_uleb128_no_panic [of self]
    by (auto simp: AttributeIndex_parse_def and_then_eq_Panic res_simps split: prod.splits if_splits)
  moreover have "length self' < length self" if "self \<noteq> []" "AttributeIndex_parse self = (Ok a, self')" for self a self'
    using read_uleb128_shrinks [OF that(1)] that(2) by (auto simp: AttributeIndex_parse_def split: prod.splits)
  ultimately show "fallible_iterator AttributeIndex_next length (\<lambda>_. True)"
    using next_or_clear_iterator [of id "\<lambda>_. []" "\<lambda>_. True" AttributeIndex_parse]
    by (simp add: AttributeIndex_next_def)
qed

section \<open>A client of the writer\<close>

text \<open>
  The contents of an attributes section: subsections with a vendor, which consist of sub-subsections
  with a tag, indices and attributes.
\<close>

datatype attr_value = AttrInt u64 | AttrStr bytes

type_synonym attribute = "u64 \<times> attr_value"
type_synonym attr_group = "u8 \<times> u32 list \<times> attribute list"
type_synonym attr_tree = "(bytes \<times> attr_group list) list"

fun each :: "('a \<Rightarrow> 's \<Rightarrow> ('s, string) result) \<Rightarrow> 'a list \<Rightarrow> 's \<Rightarrow> ('s, string) result" where
  "each f [] w = Ok w"
| "each f (x # xs) w = and_then (f x w) (each f xs)"

fun write_attribute :: "attribute \<Rightarrow> attributes_writer \<Rightarrow> (attributes_writer, string) result" where
  "write_attribute (tag, AttrInt n) w =
    and_then (Attr_write_attribute_tag tag w) (Attr_write_attribute_integer n)"
| "write_attribute (tag, AttrStr s) w =
    and_then (Attr_write_attribute_tag tag w) (Attr_write_attribute_string s)"

fun write_group :: "attr_group \<Rightarrow> attributes_writer \<Rightarrow> (attributes_writer, string) result" where
  "write_group (tag, idx, attrs) w =
    and_then (Attr_start_subsubsection tag w) (\<lambda>w.
    and_then (if tag = Tag_File then Ok w else each Attr_write_subsubsection_index (idx @ [0]) w) (\<lambda>w.
    and_then (each write_attribute attrs w) Attr_end_subsubsection))"

fun write_vendor :: "bytes \<times> attr_group list \<Rightarrow> attributes_writer \<Rightarrow> (attributes_writer, string) result" where
  "write_vendor (vendor, groups) w =
    and_then (Attr_start_subsection vendor w) (\<lambda>w.
    and_then (each write_group groups w) Attr_end_subsection)"

definition write_tree :: "endianness \<Rightarrow> attr_tree \<Rightarrow> (bytes, string) result" where
  "write_tree e tree = and_then (each write_vendor tree (AttributesWriter_new e)) Attr_data"

section \<open>A client of the reader\<close>

text \<open>The client knows which tags have a string value, as the reader of attributes requires.\<close>

fun map_ok :: "('a \<Rightarrow> ('b, string) result) \<Rightarrow> 'a list \<Rightarrow> ('b list, string) result" where
  "map_ok f [] = Ok []"
| "map_ok f (x # xs) = and_then (f x) (\<lambda>y. and_then (map_ok f xs) (\<lambda>ys. Ok (y # ys)))"

definition attribute_next :: "(u8 \<Rightarrow> bytes \<Rightarrow> nat option) \<Rightarrow> (u64 \<Rightarrow> bool) \<Rightarrow> bytes \<Rightarrow>
    (attribute option, string) result \<times> bytes" where
  "attribute_next memchr is_string self =
    (case AttributeReader_read_tag self of
       (Ok None, self) \<Rightarrow> (Ok None, self)
     | (Ok (Some tag), self) \<Rightarrow>
         if is_string tag then
           (case AttributeReader_read_string memchr self of (r, self) \<Rightarrow>
             (and_then r (\<lambda>s. Ok (Some (tag, AttrStr s))), self))
         else
           (case AttributeReader_read_integer self of (r, self) \<Rightarrow>
             (and_then r (\<lambda>n. Ok (Some (tag, AttrInt n))), self))
     | (Err e, self) \<Rightarrow> (Err e, self)
     | (Panic, self) \<Rightarrow> (Panic, self))"

definition read_group :: "(u8 \<Rightarrow> bytes \<Rightarrow> nat option) \<Rightarrow> (u64 \<Rightarrow> bool) \<Rightarrow> attributes_subsubsection \<Rightarrow>
    (attr_group, string) result" where
  "read_group memchr is_string ss =
    and_then (collect AttributeIndex_next length (indices ss)) (\<lambda>idx.
    and_then (collect (attribute_next memchr is_string) length (attributes ss)) (\<lambda>attrs.
    Ok (Subsubsection_tag ss, idx, attrs)))"

definition read_vendor :: "(u8 \<Rightarrow> bytes \<Rightarrow> nat option) \<Rightarrow> (u64 \<Rightarrow> bool) \<Rightarrow> attributes_subsection \<Rightarrow>
    (bytes \<times> attr_group list, string) result" where
  "read_vendor memchr is_string sub =
    and_then (collect (Subsubsection_next memchr) (\<lambda>it. length (ai_data it)) (subsubsections sub)) (\<lambda>sss.
    and_then (map_ok (read_group memchr is_string) sss) (\<lambda>groups.
    Ok (Subsection_vendor sub, groups)))"

definition read_tree :: "(u8 \<Rightarrow> bytes \<Rightarrow> nat option) \<Rightarrow> (u64 \<Rightarrow> bool) \<Rightarrow> endianness \<Rightarrow> bytes \<Rightarrow>
    (attr_tree, string) result" where
  "read_tree memchr is_string e data =
    and_then (AttributesSection_new e data) (\<lambda>s.
    and_then (subsections s) (\<lambda>it.
    and_then (collect (Subsection_next memchr) (\<lambda>it. length (ai_data it)) it) (\<lambda>subs.
    map_ok (read_vendor memchr is_string) subs)))"

section \<open>The image of the contents\<close>

fun attribute_image :: "attribute \<Rightarrow> bytes" where
  "attribute_image (tag, AttrInt n) = uleb_enc tag @ uleb_enc n"
| "attribute_image (tag, AttrStr s) = uleb_enc tag @ s @ [0]"

definition index_image :: "u32 \<Rightarrow> bytes" where
  "index_image i = uleb_enc (ucast i)"

fun group_body :: "attr_group \<Rightarrow> bytes" where
  "group_body (tag, idx, attrs) =
    (if tag = Tag_File then [] else concat (map index_image idx) @ [0]) @ concat (map attribute_image attrs)"

definition group_image :: "endianness \<Rightarrow> attr_group \<Rightarrow> bytes" where
  "group_image e g = [fst g] @ U_new e (word_of_nat (5 + length (group_body g)) :: u32) @ group_body g"

definition vendor_body :: "endianness \<Rightarrow> bytes \<times> attr_group list \<Rightarrow> bytes" where
  "vendor_body e v = fst v @ [0] @ concat (map (group_image e) (snd v))"

definition vendor_image :: "endianness \<Rightarrow> bytes \<times> attr_group list \<Rightarrow> bytes" where
  "vendor_image e v = U_new e (word_of_nat (4 + length (vendor_body e v)) :: u32) @ vendor_body e v"

fun attribute_ok :: "(u64 \<Rightarrow> bool) \<Rightarrow> attribute \<Rightarrow> bool" where
  "attribute_ok is_string (tag, AttrInt n) \<longleftrightarrow> \<not> is_string tag"
| "attribute_ok is_string (tag, AttrStr s) \<longleftrightarrow> is_string tag \<and> 0 \<notin> set s"

fun group_ok :: "(u64 \<Rightarrow> bool) \<Rightarrow> attr_group \<Rightarrow> bool" where
  "group_ok is_string (tag, idx, attrs) \<longleftrightarrow>
    (tag = Tag_File \<and> idx = [] \<or> (tag = Tag_Section \<or> tag = Tag_Symbol) \<and> 0 \<notin> set idx) \<and>
    list_all (attribute_ok is_string) attrs"

definition vendor_ok :: "(u64 \<Rightarrow> bool) \<Rightarrow> endianness \<Rightarrow> bytes \<times> attr_group list \<Rightarrow> bool" where
  "vendor_ok is_string e v \<longleftrightarrow> 0 \<notin> set (fst v) \<and> list_all (group_ok is_string) (snd v) \<and>
    4 + length (vendor_body e v) < 2 ^ 32"

section \<open>What is written\<close>

definition append_data :: "bytes \<Rightarrow> attributes_writer \<Rightarrow> attributes_writer" where
  "append_data bs w = w\<lparr>aw_data := aw_data w @ bs\<rparr>"

lemma append_data_simps [simp]:
  "aw_data (append_data bs w) = aw_data w @ bs"
  "aw_endian (append_data bs w) = aw_endian w"
  "aw_subsection_offset (append_data bs w) = aw_subsection_offset w"
  "aw_subsubsection_offset (append_data bs w) = aw_subsubsection_offset w"
  "append_data cs (append_data bs w) = append_data (bs @ cs) w"
  "append_data [] w = w"
  by (simp_all add: append_data_def)

lemma each_append_data:
  assumes "\<And>x w. x \<in> set xs \<Longrightarrow> P w \<Longrightarrow> f x w = Ok (append_data (enc x) w)"
    and "\<And>bs w. P w \<Longrightarrow> P (append_data bs w)"
  shows "P w \<Longrightarrow> each f xs w = Ok (append_data (concat (map enc xs)) w)"
  using assms(1) by (induction xs arbitrary: w) (simp_all add: assms(2))

definition inside :: "attributes_writer \<Rightarrow> bool" where
  "inside w \<longleftrightarrow> aw_subsection_offset w \<noteq> 0 \<and> aw_subsubsection_offset w \<noteq> 0"

lemma inside_append [intro]: "inside w \<Longrightarrow> inside (append_data bs w)"
  by (simp add: inside_def)

lemma attr_inside_Ok [simp]: "inside w \<Longrightarrow> attr_inside w r = r"
  by (simp add: attr_inside_def inside_def)

lemma attr_write_simps:
  assumes "inside w"
  shows "Attr_write_attribute_tag t w = Ok (append_data (uleb_enc t) w)"
    "Attr_write_attribute_integer n w = Ok (append_data (uleb_enc n) w)"
    "Attr_write_attribute_string s w = Ok (append_data (s @ [0]) w)"
  using assms
  by (simp_all add: Attr_write_attribute_tag_def Attr_write_attribute_integer_def
      Attr_write_attribute_string_def write_uleb128_append append_data_def Let_def)

lemma write_attribute_ok: "inside w \<Longrightarrow> write_attribute a w = Ok (append_data (attribute_image a) w)"
  by (cases a rule: attribute_image.cases) (simp_all add: attr_write_simps inside_append)

lemma write_index_ok: "inside w \<Longrightarrow> Attr_write_subsubsection_index i w = Ok (append_data (index_image i) w)"
  by (simp add: Attr_write_subsubsection_index_def write_uleb128_append index_image_def append_data_def)

lemma patch4_ok:
  "length new = 4 \<Longrightarrow> length old = 4 \<Longrightarrow> offset = length pre \<Longrightarrow>
    patch4 offset new (pre @ old @ post) = Ok (pre @ new @ post)"
  by (simp add: patch4_def)

lemma index_image_0: "index_image 0 = [0]"
  by (simp add: index_image_def uleb_enc_bytes [of 0] last_byte_def)

text \<open>Ending a group or a vendor fills in the length that was left out at its start.\<close>

lemma end_subsubsection_ok:
  assumes "inside w" "aw_data w = pre @ [tag] @ replicate 4 0 @ body" "aw_subsubsection_offset w = length pre"
  shows "Attr_end_subsubsection w = Ok (w\<lparr>aw_data := pre @ [tag] @ U_new (aw_endian w) (word_of_nat (5 + length body) :: u32) @ body,
    aw_subsubsection_offset := 0\<rparr>)"
proof -
  have "patch4 (Suc (length pre)) (U_new (aw_endian w) (word_of_nat (5 + length body) :: u32))
      ((pre @ [tag]) @ replicate 4 0 @ body) =
    Ok ((pre @ [tag]) @ U_new (aw_endian w) (word_of_nat (5 + length body) :: u32) @ body)"
    by (intro patch4_ok) simp_all
  then show ?thesis
    using assms by (simp add: Attr_end_subsubsection_def usize_sub_def bytes_of_def del: of_nat_add)
qed

lemma end_subsection_ok:
  assumes "aw_subsection_offset w \<noteq> 0" "aw_subsubsection_offset w = 0"
    and "aw_data w = pre @ replicate 4 0 @ body" "aw_subsection_offset w = length pre"
  shows "Attr_end_subsection w = Ok (w\<lparr>aw_data := pre @ U_new (aw_endian w) (word_of_nat (4 + length body) :: u32) @ body,
    aw_subsection_offset := 0\<rparr>)"
proof -
  have "patch4 (length pre) (U_new (aw_endian w) (word_of_nat (4 + length body) :: u32)) (pre @ replicate 4 0 @ body) =
    Ok (pre @ U_new (aw_endian w) (word_of_nat (4 + length body) :: u32) @ body)"
    by (intro patch4_ok) simp_all
  then show ?thesis
    using assms by (simp add: Attr_end_subsection_def usize_sub_def bytes_of_def debug_assert_def del: of_nat_add)
qed

lemma write_group_ok:
  assumes "aw_subsection_offset w \<noteq> 0" "aw_subsubsection_offset w = 0" "aw_data w \<noteq> []"
  shows "write_group g w = Ok (append_data (group_image (aw_endian w) g) w)"
proof -
  obtain tag idx attrs where g: "g = (tag, idx, attrs)" by (cases g)
  let ?w1 = "w\<lparr>aw_data := aw_data w @ [tag] @ replicate 4 0, aw_subsubsection_offset := length (aw_data w)\<rparr>"
  let ?I = "if tag = Tag_File then [] else concat (map index_image idx) @ [0]"
  have inside1: "inside ?w1" using assms by (simp add: inside_def)
  have start: "Attr_start_subsubsection tag w = Ok ?w1"
    using assms by (simp add: Attr_start_subsubsection_def debug_assert_def)
  have idx: "(if tag = Tag_File then Ok ?w1 else each Attr_write_subsubsection_index (idx @ [0]) ?w1) =
      Ok (append_data ?I ?w1)"
    using each_append_data [of "idx @ [0]" inside Attr_write_subsubsection_index index_image ?w1]
      inside1 write_index_ok by (auto simp: index_image_0)
  let ?w2 = "append_data ?I ?w1"
  have "inside ?w2" using inside1 by blast
  then have attrs: "each write_attribute attrs ?w2 = Ok (append_data (concat (map attribute_image attrs)) ?w2)"
    by (intro each_append_data [where P = inside]) (auto simp: write_attribute_ok)
  let ?w3 = "append_data (concat (map attribute_image attrs)) ?w2"
  have "inside ?w3" using inside1 by blast
  moreover have "aw_data ?w3 = aw_data w @ [tag] @ replicate 4 0 @ group_body g"
    by (simp add: append_data_def g)
  ultimately have "Attr_end_subsubsection ?w3 = Ok (append_data (group_image (aw_endian w) g) w)"
    using end_subsubsection_ok [of ?w3 "aw_data w" tag "group_body g"] assms(2)
    by (simp add: group_image_def g append_data_def)
  then show ?thesis
    unfolding g write_group.simps start and_then.simps idx attrs by (simp only: g)
qed

lemma write_vendor_ok:
  assumes "aw_subsection_offset w = 0" "aw_subsubsection_offset w = 0" "aw_data w \<noteq> []"
  shows "write_vendor v w = Ok (append_data (vendor_image (aw_endian w) v) w)"
proof -
  obtain vendor groups where v: "v = (vendor, groups)" by (cases v)
  let ?w1 = "w\<lparr>aw_data := aw_data w @ replicate 4 0 @ vendor @ [0], aw_subsection_offset := length (aw_data w)\<rparr>"
  let ?P = "\<lambda>u. aw_subsection_offset u \<noteq> 0 \<and> aw_subsubsection_offset u = 0 \<and> aw_data u \<noteq> [] \<and> aw_endian u = aw_endian w"
  have start: "Attr_start_subsection vendor w = Ok ?w1"
    using assms by (simp add: Attr_start_subsection_def debug_assert_def)
  have groups: "each write_group groups ?w1 = Ok (append_data (concat (map (group_image (aw_endian w)) groups)) ?w1)"
    using assms by (intro each_append_data [where P = ?P]) (auto simp: write_group_ok)
  let ?w2 = "append_data (concat (map (group_image (aw_endian w)) groups)) ?w1"
  have "aw_data ?w2 = aw_data w @ replicate 4 0 @ vendor_body (aw_endian w) v"
    by (simp add: vendor_body_def v append_data_def)
  then have "Attr_end_subsection ?w2 = Ok (append_data (vendor_image (aw_endian w) v) w)"
    using end_subsection_ok [of ?w2 "aw_data w" "vendor_body (aw_endian w) v"] assms
    by (simp add: vendor_image_def append_data_def)
  then show ?thesis unfolding v write_vendor.simps start and_then.simps groups by (simp only: v)
qed

lemma write_tree_ok: "write_tree e tree = Ok (0x41 # concat (map (vendor_image e) tree))"
proof -
  let ?P = "\<lambda>u. aw_subsection_offset u = 0 \<and> aw_subsubsection_offset u = 0 \<and> aw_data u \<noteq> [] \<and> aw_endian u = e"
  have "each write_vendor tree (AttributesWriter_new e) =
      Ok (append_data (concat (map (vendor_image e) tree)) (AttributesWriter_new e))"
    by (intro each_append_data [where P = ?P]) (auto simp: write_vendor_ok AttributesWriter_new_def)
  then show ?thesis
    by (simp add: write_tree_def Attr_data_def AttributesWriter_new_def debug_assert_def)
qed

section \<open>What is read\<close>

lemma uleb_enc_nonempty [simp]: "uleb_enc v \<noteq> []"
  by (simp add: uleb_enc_bytes [of v])

lemma uleb_enc_nonzero: "v \<noteq> 0 \<Longrightarrow> 0 \<notin> set (uleb_enc v)"
proof (induction "unat v" arbitrary: v rule: less_induct)
  case less
  have "cont_byte v \<noteq> 0" using cont_byte_facts(1) [of v] by auto
  show ?case
  proof (cases "drop_bit 7 v = 0")
    case True
    have "last_byte v \<noteq> 0"
    proof
      assume "last_byte v = 0"
      then have "v AND 0x7f = 0" using last_byte_facts(2) [of v] by simp
      then have "push_bit 0 v = 0" using join_payload [of 0 v] True by simp
      then show False using less.prems by simp
    qed
    then show ?thesis using True by (simp add: uleb_enc_bytes [of v])
  next
    case False
    have "unat (drop_bit 7 v) < unat v"
      using less.prems by (simp add: unat_drop_bit_7 unat_gt_0)
    then show ?thesis
      using less.hyps [of "drop_bit 7 v"] False \<open>cont_byte v \<noteq> 0\<close>
      by (simp add: uleb_enc_bytes [of v])
  qed
qed

lemma collect_indices:
  "collect AttributeIndex_next length (concat (map index_image idx)) = Ok idx"
proof -
  have "AttributeIndex_next (id (index_image i @ rest)) = (Ok (Some (id i)), id rest)" for i rest
  proof -
    have small: "unat (ucast i :: u64) < 2 ^ 32" "unat (ucast i :: u64) = unat i"
      using unat_u32_bound [of i] by (simp_all add: unat_ucast_le)
    then have "unat (ucast (ucast i :: u64) :: u32) = unat i" by (simp add: unat_ucast_small)
    then have "ucast (ucast i :: u64) = i" by (simp add: word_unat_eq_iff)
    with small show ?thesis
      by (simp add: AttributeIndex_next_def next_or_clear_def AttributeIndex_parse_def index_image_def
          read_uleb128_enc)
  qed
  then show ?thesis
    using collect_images [of AttributeIndex_next id idx index_image id length]
    by (simp add: AttributeIndex_next_def next_or_clear_def index_image_def)
qed

lemma collect_attributes:
  assumes "memchr_spec memchr" "list_all (attribute_ok is_string) attrs"
  shows "collect (attribute_next memchr is_string) length (concat (map attribute_image attrs)) = Ok attrs"
proof -
  have "attribute_next memchr is_string (id (attribute_image a @ rest)) = (Ok (Some (id a)), id rest)"
    if "attribute_ok is_string a" for a rest
    using that
    by (cases a rule: attribute_image.cases)
      (simp_all add: attribute_next_def AttributeReader_read_tag_def AttributeReader_read_integer_def
        AttributeReader_read_string_def read_uleb128_enc Bytes_read_string_ok [OF assms(1)])
  moreover have "attribute_image a \<noteq> []" for a by (cases a rule: attribute_image.cases) simp_all
  ultimately show ?thesis
    using collect_images [of "attribute_next memchr is_string" id attrs attribute_image id length] assms(2)
    by (simp add: attribute_next_def AttributeReader_read_tag_def list_all_iff)
qed

text \<open>The sub-subsection that the reader makes of a group.\<close>

definition read_ss :: "attr_group \<Rightarrow> attributes_subsubsection" where
  "read_ss g = (case g of (tag, idx, attrs) \<Rightarrow>
    \<lparr>ss_tag = tag, ss_length = word_of_nat (5 + length (group_body g)),
     ss_indices = concat (map index_image idx), ss_data = concat (map attribute_image attrs)\<rparr>)"

lemma length_group_image: "length (group_image e g) = 5 + length (group_body g)"
  by (simp add: group_image_def)

lemma Subsubsection_next_group:
  assumes mc: "memchr_spec memchr" and ok: "group_ok is_string g" and len: "5 + length (group_body g) < 2 ^ 32"
  shows "Subsubsection_next memchr \<lparr>ai_endian = e, ai_data = group_image e g @ rest\<rparr> =
    (Ok (Some (read_ss g)), \<lparr>ai_endian = e, ai_data = rest\<rparr>)"
proof -
  obtain tag idx attrs where g: "g = (tag, idx, attrs)" by (cases g)
  define B N G where "B = group_body g" and "N = (word_of_nat (5 + length B) :: u32)" and "G = group_image e g"
  let ?it = "\<lparr>ai_endian = e, ai_data = group_image e g @ rest\<rparr>"
  let ?I = "concat (map index_image idx)" and ?A = "concat (map attribute_image attrs)"
  have N: "unat N = 5 + length B" using len by (simp add: N_def B_def unat_of_nat del: of_nat_add)
  have G: "G = [tag] @ U_new e N @ B" by (simp add: G_def group_image_def N_def B_def g)
  have tag: "Bytes_read (Suc 0) (G @ rest) = (Ok [tag], U_new e N @ B @ rest)"
    by (simp add: G Bytes_read_ok)
  have whole: "Bytes_read_bytes (5 + length B) (G @ rest) = (Ok G, rest)"
    by (rule Bytes_read_bytes_append) (simp add: G)
  have inner: "skip 5 G = (Ok (), B)" by (simp add: skip_ok G)
  have "0 \<notin> set ?I" if "tag \<noteq> Tag_File"
  proof -
    have "ucast i \<noteq> (0 :: u64)" if "i \<in> set idx" for i
    proof -
      have "i \<noteq> 0" using ok that \<open>tag \<noteq> Tag_File\<close> by (auto simp: g)
      moreover have "unat (ucast i :: u64) = unat i" by (simp add: unat_ucast_le)
      ultimately show ?thesis by (auto simp: unat_eq_0)
    qed
    then show ?thesis by (auto simp: index_image_def dest: uleb_enc_nonzero)
  qed
  then have str: "Bytes_read_string memchr B = (Ok ?I, ?A)" if "tag \<noteq> Tag_File"
    using Bytes_read_string_ok [OF mc, of ?I ?A] that by (simp add: B_def g)
  have ss: "read_ss g = \<lparr>ss_tag = tag, ss_length = N, ss_indices = ?I, ss_data = ?A\<rparr>"
    by (simp add: read_ss_def N_def B_def g)
  have "Subsubsection_parse memchr ?it = (Ok (read_ss g), \<lparr>ai_endian = e, ai_data = rest\<rparr>)"
  proof (cases "tag = Tag_File")
    case True
    then have "idx = []" "B = ?A" using ok by (auto simp: g B_def)
    with True show ?thesis
      using tag whole inner by (simp add: Subsubsection_parse_def Let_def N ss flip: G_def)
  next
    case False
    then have "tag = Tag_Section \<or> tag = Tag_Symbol" using ok by (auto simp: g)
    with False show ?thesis
      using tag whole inner str by (simp add: Subsubsection_parse_def Let_def N ss flip: G_def)
  qed
  then show ?thesis
    by (simp add: Subsubsection_next_def next_or_clear_def group_image_def)
qed

text \<open>The subsection that the reader makes of a vendor.\<close>

definition read_sub :: "endianness \<Rightarrow> bytes \<times> attr_group list \<Rightarrow> attributes_subsection" where
  "read_sub e v = \<lparr>sub_endian = e, sub_length = word_of_nat (4 + length (vendor_body e v)),
     sub_vendor = fst v, sub_data = concat (map (group_image e) (snd v))\<rparr>"

lemma Subsection_next_vendor:
  assumes mc: "memchr_spec memchr" and ok: "vendor_ok is_string e v"
  shows "Subsection_next memchr \<lparr>ai_endian = e, ai_data = vendor_image e v @ rest\<rparr> =
    (Ok (Some (read_sub e v)), \<lparr>ai_endian = e, ai_data = rest\<rparr>)"
proof -
  define B N G where "B = vendor_body e v" and "N = (word_of_nat (4 + length B) :: u32)" and "G = vendor_image e v"
  let ?it = "\<lparr>ai_endian = e, ai_data = vendor_image e v @ rest\<rparr>"
  let ?D = "concat (map (group_image e) (snd v))"
  have N: "unat N = 4 + length B" using ok by (simp add: N_def B_def vendor_ok_def unat_of_nat del: of_nat_add)
  have G: "G = U_new e N @ B" by (simp add: G_def vendor_image_def N_def B_def)
  have len: "Bytes_read 4 (G @ rest) = (Ok (U_new e N), B @ rest)" by (simp add: G)
  have whole: "Bytes_read_bytes (4 + length B) (G @ rest) = (Ok G, rest)"
    by (rule Bytes_read_bytes_append) (simp add: G)
  have inner: "skip 4 G = (Ok (), B)" by (simp add: skip_ok G)
  have str: "Bytes_read_string memchr B = (Ok (fst v), ?D)"
    using Bytes_read_string_ok [OF mc, of "fst v" ?D] ok by (simp add: B_def vendor_body_def vendor_ok_def)
  have "read_sub e v = \<lparr>sub_endian = e, sub_length = N, sub_vendor = fst v, sub_data = ?D\<rparr>"
    by (simp add: read_sub_def N_def B_def)
  then have "Subsection_parse memchr ?it = (Ok (read_sub e v), \<lparr>ai_endian = e, ai_data = rest\<rparr>)"
    using len whole inner str by (simp add: Subsection_parse_def Let_def N flip: G_def)
  moreover have "length G = 4 + length B" using G by simp
  then have "G \<noteq> []" by auto
  ultimately show ?thesis by (simp add: Subsection_next_def next_or_clear_def G_def)
qed

lemma read_group_ok:
  assumes "memchr_spec memchr" "group_ok is_string g"
  shows "read_group memchr is_string (read_ss g) = Ok g"
  using assms collect_attributes [OF assms(1), of is_string]
  by (cases g) (simp add: read_group_def read_ss_def indices_def attributes_def collect_indices
      Subsubsection_tag_def)

lemma map_ok_map: "(\<forall>x \<in> set xs. f (g x) = Ok x) \<Longrightarrow> map_ok f (map g xs) = Ok xs"
  by (induction xs) simp_all

lemma length_le_concat: "x \<in> set xs \<Longrightarrow> length (f x) \<le> length (concat (map f xs))"
  by (induction xs) auto

lemma read_vendor_ok:
  assumes mc: "memchr_spec memchr" and ok: "vendor_ok is_string e v"
  shows "read_vendor memchr is_string (read_sub e v) = Ok v"
proof -
  let ?mk = "\<lambda>d. \<lparr>ai_endian = e, ai_data = d\<rparr>"
  have groups: "group_ok is_string g \<and> 5 + length (group_body g) < 2 ^ 32" if "g \<in> set (snd v)" for g
    using ok length_le_concat [OF that, of "group_image e"] that
    by (auto simp: vendor_ok_def list_all_iff vendor_body_def length_group_image)
  have "collect (Subsubsection_next memchr) (\<lambda>it. length (ai_data it)) (?mk (concat (map (group_image e) (snd v)))) =
      Ok (map read_ss (snd v))"
  proof (rule collect_images)
    show "Subsubsection_next memchr (?mk []) = (Ok None, ?mk [])"
      by (simp add: Subsubsection_next_def next_or_clear_def)
    show "\<forall>g \<in> set (snd v). group_image e g \<noteq> []" by (simp add: group_image_def)
    show "\<forall>g \<in> set (snd v). \<forall>rest. Subsubsection_next memchr (?mk (group_image e g @ rest)) =
        (Ok (Some (read_ss g)), ?mk rest)"
    proof (intro ballI allI)
      fix g rest assume "g \<in> set (snd v)"
      with groups have "group_ok is_string g" "5 + length (group_body g) < 2 ^ 32" by blast+
      then show "Subsubsection_next memchr (?mk (group_image e g @ rest)) = (Ok (Some (read_ss g)), ?mk rest)"
        by (rule Subsubsection_next_group [OF mc])
    qed
  qed simp
  moreover have "map_ok (read_group memchr is_string) (map read_ss (snd v)) = Ok (snd v)"
    using groups read_group_ok [OF mc] by (intro map_ok_map) blast
  ultimately show ?thesis
    by (simp add: read_vendor_def subsubsections_def read_sub_def Subsection_vendor_def)
qed

section \<open>Properties\<close>

text \<open>C17: an attributes section written with \<^verbatim>\<open>AttributesWriter\<close> (subsections with a vendor, sub-subsections with a tag, indices and attributes) is read back by the iterators of the reader: the same vendors, tags, indices and attributes in the same order.\<close>

theorem attributes_round_trip:
  assumes "memchr_spec memchr" "list_all (vendor_ok is_string e) tree"
  shows "and_then (write_tree e tree) (read_tree memchr is_string e) = Ok tree"
proof -
  let ?mk = "\<lambda>d. \<lparr>ai_endian = e, ai_data = d\<rparr>" and ?d = "concat (map (vendor_image e) tree)"
  have new: "AttributesSection_new e (0x41 # ?d) = Ok \<lparr>as_endian = e, as_version = 0x41, as_data = ?d\<rparr>"
    by (simp add: AttributesSection_new_def Bytes_read_ok Let_def)
  have ok: "vendor_ok is_string e v" if "v \<in> set tree" for v
    using assms(2) that by (simp add: list_all_iff)
  have "collect (Subsection_next memchr) (\<lambda>it. length (ai_data it)) (?mk ?d) = Ok (map (read_sub e) tree)"
  proof (rule collect_images)
    show "Subsection_next memchr (?mk []) = (Ok None, ?mk [])"
      by (simp add: Subsection_next_def next_or_clear_def)
    show "\<forall>v \<in> set tree. vendor_image e v \<noteq> []" by (simp add: vendor_image_def vendor_body_def)
    show "\<forall>v \<in> set tree. \<forall>rest. Subsection_next memchr (?mk (vendor_image e v @ rest)) =
        (Ok (Some (read_sub e v)), ?mk rest)"
      using Subsection_next_vendor [OF assms(1) ok] by blast
  qed simp
  moreover have "map_ok (read_vendor memchr is_string) (map (read_sub e) tree) = Ok tree"
    using ok read_vendor_ok [OF assms(1)] by (intro map_ok_map) blast
  ultimately show ?thesis
    by (simp add: write_tree_ok read_tree_def new subsections_def)
qed

theorem attributes_round_trip_witness:
  "and_then (write_tree Little [([97], [(1, [], [(4, AttrInt 300), (5, AttrStr [98])]), (2, [7, 200], [])])])
     (read_tree first_index (\<lambda>t. t = 5) Little) =
   Ok [([97], [(1, [], [(4, AttrInt 300), (5, AttrStr [98])]), (2, [7, 200], [])])]"
proof (rule attributes_round_trip [OF memchr_spec_first_index])
  have "uleb_enc 4 = [4]" "uleb_enc 5 = [5]" "length (uleb_enc 300) = 2" "uleb_enc 7 = [7]" "length (uleb_enc 200) = 2"
    by (simp_all add: uleb_enc_rec)
  then show "list_all (vendor_ok (\<lambda>t. t = 5) Little)
      [([97], [(1, [], [(4, AttrInt 300), (5, AttrStr [98])]), (2, [7, 200], [])])]"
    by (simp add: vendor_ok_def vendor_body_def group_image_def index_image_def)
qed

end
