(* ===== verification/Common.thy ===== *)
theory Common
  imports Prelude
begin

text \<open>
  \<^verbatim>\<open>src/common.rs\<close>: the enumerations shared by the readers and the writers. The constructors carry a
  prefix where the Rust enumerations share names (\<open>K_\<close> for \<^verbatim>\<open>RelocationKind\<close>, \<open>E_\<close> for
  \<^verbatim>\<open>RelocationEncoding\<close>, \<open>SK_\<close> for \<^verbatim>\<open>SectionKind\<close> and so on).
\<close>

section \<open>Architectures\<close>

datatype architecture = Arch_Unknown | Aarch64 | Aarch64_Ilp32 | Alpha | Arm | Avr | Bpf | Csky | E2K32
  | E2K64 | I386 | X86_64 | X86_64_X32 | Hexagon | Hppa | LoongArch32 | LoongArch64 | M68k | Mips
  | Mips64 | Mips64_N32 | Msp430 | PowerPc | PowerPc64 | Riscv32 | Riscv64 | S390x | Sbf | Sharc
  | Sparc | Sparc32Plus | Sparc64 | SuperH | Wasm32 | Wasm64 | Xtensa

datatype sub_architecture = Arm64E | Arm64EC

datatype address_size = AS_U8 | AS_U16 | AS_U32 | AS_U64

fun Architecture_address_size :: "architecture \<Rightarrow> address_size option" where
  "Architecture_address_size Arch_Unknown = None"
| "Architecture_address_size Aarch64 = Some AS_U64"
| "Architecture_address_size Aarch64_Ilp32 = Some AS_U32"
| "Architecture_address_size Alpha = Some AS_U64"
| "Architecture_address_size Arm = Some AS_U32"
| "Architecture_address_size Avr = Some AS_U8"
| "Architecture_address_size Bpf = Some AS_U64"
| "Architecture_address_size Csky = Some AS_U32"
| "Architecture_address_size E2K32 = Some AS_U32"
| "Architecture_address_size E2K64 = Some AS_U64"
| "Architecture_address_size I386 = Some AS_U32"
| "Architecture_address_size X86_64 = Some AS_U64"
| "Architecture_address_size X86_64_X32 = Some AS_U32"
| "Architecture_address_size Hexagon = Some AS_U32"
| "Architecture_address_size Hppa = Some AS_U32"
| "Architecture_address_size LoongArch32 = Some AS_U32"
| "Architecture_address_size LoongArch64 = Some AS_U64"
| "Architecture_address_size M68k = Some AS_U32"
| "Architecture_address_size Mips = Some AS_U32"
| "Architecture_address_size Mips64 = Some AS_U64"
| "Architecture_address_size Mips64_N32 = Some AS_U32"
| "Architecture_address_size Msp430 = Some AS_U16"
| "Architecture_address_size PowerPc = Some AS_U32"
| "Architecture_address_size PowerPc64 = Some AS_U64"
| "Architecture_address_size Riscv32 = Some AS_U32"
| "Architecture_address_size Riscv64 = Some AS_U64"
| "Architecture_address_size S390x = Some AS_U64"
| "Architecture_address_size Sbf = Some AS_U64"
| "Architecture_address_size Sharc = Some AS_U32"
| "Architecture_address_size Sparc = Some AS_U32"
| "Architecture_address_size Sparc32Plus = Some AS_U32"
| "Architecture_address_size Sparc64 = Some AS_U64"
| "Architecture_address_size Wasm32 = Some AS_U32"
| "Architecture_address_size Wasm64 = Some AS_U64"
| "Architecture_address_size Xtensa = Some AS_U32"
| "Architecture_address_size SuperH = Some AS_U32"

fun AddressSize_bytes :: "address_size \<Rightarrow> u8" where
  "AddressSize_bytes AS_U8 = 1"
| "AddressSize_bytes AS_U16 = 2"
| "AddressSize_bytes AS_U32 = 4"
| "AddressSize_bytes AS_U64 = 8"

datatype binary_format = BF_Coff | BF_Elf | BF_MachO | BF_Pe | BF_Wasm | BF_Xcoff

section \<open>Sections and symbols\<close>

datatype section_kind = SK_Unknown | SK_Text | SK_Data | SK_ReadOnlyData | SK_ReadOnlyDataWithRel
  | SK_ReadOnlyString | SK_UninitializedData | SK_Common | SK_Tls | SK_UninitializedTls
  | SK_TlsVariables | SK_OtherString | SK_Other | SK_Debug | SK_DebugString | SK_Linker | SK_Note
  | SK_Metadata | SK_Elf u32

definition SectionKind_is_bss :: "section_kind \<Rightarrow> bool" where
  "SectionKind_is_bss self \<longleftrightarrow> self = SK_UninitializedData \<or> self = SK_UninitializedTls \<or> self = SK_Common"

datatype comdat_kind = CK_Unknown | CK_Any | CK_NoDuplicates | CK_SameSize | CK_ExactMatch | CK_Largest
  | CK_Newest

datatype symbol_kind = SymK_Unknown | SymK_Text | SymK_Data | SymK_Section | SymK_File | SymK_Label | SymK_Tls

datatype symbol_scope = Scope_Unknown | Scope_Compilation | Scope_Linkage | Scope_Dynamic

section \<open>Relocations\<close>

datatype relocation_kind = K_Unknown | K_Absolute | K_Relative | K_Got | K_GotRelative
  | K_GotBaseRelative | K_GotBaseOffset | K_PltRelative | K_ImageOffset | K_SectionOffset
  | K_SectionIndex

datatype relocation_encoding = E_Unknown | E_Generic | E_X86Signed | E_X86RipRelative
  | E_X86RipRelativeMovq | E_X86Branch | E_S390xDbl | E_AArch64Call | E_LoongArchBranch
  | E_SharcTypeA | E_SharcTypeB | E_E2KLit | E_E2KDisp

section \<open>Flags\<close>

datatype file_flags = FF_None | FF_Elf u8 u8 u32 | FF_MachO u32
  | FF_Coff u16 | FF_Xcoff u16

datatype segment_flags = SegF_None | SegF_Elf u32 | SegF_MachO u32 u32 u32 | SegF_Coff u32

datatype section_flags = SecF_None | SecF_Elf u64 | SecF_MachO u32 | SecF_Coff u32 | SecF_Xcoff u32

datatype ('section, 'symbol) symbol_flags = SymF_None | SymF_Elf u8 u8 | SymF_MachO u16
  | SymF_CoffSection u8 "'section option" | SymF_Xcoff u8 u8 u8 "'symbol option"

datatype relocation_flags = RF_Generic relocation_kind relocation_encoding u8 | RF_Elf u32
  | RF_MachO u8 bool u8 | RF_Coff u16 | RF_Xcoff u8 u8

end
