(* ===== verification/Elf_Relocation_Types.thy ===== *)
theory Elf_Relocation_Types
  imports Common
begin

text \<open>
  The relocation types of the ELF machines: the table with which the reader classifies them
  (\<^verbatim>\<open>parse_relocation\<close> in \<^verbatim>\<open>src/read/elf/relocation.rs\<close>), the tables with which the object writer
  chooses them (\<^verbatim>\<open>src/write/elf/object.rs\<close>), and how the two agree. The texts of the two errors that
  format the relocation or the architecture are left out.
\<close>

section \<open>Constants\<close>

abbreviation "R_AARCH64_ABS64 \<equiv> (257 :: u32)"
abbreviation "R_AARCH64_ABS32 \<equiv> (258 :: u32)"
abbreviation "R_AARCH64_ABS16 \<equiv> (259 :: u32)"
abbreviation "R_AARCH64_PREL64 \<equiv> (260 :: u32)"
abbreviation "R_AARCH64_PREL32 \<equiv> (261 :: u32)"
abbreviation "R_AARCH64_PREL16 \<equiv> (262 :: u32)"
abbreviation "R_AARCH64_CALL26 \<equiv> (283 :: u32)"
abbreviation "R_AARCH64_P32_ABS32 \<equiv> (1 :: u32)"
abbreviation "R_ALPHA_REFLONG \<equiv> (1 :: u32)"
abbreviation "R_ALPHA_REFQUAD \<equiv> (2 :: u32)"
abbreviation "R_ALPHA_SREL16 \<equiv> (9 :: u32)"
abbreviation "R_ALPHA_SREL32 \<equiv> (10 :: u32)"
abbreviation "R_ALPHA_SREL64 \<equiv> (11 :: u32)"
abbreviation "R_ARM_ABS32 \<equiv> (2 :: u32)"
abbreviation "R_AVR_32 \<equiv> (1 :: u32)"
abbreviation "R_AVR_16 \<equiv> (4 :: u32)"
abbreviation "R_BPF_64_64 \<equiv> (1 :: u32)"
abbreviation "R_BPF_64_32 \<equiv> (10 :: u32)"
abbreviation "R_CKCORE_ADDR32 \<equiv> (1 :: u32)"
abbreviation "R_CKCORE_PCREL32 \<equiv> (5 :: u32)"
abbreviation "R_E2K_32_ABS \<equiv> (0 :: u32)"
abbreviation "R_E2K_64_ABS \<equiv> (50 :: u32)"
abbreviation "R_E2K_64_ABS_LIT \<equiv> (51 :: u32)"
abbreviation "R_E2K_DISP \<equiv> (110 :: u32)"
abbreviation "R_E2K_GOT \<equiv> (108 :: u32)"
abbreviation "R_386_32 \<equiv> (1 :: u32)"
abbreviation "R_386_PC32 \<equiv> (2 :: u32)"
abbreviation "R_386_GOT32 \<equiv> (3 :: u32)"
abbreviation "R_386_PLT32 \<equiv> (4 :: u32)"
abbreviation "R_386_GOTOFF \<equiv> (9 :: u32)"
abbreviation "R_386_GOTPC \<equiv> (10 :: u32)"
abbreviation "R_386_16 \<equiv> (20 :: u32)"
abbreviation "R_386_PC16 \<equiv> (21 :: u32)"
abbreviation "R_386_8 \<equiv> (22 :: u32)"
abbreviation "R_386_PC8 \<equiv> (23 :: u32)"
abbreviation "R_X86_64_64 \<equiv> (1 :: u32)"
abbreviation "R_X86_64_PC32 \<equiv> (2 :: u32)"
abbreviation "R_X86_64_GOT32 \<equiv> (3 :: u32)"
abbreviation "R_X86_64_PLT32 \<equiv> (4 :: u32)"
abbreviation "R_X86_64_GOTPCREL \<equiv> (9 :: u32)"
abbreviation "R_X86_64_32 \<equiv> (10 :: u32)"
abbreviation "R_X86_64_32S \<equiv> (11 :: u32)"
abbreviation "R_X86_64_16 \<equiv> (12 :: u32)"
abbreviation "R_X86_64_PC16 \<equiv> (13 :: u32)"
abbreviation "R_X86_64_8 \<equiv> (14 :: u32)"
abbreviation "R_X86_64_PC8 \<equiv> (15 :: u32)"
abbreviation "R_HEX_32 \<equiv> (6 :: u32)"
abbreviation "R_LARCH_32 \<equiv> (1 :: u32)"
abbreviation "R_LARCH_64 \<equiv> (2 :: u32)"
abbreviation "R_LARCH_32_PCREL \<equiv> (99 :: u32)"
abbreviation "R_LARCH_64_PCREL \<equiv> (109 :: u32)"
abbreviation "R_LARCH_B16 \<equiv> (64 :: u32)"
abbreviation "R_LARCH_B21 \<equiv> (65 :: u32)"
abbreviation "R_LARCH_B26 \<equiv> (66 :: u32)"
abbreviation "R_68K_32 \<equiv> (1 :: u32)"
abbreviation "R_68K_16 \<equiv> (2 :: u32)"
abbreviation "R_68K_8 \<equiv> (3 :: u32)"
abbreviation "R_68K_PC32 \<equiv> (4 :: u32)"
abbreviation "R_68K_PC16 \<equiv> (5 :: u32)"
abbreviation "R_68K_PC8 \<equiv> (6 :: u32)"
abbreviation "R_68K_GOT32O \<equiv> (10 :: u32)"
abbreviation "R_68K_GOT16O \<equiv> (11 :: u32)"
abbreviation "R_68K_GOT8O \<equiv> (12 :: u32)"
abbreviation "R_68K_GOT32 \<equiv> (7 :: u32)"
abbreviation "R_68K_GOT16 \<equiv> (8 :: u32)"
abbreviation "R_68K_GOT8 \<equiv> (9 :: u32)"
abbreviation "R_68K_PLT32 \<equiv> (13 :: u32)"
abbreviation "R_68K_PLT16 \<equiv> (14 :: u32)"
abbreviation "R_68K_PLT8 \<equiv> (15 :: u32)"
abbreviation "R_MIPS_16 \<equiv> (1 :: u32)"
abbreviation "R_MIPS_32 \<equiv> (2 :: u32)"
abbreviation "R_MIPS_64 \<equiv> (18 :: u32)"
abbreviation "R_MSP430_32 \<equiv> (1 :: u32)"
abbreviation "R_MSP430_16_BYTE \<equiv> (5 :: u32)"
abbreviation "R_PARISC_DIR32 \<equiv> (1 :: u32)"
abbreviation "R_PARISC_PCREL32 \<equiv> (9 :: u32)"
abbreviation "R_PPC_ADDR32 \<equiv> (1 :: u32)"
abbreviation "R_PPC64_ADDR32 \<equiv> (1 :: u32)"
abbreviation "R_PPC64_ADDR64 \<equiv> (38 :: u32)"
abbreviation "R_RISCV_32 \<equiv> (1 :: u32)"
abbreviation "R_RISCV_64 \<equiv> (2 :: u32)"
abbreviation "R_390_8 \<equiv> (1 :: u32)"
abbreviation "R_390_16 \<equiv> (3 :: u32)"
abbreviation "R_390_32 \<equiv> (4 :: u32)"
abbreviation "R_390_64 \<equiv> (22 :: u32)"
abbreviation "R_390_PC16 \<equiv> (16 :: u32)"
abbreviation "R_390_PC32 \<equiv> (5 :: u32)"
abbreviation "R_390_PC64 \<equiv> (23 :: u32)"
abbreviation "R_390_PC16DBL \<equiv> (17 :: u32)"
abbreviation "R_390_PC32DBL \<equiv> (19 :: u32)"
abbreviation "R_390_PLT16DBL \<equiv> (18 :: u32)"
abbreviation "R_390_PLT32DBL \<equiv> (20 :: u32)"
abbreviation "R_390_GOT16 \<equiv> (15 :: u32)"
abbreviation "R_390_GOT32 \<equiv> (7 :: u32)"
abbreviation "R_390_GOT64 \<equiv> (24 :: u32)"
abbreviation "R_390_GOTENT \<equiv> (26 :: u32)"
abbreviation "R_390_GOTOFF16 \<equiv> (27 :: u32)"
abbreviation "R_390_GOTOFF32 \<equiv> (13 :: u32)"
abbreviation "R_390_GOTOFF64 \<equiv> (28 :: u32)"
abbreviation "R_390_GOTPC \<equiv> (14 :: u32)"
abbreviation "R_390_GOTPCDBL \<equiv> (21 :: u32)"
abbreviation "R_SBF_64_64 \<equiv> (1 :: u32)"
abbreviation "R_SBF_64_32 \<equiv> (10 :: u32)"
abbreviation "R_SHARC_ADDR24_V3 \<equiv> (11 :: u32)"
abbreviation "R_SHARC_ADDR32_V3 \<equiv> (12 :: u32)"
abbreviation "R_SHARC_ADDR_VAR_V3 \<equiv> (13 :: u32)"
abbreviation "R_SHARC_PCRSHORT_V3 \<equiv> (14 :: u32)"
abbreviation "R_SHARC_PCRLONG_V3 \<equiv> (15 :: u32)"
abbreviation "R_SHARC_DATA6_V3 \<equiv> (16 :: u32)"
abbreviation "R_SHARC_DATA16_V3 \<equiv> (17 :: u32)"
abbreviation "R_SHARC_DATA6_VISA_V3 \<equiv> (18 :: u32)"
abbreviation "R_SHARC_DATA7_VISA_V3 \<equiv> (19 :: u32)"
abbreviation "R_SHARC_DATA16_VISA_V3 \<equiv> (20 :: u32)"
abbreviation "R_SHARC_PCR6_VISA_V3 \<equiv> (23 :: u32)"
abbreviation "R_SHARC_ADDR_VAR16_V3 \<equiv> (25 :: u32)"
abbreviation "R_SPARC_32 \<equiv> (3 :: u32)"
abbreviation "R_SPARC_UA32 \<equiv> (23 :: u32)"
abbreviation "R_SPARC_64 \<equiv> (32 :: u32)"
abbreviation "R_SPARC_UA64 \<equiv> (54 :: u32)"
abbreviation "R_SH_DIR32 \<equiv> (1 :: u32)"
abbreviation "R_SH_REL32 \<equiv> (2 :: u32)"
abbreviation "R_XTENSA_32 \<equiv> (1 :: u32)"
abbreviation "R_XTENSA_32_PCREL \<equiv> (14 :: u32)"
abbreviation "EM_AARCH64 \<equiv> (183 :: u16)"
abbreviation "EM_ALPHA \<equiv> (36902 :: u16)"
abbreviation "EM_ARM \<equiv> (40 :: u16)"
abbreviation "EM_AVR \<equiv> (83 :: u16)"
abbreviation "EM_BPF \<equiv> (247 :: u16)"
abbreviation "EM_CSKY \<equiv> (252 :: u16)"
abbreviation "EM_MCST_ELBRUS \<equiv> (175 :: u16)"
abbreviation "EM_386 \<equiv> (3 :: u16)"
abbreviation "EM_X86_64 \<equiv> (62 :: u16)"
abbreviation "EM_HEXAGON \<equiv> (164 :: u16)"
abbreviation "EM_LOONGARCH \<equiv> (258 :: u16)"
abbreviation "EM_68K \<equiv> (4 :: u16)"
abbreviation "EM_MIPS \<equiv> (8 :: u16)"
abbreviation "EM_MSP430 \<equiv> (105 :: u16)"
abbreviation "EM_PARISC \<equiv> (15 :: u16)"
abbreviation "EM_PPC \<equiv> (20 :: u16)"
abbreviation "EM_PPC64 \<equiv> (21 :: u16)"
abbreviation "EM_RISCV \<equiv> (243 :: u16)"
abbreviation "EM_S390 \<equiv> (22 :: u16)"
abbreviation "EM_SBF \<equiv> (263 :: u16)"
abbreviation "EM_SHARC \<equiv> (133 :: u16)"
abbreviation "EM_SPARC \<equiv> (2 :: u16)"
abbreviation "EM_SPARC32PLUS \<equiv> (18 :: u16)"
abbreviation "EM_SPARCV9 \<equiv> (43 :: u16)"
abbreviation "EM_SH \<equiv> (42 :: u16)"
abbreviation "EM_XTENSA \<equiv> (94 :: u16)"
abbreviation "R_RISCV_32_PCREL \<equiv> (57 :: u32)"
abbreviation "R_ARM_ABS16 \<equiv> (5 :: u32)"
abbreviation "R_ARM_REL32 \<equiv> (3 :: u32)"

section \<open>Reading\<close>

text \<open>Kind, encoding and size of a relocation.\<close>

type_synonym reloc_class = "relocation_kind \<times> relocation_encoding \<times> u8"

definition unknown_relocation :: reloc_class where
  "unknown_relocation = (K_Unknown, E_Generic, 0)"

definition relocs_AARCH64 :: "bool \<Rightarrow> u32 \<Rightarrow> reloc_class" where
  "relocs_AARCH64 is_64 r_type =
    (if is_64 then
       if r_type = R_AARCH64_ABS64 then (K_Absolute, E_Generic, 64) else
       if r_type = R_AARCH64_ABS32 then (K_Absolute, E_Generic, 32) else
       if r_type = R_AARCH64_ABS16 then (K_Absolute, E_Generic, 16) else
       if r_type = R_AARCH64_PREL64 then (K_Relative, E_Generic, 64) else
       if r_type = R_AARCH64_PREL32 then (K_Relative, E_Generic, 32) else
       if r_type = R_AARCH64_PREL16 then (K_Relative, E_Generic, 16) else
       if r_type = R_AARCH64_CALL26 then (K_PltRelative, E_AArch64Call, 26) else
       unknown_relocation
     else
       if r_type = R_AARCH64_P32_ABS32 then (K_Absolute, E_Generic, 32) else
       unknown_relocation)"

definition relocs_ALPHA :: "u32 \<Rightarrow> reloc_class" where
  "relocs_ALPHA r_type =
    (if r_type = R_ALPHA_REFLONG then (K_Absolute, E_Generic, 32) else
     if r_type = R_ALPHA_REFQUAD then (K_Absolute, E_Generic, 64) else
     if r_type = R_ALPHA_SREL16 then (K_Relative, E_Generic, 16) else
     if r_type = R_ALPHA_SREL32 then (K_Relative, E_Generic, 32) else
     if r_type = R_ALPHA_SREL64 then (K_Relative, E_Generic, 64) else
     unknown_relocation)"

definition relocs_ARM :: "u32 \<Rightarrow> reloc_class" where
  "relocs_ARM r_type =
    (if r_type = R_ARM_ABS32 then (K_Absolute, E_Generic, 32) else
     unknown_relocation)"

definition relocs_AVR :: "u32 \<Rightarrow> reloc_class" where
  "relocs_AVR r_type =
    (if r_type = R_AVR_32 then (K_Absolute, E_Generic, 32) else
     if r_type = R_AVR_16 then (K_Absolute, E_Generic, 16) else
     unknown_relocation)"

definition relocs_BPF :: "u32 \<Rightarrow> reloc_class" where
  "relocs_BPF r_type =
    (if r_type = R_BPF_64_64 then (K_Absolute, E_Generic, 64) else
     if r_type = R_BPF_64_32 then (K_Absolute, E_Generic, 32) else
     unknown_relocation)"

definition relocs_CSKY :: "u32 \<Rightarrow> reloc_class" where
  "relocs_CSKY r_type =
    (if r_type = R_CKCORE_ADDR32 then (K_Absolute, E_Generic, 32) else
     if r_type = R_CKCORE_PCREL32 then (K_Relative, E_Generic, 32) else
     unknown_relocation)"

definition relocs_MCST_ELBRUS :: "u32 \<Rightarrow> reloc_class" where
  "relocs_MCST_ELBRUS r_type =
    (if r_type = R_E2K_32_ABS then (K_Absolute, E_Generic, 32) else
     if r_type = R_E2K_64_ABS then (K_Absolute, E_Generic, 64) else
     if r_type = R_E2K_64_ABS_LIT then (K_Absolute, E_E2KLit, 64) else
     if r_type = R_E2K_DISP then (K_Relative, E_E2KDisp, 28) else
     if r_type = R_E2K_GOT then (K_Got, E_Generic, 32) else
     unknown_relocation)"

definition relocs_386 :: "u32 \<Rightarrow> reloc_class" where
  "relocs_386 r_type =
    (if r_type = R_386_32 then (K_Absolute, E_Generic, 32) else
     if r_type = R_386_PC32 then (K_Relative, E_Generic, 32) else
     if r_type = R_386_GOT32 then (K_Got, E_Generic, 32) else
     if r_type = R_386_PLT32 then (K_PltRelative, E_Generic, 32) else
     if r_type = R_386_GOTOFF then (K_GotBaseOffset, E_Generic, 32) else
     if r_type = R_386_GOTPC then (K_GotBaseRelative, E_Generic, 32) else
     if r_type = R_386_16 then (K_Absolute, E_Generic, 16) else
     if r_type = R_386_PC16 then (K_Relative, E_Generic, 16) else
     if r_type = R_386_8 then (K_Absolute, E_Generic, 8) else
     if r_type = R_386_PC8 then (K_Relative, E_Generic, 8) else
     unknown_relocation)"

definition relocs_X86_64 :: "u32 \<Rightarrow> reloc_class" where
  "relocs_X86_64 r_type =
    (if r_type = R_X86_64_64 then (K_Absolute, E_Generic, 64) else
     if r_type = R_X86_64_PC32 then (K_Relative, E_Generic, 32) else
     if r_type = R_X86_64_GOT32 then (K_Got, E_Generic, 32) else
     if r_type = R_X86_64_PLT32 then (K_PltRelative, E_Generic, 32) else
     if r_type = R_X86_64_GOTPCREL then (K_GotRelative, E_Generic, 32) else
     if r_type = R_X86_64_32 then (K_Absolute, E_Generic, 32) else
     if r_type = R_X86_64_32S then (K_Absolute, E_X86Signed, 32) else
     if r_type = R_X86_64_16 then (K_Absolute, E_Generic, 16) else
     if r_type = R_X86_64_PC16 then (K_Relative, E_Generic, 16) else
     if r_type = R_X86_64_8 then (K_Absolute, E_Generic, 8) else
     if r_type = R_X86_64_PC8 then (K_Relative, E_Generic, 8) else
     unknown_relocation)"

definition relocs_HEXAGON :: "u32 \<Rightarrow> reloc_class" where
  "relocs_HEXAGON r_type =
    (if r_type = R_HEX_32 then (K_Absolute, E_Generic, 32) else
     unknown_relocation)"

definition relocs_LOONGARCH :: "u32 \<Rightarrow> reloc_class" where
  "relocs_LOONGARCH r_type =
    (if r_type = R_LARCH_32 then (K_Absolute, E_Generic, 32) else
     if r_type = R_LARCH_64 then (K_Absolute, E_Generic, 64) else
     if r_type = R_LARCH_32_PCREL then (K_Relative, E_Generic, 32) else
     if r_type = R_LARCH_64_PCREL then (K_Relative, E_Generic, 64) else
     if r_type = R_LARCH_B16 then (K_Relative, E_LoongArchBranch, 16) else
     if r_type = R_LARCH_B21 then (K_Relative, E_LoongArchBranch, 21) else
     if r_type = R_LARCH_B26 then (K_Relative, E_LoongArchBranch, 26) else
     unknown_relocation)"

definition relocs_68K :: "u32 \<Rightarrow> reloc_class" where
  "relocs_68K r_type =
    (if r_type = R_68K_32 then (K_Absolute, E_Generic, 32) else
     if r_type = R_68K_16 then (K_Absolute, E_Generic, 16) else
     if r_type = R_68K_8 then (K_Absolute, E_Generic, 8) else
     if r_type = R_68K_PC32 then (K_Relative, E_Generic, 32) else
     if r_type = R_68K_PC16 then (K_Relative, E_Generic, 16) else
     if r_type = R_68K_PC8 then (K_Relative, E_Generic, 8) else
     if r_type = R_68K_GOT32O then (K_Got, E_Generic, 32) else
     if r_type = R_68K_GOT16O then (K_Got, E_Generic, 16) else
     if r_type = R_68K_GOT8O then (K_Got, E_Generic, 8) else
     if r_type = R_68K_GOT32 then (K_GotRelative, E_Generic, 32) else
     if r_type = R_68K_GOT16 then (K_GotRelative, E_Generic, 16) else
     if r_type = R_68K_GOT8 then (K_GotRelative, E_Generic, 8) else
     if r_type = R_68K_PLT32 then (K_PltRelative, E_Generic, 32) else
     if r_type = R_68K_PLT16 then (K_PltRelative, E_Generic, 16) else
     if r_type = R_68K_PLT8 then (K_PltRelative, E_Generic, 8) else
     unknown_relocation)"

definition relocs_MIPS :: "u32 \<Rightarrow> reloc_class" where
  "relocs_MIPS r_type =
    (if r_type = R_MIPS_16 then (K_Absolute, E_Generic, 16) else
     if r_type = R_MIPS_32 then (K_Absolute, E_Generic, 32) else
     if r_type = R_MIPS_64 then (K_Absolute, E_Generic, 64) else
     unknown_relocation)"

definition relocs_MSP430 :: "u32 \<Rightarrow> reloc_class" where
  "relocs_MSP430 r_type =
    (if r_type = R_MSP430_32 then (K_Absolute, E_Generic, 32) else
     if r_type = R_MSP430_16_BYTE then (K_Absolute, E_Generic, 16) else
     unknown_relocation)"

definition relocs_PARISC :: "u32 \<Rightarrow> reloc_class" where
  "relocs_PARISC r_type =
    (if r_type = R_PARISC_DIR32 then (K_Absolute, E_Generic, 32) else
     if r_type = R_PARISC_PCREL32 then (K_Relative, E_Generic, 32) else
     unknown_relocation)"

definition relocs_PPC :: "u32 \<Rightarrow> reloc_class" where
  "relocs_PPC r_type =
    (if r_type = R_PPC_ADDR32 then (K_Absolute, E_Generic, 32) else
     unknown_relocation)"

definition relocs_PPC64 :: "u32 \<Rightarrow> reloc_class" where
  "relocs_PPC64 r_type =
    (if r_type = R_PPC64_ADDR32 then (K_Absolute, E_Generic, 32) else
     if r_type = R_PPC64_ADDR64 then (K_Absolute, E_Generic, 64) else
     unknown_relocation)"

definition relocs_RISCV :: "u32 \<Rightarrow> reloc_class" where
  "relocs_RISCV r_type =
    (if r_type = R_RISCV_32 then (K_Absolute, E_Generic, 32) else
     if r_type = R_RISCV_64 then (K_Absolute, E_Generic, 64) else
     unknown_relocation)"

definition relocs_S390 :: "u32 \<Rightarrow> reloc_class" where
  "relocs_S390 r_type =
    (if r_type = R_390_8 then (K_Absolute, E_Generic, 8) else
     if r_type = R_390_16 then (K_Absolute, E_Generic, 16) else
     if r_type = R_390_32 then (K_Absolute, E_Generic, 32) else
     if r_type = R_390_64 then (K_Absolute, E_Generic, 64) else
     if r_type = R_390_PC16 then (K_Relative, E_Generic, 16) else
     if r_type = R_390_PC32 then (K_Relative, E_Generic, 32) else
     if r_type = R_390_PC64 then (K_Relative, E_Generic, 64) else
     if r_type = R_390_PC16DBL then (K_Relative, E_S390xDbl, 16) else
     if r_type = R_390_PC32DBL then (K_Relative, E_S390xDbl, 32) else
     if r_type = R_390_PLT16DBL then (K_PltRelative, E_S390xDbl, 16) else
     if r_type = R_390_PLT32DBL then (K_PltRelative, E_S390xDbl, 32) else
     if r_type = R_390_GOT16 then (K_Got, E_Generic, 16) else
     if r_type = R_390_GOT32 then (K_Got, E_Generic, 32) else
     if r_type = R_390_GOT64 then (K_Got, E_Generic, 64) else
     if r_type = R_390_GOTENT then (K_GotRelative, E_S390xDbl, 32) else
     if r_type = R_390_GOTOFF16 then (K_GotBaseOffset, E_Generic, 16) else
     if r_type = R_390_GOTOFF32 then (K_GotBaseOffset, E_Generic, 32) else
     if r_type = R_390_GOTOFF64 then (K_GotBaseOffset, E_Generic, 64) else
     if r_type = R_390_GOTPC then (K_GotBaseRelative, E_Generic, 64) else
     if r_type = R_390_GOTPCDBL then (K_GotBaseRelative, E_S390xDbl, 32) else
     unknown_relocation)"

definition relocs_SBF :: "u32 \<Rightarrow> reloc_class" where
  "relocs_SBF r_type =
    (if r_type = R_SBF_64_64 then (K_Absolute, E_Generic, 64) else
     if r_type = R_SBF_64_32 then (K_Absolute, E_Generic, 32) else
     unknown_relocation)"

definition relocs_SHARC :: "u32 \<Rightarrow> reloc_class" where
  "relocs_SHARC r_type =
    (if r_type = R_SHARC_ADDR24_V3 then (K_Absolute, E_SharcTypeA, 24) else
     if r_type = R_SHARC_ADDR32_V3 then (K_Absolute, E_SharcTypeA, 32) else
     if r_type = R_SHARC_ADDR_VAR_V3 then (K_Absolute, E_Generic, 32) else
     if r_type = R_SHARC_PCRSHORT_V3 then (K_Relative, E_SharcTypeA, 6) else
     if r_type = R_SHARC_PCRLONG_V3 then (K_Relative, E_SharcTypeA, 24) else
     if r_type = R_SHARC_DATA6_V3 then (K_Absolute, E_SharcTypeA, 6) else
     if r_type = R_SHARC_DATA16_V3 then (K_Absolute, E_SharcTypeA, 16) else
     if r_type = R_SHARC_DATA6_VISA_V3 then (K_Absolute, E_SharcTypeB, 6) else
     if r_type = R_SHARC_DATA7_VISA_V3 then (K_Absolute, E_SharcTypeB, 7) else
     if r_type = R_SHARC_DATA16_VISA_V3 then (K_Absolute, E_SharcTypeB, 16) else
     if r_type = R_SHARC_PCR6_VISA_V3 then (K_Relative, E_SharcTypeB, 16) else
     if r_type = R_SHARC_ADDR_VAR16_V3 then (K_Absolute, E_Generic, 16) else
     unknown_relocation)"

definition relocs_SPARC :: "u32 \<Rightarrow> reloc_class" where
  "relocs_SPARC r_type =
    (if r_type = R_SPARC_32 \<or> r_type = R_SPARC_UA32 then (K_Absolute, E_Generic, 32) else
     if r_type = R_SPARC_64 \<or> r_type = R_SPARC_UA64 then (K_Absolute, E_Generic, 64) else
     unknown_relocation)"

definition relocs_SH :: "u32 \<Rightarrow> reloc_class" where
  "relocs_SH r_type =
    (if r_type = R_SH_DIR32 then (K_Absolute, E_Generic, 32) else
     if r_type = R_SH_REL32 then (K_Relative, E_Generic, 32) else
     unknown_relocation)"

definition relocs_XTENSA :: "u32 \<Rightarrow> reloc_class" where
  "relocs_XTENSA r_type =
    (if r_type = R_XTENSA_32 then (K_Absolute, E_Generic, 32) else
     if r_type = R_XTENSA_32_PCREL then (K_Relative, E_Generic, 32) else
     unknown_relocation)"

definition relocation_class :: "u16 \<Rightarrow> bool \<Rightarrow> u32 \<Rightarrow> reloc_class" where
  "relocation_class e_machine is_64 r_type =
    (if e_machine = EM_AARCH64 then relocs_AARCH64 is_64 r_type else
     if e_machine = EM_ALPHA then relocs_ALPHA r_type else
     if e_machine = EM_ARM then relocs_ARM r_type else
     if e_machine = EM_AVR then relocs_AVR r_type else
     if e_machine = EM_BPF then relocs_BPF r_type else
     if e_machine = EM_CSKY then relocs_CSKY r_type else
     if e_machine = EM_MCST_ELBRUS then relocs_MCST_ELBRUS r_type else
     if e_machine = EM_386 then relocs_386 r_type else
     if e_machine = EM_X86_64 then relocs_X86_64 r_type else
     if e_machine = EM_HEXAGON then relocs_HEXAGON r_type else
     if e_machine = EM_LOONGARCH then relocs_LOONGARCH r_type else
     if e_machine = EM_68K then relocs_68K r_type else
     if e_machine = EM_MIPS then relocs_MIPS r_type else
     if e_machine = EM_MSP430 then relocs_MSP430 r_type else
     if e_machine = EM_PARISC then relocs_PARISC r_type else
     if e_machine = EM_PPC then relocs_PPC r_type else
     if e_machine = EM_PPC64 then relocs_PPC64 r_type else
     if e_machine = EM_RISCV then relocs_RISCV r_type else
     if e_machine = EM_S390 then relocs_S390 r_type else
     if e_machine = EM_SBF then relocs_SBF r_type else
     if e_machine = EM_SHARC then relocs_SHARC r_type else
     if e_machine = EM_SPARC \<or> e_machine = EM_SPARC32PLUS \<or> e_machine = EM_SPARCV9 then relocs_SPARC r_type else
     if e_machine = EM_SH then relocs_SH r_type else
     if e_machine = EM_XTENSA then relocs_XTENSA r_type else
     unknown_relocation)"

section \<open>Writing\<close>

definition unimplemented_relocation :: string where
  "unimplemented_relocation = ''unimplemented ELF relocation''"

definition unimplemented_architecture :: string where
  "unimplemented_architecture = ''unimplemented architecture''"

definition r_type_Aarch64 :: "relocation_kind \<Rightarrow> relocation_encoding \<Rightarrow> u8 \<Rightarrow> (u32, string) result" where
  "r_type_Aarch64 kind encoding sz =
    (if kind = K_Absolute \<and> encoding = E_Generic \<and> sz = 64 then Ok R_AARCH64_ABS64 else
     if kind = K_Absolute \<and> encoding = E_Generic \<and> sz = 32 then Ok R_AARCH64_ABS32 else
     if kind = K_Absolute \<and> encoding = E_Generic \<and> sz = 16 then Ok R_AARCH64_ABS16 else
     if kind = K_Relative \<and> encoding = E_Generic \<and> sz = 64 then Ok R_AARCH64_PREL64 else
     if kind = K_Relative \<and> encoding = E_Generic \<and> sz = 32 then Ok R_AARCH64_PREL32 else
     if kind = K_Relative \<and> encoding = E_Generic \<and> sz = 16 then Ok R_AARCH64_PREL16 else
     if kind = K_Relative \<and> encoding = E_AArch64Call \<and> sz = 26 then Ok R_AARCH64_CALL26 else
     if kind = K_PltRelative \<and> encoding = E_AArch64Call \<and> sz = 26 then Ok R_AARCH64_CALL26 else
     Err unimplemented_relocation)"

definition r_type_Aarch64_Ilp32 :: "relocation_kind \<Rightarrow> relocation_encoding \<Rightarrow> u8 \<Rightarrow> (u32, string) result" where
  "r_type_Aarch64_Ilp32 kind encoding sz =
    (if kind = K_Absolute \<and> encoding = E_Generic \<and> sz = 32 then Ok R_AARCH64_P32_ABS32 else
     Err unimplemented_relocation)"

definition r_type_Alpha :: "relocation_kind \<Rightarrow> relocation_encoding \<Rightarrow> u8 \<Rightarrow> (u32, string) result" where
  "r_type_Alpha kind encoding sz =
    (if kind = K_Absolute \<and> sz = 32 then Ok R_ALPHA_REFLONG else
     if kind = K_Absolute \<and> sz = 64 then Ok R_ALPHA_REFQUAD else
     if kind = K_Relative \<and> sz = 16 then Ok R_ALPHA_SREL16 else
     if kind = K_Relative \<and> sz = 32 then Ok R_ALPHA_SREL32 else
     if kind = K_Relative \<and> sz = 64 then Ok R_ALPHA_SREL64 else
     Err unimplemented_relocation)"

definition r_type_Arm :: "relocation_kind \<Rightarrow> relocation_encoding \<Rightarrow> u8 \<Rightarrow> (u32, string) result" where
  "r_type_Arm kind encoding sz =
    (if kind = K_Absolute \<and> sz = 32 then Ok R_ARM_ABS32 else
     Err unimplemented_relocation)"

definition r_type_Avr :: "relocation_kind \<Rightarrow> relocation_encoding \<Rightarrow> u8 \<Rightarrow> (u32, string) result" where
  "r_type_Avr kind encoding sz =
    (if kind = K_Absolute \<and> sz = 32 then Ok R_AVR_32 else
     if kind = K_Absolute \<and> sz = 16 then Ok R_AVR_16 else
     Err unimplemented_relocation)"

definition r_type_Bpf :: "relocation_kind \<Rightarrow> relocation_encoding \<Rightarrow> u8 \<Rightarrow> (u32, string) result" where
  "r_type_Bpf kind encoding sz =
    (if kind = K_Absolute \<and> sz = 64 then Ok R_BPF_64_64 else
     if kind = K_Absolute \<and> sz = 32 then Ok R_BPF_64_32 else
     Err unimplemented_relocation)"

definition r_type_Csky :: "relocation_kind \<Rightarrow> relocation_encoding \<Rightarrow> u8 \<Rightarrow> (u32, string) result" where
  "r_type_Csky kind encoding sz =
    (if kind = K_Absolute \<and> sz = 32 then Ok R_CKCORE_ADDR32 else
     if kind = K_Relative \<and> encoding = E_Generic \<and> sz = 32 then Ok R_CKCORE_PCREL32 else
     Err unimplemented_relocation)"

definition r_type_I386 :: "relocation_kind \<Rightarrow> relocation_encoding \<Rightarrow> u8 \<Rightarrow> (u32, string) result" where
  "r_type_I386 kind encoding sz =
    (if kind = K_Absolute \<and> sz = 32 then Ok R_386_32 else
     if kind = K_Relative \<and> sz = 32 then Ok R_386_PC32 else
     if kind = K_Got \<and> sz = 32 then Ok R_386_GOT32 else
     if kind = K_PltRelative \<and> sz = 32 then Ok R_386_PLT32 else
     if kind = K_GotBaseOffset \<and> sz = 32 then Ok R_386_GOTOFF else
     if kind = K_GotBaseRelative \<and> sz = 32 then Ok R_386_GOTPC else
     if kind = K_Absolute \<and> sz = 16 then Ok R_386_16 else
     if kind = K_Relative \<and> sz = 16 then Ok R_386_PC16 else
     if kind = K_Absolute \<and> sz = 8 then Ok R_386_8 else
     if kind = K_Relative \<and> sz = 8 then Ok R_386_PC8 else
     Err unimplemented_relocation)"

definition r_type_E2K32 :: "relocation_kind \<Rightarrow> relocation_encoding \<Rightarrow> u8 \<Rightarrow> (u32, string) result" where
  "r_type_E2K32 kind encoding sz =
    (if kind = K_Absolute \<and> encoding = E_Generic \<and> sz = 32 then Ok R_E2K_32_ABS else
     if kind = K_Absolute \<and> encoding = E_E2KLit \<and> sz = 64 then Ok R_E2K_64_ABS_LIT else
     if kind = K_Absolute \<and> encoding = E_Generic \<and> sz = 64 then Ok R_E2K_64_ABS else
     if kind = K_Relative \<and> encoding = E_E2KDisp \<and> sz = 28 then Ok R_E2K_DISP else
     if kind = K_Got \<and> sz = 32 then Ok R_E2K_GOT else
     Err unimplemented_relocation)"

definition r_type_X86_64 :: "relocation_kind \<Rightarrow> relocation_encoding \<Rightarrow> u8 \<Rightarrow> (u32, string) result" where
  "r_type_X86_64 kind encoding sz =
    (if kind = K_Absolute \<and> encoding = E_Generic \<and> sz = 64 then Ok R_X86_64_64 else
     if kind = K_Relative \<and> encoding = E_X86Branch \<and> sz = 32 then Ok R_X86_64_PLT32 else
     if kind = K_Relative \<and> sz = 32 then Ok R_X86_64_PC32 else
     if kind = K_Got \<and> sz = 32 then Ok R_X86_64_GOT32 else
     if kind = K_PltRelative \<and> sz = 32 then Ok R_X86_64_PLT32 else
     if kind = K_GotRelative \<and> sz = 32 then Ok R_X86_64_GOTPCREL else
     if kind = K_Absolute \<and> encoding = E_Generic \<and> sz = 32 then Ok R_X86_64_32 else
     if kind = K_Absolute \<and> encoding = E_X86Signed \<and> sz = 32 then Ok R_X86_64_32S else
     if kind = K_Absolute \<and> sz = 16 then Ok R_X86_64_16 else
     if kind = K_Relative \<and> sz = 16 then Ok R_X86_64_PC16 else
     if kind = K_Absolute \<and> sz = 8 then Ok R_X86_64_8 else
     if kind = K_Relative \<and> sz = 8 then Ok R_X86_64_PC8 else
     Err unimplemented_relocation)"

definition r_type_Hppa :: "relocation_kind \<Rightarrow> relocation_encoding \<Rightarrow> u8 \<Rightarrow> (u32, string) result" where
  "r_type_Hppa kind encoding sz =
    (if kind = K_Absolute \<and> sz = 32 then Ok R_PARISC_DIR32 else
     if kind = K_Relative \<and> sz = 32 then Ok R_PARISC_PCREL32 else
     Err unimplemented_relocation)"

definition r_type_Hexagon :: "relocation_kind \<Rightarrow> relocation_encoding \<Rightarrow> u8 \<Rightarrow> (u32, string) result" where
  "r_type_Hexagon kind encoding sz =
    (if kind = K_Absolute \<and> sz = 32 then Ok R_HEX_32 else
     Err unimplemented_relocation)"

definition r_type_LoongArch32 :: "relocation_kind \<Rightarrow> relocation_encoding \<Rightarrow> u8 \<Rightarrow> (u32, string) result" where
  "r_type_LoongArch32 kind encoding sz =
    (if kind = K_Absolute \<and> sz = 32 then Ok R_LARCH_32 else
     if kind = K_Absolute \<and> sz = 64 then Ok R_LARCH_64 else
     if kind = K_Relative \<and> sz = 32 then Ok R_LARCH_32_PCREL else
     if kind = K_Relative \<and> sz = 64 then Ok R_LARCH_64_PCREL else
     if kind = K_Relative \<and> encoding = E_LoongArchBranch \<and> sz = 16 then Ok R_LARCH_B16 else
     if kind = K_PltRelative \<and> encoding = E_LoongArchBranch \<and> sz = 16 then Ok R_LARCH_B16 else
     if kind = K_Relative \<and> encoding = E_LoongArchBranch \<and> sz = 21 then Ok R_LARCH_B21 else
     if kind = K_PltRelative \<and> encoding = E_LoongArchBranch \<and> sz = 21 then Ok R_LARCH_B21 else
     if kind = K_Relative \<and> encoding = E_LoongArchBranch \<and> sz = 26 then Ok R_LARCH_B26 else
     if kind = K_PltRelative \<and> encoding = E_LoongArchBranch \<and> sz = 26 then Ok R_LARCH_B26 else
     Err unimplemented_relocation)"

definition r_type_M68k :: "relocation_kind \<Rightarrow> relocation_encoding \<Rightarrow> u8 \<Rightarrow> (u32, string) result" where
  "r_type_M68k kind encoding sz =
    (if kind = K_Absolute \<and> sz = 8 then Ok R_68K_8 else
     if kind = K_Absolute \<and> sz = 16 then Ok R_68K_16 else
     if kind = K_Absolute \<and> sz = 32 then Ok R_68K_32 else
     if kind = K_Relative \<and> sz = 8 then Ok R_68K_PC8 else
     if kind = K_Relative \<and> sz = 16 then Ok R_68K_PC16 else
     if kind = K_Relative \<and> sz = 32 then Ok R_68K_PC32 else
     if kind = K_GotRelative \<and> sz = 8 then Ok R_68K_GOT8 else
     if kind = K_GotRelative \<and> sz = 16 then Ok R_68K_GOT16 else
     if kind = K_GotRelative \<and> sz = 32 then Ok R_68K_GOT32 else
     if kind = K_Got \<and> sz = 8 then Ok R_68K_GOT8O else
     if kind = K_Got \<and> sz = 16 then Ok R_68K_GOT16O else
     if kind = K_Got \<and> sz = 32 then Ok R_68K_GOT32O else
     if kind = K_PltRelative \<and> sz = 8 then Ok R_68K_PLT8 else
     if kind = K_PltRelative \<and> sz = 16 then Ok R_68K_PLT16 else
     if kind = K_PltRelative \<and> sz = 32 then Ok R_68K_PLT32 else
     Err unimplemented_relocation)"

definition r_type_Mips :: "relocation_kind \<Rightarrow> relocation_encoding \<Rightarrow> u8 \<Rightarrow> (u32, string) result" where
  "r_type_Mips kind encoding sz =
    (if kind = K_Absolute \<and> sz = 16 then Ok R_MIPS_16 else
     if kind = K_Absolute \<and> sz = 32 then Ok R_MIPS_32 else
     if kind = K_Absolute \<and> sz = 64 then Ok R_MIPS_64 else
     Err unimplemented_relocation)"

definition r_type_Msp430 :: "relocation_kind \<Rightarrow> relocation_encoding \<Rightarrow> u8 \<Rightarrow> (u32, string) result" where
  "r_type_Msp430 kind encoding sz =
    (if kind = K_Absolute \<and> sz = 32 then Ok R_MSP430_32 else
     if kind = K_Absolute \<and> sz = 16 then Ok R_MSP430_16_BYTE else
     Err unimplemented_relocation)"

definition r_type_PowerPc :: "relocation_kind \<Rightarrow> relocation_encoding \<Rightarrow> u8 \<Rightarrow> (u32, string) result" where
  "r_type_PowerPc kind encoding sz =
    (if kind = K_Absolute \<and> sz = 32 then Ok R_PPC_ADDR32 else
     Err unimplemented_relocation)"

definition r_type_PowerPc64 :: "relocation_kind \<Rightarrow> relocation_encoding \<Rightarrow> u8 \<Rightarrow> (u32, string) result" where
  "r_type_PowerPc64 kind encoding sz =
    (if kind = K_Absolute \<and> sz = 32 then Ok R_PPC64_ADDR32 else
     if kind = K_Absolute \<and> sz = 64 then Ok R_PPC64_ADDR64 else
     Err unimplemented_relocation)"

definition r_type_Riscv32 :: "relocation_kind \<Rightarrow> relocation_encoding \<Rightarrow> u8 \<Rightarrow> (u32, string) result" where
  "r_type_Riscv32 kind encoding sz =
    (if kind = K_Absolute \<and> sz = 32 then Ok R_RISCV_32 else
     if kind = K_Absolute \<and> sz = 64 then Ok R_RISCV_64 else
     if kind = K_Relative \<and> encoding = E_Generic \<and> sz = 32 then Ok R_RISCV_32_PCREL else
     Err unimplemented_relocation)"

definition r_type_S390x :: "relocation_kind \<Rightarrow> relocation_encoding \<Rightarrow> u8 \<Rightarrow> (u32, string) result" where
  "r_type_S390x kind encoding sz =
    (if kind = K_Absolute \<and> encoding = E_Generic \<and> sz = 8 then Ok R_390_8 else
     if kind = K_Absolute \<and> encoding = E_Generic \<and> sz = 16 then Ok R_390_16 else
     if kind = K_Absolute \<and> encoding = E_Generic \<and> sz = 32 then Ok R_390_32 else
     if kind = K_Absolute \<and> encoding = E_Generic \<and> sz = 64 then Ok R_390_64 else
     if kind = K_Relative \<and> encoding = E_Generic \<and> sz = 16 then Ok R_390_PC16 else
     if kind = K_Relative \<and> encoding = E_Generic \<and> sz = 32 then Ok R_390_PC32 else
     if kind = K_Relative \<and> encoding = E_Generic \<and> sz = 64 then Ok R_390_PC64 else
     if kind = K_Relative \<and> encoding = E_S390xDbl \<and> sz = 16 then Ok R_390_PC16DBL else
     if kind = K_Relative \<and> encoding = E_S390xDbl \<and> sz = 32 then Ok R_390_PC32DBL else
     if kind = K_PltRelative \<and> encoding = E_S390xDbl \<and> sz = 16 then Ok R_390_PLT16DBL else
     if kind = K_PltRelative \<and> encoding = E_S390xDbl \<and> sz = 32 then Ok R_390_PLT32DBL else
     if kind = K_Got \<and> encoding = E_Generic \<and> sz = 16 then Ok R_390_GOT16 else
     if kind = K_Got \<and> encoding = E_Generic \<and> sz = 32 then Ok R_390_GOT32 else
     if kind = K_Got \<and> encoding = E_Generic \<and> sz = 64 then Ok R_390_GOT64 else
     if kind = K_GotRelative \<and> encoding = E_S390xDbl \<and> sz = 32 then Ok R_390_GOTENT else
     if kind = K_GotBaseOffset \<and> encoding = E_Generic \<and> sz = 16 then Ok R_390_GOTOFF16 else
     if kind = K_GotBaseOffset \<and> encoding = E_Generic \<and> sz = 32 then Ok R_390_GOTOFF32 else
     if kind = K_GotBaseOffset \<and> encoding = E_Generic \<and> sz = 64 then Ok R_390_GOTOFF64 else
     if kind = K_GotBaseRelative \<and> encoding = E_Generic \<and> sz = 64 then Ok R_390_GOTPC else
     if kind = K_GotBaseRelative \<and> encoding = E_S390xDbl \<and> sz = 32 then Ok R_390_GOTPCDBL else
     Err unimplemented_relocation)"

definition r_type_Sbf :: "relocation_kind \<Rightarrow> relocation_encoding \<Rightarrow> u8 \<Rightarrow> (u32, string) result" where
  "r_type_Sbf kind encoding sz =
    (if kind = K_Absolute \<and> sz = 64 then Ok R_SBF_64_64 else
     if kind = K_Absolute \<and> sz = 32 then Ok R_SBF_64_32 else
     Err unimplemented_relocation)"

definition r_type_Sharc :: "relocation_kind \<Rightarrow> relocation_encoding \<Rightarrow> u8 \<Rightarrow> (u32, string) result" where
  "r_type_Sharc kind encoding sz =
    (if kind = K_Absolute \<and> encoding = E_SharcTypeA \<and> sz = 32 then Ok R_SHARC_ADDR32_V3 else
     if kind = K_Absolute \<and> encoding = E_Generic \<and> sz = 32 then Ok R_SHARC_ADDR_VAR_V3 else
     if kind = K_Relative \<and> encoding = E_SharcTypeA \<and> sz = 24 then Ok R_SHARC_PCRLONG_V3 else
     if kind = K_Relative \<and> encoding = E_SharcTypeA \<and> sz = 6 then Ok R_SHARC_PCRSHORT_V3 else
     if kind = K_Relative \<and> encoding = E_SharcTypeB \<and> sz = 6 then Ok R_SHARC_PCRSHORT_V3 else
     if kind = K_Absolute \<and> encoding = E_Generic \<and> sz = 16 then Ok R_SHARC_ADDR_VAR16_V3 else
     if kind = K_Absolute \<and> encoding = E_SharcTypeA \<and> sz = 16 then Ok R_SHARC_DATA16_V3 else
     if kind = K_Absolute \<and> encoding = E_SharcTypeB \<and> sz = 16 then Ok R_SHARC_DATA16_VISA_V3 else
     if kind = K_Absolute \<and> encoding = E_SharcTypeA \<and> sz = 24 then Ok R_SHARC_ADDR24_V3 else
     if kind = K_Absolute \<and> encoding = E_SharcTypeA \<and> sz = 6 then Ok R_SHARC_DATA6_V3 else
     if kind = K_Absolute \<and> encoding = E_SharcTypeB \<and> sz = 6 then Ok R_SHARC_DATA6_VISA_V3 else
     if kind = K_Absolute \<and> encoding = E_SharcTypeB \<and> sz = 7 then Ok R_SHARC_DATA7_VISA_V3 else
     Err unimplemented_relocation)"

definition r_type_Sparc :: "relocation_kind \<Rightarrow> relocation_encoding \<Rightarrow> u8 \<Rightarrow> (u32, string) result" where
  "r_type_Sparc kind encoding sz =
    (if kind = K_Absolute \<and> sz = 32 then Ok R_SPARC_UA32 else
     Err unimplemented_relocation)"

definition r_type_Sparc64 :: "relocation_kind \<Rightarrow> relocation_encoding \<Rightarrow> u8 \<Rightarrow> (u32, string) result" where
  "r_type_Sparc64 kind encoding sz =
    (if kind = K_Absolute \<and> sz = 32 then Ok R_SPARC_UA32 else
     if kind = K_Absolute \<and> sz = 64 then Ok R_SPARC_UA64 else
     Err unimplemented_relocation)"

definition r_type_SuperH :: "relocation_kind \<Rightarrow> relocation_encoding \<Rightarrow> u8 \<Rightarrow> (u32, string) result" where
  "r_type_SuperH kind encoding sz =
    (if kind = K_Absolute \<and> sz = 32 then Ok R_SH_DIR32 else
     if kind = K_Relative \<and> sz = 32 then Ok R_SH_REL32 else
     Err unimplemented_relocation)"

definition r_type_Xtensa :: "relocation_kind \<Rightarrow> relocation_encoding \<Rightarrow> u8 \<Rightarrow> (u32, string) result" where
  "r_type_Xtensa kind encoding sz =
    (if kind = K_Absolute \<and> sz = 32 then Ok R_XTENSA_32 else
     if kind = K_Relative \<and> encoding = E_Generic \<and> sz = 32 then Ok R_XTENSA_32_PCREL else
     Err unimplemented_relocation)"

definition elf_r_type :: "architecture \<Rightarrow> relocation_kind \<Rightarrow> relocation_encoding \<Rightarrow> u8 \<Rightarrow> (u32, string) result" where
  "elf_r_type architecture kind encoding sz =
    (case architecture of
       Aarch64 \<Rightarrow> r_type_Aarch64 kind encoding sz
     | Aarch64_Ilp32 \<Rightarrow> r_type_Aarch64_Ilp32 kind encoding sz
     | Alpha \<Rightarrow> r_type_Alpha kind encoding sz
     | Arm \<Rightarrow> r_type_Arm kind encoding sz
     | Avr \<Rightarrow> r_type_Avr kind encoding sz
     | Bpf \<Rightarrow> r_type_Bpf kind encoding sz
     | Csky \<Rightarrow> r_type_Csky kind encoding sz
     | I386 \<Rightarrow> r_type_I386 kind encoding sz
     | E2K32 \<Rightarrow> r_type_E2K32 kind encoding sz
     | E2K64 \<Rightarrow> r_type_E2K32 kind encoding sz
     | X86_64 \<Rightarrow> r_type_X86_64 kind encoding sz
     | X86_64_X32 \<Rightarrow> r_type_X86_64 kind encoding sz
     | Hppa \<Rightarrow> r_type_Hppa kind encoding sz
     | Hexagon \<Rightarrow> r_type_Hexagon kind encoding sz
     | LoongArch32 \<Rightarrow> r_type_LoongArch32 kind encoding sz
     | LoongArch64 \<Rightarrow> r_type_LoongArch32 kind encoding sz
     | M68k \<Rightarrow> r_type_M68k kind encoding sz
     | Mips \<Rightarrow> r_type_Mips kind encoding sz
     | Mips64 \<Rightarrow> r_type_Mips kind encoding sz
     | Mips64_N32 \<Rightarrow> r_type_Mips kind encoding sz
     | Msp430 \<Rightarrow> r_type_Msp430 kind encoding sz
     | PowerPc \<Rightarrow> r_type_PowerPc kind encoding sz
     | PowerPc64 \<Rightarrow> r_type_PowerPc64 kind encoding sz
     | Riscv32 \<Rightarrow> r_type_Riscv32 kind encoding sz
     | Riscv64 \<Rightarrow> r_type_Riscv32 kind encoding sz
     | S390x \<Rightarrow> r_type_S390x kind encoding sz
     | Sbf \<Rightarrow> r_type_Sbf kind encoding sz
     | Sharc \<Rightarrow> r_type_Sharc kind encoding sz
     | Sparc \<Rightarrow> r_type_Sparc kind encoding sz
     | Sparc32Plus \<Rightarrow> r_type_Sparc kind encoding sz
     | Sparc64 \<Rightarrow> r_type_Sparc64 kind encoding sz
     | SuperH \<Rightarrow> r_type_SuperH kind encoding sz
     | Xtensa \<Rightarrow> r_type_Xtensa kind encoding sz
     | _ \<Rightarrow> Err unimplemented_architecture)"

text \<open>Generic flags are replaced by the relocation type; other flags stay.\<close>

definition elf_translate_relocation :: "architecture \<Rightarrow> relocation_flags \<Rightarrow> (relocation_flags, string) result" where
  "elf_translate_relocation architecture flags =
    (case flags of
       RF_Generic kind encoding sz \<Rightarrow>
         and_then (elf_r_type architecture kind encoding sz) (\<lambda>r_type. Ok (RF_Elf r_type))
     | flags \<Rightarrow> Ok flags)"

definition elf_has_relocation_addend :: "architecture \<Rightarrow> (bool, string) result" where
  "elf_has_relocation_addend architecture =
    (case architecture of
       Aarch64 \<Rightarrow> Ok True
     | Aarch64_Ilp32 \<Rightarrow> Ok True
     | Alpha \<Rightarrow> Ok True
     | Arm \<Rightarrow> Ok False
     | Avr \<Rightarrow> Ok True
     | Bpf \<Rightarrow> Ok False
     | Csky \<Rightarrow> Ok True
     | E2K32 \<Rightarrow> Ok True
     | E2K64 \<Rightarrow> Ok True
     | I386 \<Rightarrow> Ok False
     | X86_64 \<Rightarrow> Ok True
     | X86_64_X32 \<Rightarrow> Ok True
     | Hppa \<Rightarrow> Ok False
     | Hexagon \<Rightarrow> Ok True
     | LoongArch32 \<Rightarrow> Ok True
     | LoongArch64 \<Rightarrow> Ok True
     | M68k \<Rightarrow> Ok True
     | Mips \<Rightarrow> Ok False
     | Mips64 \<Rightarrow> Ok True
     | Mips64_N32 \<Rightarrow> Ok True
     | Msp430 \<Rightarrow> Ok True
     | PowerPc \<Rightarrow> Ok True
     | PowerPc64 \<Rightarrow> Ok True
     | Riscv64 \<Rightarrow> Ok True
     | Riscv32 \<Rightarrow> Ok True
     | S390x \<Rightarrow> Ok True
     | Sbf \<Rightarrow> Ok False
     | Sharc \<Rightarrow> Ok True
     | Sparc \<Rightarrow> Ok True
     | Sparc32Plus \<Rightarrow> Ok True
     | Sparc64 \<Rightarrow> Ok True
     | SuperH \<Rightarrow> Ok False
     | Xtensa \<Rightarrow> Ok True
     | _ \<Rightarrow> Err unimplemented_architecture)"

definition elf_adjust_addend :: "architecture \<Rightarrow> (bool, string) result" where
  "elf_adjust_addend architecture =
    and_then (elf_has_relocation_addend architecture) (\<lambda>b. Ok (\<not> b))"

definition elf_relocation_size :: "architecture \<Rightarrow> relocation_flags \<Rightarrow> (u8, string) result" where
  "elf_relocation_size architecture flags =
    (case flags of
       RF_Elf r_type \<Rightarrow>
         and_then (case architecture of
            Arm \<Rightarrow>
             Ok (if r_type = R_ARM_ABS16 then Some 16 else
               if r_type = R_ARM_ABS32 \<or> r_type = R_ARM_REL32 then Some 32 else None)
         |  Bpf \<Rightarrow>
             Ok (if r_type = R_BPF_64_32 then Some 32 else
               if r_type = R_BPF_64_64 then Some 64 else None)
         |  I386 \<Rightarrow>
             Ok (if r_type = R_386_8 \<or> r_type = R_386_PC8 then Some 8 else
               if r_type = R_386_16 \<or> r_type = R_386_PC16 then Some 16 else
               if r_type = R_386_32 \<or> r_type = R_386_PC32 \<or> r_type = R_386_GOT32 \<or> r_type = R_386_PLT32 \<or> r_type = R_386_GOTOFF \<or> r_type = R_386_GOTPC then Some 32 else None)
         |  Mips \<Rightarrow>
             Ok (if r_type = R_MIPS_16 then Some 16 else
               if r_type = R_MIPS_32 then Some 32 else
               if r_type = R_MIPS_64 then Some 64 else None)
         |  Sbf \<Rightarrow>
             Ok (if r_type = R_SBF_64_32 then Some 32 else
               if r_type = R_SBF_64_64 then Some 64 else None)
         | _ \<Rightarrow> Err unimplemented_architecture) (\<lambda>sz.
         ok_or sz ''unsupported relocation for size'')
     | _ \<Rightarrow> Err ''invalid relocation flags'')"

definition elf_is_64 :: "architecture \<Rightarrow> (bool, string) result" where
  "elf_is_64 architecture =
    and_then (unwrap (Architecture_address_size architecture)) (\<lambda>s.
    Ok (case s of AS_U8 \<Rightarrow> False | AS_U16 \<Rightarrow> False | AS_U32 \<Rightarrow> False | AS_U64 \<Rightarrow> True))"

text \<open>The choice of \<^verbatim>\<open>e_machine\<close> in \<^verbatim>\<open>elf_write\<close>.\<close>

definition elf_e_machine :: "architecture \<Rightarrow> sub_architecture option \<Rightarrow> (u16, string) result" where
  "elf_e_machine architecture sub_architecture =
    (if sub_architecture \<noteq> None then Err unimplemented_architecture
     else (case architecture of
        Aarch64 \<Rightarrow> Ok EM_AARCH64
      | Aarch64_Ilp32 \<Rightarrow> Ok EM_AARCH64
      | Alpha \<Rightarrow> Ok EM_ALPHA
      | Arm \<Rightarrow> Ok EM_ARM
      | Avr \<Rightarrow> Ok EM_AVR
      | Bpf \<Rightarrow> Ok EM_BPF
      | Csky \<Rightarrow> Ok EM_CSKY
      | E2K32 \<Rightarrow> Ok EM_MCST_ELBRUS
      | E2K64 \<Rightarrow> Ok EM_MCST_ELBRUS
      | I386 \<Rightarrow> Ok EM_386
      | X86_64 \<Rightarrow> Ok EM_X86_64
      | X86_64_X32 \<Rightarrow> Ok EM_X86_64
      | Hppa \<Rightarrow> Ok EM_PARISC
      | Hexagon \<Rightarrow> Ok EM_HEXAGON
      | LoongArch32 \<Rightarrow> Ok EM_LOONGARCH
      | LoongArch64 \<Rightarrow> Ok EM_LOONGARCH
      | M68k \<Rightarrow> Ok EM_68K
      | Mips \<Rightarrow> Ok EM_MIPS
      | Mips64 \<Rightarrow> Ok EM_MIPS
      | Mips64_N32 \<Rightarrow> Ok EM_MIPS
      | Msp430 \<Rightarrow> Ok EM_MSP430
      | PowerPc \<Rightarrow> Ok EM_PPC
      | PowerPc64 \<Rightarrow> Ok EM_PPC64
      | Riscv32 \<Rightarrow> Ok EM_RISCV
      | Riscv64 \<Rightarrow> Ok EM_RISCV
      | S390x \<Rightarrow> Ok EM_S390
      | Sbf \<Rightarrow> Ok EM_SBF
      | Sharc \<Rightarrow> Ok EM_SHARC
      | Sparc \<Rightarrow> Ok EM_SPARC
      | Sparc32Plus \<Rightarrow> Ok EM_SPARC32PLUS
      | Sparc64 \<Rightarrow> Ok EM_SPARCV9
      | SuperH \<Rightarrow> Ok EM_SH
      | Xtensa \<Rightarrow> Ok EM_XTENSA
      | _ \<Rightarrow> Err unimplemented_architecture))"

end
