(* ===== verification/Elf_Relocation_Round_Trip.thy ===== *)
theory Elf_Relocation_Round_Trip
  imports Elf_Relocation_Types
begin

text \<open>
  The relocation types that the object writer chooses for an architecture, classified by the reader.
\<close>

section \<open>What the reader makes of a relocation that was written\<close>































lemma implicit_addend_size:
  assumes "elf_adjust_addend architecture = Ok True" "elf_r_type architecture kind encoding sz = Ok r_type"
  shows "elf_relocation_size architecture (RF_Elf r_type) =
    (if architecture = Hppa \<or> architecture = SuperH then Err unimplemented_architecture else Ok sz)"
  using assms
  by (cases architecture)
    (auto simp: elf_adjust_addend_def elf_has_relocation_addend_def elf_relocation_size_def elf_r_type_def
      r_type_Arm_def r_type_Bpf_def r_type_I386_def r_type_Mips_def r_type_Sbf_def split: if_splits)

section \<open>Properties\<close>



text \<open>C21: where addends are stored in the data, the size that the object writer computes for a relocation type it has chosen is the size that was asked for, except on PA-RISC and SuperH, whose implicit addends it rejects as unimplemented.\<close>

theorem implicit_addends_have_size:
  assumes "elf_adjust_addend architecture = Ok True"
    and "elf_translate_relocation architecture (RF_Generic kind encoding sz) = Ok flags"
  shows "elf_relocation_size architecture flags =
    (if architecture = Hppa \<or> architecture = SuperH then Err unimplemented_architecture else Ok sz)"
proof -
  obtain r_type where "elf_r_type architecture kind encoding sz = Ok r_type" "flags = RF_Elf r_type"
    using assms(2) by (auto simp: elf_translate_relocation_def res_simps)
  then show ?thesis using implicit_addend_size [OF assms(1)] by simp
qed

theorem implicit_addends_have_size_witness:
  "elf_relocation_size SuperH (RF_Elf R_SH_DIR32) = Err unimplemented_architecture \<and>
   elf_relocation_size I386 (RF_Elf R_386_PC16) = Ok 16"
  using implicit_addends_have_size [of SuperH K_Absolute E_Generic 32 "RF_Elf R_SH_DIR32"]
    implicit_addends_have_size [of I386 K_Relative E_Generic 16 "RF_Elf R_386_PC16"]
  by (simp add: elf_adjust_addend_def elf_has_relocation_addend_def elf_translate_relocation_def
      elf_r_type_def r_type_SuperH_def r_type_I386_def)

end
