(* ===== verification/Elf_Crel.thy ===== *)
theory Elf_Crel
  imports Elf_Reader Leb128 Iterators
begin

text \<open>
  \<^verbatim>\<open>src/read/elf/relocation.rs\<close>: the entries of relocation sections. \<^verbatim>\<open>Crel\<close> is the common form of
  the three formats \<^verbatim>\<open>SHT_REL\<close>, \<^verbatim>\<open>SHT_RELA\<close> and \<^verbatim>\<open>SHT_CREL\<close>; \<^verbatim>\<open>CrelIterator\<close> decodes the compact
  format, and \<^verbatim>\<open>RelrIterator\<close> expands the bit masks of \<^verbatim>\<open>SHT_RELR\<close>.

  The two classes differ in the associated types of \<^verbatim>\<open>FileHeader\<close>: the record \<open>rel_types\<close>.
\<close>

section \<open>The associated types\<close>

record 'w rel_types =
  rel_size :: nat
  rela_size :: nat
  rel_sym :: "'w \<Rightarrow> u32"
  rel_type :: "'w \<Rightarrow> u32"
  rela_sym :: "bool \<Rightarrow> 'w \<Rightarrow> u32"
  rela_type :: "bool \<Rightarrow> 'w \<Rightarrow> u32"
  relr_count :: nat
  relr_step :: 'w

definition Rel32 :: "u32 rel_types" where
  "Rel32 = \<lparr>rel_size = 8, rela_size = 12, rel_sym = Rel32_r_sym, rel_type = Rel32_r_type,
     rela_sym = (\<lambda>_. Rel32_r_sym), rela_type = (\<lambda>_. Rel32_r_type), relr_count = 31, relr_step = 4\<rparr>"

definition Rel64 :: "u64 rel_types" where
  "Rel64 = \<lparr>rel_size = 16, rela_size = 24, rel_sym = Rel64_r_sym, rel_type = Rel64_r_type,
     rela_sym = Rela64_r_sym, rela_type = Rela64_r_type, relr_count = 63, relr_step = 8\<rparr>"

section \<open>Crel\<close>

record crel =
  crel_offset :: u64
  crel_sym :: u32
  crel_type :: u32
  crel_addend :: i64

definition Crel_symbol :: "crel \<Rightarrow> nat option" where
  "Crel_symbol self = (if crel_sym self = 0 then None else Some (unat (crel_sym self)))"

definition Crel_from_rel :: "'w::len word rel_types \<Rightarrow> endianness \<Rightarrow> bytes \<Rightarrow> crel" where
  "Crel_from_rel T e r =
    (let r = decode_rel e r :: 'w word rel_entry in
     \<lparr>crel_offset = ucast (rel_r_offset r), crel_sym = rel_sym T (rel_r_info r),
      crel_type = rel_type T (rel_r_info r), crel_addend = 0\<rparr>)"

definition Crel_from_rela :: "'w::len word rel_types \<Rightarrow> endianness \<Rightarrow> bool \<Rightarrow> bytes \<Rightarrow> crel" where
  "Crel_from_rela T e mips r =
    (let r = decode_rela e r :: 'w word rela_entry in
     \<lparr>crel_offset = ucast (rela_r_offset r), crel_sym = rela_sym T mips (rela_r_info r),
      crel_type = rela_type T mips (rela_r_info r), crel_addend = scast (rela_r_addend r)\<rparr>)"

section \<open>CrelIterator\<close>

record crel_header =
  ch_count :: usize
  ch_flag_bits :: u64
  ch_shift :: u64
  ch_is_rela :: bool

record crel_state =
  cs_index :: usize
  cs_offset :: u64
  cs_addend :: i64
  cs_symidx :: u32
  cs_typ :: u32

record crel_iterator =
  ci_data :: bytes
  ci_header :: crel_header
  ci_state :: crel_state

definition CrelIterator_new :: "bytes \<Rightarrow> (crel_iterator, string) result" where
  "CrelIterator_new data =
    (case read_uleb128 data of (r, data) \<Rightarrow>
      and_then (read_error r ''Invalid ELF CREL header'') (\<lambda>header.
      let cnt = drop_bit 3 header;
          flag_bits = (if header AND 4 \<noteq> 0 then 3 else 2);
          shift = header AND 3;
          is_rela = (header AND 4 \<noteq> 0) in
      Ok \<lparr>ci_data = data,
         ci_header = \<lparr>ch_count = unat cnt, ch_flag_bits = flag_bits, ch_shift = shift, ch_is_rela = is_rela\<rparr>,
         ci_state = \<lparr>cs_index = 0, cs_offset = 0, cs_addend = 0, cs_symidx = 0, cs_typ = 0\<rparr>\<rparr>))"

definition CrelIterator_is_rela :: "crel_iterator \<Rightarrow> bool" where
  "CrelIterator_is_rela self = ch_is_rela (ci_header self)"

definition CrelIterator_len :: "crel_iterator \<Rightarrow> (nat, string) result" where
  "CrelIterator_len self = usize_sub (ch_count (ci_header self)) (cs_index (ci_state self))"

definition CrelIterator_is_empty :: "crel_iterator \<Rightarrow> bool" where
  "CrelIterator_is_empty self \<longleftrightarrow> ch_count (ci_header self) = cs_index (ci_state self)"

text \<open>Reading from \<^verbatim>\<open>self.data\<close> with an error message.\<close>

definition crel_read :: "'a cursor \<Rightarrow> string \<Rightarrow> crel_iterator \<Rightarrow> ('a, string) result \<times> crel_iterator" where
  "crel_read m msg self = (case m (ci_data self) of (r, data) \<Rightarrow> (read_error r msg, self\<lparr>ci_data := data\<rparr>))"

definition crel_update :: "(crel_state \<Rightarrow> crel_state) \<Rightarrow> crel_iterator \<Rightarrow> (unit, string) result \<times> crel_iterator" where
  "crel_update f self = (Ok (), self\<lparr>ci_state := f (ci_state self)\<rparr>)"

text \<open>
  The first byte holds the flags, the low bits of the delta offset and the continuation bit; the
  rest of the delta offset follows as LEB128.
\<close>

definition crel_delta_offset :: "u8 \<Rightarrow> nat \<Rightarrow> crel_iterator \<Rightarrow> (u64, string) result \<times> crel_iterator" where
  "crel_delta_offset byte flag_bits =
    state_then (state_lift (word_shr (ucast (byte AND 0x7f)) flag_bits)) (\<lambda>delta_offset.
    if byte AND 0x80 \<noteq> 0 then
      state_then (crel_read read_uleb128 ''Cannot read offset and flags of CREL relocation'') (\<lambda>v.
      state_lift (and_then (usize_sub 7 flag_bits) (\<lambda>s. and_then (word_shl v s) (\<lambda>v. Ok (delta_offset OR v)))))
    else state_lift (Ok delta_offset))"

text \<open>An optional delta of the symbol index, the type or the addend.\<close>

definition crel_delta :: "bool \<Rightarrow> string \<Rightarrow> (i64 \<Rightarrow> crel_state \<Rightarrow> crel_state) \<Rightarrow> crel_iterator \<Rightarrow>
    (unit, string) result \<times> crel_iterator" where
  "crel_delta present msg update =
    (if present then state_then (crel_read read_sleb128 msg) (\<lambda>delta. crel_update (update delta))
     else state_lift (Ok ()))"

text \<open>The body of \<^verbatim>\<open>parse\<close> for the header of the iterator, which stays as it is.\<close>

definition crel_parse_with :: "crel_header \<Rightarrow> crel_iterator \<Rightarrow> (crel, string) result \<times> crel_iterator" where
  "crel_parse_with header =
    (let flag_bits = unat (ch_flag_bits header) in
     state_then (crel_read (Bytes_read 1) ''Cannot read offset and flags of CREL relocation'') (\<lambda>bytes.
     let byte = hd bytes in
     state_then (state_lift (and_then (word_shl (1 :: u8) flag_bits) (\<lambda>b. word_sub b 1))) (\<lambda>m.
     let flags = byte AND m in
     state_then (crel_delta_offset byte flag_bits) (\<lambda>delta_offset.
     state_then (crel_update (\<lambda>s. s\<lparr>cs_offset := cs_offset s + delta_offset\<rparr>)) (\<lambda>_.
     state_then (crel_delta (flags AND 1 \<noteq> 0) ''Cannot read symidx of CREL relocation''
       (\<lambda>delta s. s\<lparr>cs_symidx := cs_symidx s + ucast delta\<rparr>)) (\<lambda>_.
     state_then (crel_delta (flags AND 2 \<noteq> 0) ''Cannot read type of CREL relocation''
       (\<lambda>delta s. s\<lparr>cs_typ := cs_typ s + ucast delta\<rparr>)) (\<lambda>_.
     state_then (crel_delta (ch_is_rela header \<and> flags AND 4 \<noteq> 0) ''Cannot read addend of CREL relocation''
       (\<lambda>delta s. s\<lparr>cs_addend := cs_addend s + delta\<rparr>)) (\<lambda>_ self.
     (and_then (usize_add (cs_index (ci_state self)) 1) (\<lambda>_.
      and_then (word_shl (cs_offset (ci_state self)) (unat (ch_shift header))) (\<lambda>offset.
        Ok \<lparr>crel_offset = offset, crel_sym = cs_symidx (ci_state self),
          crel_type = cs_typ (ci_state self), crel_addend = cs_addend (ci_state self)\<rparr>)),
      self\<lparr>ci_state := (ci_state self)\<lparr>cs_index := cs_index (ci_state self) + 1\<rparr>\<rparr>)))))))))"

definition CrelIterator_parse :: "crel_iterator \<Rightarrow> (crel, string) result \<times> crel_iterator" where
  "CrelIterator_parse self = crel_parse_with (ci_header self) self"

text \<open>\<^verbatim>\<open>None\<close> is \<open>Ok None\<close>, and \<^verbatim>\<open>Some(result)\<close> is the result.\<close>

definition CrelIterator_next :: "crel_iterator \<Rightarrow> (crel option, string) result \<times> crel_iterator" where
  "CrelIterator_next self =
    (if ch_count (ci_header self) \<le> cs_index (ci_state self) then (Ok None, self)
     else (case CrelIterator_parse self of
         (Ok c, self) \<Rightarrow> (Ok (Some c), self)
       | (Err e, self) \<Rightarrow> (Err e, self\<lparr>ci_state := (ci_state self)\<lparr>cs_index := ch_count (ci_header self)\<rparr>\<rparr>)
       | (Panic, self) \<Rightarrow> (Panic, self)))"

section \<open>RelrIterator\<close>

record 'w relr_iterator =
  ri_offset :: 'w
  ri_bits :: 'w
  ri_count :: nat
  ri_iter :: "bytes list"
  ri_endian :: endianness

definition RelrIterator_new :: "endianness \<Rightarrow> bytes list \<Rightarrow> 'w::len word relr_iterator" where
  "RelrIterator_new e data = \<lparr>ri_offset = 0, ri_bits = 0, ri_count = 0, ri_iter = data, ri_endian = e\<rparr>"

text \<open>\<^verbatim>\<open>Relr::next\<close>: the new offset and bit mask, and the offset when the next bit is set.\<close>

definition Relr_next :: "'w::len word rel_types \<Rightarrow> 'w word \<Rightarrow> 'w word \<Rightarrow>
    ('w word option \<times> 'w word \<times> 'w word, string) result" where
  "Relr_next T offset bits =
    and_then (word_add offset (relr_step T)) (\<lambda>offset.
    let bits = drop_bit 1 bits in
    Ok (if bits AND 1 \<noteq> 0 then Some offset else None, offset, bits))"

text \<open>The inner loop over the bits and the outer loop over the entries are one recursion.\<close>

function RelrIterator_next :: "'w::len word rel_types \<Rightarrow> 'w word relr_iterator \<Rightarrow>
    ('w word option, string) result \<times> 'w word relr_iterator" where
  "RelrIterator_next T self =
    (if ri_count self > 0 then
       let self = self\<lparr>ri_count := ri_count self - 1\<rparr> in
       case Relr_next T (ri_offset self) (ri_bits self) of
         Ok (r, offset, bits) \<Rightarrow>
           let self = self\<lparr>ri_offset := offset, ri_bits := bits\<rparr> in
           (case r of Some a \<Rightarrow> (Ok (Some a), self) | None \<Rightarrow> RelrIterator_next T self)
       | Err e \<Rightarrow> (Err e, self)
       | Panic \<Rightarrow> (Panic, self)
     else
       case ri_iter self of
         [] \<Rightarrow> (Ok None, self)
       | r # iter \<Rightarrow>
           let self = self\<lparr>ri_iter := iter\<rparr>; entry = U_get r (ri_endian self) in
           if entry AND 1 = 0 then (Ok (Some entry), self\<lparr>ri_offset := entry\<rparr>)
           else RelrIterator_next T (self\<lparr>ri_bits := entry, ri_count := relr_count T\<rparr>))"
  by pat_completeness auto
termination
  by (relation "measures [\<lambda>(T, self). length (ri_iter self), \<lambda>(T, self). ri_count self]") auto

declare RelrIterator_next.simps [simp del]

section \<open>The expansion of relative relocations\<close>

text \<open>
  The reference: an even entry is an offset, an odd entry is a bit mask over the words that follow
  the last offset.
\<close>

definition relr_mask :: "'w::len word rel_types \<Rightarrow> nat \<Rightarrow> 'w word \<Rightarrow> 'w word \<Rightarrow> 'w word list" where
  "relr_mask T n base bits = map (\<lambda>i. base + word_of_nat i * relr_step T) (filter (bit bits) [1..<Suc n])"

fun relr_expand :: "'w::len word rel_types \<Rightarrow> 'w word \<Rightarrow> 'w word list \<Rightarrow> 'w word list" where
  "relr_expand T base [] = []"
| "relr_expand T base (w # ws) =
    (if even w then w # relr_expand T w ws
     else relr_mask T (relr_count T) base w @
       relr_expand T (base + word_of_nat (relr_count T) * relr_step T) ws)"

text \<open>The offsets that the masks can reach stay below the size of the address space.\<close>

fun relr_fits :: "'w::len word rel_types \<Rightarrow> nat \<Rightarrow> 'w word list \<Rightarrow> bool" where
  "relr_fits T base [] = True"
| "relr_fits T base (w # ws) =
    (if even w then relr_fits T (unat w) ws
     else base + relr_count T * unat (relr_step T) < 2 ^ LENGTH('w) \<and>
       relr_fits T (base + relr_count T * unat (relr_step T)) ws)"

definition relr_view :: "'w::len word rel_types \<Rightarrow> 'w word relr_iterator \<Rightarrow> 'w word list" where
  "relr_view T it = relr_mask T (ri_count it) (ri_offset it) (ri_bits it) @
    relr_expand T (ri_offset it + word_of_nat (ri_count it) * relr_step T)
      (map (\<lambda>r. U_get r (ri_endian it)) (ri_iter it))"

definition relr_inv :: "'w::len word rel_types \<Rightarrow> 'w word relr_iterator \<Rightarrow> bool" where
  "relr_inv T it \<longleftrightarrow> unat (ri_offset it) + ri_count it * unat (relr_step T) < 2 ^ LENGTH('w) \<and>
    relr_fits T (unat (ri_offset it) + ri_count it * unat (relr_step T))
      (map (\<lambda>r. U_get r (ri_endian it)) (ri_iter it))"

lemma relr_mask_0 [simp]: "relr_mask T 0 base bits = []"
  by (simp add: relr_mask_def)

lemma relr_mask_Suc:
  "relr_mask T (Suc n) base bits =
    (if bit bits 1 then [base + relr_step T] else []) @ relr_mask T n (base + relr_step T) (drop_bit 1 bits)"
proof -
  have "[1..<Suc (Suc n)] = 1 # map Suc [1..<Suc n]"
    by (simp add: map_Suc_upt upt_conv_Cons del: upt_Suc)
  then show ?thesis
    by (simp add: relr_mask_def filter_map o_def bit_drop_bit_eq algebra_simps del: upt_Suc)
qed

lemma and_1_iff: "w AND 1 = 0 \<longleftrightarrow> even w" for w :: "'w::len word"
  by (simp add: and_one_eq mod_2_eq_odd)

lemma Relr_next_ok:
  fixes offset bits :: "'w::len word"
  assumes "unat offset + Suc n * unat (relr_step T) < 2 ^ LENGTH('w)"
  shows "Relr_next T offset bits =
      Ok (if bit bits 1 then Some (offset + relr_step T) else None, offset + relr_step T, drop_bit 1 bits)"
    and "unat (offset + relr_step T) = unat offset + unat (relr_step T)"
proof -
  have less: "unat offset + unat (relr_step T) < 2 ^ LENGTH('w)" using assms by simp
  then show "unat (offset + relr_step T) = unat offset + unat (relr_step T)"
    by (rule unat_add_no_overflow)
  have "drop_bit 1 bits AND 1 \<noteq> 0 \<longleftrightarrow> bit bits 1"
    unfolding and_1_iff by (simp flip: bit_0 add: bit_drop_bit_eq)
  then show "Relr_next T offset bits =
      Ok (if bit bits 1 then Some (offset + relr_step T) else None, offset + relr_step T, drop_bit 1 bits)"
    using less by (simp add: Relr_next_def word_add_def Let_def)
qed

lemma RelrIterator_next_view:
  assumes "relr_inv T it"
  shows "case relr_view T it of [] \<Rightarrow> fst (RelrIterator_next T it) = Ok None
    | a # as \<Rightarrow> \<exists>it'. RelrIterator_next T it = (Ok (Some a), it') \<and> relr_inv T it' \<and> relr_view T it' = as"
  using assms
proof (induction T it rule: RelrIterator_next.induct)
  case (1 T it)
  show ?case
  proof (cases "ri_count it")
    case 0
    show ?thesis
    proof (cases "ri_iter it")
      case Nil
      then show ?thesis using 0 by (simp add: relr_view_def RelrIterator_next.simps [of T it])
    next
      case (Cons r rs)
      let ?w = "U_get r (ri_endian it) :: 'a word"
      show ?thesis
      proof (cases "even ?w")
        case True
        then have "RelrIterator_next T it = (Ok (Some ?w), it\<lparr>ri_iter := rs, ri_offset := ?w\<rparr>)"
          using 0 Cons by (simp add: RelrIterator_next.simps [of T it] and_1_iff Let_def)
        then show ?thesis using 0 Cons True 1(3) by (simp add: relr_view_def relr_inv_def)
      next
        case False
        let ?it = "it\<lparr>ri_iter := rs, ri_bits := ?w, ri_count := relr_count T\<rparr>"
        have "RelrIterator_next T it = RelrIterator_next T ?it"
          using 0 Cons False by (simp add: RelrIterator_next.simps [of T it] and_1_iff Let_def)
        moreover have "relr_inv T ?it" "relr_view T ?it = relr_view T it"
          using 0 Cons False 1(3) by (simp_all add: relr_view_def relr_inv_def)
        ultimately show ?thesis
          using 1(2) [OF _ Cons refl refl] 0 False by (simp add: and_1_iff split: list.splits)
      qed
    qed
  next
    case (Suc n)
    note step = Relr_next_ok [of "ri_offset it" n T]
    let ?it = "it\<lparr>ri_count := n, ri_offset := ri_offset it + relr_step T, ri_bits := drop_bit 1 (ri_bits it)\<rparr>"
    have fits: "unat (ri_offset it) + Suc n * unat (relr_step T) < 2 ^ LENGTH('a)"
      using 1(3) Suc by (simp add: relr_inv_def)
    have inv: "relr_inv T ?it"
      using 1(3) Suc step(2) [OF fits] by (simp add: relr_inv_def algebra_simps)
    have view: "relr_view T it = (if bit (ri_bits it) 1 then [ri_offset it + relr_step T] else []) @ relr_view T ?it"
      using Suc by (simp add: relr_view_def relr_mask_Suc algebra_simps)
    show ?thesis
    proof (cases "bit (ri_bits it) 1")
      case True
      then have "RelrIterator_next T it = (Ok (Some (ri_offset it + relr_step T)), ?it)"
        using Suc by (simp add: RelrIterator_next.simps [of T it] step(1) [OF fits] Let_def)
      then show ?thesis using True inv view by simp
    next
      case False
      then have "RelrIterator_next T it = RelrIterator_next T ?it"
        using Suc by (simp add: RelrIterator_next.simps [of T it] step(1) [OF fits] Let_def)
      moreover have "case relr_view T ?it of [] \<Rightarrow> fst (RelrIterator_next T ?it) = Ok None
        | a # as \<Rightarrow> \<exists>it'. RelrIterator_next T ?it = (Ok (Some a), it') \<and> relr_inv T it' \<and> relr_view T it' = as"
        using 1(1) [of "it\<lparr>ri_count := n\<rparr>" _ None "(ri_offset it + relr_step T, drop_bit 1 (ri_bits it))"] False inv
        by (simp add: Suc step(1) [OF fits])
      ultimately show ?thesis using False view by (simp split: list.splits)
    qed
  qed
qed

interpretation relr_iter: iterator_view "RelrIterator_next T" "relr_view T" "relr_inv T"
  for T :: "'w::len word rel_types"
proof
  fix it :: "'w word relr_iterator"
  assume inv: "relr_inv T it"
  note step = RelrIterator_next_view [OF inv]
  show "relr_view T it = [] \<Longrightarrow> fst (RelrIterator_next T it) = Ok None" using step by simp
  show "relr_view T it = a # as \<Longrightarrow> \<exists>it'. RelrIterator_next T it = (Ok (Some a), it') \<and>
    relr_inv T it' \<and> relr_view T it' = as" for a as using step by simp
qed

section \<open>The compact iterator ends\<close>

definition crel_header_ok :: "crel_header \<Rightarrow> bool" where
  "crel_header_ok h \<longleftrightarrow> ch_flag_bits h = (if ch_is_rela h then 3 else 2) \<and> unat (ch_shift h) < 4 \<and>
    ch_count h \<le> usize_max"

definition crel_iterator_ok :: "crel_iterator \<Rightarrow> bool" where
  "crel_iterator_ok self \<longleftrightarrow> crel_header_ok (ci_header self)"

definition crel_at :: "crel_header \<Rightarrow> nat \<Rightarrow> crel_iterator \<Rightarrow> bool" where
  "crel_at h i self \<longleftrightarrow> ci_header self = h \<and> cs_index (ci_state self) = i"

lemma crel_read_triple:
  assumes "\<And>data. fst (m data) \<noteq> Panic"
  shows "triple (\<lambda>s. ci_header s = h) (crel_at h i) (crel_read m msg) (\<lambda>_. crel_at h i)"
  unfolding triple_def
proof (intro allI impI)
  fix s assume "crel_at h i s"
  then show "fst (crel_read m msg s) \<noteq> Panic \<and> (\<forall>a s'. crel_read m msg s = (Ok a, s') \<longrightarrow> crel_at h i s') \<and>
    (\<forall>e s'. crel_read m msg s = (Err e, s') \<longrightarrow> ci_header s' = h)"
    using assms [of "ci_data s"] by (auto simp: crel_read_def crel_at_def res_simps split: prod.splits)
qed

lemma crel_update_triple:
  assumes "\<And>s. cs_index s = i \<Longrightarrow> cs_index (f s) = j"
  shows "triple E (crel_at h i) (crel_update f) (\<lambda>_. crel_at h j)"
  using assms by (auto simp: triple_def crel_update_def crel_at_def)

lemma crel_delta_triple:
  assumes "\<And>d s. cs_index (update d s) = cs_index s"
  shows "triple (\<lambda>s. ci_header s = h) (crel_at h i) (crel_delta present msg update) (\<lambda>_. crel_at h i)"
  unfolding crel_delta_def using assms
  by (intro triple_if triple_then [OF crel_read_triple [OF read_sleb128_no_panic]] crel_update_triple triple_lift)
    simp_all

lemma crel_delta_offset_triple:
  assumes "n = 2 \<or> n = 3"
  shows "triple (\<lambda>s. ci_header s = h) (crel_at h i) (crel_delta_offset byte n) (\<lambda>_. crel_at h i)"
  unfolding crel_delta_offset_def using assms
  by (intro triple_then [OF triple_lift [where Q = "\<lambda>_. crel_at h i"]] triple_if
      triple_then [OF crel_read_triple [OF read_uleb128_no_panic]] triple_lift)
    (auto simp: word_shr_def word_shl_def usize_sub_def)

lemma crel_parse_with_triple:
  assumes "crel_header_ok h" "i < ch_count h"
  shows "triple (\<lambda>s. ci_header s = h) (crel_at h i) (crel_parse_with h) (\<lambda>_. crel_at h (Suc i))"
proof -
  have bits: "unat (ch_flag_bits h) = 2 \<or> unat (ch_flag_bits h) = 3" "unat (ch_shift h) < 64" "Suc i \<le> usize_max"
    using assms by (auto simp: crel_header_ok_def)
  let ?t = "triple (\<lambda>s. ci_header s = h) (crel_at h i)"
  have "?t (state_lift (and_then (word_shl (1 :: u8) (unat (ch_flag_bits h))) (\<lambda>b. word_sub b 1))) (\<lambda>_. crel_at h i)"
    using bits(1) by (intro triple_lift) (auto simp: word_shl_def word_sub_def word_le_nat_alt)
  moreover have "?t (\<lambda>self.
     (and_then (usize_add (cs_index (ci_state self)) 1) (\<lambda>_.
      and_then (word_shl (cs_offset (ci_state self)) (unat (ch_shift h))) (\<lambda>offset. Ok (f self offset))),
      self\<lparr>ci_state := (ci_state self)\<lparr>cs_index := cs_index (ci_state self) + 1\<rparr>\<rparr>)) (\<lambda>_. crel_at h (Suc i))" for f
    using bits(2,3) by (auto simp: triple_def crel_at_def usize_add_def word_shl_def)
  ultimately show ?thesis
    unfolding crel_parse_with_def Let_def
    by (intro triple_then [OF crel_read_triple [OF Bytes_read_no_panic(2)]] triple_then [OF crel_delta_offset_triple [OF bits(1)]]
      triple_then [OF crel_update_triple [where j = i]] triple_then [OF crel_delta_triple]
      triple_then [where m = "state_lift _" and Q = "\<lambda>_. crel_at h i"]) simp_all
qed

definition crel_remaining :: "crel_iterator \<Rightarrow> nat" where
  "crel_remaining self = ch_count (ci_header self) - cs_index (ci_state self)"

interpretation crel_iter: fallible_iterator CrelIterator_next crel_remaining crel_iterator_ok
proof
  fix it :: crel_iterator
  show "crel_remaining it = 0 \<Longrightarrow> CrelIterator_next it = (Ok None, it)"
    by (simp add: crel_remaining_def CrelIterator_next_def)
  show "crel_remaining it' = 0" if "CrelIterator_next it = (Err e, it')" for e it'
    using that by (auto simp: crel_remaining_def CrelIterator_next_def split: if_splits prod.splits result.splits)
  show "crel_remaining it' = 0" if "CrelIterator_next it = (Ok None, it')" for it'
    using that by (auto simp: crel_remaining_def CrelIterator_next_def split: if_splits prod.splits result.splits)
  assume ok: "crel_iterator_ok it"
  let ?h = "ci_header it" and ?i = "cs_index (ci_state it)"
  obtain r it2 where parse: "crel_parse_with ?h it = (r, it2)" by fastforce
  have step: "r \<noteq> Panic" "r = Ok a \<Longrightarrow> crel_at ?h (Suc ?i) it2" "r = Err e \<Longrightarrow> ci_header it2 = ?h"
    if "?i < ch_count ?h" for a e
  proof -
    have "triple (\<lambda>s. ci_header s = ?h) (crel_at ?h ?i) (crel_parse_with ?h) (\<lambda>_. crel_at ?h (Suc ?i))"
      using crel_parse_with_triple [of ?h ?i] ok that by (simp add: crel_iterator_ok_def)
    moreover have "crel_at ?h ?i it" by (simp add: crel_at_def)
    ultimately show "r \<noteq> Panic" "r = Ok a \<Longrightarrow> crel_at ?h (Suc ?i) it2" "r = Err e \<Longrightarrow> ci_header it2 = ?h"
      unfolding triple_def using parse by (metis fst_conv)+
  qed
  have nxt: "CrelIterator_next it = (if ch_count ?h \<le> ?i then (Ok None, it)
      else case r of Ok c \<Rightarrow> (Ok (Some c), it2)
        | Err e \<Rightarrow> (Err e, it2\<lparr>ci_state := (ci_state it2)\<lparr>cs_index := ch_count (ci_header it2)\<rparr>\<rparr>)
        | Panic \<Rightarrow> (Panic, it2))"
    by (simp add: CrelIterator_next_def CrelIterator_parse_def parse split: result.splits)
  show "crel_remaining it' < crel_remaining it" if "CrelIterator_next it = (Ok (Some a), it')" for a it'
    using step(2) [of a] that unfolding nxt by (auto simp: crel_at_def crel_remaining_def split: if_splits result.splits)
  show "fst (CrelIterator_next it) \<noteq> Panic"
    using step(1) unfolding nxt by (cases "?i < ch_count ?h") (auto split: result.splits)
  show "crel_iterator_ok (snd (CrelIterator_next it))"
    using step ok unfolding nxt
    by (cases "?i < ch_count ?h"; cases r) (auto simp: crel_at_def crel_iterator_ok_def)
qed

section \<open>The compact encoding\<close>

text \<open>The reference encoder: every entry is the difference to the previous one.\<close>

definition crel_flags :: "bool \<Rightarrow> crel \<Rightarrow> crel \<Rightarrow> u8" where
  "crel_flags is_rela p c =
    (if crel_sym c \<noteq> crel_sym p then 1 else 0) OR (if crel_type c \<noteq> crel_type p then 2 else 0) OR
    (if is_rela \<and> crel_addend c \<noteq> crel_addend p then 4 else 0)"

definition crel_offset_image :: "nat \<Rightarrow> u8 \<Rightarrow> u64 \<Rightarrow> bytes" where
  "crel_offset_image n flags delta =
    (let low = flags OR push_bit n (ucast (take_bit (7 - n) delta)) in
     if drop_bit (7 - n) delta = 0 then [low] else (low OR 0x80) # uleb_enc (drop_bit (7 - n) delta))"

definition crel_delta_image :: "bool \<Rightarrow> i64 \<Rightarrow> bytes" where
  "crel_delta_image present delta = (if present then sleb_enc delta else [])"

definition crel_image :: "bool \<Rightarrow> nat \<Rightarrow> crel \<Rightarrow> crel \<Rightarrow> bytes" where
  "crel_image is_rela shift p c =
    crel_offset_image (if is_rela then 3 else 2) (crel_flags is_rela p c)
      (drop_bit shift (crel_offset c) - drop_bit shift (crel_offset p)) @
    crel_delta_image (crel_sym c \<noteq> crel_sym p) (scast (crel_sym c - crel_sym p)) @
    crel_delta_image (crel_type c \<noteq> crel_type p) (scast (crel_type c - crel_type p)) @
    crel_delta_image (is_rela \<and> crel_addend c \<noteq> crel_addend p) (crel_addend c - crel_addend p)"

fun crel_images :: "bool \<Rightarrow> nat \<Rightarrow> crel \<Rightarrow> crel list \<Rightarrow> bytes" where
  "crel_images is_rela shift p [] = []"
| "crel_images is_rela shift p (c # cs) = crel_image is_rela shift p c @ crel_images is_rela shift c cs"

definition crel_zero :: crel where
  "crel_zero = \<lparr>crel_offset = 0, crel_sym = 0, crel_type = 0, crel_addend = 0\<rparr>"

definition crel_section :: "bool \<Rightarrow> nat \<Rightarrow> crel list \<Rightarrow> bytes" where
  "crel_section is_rela shift cs =
    uleb_enc (word_of_nat (length cs * 8 + (if is_rela then 4 else 0) + shift)) @
    crel_images is_rela shift crel_zero cs"

text \<open>What the format can hold: offsets that are multiples, and no addends without the flag.\<close>

definition crel_ok :: "bool \<Rightarrow> nat \<Rightarrow> crel \<Rightarrow> bool" where
  "crel_ok is_rela shift c \<longleftrightarrow> take_bit shift (crel_offset c) = 0 \<and> (is_rela \<or> crel_addend c = 0)"

lemma crel_byte:
  fixes flags :: u8 and delta :: u64
  assumes "take_bit n flags = flags" "n \<le> 7"
  defines "low \<equiv> flags OR push_bit n (ucast (take_bit (7 - n) delta))"
  shows "low AND mask n = flags" "(low OR 0x80) AND mask n = flags"
    and "drop_bit n (ucast (low AND 0x7f)) = take_bit (7 - n) delta"
    and "drop_bit n (ucast ((low OR 0x80) AND 0x7f)) = take_bit (7 - n) delta"
    and "low AND 0x80 = 0" "(low OR 0x80) AND 0x80 \<noteq> 0"
proof -
  have f: "bit flags i \<Longrightarrow> i < n" for i using assms(1) by (metis bit_take_bit_iff)
  have b7: "\<not> bit low 7" using assms(2) f [of 7] by (auto simp: low_def bit_simps)
  then show "low AND 0x80 = 0" by (simp add: and_0x80_iff)
  show "(low OR 0x80) AND 0x80 \<noteq> 0" unfolding and_0x80_iff by (simp add: bit_simps bit_0x80)
  show *: "low AND mask n = flags"
    by (rule bit_word_eqI) (use f in \<open>auto simp: low_def bit_simps\<close>)
  show "(low OR 0x80) AND mask n = flags"
    unfolding * [symmetric] proof (rule bit_word_eqI)
    fix i assume "i < LENGTH(8)"
    show "bit ((low OR 0x80) AND mask n) i = bit (low AND mask n) i"
      using assms(2) bit_0x80(1) [of i] by (cases "i = 7") (auto simp: bit_and_iff bit_or_iff bit_mask_iff)
  qed
  show **: "drop_bit n (ucast (low AND 0x7f)) = take_bit (7 - n) delta"
    unfolding mask_numerals
    by (rule bit_word_eqI) (use f in \<open>auto simp: low_def bit_simps\<close>)
  then show "drop_bit n (ucast ((low OR 0x80) AND 0x7f)) = take_bit (7 - n) delta"
    by (simp add: or_0x80_and_0x7f)
qed

lemma join_halves: "take_bit n x OR push_bit n (drop_bit n x) = x" for x :: "'w::len word"
proof (rule bit_word_eqI)
  fix i assume "i < LENGTH('w)"
  then show "bit (take_bit n x OR push_bit n (drop_bit n x)) i = bit x i"
    by (cases "n \<le> i") (auto simp: bit_simps)
qed

lemma crel_delta_offset_image:
  fixes flags :: u8 and delta :: u64
  assumes "take_bit n flags = flags" "n = 2 \<or> n = 3"
  obtains byte tail where "crel_offset_image n flags delta = byte # tail"
    and "byte AND mask n = flags"
    and "\<And>self rest. crel_delta_offset byte n (self\<lparr>ci_data := tail @ rest\<rparr>) = (Ok delta, self\<lparr>ci_data := rest\<rparr>)"
proof -
  define low where "low = flags OR push_bit n (ucast (take_bit (7 - n) delta))"
  have n: "n \<le> 7" using assms(2) by auto
  note byte = crel_byte [OF assms(1) n, of delta, folded low_def]
  show ?thesis
  proof (cases "drop_bit (7 - n) delta = 0")
    case True
    then have "take_bit (7 - n) delta = delta" using join_halves [of "7 - n" delta] by simp
    then have "crel_delta_offset low n (self\<lparr>ci_data := [] @ rest\<rparr>) = (Ok delta, self\<lparr>ci_data := rest\<rparr>)" for self rest
      using assms(2) byte(3,5) by (auto simp: crel_delta_offset_def word_shr_def state_lift_def)
    moreover have "crel_offset_image n flags delta = low # []"
      using True by (simp add: crel_offset_image_def low_def Let_def)
    ultimately show ?thesis using that byte(1) by blast
  next
    case False
    have "crel_delta_offset (low OR 0x80) n (self\<lparr>ci_data := uleb_enc (drop_bit (7 - n) delta) @ rest\<rparr>)
        = (Ok delta, self\<lparr>ci_data := rest\<rparr>)" for self rest
    proof -
      have "crel_read read_uleb128 msg (self\<lparr>ci_data := uleb_enc (drop_bit (7 - n) delta) @ rest\<rparr>)
          = (Ok (drop_bit (7 - n) delta), self\<lparr>ci_data := rest\<rparr>)" for msg
        by (simp add: crel_read_def read_uleb128_enc)
      then show ?thesis
        using byte(4,6) assms(2) join_halves [of "7 - n" delta]
        by (auto simp: crel_delta_offset_def word_shr_def word_shl_def usize_sub_def state_then_simps(1) state_lift_def)
    qed
    moreover have "crel_offset_image n flags delta = (low OR 0x80) # uleb_enc (drop_bit (7 - n) delta)"
      using False by (simp add: crel_offset_image_def low_def Let_def)
    ultimately show ?thesis using that byte(2) by blast
  qed
qed

lemma crel_delta_image_read:
  "crel_delta present msg update (self\<lparr>ci_data := crel_delta_image present d @ rest\<rparr>) =
    (Ok (), self\<lparr>ci_data := rest, ci_state := (if present then update d (ci_state self) else ci_state self)\<rparr>)"
  by (simp add: crel_delta_def crel_delta_image_def state_then_def crel_read_def read_sleb128_enc
      crel_update_def state_lift_def)

lemma crel_flags_bits:
  "crel_flags is_rela p c AND 1 \<noteq> 0 \<longleftrightarrow> crel_sym c \<noteq> crel_sym p"
  "crel_flags is_rela p c AND 2 \<noteq> 0 \<longleftrightarrow> crel_type c \<noteq> crel_type p"
  "crel_flags is_rela p c AND 4 \<noteq> 0 \<longleftrightarrow> is_rela \<and> crel_addend c \<noteq> crel_addend p"
  "take_bit (if is_rela then 3 else 2) (crel_flags is_rela p c) = crel_flags is_rela p c"
  by (auto simp: crel_flags_def take_bit_eq_mask mask_eq_exp_minus_1)

text \<open>The state after an entry, relative to which the next one is encoded.\<close>

definition crel_state_of :: "nat \<Rightarrow> nat \<Rightarrow> crel \<Rightarrow> crel_state" where
  "crel_state_of shift i p = \<lparr>cs_index = i, cs_offset = drop_bit shift (crel_offset p), cs_addend = crel_addend p,
     cs_symidx = crel_sym p, cs_typ = crel_type p\<rparr>"

lemma crel_parse_image:
  assumes h: "crel_header_ok h" "unat (ch_shift h) = shift" "i < ch_count h"
    and ok: "crel_ok (ch_is_rela h) shift c" "crel_ok (ch_is_rela h) shift p"
  shows "crel_parse_with h \<lparr>ci_data = crel_image (ch_is_rela h) shift p c @ rest, ci_header = h,
      ci_state = crel_state_of shift i p\<rparr> =
    (Ok c, \<lparr>ci_data = rest, ci_header = h, ci_state = crel_state_of shift (Suc i) c\<rparr>)"
proof -
  let ?n = "if ch_is_rela h then 3 else 2 :: nat" and ?flags = "crel_flags (ch_is_rela h) p c"
  let ?delta = "drop_bit shift (crel_offset c) - drop_bit shift (crel_offset p)"
  have bits: "unat (ch_flag_bits h) = ?n" "unat (ch_shift h) < 64" "Suc i \<le> usize_max"
    using h by (auto simp: crel_header_ok_def)
  have n23: "?n = 2 \<or> ?n = 3" by simp
  obtain byte tail where image: "crel_offset_image ?n ?flags ?delta = byte # tail" "byte AND mask ?n = ?flags"
    and offset: "\<And>self rest. crel_delta_offset byte ?n (self\<lparr>ci_data := tail @ rest\<rparr>) = (Ok ?delta, self\<lparr>ci_data := rest\<rparr>)"
    by (rule crel_delta_offset_image [OF crel_flags_bits(4) [of "ch_is_rela h" p c] n23, where delta = ?delta]) (rule that, assumption+)
  have m: "and_then (word_shl (1 :: u8) ?n) (\<lambda>b. word_sub b 1) = Ok (mask ?n)"
    by (simp add: word_shl_def word_sub_def mask_eq_exp_minus_1)
  have addend: "\<not> ch_is_rela h \<Longrightarrow> crel_addend p = crel_addend c" using ok by (simp add: crel_ok_def)
  have u32: "ucast (scast d :: i64) = d" for d :: u32
    by (rule bit_word_eqI) (simp add: bit_simps)
  have shifted: "push_bit shift (drop_bit shift (crel_offset c)) = crel_offset c"
    using ok(1) join_halves [of shift "crel_offset c"] by (simp add: crel_ok_def)
  let ?it = "\<lambda>d s. \<lparr>ci_data = d, ci_header = h, ci_state = s\<rparr>"
  have offset': "state_then (crel_delta_offset byte ?n) f (?it (tail @ d) s) = f ?delta (?it d s)" for d s
    and f :: "u64 \<Rightarrow> crel_iterator \<Rightarrow> (crel, string) result \<times> crel_iterator"
    using offset [of d "?it [] s"] by (simp add: state_then_def)
  have delta: "state_then (crel_delta present msg update) f (?it (crel_delta_image present d @ r) s) =
      f () (?it r (if present then update d s else s))" for present msg update d r s
    and f :: "unit \<Rightarrow> crel_iterator \<Rightarrow> (crel, string) result \<times> crel_iterator"
    using crel_delta_image_read [where self = "?it [] s"] by (simp add: state_then_def)
  have byte: "state_then (crel_read (Bytes_read 1) msg) f (?it (byte # d) s) = f [byte] (?it d s)" for msg d s
    and f :: "bytes \<Rightarrow> crel_iterator \<Rightarrow> (crel, string) result \<times> crel_iterator"
    using Bytes_read_append [of "[byte]" 1 d] by (simp add: crel_read_def state_then_def)
  have update: "state_then (crel_update g) f (?it d s) = f () (?it d (g s))" for g d s
    and f :: "unit \<Rightarrow> crel_iterator \<Rightarrow> (crel, string) result \<times> crel_iterator"
    by (simp add: crel_update_def state_then_def)
  show ?thesis
    unfolding crel_parse_with_def Let_def bits(1) crel_image_def image append_Cons append_assoc
    by (simp only: byte list.sel m state_then_lift_Ok image(2) offset' update crel_flags_bits conj_left_absorb delta crel_iterator.select_convs)
      (use bits(2,3) h(2) addend shifted u32 in \<open>auto simp: crel_state_of_def usize_add_def word_shl_def\<close>)
qed

lemma crel_drain_images:
  assumes "crel_header_ok h" "unat (ch_shift h) = shift" "ch_count h = i + length cs"
    and "\<forall>c \<in> set (p # cs). crel_ok (ch_is_rela h) shift c" "length cs < n"
  shows "drain CrelIterator_next n \<lparr>ci_data = crel_images (ch_is_rela h) shift p cs @ rest, ci_header = h,
      ci_state = crel_state_of shift i p\<rparr> = Some (Ok cs)"
  using assms(3-5)
proof (induction cs arbitrary: i p n)
  case Nil
  then show ?case by (cases n) (simp_all add: CrelIterator_next_def crel_state_of_def)
next
  case (Cons c cs)
  then obtain m where n: "n = Suc m" by (cases n) auto
  have "CrelIterator_next \<lparr>ci_data = crel_images (ch_is_rela h) shift p (c # cs) @ rest, ci_header = h,
      ci_state = crel_state_of shift i p\<rparr> =
    (Ok (Some c), \<lparr>ci_data = crel_images (ch_is_rela h) shift c cs @ rest, ci_header = h,
      ci_state = crel_state_of shift (Suc i) c\<rparr>)"
    using crel_parse_image [OF assms(1,2), of i c p "crel_images (ch_is_rela h) shift c cs @ rest"] Cons.prems(1,2)
    by (simp add: CrelIterator_next_def CrelIterator_parse_def crel_state_of_def)
  then show ?case using n Cons.IH [of "Suc i" c m] Cons.prems by simp
qed

definition crel_header_of :: "bool \<Rightarrow> nat \<Rightarrow> nat \<Rightarrow> crel_header" where
  "crel_header_of is_rela shift n = \<lparr>ch_count = n, ch_flag_bits = (if is_rela then 3 else 2),
     ch_shift = word_of_nat shift, ch_is_rela = is_rela\<rparr>"

lemma CrelIterator_new_section:
  fixes cs :: "crel list" and is_rela :: bool
  assumes "shift < 4" "length cs < 2 ^ 61"
  defines "h \<equiv> crel_header_of is_rela shift (length cs)"
  shows "CrelIterator_new (crel_section is_rela shift cs) =
      Ok \<lparr>ci_data = crel_images is_rela shift crel_zero cs, ci_header = h, ci_state = crel_state_of shift 0 crel_zero\<rparr>"
    and "crel_header_ok h" "unat (ch_shift h) = shift"
proof -
  define k where "k = (if is_rela then 4 else 0) + shift"
  define w where "w = (word_of_nat (length cs * 8 + k) :: u64)"
  have image: "crel_section is_rela shift cs = uleb_enc w @ crel_images is_rela shift crel_zero cs"
    by (simp add: crel_section_def w_def k_def add.assoc del: of_nat_add of_nat_mult)
  have k: "k < 8" using assms(1) by (simp add: k_def)
  have w: "unat w = length cs * 8 + k" using assms(2) k unfolding w_def by (simp add: unat_of_nat del: of_nat_add of_nat_mult)
  have "unat (drop_bit 3 w) = length cs" using k by (simp add: drop_bit_eq_div unat_div w)
  moreover have "w AND 3 = word_of_nat shift"
  proof -
    have "w AND 3 = take_bit 2 w" by (simp add: take_bit_eq_mask mask_eq_exp_minus_1)
    moreover have "(length cs * 8 + k) mod 4 = shift" using assms(1) by (cases is_rela) (auto simp: k_def, presburger+)
    ultimately show ?thesis
      using assms(1) by (simp add: word_unat_eq_iff take_bit_eq_mod unat_mod w unat_of_nat)
  qed
  moreover have "w AND 4 \<noteq> 0 \<longleftrightarrow> is_rela"
  proof -
    have "w AND 4 \<noteq> 0 \<longleftrightarrow> bit w 2" using bit_iff_and_push_bit_not_eq_0 [of w 2] by simp
    also have "\<dots> \<longleftrightarrow> odd (unat w div 4)" using bit_unsigned_iff [of w 2, where ?'a = nat] by (simp add: bit_iff_odd)
    also have "\<dots> \<longleftrightarrow> is_rela" using assms(1) unfolding w by (cases is_rela) (auto simp: k_def, presburger+)
    finally show ?thesis .
  qed
  ultimately show "CrelIterator_new (crel_section is_rela shift cs) =
      Ok \<lparr>ci_data = crel_images is_rela shift crel_zero cs, ci_header = h, ci_state = crel_state_of shift 0 crel_zero\<rparr>"
    unfolding CrelIterator_new_def image read_uleb128_enc
    by (simp add: h_def crel_header_of_def crel_state_of_def crel_zero_def)
  show "unat (ch_shift h) = shift" using assms(1) by (simp add: h_def crel_header_of_def unat_of_nat)
  then show "crel_header_ok h" using assms(1,2) by (simp add: crel_header_ok_def usize_max_def h_def crel_header_of_def)
qed

lemma CrelIterator_new_ok:
  assumes "CrelIterator_new data = Ok it"
  shows "crel_iterator_ok it"
proof -
  have "unat (header AND 3) < 4" "unat (drop_bit 3 header) \<le> usize_max" for header :: u64
  proof -
    have "header AND 3 = take_bit 2 header" by (simp add: take_bit_eq_mask mask_eq_exp_minus_1)
    then show "unat (header AND 3) < 4" by (simp add: take_bit_eq_mod unat_mod)
    show "unat (drop_bit 3 header) \<le> usize_max"
      using unsigned_less [of "drop_bit 3 header", where ?'a = nat] by (simp add: usize_max_def)
  qed
  then show ?thesis
    using assms
    by (auto simp: CrelIterator_new_def res_simps crel_iterator_ok_def crel_header_ok_def Let_def split: prod.splits)
qed

lemma CrelIterator_new_remaining: "CrelIterator_new data = Ok it \<Longrightarrow> crel_remaining it = ch_count (ci_header it)"
  by (auto simp: CrelIterator_new_def res_simps crel_remaining_def Let_def split: prod.splits)

section \<open>Properties\<close>

text \<open>C22: the iterator over compact relocations decodes what the reference encoder of the format produces, for every flag and shift of the header: the entries come back in order, and \<^verbatim>\<open>len\<close> is their number.\<close>

theorem crel_read_back:
  assumes "shift < 4" "length cs < 2 ^ 61" "\<forall>c \<in> set cs. crel_ok is_rela shift c"
  shows "\<exists>it. CrelIterator_new (crel_section is_rela shift cs) = Ok it \<and> CrelIterator_is_rela it = is_rela \<and>
    CrelIterator_len it = Ok (length cs) \<and> collect CrelIterator_next crel_remaining it = Ok cs"
  using CrelIterator_new_section [OF assms(1,2), of is_rela]
    crel_drain_images [of "crel_header_of is_rela shift (length cs)" shift 0 cs crel_zero "Suc (length cs)" "[]"] assms(3)
  by (simp add: crel_header_of_def CrelIterator_is_rela_def CrelIterator_len_def crel_state_of_def usize_sub_def collect_def
      crel_remaining_def crel_ok_def crel_zero_def del: drain.simps)

theorem crel_read_back_witness:
  "\<exists>it. CrelIterator_new (crel_section True 2
      [\<lparr>crel_offset = 4096, crel_sym = 7, crel_type = 1, crel_addend = -8\<rparr>,
       \<lparr>crel_offset = 16, crel_sym = 3, crel_type = 1, crel_addend = -8\<rparr>]) = Ok it \<and> CrelIterator_is_rela it = True \<and>
    CrelIterator_len it = Ok 2 \<and> collect CrelIterator_next crel_remaining it =
      Ok [\<lparr>crel_offset = 4096, crel_sym = 7, crel_type = 1, crel_addend = -8\<rparr>,
       \<lparr>crel_offset = 16, crel_sym = 3, crel_type = 1, crel_addend = -8\<rparr>]"
  using crel_read_back [of 2 "[\<lparr>crel_offset = 4096, crel_sym = 7, crel_type = 1, crel_addend = -8\<rparr>,
       \<lparr>crel_offset = 16, crel_sym = 3, crel_type = 1, crel_addend = -8\<rparr>]" True]
  by (simp add: crel_ok_def flip: numeral_2_eq_2)

text \<open>C26: iterating over compact relocations of arbitrary contents ends after at most as many entries as the header announces, without a panic.\<close>

theorem crel_iteration_total:
  assumes "CrelIterator_new data = Ok it"
  shows "\<exists>r. drain CrelIterator_next (Suc (ch_count (ci_header it))) it = Some r \<and> r \<noteq> Panic \<and>
    (\<forall>cs. r = Ok cs \<longrightarrow> length cs \<le> ch_count (ci_header it))"
  using crel_iter.drain_total [OF CrelIterator_new_ok [OF assms]] CrelIterator_new_remaining [OF assms] by simp

theorem crel_iteration_total_witness:
  "\<exists>r. drain CrelIterator_next 3 \<lparr>ci_data = [0x81], ci_header = crel_header_of False 0 2,
      ci_state = crel_state_of 0 0 crel_zero\<rparr> = Some r \<and> r \<noteq> Panic \<and> (\<forall>cs. r = Ok cs \<longrightarrow> length cs \<le> 2)"
  using crel_iteration_total [of "[0x10, 0x81]" "\<lparr>ci_data = [0x81], ci_header = crel_header_of False 0 2,
      ci_state = crel_state_of 0 0 crel_zero\<rparr>"]
  by (simp add: CrelIterator_new_def read_uleb128_def crel_header_of_def crel_state_of_def crel_zero_def del: drain.simps)

text \<open>C23: the iterator over a \<^verbatim>\<open>SHT_RELR\<close> section returns the expansion of its entries: an even entry is an offset, an odd entry a bit mask over the words that follow it. The sums of offsets must not overflow.\<close>

theorem relr_expansion:
  assumes "relr_fits T 0 (map (\<lambda>r. U_get r e) data)"
  shows "\<exists>n. drain (RelrIterator_next T) n (RelrIterator_new e data) =
    Some (Ok (relr_expand T 0 (map (\<lambda>r. U_get r e) data)))"
proof -
  have "relr_inv T (RelrIterator_new e data)" using assms by (simp add: relr_inv_def RelrIterator_new_def)
  moreover have "relr_view T (RelrIterator_new e data) = relr_expand T 0 (map (\<lambda>r. U_get r e) data)"
    by (simp add: relr_view_def RelrIterator_new_def)
  ultimately show ?thesis using relr_iter.drain_view [OF _ lessI] by metis
qed

theorem relr_expansion_witness:
  "\<exists>n. drain (RelrIterator_next Rel64) n (RelrIterator_new Little [U_new Little (0x1000 :: u64), U_new Little (0x0b :: u64)]) =
    Some (Ok [0x1000, 0x1008, 0x1018])"
  using relr_expansion [where T = Rel64 and e = Little and data = "[U_new Little (0x1000 :: u64), U_new Little (0x0b :: u64)]"]
  by (simp add: Rel64_def relr_mask_def upt_rec [of _ "64"])

end
