(* ===== verification/Read_Common.thy ===== *)
theory Read_Common
  imports Endian Read_Util Common
begin

text \<open>
  \<^verbatim>\<open>src/read/mod.rs\<close>: what the readers of all formats share. The kind of a file from its magic
  bytes, the map from addresses to symbols, the relocation entry and the map that applies
  relocations to values, and ranges of possibly compressed data.

  The default features are enabled, so the WebAssembly magic is unknown. Decompression itself is done
  by third-party crates and is not modelled.
\<close>

section \<open>FileKind\<close>

datatype file_kind = Archive | Coff | CoffBig | CoffImport | DyldCache | Elf32_kind | Elf64_kind
  | MachO32_kind | MachO64_kind | MachOFat32 | MachOFat64 | Pe32 | Pe64 | Xcoff32 | Xcoff64

abbreviation IMAGE_DOS_SIGNATURE :: u16 where "IMAGE_DOS_SIGNATURE \<equiv> 0x5a4d"
abbreviation IMAGE_NT_SIGNATURE :: u32 where "IMAGE_NT_SIGNATURE \<equiv> 0x4550"
abbreviation IMAGE_NT_OPTIONAL_HDR32_MAGIC :: u16 where "IMAGE_NT_OPTIONAL_HDR32_MAGIC \<equiv> 0x10b"
abbreviation IMAGE_NT_OPTIONAL_HDR64_MAGIC :: u16 where "IMAGE_NT_OPTIONAL_HDR64_MAGIC \<equiv> 0x20b"

definition ANON_OBJECT_HEADER_BIGOBJ_CLASS_ID :: bytes where
  "ANON_OBJECT_HEADER_BIGOBJ_CLASS_ID =
    [0xC7, 0xA1, 0xBA, 0xD1, 0xEE, 0xBA, 0xA9, 0x4B, 0xAF, 0x20, 0xFA, 0xF6, 0x6A, 0xA4, 0xDC, 0xB8]"

text \<open>A DOS header has 64 bytes, of which \<^verbatim>\<open>e_magic\<close> are the first two and \<^verbatim>\<open>e_lfanew\<close> the last four.\<close>

definition ImageDosHeader_parse :: "bytes \<Rightarrow> (bytes, string) result" where
  "ImageDosHeader_parse data =
    and_then (read_error (read_pod_at 64 data 0) ''Invalid DOS header size or alignment'') (\<lambda>dos_header.
    if U_get (slice_at dos_header 0 2) Little \<noteq> IMAGE_DOS_SIGNATURE then Err ''Invalid DOS magic''
    else Ok dos_header)"

definition nt_headers_offset :: "bytes \<Rightarrow> u32" where
  "nt_headers_offset dos_header = U_get (slice_at dos_header 60 4) Little"

text \<open>
  The NT headers (120 bytes) are the signature, the file header (20 bytes) and the optional header,
  which starts with its magic.
\<close>

definition optional_header_magic :: "bytes \<Rightarrow> (u16, string) result" where
  "optional_header_magic data =
    and_then (ImageDosHeader_parse data) (\<lambda>dos_header.
    let offset = ucast (nt_headers_offset dos_header) in
    and_then (read_error (read_pod_at 120 data offset) ''Invalid NT headers offset, size, or alignment'') (\<lambda>nt_headers.
    if U_get (slice_at nt_headers 0 4) Little \<noteq> IMAGE_NT_SIGNATURE then Err ''Invalid PE magic''
    else Ok (U_get (slice_at nt_headers 24 2) Little)))"

definition anon_object_class_id :: "bytes \<Rightarrow> (bytes, string) result" where
  "anon_object_class_id data =
    and_then (read_error (read_pod_at 32 data 0) ''Invalid anon object header size or alignment'') (\<lambda>header.
    Ok (slice_at header 12 16))"

definition starts_with :: "bytes \<Rightarrow> bytes \<Rightarrow> bool" where
  "starts_with magic prefix \<longleftrightarrow> take (length prefix) magic = prefix"

definition FileKind_parse_at :: "bytes \<Rightarrow> u64 \<Rightarrow> (file_kind, string) result" where
  "FileKind_parse_at data offset =
    and_then (read_error (read_bytes_at data offset 16) ''Could not read file magic'') (\<lambda>magic.
    if length magic < 16 then Err ''File too short''
    else let m = starts_with magic in
      if m [0x21, 0x3c, 0x61, 0x72, 0x63, 0x68, 0x3e, 0x0a] \<or> m [0x21, 0x3c, 0x74, 0x68, 0x69, 0x6e, 0x3e, 0x0a]
        then Ok Archive
      else if m [0x64, 0x79, 0x6c, 0x64, 0x5f, 0x76, 0x31, 0x20] then Ok DyldCache
      else if m [0x7f, 0x45, 0x4c, 0x46, 1] then Ok Elf32_kind
      else if m [0x7f, 0x45, 0x4c, 0x46, 2] then Ok Elf64_kind
      else if m [0xfe, 0xed, 0xfa, 0xce] \<or> m [0xce, 0xfa, 0xed, 0xfe] then Ok MachO32_kind
      else if m [0xfe, 0xed, 0xfa, 0xcf] \<or> m [0xcf, 0xfa, 0xed, 0xfe] then Ok MachO64_kind
      else if m [0xca, 0xfe, 0xba, 0xbe] then Ok MachOFat32
      else if m [0xca, 0xfe, 0xba, 0xbf] then Ok MachOFat64
      else if m [0x4d, 0x5a] \<and> offset = 0 then
        (case optional_header_magic data of
           Ok v \<Rightarrow> if v = IMAGE_NT_OPTIONAL_HDR32_MAGIC then Ok Pe32
                   else if v = IMAGE_NT_OPTIONAL_HDR64_MAGIC then Ok Pe64
                   else Err ''Unknown MS-DOS file''
         | Err _ \<Rightarrow> Err ''Unknown MS-DOS file''
         | Panic \<Rightarrow> Panic)
      else if m [0xc4, 0x01] \<or> m [0x64, 0xaa] \<or> m [0x41, 0xa6] \<or> m [0xf0, 0x01] \<or> m [0xf1, 0x01] \<or> m [0xf2, 0x01]
          \<or> m [0x4c, 0x01] \<or> m [0x64, 0x86] then Ok Coff
      else if m [0x00, 0x00, 0xff, 0xff, 0x00, 0x00] then Ok CoffImport
      else if m [0x00, 0x00, 0xff, 0xff, 0x02, 0x00] \<and> offset = 0 then
        (case anon_object_class_id data of
           Ok v \<Rightarrow> if v = ANON_OBJECT_HEADER_BIGOBJ_CLASS_ID then Ok CoffBig
                   else Err ''Unknown anon object file''
         | Err _ \<Rightarrow> Err ''Unknown anon object file''
         | Panic \<Rightarrow> Panic)
      else if m [0x01, 0xdf] then Ok Xcoff32
      else if m [0x01, 0xf7] then Ok Xcoff64
      else Err ''Unknown file magic'')"

definition FileKind_parse :: "bytes \<Rightarrow> (file_kind, string) result" where
  "FileKind_parse data = FileKind_parse_at data 0"

section \<open>SymbolMap\<close>

text \<open>
  \<^verbatim>\<open>slice::binary_search_by_key\<close> of the standard library: \<open>Inl\<close> an index of a match, or \<open>Inr\<close> the
  index at which the key would be inserted.
\<close>

function binary_search_loop :: "('k::linorder) \<Rightarrow> 'k list \<Rightarrow> nat \<Rightarrow> nat \<Rightarrow> nat" where
  "binary_search_loop k keys base n =
    (if 1 < n then
       let half = n div 2; mid = base + half in
       binary_search_loop k keys (if k < keys ! mid then base else mid) (n - half)
     else base)"
  by pat_completeness auto
termination by (relation "measure (\<lambda>(k, keys, base, n). n)") auto

declare binary_search_loop.simps [simp del]

definition binary_search :: "('k::linorder) \<Rightarrow> 'k list \<Rightarrow> nat + nat" where
  "binary_search k keys =
    (if keys = [] then Inr 0
     else let base = binary_search_loop k keys 0 (length keys) in
       if keys ! base = k then Inl base
       else Inr (base + (if keys ! base < k then 1 else 0)))"

text \<open>The entries are of any type with an address.\<close>

definition SymbolMap_new :: "('a \<Rightarrow> u64) \<Rightarrow> 'a list \<Rightarrow> 'a list" where
  "SymbolMap_new address symbols = sort_key address symbols"

definition SymbolMap_get :: "('a \<Rightarrow> u64) \<Rightarrow> 'a list \<Rightarrow> u64 \<Rightarrow> 'a option" where
  "SymbolMap_get address self a =
    (case binary_search a (map address self) of
       Inl index \<Rightarrow> get_opt self index
     | Inr index \<Rightarrow> if index = 0 then None else get_opt self (index - 1))"

record symbol_map_name =
  smn_address :: u64
  smn_name :: string

record object_map_entry =
  om_address :: u64
  om_size :: u64
  om_name :: bytes
  om_object :: usize

record object_map_file =
  omf_path :: bytes
  omf_member :: "bytes option"

record object_map =
  omap_symbols :: "object_map_entry list"
  omap_objects :: "object_map_file list"

definition ObjectMap_get :: "object_map \<Rightarrow> u64 \<Rightarrow> object_map_entry option" where
  "ObjectMap_get self a =
    (case SymbolMap_get om_address (omap_symbols self) a of
       Some entry \<Rightarrow> if om_size entry = 0 \<or> a - om_address entry < om_size entry then Some entry else None
     | None \<Rightarrow> None)"

definition ObjectMapEntry_object :: "object_map_entry \<Rightarrow> object_map \<Rightarrow> (object_map_file, string) result" where
  "ObjectMapEntry_object self m = index_list (omap_objects m) (om_object self)"

section \<open>Relocations\<close>

datatype object_kind = OK_Unknown | OK_Relocatable | OK_Executable | OK_Dynamic | OK_Core

datatype symbol_section_kind = SS_Unknown | SS_None | SS_Undefined | SS_Absolute | SS_Common | SS_Section usize

fun SymbolSection_index :: "symbol_section_kind \<Rightarrow> usize option" where
  "SymbolSection_index (SS_Section index) = Some index"
| "SymbolSection_index _ = None"

datatype relocation_target = RT_Symbol usize | RT_Section usize | RT_Absolute

record relocation =
  rel_kind :: relocation_kind
  rel_encoding :: relocation_encoding
  rel_bits :: u8
  rel_target :: relocation_target
  rel_addend :: i64
  rel_implicit_addend :: bool
  rel_flags :: relocation_flags

record relocation_map_entry =
  rme_implicit_addend :: bool
  rme_addend :: u64

type_synonym relocation_map = "u64 \<rightharpoonup> relocation_map_entry"

text \<open>
  The lookups of the file, \<^verbatim>\<open>symbol_by_index\<close> (the address) and \<^verbatim>\<open>section_by_index\<close> (the kind and
  the address), are arguments.
\<close>

definition RelocationMap_add :: "(usize \<Rightarrow> (u64, string) result) \<Rightarrow> (usize \<Rightarrow> (section_kind \<times> u64, string) result) \<Rightarrow>
    relocation_map \<Rightarrow> u64 \<Rightarrow> relocation \<Rightarrow> (unit, string) result \<times> relocation_map" where
  "RelocationMap_add symbol_by_index section_by_index self offset reloc =
    (let addend = rel_addend reloc;
         value = (if rel_kind reloc = K_Absolute then
           (case rel_target reloc of
              RT_Symbol index \<Rightarrow>
                and_then (read_error (symbol_by_index index) ''Relocation with invalid symbol'') (\<lambda>address.
                Ok (address + addend))
            | RT_Section index \<Rightarrow>
                and_then (read_error (section_by_index index) ''Relocation with invalid section'') (\<lambda>(kind, address).
                Ok (if kind \<noteq> SK_Debug then address + addend else addend))
            | RT_Absolute \<Rightarrow> Err ''Unsupported relocation target'')
           else Err ''Unsupported relocation type'')
     in case value of
          Ok addend \<Rightarrow>
            (if offset \<in> dom self then Err ''Multiple relocations for offset'' else Ok (),
             self(offset \<mapsto> \<lparr>rme_implicit_addend = rel_implicit_addend reloc, rme_addend = addend\<rparr>))
        | Err e \<Rightarrow> (Err e, self)
        | Panic \<Rightarrow> (Panic, self))"

fun RelocationMap_add_all :: "(usize \<Rightarrow> (u64, string) result) \<Rightarrow> (usize \<Rightarrow> (section_kind \<times> u64, string) result) \<Rightarrow>
    relocation_map \<Rightarrow> (u64 \<times> relocation) list \<Rightarrow> (relocation_map, string) result" where
  "RelocationMap_add_all sym_at sec_at self [] = Ok self"
| "RelocationMap_add_all sym_at sec_at self ((offset, reloc) # rs) =
    (case RelocationMap_add sym_at sec_at self offset reloc of
       (Ok _, self) \<Rightarrow> RelocationMap_add_all sym_at sec_at self rs
     | (Err e, _) \<Rightarrow> Err e
     | (Panic, _) \<Rightarrow> Panic)"

definition RelocationMap_new :: "(usize \<Rightarrow> (u64, string) result) \<Rightarrow> (usize \<Rightarrow> (section_kind \<times> u64, string) result) \<Rightarrow>
    (u64 \<times> relocation) list \<Rightarrow> (relocation_map, string) result" where
  "RelocationMap_new sym_at sec_at relocations = RelocationMap_add_all sym_at sec_at Map.empty relocations"

definition RelocationMap_relocate :: "relocation_map \<Rightarrow> u64 \<Rightarrow> u64 \<Rightarrow> u64" where
  "RelocationMap_relocate self offset v =
    (case self offset of
       Some reloc \<Rightarrow> if rme_implicit_addend reloc then v + rme_addend reloc else rme_addend reloc
     | None \<Rightarrow> v)"

section \<open>Compressed data\<close>

datatype compression_format = CF_None | CF_Unknown | CF_Zlib | CF_Zstandard

record compressed_file_range =
  cfr_format :: compression_format
  cfr_offset :: u64
  cfr_compressed_size :: u64
  cfr_uncompressed_size :: u64

record compressed_data =
  cd_format :: compression_format
  cd_data :: bytes
  cd_uncompressed_size :: u64

definition CompressedFileRange_none :: "(u64 \<times> u64) option \<Rightarrow> compressed_file_range" where
  "CompressedFileRange_none r =
    (case r of
       Some (offset, sz) \<Rightarrow> \<lparr>cfr_format = CF_None, cfr_offset = offset, cfr_compressed_size = sz, cfr_uncompressed_size = sz\<rparr>
     | None \<Rightarrow> \<lparr>cfr_format = CF_None, cfr_offset = 0, cfr_compressed_size = 0, cfr_uncompressed_size = 0\<rparr>)"

definition CompressedFileRange_data :: "compressed_file_range \<Rightarrow> bytes \<Rightarrow> (compressed_data, string) result" where
  "CompressedFileRange_data self data =
    and_then (read_error (read_bytes_at data (cfr_offset self) (cfr_compressed_size self))
      ''Invalid compressed data size or offset'') (\<lambda>d.
    Ok \<lparr>cd_format = cfr_format self, cd_data = d, cd_uncompressed_size = cfr_uncompressed_size self\<rparr>)"

definition CompressedData_none :: "bytes \<Rightarrow> compressed_data" where
  "CompressedData_none data = \<lparr>cd_format = CF_None, cd_data = data, cd_uncompressed_size = word_of_nat (length data)\<rparr>"

section \<open>The binary search\<close>

lemma binary_search_loop_bounds:
  assumes "sorted keys" "0 < n" "base + n \<le> length keys" "base = 0 \<or> keys ! base \<le> k"
    and "\<forall>i. base + n \<le> i \<and> i < length keys \<longrightarrow> k < keys ! i"
  shows "let r = binary_search_loop k keys base n in
    r < length keys \<and> (r = 0 \<or> keys ! r \<le> k) \<and> (\<forall>i. r < i \<and> i < length keys \<longrightarrow> k < keys ! i)"
  using assms
proof (induction k keys base n rule: binary_search_loop.induct)
  case (1 k keys base n)
  show ?case
  proof (cases "1 < n")
    case True
    let ?half = "n div 2" and ?mid = "base + n div 2"
    let ?base = "if k < keys ! ?mid then base else ?mid"
    have half: "0 < ?half" "?half \<le> n - ?half" "?mid < length keys" using True 1(4) by auto
    have above: "\<forall>i. ?base + (n - ?half) \<le> i \<and> i < length keys \<longrightarrow> k < keys ! i"
    proof (intro allI impI, elim conjE)
      fix i assume i: "?base + (n - ?half) \<le> i" "i < length keys"
      show "k < keys ! i"
      proof (cases "k < keys ! ?mid")
        case True
        then have "keys ! ?mid \<le> keys ! i" using i half(2) by (intro sorted_nth_mono [OF 1(2)]) auto
        then show ?thesis using True by order
      next
        case False
        then show ?thesis using i 1(6) half(2) by auto
      qed
    qed
    have "binary_search_loop k keys base n = binary_search_loop k keys ?base (n - ?half)"
      using True by (simp add: binary_search_loop.simps [of k keys base n] Let_def)
    moreover have "0 < n - ?half" "?base + (n - ?half) \<le> length keys" "?base = 0 \<or> keys ! ?base \<le> k"
      using half 1(4,5) by auto
    ultimately show ?thesis using 1(1) [OF True refl refl 1(2) _ _ _ above] by simp
  next
    case False
    then have n: "n = 1" using 1(3) by simp
    have "binary_search_loop k keys base n = base"
      using False by (simp add: binary_search_loop.simps [of k keys base n])
    then show ?thesis using 1(4-6) unfolding n by (simp add: Suc_le_eq)
  qed
qed

lemma binary_search_cases:
  assumes "sorted keys"
  shows "case binary_search k keys of
      Inl i \<Rightarrow> i < length keys \<and> keys ! i = k \<and> (\<forall>j. i < j \<and> j < length keys \<longrightarrow> k < keys ! j)
    | Inr i \<Rightarrow> i \<le> length keys \<and> (\<forall>j < i. keys ! j < k) \<and> (\<forall>j. i \<le> j \<and> j < length keys \<longrightarrow> k < keys ! j)"
proof (cases "keys = []")
  case False
  let ?r = "binary_search_loop k keys 0 (length keys)"
  have "\<forall>i. 0 + length keys \<le> i \<and> i < length keys \<longrightarrow> k < keys ! i" by auto
  then have r: "?r < length keys" "?r = 0 \<or> keys ! ?r \<le> k" "\<And>i. ?r < i \<Longrightarrow> i < length keys \<Longrightarrow> k < keys ! i"
    using binary_search_loop_bounds [OF assms, of "length keys" 0 k] False by (simp_all add: Let_def)
  have below: "keys ! j \<le> keys ! ?r" if "j \<le> ?r" for j
    using sorted_nth_mono [OF assms that] r(1) by simp
  consider "keys ! ?r = k" | "keys ! ?r < k" | "k < keys ! ?r" by (rule linorder_cases)
  then show ?thesis
  proof cases
    case 2
    then have "keys ! j < k" if "j \<le> ?r" for j using below [OF that] by order
    then show ?thesis using False 2 r by (simp add: binary_search_def Let_def less_Suc_eq_le Suc_le_eq)
  next
    case 3
    then have "?r = 0" using r(2) by auto
    then have "k < keys ! j" if "j < length keys" for j using 3 r(3) that by (cases j) auto
    then show ?thesis using False 3 \<open>?r = 0\<close> by (auto simp: binary_search_def dest: order_less_asym)
  qed (use False r in \<open>simp add: binary_search_def\<close>)
qed (simp add: binary_search_def)

lemma sorted_last_before:
  assumes "sorted (map address m)" "i < length m" "address (m ! i) \<le> a" "\<forall>j. i < j \<and> j < length m \<longrightarrow> a < address (m ! j)"
  shows "m ! i \<in> set m \<and> address (m ! i) \<le> a \<and> (\<forall>t \<in> set m. address t \<le> a \<longrightarrow> address t \<le> address (m ! i))"
proof -
  have "address t \<le> address (m ! i)" if t: "t \<in> set m" "address t \<le> a" for t
  proof -
    obtain j where j: "j < length m" "t = m ! j" using t(1) unfolding in_set_conv_nth by blast
    have "j \<le> i"
    proof (rule ccontr)
      assume "\<not> j \<le> i"
      then have "a < address (m ! j)" using assms(4) j(1) by (metis not_le_imp_less)
      then show False using t(2) unfolding j(2) by order
    qed
    then have "map address m ! j \<le> map address m ! i" using assms(2) by (intro sorted_nth_mono [OF assms(1)]) simp_all
    then show ?thesis unfolding j(2) using assms(2) j(1) by (simp only: nth_map)
  qed
  then show ?thesis using assms(2,3) nth_mem by blast
qed

lemma SymbolMap_get_sorted:
  assumes "sorted (map address m)"
  shows "case SymbolMap_get address m a of
     Some s \<Rightarrow> s \<in> set m \<and> address s \<le> a \<and> (\<forall>t \<in> set m. address t \<le> a \<longrightarrow> address t \<le> address s)
   | None \<Rightarrow> \<forall>t \<in> set m. a < address t"
proof -
  note search = binary_search_cases [OF assms, of a] and last = sorted_last_before [OF assms, of _ a]
  show ?thesis
  proof (cases "binary_search a (map address m)")
    case (Inl i)
    then show ?thesis using search last [of i] by (auto simp: SymbolMap_get_def get_opt_def)
  next
    case (Inr i)
    show ?thesis
    proof (cases i)
      case 0
      have "a < address t" if t: "t \<in> set m" for t
      proof -
        obtain j where "j < length m" "t = m ! j" using t unfolding in_set_conv_nth by blast
        then show ?thesis using search Inr 0 by simp
      qed
      then show ?thesis using Inr 0 by (simp add: SymbolMap_get_def)
    next
      case (Suc j)
      then have "j < length m" "map address m ! j < a" using search Inr by auto
      then have "address (m ! j) < a" "j < length m" by (simp_all only: nth_map)
      then show ?thesis using search Inr Suc last [of j] by (auto simp: SymbolMap_get_def get_opt_def)
    qed
  qed
qed

section \<open>Properties\<close>

text \<open>C24: a symbol map that is built from any list of symbols finds, for an address, a symbol with the greatest address that is not above it, and none exactly when all symbols are above it.\<close>

theorem symbol_map_finds_symbol_before:
  "case SymbolMap_get address (SymbolMap_new address symbols) a of
     Some s \<Rightarrow> s \<in> set symbols \<and> address s \<le> a \<and> (\<forall>t \<in> set symbols. address t \<le> a \<longrightarrow> address t \<le> address s)
   | None \<Rightarrow> \<forall>t \<in> set symbols. a < address t"
proof -
  have "sorted (map address (SymbolMap_new address symbols))" "set (SymbolMap_new address symbols) = set symbols"
    by (simp_all add: SymbolMap_new_def)
  then show ?thesis using SymbolMap_get_sorted [of address "SymbolMap_new address symbols" a]
    by (simp split: option.splits)
qed

theorem symbol_map_finds_symbol_before_witness:
  "case SymbolMap_get fst (SymbolMap_new fst [(16 :: u64, ''b''), (4, ''a''), (32, ''c'')]) 20 of
     Some s \<Rightarrow> s \<in> {(16 :: u64, ''b''), (4, ''a''), (32, ''c'')} \<and> fst s \<le> 20 \<and>
       (\<forall>t \<in> {(16 :: u64, ''b''), (4, ''a''), (32, ''c'')}. fst t \<le> 20 \<longrightarrow> fst t \<le> fst s)
   | None \<Rightarrow> \<forall>t \<in> {(16 :: u64, ''b''), (4, ''a''), (32, ''c'')}. 20 < fst t"
  using symbol_map_finds_symbol_before [where address = fst and a = 20 and
      symbols = "[(16 :: u64, ''b''), (4, ''a''), (32, ''c'')]"]
  by (simp only: list.set)

section \<open>Applying relocations\<close>

text \<open>The addend of the map entry for a relocation that can be applied.\<close>

definition relocation_value :: "(usize \<Rightarrow> (u64, string) result) \<Rightarrow> (usize \<Rightarrow> (section_kind \<times> u64, string) result) \<Rightarrow>
    relocation \<Rightarrow> u64 option" where
  "relocation_value sym_at sec_at r =
    (if rel_kind r = K_Absolute then
       (case rel_target r of
          RT_Symbol i \<Rightarrow> (case sym_at i of Ok address \<Rightarrow> Some (address + rel_addend r) | _ \<Rightarrow> None)
        | RT_Section i \<Rightarrow> (case sec_at i of
            Ok (kind, address) \<Rightarrow> Some (if kind = SK_Debug then rel_addend r else address + rel_addend r) | _ \<Rightarrow> None)
        | RT_Absolute \<Rightarrow> None)
     else None)"

lemma RelocationMap_add_ok:
  "fst (RelocationMap_add sym_at sec_at self offset r) = Ok () \<longleftrightarrow>
    offset \<notin> dom self \<and> relocation_value sym_at sec_at r \<noteq> None"
  by (auto simp: RelocationMap_add_def relocation_value_def Let_def res_simps
      split: result.splits relocation_target.splits if_splits)

lemma RelocationMap_add_map:
  "relocation_value sym_at sec_at r = Some a \<Longrightarrow> snd (RelocationMap_add sym_at sec_at self offset r) =
    self(offset \<mapsto> \<lparr>rme_implicit_addend = rel_implicit_addend r, rme_addend = a\<rparr>)"
  by (auto simp: RelocationMap_add_def relocation_value_def Let_def
      split: result.splits relocation_target.splits if_splits)

definition relocation_entry :: "(usize \<Rightarrow> (u64, string) result) \<Rightarrow> (usize \<Rightarrow> (section_kind \<times> u64, string) result) \<Rightarrow>
    relocation \<Rightarrow> relocation_map_entry" where
  "relocation_entry sym_at sec_at r = \<lparr>rme_implicit_addend = rel_implicit_addend r,
     rme_addend = the (relocation_value sym_at sec_at r)\<rparr>"

lemma RelocationMap_add_all_Cons:
  "RelocationMap_add_all sym_at sec_at self ((offset, r) # rs) = Ok m \<longleftrightarrow>
    offset \<notin> dom self \<and> relocation_value sym_at sec_at r \<noteq> None \<and>
    RelocationMap_add_all sym_at sec_at (self(offset \<mapsto> relocation_entry sym_at sec_at r)) rs = Ok m"
proof -
  obtain res self' where add: "RelocationMap_add sym_at sec_at self offset r = (res, self')" by fastforce
  have "self' = self(offset \<mapsto> relocation_entry sym_at sec_at r)" if "relocation_value sym_at sec_at r \<noteq> None"
    using RelocationMap_add_map [of sym_at sec_at r _ self offset] that add by (auto simp: relocation_entry_def)
  then show ?thesis
    using RelocationMap_add_ok [of sym_at sec_at self offset r] add by (cases res) auto
qed

definition relocations_ok :: "(usize \<Rightarrow> (u64, string) result) \<Rightarrow> (usize \<Rightarrow> (section_kind \<times> u64, string) result) \<Rightarrow>
    (u64 \<times> relocation) list \<Rightarrow> bool" where
  "relocations_ok sym_at sec_at rs \<longleftrightarrow>
    distinct (map fst rs) \<and> list_all (\<lambda>(_, r). relocation_value sym_at sec_at r \<noteq> None) rs"

definition relocation_entries :: "(usize \<Rightarrow> (u64, string) result) \<Rightarrow> (usize \<Rightarrow> (section_kind \<times> u64, string) result) \<Rightarrow>
    (u64 \<times> relocation) list \<Rightarrow> relocation_map" where
  "relocation_entries sym_at sec_at rs = map_option (relocation_entry sym_at sec_at) \<circ> map_of rs"

lemma RelocationMap_add_all_eq_Ok:
  "RelocationMap_add_all sym_at sec_at self rs = Ok m \<longleftrightarrow>
    relocations_ok sym_at sec_at rs \<and> fst ` set rs \<inter> dom self = {} \<and> m = self ++ relocation_entries sym_at sec_at rs"
proof (induction rs arbitrary: self)
  case Nil
  then show ?case by (auto simp: relocations_ok_def relocation_entries_def map_add_def)
next
  case (Cons x rs)
  obtain offset r where x: "x = (offset, r)" by fastforce
  have "self(offset \<mapsto> relocation_entry sym_at sec_at r) ++ relocation_entries sym_at sec_at rs
      = self ++ relocation_entries sym_at sec_at (x # rs)" if "offset \<notin> fst ` set rs"
  proof
    fix k
    have "map_of rs offset = None" using that by (simp add: map_of_eq_None_iff)
    then show "(self(offset \<mapsto> relocation_entry sym_at sec_at r) ++ relocation_entries sym_at sec_at rs) k
      = (self ++ relocation_entries sym_at sec_at (x # rs)) k"
      by (auto simp: relocation_entries_def map_add_def x split: option.splits)
  qed
  then show ?case
    unfolding x RelocationMap_add_all_Cons Cons.IH
    by (auto simp: relocations_ok_def x)
qed

text \<open>C25: a relocation map is built exactly when the offsets are distinct and every relocation is absolute with a target that the file knows; it then replaces the value at the offset of a relocation by the address of the target plus the addend, added to the value when the addend is implicit, and leaves the values at other offsets alone.\<close>

theorem relocation_map_applies:
  "case RelocationMap_new sym_at sec_at rs of
     Ok m \<Rightarrow> relocations_ok sym_at sec_at rs \<and>
       (\<forall>offset v. RelocationMap_relocate m offset v =
         (case map_of rs offset of
            Some r \<Rightarrow> (if rel_implicit_addend r then v else 0) + the (relocation_value sym_at sec_at r)
          | None \<Rightarrow> v))
   | _ \<Rightarrow> \<not> relocations_ok sym_at sec_at rs"
proof (cases "RelocationMap_new sym_at sec_at rs")
  case (Ok m)
  then have "relocations_ok sym_at sec_at rs" "m = relocation_entries sym_at sec_at rs"
    by (simp_all add: RelocationMap_new_def RelocationMap_add_all_eq_Ok)
  then show ?thesis
    by (simp add: Ok RelocationMap_relocate_def relocation_entries_def relocation_entry_def split: option.splits)
qed (use RelocationMap_add_all_eq_Ok [of sym_at sec_at Map.empty rs "relocation_entries sym_at sec_at rs"] in
  \<open>simp_all add: RelocationMap_new_def\<close>)

end
