(* ===== verification/Elf_Relocation.thy ===== *)
theory Elf_Relocation
  imports Elf_Crel Read_Common Elf_Relocation_Types
begin

text \<open>
  \<^verbatim>\<open>src/read/elf/relocation.rs\<close>: which relocation sections belong to a section
  (\<^verbatim>\<open>RelocationSections\<close>), and the iterators over the relocations of a section and over the dynamic
  relocations. \<^verbatim>\<open>ElfFile\<close> (\<^verbatim>\<open>src/read/elf/file.rs\<close>) is the parsed file that they work on.

  The loop of \<^verbatim>\<open>ElfSectionRelocationIterator::next\<close> follows the links of \<^verbatim>\<open>RelocationSections\<close>, which
  are data: it is a partial function, and not returning is the value \<open>None\<close>.
\<close>

section \<open>RelocationSections\<close>

definition is_relocation_type :: "u32 \<Rightarrow> bool" where
  "is_relocation_type ty \<longleftrightarrow> ty = SHT_REL \<or> ty = SHT_RELA \<or> ty = SHT_CREL"

definition relocation_sections_step :: "'w::len word elf_types \<Rightarrow> endianness \<Rightarrow> section_table \<Rightarrow> nat \<Rightarrow>
    nat \<times> bytes \<Rightarrow> nat list \<Rightarrow> (nat list, string) result" where
  "relocation_sections_step C e secs symsec isect relocations =
    (case isect of (index, sect) \<Rightarrow>
      if is_relocation_type (sh_type (section_at C e sect)) then
        if section_link C sect e \<noteq> symsec then Ok relocations
        else let info = info_link C sect e in
          if info = 0 then Ok relocations
          else if length relocations \<le> info then Err ''Invalid ELF sh_info for relocation section''
          else
            and_then (SectionTable_section secs info) (\<lambda>target.
            if is_relocation_type (sh_type (section_at C e target))
            then Err ''Unsupported ELF sh_info for relocation section''
            else
              and_then (index_list relocations info) (\<lambda>nxt.
              and_then (list_assign info index relocations) (\<lambda>relocations.
              list_assign index nxt relocations)))
      else Ok relocations)"

fun relocation_sections_loop :: "'w::len word elf_types \<Rightarrow> endianness \<Rightarrow> section_table \<Rightarrow> nat \<Rightarrow>
    (nat \<times> bytes) list \<Rightarrow> nat list \<Rightarrow> (nat list, string) result" where
  "relocation_sections_loop C e secs symsec [] relocations = Ok relocations"
| "relocation_sections_loop C e secs symsec (x # xs) relocations =
    and_then (relocation_sections_step C e secs symsec x relocations) (\<lambda>relocations.
    relocation_sections_loop C e secs symsec xs relocations)"

definition RelocationSections_parse :: "'w::len word elf_types \<Rightarrow> endianness \<Rightarrow> section_table \<Rightarrow> nat \<Rightarrow>
    (nat list, string) result" where
  "RelocationSections_parse C e secs symsec =
    relocation_sections_loop C e secs symsec (rev (enumerate 0 (stab_sections secs)))
      (replicate (length (stab_sections secs)) 0)"

definition RelocationSections_get :: "nat list \<Rightarrow> nat \<Rightarrow> nat option" where
  "RelocationSections_get self index =
    (case get_opt self index of Some x \<Rightarrow> if x \<noteq> 0 then Some x else None | None \<Rightarrow> None)"

section \<open>ElfFile\<close>

record elf_file =
  ef_endian :: endianness
  ef_data :: bytes
  ef_header :: bytes
  ef_segments :: "bytes list"
  ef_sections :: section_table
  ef_relocations :: "nat list"
  ef_symbols :: symbol_table
  ef_dynamic_symbols :: symbol_table

definition ElfFile_parse :: "'w::len word elf_types \<Rightarrow> bytes \<Rightarrow> (elf_file, string) result" where
  "ElfFile_parse C data =
    and_then (FileHeader_parse C data) (\<lambda>header.
    and_then (header_endian header) (\<lambda>e.
    and_then (program_headers C header e data) (\<lambda>segments.
    and_then (sections C header e data) (\<lambda>secs.
    and_then (SectionTable_symbols C secs e data SHT_SYMTAB) (\<lambda>symbols.
    and_then (SectionTable_symbols C secs e data SHT_DYNSYM) (\<lambda>dynamic_symbols.
    and_then (RelocationSections_parse C e secs (symt_section symbols)) (\<lambda>relocations.
    Ok \<lparr>ef_endian = e, ef_data = data, ef_header = header, ef_segments = segments, ef_sections = secs,
       ef_relocations = relocations, ef_symbols = symbols, ef_dynamic_symbols = dynamic_symbols\<rparr>)))))))"

section \<open>The relocations of one relocation section\<close>

datatype elf_relocation_iterator =
    ERI_Rel "bytes list" endianness
  | ERI_Rela "bytes list" endianness bool
  | ERI_Crel crel_iterator

fun ElfRelocationIterator_is_rel :: "elf_relocation_iterator \<Rightarrow> bool" where
  "ElfRelocationIterator_is_rel (ERI_Rel _ _) = True"
| "ElfRelocationIterator_is_rel (ERI_Rela _ _ _) = False"
| "ElfRelocationIterator_is_rel (ERI_Crel i) = (\<not> CrelIterator_is_rela i)"

text \<open>An error of the compact iterator ends the iteration (\<^verbatim>\<open>and_then(Result::ok)\<close>).\<close>

fun ElfRelocationIterator_next :: "'w::len word rel_types \<Rightarrow> elf_relocation_iterator \<Rightarrow>
    (crel option, string) result \<times> elf_relocation_iterator" where
  "ElfRelocationIterator_next T (ERI_Rel [] e) = (Ok None, ERI_Rel [] e)"
| "ElfRelocationIterator_next T (ERI_Rel (r # rs) e) = (Ok (Some (Crel_from_rel T e r)), ERI_Rel rs e)"
| "ElfRelocationIterator_next T (ERI_Rela [] e mips) = (Ok None, ERI_Rela [] e mips)"
| "ElfRelocationIterator_next T (ERI_Rela (r # rs) e mips) =
    (Ok (Some (Crel_from_rela T e mips r)), ERI_Rela rs e mips)"
| "ElfRelocationIterator_next T (ERI_Crel i) =
    (case CrelIterator_next i of
       (Ok c, i) \<Rightarrow> (Ok c, ERI_Crel i)
     | (Err _, i) \<Rightarrow> (Ok None, ERI_Crel i)
     | (Panic, i) \<Rightarrow> (Panic, ERI_Crel i))"

definition parse_relocation :: "'w::len word elf_types \<Rightarrow> bytes \<Rightarrow> endianness \<Rightarrow> crel \<Rightarrow> bool \<Rightarrow> relocation" where
  "parse_relocation C header e reloc implicit_addend =
    (let r_type = crel_type reloc;
         (kind, encoding, sz) = relocation_class (e_machine (header_at C e header)) (is_type_64 C) r_type;
         target = (case Crel_symbol reloc of None \<Rightarrow> RT_Absolute | Some symbol \<Rightarrow> RT_Symbol symbol)
     in \<lparr>rel_kind = kind, rel_encoding = encoding, rel_bits = sz, rel_target = target,
         rel_addend = crel_addend reloc, rel_implicit_addend = implicit_addend, rel_flags = RF_Elf r_type\<rparr>)"

text \<open>
  The \<^verbatim>\<open>match section.sh_type(endian)\<close> of both iterators: \<^verbatim>\<open>self.relocations\<close> for a section, \<open>None\<close>
  when its data is invalid or it is not a relocation section.
\<close>

definition open_relocations :: "'w::len word elf_types \<Rightarrow> 'w word rel_types \<Rightarrow> elf_file \<Rightarrow> bytes \<Rightarrow>
    (elf_relocation_iterator option, string) result" where
  "open_relocations C T file sect =
    (let e = ef_endian file; data = ef_data file; ty = sh_type (section_at C e sect) in
     if ty = SHT_REL then
       (case data_as_array (rel_size T) C sect e data of
          Ok rs \<Rightarrow> Ok (Some (ERI_Rel rs e)) | Err _ \<Rightarrow> Ok None | Panic \<Rightarrow> Panic)
     else if ty = SHT_RELA then
       (case data_as_array (rela_size T) C sect e data of
          Ok rs \<Rightarrow> Ok (Some (ERI_Rela rs e (is_mips64el C (ef_header file) e))) | Err _ \<Rightarrow> Ok None | Panic \<Rightarrow> Panic)
     else if ty = SHT_CREL then
       (case section_data C sect e data of
          Ok d \<Rightarrow> (case CrelIterator_new d of
             Ok i \<Rightarrow> Ok (Some (ERI_Crel i)) | Err _ \<Rightarrow> Ok None | Panic \<Rightarrow> Panic)
        | Err _ \<Rightarrow> Ok None | Panic \<Rightarrow> Panic)
     else Ok None)"

section \<open>The iterators over the relocations of a file\<close>

record relocation_iterator =
  it_section_index :: nat
  it_relocations :: "elf_relocation_iterator option"

text \<open>The first step of both loops: the next relocation of the current relocation section.\<close>

definition current_relocation :: "'w::len word elf_types \<Rightarrow> 'w word rel_types \<Rightarrow> elf_file \<Rightarrow> relocation_iterator \<Rightarrow>
    ((u64 \<times> relocation) option, string) result \<times> relocation_iterator" where
  "current_relocation C T file self =
    (case it_relocations self of
       Some relocations \<Rightarrow>
         (case ElfRelocationIterator_next T relocations of
            (Ok (Some reloc), relocations) \<Rightarrow>
              (Ok (Some (crel_offset reloc, parse_relocation C (ef_header file) (ef_endian file) reloc
                 (ElfRelocationIterator_is_rel relocations))),
               self\<lparr>it_relocations := Some relocations\<rparr>)
          | (Ok None, _) \<Rightarrow> (Ok None, self\<lparr>it_relocations := None\<rparr>)
          | (Err e, relocations) \<Rightarrow> (Err e, self\<lparr>it_relocations := Some relocations\<rparr>)
          | (Panic, relocations) \<Rightarrow> (Panic, self\<lparr>it_relocations := Some relocations\<rparr>))
     | None \<Rightarrow> (Ok None, self))"

definition ElfSection_relocations :: "nat \<Rightarrow> relocation_iterator" where
  "ElfSection_relocations index = \<lparr>it_section_index = index, it_relocations = None\<rparr>"

partial_function (option) ElfSectionRelocationIterator_next :: "'w::len word elf_types \<Rightarrow> 'w word rel_types \<Rightarrow>
    elf_file \<Rightarrow> relocation_iterator \<Rightarrow>
    (((u64 \<times> relocation) option, string) result \<times> relocation_iterator) option" where
  "ElfSectionRelocationIterator_next C T file self =
    (case current_relocation C T file self of
       (Ok None, self) \<Rightarrow>
         (case RelocationSections_get (ef_relocations file) (it_section_index self) of
            None \<Rightarrow> Some (Ok None, self)
          | Some index \<Rightarrow>
              (case SectionTable_section (ef_sections file) index of
                 Ok sect \<Rightarrow>
                   (case open_relocations C T file sect of
                      Ok relocations \<Rightarrow> ElfSectionRelocationIterator_next C T file
                        (self\<lparr>it_section_index := index, it_relocations := relocations\<rparr>)
                    | Err e \<Rightarrow> Some (Err e, self)
                    | Panic \<Rightarrow> Some (Panic, self))
               | _ \<Rightarrow> Some (Panic, self)))
     | (r, self) \<Rightarrow> Some (r, self))"

text \<open>The dynamic relocations: all sections in order, so that the loop ends with the section table.\<close>

definition ElfFile_dynamic_relocations :: relocation_iterator where
  "ElfFile_dynamic_relocations = \<lparr>it_section_index = 1, it_relocations = None\<rparr>"

function ElfDynamicRelocationIterator_next :: "'w::len word elf_types \<Rightarrow> 'w word rel_types \<Rightarrow> elf_file \<Rightarrow>
    relocation_iterator \<Rightarrow> ((u64 \<times> relocation) option, string) result \<times> relocation_iterator" where
  "ElfDynamicRelocationIterator_next C T file self =
    (case current_relocation C T file self of
       (Ok None, self) \<Rightarrow>
         (case SectionTable_section (ef_sections file) (it_section_index self) of
            Ok sect \<Rightarrow>
              let self = self\<lparr>it_section_index := it_section_index self + 1\<rparr> in
              if section_link C sect (ef_endian file) \<noteq> symt_section (ef_dynamic_symbols file)
              then ElfDynamicRelocationIterator_next C T file self
              else (case open_relocations C T file sect of
                 Ok relocations \<Rightarrow> ElfDynamicRelocationIterator_next C T file (self\<lparr>it_relocations := relocations\<rparr>)
               | Err e \<Rightarrow> (Err e, self)
               | Panic \<Rightarrow> (Panic, self))
          | Err _ \<Rightarrow> (Ok None, self)
          | Panic \<Rightarrow> (Panic, self))
     | (r, self) \<Rightarrow> (r, self))"
  by pat_completeness auto
termination
proof (relation "measure (\<lambda>(C, T, file, self). length (stab_sections (ef_sections file)) - it_section_index self)")
qed (auto simp: current_relocation_def SectionTable_section_def res_simps split: option.splits prod.splits result.splits if_splits)

declare ElfDynamicRelocationIterator_next.simps [simp del]

section \<open>The chains of relocation sections\<close>

text \<open>The relocation sections of the section \<open>s\<close>: those that use the symbol table and name \<open>s\<close>.\<close>

definition is_relocation_section :: "'w::len word elf_types \<Rightarrow> endianness \<Rightarrow> section_table \<Rightarrow> nat \<Rightarrow> bool" where
  "is_relocation_section C e secs i \<longleftrightarrow> is_relocation_type (sh_type (section_at C e (stab_sections secs ! i)))"

definition relocates :: "'w::len word elf_types \<Rightarrow> endianness \<Rightarrow> section_table \<Rightarrow> nat \<Rightarrow> nat \<Rightarrow> nat \<Rightarrow> bool" where
  "relocates C e secs symsec s i \<longleftrightarrow> is_relocation_section C e secs i \<and>
    section_link C (stab_sections secs ! i) e = symsec \<and> info_link C (stab_sections secs ! i) e = s \<and> s \<noteq> 0"

text \<open>The sections that \<^verbatim>\<open>get\<close> leads to, one after the other.\<close>

inductive reloc_chain :: "nat list \<Rightarrow> nat \<Rightarrow> nat list \<Rightarrow> bool" for r :: "nat list" where
  chain_end: "RelocationSections_get r s = None \<Longrightarrow> reloc_chain r s []"
| chain_next: "RelocationSections_get r s = Some i \<Longrightarrow> reloc_chain r i is \<Longrightarrow> reloc_chain r s (i # is)"

inductive_simps reloc_chain_Nil: "reloc_chain r s []"
inductive_simps reloc_chain_Cons: "reloc_chain r s (i # is)"

definition first_or_0 :: "nat list \<Rightarrow> nat" where
  "first_or_0 is = (case is of [] \<Rightarrow> 0 | i # _ \<Rightarrow> i)"

definition from_index :: "(nat \<Rightarrow> bool) \<Rightarrow> nat \<Rightarrow> nat \<Rightarrow> nat list" where
  "from_index P k n = filter P [k..<n]"

lemma from_index_rec: "from_index P k n = (if k < n then (if P k then [k] else []) @ from_index P (Suc k) n else [])"
  by (simp add: from_index_def upt_conv_Cons)

text \<open>The links after the sections from \<open>k\<close> on have been processed.\<close>

definition chains_from :: "'w::len word elf_types \<Rightarrow> endianness \<Rightarrow> section_table \<Rightarrow> nat \<Rightarrow> nat \<Rightarrow> nat list \<Rightarrow> bool" where
  "chains_from C e secs symsec k r \<longleftrightarrow>
    (let n = length (stab_sections secs) in
     length r = n \<and>
     (\<forall>s < n. \<not> is_relocation_section C e secs s \<longrightarrow> r ! s = first_or_0 (from_index (relocates C e secs symsec s) k n)) \<and>
     (\<forall>s. \<forall>i < n. k \<le> i \<and> relocates C e secs symsec s i \<longrightarrow>
        r ! i = first_or_0 (from_index (relocates C e secs symsec s) (Suc i) n)))"

lemma relocation_sections_step_chains:
  assumes "chains_from C e secs symsec (Suc k) r" "k < length (stab_sections secs)"
    and "relocation_sections_step C e secs symsec (k, stab_sections secs ! k) r = Ok r'"
  shows "chains_from C e secs symsec k r'"
proof (cases "\<exists>t. relocates C e secs symsec t k")
  case True
  then obtain t where t: "relocates C e secs symsec t k" by blast
  have "length r = length (stab_sections secs)" using assms(1) by (simp add: chains_from_def Let_def)
  then have r': "r' = (r[t := k])[k := r ! t]" "t < length r" "\<not> is_relocation_section C e secs t"
    using assms(3) t
    by (auto simp: relocation_sections_step_def relocates_def is_relocation_section_def SectionTable_section_def
        res_simps Let_def split: if_splits)
  have unique: "s = t" if "relocates C e secs symsec s k" for s using that t by (simp add: relocates_def)
  have reloc: "is_relocation_section C e secs i" if "relocates C e secs symsec s i" for s i
    using that by (simp add: relocates_def)
  then have "k \<noteq> t" using r'(3) t by blast
  let ?n = "length (stab_sections secs)" and ?R = "relocates C e secs symsec"
  have J: "\<And>s. s < ?n \<Longrightarrow> \<not> is_relocation_section C e secs s \<Longrightarrow> r ! s = first_or_0 (from_index (?R s) (Suc k) ?n)"
    "\<And>s i. i < ?n \<Longrightarrow> Suc k \<le> i \<Longrightarrow> ?R s i \<Longrightarrow> r ! i = first_or_0 (from_index (?R s) (Suc i) ?n)" "length r = ?n"
    using assms(1) by (auto simp: chains_from_def Let_def)
  have at_k: "from_index (?R s) k ?n = (if s = t then [k] else []) @ from_index (?R s) (Suc k) ?n" for s
  proof -
    have "?R s k \<longleftrightarrow> s = t" using t unique by blast
    then show ?thesis using assms(2) by (subst from_index_rec) simp
  qed
  have "r' ! s = first_or_0 (from_index (?R s) k ?n)" if s: "s < ?n" "\<not> is_relocation_section C e secs s" for s
  proof -
    have "s \<noteq> k" using s(2) reloc [OF t] by blast
    then show ?thesis using s J(1) [OF s] J(3) by (auto simp: r'(1) at_k first_or_0_def)
  qed
  moreover have "r' ! i = first_or_0 (from_index (?R s) (Suc i) ?n)" if i: "i < ?n" "k \<le> i" "?R s i" for s i
  proof (cases "i = k")
    case True
    then show ?thesis using i J(1) [of t] J(3) r'(2,3) unique by (simp add: r'(1))
  next
    case False
    have "i \<noteq> t" using reloc [OF i(3)] r'(3) by blast
    then show ?thesis using False i J(2) [of i s] by (simp add: r'(1))
  qed
  ultimately show ?thesis using J(3) by (simp add: chains_from_def Let_def r'(1))
next
  case False
  then have "r' = r"
    using assms(3) by (auto simp: relocation_sections_step_def relocates_def is_relocation_section_def Let_def split: if_splits)
  moreover have "from_index (relocates C e secs symsec s) k n = from_index (relocates C e secs symsec s) (Suc k) n" for s n
    using False by (subst from_index_rec) (simp add: from_index_def)
  ultimately show ?thesis
    using assms(1) False unfolding chains_from_def Let_def by (metis Suc_leI le_neq_implies_less)
qed

lemma relocation_sections_loop_chains:
  assumes "relocation_sections_loop C e secs symsec (rev (enumerate 0 (take k (stab_sections secs)))) r = Ok r'"
    and "chains_from C e secs symsec k r" "k \<le> length (stab_sections secs)"
  shows "chains_from C e secs symsec 0 r'"
  using assms
proof (induction k arbitrary: r)
  case (Suc k)
  then have k: "k < length (stab_sections secs)" by simp
  then have "rev (enumerate 0 (take (Suc k) (stab_sections secs))) =
      (k, stab_sections secs ! k) # rev (enumerate 0 (take k (stab_sections secs)))"
    by (simp add: take_Suc_conv_app_nth enumerate_append_eq)
  then obtain r2 where "relocation_sections_step C e secs symsec (k, stab_sections secs ! k) r = Ok r2"
    "relocation_sections_loop C e secs symsec (rev (enumerate 0 (take k (stab_sections secs)))) r2 = Ok r'"
    using Suc.prems(1) by (auto simp: res_simps)
  then show ?case using Suc.IH relocation_sections_step_chains [OF Suc.prems(2) k] k by simp
qed simp

lemma RelocationSections_parse_chains:
  assumes "RelocationSections_parse C e secs symsec = Ok r"
  shows "chains_from C e secs symsec 0 r"
proof (rule relocation_sections_loop_chains)
  let ?n = "length (stab_sections secs)"
  show "chains_from C e secs symsec ?n (replicate ?n 0)"
    by (simp add: chains_from_def from_index_def first_or_0_def)
qed (use assms in \<open>simp_all add: RelocationSections_parse_def\<close>)

lemma chains_from_chain:
  assumes chains: "chains_from C e secs symsec 0 r" and null: "\<not> is_relocation_section C e secs 0"
    and n: "n = length (stab_sections secs)"
  shows "s < n \<Longrightarrow> \<not> is_relocation_section C e secs s \<Longrightarrow> reloc_chain r s (from_index (relocates C e secs symsec s) 0 n)"
proof -
  let ?R = "relocates C e secs symsec"
  have get: "RelocationSections_get r i = (case from_index (?R s) k n of [] \<Rightarrow> None | j # _ \<Rightarrow> Some j)"
    if "i < n" "r ! i = first_or_0 (from_index (?R s) k n)" for i s k
  proof (cases "from_index (?R s) k n")
    case (Cons j js)
    then have "j \<in> set (from_index (?R s) k n)" by simp
    then have "j \<noteq> 0" using null by (auto simp: from_index_def relocates_def intro: gr0I)
    then show ?thesis using that chains n Cons
      by (simp add: RelocationSections_get_def get_opt_def first_or_0_def chains_from_def Let_def)
  qed (use that chains n in \<open>simp add: RelocationSections_get_def get_opt_def first_or_0_def chains_from_def Let_def\<close>)
  have head: "P j \<and> j < n \<and> js = from_index P (Suc j) n" if "from_index P k n = j # js" for P k j js
    using that
  proof (induction "n - k" arbitrary: k)
    case (Suc d)
    show ?case
    proof (cases "P k")
      case False
      then have "from_index P (Suc k) n = j # js"
        using Suc.hyps(2) Suc.prems from_index_rec [of P k n] by (simp split: if_splits)
      moreover have "d = n - Suc k" using Suc.hyps(2) by simp
      ultimately show ?thesis using Suc.hyps(1) by blast
    next
      case True
      then show ?thesis using Suc.hyps(2) Suc.prems from_index_rec [of P k n] by (auto split: if_splits)
    qed
  qed (simp add: from_index_def)
  have link: "reloc_chain r i (from_index (?R s) k n)" if "i < n" "r ! i = first_or_0 (from_index (?R s) k n)" for i s k
    using that
  proof (induction "from_index (?R s) k n" arbitrary: i k)
    case Nil
    then show ?case using get [OF Nil(2,3)] by (simp add: chain_end flip: Nil(1))
  next
    case (Cons j js)
    note j = head [OF Cons(2) [symmetric]]
    then have "r ! j = first_or_0 (from_index (?R s) (Suc j) n)"
      using chains n by (simp add: chains_from_def Let_def)
    then have "reloc_chain r j js" using Cons(1) [of "Suc j" j] j by simp
    then show ?case using get [OF Cons(3,4)] by (simp add: chain_next flip: Cons(2))
  qed
  assume "s < n" "\<not> is_relocation_section C e secs s"
  then show ?thesis using link [of s s 0] chains n by (simp add: chains_from_def Let_def)
qed

section \<open>What the iterators return\<close>

lemma CrelIterator_next_header:
  assumes "crel_iterator_ok i" "CrelIterator_next i = (Ok (Some c), i')"
  shows "CrelIterator_is_rela i' = CrelIterator_is_rela i \<and> crel_iterator_ok i' \<and> crel_remaining i' < crel_remaining i"
proof -
  have i: "cs_index (ci_state i) < ch_count (ci_header i)" "crel_parse_with (ci_header i) i = (Ok c, i')"
    using assms(2) by (auto simp: CrelIterator_next_def CrelIterator_parse_def split: if_splits prod.splits result.splits)
  have "crel_at (ci_header i) (cs_index (ci_state i)) i" by (simp add: crel_at_def)
  then have "crel_at (ci_header i) (Suc (cs_index (ci_state i))) i'"
    using crel_parse_with_triple [of "ci_header i" "cs_index (ci_state i)"] assms(1) i
    unfolding crel_iterator_ok_def triple_def by blast
  then show ?thesis using assms(1) i(1)
    by (auto simp: crel_at_def CrelIterator_is_rela_def crel_iterator_ok_def crel_remaining_def)
qed

text \<open>The entries of a compact section up to its end or to the first error.\<close>

fun crel_prefix :: "nat \<Rightarrow> crel_iterator \<Rightarrow> crel list" where
  "crel_prefix 0 i = []"
| "crel_prefix (Suc n) i = (case CrelIterator_next i of (Ok (Some c), i) \<Rightarrow> c # crel_prefix n i | _ \<Rightarrow> [])"

fun relocation_entries_of :: "'w::len word rel_types \<Rightarrow> elf_relocation_iterator \<Rightarrow> crel list" where
  "relocation_entries_of T (ERI_Rel rs e) = map (Crel_from_rel T e) rs"
| "relocation_entries_of T (ERI_Rela rs e mips) = map (Crel_from_rela T e mips) rs"
| "relocation_entries_of T (ERI_Crel i) = crel_prefix (crel_remaining i) i"

fun relocation_iterator_ok :: "elf_relocation_iterator \<Rightarrow> bool" where
  "relocation_iterator_ok (ERI_Crel i) = crel_iterator_ok i"
| "relocation_iterator_ok _ = True"

lemma crel_prefix_end: "crel_remaining i = 0 \<Longrightarrow> crel_prefix n i = []"
  using crel_iter.at_end [of i] by (cases n) simp_all

lemma crel_prefix_enough:
  "crel_iterator_ok i \<Longrightarrow> crel_remaining i \<le> n \<Longrightarrow> crel_remaining i \<le> m \<Longrightarrow> crel_prefix n i = crel_prefix m i"
proof (induction n arbitrary: i m)
  case (Suc n)
  show ?case
  proof (cases m)
    case (Suc m')
    show ?thesis
    proof (cases "\<exists>c i'. CrelIterator_next i = (Ok (Some c), i')")
      case True
      then obtain c i' where step: "CrelIterator_next i = (Ok (Some c), i')" by blast
      then show ?thesis
        using CrelIterator_next_header [OF Suc.prems(1) step] Suc.IH [of i' m'] Suc.prems Suc by simp
    qed (use Suc in \<open>auto split: prod.splits result.splits option.splits\<close>)
  qed (use Suc.prems crel_prefix_end in \<open>simp del: crel_prefix.simps\<close>)
qed (simp add: crel_prefix_end)

lemma ElfRelocationIterator_next_view:
  assumes "relocation_iterator_ok it"
  shows "case relocation_entries_of T it of
      [] \<Rightarrow> fst (ElfRelocationIterator_next T it) = Ok None
    | a # as \<Rightarrow> \<exists>it'. ElfRelocationIterator_next T it = (Ok (Some a), it') \<and> relocation_iterator_ok it' \<and>
        relocation_entries_of T it' = as \<and> ElfRelocationIterator_is_rel it' = ElfRelocationIterator_is_rel it"
proof (cases it)
  case (ERI_Rel rs e)
  then show ?thesis by (cases rs) simp_all
next
  case (ERI_Rela rs e mips)
  then show ?thesis by (cases rs) simp_all
next
  case (ERI_Crel i)
  have ok: "crel_iterator_ok i" using assms ERI_Crel by simp
  have entries: "relocation_entries_of T it = crel_prefix (Suc (crel_remaining i)) i"
    using crel_prefix_enough [OF ok, of "Suc (crel_remaining i)" "crel_remaining i"] ERI_Crel by simp
  show ?thesis
  proof (cases "\<exists>c i'. CrelIterator_next i = (Ok (Some c), i')")
    case True
    then obtain c i' where step: "CrelIterator_next i = (Ok (Some c), i')" by blast
    note i' = CrelIterator_next_header [OF ok step]
    then have "crel_prefix (crel_remaining i) i' = crel_prefix (crel_remaining i') i'"
      by (intro crel_prefix_enough) simp_all
    then show ?thesis unfolding entries using step i' ERI_Crel by simp
  next
    case False
    then have "relocation_entries_of T it = []"
      unfolding entries by (auto split: prod.splits result.splits option.splits)
    moreover have "fst (ElfRelocationIterator_next T it) = Ok None"
      using False crel_iter.no_panic [OF ok] ERI_Crel by (auto split: prod.splits result.splits)
    ultimately show ?thesis by simp
  qed
qed

interpretation relocation_iter: iterator_view "ElfRelocationIterator_next T" "relocation_entries_of T" relocation_iterator_ok
  for T :: "'w::len word rel_types"
proof
  fix it assume ok: "relocation_iterator_ok it"
  note step = ElfRelocationIterator_next_view [OF ok, of T]
  show "relocation_entries_of T it = [] \<Longrightarrow> fst (ElfRelocationIterator_next T it) = Ok None" using step by simp
  show "relocation_entries_of T it = a # as \<Longrightarrow> \<exists>it'. ElfRelocationIterator_next T it = (Ok (Some a), it') \<and>
    relocation_iterator_ok it' \<and> relocation_entries_of T it' = as" for a as using step by auto
qed

text \<open>The relocations of a section of the file: those of an invalid section are skipped.\<close>

definition items_of :: "'w::len word elf_types \<Rightarrow> 'w word rel_types \<Rightarrow> elf_file \<Rightarrow> elf_relocation_iterator option \<Rightarrow>
    (u64 \<times> relocation) list" where
  "items_of C T file relocations =
    (case relocations of
       Some it \<Rightarrow> map (\<lambda>c. (crel_offset c, parse_relocation C (ef_header file) (ef_endian file) c
         (ElfRelocationIterator_is_rel it))) (relocation_entries_of T it)
     | None \<Rightarrow> [])"

definition section_items :: "'w::len word elf_types \<Rightarrow> 'w word rel_types \<Rightarrow> elf_file \<Rightarrow> nat \<Rightarrow> (u64 \<times> relocation) list" where
  "section_items C T file i =
    (case open_relocations C T file (stab_sections (ef_sections file) ! i) of
       Ok relocations \<Rightarrow> items_of C T file relocations | _ \<Rightarrow> [])"

definition rel_types_ok :: "'w::len word rel_types \<Rightarrow> bool" where
  "rel_types_ok T \<longleftrightarrow> rel_size T \<noteq> 0 \<and> rela_size T \<noteq> 0"

lemma open_relocations_ok:
  assumes "rel_types_ok T"
  obtains relocations where "open_relocations C T file sect = Ok relocations"
    "\<forall>it. relocations = Some it \<longrightarrow> relocation_iterator_ok it"
proof -
  have data: "section_data C sect (ef_endian file) (ef_data file) \<noteq> Panic"
    using read_bytes_at_no_panic by (auto simp: section_data_def res_simps split: option.splits)
  have array: "data_as_array n C sect (ef_endian file) (ef_data file) \<noteq> Panic" if "n \<noteq> 0" for n
    using that data slice_from_bytes_1_no_panic
    by (auto simp: data_as_array_def slice_from_all_bytes_def and_then_eq_Panic res_simps split: prod.splits if_splits)
  have crel: "CrelIterator_new d \<noteq> Panic" for d
    using read_uleb128_no_panic [of d] by (auto simp: CrelIterator_new_def and_then_eq_Panic res_simps Let_def split: prod.splits)
  have "\<exists>relocations. open_relocations C T file sect = Ok relocations \<and>
    (\<forall>it. relocations = Some it \<longrightarrow> relocation_iterator_ok it)"
    using assms array data crel CrelIterator_new_ok
    by (auto simp: open_relocations_def rel_types_ok_def Let_def split: result.splits)
  then show ?thesis using that by blast
qed

lemma current_relocation_cases:
  assumes "\<forall>it. it_relocations self = Some it \<longrightarrow> relocation_iterator_ok it"
  shows "case items_of C T file (it_relocations self) of
      [] \<Rightarrow> current_relocation C T file self = (Ok None, self\<lparr>it_relocations := None\<rparr>)
    | a # as \<Rightarrow> \<exists>it. current_relocation C T file self = (Ok (Some a), self\<lparr>it_relocations := Some it\<rparr>) \<and>
        relocation_iterator_ok it \<and> items_of C T file (Some it) = as"
proof (cases "it_relocations self")
  case None
  then show ?thesis by (cases self) (simp add: items_of_def current_relocation_def)
next
  case (Some it)
  then have ok: "relocation_iterator_ok it" using assms by simp
  show ?thesis
  proof (cases "relocation_entries_of T it")
    case Nil
    then show ?thesis
      using ElfRelocationIterator_next_view [OF ok, of T] Some
      by (cases "ElfRelocationIterator_next T it") (simp add: items_of_def current_relocation_def)
  next
    case (Cons c cs)
    then show ?thesis
      using ElfRelocationIterator_next_view [OF ok, of T] Some
      by (auto simp: items_of_def current_relocation_def)
  qed
qed

definition iterator_ok :: "relocation_iterator \<Rightarrow> bool" where
  "iterator_ok self \<longleftrightarrow> (\<forall>it. it_relocations self = Some it \<longrightarrow> relocation_iterator_ok it)"

lemma current_relocation_Nil:
  "iterator_ok self \<Longrightarrow> items_of C T file (it_relocations self) = [] \<Longrightarrow>
    current_relocation C T file self = (Ok None, self\<lparr>it_relocations := None\<rparr>)"
  using current_relocation_cases [of self C T "file"] by (simp add: iterator_ok_def)

lemma current_relocation_Cons:
  assumes "iterator_ok self" "items_of C T file (it_relocations self) = a # as"
  obtains it where "current_relocation C T file self = (Ok (Some a), self\<lparr>it_relocations := Some it\<rparr>)"
    "iterator_ok (self\<lparr>it_relocations := Some it\<rparr>)" "items_of C T file (Some it) = as"
  using current_relocation_cases [of self C T "file"] assms by (auto simp: iterator_ok_def)

text \<open>A loop over either iterator first returns what is left of the current relocation section.\<close>

lemma exhaust_items:
  assumes "\<And>self a it. current_relocation C T file self = (Ok (Some a), self\<lparr>it_relocations := Some it\<rparr>) \<Longrightarrow>
      nxt self = Some (Ok (Some a), self\<lparr>it_relocations := Some it\<rparr>)"
    and "\<And>self. iterator_ok self \<Longrightarrow> it_section_index self = index \<Longrightarrow> items_of C T file (it_relocations self) = [] \<Longrightarrow>
      exhaust nxt self = Some (Ok rest)"
  shows "iterator_ok self \<Longrightarrow> it_section_index self = index \<Longrightarrow>
    exhaust nxt self = Some (Ok (items_of C T file (it_relocations self) @ rest))"
proof (induction "items_of C T file (it_relocations self)" arbitrary: self)
  case Nil
  then show ?case using assms(2) by simp
next
  case (Cons a as)
  obtain it where it: "current_relocation C T file self = (Ok (Some a), self\<lparr>it_relocations := Some it\<rparr>)"
    "iterator_ok (self\<lparr>it_relocations := Some it\<rparr>)" "items_of C T file (Some it) = as"
    using current_relocation_Cons [OF Cons.prems(1) Cons.hyps(2) [symmetric]] .
  have "exhaust nxt (self\<lparr>it_relocations := Some it\<rparr>) = Some (Ok (as @ rest))"
    using Cons.hyps(1) [of "self\<lparr>it_relocations := Some it\<rparr>"] it Cons.prems(2) by simp
  then have "exhaust nxt self = Some (Ok (a # as @ rest))"
    by (rule exhaust_item [where nxt = nxt and it = self, OF assms(1) [OF it(1)]])
  then show ?case by (simp flip: Cons.hyps(2))
qed

lemma exhaust_section_relocations:
  assumes "reloc_chain (ef_relocations file) index chain" "rel_types_ok T"
    and "\<forall>i \<in> set chain. 0 < i \<and> i < length (stab_sections (ef_sections file))"
  shows "iterator_ok self \<Longrightarrow> it_section_index self = index \<Longrightarrow>
    exhaust (ElfSectionRelocationIterator_next C T file) self =
      Some (Ok (items_of C T file (it_relocations self) @ concat (map (section_items C T file) chain)))"
  using assms(1,3)
proof (induction index chain arbitrary: self rule: reloc_chain.induct)
  case (chain_end s)
  show ?case
  proof (rule exhaust_items [where index = s])
    show "ElfSectionRelocationIterator_next C T file self = Some (Ok (Some a), self\<lparr>it_relocations := Some it\<rparr>)"
      if "current_relocation C T file self = (Ok (Some a), self\<lparr>it_relocations := Some it\<rparr>)" for self a it
      using that by (simp add: ElfSectionRelocationIterator_next.simps)
    show "exhaust (ElfSectionRelocationIterator_next C T file) self = Some (Ok (concat (map (section_items C T file) [])))"
      if "iterator_ok self" "it_section_index self = s" "items_of C T file (it_relocations self) = []" for self
    proof -
      have "ElfSectionRelocationIterator_next C T file self = Some (Ok None, self\<lparr>it_relocations := None\<rparr>)"
        using that(2) chain_end(1) current_relocation_Nil [OF that(1,3)]
        by (simp add: ElfSectionRelocationIterator_next.simps)
      then show ?thesis by (simp add: exhaust_end)
    qed
  qed (use chain_end in simp_all)
next
  case (chain_next s i chain)
  let ?secs = "stab_sections (ef_sections file)"
  have i: "SectionTable_section (ef_sections file) i = Ok (?secs ! i)"
    using chain_next.prems(3) by (simp add: SectionTable_section_def get_opt_def)
  obtain relocations where relocations: "open_relocations C T file (?secs ! i) = Ok relocations"
    "\<forall>it. relocations = Some it \<longrightarrow> relocation_iterator_ok it"
    using open_relocations_ok [OF assms(2)] .
  show ?case
  proof (rule exhaust_items [where index = s])
    show "ElfSectionRelocationIterator_next C T file self = Some (Ok (Some a), self\<lparr>it_relocations := Some it\<rparr>)"
      if "current_relocation C T file self = (Ok (Some a), self\<lparr>it_relocations := Some it\<rparr>)" for self a it
      using that by (simp add: ElfSectionRelocationIterator_next.simps)
    show "exhaust (ElfSectionRelocationIterator_next C T file) self =
        Some (Ok (concat (map (section_items C T file) (i # chain))))"
      if self: "iterator_ok self" "it_section_index self = s" "items_of C T file (it_relocations self) = []" for self
    proof -
      let ?self = "self\<lparr>it_section_index := i, it_relocations := relocations\<rparr>"
      have "ElfSectionRelocationIterator_next C T file self = ElfSectionRelocationIterator_next C T file ?self"
        using chain_next(1) i relocations(1) self(2) current_relocation_Nil [OF self(1,3)]
        by (simp add: ElfSectionRelocationIterator_next.simps [of C T "file" self])
      then have "exhaust (ElfSectionRelocationIterator_next C T file) self =
          exhaust (ElfSectionRelocationIterator_next C T file) ?self" by (rule exhaust_same)
      also have "\<dots> = Some (Ok (items_of C T file relocations @ concat (map (section_items C T file) chain)))"
        using chain_next.IH [of ?self] relocations(2) chain_next.prems(3) by (simp add: iterator_ok_def)
      finally show ?thesis by (simp add: section_items_def relocations(1))
    qed
  qed (use chain_next in simp_all)
qed

definition uses_dynamic_symbols :: "'w::len word elf_types \<Rightarrow> elf_file \<Rightarrow> nat \<Rightarrow> bool" where
  "uses_dynamic_symbols C file i \<longleftrightarrow>
    section_link C (stab_sections (ef_sections file) ! i) (ef_endian file) = symt_section (ef_dynamic_symbols file)"

lemma exhaust_dynamic_relocations:
  assumes "rel_types_ok T" "n = length (stab_sections (ef_sections file))"
  shows "iterator_ok self \<Longrightarrow> 0 < it_section_index self \<Longrightarrow>
    exhaust (\<lambda>self. Some (ElfDynamicRelocationIterator_next C T file self)) self =
      Some (Ok (items_of C T file (it_relocations self) @
        concat (map (section_items C T file) (filter (uses_dynamic_symbols C file) [it_section_index self..<n]))))"
proof (induction "n - it_section_index self" arbitrary: self rule: less_induct)
  case less
  let ?nxt = "\<lambda>self. Some (ElfDynamicRelocationIterator_next C T file self)"
  let ?k = "it_section_index self" and ?secs = "stab_sections (ef_sections file)"
  note unfold = ElfDynamicRelocationIterator_next.simps
  show ?case
  proof (rule exhaust_items [where index = ?k])
    show "?nxt self = Some (Ok (Some a), self\<lparr>it_relocations := Some it\<rparr>)"
      if "current_relocation C T file self = (Ok (Some a), self\<lparr>it_relocations := Some it\<rparr>)" for self a it
      using that by (simp add: unfold)
    show "exhaust ?nxt self2 = Some (Ok (concat (map (section_items C T file) (filter (uses_dynamic_symbols C file) [?k..<n]))))"
      if self: "iterator_ok self2" "it_section_index self2 = ?k" "items_of C T file (it_relocations self2) = []" for self2
    proof (cases "?k < n")
      case False
      then have "?nxt self2 = Some (Ok None, self2\<lparr>it_relocations := None\<rparr>)"
        using current_relocation_Nil [OF self(1,3)] self(2) assms(2)
        by (simp add: unfold [of C T "file" self2] SectionTable_section_def get_opt_def)
      then have "exhaust ?nxt self2 = Some (Ok [])" by (rule exhaust_end [where nxt = ?nxt])
      then show ?thesis using False by simp
    next
      case True
      have sect: "SectionTable_section (ef_sections file) ?k = Ok (?secs ! ?k)"
        using True less.prems assms(2) by (simp add: SectionTable_section_def get_opt_def)
      obtain relocations where relocations: "open_relocations C T file (?secs ! ?k) = Ok relocations"
        "\<forall>it. relocations = Some it \<longrightarrow> relocation_iterator_ok it"
        using open_relocations_ok [OF assms(1)] .
      let ?self = "self2\<lparr>it_section_index := Suc ?k, it_relocations := if uses_dynamic_symbols C file ?k then relocations else None\<rparr>"
      obtain r2 where self2: "self2 = \<lparr>it_section_index = ?k, it_relocations = r2\<rparr>"
        using self(2) by (cases self2) simp
      have "?nxt self2 = ?nxt ?self"
        using sect relocations(1) current_relocation_Nil [OF self(1,3)] unfolding self2
        by (simp add: unfold [of C T "file" "\<lparr>it_section_index = ?k, it_relocations = r2\<rparr>"]
            uses_dynamic_symbols_def Let_def)
      then have "exhaust ?nxt self2 = exhaust ?nxt ?self" by (rule exhaust_same)
      also have "\<dots> = Some (Ok (items_of C T file (it_relocations ?self) @
          concat (map (section_items C T file) (filter (uses_dynamic_symbols C file) [Suc ?k..<n]))))"
        using less.hyps [of ?self] True relocations(2) by (simp add: iterator_ok_def)
      finally show ?thesis using True relocations(1)
        by (simp add: section_items_def upt_conv_Cons items_of_def)
    qed
  qed (use less.prems in simp_all)
qed

section \<open>Properties\<close>

lemma RelocationSections_parse_no_panic: "RelocationSections_parse C e secs symsec \<noteq> Panic"
proof -
  have step: "relocation_sections_step C e secs symsec x r \<noteq> Panic \<and>
      (\<forall>r'. relocation_sections_step C e secs symsec x r = Ok r' \<longrightarrow> length r' = length r)"
    if "fst x < length r" for x r
    using that
    by (cases x) (auto simp: relocation_sections_step_def SectionTable_section_def and_then_eq_Panic res_simps Let_def
        index_list_def list_assign_def ok_or_def split: option.splits if_splits)
  have "relocation_sections_loop C e secs symsec xs r \<noteq> Panic" if "\<forall>x \<in> set xs. fst x < length r" for xs r
    using that
  proof (induction xs arbitrary: r)
    case (Cons x xs)
    then show ?case using step [of x r] by (auto simp: and_then_eq_Panic)
  qed simp
  then show ?thesis by (auto simp: RelocationSections_parse_def in_set_enumerate_eq)
qed

text \<open>C27: the map of relocation sections is built without a panic; when the null section is no relocation section, following it from a section that is no relocation section leads through exactly the relocation sections that use the symbol table and name this section, in ascending order, and ends.\<close>

theorem relocation_sections_chains:
  assumes "RelocationSections_parse C e secs symsec = Ok r" "\<not> is_relocation_section C e secs 0"
    and "s < length (stab_sections secs)" "\<not> is_relocation_section C e secs s"
  shows "reloc_chain r s (filter (relocates C e secs symsec s) [0..<length (stab_sections secs)])"
  using chains_from_chain [OF RelocationSections_parse_chains [OF assms(1)] assms(2) refl assms(3,4)]
  by (simp add: from_index_def)


text \<open>An example: a null section, a section with two relocation sections, and these two.\<close>

definition example_header :: "u32 \<Rightarrow> u32 \<Rightarrow> u64 \<Rightarrow> u64 \<Rightarrow> u64 section_header" where
  "example_header ty info offset sz = \<lparr>sh_name = 0, sh_type = ty, sh_flags = 0, sh_addr = 0, sh_offset = offset,
     sh_size = sz, sh_link = 0, sh_info = info, sh_addralign = 0, sh_entsize = 0\<rparr>"

definition example_sections :: section_table where
  "example_sections = \<lparr>stab_sections = map (encode_section_header Little)
     [example_header 0 0 0 0, example_header 1 0 0 0, example_header SHT_REL 1 0 16, example_header SHT_RELA 1 16 24],
     stab_strings = StringTable_default\<rparr>"

definition example_file :: elf_file where
  "example_file = \<lparr>ef_endian = Little, ef_data = replicate 40 0, ef_header = replicate 64 0, ef_segments = [],
     ef_sections = example_sections, ef_relocations = [0, 2, 3, 0],
     ef_symbols = SymbolTable_default, ef_dynamic_symbols = SymbolTable_default\<rparr>"

lemma example_section_at: "section_at Elf64 e (encode_section_header e s) = s"
  by (simp add: section_at_def decode_encode_section_header)

lemmas example_simps = example_sections_def example_header_def section_link_def info_link_def example_section_at
  is_relocation_section_def is_relocation_type_def

lemma example_parse: "RelocationSections_parse Elf64 Little example_sections 0 = Ok [0, 2, 3, 0]"
  by (simp add: RelocationSections_parse_def relocation_sections_step_def SectionTable_section_def get_opt_def
      index_list_def list_assign_def ok_or_def Let_def example_simps)

lemma example_relocates: "filter (relocates Elf64 Little example_sections 0 1) [0..<4] = [2, 3]"
  by (simp add: relocates_def example_simps upt_rec [of _ "4"])

lemma example_facts:
  "length (stab_sections example_sections) = 4" "\<not> is_relocation_section Elf64 Little example_sections 0"
  "\<not> is_relocation_section Elf64 Little example_sections 1"
  by (simp_all add: example_simps)

theorem relocation_sections_chains_witness: "reloc_chain [0, 2, 3, 0] 1 [2, 3]"
  using relocation_sections_chains [OF example_parse example_facts(2), of 1] example_relocates example_facts by simp

text \<open>C28: in a file whose null section is no relocation section, iterating over the relocations of a section that is not itself a relocation section ends, and returns the relocations of exactly the relocation sections that use the symbol table and name this section, in the order of the section table; relocation sections with invalid data are skipped. (For a relocation section the links go on to the next relocation section of the same target.)\<close>

theorem section_relocations_complete:
  assumes "RelocationSections_parse C (ef_endian file) (ef_sections file) (symt_section (ef_symbols file)) =
      Ok (ef_relocations file)"
    and "\<not> is_relocation_section C (ef_endian file) (ef_sections file) 0" "rel_types_ok T"
    and "n = length (stab_sections (ef_sections file))" "s < n"
    and "\<not> is_relocation_section C (ef_endian file) (ef_sections file) s"
  shows "exhaust (ElfSectionRelocationIterator_next C T file) (ElfSection_relocations s) =
    Some (Ok (concat (map (section_items C T file)
      (filter (relocates C (ef_endian file) (ef_sections file) (symt_section (ef_symbols file)) s) [0..<n]))))"
proof -
  let ?chain = "filter (relocates C (ef_endian file) (ef_sections file) (symt_section (ef_symbols file)) s) [0..<n]"
  have "reloc_chain (ef_relocations file) s ?chain"
    using chains_from_chain [OF RelocationSections_parse_chains [OF assms(1)] assms(2,4-6)] by (simp add: from_index_def)
  moreover have "\<forall>i \<in> set ?chain. 0 < i \<and> i < length (stab_sections (ef_sections file))"
    using assms(2,4) by (auto simp: relocates_def intro: gr0I)
  ultimately show ?thesis
    using exhaust_section_relocations [OF _ assms(3), of "file" s ?chain "ElfSection_relocations s" C]
    by (simp add: ElfSection_relocations_def iterator_ok_def items_of_def)
qed

theorem section_relocations_complete_witness:
  "exhaust (ElfSectionRelocationIterator_next Elf64 Rel64 example_file) (ElfSection_relocations 1) =
    Some (Ok (section_items Elf64 Rel64 example_file 2 @ section_items Elf64 Rel64 example_file 3))"
proof -
  have "ef_endian example_file = Little" "ef_sections example_file = example_sections"
    "symt_section (ef_symbols example_file) = 0" "ef_relocations example_file = [0, 2, 3, 0]"
    by (simp_all add: example_file_def SymbolTable_default_def)
  then show ?thesis
    using section_relocations_complete [of Elf64 example_file Rel64 4 1] example_parse example_relocates example_facts
    by (simp add: rel_types_ok_def Rel64_def)
qed

text \<open>C29: iterating over the dynamic relocations of any file ends, and returns the relocations of the sections after the null section that are linked to the dynamic symbol table.\<close>

theorem dynamic_relocations_complete:
  assumes "rel_types_ok T" "n = length (stab_sections (ef_sections file))"
  shows "exhaust (\<lambda>self. Some (ElfDynamicRelocationIterator_next C T file self)) ElfFile_dynamic_relocations =
    Some (Ok (concat (map (section_items C T file) (filter (uses_dynamic_symbols C file) [1..<n]))))"
  using exhaust_dynamic_relocations [OF assms, of ElfFile_dynamic_relocations C]
  by (simp add: ElfFile_dynamic_relocations_def iterator_ok_def items_of_def)

theorem dynamic_relocations_complete_witness:
  "exhaust (\<lambda>self. Some (ElfDynamicRelocationIterator_next Elf64 Rel64 example_file self)) ElfFile_dynamic_relocations =
    Some (Ok (concat (map (section_items Elf64 Rel64 example_file) [1, 2, 3])))"
proof -
  have "filter (uses_dynamic_symbols Elf64 example_file) [1..<4] = [1, 2, 3]"
    by (simp add: example_file_def SymbolTable_default_def uses_dynamic_symbols_def example_simps upt_rec [of _ "4"])
  moreover have "length (stab_sections (ef_sections example_file)) = 4" "rel_types_ok Rel64"
    by (simp_all add: example_file_def example_facts rel_types_ok_def Rel64_def)
  ultimately show ?thesis using dynamic_relocations_complete [of Rel64 4 example_file Elf64] by metis
qed

end
