(* ===== verification/Read_Cache.thy ===== *)
theory Read_Cache
  imports Read_Ref Iterators
begin

text \<open>
  \<^verbatim>\<open>src/read/read_cache.rs\<close>: a \<^verbatim>\<open>ReadRef\<close> for a stream. The stream is a parameter, the operations
  \<^verbatim>\<open>ReadCacheOps\<close> with the behaviour that their documentation promises (the locale \<open>read_stream\<close>);
  \<open>byte_stream\<close> is the stream over a list of bytes. The cache is state, and the methods (which
  take \<^verbatim>\<open>&self\<close> with a \<^verbatim>\<open>RefCell\<close>) return the new one.
\<close>

section \<open>ReadCacheOps\<close>

record 'r read_cache_ops =
  rc_len :: "'r \<Rightarrow> (u64, unit) result \<times> 'r"
  rc_seek :: "u64 \<Rightarrow> 'r \<Rightarrow> (u64, unit) result \<times> 'r"
  rc_read :: "nat \<Rightarrow> 'r \<Rightarrow> (bytes, unit) result \<times> 'r"
  rc_read_exact :: "nat \<Rightarrow> 'r \<Rightarrow> (bytes, unit) result \<times> 'r"

section \<open>ReadCache\<close>

record 'r read_cache =
  rci_read :: 'r
  rci_bufs :: "u64 \<times> u64 \<Rightarrow> bytes option"
  rci_strings :: "u64 \<times> u8 \<Rightarrow> bytes option"
  rci_len :: "u64 option"

type_synonym ('r, 'a) cached = "'r read_cache \<Rightarrow> ('a, unit) result \<times> 'r read_cache"

definition with_read :: "('r \<Rightarrow> ('a, unit) result \<times> 'r) \<Rightarrow> ('r, 'a) cached" where
  "with_read m self = (case m (rci_read self) of (r, rd) \<Rightarrow> (r, self\<lparr>rci_read := rd\<rparr>))"

definition ReadCacheInternal_len :: "'r read_cache_ops \<Rightarrow> ('r, u64) cached" where
  "ReadCacheInternal_len ops self =
    (case rci_len self of
       Some len \<Rightarrow> (Ok len, self)
     | None \<Rightarrow> state_then (with_read (rc_len ops)) (\<lambda>len self. (Ok len, self\<lparr>rci_len := Some len\<rparr>)) self)"

definition range_in_bounds :: "'r read_cache_ops \<Rightarrow> u64 \<Rightarrow> u64 \<Rightarrow> ('r, unit) cached" where
  "range_in_bounds ops start end1 =
    (if start \<le> end1
     then state_then (ReadCacheInternal_len ops) (\<lambda>len. state_lift (if end1 \<le> len then Ok () else Err ()))
     else state_lift (Err ()))"

definition ReadCache_new :: "'r \<Rightarrow> 'r read_cache" where
  "ReadCache_new rd = \<lparr>rci_read = rd, rci_bufs = (\<lambda>_. None), rci_strings = (\<lambda>_. None), rci_len = None\<rparr>"

definition ReadCache_clear :: "'r read_cache \<Rightarrow> 'r read_cache" where
  "ReadCache_clear self = self\<lparr>rci_bufs := (\<lambda>_. None)\<rparr>"

definition ReadCache_into_inner :: "'r read_cache \<Rightarrow> 'r" where
  "ReadCache_into_inner self = rci_read self"

definition ReadCache_len :: "'r read_cache_ops \<Rightarrow> ('r, u64) cached" where
  "ReadCache_len ops = ReadCacheInternal_len ops"

text \<open>A reservation of more than \<^verbatim>\<open>isize::MAX\<close> bytes is a \<^verbatim>\<open>CapacityOverflow\<close>.\<close>

definition try_reserve_exact :: "nat \<Rightarrow> (unit, unit) result" where
  "try_reserve_exact n = (if n \<le> isize_max then Ok () else Err ())"

definition fill_buf :: "'r read_cache_ops \<Rightarrow> u64 \<Rightarrow> u64 \<Rightarrow> ('r, bytes) cached" where
  "fill_buf ops offset sz =
    state_then (with_read (rc_seek ops offset)) (\<lambda>_.
    state_then (state_lift (try_reserve_exact (unat sz))) (\<lambda>_.
    state_then (with_read (rc_read_exact ops (unat sz))) (\<lambda>bytes self.
    (Ok bytes, self\<lparr>rci_bufs := (rci_bufs self)((offset, sz) \<mapsto> bytes)\<rparr>))))"

definition ReadCache_read_bytes_at :: "'r read_cache_ops \<Rightarrow> u64 \<Rightarrow> u64 \<Rightarrow> ('r, bytes) cached" where
  "ReadCache_read_bytes_at ops offset sz =
    (if sz = 0 then state_lift (Ok [])
     else
       state_then (range_in_bounds ops offset (word_saturating_add offset sz)) (\<lambda>_ self.
       case rci_bufs self (offset, sz) of
         Some buf \<Rightarrow> (Ok buf, self)
       | None \<Rightarrow> fill_buf ops offset sz self))"

definition vec_resize :: "nat \<Rightarrow> 'a \<Rightarrow> 'a list \<Rightarrow> 'a list" where
  "vec_resize n a xs = take n xs @ replicate (n - length xs) a"

text \<open>The loop that fills the buffer; every read that does not end it advances \<^verbatim>\<open>checked\<close>.\<close>

function until_loop :: "'r read_cache_ops \<Rightarrow> (u8 \<Rightarrow> bytes \<Rightarrow> nat option) \<Rightarrow> nat \<Rightarrow> u8 \<Rightarrow> bytes \<Rightarrow> nat \<Rightarrow> ('r, bytes) cached" where
  "until_loop ops memchr max_check delimiter bytes checked self =
    (let buf = vec_resize (min (checked + 256) max_check) 0 bytes in
     if length buf < checked then (Panic, self)
     else
       (case with_read (rc_read ops (length buf - checked)) self of
          (Ok got, self) \<Rightarrow>
            if got = [] then (Err (), self)
            else if length buf < checked + length got then (Panic, self)
            else
              let bytes = take checked buf @ got @ drop (checked + length got) buf in
              (case memchr delimiter got of
                 Some len \<Rightarrow> (Ok (take (checked + len) bytes), self)
               | None \<Rightarrow>
                   if max_check \<le> checked + length got then (Err (), self)
                   else until_loop ops memchr max_check delimiter bytes (checked + length got) self)
        | (Err e, self) \<Rightarrow> (Err e, self)
        | (Panic, self) \<Rightarrow> (Panic, self)))"
  by pat_completeness auto
termination
  by (relation "measure (\<lambda>(ops, memchr, max_check, delimiter, bytes, checked, self). max_check - checked)")
    (auto simp: neq_Nil_conv)

declare until_loop.simps [simp del]

lemma until_loop_step:
  assumes "buf = vec_resize (min (checked + 256) max_check) 0 bytes"
    and "with_read (rc_read ops (length buf - checked)) self = (Ok got, self')"
    and "got \<noteq> []" "checked + length got \<le> length buf"
  shows "until_loop ops memchr max_check delimiter bytes checked self =
    (case memchr delimiter got of
       Some len \<Rightarrow> (Ok (take (checked + len) (take checked buf @ got @ drop (checked + length got) buf)), self')
     | None \<Rightarrow>
         if max_check \<le> checked + length got then (Err (), self')
         else until_loop ops memchr max_check delimiter (take checked buf @ got @ drop (checked + length got) buf)
           (checked + length got) self')"
  using assms(2-4) unfolding until_loop.simps [of ops memchr max_check delimiter bytes checked self] Let_def assms(1)
  by (simp split: option.split)

lemma until_loop_stop:
  assumes "buf = vec_resize (min (checked + 256) max_check) 0 bytes" "checked \<le> length buf"
    and "with_read (rc_read ops (length buf - checked)) self = (r, self')" "\<forall>got. r = Ok got \<longrightarrow> got = []"
  shows "until_loop ops memchr max_check delimiter bytes checked self =
    (case r of Panic \<Rightarrow> Panic | _ \<Rightarrow> Err (), self')"
  using assms by (cases r) (simp_all add: until_loop.simps [of ops memchr max_check delimiter bytes checked self] Let_def)

definition fill_string :: "'r read_cache_ops \<Rightarrow> (u8 \<Rightarrow> bytes \<Rightarrow> nat option) \<Rightarrow> u64 \<Rightarrow> u64 \<Rightarrow> u8 \<Rightarrow> ('r, bytes) cached" where
  "fill_string ops memchr start end1 delimiter =
    state_then (with_read (rc_seek ops start)) (\<lambda>_.
    state_then (state_lift (word_sub end1 start)) (\<lambda>max_check.
    state_then (until_loop ops memchr (min (unat max_check) 4096) delimiter [] 0) (\<lambda>bytes self.
    (Ok bytes, self\<lparr>rci_strings := (rci_strings self)((start, delimiter) \<mapsto> bytes)\<rparr>))))"

definition ReadCache_read_bytes_at_until :: "'r read_cache_ops \<Rightarrow> (u8 \<Rightarrow> bytes \<Rightarrow> nat option) \<Rightarrow> u64 \<Rightarrow> u64 \<Rightarrow> u8 \<Rightarrow>
    ('r, bytes) cached" where
  "ReadCache_read_bytes_at_until ops memchr start end1 delimiter =
    state_then (range_in_bounds ops start end1) (\<lambda>_ self.
    case rci_strings self (start, delimiter) of
      Some buf \<Rightarrow> (Ok buf, self)
    | None \<Rightarrow> fill_string ops memchr start end1 delimiter self)"

section \<open>ReadCacheRange\<close>

text \<open>The range shares the cache, which is passed in and out.\<close>

record cache_range =
  rcr_offset :: u64
  rcr_size :: u64

definition ReadCache_range :: "u64 \<Rightarrow> u64 \<Rightarrow> cache_range" where
  "ReadCache_range offset sz = \<lparr>rcr_offset = offset, rcr_size = sz\<rparr>"

definition ReadCacheRange_len :: "cache_range \<Rightarrow> (u64, unit) result" where
  "ReadCacheRange_len self = Ok (rcr_size self)"

definition ReadCacheRange_read_bytes_at :: "'r read_cache_ops \<Rightarrow> cache_range \<Rightarrow> u64 \<Rightarrow> u64 \<Rightarrow> ('r, bytes) cached" where
  "ReadCacheRange_read_bytes_at ops self offset sz =
    (if sz = 0 then state_lift (Ok [])
     else
       state_then (state_lift (ok_or (word_checked_add offset sz) ())) (\<lambda>end1.
       if end1 > rcr_size self then state_lift (Err ())
       else
         state_then (state_lift (ok_or (word_checked_add (rcr_offset self) offset) ())) (\<lambda>r_offset.
         ReadCache_read_bytes_at ops r_offset sz)))"

definition ReadCacheRange_read_bytes_at_until :: "'r read_cache_ops \<Rightarrow> (u8 \<Rightarrow> bytes \<Rightarrow> nat option) \<Rightarrow> cache_range \<Rightarrow>
    u64 \<Rightarrow> u64 \<Rightarrow> u8 \<Rightarrow> ('r, bytes) cached" where
  "ReadCacheRange_read_bytes_at_until ops memchr self start end1 delimiter =
    state_then (state_lift (ok_or (word_checked_add (rcr_offset self) start) ())) (\<lambda>r_start.
    state_then (state_lift (ok_or (word_checked_add (rcr_offset self) end1) ())) (\<lambda>r_end.
    state_then (ReadCache_read_bytes_at_until ops memchr r_start r_end delimiter) (\<lambda>bytes.
    state_then (state_lift (ok_or (word_checked_add start (word_of_nat (length bytes))) ())) (\<lambda>end1.
    if end1 > rcr_size self then state_lift (Err ()) else state_lift (Ok bytes)))))"

section \<open>The contract of a stream\<close>

text \<open>
  \<open>contents\<close> is what the stream reads, \<open>pos\<close> its position, \<open>usable\<close> the invariant of the reader. Any
  operation may fail.
\<close>

locale read_stream =
  fixes ops :: "'r read_cache_ops" and contents :: bytes and pos :: "'r \<Rightarrow> nat" and usable :: "'r \<Rightarrow> bool"
  assumes bounded: "usable r \<Longrightarrow> length contents \<le> usize_max"
    and len_law: "triple usable usable (rc_len ops) (\<lambda>n r. usable r \<and> unat n = length contents)"
    and seek_law: "triple usable usable (rc_seek ops p) (\<lambda>_ r. usable r \<and> pos r = unat p)"
    and read_law: "triple usable (\<lambda>r. usable r \<and> pos r = q) (rc_read ops n)
      (\<lambda>bs r. usable r \<and> pos r = q + length bs \<and> length bs \<le> n \<and> bs = slice_at contents q (length bs))"
    and exact_law: "triple usable (\<lambda>r. usable r \<and> pos r = q) (rc_read_exact ops n)
      (\<lambda>bs r. usable r \<and> length bs = n \<and> bs = slice_at contents q n)"

text \<open>A stream that does not fail, and is short enough to be in memory.\<close>

locale reliable_stream = read_stream +
  assumes short: "usable r \<Longrightarrow> length contents \<le> isize_max"
    and len_ok: "usable r \<Longrightarrow> \<exists>r' n. rc_len ops r = (Ok n, r')"
    and seek_ok: "usable r \<Longrightarrow> \<exists>r' n. rc_seek ops p r = (Ok n, r')"
    and read_ok: "usable r \<Longrightarrow> 0 < n \<Longrightarrow> pos r < length contents \<Longrightarrow> \<exists>bs r'. rc_read ops n r = (Ok bs, r') \<and> bs \<noteq> []"
    and exact_ok: "usable r \<Longrightarrow> pos r + n \<le> length contents \<Longrightarrow> \<exists>bs r'. rc_read_exact ops n r = (Ok bs, r')"

text \<open>The string at an offset: what stands before the first delimiter.\<close>

definition string_from :: "bytes \<Rightarrow> nat \<Rightarrow> u8 \<Rightarrow> bytes \<Rightarrow> bool" where
  "string_from contents start delimiter bs \<longleftrightarrow>
    delimiter \<in> set (drop start contents) \<and> bs = takeWhile (\<lambda>b. b \<noteq> delimiter) (drop start contents)"

text \<open>The entries of the cache are parts of the contents.\<close>

definition entries_ok :: "bytes \<Rightarrow> 'r read_cache \<Rightarrow> bool" where
  "entries_ok contents c \<longleftrightarrow>
    (\<forall>offset sz bs. rci_bufs c (offset, sz) = Some bs \<longrightarrow> read_bytes_at contents offset sz = Ok bs) \<and>
    (\<forall>start d bs. rci_strings c (start, d) = Some bs \<longrightarrow> string_from contents (unat start) d bs) \<and>
    (\<forall>n. rci_len c = Some n \<longrightarrow> unat n = length contents)"

lemma memchr_takeWhile:
  assumes "memchr_spec mc" "mc d xs = Some i"
  shows "i < length xs" "d \<in> set xs" "takeWhile (\<lambda>b. b \<noteq> d) (xs @ ys) = take i xs"
proof -
  note i = memchr_SomeD [OF assms]
  show "i < length xs" "d \<in> set xs" using i by auto
  have "xs = take i xs @ d # drop (Suc i) xs" using i by (metis id_take_nth_drop)
  moreover have "takeWhile (\<lambda>b. b \<noteq> d) (take i xs @ d # zs) = take i xs" for zs
    using i by (simp add: takeWhile_append)
  ultimately show "takeWhile (\<lambda>b. b \<noteq> d) (xs @ ys) = take i xs" by (metis append.assoc append_Cons)
qed

lemma take_vec_resize: "c \<le> length xs \<Longrightarrow> c \<le> n \<Longrightarrow> take c (vec_resize n a xs) = take c xs"
  by (simp add: vec_resize_def min_def)

lemma length_vec_resize [simp]: "length (vec_resize n a xs) = n"
  by (simp add: vec_resize_def)

lemma entries_ok_read [simp]: "entries_ok contents (c\<lparr>rci_read := rd\<rparr>) \<longleftrightarrow> entries_ok contents c"
  by (simp add: entries_ok_def)

lemma entries_ok_new: "entries_ok contents (ReadCache_new rd)"
  by (simp add: entries_ok_def ReadCache_new_def)

lemma entries_ok_clear: "entries_ok contents c \<Longrightarrow> entries_ok contents (ReadCache_clear c)"
  by (simp add: entries_ok_def ReadCache_clear_def)

definition cache_ok :: "('r \<Rightarrow> bool) \<Rightarrow> bytes \<Rightarrow> 'r read_cache \<Rightarrow> bool" where
  "cache_ok usable contents c \<longleftrightarrow> usable (rci_read c) \<and> entries_ok contents c"

lemma with_read_triple:
  assumes "triple E P m Q"
  shows "triple (cache_ok E contents) (cache_ok P contents) (with_read m) (\<lambda>a. cache_ok (Q a) contents)"
  using assms by (auto simp: triple_def with_read_def cache_ok_def split: prod.splits)

lemma split_next:
  assumes "got = slice_at xs (start + c) (length got)" "ys = drop start xs"
  shows "ys = take c ys @ got @ drop (c + length got) ys" "got \<noteq> [] \<Longrightarrow> c + length got \<le> length ys"
proof -
  have got: "take (length got) (drop c ys) = got"
    using assms by (simp add: slice_at_def add.commute)
  have "drop c ys = got @ drop (length got) (drop c ys)"
    using append_take_drop_id [of "length got" "drop c ys"] unfolding got by (rule sym)
  then have "drop c ys = got @ drop (c + length got) ys" by (simp add: add.commute)
  then show "ys = take c ys @ got @ drop (c + length got) ys"
    using append_take_drop_id [of c ys] by simp
  have "length got \<le> length ys - c" using arg_cong [OF got, of length] by simp
  then show "c + length got \<le> length ys" if "got \<noteq> []" using that by (cases got) auto
qed

context read_stream
begin

abbreviation valid_cache :: "'r read_cache \<Rightarrow> bool" where
  "valid_cache \<equiv> cache_ok usable contents"

lemmas with_read_laws = with_read_triple [OF len_law, of contents] with_read_triple [OF seek_law, of contents]
  with_read_triple [OF read_law, of contents] with_read_triple [OF exact_law, of contents]

lemma len_triple: "triple valid_cache valid_cache (ReadCacheInternal_len ops) (\<lambda>n c. valid_cache c \<and> unat n = length contents)"
proof -
  have store: "triple valid_cache (cache_ok (\<lambda>r. usable r \<and> unat n = length contents) contents)
      (\<lambda>self. (Ok n, self\<lparr>rci_len := Some n\<rparr>)) (\<lambda>n c. valid_cache c \<and> unat n = length contents)" for n
    by (auto simp: triple_def cache_ok_def entries_ok_def)
  have fresh: "triple valid_cache valid_cache
      (state_then (with_read (rc_len ops)) (\<lambda>len self. (Ok len, self\<lparr>rci_len := Some len\<rparr>)))
      (\<lambda>n c. valid_cache c \<and> unat n = length contents)"
    by (rule triple_then [OF with_read_laws(1) store])
  have "ReadCacheInternal_len ops = (\<lambda>self. case rci_len self of Some n \<Rightarrow> (Ok n, self)
      | None \<Rightarrow> state_then (with_read (rc_len ops)) (\<lambda>len self. (Ok len, self\<lparr>rci_len := Some len\<rparr>)) self)"
    by (simp add: fun_eq_iff ReadCacheInternal_len_def)
  moreover have "valid_cache c \<and> unat n = length contents" if "valid_cache c" "rci_len c = Some n" for c n
    using that by (simp add: cache_ok_def entries_ok_def)
  ultimately show ?thesis using triple_cached [OF _ fresh, of rci_len] by simp
qed

lemma bounds_triple:
  "triple valid_cache valid_cache (range_in_bounds ops start end1)
    (\<lambda>_ c. valid_cache c \<and> start \<le> end1 \<and> unat end1 \<le> length contents)"
  unfolding range_in_bounds_def
  by (intro triple_if triple_then [OF len_triple] triple_lift) (auto simp: word_le_nat_alt)

lemma bounds_valid: "triple valid_cache valid_cache (range_in_bounds ops start end1) (\<lambda>_. valid_cache)"
  by (rule triple_conseq [OF bounds_triple]) simp_all

lemma fill_buf_triple:
  assumes "sz \<noteq> 0"
  shows "triple valid_cache valid_cache (fill_buf ops offset sz)
    (\<lambda>bs c. valid_cache c \<and> read_bytes_at contents offset sz = Ok bs)"
proof -
  have store: "triple valid_cache
      (\<lambda>c. cache_ok (\<lambda>r. usable r \<and> length bs = unat sz \<and> bs = slice_at contents (unat offset) (unat sz)) contents c)
      (\<lambda>self. (Ok bs, self\<lparr>rci_bufs := (rci_bufs self)((offset, sz) \<mapsto> bs)\<rparr>))
      (\<lambda>bs c. valid_cache c \<and> read_bytes_at contents offset sz = Ok bs)" for bs
  proof -
    have "read_bytes_at contents offset sz = Ok bs"
      if "length bs = unat sz" "bs = slice_at contents (unat offset) (unat sz)"
    proof -
      have "0 < unat sz" using assms by (simp add: unat_gt_0)
      then show ?thesis using that assms by (auto simp: read_bytes_at_eq_Ok slice_at_def)
    qed
    then show ?thesis by (auto simp: triple_def cache_ok_def entries_ok_def)
  qed
  show ?thesis unfolding fill_buf_def
  proof (rule triple_then [OF with_read_laws(2)], rule triple_then)
    show "triple valid_cache (cache_ok (\<lambda>r. usable r \<and> pos r = unat offset) contents)
        (state_lift (try_reserve_exact (unat sz))) (\<lambda>_. cache_ok (\<lambda>r. usable r \<and> pos r = unat offset) contents)"
      by (rule triple_lift) (simp add: try_reserve_exact_def cache_ok_def)
  qed (rule triple_then [OF with_read_laws(4) store])
qed

lemma read_bytes_at_triple:
  "triple valid_cache valid_cache (ReadCache_read_bytes_at ops offset sz)
    (\<lambda>bs c. valid_cache c \<and> read_bytes_at contents offset sz = Ok bs)"
proof (cases "sz = 0")
  case True
  then show ?thesis by (simp add: ReadCache_read_bytes_at_def triple_def state_lift_def read_bytes_at_def)
next
  case False
  have "triple valid_cache valid_cache (\<lambda>self. case rci_bufs self (offset, sz) of Some buf \<Rightarrow> (Ok buf, self)
      | None \<Rightarrow> fill_buf ops offset sz self) (\<lambda>bs c. valid_cache c \<and> read_bytes_at contents offset sz = Ok bs)"
    using fill_buf_triple [OF False] by (rule triple_cached [rotated]) (simp add: cache_ok_def entries_ok_def)
  then show ?thesis
    unfolding ReadCache_read_bytes_at_def using False
    by (simp add: triple_then [OF bounds_valid])
qed

text \<open>The read loop finds the string, or gives up.\<close>

lemma read_step:
  assumes "cache_ok (\<lambda>r. usable r \<and> pos r = start + checked) contents c"
    and "with_read (rc_read ops n) c = (Ok got, c')"
  shows "drop start contents = take checked (drop start contents) @ got @ drop (checked + length got) (drop start contents)"
    and "length got \<le> n" "valid_cache c'"
    and "cache_ok (\<lambda>r. usable r \<and> pos r = start + (checked + length got)) contents c'"
proof -
  have post: "cache_ok (\<lambda>r. usable r \<and> pos r = start + checked + length got \<and> length got \<le> n \<and>
      got = slice_at contents (start + checked) (length got)) contents c'"
    using with_read_laws(3) [of "start + checked" n] assms unfolding triple_def by blast
  then have "got = slice_at contents (start + checked) (length got)" by (simp only: cache_ok_def)
  then show "drop start contents = take checked (drop start contents) @ got @ drop (checked + length got) (drop start contents)"
    using refl by (rule split_next(1))
  show "length got \<le> n" "valid_cache c'" using post by (simp_all only: cache_ok_def)
  show "cache_ok (\<lambda>r. usable r \<and> pos r = start + (checked + length got)) contents c'"
    using post by (simp only: cache_ok_def add.assoc simp_thms)
qed

lemma until_loop_triple:
  assumes "memchr_spec mc"
  shows "checked \<le> length bytes \<Longrightarrow> checked \<le> max_check \<Longrightarrow>
    take checked bytes = take checked (drop start contents) \<Longrightarrow> d \<notin> set (take checked bytes) \<Longrightarrow>
    triple valid_cache (cache_ok (\<lambda>r. usable r \<and> pos r = start + checked) contents)
      (until_loop ops mc max_check d bytes checked)
      (\<lambda>bs c. valid_cache c \<and> string_from contents start d bs \<and> length bs < max_check)"
proof (induction "max_check - checked" arbitrary: checked bytes rule: less_induct)
  case less
  let ?S = "drop start contents" and ?until = "until_loop ops mc max_check d bytes checked"
  let ?Q = "\<lambda>bs c. valid_cache c \<and> string_from contents start d bs \<and> length bs < max_check"
  define buf where "buf = vec_resize (min (checked + 256) max_check) 0 bytes"
  let ?m = "with_read (rc_read ops (length buf - checked))"
  have buf: "take checked buf = take checked ?S" "checked \<le> length buf" "length buf \<le> max_check"
    using less.prems by (simp_all add: take_vec_resize buf_def)
  show ?case
    unfolding triple_def
  proof (intro allI impI)
    fix c assume c: "cache_ok (\<lambda>r. usable r \<and> pos r = start + checked) contents c"
    show "fst (?until c) \<noteq> Panic \<and> (\<forall>bs c'. ?until c = (Ok bs, c') \<longrightarrow> ?Q bs c') \<and>
      (\<forall>e c'. ?until c = (Err e, c') \<longrightarrow> valid_cache c')"
    proof (cases "\<exists>got c'. ?m c = (Ok got, c') \<and> got \<noteq> []")
      case True
      then obtain got c' where step: "?m c = (Ok got, c')" "got \<noteq> []" by blast
      let ?bytes = "take checked buf @ got @ drop (checked + length got) buf"
      define pre rest where pr: "pre = take checked ?S" "rest = drop (checked + length got) ?S"
      have S: "?S = pre @ got @ rest" using read_step(1) [OF c step(1)] by (simp only: pr)
      note g = read_step(2-4) [OF c step(1)]
      have pre: "take checked buf = pre" "length pre = checked" "d \<notin> set pre"
        using buf less.prems by (simp_all flip: pr(1)) (metis length_take min.absorb2)
      have fits: "checked + length got \<le> length buf" using g(1) buf(2) by linarith
      note until = until_loop_step [OF buf_def step(1,2) fits, of mc d, unfolded pre(1)]
      show ?thesis
      proof (cases "mc d got")
        case None
        let ?c = "checked + length got" and ?bytes = "pre @ got @ drop (checked + length got) buf"
        have S_c: "take ?c ?bytes = take ?c ?S" using pre(2) unfolding S by simp
        have d: "d \<notin> set (take ?c ?bytes)" using memchr_NoneD [OF assms None] pre(2,3) by simp
        have loop: "triple valid_cache (cache_ok (\<lambda>r. usable r \<and> pos r = start + ?c) contents)
            (until_loop ops mc max_check d ?bytes ?c) ?Q" if "\<not> max_check \<le> ?c"
        proof (rule less.hyps [OF _ _ _ S_c d])
          show "max_check - ?c < max_check - checked" using that step(2) by (cases got) auto
        qed (use that pre(2) in simp_all)
        show ?thesis
        proof (cases "max_check \<le> ?c")
          case False
          then show ?thesis using g(3) until None loop [OF False] unfolding triple_def by simp
        qed (use g(2) until None in simp)
      next
        case (Some n)
        note n = memchr_takeWhile [OF assms Some]
        have "takeWhile (\<lambda>b. b \<noteq> d) ?S = pre @ take n got"
          using n(3) [of rest] pre(3) unfolding S by (auto simp: takeWhile_append)
        moreover have "d \<in> set ?S" using n(2) unfolding S by simp
        ultimately have "string_from contents start d (pre @ take n got)" by (simp add: string_from_def)
        then show ?thesis using until g(2) Some n(1) pre(2) fits buf(3) by simp
      qed
    next
      case False
      obtain r c' where r: "?m c = (r, c')" by fastforce
      note post = with_read_laws(3) [of "start + checked" "length buf - checked", unfolded triple_def, rule_format, OF c]
      have "valid_cache c'" "r \<noteq> Panic"
        using post r by (cases r; simp add: cache_ok_def)+
      then show ?thesis
        using until_loop_stop [OF buf_def buf(2) r, of mc d] False r by (cases r) auto
    qed
  qed
qed

lemma fill_string_triple:
  assumes "memchr_spec mc" "start \<le> end1"
  shows "triple valid_cache valid_cache (fill_string ops mc start end1 d)
    (\<lambda>bs c. valid_cache c \<and> string_from contents (unat start) d bs \<and> length bs < unat end1 - unat start)"
proof -
  let ?at = "cache_ok (\<lambda>r. usable r \<and> pos r = unat start) contents"
  let ?string = "\<lambda>bs c. valid_cache c \<and> string_from contents (unat start) d bs \<and> length bs < unat end1 - unat start"
  have store: "triple valid_cache (?string bs)
      (\<lambda>self. (Ok bs, self\<lparr>rci_strings := (rci_strings self)((start, d) \<mapsto> bs)\<rparr>)) ?string" for bs
    by (auto simp: triple_def cache_ok_def entries_ok_def)
  have "triple valid_cache ?at (until_loop ops mc (min (unat n) 4096) d [] 0) ?string" if "n = end1 - start" for n
    by (rule triple_conseq [OF until_loop_triple [OF assms(1), of 0 "[]" _ "unat start" d]])
      (use that assms(2) in \<open>simp_all add: unat_sub_no_underflow\<close>)
  then have loop: "triple valid_cache (\<lambda>c. ?at c \<and> n = end1 - start) (until_loop ops mc (min (unat n) 4096) d [] 0) ?string" for n
    by (auto simp: triple_def)
  have sub: "triple valid_cache ?at (state_lift (word_sub end1 start)) (\<lambda>n c. ?at c \<and> n = end1 - start)"
    using assms(2) by (intro triple_lift) (simp add: word_sub_def)
  show ?thesis
    unfolding fill_string_def
    by (rule triple_then [OF with_read_laws(2) triple_then [OF sub triple_then [OF loop store]]])
qed

lemma read_bytes_at_until_triple:
  assumes "memchr_spec mc"
  shows "triple valid_cache valid_cache (ReadCache_read_bytes_at_until ops mc start end1 d)
    (\<lambda>bs c. valid_cache c \<and> string_from contents (unat start) d bs)"
proof (cases "start \<le> end1")
  case True
  note fill = triple_conseq [OF fill_string_triple [OF assms True]]
  have "triple valid_cache valid_cache (\<lambda>self. case rci_strings self (start, d) of Some buf \<Rightarrow> (Ok buf, self)
      | None \<Rightarrow> fill_string ops mc start end1 d self) (\<lambda>bs c. valid_cache c \<and> string_from contents (unat start) d bs)"
    by (rule triple_cached [OF _ fill]) (simp_all add: cache_ok_def entries_ok_def)
  then show ?thesis
    unfolding ReadCache_read_bytes_at_until_def by (rule triple_then [OF bounds_valid])
next
  case False
  then show ?thesis
    by (simp add: ReadCache_read_bytes_at_until_def range_in_bounds_def state_then_def state_lift_def triple_def)
qed

end

section \<open>The contract of a ReadRef\<close>

text \<open>
  Any sequence of reads, on any implementation: an answer that is no error is a part of the contents.
  Of a string only what both implementations guarantee is stated: the bytes are there, without the
  delimiter.
\<close>

definition part_before :: "bytes \<Rightarrow> u64 \<Rightarrow> u8 \<Rightarrow> bytes \<Rightarrow> bool" where
  "part_before contents start d bs \<longleftrightarrow> bs = slice_at contents (unat start) (length bs) \<and> d \<notin> set bs"

datatype request = Bytes_at u64 u64 | Bytes_until u64 u64 u8

fun answer_ok :: "bytes \<Rightarrow> request \<Rightarrow> (bytes, unit) result \<Rightarrow> bool" where
  "answer_ok contents _ Panic \<longleftrightarrow> False"
| "answer_ok contents _ (Err _) \<longleftrightarrow> True"
| "answer_ok contents (Bytes_at offset sz) (Ok bs) \<longleftrightarrow> read_bytes_at contents offset sz = Ok bs"
| "answer_ok contents (Bytes_until start _ d) (Ok bs) \<longleftrightarrow> part_before contents start d bs"

fun respond :: "(u64 \<Rightarrow> u64 \<Rightarrow> 's \<Rightarrow> (bytes, unit) result \<times> 's) \<Rightarrow> (u64 \<Rightarrow> u64 \<Rightarrow> u8 \<Rightarrow> 's \<Rightarrow> (bytes, unit) result \<times> 's) \<Rightarrow>
    request \<Rightarrow> 's \<Rightarrow> (bytes, unit) result \<times> 's" where
  "respond read_at until_at (Bytes_at offset sz) = read_at offset sz"
| "respond read_at until_at (Bytes_until start end1 d) = until_at start end1 d"

fun answers :: "('q \<Rightarrow> 's \<Rightarrow> (bytes, unit) result \<times> 's) \<Rightarrow> 'q list \<Rightarrow> 's \<Rightarrow> (bytes, unit) result list" where
  "answers f [] s = []"
| "answers f (q # qs) s = (case f q s of (r, s) \<Rightarrow> r # answers f qs s)"

lemma answers_invariant:
  assumes "\<And>q s r s'. I s \<Longrightarrow> f q s = (r, s') \<Longrightarrow> A q r \<and> I s'"
  shows "I s \<Longrightarrow> list_all2 A qs (answers f qs s)"
proof (induction qs arbitrary: s)
  case (Cons q qs)
  obtain r s' where "f q s = (r, s')" by fastforce
  then show ?case using assms [OF Cons.prems] Cons.IH [of s'] by simp
qed simp

locale read_ref =
  fixes read_at :: "u64 \<Rightarrow> u64 \<Rightarrow> 's \<Rightarrow> (bytes, unit) result \<times> 's"
    and until_at :: "u64 \<Rightarrow> u64 \<Rightarrow> u8 \<Rightarrow> 's \<Rightarrow> (bytes, unit) result \<times> 's"
    and contents :: bytes and inv :: "'s \<Rightarrow> bool"
  assumes read_at_law: "triple inv inv (read_at offset sz) (\<lambda>bs s. inv s \<and> read_bytes_at contents offset sz = Ok bs)"
    and until_law: "triple inv inv (until_at start end1 d) (\<lambda>bs s. inv s \<and> part_before contents start d bs)"
begin

lemma respond_ok:
  assumes "inv s" "respond read_at until_at q s = (r, s')"
  shows "answer_ok contents q r \<and> inv s'"
proof (cases q)
  case (Bytes_at offset sz)
  then show ?thesis
    using assms read_at_law [of offset sz, unfolded triple_def, rule_format, OF assms(1)] by (cases r) simp_all
next
  case (Bytes_until start end1 d)
  then show ?thesis
    using assms until_law [of start end1 d, unfolded triple_def, rule_format, OF assms(1)] by (cases r) simp_all
qed

lemma answers_ok: "inv s \<Longrightarrow> list_all2 (answer_ok contents) qs (answers (respond read_at until_at) qs s)"
  by (rule answers_invariant [where I = inv]) (use respond_ok in blast)

end

lemma string_from_part:
  assumes "string_from contents start d bs"
  shows "bs = slice_at contents start (length bs)" "d \<notin> set bs" "start + length bs < length contents"
proof -
  let ?S = "drop start contents"
  have bs: "bs = takeWhile (\<lambda>b. b \<noteq> d) ?S" "d \<in> set ?S" using assms by (simp_all add: string_from_def)
  show "bs = slice_at contents start (length bs)"
    unfolding slice_at_def bs(1) by (rule takeWhile_eq_take)
  show "d \<notin> set bs" unfolding bs(1) by (metis (mono_tags, lifting) set_takeWhileD)
  obtain ys zs where S: "?S = ys @ d # zs" "d \<notin> set ys" using bs(2) by (auto dest: split_list_first)
  then have "bs = ys" unfolding bs(1) by (auto simp: takeWhile_append)
  then have "length bs < length ?S" unfolding S(1) by simp
  then show "start + length bs < length contents" by simp
qed

text \<open>The slice, the cache and a range of the cache are implementations.\<close>

interpretation slice: read_ref "\<lambda>offset sz self. (read_bytes_at self offset sz, self)"
    "\<lambda>start end1 d self. (read_bytes_at_until first_index self start end1 d, self)" contents "\<lambda>self. self = contents"
  for contents
proof
  have "read_bytes_at_until first_index contents start end1 d \<noteq> Panic" for start end1 d
    by (auto simp: read_bytes_at_until_def ok_or_def get_range_def get_to_def split: option.splits)
  then show "triple (\<lambda>self. self = contents) (\<lambda>self. self = contents)
      (\<lambda>self. (read_bytes_at_until first_index self start end1 d, self))
      (\<lambda>bs self. self = contents \<and> part_before contents start d bs)" for start end1 d
    using read_bytes_at_until_eq_Ok [OF memchr_spec_first_index, of contents start end1 d]
    by (auto simp: triple_def part_before_def)
qed (simp add: triple_def read_bytes_at_no_panic)

locale searched_stream = read_stream +
  fixes memchr :: "u8 \<Rightarrow> bytes \<Rightarrow> nat option"
  assumes memchr: "memchr_spec memchr"

sublocale searched_stream \<subseteq> cache: read_ref "ReadCache_read_bytes_at ops"
    "ReadCache_read_bytes_at_until ops memchr" contents "cache_ok usable contents"
proof
  show "triple valid_cache valid_cache (ReadCache_read_bytes_at_until ops memchr start end1 d)
      (\<lambda>bs c. valid_cache c \<and> part_before contents start d bs)" for start end1 d
    by (rule triple_conseq [OF read_bytes_at_until_triple [OF memchr]])
      (auto simp: part_before_def dest: string_from_part)
qed (rule read_bytes_at_triple)

definition range_contents :: "cache_range \<Rightarrow> bytes \<Rightarrow> bytes" where
  "range_contents self contents = take (unat (rcr_size self)) (drop (unat (rcr_offset self)) contents)"

lemma range_bytes_at:
  assumes "word_checked_add offset sz = Some end1" "end1 \<le> rcr_size self" "sz \<noteq> 0"
    and "word_checked_add (rcr_offset self) offset = Some r_offset" "read_bytes_at contents r_offset sz = Ok bs"
  shows "read_bytes_at (range_contents self contents) offset sz = Ok bs"
proof -
  have "unat end1 = unat offset + unat sz" "unat r_offset = unat (rcr_offset self) + unat offset"
    using assms(1,4) by (auto simp: res_simps unat_add_no_overflow)
  moreover have "unat end1 \<le> unat (rcr_size self)" using assms(2) by (simp add: word_le_nat_alt)
  ultimately show ?thesis
    using assms(3,5) by (auto simp: read_bytes_at_eq_Ok range_contents_def slice_at_def take_drop min_def add.commute)
qed

lemma range_string:
  assumes "word_checked_add (rcr_offset self) start = Some r_start" "string_from contents (unat r_start) d bs"
    and "word_checked_add start (word_of_nat (length bs)) = Some end1" "end1 \<le> rcr_size self" "length bs \<le> usize_max"
  shows "part_before (range_contents self contents) start d bs"
proof -
  have "unat end1 = unat start + length bs" "unat r_start = unat (rcr_offset self) + unat start"
    using assms(1,3,5) by (auto simp: res_simps unat_add_no_overflow unat_word_of_nat_u64)
  moreover have "unat end1 \<le> unat (rcr_size self)" using assms(4) by (simp add: word_le_nat_alt)
  moreover note string_from_part [OF assms(2)]
  ultimately show ?thesis
    unfolding part_before_def range_contents_def slice_at_def
    by (simp add: take_drop min_def add.commute)
qed

sublocale searched_stream \<subseteq> range: read_ref "ReadCacheRange_read_bytes_at ops rng"
    "ReadCacheRange_read_bytes_at_until ops memchr rng" "range_contents rng contents" "cache_ok usable contents" for rng
proof
  show "triple valid_cache valid_cache (ReadCacheRange_read_bytes_at ops rng offset sz)
      (\<lambda>bs c. valid_cache c \<and> read_bytes_at (range_contents rng contents) offset sz = Ok bs)" for offset sz
    unfolding ReadCacheRange_read_bytes_at_def
  proof (intro triple_if triple_ok_or)
    fix end1 r_offset
    assume *: "sz \<noteq> 0" "word_checked_add offset sz = Some end1" "\<not> rcr_size rng < end1"
      "word_checked_add (rcr_offset rng) offset = Some r_offset"
    show "triple valid_cache valid_cache (ReadCache_read_bytes_at ops r_offset sz)
        (\<lambda>bs c. valid_cache c \<and> read_bytes_at (range_contents rng contents) offset sz = Ok bs)"
      by (rule triple_conseq [OF read_bytes_at_triple]) (use range_bytes_at * in \<open>auto simp: not_less\<close>)
  qed (simp_all add: triple_def state_lift_def read_bytes_at_def)
  show "triple valid_cache valid_cache (ReadCacheRange_read_bytes_at_until ops memchr rng start end1 d)
      (\<lambda>bs c. valid_cache c \<and> part_before (range_contents rng contents) start d bs)" for start end1 d
    unfolding ReadCacheRange_read_bytes_at_until_def
  proof (intro triple_ok_or triple_then [OF read_bytes_at_until_triple [OF memchr]] triple_if triple_lift)
    fix r_start bs end2 c
    assume *: "word_checked_add (rcr_offset rng) start = Some r_start"
      "word_checked_add start (word_of_nat (length bs)) = Some end2" "\<not> rcr_size rng < end2"
      "valid_cache c \<and> string_from contents (unat r_start) d bs"
    then have "length bs \<le> usize_max" using string_from_part(3) [of contents "unat r_start" d bs] bounded [of "rci_read c"]
      by (simp add: cache_ok_def)
    then show "case Ok bs of Ok bs \<Rightarrow> valid_cache c \<and> part_before (range_contents rng contents) start d bs
        | Err e \<Rightarrow> valid_cache c | Panic \<Rightarrow> False"
      using range_string [OF *(1) _ *(2)] * by (simp add: not_less)
  qed simp_all
qed

section \<open>A stream over bytes\<close>

text \<open>
  The blanket implementation for \<^verbatim>\<open>Read + Seek\<close>, for a stream over a list of bytes. A call of \<^verbatim>\<open>read\<close>
  may deliver fewer bytes than asked for: the head of \<open>bst_chunks\<close> is one less than how many, and
  without a head there is no limit.
\<close>

record byte_stream =
  bst_data :: bytes
  bst_pos :: nat
  bst_chunks :: "nat list"

definition bst_len :: "byte_stream \<Rightarrow> (u64, unit) result \<times> byte_stream" where
  "bst_len self = (Ok (word_of_nat (length (bst_data self))), self\<lparr>bst_pos := length (bst_data self)\<rparr>)"

definition bst_seek :: "u64 \<Rightarrow> byte_stream \<Rightarrow> (u64, unit) result \<times> byte_stream" where
  "bst_seek p self = (Ok p, self\<lparr>bst_pos := unat p\<rparr>)"

definition bst_read :: "nat \<Rightarrow> byte_stream \<Rightarrow> (bytes, unit) result \<times> byte_stream" where
  "bst_read n self =
    (let limit = (case bst_chunks self of [] \<Rightarrow> n | k # _ \<Rightarrow> min n (Suc k));
         got = take limit (drop (bst_pos self) (bst_data self))
     in (Ok got, self\<lparr>bst_pos := bst_pos self + length got, bst_chunks := tl (bst_chunks self)\<rparr>))"

definition bst_read_exact :: "nat \<Rightarrow> byte_stream \<Rightarrow> (bytes, unit) result \<times> byte_stream" where
  "bst_read_exact n self =
    (if bst_pos self + n \<le> length (bst_data self)
     then (Ok (slice_at (bst_data self) (bst_pos self) n), self\<lparr>bst_pos := bst_pos self + n\<rparr>)
     else (Err (), self\<lparr>bst_pos := max (bst_pos self) (length (bst_data self))\<rparr>))"

definition byte_stream_ops :: "byte_stream read_cache_ops" where
  "byte_stream_ops = \<lparr>rc_len = bst_len, rc_seek = bst_seek, rc_read = bst_read, rc_read_exact = bst_read_exact\<rparr>"

lemmas bst_simps = byte_stream_ops_def bst_len_def bst_seek_def bst_read_def bst_read_exact_def Let_def

definition bst_of :: "bytes \<Rightarrow> byte_stream \<Rightarrow> bool" where
  "bst_of contents self \<longleftrightarrow> bst_data self = contents \<and> length contents \<le> isize_max"

interpretation byte_stream: reliable_stream byte_stream_ops contents bst_pos "bst_of contents" for contents
proof
  have usize: "length contents \<le> isize_max \<Longrightarrow> length contents \<le> usize_max" by (simp add: isize_max_def usize_max_def)
  then show "bst_of contents s \<Longrightarrow> length contents \<le> usize_max" for s by (simp add: bst_of_def)
  show "triple (bst_of contents) (bst_of contents) (rc_len byte_stream_ops) (\<lambda>n s. bst_of contents s \<and> unat n = length contents)"
    using unat_word_of_nat_u64 [OF usize] by (auto simp: triple_def bst_simps bst_of_def)
  show "triple (bst_of contents) (\<lambda>s. bst_of contents s \<and> bst_pos s = q) (rc_read byte_stream_ops n)
      (\<lambda>bs s. bst_of contents s \<and> bst_pos s = q + length bs \<and> length bs \<le> n \<and> bs = slice_at contents q (length bs))"
    for q n
    by (auto simp: triple_def bst_simps bst_of_def slice_at_def min_def split: list.splits)
  show "\<exists>bs s'. rc_read byte_stream_ops n s = (Ok bs, s') \<and> bs \<noteq> []"
    if "bst_of contents s" "0 < n" "bst_pos s < length contents" for n s
    using that by (auto simp: bst_simps bst_of_def split: list.splits)
qed (auto simp: triple_def bst_simps bst_of_def slice_at_def min_def)

interpretation byte_stream: searched_stream byte_stream_ops contents bst_pos "bst_of contents" first_index for contents
  by unfold_locales (rule memchr_spec_first_index)

section \<open>A reliable stream\<close>

lemma succeeds_read: "succeeds m (rci_read c) \<Longrightarrow> succeeds (with_read m) c"
  by (auto simp: succeeds_def with_read_def)

context reliable_stream
begin

lemma len_succeeds:
  assumes "valid_cache c"
  obtains n c' where "ReadCacheInternal_len ops c = (Ok n, c')" "valid_cache c'" "unat n = length contents"
    "rci_bufs c' = rci_bufs c" "rci_strings c' = rci_strings c"
proof (cases "rci_len c")
  case None
  obtain n r' where "rc_len ops (rci_read c) = (Ok n, r')"
    using len_ok [of "rci_read c"] assms by (auto simp: cache_ok_def)
  then have len: "ReadCacheInternal_len ops c = (Ok n, c\<lparr>rci_read := r', rci_len := Some n\<rparr>)"
    using None by (simp add: ReadCacheInternal_len_def state_then_def with_read_def)
  then show ?thesis using that [OF len] tripleD [OF len_triple assms len] by simp
next
  case (Some n)
  then have len: "ReadCacheInternal_len ops c = (Ok n, c)" by (simp add: ReadCacheInternal_len_def)
  then show ?thesis using that [OF len] tripleD [OF len_triple assms len] by simp
qed

lemma bounds_succeed:
  assumes "valid_cache c" "start \<le> end1" "unat end1 \<le> length contents"
  obtains c' where "range_in_bounds ops start end1 c = (Ok (), c')" "valid_cache c'"
    "rci_bufs c' = rci_bufs c" "rci_strings c' = rci_strings c"
proof -
  obtain n c' where len: "ReadCacheInternal_len ops c = (Ok n, c')" "valid_cache c'" "unat n = length contents"
    "rci_bufs c' = rci_bufs c" "rci_strings c' = rci_strings c" using len_succeeds [OF assms(1)] .
  have "end1 \<le> n" using assms(3) len(3) by (simp add: word_le_nat_alt)
  then have "range_in_bounds ops start end1 c = (Ok (), c')"
    using assms(2) len(1) by (simp add: range_in_bounds_def state_then_def state_lift_def)
  then show ?thesis using that len by blast
qed

lemma seek_succeeds:
  assumes "valid_cache c"
  obtains c' n where "with_read (rc_seek ops p) c = (Ok n, c')" "cache_ok (\<lambda>r. usable r \<and> pos r = unat p) contents c'"
proof -
  obtain n r' where "rc_seek ops p (rci_read c) = (Ok n, r')"
    using seek_ok [of "rci_read c" p] assms by (auto simp: cache_ok_def)
  then have seek: "with_read (rc_seek ops p) c = (Ok n, c\<lparr>rci_read := r'\<rparr>)" by (simp add: with_read_def)
  then show ?thesis using that tripleD [OF with_read_laws(2) assms seek] by blast
qed

lemma read_bytes_at_succeeds:
  assumes c: "valid_cache c" and bs: "read_bytes_at contents offset sz = Ok bs"
  shows "succeeds (ReadCache_read_bytes_at ops offset sz) c"
proof (cases "sz = 0")
  case True
  then show ?thesis by (simp add: ReadCache_read_bytes_at_def succeeds_def state_lift_def)
next
  case False
  have len: "unat offset + unat sz \<le> length contents" using bs False by (simp add: read_bytes_at_eq_Ok)
  have short: "length contents \<le> isize_max" using short [of "rci_read c"] c by (simp add: cache_ok_def)
  have end1: "unat (word_saturating_add offset sz) = unat offset + unat sz" "offset \<le> word_saturating_add offset sz"
    using len short
    by (auto simp: word_saturating_add_def word_checked_add_def isize_max_def unat_add_no_overflow word_le_nat_alt)
  obtain c' where bounds: "range_in_bounds ops offset (word_saturating_add offset sz) c = (Ok (), c')" "valid_cache c'"
    using bounds_succeed [OF c end1(2)] len end1(1) by metis
  have "succeeds (fill_buf ops offset sz) c'"
    unfolding fill_buf_def
  proof (intro succeeds_then)
    obtain c2 n where seek: "with_read (rc_seek ops offset) c' = (Ok n, c2)"
      "cache_ok (\<lambda>r. usable r \<and> pos r = unat offset) contents c2" using seek_succeeds [OF bounds(2)] .
    then show "succeeds (with_read (rc_seek ops offset)) c'" by (simp add: succeeds_def)
    fix a c3 assume "with_read (rc_seek ops offset) c' = (Ok a, c3)"
    then have c3: "c3 = c2" using seek(1) by simp
    show "succeeds (state_lift (try_reserve_exact (unat sz))) c3"
      using len short by (simp add: try_reserve_exact_def succeeds_def state_lift_def)
    fix b c4 assume "state_lift (try_reserve_exact (unat sz)) c3 = (Ok b, c4)"
    then have "c4 = c2" by (simp add: state_lift_def c3)
    then show "succeeds (with_read (rc_read_exact ops (unat sz))) c4"
      using exact_ok [of "rci_read c2" "unat sz"] seek(2) len
      by (intro succeeds_read) (auto simp: cache_ok_def succeeds_def)
  qed (simp add: succeeds_def)
  then show ?thesis
    using bounds(1) False by (auto simp: ReadCache_read_bytes_at_def succeeds_def state_then_def split: option.split)
qed

lemma until_loop_succeeds:
  assumes "memchr_spec mc" "start + max_check \<le> length contents"
  shows "checked \<le> length bytes \<Longrightarrow> d \<in> set (drop checked (slice_at contents start max_check)) \<Longrightarrow>
    cache_ok (\<lambda>r. usable r \<and> pos r = start + checked) contents c \<Longrightarrow>
    succeeds (until_loop ops mc max_check d bytes checked) c"
proof (induction "max_check - checked" arbitrary: checked bytes c rule: less_induct)
  case less
  let ?R = "slice_at contents start max_check"
  define buf where "buf = vec_resize (min (checked + 256) max_check) 0 bytes"
  have R: "length ?R = max_check" using assms(2) by (simp add: slice_at_def)
  then have "checked < max_check" using less.prems(2) by (cases "checked < max_check") auto
  then have buf: "length buf = min (checked + 256) max_check" "checked < length buf" by (simp_all add: buf_def)
  obtain got c' where step: "with_read (rc_read ops (length buf - checked)) c = (Ok got, c')" "got \<noteq> []"
  proof -
    have "usable (rci_read c)" "pos (rci_read c) < length contents"
      using less.prems(3) \<open>checked < max_check\<close> assms(2) by (simp_all add: cache_ok_def)
    then show ?thesis using that read_ok [of "rci_read c" "length buf - checked"] buf(2) by (auto simp: with_read_def)
  qed
  note got = read_step [OF less.prems(3) step(1)]
  have fits: "checked + length got \<le> length buf" using got(2) buf(2) by linarith
  note until = until_loop_step [OF buf_def step fits, of mc d]
  show ?case
  proof (cases "mc d got")
    case None
    have "got = take (length got) (drop checked ?R)"
    proof -
      have "take (length got) (drop checked (drop start contents)) = got"
        using got(1) by (metis append_eq_conv_conj append_take_drop_id same_append_eq)
      moreover have "checked + length got \<le> max_check" using fits buf(1) by linarith
      ultimately show ?thesis by (simp add: slice_at_def take_drop min_def add.commute)
    qed
    then have "drop checked ?R = got @ drop (checked + length got) ?R"
      by (metis append_take_drop_id drop_drop add.commute)
    then have d: "d \<in> set (drop (checked + length got) ?R)"
      using less.prems(2) memchr_NoneD [OF assms(1) None] by (metis Un_iff set_append)
    then have "checked + length got < max_check" using R by (cases "checked + length got < max_check") auto
    moreover have "0 < length got" using step(2) by simp
    ultimately have "succeeds (until_loop ops mc max_check d (take checked buf @ got @ drop (checked + length got) buf)
        (checked + length got)) c'"
      using buf(2) \<open>0 < length got\<close> \<open>checked + length got < max_check\<close>
      by (intro less.hyps [OF _ _ d got(4)]) (simp_all del: length_greater_0_conv)
    then show ?thesis using None until \<open>checked + length got < max_check\<close> by (simp add: succeeds_def)
  qed (use until in \<open>simp add: succeeds_def\<close>)
qed

lemma fill_string_succeeds:
  assumes mc: "memchr_spec mc" and c: "valid_cache c" and range: "start \<le> end1" "unat end1 \<le> length contents"
    and small: "unat end1 - unat start \<le> 4096"
    and d: "d \<in> set (slice_at contents (unat start) (unat end1 - unat start))"
  shows "succeeds (fill_string ops mc start end1 d) c"
  unfolding fill_string_def
proof (intro succeeds_then)
  obtain c2 n where seek: "with_read (rc_seek ops start) c = (Ok n, c2)"
    "cache_ok (\<lambda>r. usable r \<and> pos r = unat start) contents c2" using seek_succeeds [OF c] .
  then show "succeeds (with_read (rc_seek ops start)) c" by (simp add: succeeds_def)
  fix a c3 assume "with_read (rc_seek ops start) c = (Ok a, c3)"
  then have c3: "c3 = c2" using seek(1) by simp
  show "succeeds (state_lift (word_sub end1 start)) c3"
    using range(1) by (simp add: word_sub_def succeeds_def state_lift_def)
  fix n c4 assume "state_lift (word_sub end1 start) c3 = (Ok n, c4)"
  then have n: "n = end1 - start" and c4: "c4 = c2" using range(1) by (simp_all add: word_sub_def state_lift_def c3)
  have "min (unat n) 4096 = unat end1 - unat start"
    using range(1) small by (simp add: n unat_sub_no_underflow)
  moreover have "unat start + (unat end1 - unat start) \<le> length contents"
    using range by (simp add: word_le_nat_alt)
  ultimately show "succeeds (until_loop ops mc (min (unat n) 4096) d [] 0) c4"
    using until_loop_succeeds [OF mc, of "unat start" "unat end1 - unat start" 0 "[]" d c2] seek(2) d
    unfolding c4 by simp
qed (simp add: succeeds_def)

lemma fresh_fill:
  assumes mc: "memchr_spec mc" and c: "valid_cache c" and range: "start \<le> end1" "unat end1 \<le> length contents"
    and small: "unat end1 - unat start \<le> 4096" and R: "R = slice_at contents (unat start) (unat end1 - unat start)"
  shows "fst (fill_string ops mc start end1 d c) = (if d \<in> set R then Ok (takeWhile (\<lambda>b. b \<noteq> d) R) else Err ())"
proof -
  have S: "drop (unat start) contents = R @ drop (unat end1 - unat start) (drop (unat start) contents)"
    unfolding R slice_at_def by (rule append_take_drop_id [symmetric])
  have lenR: "length R = unat end1 - unat start" using range by (simp add: R slice_at_def)
  obtain r c2 where fs: "fill_string ops mc start end1 d c = (r, c2)" by fastforce
  note post = fill_string_triple [OF mc range(1), of d, unfolded triple_def, rule_format, OF c, unfolded fs]
  show ?thesis
  proof (cases r)
    case (Ok bs)
    then have bs: "string_from contents (unat start) d bs" "length bs < length R" using post lenR by simp_all
    then have "bs = takeWhile (\<lambda>b. b \<noteq> d) (drop (unat start) contents)" by (simp add: string_from_def)
    moreover have "d \<in> set R"
    proof (rule ccontr)
      assume "d \<notin> set R"
      then have "length R \<le> length bs" unfolding calculation by (subst S) (simp add: takeWhile_append)
      then show False using bs(2) by simp
    qed
    moreover from this have "takeWhile (\<lambda>b. b \<noteq> d) (drop (unat start) contents) = takeWhile (\<lambda>b. b \<noteq> d) R"
      by (subst S) (auto simp: takeWhile_append)
    ultimately show ?thesis using fs Ok by simp
  next
    case (Err e)
    then have "\<not> succeeds (fill_string ops mc start end1 d) c" using fs by (simp add: succeeds_def)
    then have "d \<notin> set R" using fill_string_succeeds [OF mc c range small] by (auto simp: R)
    then show ?thesis using fs Err by simp
  next
    case Panic
    then show ?thesis using post by simp
  qed
qed

lemma slice_until:
  assumes mc: "memchr_spec mc" and range: "start \<le> end1" "unat end1 \<le> length contents"
    and R: "R = slice_at contents (unat start) (unat end1 - unat start)"
  shows "read_bytes_at_until mc contents start end1 d = (if d \<in> set R then Ok (takeWhile (\<lambda>b. b \<noteq> d) R) else Err ())"
proof -
  have "get_range contents (unat start) (unat end1) = Some R"
    using range by (simp add: get_range_def R slice_at_def word_le_nat_alt)
  then have slice: "read_bytes_at_until mc contents start end1 d =
      (case mc d R of Some n \<Rightarrow> ok_or (get_to R n) () | None \<Rightarrow> Err ())"
    by (simp add: read_bytes_at_until_def)
  show ?thesis
  proof (cases "mc d R")
    case None
    then show ?thesis using slice memchr_NoneD [OF mc None] by simp
  next
    case (Some n)
    then show ?thesis using slice memchr_takeWhile [OF mc Some] memchr_takeWhile(3) [OF mc Some, of "[]"]
      by (simp add: get_to_def)
  qed
qed

lemma fresh_string:
  assumes mc: "memchr_spec mc" and c: "valid_cache c" and fresh: "rci_strings c (start, d) = None"
    and small: "unat end1 - unat start \<le> 4096"
  shows "fst (ReadCache_read_bytes_at_until ops mc start end1 d c) = read_bytes_at_until mc contents start end1 d"
proof (cases "start \<le> end1 \<and> unat end1 \<le> length contents")
  case True
  obtain c' where bounds: "range_in_bounds ops start end1 c = (Ok (), c')" "valid_cache c'" "rci_strings c' = rci_strings c"
    using bounds_succeed [OF c] True by metis
  then have until: "ReadCache_read_bytes_at_until ops mc start end1 d c = fill_string ops mc start end1 d c'"
    using fresh by (simp add: ReadCache_read_bytes_at_until_def state_then_def)
  show ?thesis
    unfolding until using fresh_fill [OF mc bounds(2) _ _ small refl] slice_until [OF mc _ _ refl] True by simp
next
  case False
  then have "get_range contents (unat start) (unat end1) = None" by (auto simp: get_range_def word_le_nat_alt)
  then have slice: "read_bytes_at_until mc contents start end1 d = Err ()" by (simp add: read_bytes_at_until_def)
  obtain n c' where len: "ReadCacheInternal_len ops c = (Ok n, c')" "unat n = length contents"
    using len_succeeds [OF c] by metis
  show ?thesis
  proof (cases "start \<le> end1")
    case True
    then have "\<not> end1 \<le> n" using False len(2) by (simp add: word_le_nat_alt)
    then show ?thesis
      using True len(1) slice
      by (simp add: ReadCache_read_bytes_at_until_def range_in_bounds_def state_then_def state_lift_def)
  qed (use slice in \<open>simp add: ReadCache_read_bytes_at_until_def range_in_bounds_def state_then_def state_lift_def\<close>)
qed

lemma same_bytes:
  assumes "valid_cache c"
  shows "fst (ReadCache_read_bytes_at ops offset sz c) = read_bytes_at contents offset sz"
proof -
  obtain r c' where step: "ReadCache_read_bytes_at ops offset sz c = (r, c')" by fastforce
  note post = read_bytes_at_triple [of offset sz, unfolded triple_def, rule_format, OF assms, unfolded step]
  have slice: "read_bytes_at contents offset sz \<noteq> Panic" by (rule read_bytes_at_no_panic)
  show ?thesis
  proof (cases r)
    case (Err e)
    then have "\<not> succeeds (ReadCache_read_bytes_at ops offset sz) c" using step by (simp add: succeeds_def)
    then have "\<forall>bs. read_bytes_at contents offset sz \<noteq> Ok bs" using read_bytes_at_succeeds [OF assms] by blast
    then show ?thesis using slice step Err by (cases "read_bytes_at contents offset sz") simp_all
  qed (use post step in simp_all)
qed

end

section \<open>Properties\<close>

text \<open>Reads through the cache itself (\<open>None\<close>) and through ranges of it, in any order.\<close>

fun respond_shared :: "'r read_cache_ops \<Rightarrow> (u8 \<Rightarrow> bytes \<Rightarrow> nat option) \<Rightarrow> cache_range option \<times> request \<Rightarrow> ('r, bytes) cached" where
  "respond_shared ops memchr (None, q) =
    respond (ReadCache_read_bytes_at ops) (ReadCache_read_bytes_at_until ops memchr) q"
| "respond_shared ops memchr (Some rng, q) =
    respond (ReadCacheRange_read_bytes_at ops rng) (ReadCacheRange_read_bytes_at_until ops memchr rng) q"

fun shared_answer_ok :: "bytes \<Rightarrow> cache_range option \<times> request \<Rightarrow> (bytes, unit) result \<Rightarrow> bool" where
  "shared_answer_ok contents (None, q) r \<longleftrightarrow> answer_ok contents q r"
| "shared_answer_ok contents (Some rng, q) r \<longleftrightarrow> answer_ok (range_contents rng contents) q r"

context searched_stream
begin

lemma shared_answers_ok:
  "cache_ok usable contents c \<Longrightarrow> list_all2 (shared_answer_ok contents) qs (answers (respond_shared ops memchr) qs c)"
proof (rule answers_invariant [where I = "cache_ok usable contents"])
  fix q c r c' assume c: "cache_ok usable contents c" and step: "respond_shared ops memchr q c = (r, c')"
  obtain rng q' where q: "q = (rng, q')" by fastforce
  show "shared_answer_ok contents q r \<and> cache_ok usable contents c'"
    using cache.respond_ok [OF c] range.respond_ok [OF c] step by (cases rng) (simp_all add: q)
qed

end

text \<open>C30: on any stream that keeps the contract of \<^verbatim>\<open>ReadCacheOps\<close>, also one whose operations fail or deliver less than asked for, every sequence of reads through a new cache and through ranges of it is answered without a panic, and every answer that is not an error is a part of the contents of the stream.\<close>

theorem read_cache_serves_contents:
  assumes "read_stream ops contents pos usable" "usable rd" "memchr_spec memchr"
  shows "list_all2 (shared_answer_ok contents) reqs (answers (respond_shared ops memchr) reqs (ReadCache_new rd))"
proof (rule searched_stream.shared_answers_ok)
  show "searched_stream ops contents pos usable memchr"
    using assms(1,3) by (simp add: searched_stream_def searched_stream_axioms_def)
  show "cache_ok usable contents (ReadCache_new rd)"
    using assms(2) entries_ok_new by (simp add: cache_ok_def ReadCache_new_def)
qed

theorem read_cache_serves_contents_witness:
  "list_all2 (shared_answer_ok [65, 66, 0, 67]) [(None, Bytes_until 0 4 0), (Some (ReadCache_range 1 2), Bytes_at 0 2)]
    (answers (respond_shared byte_stream_ops first_index)
      [(None, Bytes_until 0 4 0), (Some (ReadCache_range 1 2), Bytes_at 0 2)]
      (ReadCache_new \<lparr>bst_data = [65, 66, 0, 67], bst_pos = 0, bst_chunks = [0, 0]\<rparr>))"
  by (rule read_cache_serves_contents [OF byte_stream.read_stream_axioms _ memchr_spec_first_index])
    (simp add: bst_of_def isize_max_def)

text \<open>C31: on a stream that does not fail and whose contents fit in memory, a read of bytes through the cache, in any state of it, returns exactly what the same read of a slice returns, errors included; so does a read of a string that is not yet cached and whose range has at most 4096 bytes.\<close>

theorem read_cache_equals_slice:
  assumes "reliable_stream ops contents pos usable" "cache_ok usable contents c" "memchr_spec memchr"
  shows "fst (ReadCache_read_bytes_at ops offset sz c) = read_bytes_at contents offset sz \<and>
    (rci_strings c (start, d) = None \<and> unat end1 - unat start \<le> 4096 \<longrightarrow>
      fst (ReadCache_read_bytes_at_until ops memchr start end1 d c) = read_bytes_at_until memchr contents start end1 d)"
  using reliable_stream.same_bytes [OF assms(1,2)] reliable_stream.fresh_string [OF assms(1) assms(3,2)] by blast

theorem read_cache_equals_slice_witness:
  "fst (ReadCache_read_bytes_at byte_stream_ops 1 2 (ReadCache_new \<lparr>bst_data = [65, 66, 0, 67], bst_pos = 3, bst_chunks = []\<rparr>)) =
    Ok [66, 0] \<and>
   fst (ReadCache_read_bytes_at_until byte_stream_ops first_index 0 4 0
     (ReadCache_new \<lparr>bst_data = [65, 66, 0, 67], bst_pos = 3, bst_chunks = [0, 0]\<rparr>)) = Ok [65, 66]"
proof -
  have ok: "cache_ok (bst_of [65, 66, 0, 67]) [65, 66, 0, 67]
      (ReadCache_new \<lparr>bst_data = [65, 66, 0, 67], bst_pos = 3, bst_chunks = cs\<rparr>)" for cs
    using entries_ok_new by (simp add: cache_ok_def bst_of_def isize_max_def ReadCache_new_def)
  note eq = read_cache_equals_slice [OF byte_stream.reliable_stream_axioms _ memchr_spec_first_index]
  show ?thesis
    using conjunct1 [OF eq [OF ok [of "[]"]], of 1 2] conjunct2 [OF eq [OF ok [of "[0, 0]"]], of 0 0 4]
    by (simp add: ReadCache_new_def read_bytes_at_def read_bytes_at_until_def get_from_def get_to_def get_range_def)
qed

text \<open>
  A cached string is returned without regard to the range: here the string at 0 was found in the range
  0..4, and the range 0..1, in which a slice finds no delimiter, returns it again.
\<close>

lemma cached_string_ignores_range:
  "answers (respond_shared byte_stream_ops first_index) [(None, Bytes_until 0 4 0), (None, Bytes_until 0 1 0)]
     (ReadCache_new \<lparr>bst_data = [65, 66, 0, 67], bst_pos = 0, bst_chunks = []\<rparr>) = [Ok [65, 66], Ok [65, 66]] \<and>
   read_bytes_at_until first_index [65, 66, 0, 67] 0 1 0 = Err ()"
  by (simp add: ReadCache_read_bytes_at_until_def range_in_bounds_def ReadCacheInternal_len_def fill_string_def
      ReadCache_new_def state_then_def state_lift_def with_read_def until_loop.simps bst_simps vec_resize_def word_sub_def
      read_bytes_at_until_def get_range_def)

end
