(* ===== verification/Archive.thy ===== *)
theory Archive
  imports Endian Read_Util Iterators
begin

text \<open>
  \<^verbatim>\<open>src/read/archive.rs\<close> and \<^verbatim>\<open>src/archive.rs\<close>: the reader of static libraries in the formats GNU,
  BSD, COFF and AIX. A header is its memory image, and the accessors are its fields. The crate
  \<^verbatim>\<open>memchr\<close> is third-party code: \<open>memchr\<close> and \<open>memchr2\<close> are parameters.
\<close>

definition memchr2_spec :: "(u8 \<Rightarrow> u8 \<Rightarrow> bytes \<Rightarrow> nat option) \<Rightarrow> bool" where
  "memchr2_spec memchr2 \<longleftrightarrow>
    (\<forall>a b haystack. case memchr2 a b haystack of
       None \<Rightarrow> a \<notin> set haystack \<and> b \<notin> set haystack
     | Some i \<Rightarrow> i < length haystack \<and> (haystack ! i = a \<or> haystack ! i = b) \<and>
         a \<notin> set (take i haystack) \<and> b \<notin> set (take i haystack))"

fun first_index2 :: "u8 \<Rightarrow> u8 \<Rightarrow> bytes \<Rightarrow> nat option" where
  "first_index2 a b [] = None"
| "first_index2 a b (x # xs) = (if x = a \<or> x = b then Some 0 else map_option Suc (first_index2 a b xs))"

section \<open>The file format\<close>

definition MAGIC :: bytes where "MAGIC = ascii ''!<arch>'' @ [10]"
definition AIX_BIG_MAGIC :: bytes where "AIX_BIG_MAGIC = ascii ''<bigaf>'' @ [10]"
definition THIN_MAGIC :: bytes where "THIN_MAGIC = ascii ''!<thin>'' @ [10]"
definition TERMINATOR :: bytes where "TERMINATOR = [0x60, 10]"

text \<open>The fields of \<^verbatim>\<open>Header\<close> (60 bytes).\<close>

definition ar_name :: "bytes \<Rightarrow> bytes" where "ar_name header = slice_at header 0 16"
definition ar_date :: "bytes \<Rightarrow> bytes" where "ar_date header = slice_at header 16 12"
definition ar_uid :: "bytes \<Rightarrow> bytes" where "ar_uid header = slice_at header 28 6"
definition ar_gid :: "bytes \<Rightarrow> bytes" where "ar_gid header = slice_at header 34 6"
definition ar_mode :: "bytes \<Rightarrow> bytes" where "ar_mode header = slice_at header 40 8"
definition ar_size :: "bytes \<Rightarrow> bytes" where "ar_size header = slice_at header 48 10"
definition ar_terminator :: "bytes \<Rightarrow> bytes" where "ar_terminator header = slice_at header 58 2"

text \<open>The fields of \<^verbatim>\<open>AixHeader\<close> (112 bytes) and of \<^verbatim>\<open>AixFileHeader\<close> (128 bytes).\<close>

definition aix_size :: "bytes \<Rightarrow> bytes" where "aix_size header = slice_at header 0 20"
definition aix_date :: "bytes \<Rightarrow> bytes" where "aix_date header = slice_at header 60 12"
definition aix_uid :: "bytes \<Rightarrow> bytes" where "aix_uid header = slice_at header 72 12"
definition aix_gid :: "bytes \<Rightarrow> bytes" where "aix_gid header = slice_at header 84 12"
definition aix_mode :: "bytes \<Rightarrow> bytes" where "aix_mode header = slice_at header 96 12"
definition aix_namlen :: "bytes \<Rightarrow> bytes" where "aix_namlen header = slice_at header 108 4"

definition aix_magic :: "bytes \<Rightarrow> bytes" where "aix_magic header = slice_at header 0 8"
definition aix_memoff :: "bytes \<Rightarrow> bytes" where "aix_memoff header = slice_at header 8 20"
definition aix_gstoff :: "bytes \<Rightarrow> bytes" where "aix_gstoff header = slice_at header 28 20"
definition aix_gst64off :: "bytes \<Rightarrow> bytes" where "aix_gst64off header = slice_at header 48 20"

section \<open>Numbers and names\<close>

definition is_ascii_digit :: "u8 \<Rightarrow> bool" where
  "is_ascii_digit c \<longleftrightarrow> 48 \<le> c \<and> c \<le> 57"

text \<open>\<^verbatim>\<open>char::to_digit\<close>.\<close>

definition to_digit :: "nat \<Rightarrow> u8 \<Rightarrow> nat option" where
  "to_digit radix c =
    (let d = (if 48 \<le> c \<and> c \<le> 57 then unat c - 48
              else if 97 \<le> c \<and> c \<le> 122 then unat c - 97 + 10
              else if 65 \<le> c \<and> c \<le> 90 then unat c - 65 + 10 else radix)
     in if d < radix then Some d else None)"

fun parse_digits_loop :: "nat \<Rightarrow> u64 \<Rightarrow> bytes \<Rightarrow> u64 option" where
  "parse_digits_loop radix result [] = Some result"
| "parse_digits_loop radix result (c # digits) =
    (if c = 32 then Some result
     else
       Option.bind (to_digit radix c) (\<lambda>x.
       Option.bind (word_checked_mul result (word_of_nat radix)) (\<lambda>r.
       Option.bind (word_checked_add r (word_of_nat x)) (\<lambda>r.
       parse_digits_loop radix r digits))))"

definition parse_u64_digits :: "bytes \<Rightarrow> nat \<Rightarrow> u64 option" where
  "parse_u64_digits digits radix =
    (case digits of c # _ \<Rightarrow> if c = 32 then None else parse_digits_loop radix 0 digits
     | [] \<Rightarrow> Some 0)"

definition parse_sysv_extended_name :: "(u8 \<Rightarrow> u8 \<Rightarrow> bytes \<Rightarrow> nat option) \<Rightarrow> bytes \<Rightarrow> bytes \<Rightarrow> (bytes, unit) result" where
  "parse_sysv_extended_name memchr2 digits names =
    and_then (ok_or (parse_u64_digits digits 10) ()) (\<lambda>offset.
    and_then (ok_or (get_from names (unat offset)) ()) (\<lambda>name_data.
    and_then (ok_or (memchr2 10 0 name_data) ()) (\<lambda>len.
    and_then (index_list name_data len) (\<lambda>c.
    if c = 10 then
      if len < 1 then Err ()
      else and_then (index_list name_data (len - 1)) (\<lambda>c. if c \<noteq> 0x2f then Err () else Ok (take (len - 1) name_data))
    else Ok (take len name_data)))))"

text \<open>The state are the offset and the size, which are moved past the name.\<close>

definition parse_bsd_extended_name :: "(u8 \<Rightarrow> bytes \<Rightarrow> nat option) \<Rightarrow> bytes \<Rightarrow> bytes \<Rightarrow>
    u64 \<times> u64 \<Rightarrow> (bytes, unit) result \<times> (u64 \<times> u64)" where
  "parse_bsd_extended_name memchr digits data =
    (\<lambda>(offset, sz).
     case parse_u64_digits digits 10 of
       None \<Rightarrow> (Err (), offset, sz)
     | Some len \<Rightarrow>
         (case word_checked_sub sz len of
            None \<Rightarrow> (Err (), offset, sz)
          | Some sz \<Rightarrow>
              (case read_bytes data offset len of
                 (r, offset) \<Rightarrow>
                   (and_then r (\<lambda>name_data. Ok (case memchr 0 name_data of Some len \<Rightarrow> take len name_data | None \<Rightarrow> name_data)),
                    offset, sz))))"

section \<open>ArchiveMember\<close>

datatype member_header = MH_Common bytes | MH_AixBig bytes

record archive_member =
  am_header :: member_header
  am_name :: bytes
  am_offset :: u64
  am_size :: u64

text \<open>The name, and the offset and size of the data.\<close>

definition member_name :: "(u8 \<Rightarrow> bytes \<Rightarrow> nat option) \<Rightarrow> (u8 \<Rightarrow> u8 \<Rightarrow> bytes \<Rightarrow> nat option) \<Rightarrow> bytes \<Rightarrow> bytes \<Rightarrow>
    bytes \<Rightarrow> u64 \<Rightarrow> u64 \<Rightarrow> (bytes \<times> u64 \<times> u64, string) result" where
  "member_name memchr memchr2 data names header offset sz =
    (let nm = ar_name header in
     if nm ! 0 = 0x2f \<and> is_ascii_digit (nm ! 1) then
       and_then (read_error (parse_sysv_extended_name memchr2 (drop 1 nm) names) ''Invalid archive extended name offset'')
         (\<lambda>name. Ok (name, offset, sz))
     else if take 3 nm = ascii ''#1/'' \<and> is_ascii_digit (nm ! 3) then
       (case parse_bsd_extended_name memchr (drop 3 nm) data (offset, sz) of
          (r, offset, sz) \<Rightarrow> and_then (read_error r ''Invalid archive extended name length'') (\<lambda>name. Ok (name, offset, sz)))
     else if nm ! 0 = 0x2f then
       Ok (case memchr 0x20 nm of Some len \<Rightarrow> take len nm | None \<Rightarrow> nm, offset, sz)
     else
       Ok (case memchr 0x2f nm of Some len \<Rightarrow> take len nm
           | None \<Rightarrow> (case memchr 0x20 nm of Some len \<Rightarrow> take len nm | None \<Rightarrow> nm), offset, sz))"

text \<open>Skip the data, which is padded to an even number of bytes.\<close>

definition skip_data :: "u64 \<Rightarrow> u64 \<Rightarrow> (unit, string) result \<times> u64" where
  "skip_data sz offset =
    (case word_checked_add offset sz of
       None \<Rightarrow> (Err ''Archive member size is too large'', offset)
     | Some offset \<Rightarrow> (Ok (), if sz AND 1 \<noteq> 0 then word_saturating_add offset 1 else offset))"

definition ArchiveMember_parse :: "(u8 \<Rightarrow> bytes \<Rightarrow> nat option) \<Rightarrow> (u8 \<Rightarrow> u8 \<Rightarrow> bytes \<Rightarrow> nat option) \<Rightarrow> bytes \<Rightarrow> bytes \<Rightarrow> bool \<Rightarrow>
    u64 \<Rightarrow> (archive_member, string) result \<times> u64" where
  "ArchiveMember_parse memchr memchr2 data names thin =
    state_then (state_error (read_pod 60 data) ''Invalid archive member header'') (\<lambda>header.
    if ar_terminator header \<noteq> TERMINATOR then state_lift (Err ''Invalid archive terminator'')
    else
      state_then (state_lift (read_error (ok_or (parse_u64_digits (ar_size header) 10) ()) ''Invalid archive member size''))
        (\<lambda>header_file_size.
      state_then (state_get (\<lambda>offset. member_name memchr memchr2 data names header offset header_file_size))
        (\<lambda>(name, file_offset, file_size).
      if thin \<and> name \<noteq> ascii ''/'' \<and> name \<noteq> ascii ''//'' \<and> name \<noteq> ascii ''/SYM64/'' then
        state_lift (Ok \<lparr>am_header = MH_Common header, am_name = name, am_offset = 0, am_size = file_size\<rparr>)
      else
        state_then (skip_data header_file_size) (\<lambda>_.
        state_lift (Ok \<lparr>am_header = MH_Common header, am_name = name, am_offset = file_offset, am_size = file_size\<rparr>)))))"

definition ArchiveMember_parse_aixbig :: "bytes \<Rightarrow> u64 \<Rightarrow> (archive_member, string) result" where
  "ArchiveMember_parse_aixbig data offset =
    fst (state_then (state_error (read_pod 112 data) ''Invalid AIX big archive member header'') (\<lambda>header.
    state_then (state_lift (read_error (ok_or (parse_u64_digits (aix_namlen header) 10) ())
      ''Invalid AIX big archive member name length'')) (\<lambda>name_length.
    state_then (state_error (\<lambda>offset. read_bytes data offset name_length) ''Invalid AIX big archive member name'') (\<lambda>name offset.
    let offset = (if offset AND 1 \<noteq> 0 then word_saturating_add offset 1 else offset) in
    state_then (state_error (\<lambda>offset. read_bytes data offset 2) ''Invalid AIX big archive terminator'') (\<lambda>terminator offset.
    if terminator \<noteq> TERMINATOR then (Err ''Invalid AIX big archive terminator'', offset)
    else
      (and_then (read_error (ok_or (parse_u64_digits (aix_size header) 10) ())
         ''Invalid archive member size in AIX big archive'') (\<lambda>sz.
       Ok \<lparr>am_header = MH_AixBig header, am_name = name, am_offset = offset, am_size = sz\<rparr>), offset)) offset))) offset)"

definition ArchiveMember_parse_aixbig_index :: "bytes \<Rightarrow> bytes \<Rightarrow> (archive_member, string) result" where
  "ArchiveMember_parse_aixbig_index data index =
    and_then (read_error (ok_or (parse_u64_digits index 10) ()) ''Invalid AIX big archive file member offset'') (\<lambda>offset.
    ArchiveMember_parse_aixbig data offset)"

definition ArchiveMember_header :: "archive_member \<Rightarrow> bytes option" where
  "ArchiveMember_header self = (case am_header self of MH_Common header \<Rightarrow> Some header | _ \<Rightarrow> None)"

definition ArchiveMember_aix_header :: "archive_member \<Rightarrow> bytes option" where
  "ArchiveMember_aix_header self = (case am_header self of MH_AixBig header \<Rightarrow> Some header | _ \<Rightarrow> None)"

definition ArchiveMember_date :: "archive_member \<Rightarrow> u64 option" where
  "ArchiveMember_date self = (case am_header self of
     MH_Common header \<Rightarrow> parse_u64_digits (ar_date header) 10 | MH_AixBig header \<Rightarrow> parse_u64_digits (aix_date header) 10)"

definition ArchiveMember_uid :: "archive_member \<Rightarrow> u64 option" where
  "ArchiveMember_uid self = (case am_header self of
     MH_Common header \<Rightarrow> parse_u64_digits (ar_uid header) 10 | MH_AixBig header \<Rightarrow> parse_u64_digits (aix_uid header) 10)"

definition ArchiveMember_gid :: "archive_member \<Rightarrow> u64 option" where
  "ArchiveMember_gid self = (case am_header self of
     MH_Common header \<Rightarrow> parse_u64_digits (ar_gid header) 10 | MH_AixBig header \<Rightarrow> parse_u64_digits (aix_gid header) 10)"

definition ArchiveMember_mode :: "archive_member \<Rightarrow> u64 option" where
  "ArchiveMember_mode self = (case am_header self of
     MH_Common header \<Rightarrow> parse_u64_digits (ar_mode header) 8 | MH_AixBig header \<Rightarrow> parse_u64_digits (aix_mode header) 8)"

definition ArchiveMember_file_range :: "archive_member \<Rightarrow> u64 \<times> u64" where
  "ArchiveMember_file_range self = (am_offset self, am_size self)"

definition ArchiveMember_is_thin :: "archive_member \<Rightarrow> bool" where
  "ArchiveMember_is_thin self \<longleftrightarrow> am_offset self = 0"

definition ArchiveMember_data :: "archive_member \<Rightarrow> bytes \<Rightarrow> (bytes, string) result" where
  "ArchiveMember_data self data =
    (if ArchiveMember_is_thin self then Ok []
     else read_error (read_bytes_at data (am_offset self) (am_size self)) ''Archive member size is too large'')"

section \<open>ArchiveFile\<close>

datatype archive_kind = Archive_Unknown | Archive_Gnu | Archive_Gnu64 | Archive_Bsd | Archive_Bsd64 | Archive_Coff | Archive_AixBig

datatype archive_members = M_Common u64 u64 | M_AixBig "bytes list"

record archive_file =
  af_data :: bytes
  af_kind :: archive_kind
  af_members :: archive_members
  af_symbols :: "u64 \<times> u64"
  af_names :: bytes
  af_thin :: bool

text \<open>
  The special members at the start. The results are the file, the end of the special members and the
  end of the last member that was looked at.
\<close>

definition member_at :: "(u8 \<Rightarrow> bytes \<Rightarrow> nat option) \<Rightarrow> (u8 \<Rightarrow> u8 \<Rightarrow> bytes \<Rightarrow> nat option) \<Rightarrow> archive_file \<Rightarrow> u64 \<Rightarrow>
    (archive_member \<times> u64, string) result" where
  "member_at memchr memchr2 file tail =
    (case ArchiveMember_parse memchr memchr2 (af_data file) (af_names file) (af_thin file) tail of
       (r, tail) \<Rightarrow> and_then r (\<lambda>member. Ok (member, tail)))"

definition coff_names :: "(u8 \<Rightarrow> bytes \<Rightarrow> nat option) \<Rightarrow> (u8 \<Rightarrow> u8 \<Rightarrow> bytes \<Rightarrow> nat option) \<Rightarrow> u64 \<Rightarrow>
    archive_file \<times> u64 \<times> u64 \<Rightarrow> (archive_file \<times> u64 \<times> u64, string) result" where
  "coff_names memchr memchr2 len = (\<lambda>(file, members_offset, tail).
    if tail < len then
      and_then (member_at memchr memchr2 file tail) (\<lambda>(member, tail).
      if am_name member = ascii ''//'' then
        and_then (ArchiveMember_data member (af_data file)) (\<lambda>names. Ok (file\<lparr>af_names := names\<rparr>, tail, tail))
      else Ok (file, members_offset, tail))
    else Ok (file, members_offset, tail))"

definition coff_ecsymbols :: "(u8 \<Rightarrow> bytes \<Rightarrow> nat option) \<Rightarrow> (u8 \<Rightarrow> u8 \<Rightarrow> bytes \<Rightarrow> nat option) \<Rightarrow> u64 \<Rightarrow>
    archive_file \<times> u64 \<times> u64 \<Rightarrow> (archive_file \<times> u64, string) result" where
  "coff_ecsymbols memchr memchr2 len = (\<lambda>(file, members_offset, tail).
    if tail < len then
      and_then (member_at memchr memchr2 file tail) (\<lambda>(member, tail).
      if am_name member = ascii ''/<ECSYMBOLS>/'' then Ok (file, tail) else Ok (file, members_offset))
    else Ok (file, members_offset))"

definition gnu_names :: "(u8 \<Rightarrow> bytes \<Rightarrow> nat option) \<Rightarrow> (u8 \<Rightarrow> u8 \<Rightarrow> bytes \<Rightarrow> nat option) \<Rightarrow> u64 \<Rightarrow>
    archive_file \<Rightarrow> u64 \<Rightarrow> (archive_file \<times> u64, string) result" where
  "gnu_names memchr memchr2 len file tail =
    (if tail < len then
       and_then (member_at memchr memchr2 file tail) (\<lambda>(member, tail').
       if am_name member = ascii ''//'' then
         and_then (ArchiveMember_data member (af_data file)) (\<lambda>names. Ok (file\<lparr>af_names := names\<rparr>, tail'))
       else Ok (file, tail))
     else Ok (file, tail))"

definition gnu_or_coff :: "(u8 \<Rightarrow> bytes \<Rightarrow> nat option) \<Rightarrow> (u8 \<Rightarrow> u8 \<Rightarrow> bytes \<Rightarrow> nat option) \<Rightarrow> u64 \<Rightarrow>
    archive_file \<Rightarrow> u64 \<Rightarrow> (archive_file \<times> u64, string) result" where
  "gnu_or_coff memchr memchr2 len file tail =
    (if tail < len then
       and_then (member_at memchr memchr2 file tail) (\<lambda>(member, tail').
       if am_name member = ascii ''/'' then
         let file = file\<lparr>af_kind := Archive_Coff, af_symbols := ArchiveMember_file_range member\<rparr> in
         and_then (coff_names memchr memchr2 len (file, tail', tail')) (\<lambda>st.
         coff_ecsymbols memchr memchr2 len st)
       else if am_name member = ascii ''//'' then
         and_then (ArchiveMember_data member (af_data file)) (\<lambda>names. Ok (file\<lparr>af_names := names\<rparr>, tail'))
       else Ok (file, tail))
     else Ok (file, tail))"

definition special_members :: "(u8 \<Rightarrow> bytes \<Rightarrow> nat option) \<Rightarrow> (u8 \<Rightarrow> u8 \<Rightarrow> bytes \<Rightarrow> nat option) \<Rightarrow> u64 \<Rightarrow>
    archive_file \<Rightarrow> u64 \<Rightarrow> (archive_file \<times> u64, string) result" where
  "special_members memchr memchr2 len file tail =
    (if tail < len then
       and_then (member_at memchr memchr2 file tail) (\<lambda>(member, tail').
       let name = am_name member; range = ArchiveMember_file_range member in
       if name = ascii ''/'' then
         gnu_or_coff memchr memchr2 len (file\<lparr>af_kind := Archive_Gnu, af_symbols := range\<rparr>) tail'
       else if name = ascii ''/SYM64/'' then
         gnu_names memchr memchr2 len (file\<lparr>af_kind := Archive_Gnu64, af_symbols := range\<rparr>) tail'
       else if name = ascii ''//'' then
         and_then (ArchiveMember_data member (af_data file)) (\<lambda>names.
         Ok (file\<lparr>af_kind := Archive_Gnu, af_names := names\<rparr>, tail'))
       else if name = ascii ''__.SYMDEF'' \<or> name = ascii ''__.SYMDEF SORTED'' then
         Ok (file\<lparr>af_kind := Archive_Bsd, af_symbols := range\<rparr>, tail')
       else if name = ascii ''__.SYMDEF_64'' \<or> name = ascii ''__.SYMDEF_64 SORTED'' then
         Ok (file\<lparr>af_kind := Archive_Bsd64, af_symbols := range\<rparr>, tail')
       else Ok (file, tail))
     else Ok (file, tail))"

definition ArchiveFile_parse_aixbig :: "bytes \<Rightarrow> (archive_file, string) result" where
  "ArchiveFile_parse_aixbig data =
    and_then (read_error (read_pod_at 128 data 0) ''Invalid AIX big archive file header'') (\<lambda>file_header.
    debug_assert (aix_magic file_header = AIX_BIG_MAGIC) (
    let file = \<lparr>af_data = data, af_kind = Archive_AixBig, af_members = M_AixBig [], af_symbols = (0, 0),
                af_names = [], af_thin = False\<rparr> in
    and_then (read_error (ok_or (parse_u64_digits (aix_gst64off file_header) 10) ())
      ''Invalid offset to 64-bit symbol table in AIX big archive'') (\<lambda>symtbl64.
    and_then (if symtbl64 > 0 then Ok symtbl64
      else read_error (ok_or (parse_u64_digits (aix_gstoff file_header) 10) ())
        ''Invalid offset to symbol table in AIX big archive'') (\<lambda>symtbl.
    and_then (if symtbl > 0 then
        and_then (ArchiveMember_parse_aixbig data symtbl) (\<lambda>member.
        Ok (file\<lparr>af_symbols := ArchiveMember_file_range member\<rparr>))
      else Ok file) (\<lambda>file.
    and_then (read_error (ok_or (parse_u64_digits (aix_memoff file_header) 10) ())
      ''Invalid offset for member table of AIX big archive'') (\<lambda>member_table_offset.
    if member_table_offset = 0 then Ok file
    else
      and_then (ArchiveMember_parse_aixbig data member_table_offset) (\<lambda>member.
      and_then (ArchiveMember_data member data) (\<lambda>member_data.
      case Bytes_read_bytes 20 member_data of
        (r, member_data) \<Rightarrow>
          and_then (read_error r ''Missing member count in AIX big archive'') (\<lambda>members_count_bytes.
          and_then (read_error (ok_or (parse_u64_digits members_count_bytes 10) ())
            ''Invalid member count in AIX big archive'') (\<lambda>members_count.
          and_then (read_error (fst (Bytes_read_slice 20 (unat members_count) member_data))
            ''Member count overflow in AIX big archive'') (\<lambda>index.
          Ok (file\<lparr>af_members := M_AixBig index\<rparr>))))))))))))"

definition ArchiveFile_parse :: "(u8 \<Rightarrow> bytes \<Rightarrow> nat option) \<Rightarrow> (u8 \<Rightarrow> u8 \<Rightarrow> bytes \<Rightarrow> nat option) \<Rightarrow> bytes \<Rightarrow>
    (archive_file, string) result" where
  "ArchiveFile_parse memchr memchr2 data =
    and_then (read_error (slice_len data) ''Unknown archive length'') (\<lambda>len.
    case read_bytes data 0 8 of
      (r, tail) \<Rightarrow>
        and_then (read_error r ''Invalid archive size'') (\<lambda>magic.
        if magic = AIX_BIG_MAGIC then ArchiveFile_parse_aixbig data
        else if magic \<noteq> THIN_MAGIC \<and> magic \<noteq> MAGIC then Err ''Unsupported archive identifier''
        else
          let file = \<lparr>af_data = data, af_kind = Archive_Unknown, af_members = M_Common 0 0, af_symbols = (0, 0),
                      af_names = [], af_thin = (magic = THIN_MAGIC)\<rparr> in
          and_then (special_members memchr memchr2 len file tail) (\<lambda>(file, members_offset).
          Ok (file\<lparr>af_members := M_Common members_offset len\<rparr>))))"

definition ArchiveFile_is_thin :: "archive_file \<Rightarrow> bool" where
  "ArchiveFile_is_thin self = af_thin self"

definition ArchiveFile_member :: "(u8 \<Rightarrow> bytes \<Rightarrow> nat option) \<Rightarrow> (u8 \<Rightarrow> u8 \<Rightarrow> bytes \<Rightarrow> nat option) \<Rightarrow> archive_file \<Rightarrow> u64 \<Rightarrow>
    (archive_member, string) result" where
  "ArchiveFile_member memchr memchr2 self member =
    (case af_members self of
       M_Common offset end_offset \<Rightarrow>
         if member < offset \<or> member \<ge> end_offset then Err ''Invalid archive member offset''
         else fst (ArchiveMember_parse memchr memchr2 (af_data self) (af_names self) (af_thin self) member)
     | M_AixBig _ \<Rightarrow> ArchiveMember_parse_aixbig (af_data self) member)"

section \<open>ArchiveMemberIterator\<close>

record archive_member_iterator =
  mi_data :: bytes
  mi_members :: archive_members
  mi_names :: bytes
  mi_thin :: bool

definition ArchiveFile_members :: "archive_file \<Rightarrow> archive_member_iterator" where
  "ArchiveFile_members self = \<lparr>mi_data = af_data self, mi_members = af_members self, mi_names = af_names self,
     mi_thin = af_thin self\<rparr>"

definition ArchiveMemberIterator_next :: "(u8 \<Rightarrow> bytes \<Rightarrow> nat option) \<Rightarrow> (u8 \<Rightarrow> u8 \<Rightarrow> bytes \<Rightarrow> nat option) \<Rightarrow>
    (archive_member_iterator, archive_member) iter_next" where
  "ArchiveMemberIterator_next memchr memchr2 self =
    (case mi_members self of
       M_Common offset end_offset \<Rightarrow>
         if offset \<ge> end_offset then (Ok None, self)
         else
           (case ArchiveMember_parse memchr memchr2 (mi_data self) (mi_names self) (mi_thin self) offset of
              (Ok member, offset) \<Rightarrow> (Ok (Some member), self\<lparr>mi_members := M_Common offset end_offset\<rparr>)
            | (Err e, _) \<Rightarrow> (Err e, self\<lparr>mi_members := M_Common end_offset end_offset\<rparr>)
            | (Panic, offset) \<Rightarrow> (Panic, self\<lparr>mi_members := M_Common offset end_offset\<rparr>))
     | M_AixBig [] \<Rightarrow> (Ok None, self)
     | M_AixBig (first # rest) \<Rightarrow>
         (case ArchiveMember_parse_aixbig_index (mi_data self) first of
            Ok member \<Rightarrow> (Ok (Some member), self\<lparr>mi_members := M_AixBig rest\<rparr>)
          | Err e \<Rightarrow> (Err e, self\<lparr>mi_members := M_AixBig []\<rparr>)
          | Panic \<Rightarrow> (Panic, self\<lparr>mi_members := M_AixBig rest\<rparr>)))"

section \<open>ArchiveSymbolIterator\<close>

record archive_symbol =
  as_name :: bytes
  as_offset :: u64

datatype archive_symbols =
    SI_None
  | SI_Gnu "bytes list" bytes
  | SI_Gnu64 "bytes list" bytes
  | SI_Bsd "bytes list" bytes
  | SI_Bsd64 "bytes list" bytes
  | SI_Coff "bytes list" "bytes list" bytes

definition ArchiveSymbolIterator_new :: "archive_kind \<Rightarrow> bytes \<Rightarrow> u64 \<Rightarrow> u64 \<Rightarrow> (archive_symbols, unit) result" where
  "ArchiveSymbolIterator_new kind data offset sz =
    and_then (read_bytes_at data offset sz) (\<lambda>data.
    case kind of
      Archive_Unknown \<Rightarrow> Ok SI_None
    | Archive_Gnu \<Rightarrow> fst (cursor_then (Bytes_read 4) (\<lambda>n.
        cursor_then (Bytes_read_slice 4 (unat (U_get n Big :: u32))) (\<lambda>offsets names. (Ok (SI_Gnu offsets names), names))) data)
    | Archive_Gnu64 \<Rightarrow> fst (cursor_then (Bytes_read 8) (\<lambda>n.
        cursor_then (Bytes_read_slice 8 (unat (U_get n Big :: u64))) (\<lambda>offsets names. (Ok (SI_Gnu64 offsets names), names))) data)
    | Archive_Bsd \<Rightarrow> fst (cursor_then (Bytes_read 4) (\<lambda>n.
        cursor_then (Bytes_read_slice 8 (unat (U_get n Little :: u32) div 8)) (\<lambda>offsets.
        cursor_then (Bytes_read 4) (\<lambda>n.
        cursor_then (Bytes_read_bytes (unat (U_get n Little :: u32))) (\<lambda>names rest. (Ok (SI_Bsd offsets names), rest))))) data)
    | Archive_Bsd64 \<Rightarrow> fst (cursor_then (Bytes_read 8) (\<lambda>n.
        cursor_then (Bytes_read_slice 16 (unat (U_get n Little :: u64) div 16)) (\<lambda>offsets.
        cursor_then (Bytes_read 8) (\<lambda>n.
        cursor_then (Bytes_read_bytes (unat (U_get n Little :: u64))) (\<lambda>names rest. (Ok (SI_Bsd64 offsets names), rest))))) data)
    | Archive_Coff \<Rightarrow> fst (cursor_then (Bytes_read 4) (\<lambda>n.
        cursor_then (Bytes_read_slice 4 (unat (U_get n Little :: u32))) (\<lambda>members.
        cursor_then (Bytes_read 4) (\<lambda>n.
        cursor_then (Bytes_read_slice 2 (unat (U_get n Little :: u32))) (\<lambda>indices names. (Ok (SI_Coff members indices names), names))))) data)
    | Archive_AixBig \<Rightarrow> Ok SI_None)"

definition named_symbol :: "(bytes, unit) result \<Rightarrow> string \<Rightarrow> u64 \<Rightarrow> (archive_symbol option, string) result" where
  "named_symbol name msg offset = and_then (read_error name msg) (\<lambda>name. Ok (Some \<lparr>as_name = name, as_offset = offset\<rparr>))"

fun ArchiveSymbolIterator_next :: "(u8 \<Rightarrow> bytes \<Rightarrow> nat option) \<Rightarrow> (archive_symbols, archive_symbol) iter_next" where
  "ArchiveSymbolIterator_next memchr SI_None = (Ok None, SI_None)"
| "ArchiveSymbolIterator_next memchr (SI_Gnu [] names) = (Ok None, SI_Gnu [] names)"
| "ArchiveSymbolIterator_next memchr (SI_Gnu (x # offsets) names) =
    (case Bytes_read_string memchr names of
       (r, names) \<Rightarrow> (named_symbol r ''Missing archive symbol name'' (ucast (U_get x Big :: u32)), SI_Gnu offsets names))"
| "ArchiveSymbolIterator_next memchr (SI_Gnu64 [] names) = (Ok None, SI_Gnu64 [] names)"
| "ArchiveSymbolIterator_next memchr (SI_Gnu64 (x # offsets) names) =
    (case Bytes_read_string memchr names of
       (r, names) \<Rightarrow> (named_symbol r ''Missing archive symbol name'' (U_get x Big :: u64), SI_Gnu64 offsets names))"
| "ArchiveSymbolIterator_next memchr (SI_Bsd [] names) = (Ok None, SI_Bsd [] names)"
| "ArchiveSymbolIterator_next memchr (SI_Bsd (entry # offsets) names) =
    (named_symbol (Bytes_read_string_at memchr names (unat (U_get (take 4 entry) Little :: u32)))
       ''Invalid archive symbol name offset'' (ucast (U_get (drop 4 entry) Little :: u32)), SI_Bsd offsets names)"
| "ArchiveSymbolIterator_next memchr (SI_Bsd64 [] names) = (Ok None, SI_Bsd64 [] names)"
| "ArchiveSymbolIterator_next memchr (SI_Bsd64 (entry # offsets) names) =
    (named_symbol (Bytes_read_string_at memchr names (unat (U_get (take 8 entry) Little :: u64)))
       ''Invalid archive symbol name offset'' (U_get (drop 8 entry) Little :: u64), SI_Bsd64 offsets names)"
| "ArchiveSymbolIterator_next memchr (SI_Coff members [] names) = (Ok None, SI_Coff members [] names)"
| "ArchiveSymbolIterator_next memchr (SI_Coff members (x # indices) names) =
    (let index = (U_get x Little :: u16) - 1;
         member = read_error (ok_or (get_opt members (unat index)) ()) ''Invalid archive symbol member index'' in
     case Bytes_read_string memchr names of
       (r, names) \<Rightarrow>
         (and_then member (\<lambda>member. named_symbol r ''Missing archive symbol name'' (ucast (U_get member Little :: u32))),
          SI_Coff members indices names))"

fun ArchiveSymbolIterator_size_hint :: "archive_symbols \<Rightarrow> nat" where
  "ArchiveSymbolIterator_size_hint SI_None = 0"
| "ArchiveSymbolIterator_size_hint (SI_Gnu offsets _) = length offsets"
| "ArchiveSymbolIterator_size_hint (SI_Gnu64 offsets _) = length offsets"
| "ArchiveSymbolIterator_size_hint (SI_Bsd offsets _) = length offsets"
| "ArchiveSymbolIterator_size_hint (SI_Bsd64 offsets _) = length offsets"
| "ArchiveSymbolIterator_size_hint (SI_Coff _ indices _) = length indices"

definition ArchiveFile_symbols :: "archive_file \<Rightarrow> (archive_symbols option, string) result" where
  "ArchiveFile_symbols self =
    (if af_symbols self = (0, 0) then Ok None
     else (case af_symbols self of (offset, sz) \<Rightarrow>
       and_then (read_error (ArchiveSymbolIterator_new (af_kind self) (af_data self) offset sz)
         ''Invalid archive symbol table'') (\<lambda>it. Ok (Some it))))"

section \<open>No input makes the reader panic\<close>

lemma memchr2_spec_first_index2: "memchr2_spec first_index2"
proof -
  have "case first_index2 a b xs of None \<Rightarrow> a \<notin> set xs \<and> b \<notin> set xs
    | Some i \<Rightarrow> i < length xs \<and> (xs ! i = a \<or> xs ! i = b) \<and> a \<notin> set (take i xs) \<and> b \<notin> set (take i xs)" for a b xs
    by (induction xs) (auto split: option.splits)
  then show ?thesis by (simp add: memchr2_spec_def)
qed

lemma memchr2_case:
  "memchr2_spec mc2 \<Longrightarrow> case mc2 a b xs of None \<Rightarrow> a \<notin> set xs \<and> b \<notin> set xs
    | Some i \<Rightarrow> i < length xs \<and> (xs ! i = a \<or> xs ! i = b) \<and> a \<notin> set (take i xs) \<and> b \<notin> set (take i xs)"
  by (simp only: memchr2_spec_def)

lemma memchr2_SomeD:
  assumes "memchr2_spec mc2" "mc2 x y xs = Some i"
  shows "i < length xs" "xs ! i = x \<or> xs ! i = y" "x \<notin> set (take i xs)" "y \<notin> set (take i xs)"
  using memchr2_case [OF assms(1), where a = x and b = y and xs = xs] assms(2) by simp_all

lemma parse_sysv_no_panic:
  assumes "memchr2_spec mc2"
  shows "parse_sysv_extended_name mc2 digits names \<noteq> Panic"
proof -
  have "i < length xs" "i - Suc 0 < length xs" if "mc2 10 0 xs = Some i" for xs i
    using memchr2_SomeD(1) [OF assms that] by linarith+
  moreover have "mc2 10 0 [] = None" using memchr2_SomeD(1) [OF assms, of 10 0 "[]"] by (cases "mc2 10 0 []") auto
  ultimately show ?thesis
    by (auto simp: parse_sysv_extended_name_def and_then_eq_Panic index_list_def ok_or_def split: option.splits if_splits)
qed

lemma member_name_no_panic:
  assumes "memchr2_spec mc2"
  shows "member_name mc mc2 data names header offset sz \<noteq> Panic"
proof -
  have "parse_bsd_extended_name mc digits data (offset, sz) \<noteq> (Panic, x)" for digits x
    using read_bytes_no_panic [of data offset]
    by (auto simp: parse_bsd_extended_name_def and_then_eq_Panic split: option.splits prod.splits)
  then show ?thesis
    using parse_sysv_no_panic [OF assms]
    by (auto simp: member_name_def Let_def and_then_eq_Panic res_simps split: prod.splits)
qed

lemma read_bytes_at_short: "length data < unat off + unat n \<Longrightarrow> n \<noteq> 0 \<Longrightarrow> read_bytes_at data off n = Err ()"
  by (auto simp: read_bytes_at_def get_from_def get_to_def)

lemma read_bytes_triple:
  "triple (\<lambda>_. True) (\<lambda>o1. o1 = off) (state_error (\<lambda>o1. read_bytes data o1 n) msg)
    (\<lambda>bs o1. o1 = off + n \<and> read_bytes_at data off n = Ok bs)"
  using read_bytes_at_no_panic [of data off n]
  by (auto simp: triple_def state_error_def read_bytes_def read_error_def split: result.splits)

lemma read_pod_triple:
  assumes "0 < n" "n \<le> usize_max"
  shows "triple (\<lambda>_. True) (\<lambda>o1. o1 = off) (state_error (read_pod n data) msg)
    (\<lambda>h o1. unat off + n \<le> length data \<and> o1 = off + word_of_nat n \<and> h = slice_at data (unat off) n)"
proof (cases "unat off + n \<le> length data")
  case True
  then show ?thesis using read_pod_ok [OF True assms(2)] by (simp add: triple_def state_error_def)
next
  case False
  have "unat (word_of_nat n :: u64) = n" using assms(2) by (rule unat_word_of_nat_u64)
  then have "read_bytes_at data off (word_of_nat n) = Err ()"
    using False assms(1) by (intro read_bytes_at_short) (auto simp flip: unat_eq_zero)
  then show ?thesis by (simp add: triple_def state_error_def read_pod_def read_bytes_def)
qed

lemma word_saturating_add_ge: "unat a \<le> unat (word_saturating_add a b)"
proof -
  have "unat a \<le> unat (- 1 :: 'a word)" using word_le_nat_alt word_n1_ge by blast
  then show ?thesis
    by (cases "unat a + unat b < 2 ^ LENGTH('a)")
      (simp_all add: word_saturating_add_def word_checked_add_def unat_add_no_overflow)
qed

lemma skip_data_triple: "triple (\<lambda>_. True) (\<lambda>o1. n \<le> unat o1) (skip_data sz) (\<lambda>_ o1. n \<le> unat o1)"
proof -
  have "n \<le> unat o2" if "n \<le> unat o1" "word_checked_add o1 sz = Some o3" "o2 = o3 \<or> o2 = word_saturating_add o3 1" for o1 o2 o3
  proof -
    have "n \<le> unat o3" using that(1,2) by (simp add: res_simps unat_add_no_overflow)
    then show ?thesis using that(3) word_saturating_add_ge [of o3 1] by auto
  qed
  then show ?thesis by (auto simp: triple_def skip_data_def split: option.splits)
qed

lemma ArchiveMember_parse_triple:
  assumes "memchr2_spec mc2" "length data \<le> usize_max"
  shows "triple (\<lambda>_. True) (\<lambda>o1. o1 = off) (ArchiveMember_parse mc mc2 data names thin)
    (\<lambda>m o1. unat off + 60 \<le> unat o1)"
proof -
  have size: "triple (\<lambda>_. True) P (state_lift (read_error (ok_or x ()) msg)) (\<lambda>_. P)" for P x msg
    by (rule triple_lift) (simp add: ok_or_def split: option.splits)
  have name: "triple (\<lambda>_. True) P (state_get (\<lambda>o1. member_name mc mc2 data names header o1 n)) (\<lambda>_. P)" for P header n
    using member_name_no_panic [OF assms(1)] by (intro triple_get) (simp split: result.splits)
  have rest: "triple (\<lambda>_. True) (\<lambda>o1. unat off + 60 \<le> unat o1)
      (if b then state_lift (Ok m1) else state_then (skip_data sz) (\<lambda>_. state_lift (Ok m2)))
      (\<lambda>m o1. unat off + 60 \<le> unat o1)" for b m1 m2 sz
    by (auto intro!: triple_then [OF skip_data_triple] triple_lift)
  have *: "unat (off + 60) = unat off + 60" if "unat off + 60 \<le> length data"
    using that assms(2) by (simp add: usize_max_def unat_add_no_overflow)
  have "triple (\<lambda>_. True) (\<lambda>o1. o1 = off) (state_error (read_pod 60 data) msg) (\<lambda>h o1. unat off + 60 \<le> unat o1)" for msg
    by (intro triple_conseq [OF read_pod_triple]) (auto simp: usize_max_def *)
  then show ?thesis
    unfolding ArchiveMember_parse_def
  proof (rule triple_then, intro triple_if)
    show "triple (\<lambda>_. True) (\<lambda>o1. unat off + 60 \<le> unat o1) (state_lift (Err msg)) (\<lambda>m o1. unat off + 60 \<le> unat o1)" for msg
      by (rule triple_lift) simp
  qed (rule triple_then [OF size], rule triple_then [OF name], simp only: split_paired_all prod.case rest)
qed

lemma state_error_Panic: "fst (state_error m msg s) = Panic \<longleftrightarrow> fst (m s) = Panic"
  by (auto simp: state_error_def res_simps split: prod.splits)

lemma ArchiveMember_parse_aixbig_no_panic: "ArchiveMember_parse_aixbig data offset \<noteq> Panic"
  using read_pod_no_panic [of 112 data] read_bytes_no_panic [of data]
  unfolding ArchiveMember_parse_aixbig_def
  by (auto simp: state_then_Panic state_error_Panic state_lift_def Let_def ok_or_def and_then_eq_Panic res_simps
      split: option.splits if_splits)

lemma ArchiveMember_parse_no_panic:
  "memchr2_spec mc2 \<Longrightarrow> length data \<le> usize_max \<Longrightarrow> fst (ArchiveMember_parse mc mc2 data names thin off) \<noteq> Panic"
  using ArchiveMember_parse_triple [of mc2 data off mc names thin] by (simp add: triple_def)

lemma ArchiveMember_data_no_panic: "ArchiveMember_data m data \<noteq> Panic"
  using read_bytes_at_no_panic by (simp add: ArchiveMember_data_def res_simps)

lemma member_at_no_panic:
  "memchr2_spec mc2 \<Longrightarrow> length (af_data file) \<le> usize_max \<Longrightarrow> member_at mc mc2 file tail \<noteq> Panic"
  using ArchiveMember_parse_no_panic [of mc2 "af_data file" mc]
  by (auto simp: member_at_def and_then_eq_Panic split: prod.splits) (metis fst_conv)

lemma special_members_no_panic:
  assumes "memchr2_spec mc2" "length (af_data file) \<le> usize_max"
  shows "special_members mc mc2 len file tail \<noteq> Panic"
proof -
  have names: "gnu_names mc mc2 len f tail \<noteq> Panic" if "length (af_data f) \<le> usize_max" for f tail
    using member_at_no_panic [OF assms(1) that] ArchiveMember_data_no_panic
    by (auto simp: gnu_names_def and_then_eq_Panic split: if_splits)
  have ec: "coff_ecsymbols mc mc2 len (f, mo, tail) \<noteq> Panic" if "length (af_data f) \<le> usize_max" for f mo tail
    using member_at_no_panic [OF assms(1) that] by (auto simp: coff_ecsymbols_def and_then_eq_Panic split: if_splits)
  have coff: "and_then (coff_names mc mc2 len (f, mo, tail)) (coff_ecsymbols mc mc2 len) \<noteq> Panic"
    if "length (af_data f) \<le> usize_max" for f mo tail
    using member_at_no_panic [OF assms(1) that] ArchiveMember_data_no_panic that ec
    by (auto simp: coff_names_def and_then_eq_Panic res_simps split: if_splits prod.splits)
  have "gnu_or_coff mc mc2 len f tail \<noteq> Panic" if "length (af_data f) \<le> usize_max" for f tail
  proof (cases "member_at mc mc2 f tail")
    case (Ok x)
    then show ?thesis
      using ArchiveMember_data_no_panic that coff
      by (cases x) (auto simp: gnu_or_coff_def Let_def and_then_eq_Panic [of "ArchiveMember_data _ _"])
  qed (use member_at_no_panic [OF assms(1) that] in \<open>simp_all add: gnu_or_coff_def\<close>)
  then show ?thesis
    using member_at_no_panic [OF assms] ArchiveMember_data_no_panic assms(2) names
    by (auto simp: special_members_def Let_def and_then_eq_Panic split: if_splits)
qed

lemma read_pod_at_OkD:
  assumes "0 < n" "n \<le> usize_max" "read_pod_at n data off = Ok h"
  shows "unat off + n \<le> length data" "h = slice_at data (unat off) n"
proof -
  obtain x where "state_error (read_pod n data) [] off = (Ok h, x)"
    using assms(3) by (cases "read_pod n data off") (simp add: read_pod_at_def state_error_def)
  then show "unat off + n \<le> length data" "h = slice_at data (unat off) n"
    using read_pod_triple [OF assms(1,2), of off data "[]"] by (auto simp: triple_def)
qed

lemma ArchiveFile_parse_aixbig_no_panic:
  assumes "read_bytes data 0 8 = (Ok AIX_BIG_MAGIC, tail)"
  shows "ArchiveFile_parse_aixbig data \<noteq> Panic"
proof -
  have "read_bytes_at data 0 8 = Ok AIX_BIG_MAGIC" using assms by (auto simp: read_bytes_def split: result.splits)
  then have "slice_at data 0 8 = AIX_BIG_MAGIC" by (simp add: read_bytes_at_eq_Ok)
  then have "aix_magic h = AIX_BIG_MAGIC" if "read_pod_at 128 data 0 = Ok h" for h
    using read_pod_at_OkD(2) [OF _ _ that] by (simp add: aix_magic_def slice_at_def usize_max_def)
  moreover have "fst (Bytes_read_slice n k d) \<noteq> Panic" "fst (Bytes_read_bytes n d) \<noteq> Panic" for n k d
    using slice_from_bytes_1_no_panic [of n d k] Bytes_read_bytes_no_panic [of n d]
    by (auto simp: Bytes_read_slice_def split: result.splits prod.splits) (metis surjective_pairing)
  moreover have "fst (read_pod 128 data 0) \<noteq> Panic" by (rule read_pod_no_panic(1))
  ultimately show ?thesis
    using ArchiveMember_parse_aixbig_no_panic ArchiveMember_data_no_panic
    unfolding ArchiveFile_parse_aixbig_def
    by (auto simp: and_then_eq_Panic res_simps ok_or_def read_pod_at_def Let_def split: option.splits if_splits prod.splits)
      (metis fst_conv)+
qed

lemma ArchiveFile_parse_no_panic:
  assumes "memchr2_spec mc2" "length data \<le> usize_max"
  shows "ArchiveFile_parse mc mc2 data \<noteq> Panic"
proof -
  show ?thesis
    using special_members_no_panic [OF assms(1)] ArchiveFile_parse_aixbig_no_panic assms(2)
    by (auto simp: read_bytes_no_panic ArchiveFile_parse_def slice_len_def Let_def and_then_eq_Panic res_simps split: prod.splits if_splits)
qed

lemma special_parts_data:
  "gnu_names mc mc2 len f tail = Ok (f', x) \<Longrightarrow> af_data f' = af_data f"
  "coff_names mc mc2 len (f, mo, tail) = Ok (f', y) \<Longrightarrow> af_data f' = af_data f"
  "coff_ecsymbols mc mc2 len (f, y) = Ok (f', x) \<Longrightarrow> af_data f' = af_data f"
  by (auto simp: gnu_names_def coff_names_def coff_ecsymbols_def res_simps split: if_splits prod.splits)

lemma gnu_or_coff_data:
  assumes "gnu_or_coff mc mc2 len f tail = Ok (f', x)"
  shows "af_data f' = af_data f"
  using assms special_parts_data(2) special_parts_data(3)
  by (fastforce simp: gnu_or_coff_def Let_def res_simps split: if_splits)

lemma special_members_data: "special_members mc mc2 len f tail = Ok (f', x) \<Longrightarrow> af_data f' = af_data f"
  by (auto simp: special_members_def Let_def res_simps dest!: gnu_or_coff_data special_parts_data(1) split: if_splits)

lemma ArchiveFile_parse_aixbig_data: "ArchiveFile_parse_aixbig data = Ok f \<Longrightarrow> af_data f = data"
  by (auto simp: ArchiveFile_parse_aixbig_def Let_def res_simps case_prod_beta split: if_splits)

lemma ArchiveFile_parse_data:
  assumes "ArchiveFile_parse mc mc2 data = Ok f"
  shows "af_data f = data"
proof -
  obtain r tail where "read_bytes data 0 8 = (r, tail)" by fastforce
  then show ?thesis
    using assms by (auto simp: ArchiveFile_parse_def Let_def res_simps dest: ArchiveFile_parse_aixbig_data special_members_data
        split: if_splits)
qed

definition member_remaining :: "archive_member_iterator \<Rightarrow> nat" where
  "member_remaining self = (case mi_members self of
     M_Common offset end_offset \<Rightarrow> unat end_offset - unat offset | M_AixBig index \<Rightarrow> length index)"

lemma archive_member_iterator:
  assumes "memchr2_spec mc2"
  shows "fallible_iterator (ArchiveMemberIterator_next mc mc2) member_remaining (\<lambda>it. length (mi_data it) \<le> usize_max)"
proof
  fix it :: archive_member_iterator
  assume ok: "length (mi_data it) \<le> usize_max"
  note parse = ArchiveMember_parse_triple [OF assms ok, of _ mc "mi_names it" "mi_thin it", unfolded triple_def, rule_format, OF refl]
  note aix = ArchiveMember_parse_aixbig_no_panic [of "mi_data it"]
  note no_panic = ArchiveMember_parse_no_panic [OF assms ok, of mc "mi_names it" "mi_thin it"]
  have index: "ArchiveMember_parse_aixbig_index (mi_data it) x \<noteq> Panic" for x
    using aix by (auto simp: ArchiveMember_parse_aixbig_index_def and_then_eq_Panic ok_or_def split: option.splits)
  show "fst (ArchiveMemberIterator_next mc mc2 it) \<noteq> Panic"
  proof (cases "mi_members it")
    case (M_Common offset end_offset)
    then show ?thesis using no_panic [of offset]
      by (auto simp: ArchiveMemberIterator_next_def split: prod.splits result.splits)
  next
    case (M_AixBig xs)
    then show ?thesis using index by (cases xs) (auto simp: ArchiveMemberIterator_next_def split: result.splits)
  qed
  show "length (mi_data (snd (ArchiveMemberIterator_next mc mc2 it))) \<le> usize_max"
    using ok by (auto simp: ArchiveMemberIterator_next_def
        split: archive_members.splits list.splits prod.splits result.splits if_splits)
  show "member_remaining it' < member_remaining it" if step: "ArchiveMemberIterator_next mc mc2 it = (Ok (Some a), it')" for a it'
  proof (cases "mi_members it")
    case (M_Common offset end_offset)
    then obtain o2 where "ArchiveMember_parse mc mc2 (mi_data it) (mi_names it) (mi_thin it) offset = (Ok a, o2)"
      "offset < end_offset" "it' = it\<lparr>mi_members := M_Common o2 end_offset\<rparr>"
      using step by (auto simp: ArchiveMemberIterator_next_def split: prod.splits result.splits if_splits)
    moreover from this have "unat offset + 60 \<le> unat o2" using parse by blast
    ultimately show ?thesis using M_Common by (simp add: member_remaining_def word_less_nat_alt)
  next
    case (M_AixBig xs)
    then show ?thesis using step
      by (auto simp: ArchiveMemberIterator_next_def member_remaining_def split: list.splits result.splits)
  qed
qed (auto simp: ArchiveMemberIterator_next_def member_remaining_def word_le_nat_alt
    split: archive_members.splits list.splits prod.splits result.splits if_splits)

interpretation archive_members: fallible_iterator "ArchiveMemberIterator_next first_index first_index2" member_remaining
    "\<lambda>it. length (mi_data it) \<le> usize_max"
  by (rule archive_member_iterator [OF memchr2_spec_first_index2])

section \<open>A reference writer\<close>

text \<open>
  The format as \<^verbatim>\<open>ar\<close> writes it: decimal numbers in fields padded with spaces, and a name that is
  short, in the names table (GNU) or at the start of the data (BSD).
\<close>

fun decimal :: "nat \<Rightarrow> bytes" where
  "decimal n = (if n < 10 then [word_of_nat (48 + n)] else decimal (n div 10) @ [word_of_nat (48 + n mod 10)])"

declare decimal.simps [simp del]

definition field :: "nat \<Rightarrow> bytes \<Rightarrow> bytes" where
  "field k bs = bs @ replicate (k - length bs) 32"

definition member_header :: "bytes \<Rightarrow> bytes \<Rightarrow> nat \<Rightarrow> bytes" where
  "member_header nf meta sz = field 16 nf @ meta @ field 10 (decimal sz) @ TERMINATOR"

definition member_image :: "bytes \<Rightarrow> bytes \<Rightarrow> bytes \<Rightarrow> bytes" where
  "member_image nf meta body = member_header nf meta (length body) @ body @ (if odd (length body) then [10] else [])"

datatype name_style = Short | Sysv nat | Bsd nat

record ar_entry =
  en_name :: bytes
  en_style :: name_style
  en_meta :: bytes
  en_content :: bytes

definition entry_field :: "ar_entry \<Rightarrow> bytes" where
  "entry_field e = (case en_style e of
     Short \<Rightarrow> en_name e @ [0x2f]
   | Sysv offset \<Rightarrow> 0x2f # decimal offset
   | Bsd pad \<Rightarrow> ascii ''#1/'' @ decimal (length (en_name e) + pad))"

definition entry_prefix :: "ar_entry \<Rightarrow> bytes" where
  "entry_prefix e = (case en_style e of Bsd pad \<Rightarrow> en_name e @ replicate pad 0 | _ \<Rightarrow> [])"

definition entry_image :: "ar_entry \<Rightarrow> bytes" where
  "entry_image e = member_image (entry_field e) (en_meta e) (entry_prefix e @ en_content e)"

text \<open>The positions of the members.\<close>

fun placed :: "nat \<Rightarrow> ar_entry list \<Rightarrow> (nat \<times> ar_entry) list" where
  "placed p [] = []"
| "placed p (e # es) = (p, e) # placed (p + length (entry_image e)) es"

definition symbols_body :: "nat \<Rightarrow> (bytes \<times> nat) list \<Rightarrow> ar_entry list \<Rightarrow> bytes" where
  "symbols_body base syms es = U_new Big (word_of_nat (length syms) :: u32) @
     concat (map (\<lambda>(_, i). U_new Big (word_of_nat (fst (placed base es ! i)) :: u32)) syms) @
     concat (map (\<lambda>(name, _). name @ [0]) syms)"

definition symbols_length :: "(bytes \<times> nat) list \<Rightarrow> nat" where
  "symbols_length syms = 4 + 4 * length syms + length (concat (map (\<lambda>(name, _). name @ [0]) syms))"

definition names_image :: "bytes option \<Rightarrow> bytes" where
  "names_image names = (case names of Some table \<Rightarrow> member_image (ascii ''//'') (replicate 32 32) table | None \<Rightarrow> [])"

definition members_start :: "(bytes \<times> nat) list \<Rightarrow> bytes option \<Rightarrow> nat" where
  "members_start syms names = 68 + symbols_length syms + symbols_length syms mod 2 + length (names_image names)"

definition archive_image :: "(bytes \<times> nat) list \<Rightarrow> bytes option \<Rightarrow> ar_entry list \<Rightarrow> bytes" where
  "archive_image syms names es =
    MAGIC @ member_image (ascii ''/'') (replicate 32 32) (symbols_body (members_start syms names) syms es) @
    names_image names @ concat (map entry_image es)"

definition the_names :: "bytes option \<Rightarrow> bytes" where
  "the_names names = (case names of Some table \<Rightarrow> table | None \<Rightarrow> [])"

text \<open>What the format can represent.\<close>

definition entry_ok :: "bytes \<Rightarrow> ar_entry \<Rightarrow> bool" where
  "entry_ok table e \<longleftrightarrow> length (en_meta e) = 32 \<and> en_name e \<noteq> ascii ''/'' \<and> en_name e \<noteq> ascii ''//'' \<and>
    (case en_style e of
       Short \<Rightarrow> en_name e \<noteq> [] \<and> length (en_name e) < 16 \<and> 0x2f \<notin> set (en_name e)
     | Sysv offset \<Rightarrow> offset < 10 ^ 15 \<and> offset \<le> length table \<and> 10 \<notin> set (en_name e) \<and> 0 \<notin> set (en_name e) \<and>
         take (length (en_name e) + 2) (drop offset table) = en_name e @ [0x2f, 10]
     | Bsd pad \<Rightarrow> 0 \<notin> set (en_name e) \<and> length (en_name e) + pad < 10 ^ 13)"

lemma decimal_induct [case_names digit step]:
  assumes "\<And>n. n < 10 \<Longrightarrow> P n" "\<And>n. 10 \<le> n \<Longrightarrow> P (n div 10) \<Longrightarrow> P n"
  shows "P (n :: nat)"
proof (induction n rule: less_induct)
  case (less n)
  show ?case
  proof (cases "n < 10")
    case False
    then have "n div 10 < n" by simp
    then show ?thesis using less assms(2) [of n] False by simp
  qed (rule assms(1))
qed

lemma decimal_digit: "n < 10 \<Longrightarrow> decimal n = [word_of_nat (48 + n)]"
  by (simp add: decimal.simps)

lemma decimal_step: "10 \<le> n \<Longrightarrow> decimal n = decimal (n div 10) @ [word_of_nat (48 + n mod 10)]"
  by (subst decimal.simps) simp

lemma digit_cases:
  assumes "d < 10"
  shows "to_digit 10 (word_of_nat (48 + d)) = Some d" "word_of_nat (48 + d) \<noteq> (32 :: u8)"
    "is_ascii_digit (word_of_nat (48 + d))" "word_of_nat (48 + d) \<noteq> (0x2f :: u8)"
proof -
  have "list_all (\<lambda>d. to_digit 10 (word_of_nat (48 + d)) = Some d \<and> word_of_nat (48 + d) \<noteq> (32 :: u8) \<and>
      is_ascii_digit (word_of_nat (48 + d)) \<and> word_of_nat (48 + d) \<noteq> (0x2f :: u8)) [0..<10]"
    by (simp add: upt_rec [of _ "10"] to_digit_def is_ascii_digit_def)
  then show "to_digit 10 (word_of_nat (48 + d)) = Some d" "word_of_nat (48 + d) \<noteq> (32 :: u8)"
    "is_ascii_digit (word_of_nat (48 + d))" "word_of_nat (48 + d) \<noteq> (0x2f :: u8)"
    using assms by (simp_all add: list_all_iff del: of_nat_add)
qed

lemma decimal_Cons: "\<exists>d ds. d < 10 \<and> decimal n = word_of_nat (48 + d) # ds"
proof (induction n rule: decimal_induct)
  case (digit n)
  then show ?case by (auto simp: decimal_digit)
next
  case (step n)
  then show ?case by (auto simp: decimal_step)
qed

lemma length_decimal: "n < 10 ^ k \<Longrightarrow> 0 < k \<Longrightarrow> length (decimal n) \<le> k"
proof (induction n arbitrary: k rule: decimal_induct)
  case (digit n)
  then show ?case by (simp add: decimal_digit)
next
  case (step n)
  then obtain j where k: "k = Suc j" by (cases k) auto
  then have "j \<noteq> 0" using step(1,3) by (cases j) auto
  moreover have "n div 10 < 10 ^ j" using step(3) by (simp add: k div_less_iff_less_mult mult.commute)
  ultimately show ?case using step(2) [of j] step(1) by (simp add: decimal_step k)
qed

lemma parse_decimal_loop:
  "n < 2 ^ 64 \<Longrightarrow> parse_digits_loop 10 0 (decimal n @ rest) = parse_digits_loop 10 (word_of_nat n) rest"
proof (induction n arbitrary: rest rule: decimal_induct)
  case (digit n)
  then show ?case
    by (simp add: decimal_digit digit_cases word_checked_mul_def word_checked_add_def unat_of_nat
        del: of_nat_add)
next
  case (step n)
  let ?q = "n div 10" and ?d = "n mod 10"
  have q: "?q < 2 ^ 64" "?q * 10 < 2 ^ 64" "?q * 10 + ?d = n" "?d < 10" using step(1,3) by (auto simp: div_mult_mod_eq)
  then have u: "unat (word_of_nat ?q :: u64) = ?q" "unat (word_of_nat ?d :: u64) = ?d" by (simp_all add: unat_of_nat)
  have m: "word_of_nat ?q * 10 = (word_of_nat (?q * 10) :: u64)" by simp
  have "word_of_nat ?q * 10 + word_of_nat ?d = (word_of_nat n :: u64)"
    unfolding m using q(3) by (metis of_nat_add)
  moreover have "5 * ?q < 9223372036854775808" using q(2) by simp
  ultimately show ?case
    using step u
    by (simp add: decimal_step digit_cases word_checked_mul_def word_checked_add_def unat_of_nat m del: of_nat_mult of_nat_add)
qed

lemma parse_decimal:
  assumes "n < 2 ^ 64"
  shows "parse_u64_digits (decimal n @ replicate k 32) 10 = Some (word_of_nat n)"
proof -
  obtain d ds where d: "d < 10" "decimal n = word_of_nat (48 + d) # ds" using decimal_Cons by blast
  have "parse_u64_digits (decimal n @ replicate k 32) 10 = parse_digits_loop 10 0 (decimal n @ replicate k 32)"
    using d digit_cases(2) [OF d(1)] by (simp add: parse_u64_digits_def)
  also have "\<dots> = Some (word_of_nat n)"
    unfolding parse_decimal_loop [OF assms] by (cases k) simp_all
  finally show ?thesis .
qed

section \<open>Reading the reference writer's output back\<close>

lemma length_field: "length bs \<le> k \<Longrightarrow> length (field k bs) = k"
  by (simp add: field_def)

lemma length_member_header:
  "length nf \<le> 16 \<Longrightarrow> length meta = 32 \<Longrightarrow> sz < 10 ^ 10 \<Longrightarrow> length (member_header nf meta sz) = 60"
  using length_decimal [of sz 10] by (simp add: member_header_def length_field TERMINATOR_def)

lemma member_header_fields:
  assumes "length nf \<le> 16" "length meta = 32" "sz < 10 ^ 10"
  shows "ar_name (member_header nf meta sz) = field 16 nf"
    "ar_terminator (member_header nf meta sz) = TERMINATOR"
    "parse_u64_digits (ar_size (member_header nf meta sz)) 10 = Some (word_of_nat sz)"
proof -
  have len: "length (field 16 nf) = 16" "length (field 10 (decimal sz)) = 10"
    using assms length_decimal [of sz 10] by (simp_all add: length_field)
  show "ar_name (member_header nf meta sz) = field 16 nf" "ar_terminator (member_header nf meta sz) = TERMINATOR"
    using len assms(2) by (simp_all add: ar_name_def ar_terminator_def member_header_def slice_at_def TERMINATOR_def)
  have "ar_size (member_header nf meta sz) = field 10 (decimal sz)"
    using len assms(2) by (simp add: ar_size_def member_header_def slice_at_def)
  then show "parse_u64_digits (ar_size (member_header nf meta sz)) 10 = Some (word_of_nat sz)"
    using assms(3) parse_decimal [of sz] by (simp add: field_def)
qed

lemma length_member_image:
  "length nf \<le> 16 \<Longrightarrow> length meta = 32 \<Longrightarrow> length body < 10 ^ 10 \<Longrightarrow>
    length (member_image nf meta body) = 60 + length body + length body mod 2"
  by (simp add: member_image_def length_member_header odd_iff_mod_2_eq_one)

lemma odd_word_of_nat: "(word_of_nat n :: u64) AND 1 = of_bool (odd n)"
proof -
  have "odd (word_of_nat n :: u64) \<longleftrightarrow> odd n" by transfer (simp add: even_take_bit_eq)
  then show ?thesis by (simp add: and_one_eq mod_2_eq_odd)
qed

lemma skip_data_even:
  assumes "o1 + n + n mod 2 < 2 ^ 64"
  shows "skip_data (word_of_nat n) (word_of_nat o1) = (Ok (), word_of_nat (o1 + n + n mod 2))"
proof -
  have u: "unat (word_of_nat o1 :: u64) = o1" "unat (word_of_nat n :: u64) = n" "unat (word_of_nat (o1 + n) :: u64) = o1 + n"
    using assms by (simp_all add: unat_of_nat del: of_nat_add)
  have add: "word_checked_add (word_of_nat o1) (word_of_nat n :: u64) = Some (word_of_nat (o1 + n))"
    using assms u by (simp add: word_checked_add_def)
  have "word_saturating_add (word_of_nat (o1 + n)) (1 :: u64) = word_of_nat (o1 + n + 1)" if "odd n"
    using that assms u(3) by (simp add: word_saturating_add_def word_checked_add_def odd_iff_mod_2_eq_one del: of_nat_add)
  then show ?thesis
    using add by (cases "odd n") (simp_all add: skip_data_def odd_word_of_nat odd_iff_mod_2_eq_one del: of_nat_add)
qed

text \<open>A member at its place, given what its name reads as.\<close>

lemma ArchiveMember_parse_image:
  assumes "data = pre @ member_image nf meta body @ post" "length data < 2 ^ 32"
    and "length nf \<le> 16" "length meta = 32" "length body < 10 ^ 10"
    and "member_name mc mc2 data names (member_header nf meta (length body)) (word_of_nat (length pre + 60))
      (word_of_nat (length body)) = Ok (nm, fo, fs)"
  shows "ArchiveMember_parse mc mc2 data names False (word_of_nat (length pre)) =
    (Ok \<lparr>am_header = MH_Common (member_header nf meta (length body)), am_name = nm, am_offset = fo, am_size = fs\<rparr>,
     word_of_nat (length pre + length (member_image nf meta body)))"
proof -
  let ?h = "member_header nf meta (length body)"
  have h: "length ?h = 60" using assms by (simp add: length_member_header)
  have len: "length pre + 60 + length body + length body mod 2 \<le> length data"
    using assms(1) length_member_image [OF assms(3-5)] by simp
  have u: "unat (word_of_nat (length pre) :: u64) = length pre"
    using len assms(2) by (simp add: unat_of_nat)
  have "slice_at data (length pre) 60 = ?h"
    using h assms(1) by (simp add: member_image_def slice_at_def)
  then have "read_pod 60 data (word_of_nat (length pre)) = (Ok ?h, word_of_nat (length pre + 60))"
    using read_pod_ok [of "word_of_nat (length pre)" 60 data] u len by (simp add: usize_max_def add.commute)
  moreover have "skip_data (word_of_nat (length body)) (word_of_nat (length pre + 60)) =
      (Ok (), word_of_nat (length pre + length (member_image nf meta body)))"
    using len assms(1,2) length_member_image [OF assms(3-5)] skip_data_even [of "length pre + 60" "length body"] by simp
  ultimately show ?thesis
    using assms(6) member_header_fields [OF assms(3-5)]
    by (simp add: ArchiveMember_parse_def state_then_def state_error_def state_lift_def state_get_def)
qed

lemma memchr2_Some:
  assumes "memchr2_spec mc2" "x \<notin> set xs" "y \<notin> set xs" "z = x \<or> z = y"
  shows "mc2 x y (xs @ z # ys) = Some (length xs)"
proof (cases "mc2 x y (xs @ z # ys)")
  case None
  then show ?thesis
    using memchr2_case [OF assms(1), where a = x and b = y and xs = "xs @ z # ys"] assms(4) by auto
next
  case (Some i)
  note spec = memchr2_SomeD [OF assms(1) Some]
  have "\<not> i < length xs"
    using spec(2) assms(2,3) by (auto simp: nth_append)
  moreover have "\<not> length xs < i"
  proof
    assume "length xs < i"
    then obtain k where "i = length xs + Suc k" by (metis add_Suc_right less_imp_Suc_add)
    then have "z \<in> set (take i (xs @ z # ys))" by simp
    then show False using spec(3,4) assms(4) by blast
  qed
  ultimately show ?thesis using Some by simp
qed

lemma decimal_first: "is_ascii_digit ((decimal n @ xs) ! 0)" "(decimal n @ xs) ! 0 \<noteq> 0x20"
  using decimal_Cons [of n] digit_cases by auto

lemma short_field:
  assumes "name \<noteq> []" "length name < 16" "0x2f \<notin> set name"
  shows "field 16 (name @ [0x2f]) ! 0 \<noteq> 0x2f"
    "\<not> (take 3 (field 16 (name @ [0x2f])) = ascii ''#1/'' \<and> is_ascii_digit (field 16 (name @ [0x2f]) ! 3))"
proof -
  obtain c cs where name: "name = c # cs" using assms(1) by (cases name) auto
  show "field 16 (name @ [0x2f]) ! 0 \<noteq> 0x2f" using assms(3) by (simp add: name field_def)
  show "\<not> (take 3 (field 16 (name @ [0x2f])) = ascii ''#1/'' \<and> is_ascii_digit (field 16 (name @ [0x2f]) ! 3))"
  proof (cases cs)
    case Nil
    then show ?thesis by (simp add: name field_def ascii_def numeral_3_eq_3)
  next
    case (Cons d ds)
    then show ?thesis
      using assms(3) by (cases ds) (simp_all add: name field_def ascii_def numeral_3_eq_3 is_ascii_digit_def)
  qed
qed

lemma entry_name_Short:
  assumes "memchr_spec mc" "en_style e = Short" "entry_ok table e" "length (entry_prefix e @ en_content e) < 10 ^ 10"
  shows "member_name mc mc2 data table (member_header (entry_field e) (en_meta e) (length (entry_prefix e @ en_content e)))
    offset sz = Ok (en_name e, offset, sz)"
proof -
  have e: "en_name e \<noteq> []" "length (en_name e) < 16" "0x2f \<notin> set (en_name e)" "length (en_meta e) = 32"
    using assms(2,3) by (simp_all add: entry_ok_def)
  have nm: "ar_name (member_header (entry_field e) (en_meta e) (length (entry_prefix e @ en_content e))) =
      field 16 (en_name e @ [0x2f])"
    using e(2,4) assms(2,4) by (simp add: member_header_fields entry_field_def)
  define F where "F = field 16 (en_name e @ [0x2f])"
  have "mc 0x2f F = Some (length (en_name e))" "take (length (en_name e)) F = en_name e"
    using memchr_Some [OF assms(1) e(3)] by (simp_all add: F_def field_def)
  then show ?thesis
    using short_field [OF e(1-3), folded F_def] unfolding member_name_def nm Let_def F_def [symmetric] by auto
qed

lemma entry_name_Sysv:
  assumes "memchr2_spec mc2" "en_style e = Sysv off" "entry_ok table e" "length (entry_prefix e @ en_content e) < 10 ^ 10"
  shows "member_name mc mc2 data table (member_header (entry_field e) (en_meta e) (length (entry_prefix e @ en_content e)))
    offset sz = Ok (en_name e, offset, sz)"
proof -
  define rest where "rest = drop (length (en_name e) + 2) (drop off table)"
  have "take (length (en_name e) + 2) (drop off table) = en_name e @ [0x2f, 10]" using assms(2,3) by (simp add: entry_ok_def)
  then have "drop off table = en_name e @ [0x2f, 10] @ rest"
    using append_take_drop_id [of "length (en_name e) + 2" "drop off table"] by (simp add: rest_def)
  then have e: "off < 10 ^ 15" "off \<le> length table" "10 \<notin> set (en_name e)" "0 \<notin> set (en_name e)" "length (en_meta e) = 32"
    "drop off table = en_name e @ [0x2f, 10] @ rest"
    using assms(2,3) by (auto simp: entry_ok_def)
  have len: "length (decimal off) \<le> 15" using e(1) by (rule length_decimal) simp
  have nm: "ar_name (member_header (entry_field e) (en_meta e) (length (entry_prefix e @ en_content e))) =
      0x2f # decimal off @ replicate (15 - length (decimal off)) 32"
    using len e(5) assms(2,4) by (subst member_header_fields) (simp_all add: entry_field_def field_def)
  have "parse_u64_digits (decimal off @ replicate (15 - length (decimal off)) 32) 10 = Some (word_of_nat off)"
    using e(1) by (intro parse_decimal) simp
  moreover have "unat (word_of_nat off :: u64) = off" using e(1) by (simp add: unat_of_nat)
  moreover have "mc2 10 0 (en_name e @ 0x2f # 10 # rest) = Some (Suc (length (en_name e)))"
    using memchr2_Some [OF assms(1), of 10 "en_name e @ [0x2f]" 0 10 rest] e(3,4) by simp
  ultimately have "parse_sysv_extended_name mc2 (decimal off @ replicate (15 - length (decimal off)) 32) table = Ok (en_name e)"
    using e by (simp add: parse_sysv_extended_name_def get_from_def index_list_def nth_append)
  then show ?thesis
    using decimal_first [of off] unfolding member_name_def nm Let_def by simp
qed

lemma entry_name_Bsd:
  assumes "memchr_spec mc" "en_style e = Bsd pad" "entry_ok table e" "length (entry_prefix e @ en_content e) < 10 ^ 10"
    and "data = pre @ entry_image e @ post" "length data < 2 ^ 32"
  shows "member_name mc mc2 data table (member_header (entry_field e) (en_meta e) (length (entry_prefix e @ en_content e)))
    (word_of_nat (length pre + 60)) (word_of_nat (length (entry_prefix e @ en_content e))) =
    Ok (en_name e, word_of_nat (length pre + 60 + length (entry_prefix e)), word_of_nat (length (en_content e)))"
proof -
  let ?n = "length (en_name e) + pad" and ?prefix = "entry_prefix e"
  have e: "?n < 10 ^ 13" "0 \<notin> set (en_name e)" "length (en_meta e) = 32"
    using assms(2,3) by (auto simp: entry_ok_def)
  have prefix: "?prefix = en_name e @ replicate pad 0" "length ?prefix = ?n" using assms(2) by (simp_all add: entry_prefix_def)
  have len: "length (decimal ?n) \<le> 13" using e(1) by (rule length_decimal) simp
  have field: "length (entry_field e) \<le> 16" using len assms(2) by (simp add: entry_field_def ascii_def)
  have nm: "ar_name (member_header (entry_field e) (en_meta e) (length (?prefix @ en_content e))) =
      ascii ''#1/'' @ decimal ?n @ replicate (13 - length (decimal ?n)) 32"
    using field e(3) assms(2,4) by (subst member_header_fields) (simp_all add: entry_field_def field_def ascii_def)
  have digits: "parse_u64_digits (decimal ?n @ replicate (13 - length (decimal ?n)) 32) 10 = Some (word_of_nat ?n)"
    using e(1) by (intro parse_decimal) simp
  have h: "length (member_header (entry_field e) (en_meta e) (length (?prefix @ en_content e))) = 60"
    using field e(3) assms(4) by (intro length_member_header)
  have total: "length pre + 60 + ?n + length (en_content e) \<le> length data"
    using h assms(5) prefix(2) by (simp add: entry_image_def member_image_def)
  have "slice_at data (length pre + 60) ?n = ?prefix"
    using h prefix(2) by (simp add: assms(5) entry_image_def member_image_def slice_at_def)
  then have bytes: "read_bytes_at data (word_of_nat (length pre + 60)) (word_of_nat ?n) = Ok ?prefix"
    using read_bytes_at_ok [of "word_of_nat (length pre + 60)" "word_of_nat ?n" data] total assms(6)
    by (simp add: unat_of_nat del: of_nat_add)
  have name: "(case mc 0 ?prefix of Some len \<Rightarrow> take len ?prefix | None \<Rightarrow> ?prefix) = en_name e"
  proof (cases pad)
    case 0
    then show ?thesis using memchr_None [OF assms(1) e(2)] by (simp add: prefix)
  next
    case (Suc k)
    then show ?thesis using memchr_Some [OF assms(1) e(2), of "replicate k 0"] by (simp add: prefix)
  qed
  have sub: "word_checked_sub (word_of_nat (length (?prefix @ en_content e))) (word_of_nat ?n :: u64) =
      Some (word_of_nat (length (en_content e)))"
  proof -
    have "(word_of_nat ?n :: u64) \<le> word_of_nat (?n + length (en_content e))"
      using total assms(6) by (simp add: word_le_nat_alt unat_of_nat del: of_nat_add)
    then show ?thesis by (simp add: word_checked_sub_def prefix(2))
  qed
  have "parse_bsd_extended_name mc (decimal ?n @ replicate (13 - length (decimal ?n)) 32) data
      (word_of_nat (length pre + 60), word_of_nat (length (?prefix @ en_content e))) =
      (Ok (en_name e), word_of_nat (length pre + 60 + ?n), word_of_nat (length (en_content e)))"
    unfolding parse_bsd_extended_name_def prod.case digits option.case sub read_bytes_def bytes result.case
    using name by (simp add: res_simps)
  then show ?thesis
    using decimal_first [of ?n] prefix(2) unfolding member_name_def nm Let_def by (simp add: ascii_def)
qed

definition entry_member :: "nat \<Rightarrow> ar_entry \<Rightarrow> archive_member" where
  "entry_member p e =
    \<lparr>am_header = MH_Common (member_header (entry_field e) (en_meta e) (length (entry_prefix e @ en_content e))),
     am_name = en_name e, am_offset = word_of_nat (p + 60 + length (entry_prefix e)),
     am_size = word_of_nat (length (en_content e))\<rparr>"

lemma entry_field_length:
  assumes "entry_ok table e"
  shows "length (entry_field e) \<le> 16" "length (en_meta e) = 32"
proof -
  show "length (entry_field e) \<le> 16"
  proof (cases "en_style e")
    case Short
    then show ?thesis using assms by (simp add: entry_ok_def entry_field_def)
  next
    case (Sysv off)
    then have "length (decimal off) \<le> 15" using assms by (intro length_decimal) (simp_all add: entry_ok_def)
    then show ?thesis using Sysv by (simp add: entry_field_def)
  next
    case (Bsd pad)
    then have "length (decimal (length (en_name e) + pad)) \<le> 13"
      using assms by (intro length_decimal) (simp_all add: entry_ok_def)
    then show ?thesis using Bsd by (simp add: entry_field_def ascii_def)
  qed
  show "length (en_meta e) = 32" using assms by (simp add: entry_ok_def)
qed

lemma entry_image_length:
  assumes "entry_ok table e" "data = pre @ entry_image e @ post" "length data < 2 ^ 32"
  shows "length (entry_prefix e @ en_content e) < 10 ^ 10"
    "length (member_header (entry_field e) (en_meta e) (length (entry_prefix e @ en_content e))) = 60"
    "length pre + 60 + length (entry_prefix e @ en_content e) \<le> length data"
proof -
  have "length (entry_prefix e @ en_content e) \<le> length data" using assms(2) by (simp add: entry_image_def member_image_def)
  then show len: "length (entry_prefix e @ en_content e) < 10 ^ 10" using assms(3) by simp
  show h: "length (member_header (entry_field e) (en_meta e) (length (entry_prefix e @ en_content e))) = 60"
    using entry_field_length [OF assms(1)] len by (rule length_member_header)
  show "length pre + 60 + length (entry_prefix e @ en_content e) \<le> length data"
    using h by (simp add: assms(2) entry_image_def member_image_def)
qed

lemma entry_parse:
  assumes "memchr_spec mc" "memchr2_spec mc2" "entry_ok table e"
    and "data = pre @ entry_image e @ post" "length data < 2 ^ 32"
  shows "ArchiveMember_parse mc mc2 data table False (word_of_nat (length pre)) =
    (Ok (entry_member (length pre) e), word_of_nat (length pre + length (entry_image e)))"
proof -
  let ?body = "entry_prefix e @ en_content e"
  note len = entry_image_length [OF assms(3-5)]
  have "member_name mc mc2 data table (member_header (entry_field e) (en_meta e) (length ?body))
      (word_of_nat (length pre + 60)) (word_of_nat (length ?body)) =
      Ok (en_name e, word_of_nat (length pre + 60 + length (entry_prefix e)), word_of_nat (length (en_content e)))"
  proof (cases "en_style e")
    case Short
    then show ?thesis using entry_name_Short [OF assms(1) Short assms(3) len(1)] by (simp add: entry_prefix_def)
  next
    case (Sysv off)
    then show ?thesis using entry_name_Sysv [OF assms(2) Sysv assms(3) len(1)] by (simp add: entry_prefix_def)
  next
    case (Bsd pad)
    show ?thesis by (rule entry_name_Bsd [OF assms(1) Bsd assms(3) len(1) assms(4,5)])
  qed
  then show ?thesis
    using ArchiveMember_parse_image [OF assms(4) [unfolded entry_image_def] assms(5) entry_field_length [OF assms(3)] len(1)]
    by (simp add: entry_member_def entry_image_def)
qed

lemma entry_data:
  assumes "entry_ok table e" "data = pre @ entry_image e @ post" "length data < 2 ^ 32"
  shows "ArchiveMember_data (entry_member (length pre) e) data = Ok (en_content e)"
proof -
  let ?off = "length pre + 60 + length (entry_prefix e)"
  note len = entry_image_length [OF assms]
  have u: "unat (word_of_nat ?off :: u64) = ?off" "unat (word_of_nat (length (en_content e)) :: u64) = length (en_content e)"
    using len(3) assms(3) by (simp_all add: unat_of_nat del: of_nat_add)
  have "slice_at data ?off (length (en_content e)) = en_content e"
    using len(2) by (simp add: assms(2) entry_image_def member_image_def slice_at_def)
  then have "read_bytes_at data (word_of_nat ?off) (word_of_nat (length (en_content e))) = Ok (en_content e)"
    using read_bytes_at_ok [of "word_of_nat ?off" "word_of_nat (length (en_content e))" data] len(3)
    unfolding u by simp
  moreover have "word_of_nat ?off \<noteq> (0 :: u64)" using u(1) by (metis add_is_0 unat_0 zero_neq_numeral)
  ultimately show ?thesis by (simp add: ArchiveMember_data_def ArchiveMember_is_thin_def entry_member_def del: of_nat_add)
qed

text \<open>Iterating over the members.\<close>

lemma drain_entries:
  assumes "memchr_spec mc" "memchr2_spec mc2" "length data < 2 ^ 32"
  shows "\<forall>e \<in> set es. entry_ok table e \<Longrightarrow> data = pre @ concat (map entry_image es) \<Longrightarrow> length es < n \<Longrightarrow>
    drain (ArchiveMemberIterator_next mc mc2) n
      \<lparr>mi_data = data, mi_members = M_Common (word_of_nat (length pre)) (word_of_nat (length data)),
       mi_names = table, mi_thin = False\<rparr> = Some (Ok (map (\<lambda>(p, e). entry_member p e) (placed (length pre) es)))"
proof (induction es arbitrary: pre n)
  case Nil
  then show ?case by (cases n) (simp_all add: ArchiveMemberIterator_next_def)
next
  case (Cons e es)
  have e: "entry_ok table e" "data = pre @ entry_image e @ concat (map entry_image es)" using Cons.prems by simp_all
  note len = entry_image_length [OF e assms(3)]
  have "(word_of_nat (length pre) :: u64) < word_of_nat (length data)"
    using len(3) assms(3) by (simp add: word_less_nat_alt unat_of_nat)
  moreover obtain m where "n = Suc m" "length es < m" using Cons.prems(3) by (cases n) auto
  ultimately show ?case
    using entry_parse [OF assms(1,2) e assms(3)] Cons.IH [of "pre @ entry_image e" m] Cons.prems
    by (simp add: ArchiveMemberIterator_next_def not_le)
qed

text \<open>The special members.\<close>

lemma special_name:
  assumes "memchr_spec mc" "nf = ascii ''/'' \<or> nf = ascii ''//''" "n < 10 ^ 10"
  shows "member_name mc mc2 data names (member_header nf (replicate 32 32) n) offset sz = Ok (nf, offset, sz)"
proof -
  have nm: "ar_name (member_header nf (replicate 32 32) n) = field 16 nf"
    using assms(2,3) by (intro member_header_fields) (auto simp: ascii_def)
  have len: "length nf < 16" and sp: "0x20 \<notin> set nf" using assms(2) by (auto simp: ascii_def)
  have "mc 0x20 (field 16 nf) = Some (length nf)"
  proof -
    obtain k where "16 - length nf = Suc k" using len by (cases "16 - length nf") auto
    then show ?thesis using memchr_Some [OF assms(1) sp] by (simp add: field_def)
  qed
  moreover have "field 16 nf ! 0 = 0x2f" "\<not> is_ascii_digit (field 16 nf ! 1)" "take (length nf) (field 16 nf) = nf"
    "take 3 (field 16 nf) \<noteq> ascii ''#1/''"
    using assms(2) by (auto simp: field_def ascii_def is_ascii_digit_def)
  ultimately show ?thesis unfolding member_name_def nm Let_def by simp
qed

definition special_member :: "nat \<Rightarrow> bytes \<Rightarrow> bytes \<Rightarrow> archive_member" where
  "special_member p nf body =
    \<lparr>am_header = MH_Common (member_header nf (replicate 32 32) (length body)), am_name = nf,
     am_offset = word_of_nat (p + 60), am_size = word_of_nat (length body)\<rparr>"

lemma special_parse:
  assumes "memchr_spec mc" "nf = ascii ''/'' \<or> nf = ascii ''//''"
    and "data = pre @ member_image nf (replicate 32 32) body @ post" "length data < 2 ^ 32"
  shows "ArchiveMember_parse mc mc2 data names False (word_of_nat (length pre)) =
      (Ok (special_member (length pre) nf body), word_of_nat (length pre + 60 + length body + length body mod 2))"
    and "length pre + 60 + length body + length body mod 2 \<le> length data"
    and "ArchiveMember_data (special_member (length pre) nf body) data = Ok body"
proof -
  have body: "length body < 10 ^ 10" using assms(3,4) by (simp add: member_image_def)
  have nf: "length nf \<le> 16" using assms(2) by (auto simp: ascii_def)
  have image: "length (member_image nf (replicate 32 32) body) = 60 + length body + length body mod 2"
    using nf body by (simp add: length_member_image)
  show "ArchiveMember_parse mc mc2 data names False (word_of_nat (length pre)) =
      (Ok (special_member (length pre) nf body), word_of_nat (length pre + 60 + length body + length body mod 2))"
    using ArchiveMember_parse_image [OF assms(3,4) nf _ body special_name [OF assms(1,2) body]] image
    by (simp add: special_member_def add.assoc)
  show len: "length pre + 60 + length body + length body mod 2 \<le> length data" using assms(3) image by simp
  have u: "unat (word_of_nat (length pre + 60) :: u64) = length pre + 60" "unat (word_of_nat (length body) :: u64) = length body"
    using len assms(4) by (simp_all add: unat_of_nat del: of_nat_add)
  have "slice_at data (length pre + 60) (length body) = body"
    using nf body by (simp add: assms(3) member_image_def slice_at_def length_member_header)
  then have "read_bytes_at data (word_of_nat (length pre + 60)) (word_of_nat (length body)) = Ok body"
    using read_bytes_at_ok [of "word_of_nat (length pre + 60)" "word_of_nat (length body)" data] len unfolding u by simp
  moreover have "word_of_nat (length pre + 60) \<noteq> (0 :: u64)" using u(1) by (metis add_is_0 unat_0 zero_neq_numeral)
  ultimately show "ArchiveMember_data (special_member (length pre) nf body) data = Ok body"
    by (simp add: ArchiveMember_data_def ArchiveMember_is_thin_def special_member_def del: of_nat_add)
qed

lemma gnu_or_coff_image:
  assumes "memchr_spec mc" "memchr2_spec mc2" "\<forall>e \<in> set es. entry_ok (the_names names) e"
    and "data = pre @ names_image names @ concat (map entry_image es)" "length data < 2 ^ 32"
    and "af_data f = data" "af_names f = []" "\<not> af_thin f"
  shows "gnu_or_coff mc mc2 (word_of_nat (length data)) f (word_of_nat (length pre)) =
    Ok (f\<lparr>af_names := the_names names\<rparr>, word_of_nat (length pre + length (names_image names)))"
proof (cases names)
  case (Some table)
  have data: "data = pre @ member_image (ascii ''//'') (replicate 32 32) table @ concat (map entry_image es)"
    using assms(4) Some by (simp add: names_image_def)
  note parse = special_parse [OF assms(1) _ data assms(5)]
  have "(word_of_nat (length pre) :: u64) < word_of_nat (length data)"
    using parse(2) assms(5) by (simp add: word_less_nat_alt unat_of_nat)
  moreover have "length (names_image names) = 60 + length table + length table mod 2"
  proof -
    have "length table < 10 ^ 10" using parse(2) assms(5) by simp
    then show ?thesis using Some by (simp add: names_image_def length_member_image ascii_def)
  qed
  moreover have "ascii ''//'' \<noteq> ascii ''/''" by (simp add: ascii_def)
  ultimately show ?thesis
    using parse(1) [of mc2 "[]"] parse(3) assms(6-8) Some
    by (simp add: gnu_or_coff_def member_at_def special_member_def the_names_def add.assoc)
next
  case None
  show ?thesis
  proof (cases es)
    case Nil
    then show ?thesis using assms(4,7) None by (simp add: gnu_or_coff_def names_image_def the_names_def)
  next
    case (Cons e es')
    have e: "entry_ok [] e" "data = pre @ entry_image e @ concat (map entry_image es')"
      using assms(3,4) Cons None by (simp_all add: names_image_def the_names_def)
    have "(word_of_nat (length pre) :: u64) < word_of_nat (length data)"
      using entry_image_length(3) [OF e assms(5)] assms(5) by (simp add: word_less_nat_alt unat_of_nat)
    moreover have "en_name e \<noteq> ascii ''/''" "en_name e \<noteq> ascii ''//''" using e(1) by (simp_all add: entry_ok_def)
    ultimately show ?thesis
      using entry_parse [OF assms(1,2) e assms(5)] assms(6-8) None
      by (simp add: gnu_or_coff_def member_at_def entry_member_def the_names_def names_image_def)
  qed
qed

lemma length_symbols_body: "length (symbols_body base syms es) = symbols_length syms"
  by (induction syms) (auto simp: symbols_body_def symbols_length_def)

definition parsed_archive :: "(bytes \<times> nat) list \<Rightarrow> bytes option \<Rightarrow> ar_entry list \<Rightarrow> archive_file" where
  "parsed_archive syms names es =
    \<lparr>af_data = archive_image syms names es, af_kind = Archive_Gnu,
     af_members = M_Common (word_of_nat (members_start syms names)) (word_of_nat (length (archive_image syms names es))),
     af_symbols = (68, word_of_nat (symbols_length syms)), af_names = the_names names, af_thin = False\<rparr>"

lemma ArchiveFile_parse_image:
  assumes "memchr_spec mc" "memchr2_spec mc2" "\<forall>e \<in> set es. entry_ok (the_names names) e"
    and "length (archive_image syms names es) < 2 ^ 32"
  shows "ArchiveFile_parse mc mc2 (archive_image syms names es) = Ok (parsed_archive syms names es)"
proof -
  let ?img = "archive_image syms names es" and ?S = "symbols_body (members_start syms names) syms es"
  let ?sym = "member_image (ascii ''/'') (replicate 32 32) ?S"
  have magic: "length MAGIC = 8" "MAGIC \<noteq> AIX_BIG_MAGIC" "MAGIC \<noteq> THIN_MAGIC"
    by (simp_all add: MAGIC_def AIX_BIG_MAGIC_def THIN_MAGIC_def ascii_def)
  have img: "?img = MAGIC @ ?sym @ names_image names @ concat (map entry_image es)" by (simp add: archive_image_def)
  note parse = special_parse [OF assms(1) _ img assms(4)]
  have "length ?S < 10 ^ 10" using parse(2) assms(4) by simp
  then have sym: "length ?sym = 60 + length ?S + length ?S mod 2" by (simp add: length_member_image ascii_def)
  have img2: "?img = (MAGIC @ ?sym) @ names_image names @ concat (map entry_image es)" by (simp add: img)
  note names = gnu_or_coff_image [OF assms(1-3) img2 assms(4)]
  have "read_bytes ?img 0 8 = (Ok MAGIC, 8)"
    using magic(1) by (simp add: read_bytes_def read_bytes_at_def get_from_def get_to_def img)
  moreover have "(8 :: u64) < word_of_nat (length ?img)"
    using parse(2) assms(4) magic(1) by (simp add: word_less_nat_alt unat_of_nat)
  moreover have "members_start syms names = length (MAGIC @ ?sym) + length (names_image names)"
    by (simp add: sym length_symbols_body magic(1)) (simp add: members_start_def)
  ultimately show ?thesis
    using parse(1) [of mc2 "[]"] names magic sym
    by (simp add: ArchiveFile_parse_def slice_len_def special_members_def member_at_def special_member_def Let_def
        ArchiveMember_file_range_def parsed_archive_def length_symbols_body add.assoc)
qed

text \<open>The members by their offsets.\<close>

lemma length_placed [simp]: "length (placed p es) = length es"
  by (induction es arbitrary: p) simp_all

lemma placed_nth:
  "i < length es \<Longrightarrow> \<exists>pre post. concat (map entry_image es) = pre @ entry_image (es ! i) @ post \<and>
    placed p es ! i = (p + length pre, es ! i)"
proof (induction es arbitrary: p i)
  case (Cons e es)
  show ?case
  proof (cases i)
    case 0
    then show ?thesis by (intro exI [of _ "[]"] exI [of _ "concat (map entry_image es)"]) simp
  next
    case (Suc j)
    then obtain pre post where "concat (map entry_image es) = pre @ entry_image (es ! j) @ post"
      "placed (p + length (entry_image e)) es ! j = (p + length (entry_image e) + length pre, es ! j)"
      using Cons.IH [of j "p + length (entry_image e)"] Cons.prems by auto
    then show ?thesis using Suc by (intro exI [of _ "entry_image e @ pre"] exI [of _ post]) simp
  qed
qed simp

lemma placed_pair: "i < length es \<Longrightarrow> placed p es ! i = (fst (placed p es ! i), es ! i)"
  using placed_nth [of i es p] by auto

lemma archive_image_split:
  obtains pre where "archive_image syms names es = pre @ concat (map entry_image es)"
    "length (archive_image syms names es) < 2 ^ 32 \<Longrightarrow> length pre = members_start syms names"
proof
  let ?S = "symbols_body (members_start syms names) syms es"
  let ?pre = "MAGIC @ member_image (ascii ''/'') (replicate 32 32) ?S @ names_image names"
  show "archive_image syms names es = ?pre @ concat (map entry_image es)" by (simp add: archive_image_def)
  assume "length (archive_image syms names es) < 2 ^ 32"
  then have "length ?S < 10 ^ 10" by (simp add: archive_image_def member_image_def)
  then show "length ?pre = members_start syms names"
    by (simp add: length_member_image length_symbols_body ascii_def MAGIC_def) (simp add: members_start_def)
qed

lemma ArchiveFile_member_image:
  assumes "memchr_spec mc" "memchr2_spec mc2" "\<forall>e \<in> set es. entry_ok (the_names names) e"
    and "length (archive_image syms names es) < 2 ^ 32" "i < length es"
    and "placed (members_start syms names) es ! i = (p, e)"
  shows "e = es ! i" "p < 2 ^ 32"
    "ArchiveFile_member mc mc2 (parsed_archive syms names es) (word_of_nat p) = Ok (entry_member p e)"
    "ArchiveMember_data (entry_member p e) (archive_image syms names es) = Ok (en_content e)"
proof -
  let ?img = "archive_image syms names es"
  obtain head where head: "?img = head @ concat (map entry_image es)" "length head = members_start syms names"
    using archive_image_split assms(4) by metis
  obtain pre post where pre: "concat (map entry_image es) = pre @ entry_image (es ! i) @ post"
    "placed (members_start syms names) es ! i = (members_start syms names + length pre, es ! i)"
    using placed_nth [OF assms(5)] by blast
  then have p: "p = length (head @ pre)" and e: "e = es ! i" using assms(6) head(2) by simp_all
  have ok: "entry_ok (the_names names) e" and img: "?img = (head @ pre) @ entry_image e @ post"
    using assms(3,5) head(1) pre(1) by (simp_all add: e)
  note len = entry_image_length(3) [OF ok img assms(4)]
  show "e = es ! i" by (rule e)
  show "p < 2 ^ 32" using len assms(4) unfolding p by linarith
  show "ArchiveMember_data (entry_member p e) ?img = Ok (en_content e)"
    unfolding p by (rule entry_data [OF ok img assms(4)])
  have "(word_of_nat (members_start syms names) :: u64) \<le> word_of_nat p" "(word_of_nat p :: u64) < word_of_nat (length ?img)"
    using len assms(4) head(2) unfolding p by (simp_all add: word_le_nat_alt word_less_nat_alt unat_of_nat del: of_nat_add)
  then show "ArchiveFile_member mc mc2 (parsed_archive syms names es) (word_of_nat p) = Ok (entry_member p e)"
    using entry_parse [OF assms(1,2) ok img assms(4)] unfolding p [symmetric]
    by (simp add: ArchiveFile_member_def parsed_archive_def not_less)
qed

text \<open>Iterating over the symbols.\<close>

lemma drain_symbols:
  assumes "memchr_spec mc"
  shows "\<forall>(name, i) \<in> set syms. 0 \<notin> set name \<Longrightarrow> length syms < n \<Longrightarrow>
    drain (ArchiveSymbolIterator_next mc) n
      (SI_Gnu (map (\<lambda>(_, i). U_new Big (f i :: u32)) syms) (concat (map (\<lambda>(name, _). name @ [0]) syms))) =
    Some (Ok (map (\<lambda>(name, i). \<lparr>as_name = name, as_offset = ucast (f i)\<rparr>) syms))"
proof (induction syms arbitrary: n)
  case Nil
  then show ?case by (cases n) simp_all
next
  case (Cons x syms)
  then obtain m where "n = Suc m" "length syms < m" by (cases n) auto
  then show ?case
    using Cons Bytes_read_string_ok [OF assms] by (cases x) (simp add: named_symbol_def)
qed

lemma ArchiveFile_symbols_image:
  assumes "length (archive_image syms names es) < 2 ^ 32"
  shows "ArchiveFile_symbols (parsed_archive syms names es) =
    Ok (Some (SI_Gnu (map (\<lambda>(_, i). U_new Big (word_of_nat (fst (placed (members_start syms names) es ! i)) :: u32)) syms)
      (concat (map (\<lambda>(name, _). name @ [0]) syms))))"
proof -
  let ?img = "archive_image syms names es" and ?S = "symbols_body (members_start syms names) syms es"
  let ?offs = "map (\<lambda>(_, i). U_new Big (word_of_nat (fst (placed (members_start syms names) es ! i)) :: u32)) syms"
  let ?names = "concat (map (\<lambda>(name, _). name @ [0 :: u8]) syms)"
  have S: "?S = U_new Big (word_of_nat (length syms) :: u32) @ concat ?offs @ ?names"
    by (simp add: symbols_body_def comp_def case_prod_beta)
  have img: "?img = MAGIC @ member_image (ascii ''/'') (replicate 32 32) ?S @ names_image names @ concat (map entry_image es)"
    by (simp add: archive_image_def)
  have small: "length ?S < 10 ^ 10" "length syms < 2 ^ 32"
    using assms by (simp_all add: img member_image_def length_symbols_body symbols_length_def)
  have h: "length (member_header (ascii ''/'') (replicate 32 32) (length ?S)) = 60"
    using small(1) by (intro length_member_header) (simp_all add: ascii_def)
  have "68 + length ?S \<le> length ?img" "slice_at ?img 68 (length ?S) = ?S"
    using h by (simp_all add: img member_image_def slice_at_def MAGIC_def ascii_def)
  moreover have "unat (word_of_nat (length ?S) :: u64) = length ?S" using small(1) by (simp add: unat_of_nat)
  ultimately have read: "read_bytes_at ?img 68 (word_of_nat (symbols_length syms)) = Ok ?S"
    using read_bytes_at_ok [of 68 "word_of_nat (length ?S)" ?img] by (simp add: length_symbols_body)
  have "\<forall>x \<in> set ?offs. length x = 4" by auto
  moreover have "length (concat ?offs) \<le> usize_max"
  proof -
    have "length (concat ?offs) \<le> length ?img" by (simp add: img member_image_def S)
    then show ?thesis using assms by (simp add: usize_max_def)
  qed
  ultimately have "slice_from_bytes_1 4 (concat ?offs @ ?names) (length syms) = Ok (?offs, ?names)"
    using slice_from_bytes_1_append [of ?offs 4 ?names] by simp
  moreover have "unat (word_of_nat (length syms) :: u32) = length syms" using small(2) by (simp add: unat_of_nat)
  ultimately have "ArchiveSymbolIterator_new Archive_Gnu ?img 68 (word_of_nat (symbols_length syms)) = Ok (SI_Gnu ?offs ?names)"
    using read by (simp add: ArchiveSymbolIterator_new_def S cursor_then_def Bytes_read_slice_def)
  then show ?thesis by (simp add: ArchiveFile_symbols_def parsed_archive_def)
qed

lemma members_listed:
  assumes "\<forall>e \<in> set es. entry_ok table e" "data = pre @ concat (map entry_image es)" "length data < 2 ^ 32"
  shows "map (\<lambda>m. (am_name m, ArchiveMember_data m data)) (map (\<lambda>(p, e). entry_member p e) (placed (length pre) es)) =
    map (\<lambda>e. (en_name e, Ok (en_content e))) es"
  using assms(1,2)
proof (induction es arbitrary: pre)
  case (Cons e es)
  have "data = pre @ entry_image e @ concat (map entry_image es)" using Cons.prems(2) by simp
  then show ?case
    using Cons.IH [of "pre @ entry_image e"] Cons.prems entry_data [of table e data pre] assms(3)
    by (simp add: entry_member_def [of _ e])
qed simp

lemma ucast_offset: "n < 2 ^ 32 \<Longrightarrow> ucast (word_of_nat n :: u32) = (word_of_nat n :: u64)"
  by (simp add: word_unat_eq_iff unat_ucast_le unat_of_nat)

text \<open>What the reader finds at the offset of a symbol.\<close>

definition symbol_finds :: "(u8 \<Rightarrow> bytes \<Rightarrow> nat option) \<Rightarrow> (u8 \<Rightarrow> u8 \<Rightarrow> bytes \<Rightarrow> nat option) \<Rightarrow> archive_file \<Rightarrow>
    ar_entry list \<Rightarrow> archive_symbol \<Rightarrow> bytes \<times> nat \<Rightarrow> bool" where
  "symbol_finds mc mc2 f es s = (\<lambda>(name, i). as_name s = name \<and>
     (case ArchiveFile_member mc mc2 f (as_offset s) of
        Ok m \<Rightarrow> am_name m = en_name (es ! i) \<and> ArchiveMember_data m (af_data f) = Ok (en_content (es ! i))
      | _ \<Rightarrow> False))"

lemma symbol_finds_image:
  assumes "memchr_spec mc" "memchr2_spec mc2" "\<forall>e \<in> set es. entry_ok (the_names names) e"
    and "length (archive_image syms names es) < 2 ^ 32" "i < length es"
  shows "symbol_finds mc mc2 (parsed_archive syms names es) es
    \<lparr>as_name = name, as_offset = ucast (word_of_nat (fst (placed (members_start syms names) es ! i)) :: u32)\<rparr> (name, i)"
  using ArchiveFile_member_image [OF assms placed_pair [OF assms(5)]]
  by (simp add: symbol_finds_def ucast_offset parsed_archive_def entry_member_def [of _ "es ! i"])

section \<open>Properties\<close>

definition archive_ok :: "(bytes \<times> nat) list \<Rightarrow> bytes option \<Rightarrow> ar_entry list \<Rightarrow> bool" where
  "archive_ok syms names es \<longleftrightarrow> length (archive_image syms names es) < 2 ^ 32 \<and>
    list_all (entry_ok (the_names names)) es \<and> list_all (\<lambda>(name, i). 0 \<notin> set name \<and> i < length es) syms"

text \<open>C32: parsing arbitrary bytes as an archive does not panic, and when it succeeds, iterating over the members ends without a panic, after at most as many members as there are bytes or index entries left.\<close>

theorem archive_reading_total:
  assumes "memchr2_spec memchr2" "length data \<le> usize_max"
  shows "case ArchiveFile_parse memchr memchr2 data of
      Panic \<Rightarrow> False
    | Err _ \<Rightarrow> True
    | Ok file \<Rightarrow> \<exists>ms. drain (ArchiveMemberIterator_next memchr memchr2)
        (Suc (member_remaining (ArchiveFile_members file))) (ArchiveFile_members file) = Some ms \<and> ms \<noteq> Panic"
proof (cases "ArchiveFile_parse memchr memchr2 data")
  case (Ok f)
  then have "length (mi_data (ArchiveFile_members f)) \<le> usize_max"
    using ArchiveFile_parse_data assms(2) by (simp add: ArchiveFile_members_def)
  then show ?thesis
    using fallible_iterator.drain_total [OF archive_member_iterator [OF assms(1)], of "ArchiveFile_members f" memchr] Ok
    by auto
qed (use ArchiveFile_parse_no_panic [OF assms] in simp_all)

theorem archive_reading_total_witness:
  "case ArchiveFile_parse first_index first_index2 (MAGIC @ [1, 2]) of
      Panic \<Rightarrow> False
    | Err _ \<Rightarrow> True
    | Ok file \<Rightarrow> \<exists>ms. drain (ArchiveMemberIterator_next first_index first_index2)
        (Suc (member_remaining (ArchiveFile_members file))) (ArchiveFile_members file) = Some ms \<and> ms \<noteq> Panic"
  by (rule archive_reading_total [OF memchr2_spec_first_index2]) (simp add: MAGIC_def ascii_def usize_max_def)

text \<open>C33: an archive with a symbol table, an optional names table and members with short, GNU or BSD names is read back: iterating over the members gives their names and contents in order, and every symbol of the symbol table has its name and an offset at which the reader finds the member it was written for.\<close>

theorem archive_round_trip:
  assumes "memchr_spec memchr" "memchr2_spec memchr2" "archive_ok syms names es"
  shows "\<exists>file ms it. ArchiveFile_parse memchr memchr2 (archive_image syms names es) = Ok file \<and>
    drain (ArchiveMemberIterator_next memchr memchr2) (Suc (length es)) (ArchiveFile_members file) = Some (Ok ms) \<and>
    map (\<lambda>m. (am_name m, ArchiveMember_data m (af_data file))) ms = map (\<lambda>e. (en_name e, Ok (en_content e))) es \<and>
    ArchiveFile_symbols file = Ok (Some it) \<and>
    (\<exists>ss. drain (ArchiveSymbolIterator_next memchr) (Suc (length syms)) it = Some (Ok ss) \<and>
      list_all2 (symbol_finds memchr memchr2 file es) ss syms)"
proof -
  let ?img = "archive_image syms names es" and ?f = "parsed_archive syms names es"
  let ?p = "\<lambda>i. fst (placed (members_start syms names) es ! i)"
  let ?ss = "map (\<lambda>(name, i). \<lparr>as_name = name, as_offset = ucast (word_of_nat (?p i) :: u32)\<rparr>) syms"
  have img: "length ?img < 2 ^ 32" and es: "\<forall>e \<in> set es. entry_ok (the_names names) e"
    and syms: "\<forall>(name, i) \<in> set syms. 0 \<notin> set name" "\<forall>(name, i) \<in> set syms. i < length es"
    using assms(3) by (auto simp: archive_ok_def list_all_iff)
  obtain head where head: "?img = head @ concat (map entry_image es)" "length head = members_start syms names"
    using archive_image_split img by metis
  let ?ms = "map (\<lambda>(p, e). entry_member p e) (placed (length head) es)"
  have "drain (ArchiveMemberIterator_next memchr memchr2) (Suc (length es)) (ArchiveFile_members ?f) = Some (Ok ?ms)"
    using drain_entries [OF assms(1,2) img es head(1) lessI] head(2) by (simp add: ArchiveFile_members_def parsed_archive_def)
  moreover have "map (\<lambda>m. (am_name m, ArchiveMember_data m (af_data ?f))) ?ms = map (\<lambda>e. (en_name e, Ok (en_content e))) es"
    using members_listed [OF es head(1) img] by (simp add: parsed_archive_def)
  moreover have "list_all2 (symbol_finds memchr memchr2 ?f es) ?ss syms"
    unfolding list.rel_map
    by (rule list.rel_refl_strong) (use symbol_finds_image [OF assms(1,2) es img] syms(2) in auto)
  ultimately show ?thesis
    using ArchiveFile_parse_image [OF assms(1,2) es img] ArchiveFile_symbols_image [OF img]
      drain_symbols [OF assms(1) syms(1) lessI, of "\<lambda>i. word_of_nat (?p i)"] by blast
qed

definition example_table :: bytes where
  "example_table = ascii ''a_long_member_name.o/'' @ [10]"

definition example_entries :: "ar_entry list" where
  "example_entries =
    [\<lparr>en_name = ascii ''a.o'', en_style = Short, en_meta = replicate 32 32, en_content = [1, 2, 3]\<rparr>,
     \<lparr>en_name = ascii ''a_long_member_name.o'', en_style = Sysv 0, en_meta = replicate 32 32, en_content = []\<rparr>,
     \<lparr>en_name = ascii ''b o'', en_style = Bsd 1, en_meta = replicate 32 32, en_content = [4]\<rparr>]"

theorem archive_round_trip_witness:
  "\<exists>file ms it. ArchiveFile_parse first_index first_index2
      (archive_image [(ascii ''f'', 2)] (Some example_table) example_entries) = Ok file \<and>
    drain (ArchiveMemberIterator_next first_index first_index2) (Suc (length example_entries)) (ArchiveFile_members file) =
      Some (Ok ms) \<and>
    map (\<lambda>m. (am_name m, ArchiveMember_data m (af_data file))) ms =
      map (\<lambda>e. (en_name e, Ok (en_content e))) example_entries \<and>
    ArchiveFile_symbols file = Ok (Some it) \<and>
    (\<exists>ss. drain (ArchiveSymbolIterator_next first_index) (Suc (length [(ascii ''f'', 2 :: nat)])) it = Some (Ok ss) \<and>
      list_all2 (symbol_finds first_index first_index2 file example_entries) ss [(ascii ''f'', 2)])"
proof (rule archive_round_trip [OF memchr_spec_first_index memchr2_spec_first_index2])
  have "length (archive_image [(ascii ''f'', 2)] (Some example_table) example_entries) < 2 ^ 32"
    by (simp add: archive_image_def member_image_def member_header_def field_def decimal.simps symbols_body_def
        names_image_def entry_image_def entry_field_def entry_prefix_def example_entries_def example_table_def
        MAGIC_def TERMINATOR_def ascii_def)
  moreover have "list_all (entry_ok (the_names (Some example_table))) example_entries"
    by (simp add: entry_ok_def example_entries_def example_table_def the_names_def ascii_def)
  ultimately show "archive_ok [(ascii ''f'', 2)] (Some example_table) example_entries"
    by (simp add: archive_ok_def example_entries_def ascii_def)
qed

end
