(* ===== verification/Object_Types.thy ===== *)
theory Object_Types
  imports Common Endian Write_Util Stateful
begin

text \<open>
  \<^verbatim>\<open>src/write/mod.rs\<close>: the data of the object writer. Sections, symbols and COMDAT groups are referred
  to by their position in the vectors of the object (\<open>section_id\<close>, \<open>symbol_id\<close>, \<open>comdat_id\<close>); the hash
  maps are partial functions. The methods of \<^verbatim>\<open>Section\<close> update the section they are called on.
\<close>

section \<open>Enumerations\<close>

datatype standard_segment = StdSeg_Text | StdSeg_Data | StdSeg_Debug

datatype standard_section = Std_Text | Std_Data | Std_ReadOnlyData | Std_ReadOnlyDataWithRel
  | Std_ReadOnlyString | Std_UninitializedData | Std_Tls | Std_UninitializedTls | Std_TlsVariables
  | Std_Common | Std_GnuProperty

fun StandardSection_kind :: "standard_section \<Rightarrow> section_kind" where
  "StandardSection_kind Std_Text = SK_Text"
| "StandardSection_kind Std_Data = SK_Data"
| "StandardSection_kind Std_ReadOnlyData = SK_ReadOnlyData"
| "StandardSection_kind Std_ReadOnlyDataWithRel = SK_ReadOnlyDataWithRel"
| "StandardSection_kind Std_ReadOnlyString = SK_ReadOnlyString"
| "StandardSection_kind Std_UninitializedData = SK_UninitializedData"
| "StandardSection_kind Std_Tls = SK_Tls"
| "StandardSection_kind Std_UninitializedTls = SK_UninitializedTls"
| "StandardSection_kind Std_TlsVariables = SK_TlsVariables"
| "StandardSection_kind Std_Common = SK_Common"
| "StandardSection_kind Std_GnuProperty = SK_Note"

definition StandardSection_all :: "standard_section list" where
  "StandardSection_all = [Std_Text, Std_Data, Std_ReadOnlyData, Std_ReadOnlyDataWithRel,
     Std_ReadOnlyString, Std_UninitializedData, Std_Tls, Std_UninitializedTls, Std_TlsVariables,
     Std_Common, Std_GnuProperty]"

datatype mangling = Mangling_None | Mangling_Coff | Mangling_CoffI386 | Mangling_Elf
  | Mangling_MachO | Mangling_Xcoff

definition Mangling_default :: "binary_format \<Rightarrow> architecture \<Rightarrow> mangling" where
  "Mangling_default format architecture =
    (case format of
       BF_Coff \<Rightarrow> (if architecture = I386 then Mangling_CoffI386 else Mangling_Coff)
     | BF_Elf \<Rightarrow> Mangling_Elf
     | BF_MachO \<Rightarrow> Mangling_MachO
     | BF_Xcoff \<Rightarrow> Mangling_Xcoff
     | _ \<Rightarrow> Mangling_None)"

fun Mangling_global_prefix :: "mangling \<Rightarrow> u8 option" where
  "Mangling_global_prefix Mangling_None = None"
| "Mangling_global_prefix Mangling_Elf = None"
| "Mangling_global_prefix Mangling_Coff = None"
| "Mangling_global_prefix Mangling_Xcoff = None"
| "Mangling_global_prefix Mangling_CoffI386 = Some 0x5f"
| "Mangling_global_prefix Mangling_MachO = Some 0x5f"

section \<open>Symbols, relocations, COMDAT groups\<close>

type_synonym section_id = nat
type_synonym symbol_id = nat
type_synonym comdat_id = nat

datatype symbol_section = SS_None | SS_Undefined | SS_Absolute | SS_Common | SS_Section section_id

definition SymbolSection_id :: "symbol_section \<Rightarrow> section_id option" where
  "SymbolSection_id self = (case self of SS_Section i \<Rightarrow> Some i | _ \<Rightarrow> None)"

record out_symbol =
  os_name :: bytes
  os_value :: u64
  os_size :: u64
  os_kind :: symbol_kind
  os_scope :: symbol_scope
  os_weak :: bool
  os_section :: symbol_section
  os_flags :: "(section_id, symbol_id) symbol_flags"

definition Symbol_is_undefined :: "out_symbol \<Rightarrow> bool" where
  "Symbol_is_undefined self \<longleftrightarrow> os_section self = SS_Undefined"

definition Symbol_is_common :: "out_symbol \<Rightarrow> bool" where
  "Symbol_is_common self \<longleftrightarrow> os_section self = SS_Common"

definition Symbol_is_local :: "out_symbol \<Rightarrow> bool" where
  "Symbol_is_local self \<longleftrightarrow> os_scope self = Scope_Compilation"

record out_relocation =
  or_offset :: u64
  or_symbol :: symbol_id
  or_addend :: i64
  or_flags :: relocation_flags

record out_comdat =
  oc_kind :: comdat_kind
  oc_symbol :: symbol_id
  oc_sections :: "section_id list"

section \<open>Sections\<close>

record out_section =
  osec_segment :: bytes
  osec_name :: bytes
  osec_kind :: section_kind
  osec_size :: u64
  osec_align :: u64
  osec_data :: bytes
  osec_relocations :: "out_relocation list"
  osec_symbol :: "symbol_id option"
  osec_flags :: section_flags

definition Section_is_bss :: "out_section \<Rightarrow> bool" where
  "Section_is_bss self \<longleftrightarrow> SectionKind_is_bss (osec_kind self)"

text \<open>\<^verbatim>\<open>debug_assert_eq!(align & (align - 1), 0)\<close>; the subtraction underflows for 0.\<close>

definition assert_power_of_two :: "u64 \<Rightarrow> 's \<Rightarrow> (unit, 'e) result \<times> 's" where
  "assert_power_of_two align =
    state_lift (and_then (word_sub align 1) (\<lambda>m. debug_assert (align AND m = 0) (Ok ())))"

definition Section_set_data :: "bytes \<Rightarrow> u64 \<Rightarrow> out_section \<Rightarrow> (unit, string) result \<times> out_section" where
  "Section_set_data data align =
    state_then (state_get (\<lambda>self. debug_assert (\<not> Section_is_bss self) (Ok ()))) (\<lambda>_.
    state_then (assert_power_of_two align) (\<lambda>_.
    state_then (state_get (\<lambda>self. debug_assert (osec_data self = []) (Ok ()))) (\<lambda>_.
    state_modify (\<lambda>self. self\<lparr>osec_data := data, osec_size := word_of_nat (length data),
      osec_align := align\<rparr>))))"

text \<open>
  A vector holds at most \<open>isize_max\<close> bytes: growing it further panics. \<open>offset_align\<close> is the
  computation that \<^verbatim>\<open>append_data\<close> (on \<^verbatim>\<open>usize\<close>) and \<^verbatim>\<open>append_bss\<close> (on \<^verbatim>\<open>u64\<close>) share.
\<close>

definition offset_align :: "u64 \<Rightarrow> u64 \<Rightarrow> (u64, 'e) result" where
  "offset_align offset align =
    and_then (word_sub align 1) (\<lambda>m.
    if offset AND m \<noteq> 0
    then and_then (word_sub align (offset AND m)) (word_add offset)
    else Ok offset)"

definition Vec_grow :: "bytes \<Rightarrow> bytes \<Rightarrow> (bytes, 'e) result" where
  "Vec_grow data added = (if length data + length added \<le> isize_max then Ok (data @ added) else Panic)"

definition Section_append_data :: "bytes \<Rightarrow> u64 \<Rightarrow> out_section \<Rightarrow> (u64, string) result \<times> out_section" where
  "Section_append_data append_data align =
    state_then (state_get (\<lambda>self. debug_assert (\<not> Section_is_bss self) (Ok ()))) (\<lambda>_.
    state_then (assert_power_of_two align) (\<lambda>_.
    state_then (state_modify (\<lambda>self. if osec_align self < align then self\<lparr>osec_align := align\<rparr> else self)) (\<lambda>_.
    state_then (state_get (\<lambda>self. offset_align (word_of_nat (length (osec_data self))) align)) (\<lambda>offset.
    state_then (state_get (\<lambda>self.
      and_then (Vec_grow (osec_data self) (replicate (unat offset - length (osec_data self)) 0)) (\<lambda>data.
      Vec_grow data append_data))) (\<lambda>data.
    state_then (state_modify (\<lambda>self. self\<lparr>osec_data := data, osec_size := word_of_nat (length data)\<rparr>)) (\<lambda>_.
    state_lift (Ok offset)))))))"

definition Section_append_bss :: "u64 \<Rightarrow> u64 \<Rightarrow> out_section \<Rightarrow> (u64, string) result \<times> out_section" where
  "Section_append_bss sz align =
    state_then (state_get (\<lambda>self. debug_assert (Section_is_bss self) (Ok ()))) (\<lambda>_.
    state_then (assert_power_of_two align) (\<lambda>_.
    state_then (state_modify (\<lambda>self. if osec_align self < align then self\<lparr>osec_align := align\<rparr> else self)) (\<lambda>_.
    state_then (state_get (\<lambda>self. offset_align (osec_size self) align)) (\<lambda>offset.
    state_then (state_modify (\<lambda>self. self\<lparr>osec_size := offset\<rparr>)) (\<lambda>_.
    state_then (state_get (\<lambda>self. word_add (osec_size self) sz)) (\<lambda>sz.
    state_then (state_modify (\<lambda>self. self\<lparr>osec_size := sz\<rparr>)) (\<lambda>_.
    state_lift (Ok offset))))))))"

definition Section_data :: "out_section \<Rightarrow> (bytes, string) result" where
  "Section_data self = debug_assert (\<not> Section_is_bss self) (Ok (osec_data self))"

section \<open>The object\<close>

record MachOBuildVersion =
  bv_platform :: u32
  bv_minos :: u32
  bv_sdk :: u32

record out_object =
  obj_format :: binary_format
  obj_architecture :: architecture
  obj_sub_architecture :: "sub_architecture option"
  obj_endian :: endianness
  obj_sections :: "out_section list"
  obj_standard_sections :: "standard_section \<rightharpoonup> section_id"
  obj_symbols :: "out_symbol list"
  obj_symbol_map :: "bytes \<rightharpoonup> symbol_id"
  obj_comdats :: "out_comdat list"
  obj_flags :: file_flags
  obj_mangling :: mangling
  obj_stub_symbols :: "symbol_id \<rightharpoonup> symbol_id"
  obj_tlv_bootstrap :: "symbol_id option"
  obj_macho_cpu_subtype :: "u32 option"
  obj_macho_build_version :: "MachOBuildVersion option"
  obj_macho_subsections_via_symbols :: bool

type_synonym 'a object_op = "out_object \<Rightarrow> ('a, string) result \<times> out_object"

definition Object_new :: "binary_format \<Rightarrow> architecture \<Rightarrow> endianness \<Rightarrow> out_object" where
  "Object_new fmt architecture e =
    \<lparr>obj_format = fmt, obj_architecture = architecture, obj_sub_architecture = None,
     obj_endian = e, obj_sections = [], obj_standard_sections = Map.empty, obj_symbols = [],
     obj_symbol_map = Map.empty, obj_comdats = [], obj_flags = FF_None,
     obj_mangling = Mangling_default fmt architecture, obj_stub_symbols = Map.empty,
     obj_tlv_bootstrap = None, obj_macho_cpu_subtype = None, obj_macho_build_version = None,
     obj_macho_subsections_via_symbols = False\<rparr>"

definition Object_set_sub_architecture :: "sub_architecture option \<Rightarrow> out_object \<Rightarrow> out_object" where
  "Object_set_sub_architecture sub_architecture self = self\<lparr>obj_sub_architecture := sub_architecture\<rparr>"

definition Object_set_mangling :: "mangling \<Rightarrow> out_object \<Rightarrow> out_object" where
  "Object_set_mangling mangling self = self\<lparr>obj_mangling := mangling\<rparr>"

definition Object_set_macho_cpu_subtype :: "u32 \<Rightarrow> out_object \<Rightarrow> out_object" where
  "Object_set_macho_cpu_subtype cpu_subtype self = self\<lparr>obj_macho_cpu_subtype := Some cpu_subtype\<rparr>"

definition Object_set_macho_build_version :: "MachOBuildVersion \<Rightarrow> out_object \<Rightarrow> out_object" where
  "Object_set_macho_build_version info self = self\<lparr>obj_macho_build_version := Some info\<rparr>"

text \<open>Access to the elements by their ids: an index out of range panics.\<close>

definition Object_section :: "section_id \<Rightarrow> out_object \<Rightarrow> (out_section, string) result" where
  "Object_section i self = index_list (obj_sections self) i"

definition Object_symbol :: "symbol_id \<Rightarrow> out_object \<Rightarrow> (out_symbol, string) result" where
  "Object_symbol i self = index_list (obj_symbols self) i"

definition Object_comdat :: "comdat_id \<Rightarrow> out_object \<Rightarrow> (out_comdat, string) result" where
  "Object_comdat i self = index_list (obj_comdats self) i"

text \<open>\<^verbatim>\<open>section_mut\<close>, \<^verbatim>\<open>symbol_mut\<close> and \<^verbatim>\<open>comdat_mut\<close>, with what is done through the reference.\<close>

definition Object_section_mut ::
  "section_id \<Rightarrow> (out_section \<Rightarrow> ('a, string) result \<times> out_section) \<Rightarrow> 'a object_op" where
  "Object_section_mut = state_at obj_sections (\<lambda>sections. obj_sections_update (\<lambda>_. sections))"

definition Object_symbol_mut ::
  "symbol_id \<Rightarrow> (out_symbol \<Rightarrow> ('a, string) result \<times> out_symbol) \<Rightarrow> 'a object_op" where
  "Object_symbol_mut = state_at obj_symbols (\<lambda>symbols. obj_symbols_update (\<lambda>_. symbols))"

definition Object_comdat_mut ::
  "comdat_id \<Rightarrow> (out_comdat \<Rightarrow> ('a, string) result \<times> out_comdat) \<Rightarrow> 'a object_op" where
  "Object_comdat_mut = state_at obj_comdats (\<lambda>comdats. obj_comdats_update (\<lambda>_. comdats))"

definition Object_set_section_data :: "section_id \<Rightarrow> bytes \<Rightarrow> u64 \<Rightarrow> unit object_op" where
  "Object_set_section_data i data align = Object_section_mut i (Section_set_data data align)"

definition Object_append_section_data :: "section_id \<Rightarrow> bytes \<Rightarrow> u64 \<Rightarrow> u64 object_op" where
  "Object_append_section_data i data align = Object_section_mut i (Section_append_data data align)"

definition Object_append_section_bss :: "section_id \<Rightarrow> u64 \<Rightarrow> u64 \<Rightarrow> u64 object_op" where
  "Object_append_section_bss i sz align = Object_section_mut i (Section_append_bss sz align)"

definition Object_symbol_id :: "bytes \<Rightarrow> out_object \<Rightarrow> symbol_id option" where
  "Object_symbol_id name self = obj_symbol_map self name"

definition Object_has_subsections_via_symbols :: "out_object \<Rightarrow> bool" where
  "Object_has_subsections_via_symbols self \<longleftrightarrow> obj_format self = BF_MachO"

definition Object_set_subsections_via_symbols :: "out_object \<Rightarrow> out_object" where
  "Object_set_subsections_via_symbols self =
    (if obj_format self = BF_MachO then self\<lparr>obj_macho_subsections_via_symbols := True\<rparr> else self)"

definition Object_has_uninitialized_tls :: "out_object \<Rightarrow> bool" where
  "Object_has_uninitialized_tls self \<longleftrightarrow> obj_format self \<noteq> BF_Coff"

definition Object_has_common :: "out_object \<Rightarrow> bool" where
  "Object_has_common self \<longleftrightarrow> obj_format self = BF_MachO"

definition Object_add_comdat :: "out_comdat \<Rightarrow> comdat_id object_op" where
  "Object_add_comdat comdat =
    state_then (state_get (\<lambda>self. Ok (length (obj_comdats self)))) (\<lambda>comdat_id.
    state_then (state_modify (\<lambda>self. self\<lparr>obj_comdats := obj_comdats self @ [comdat]\<rparr>)) (\<lambda>_.
    state_lift (Ok comdat_id)))"

definition Object_add_raw_symbol :: "out_symbol \<Rightarrow> symbol_id object_op" where
  "Object_add_raw_symbol symbol =
    state_then (state_get (\<lambda>self. Ok (length (obj_symbols self)))) (\<lambda>symbol_id.
    state_then (state_modify (\<lambda>self. self\<lparr>obj_symbols := obj_symbols self @ [symbol]\<rparr>)) (\<lambda>_.
    state_lift (Ok symbol_id)))"

definition Object_add_file_symbol :: "bytes \<Rightarrow> symbol_id object_op" where
  "Object_add_file_symbol name =
    Object_add_raw_symbol \<lparr>os_name = name, os_value = 0, os_size = 0, os_kind = SymK_File,
      os_scope = Scope_Compilation, os_weak = False, os_section = SS_None, os_flags = SymF_None\<rparr>"

definition Object_section_symbol :: "section_id \<Rightarrow> symbol_id object_op" where
  "Object_section_symbol i =
    state_then (state_get (Object_section i)) (\<lambda>sec.
    case osec_symbol sec of
      Some symbol \<Rightarrow> state_lift (Ok symbol)
    | None \<Rightarrow>
        state_then (state_get (\<lambda>self. Ok (if obj_format self = BF_Coff then osec_name sec else []))) (\<lambda>name.
        state_then (state_get (\<lambda>self. Ok (length (obj_symbols self)))) (\<lambda>symbol_id.
        state_then (state_modify (\<lambda>self. self\<lparr>obj_symbols := obj_symbols self @
          [\<lparr>os_name = name, os_value = 0, os_size = 0, os_kind = SymK_Section,
            os_scope = Scope_Compilation, os_weak = False, os_section = SS_Section i,
            os_flags = SymF_None\<rparr>]\<rparr>)) (\<lambda>_.
        state_then (Object_section_mut i (state_modify (\<lambda>sec. sec\<lparr>osec_symbol := Some symbol_id\<rparr>))) (\<lambda>_.
        state_lift (Ok symbol_id))))))"

definition Object_symbol_section_and_offset :: "symbol_id \<Rightarrow> (symbol_id \<times> u64) option object_op" where
  "Object_symbol_section_and_offset symbol_id =
    state_then (state_get (Object_symbol symbol_id)) (\<lambda>symbol.
    if os_kind symbol = SymK_Section then state_lift (Ok (Some (symbol_id, 0)))
    else (case SymbolSection_id (os_section symbol) of
        None \<Rightarrow> state_lift (Ok None)
      | Some sec \<Rightarrow>
          state_then (Object_section_symbol sec) (\<lambda>section_symbol.
          state_lift (Ok (Some (section_symbol, os_value symbol))))))"

definition Object_add_symbol :: "out_symbol \<Rightarrow> symbol_id object_op" where
  "Object_add_symbol symbol =
    state_then (state_lift (debug_assert (Symbol_is_undefined symbol \<or> os_scope symbol \<noteq> Scope_Unknown) (Ok ()))) (\<lambda>_.
    if os_kind symbol = SymK_Section
    then state_then (state_lift (unwrap (SymbolSection_id (os_section symbol)))) (\<lambda>sec.
      state_then (Object_section_symbol sec) (\<lambda>symbol_id.
      if os_flags symbol \<noteq> SymF_None
      then state_then (Object_symbol_mut symbol_id (state_modify (\<lambda>s. s\<lparr>os_flags := os_flags symbol\<rparr>))) (\<lambda>_.
        state_lift (Ok symbol_id))
      else state_lift (Ok symbol_id)))
    else if os_name symbol \<noteq> [] \<and>
      (os_kind symbol = SymK_Text \<or> os_kind symbol = SymK_Data \<or> os_kind symbol = SymK_Tls)
    then state_then (state_get (\<lambda>self. Ok (case Mangling_global_prefix (obj_mangling self) of
        None \<Rightarrow> symbol
      | Some prefix \<Rightarrow> symbol\<lparr>os_name := prefix # os_name symbol\<rparr>))) (\<lambda>mangled.
      state_then (Object_add_raw_symbol mangled) (\<lambda>symbol_id.
      state_then (state_modify (\<lambda>self. self\<lparr>obj_symbol_map := (obj_symbol_map self)(os_name symbol \<mapsto> symbol_id)\<rparr>)) (\<lambda>_.
      state_lift (Ok symbol_id))))
    else Object_add_raw_symbol symbol)"

end
