(* ===== verification/Coff_Types.thy ===== *)
theory Coff_Types
  imports Struct_Fields
begin

text \<open>
  The structures of COFF object files (\<^verbatim>\<open>src/pe.rs\<close>), all little-endian. A structure is a record of
  the native values of its fields, \<open>encode_S\<close> is its image and \<open>decode_S\<close> reads the fields back. The
  two variants of a symbol differ in the width of the section number.
\<close>

section \<open>Constants\<close>

abbreviation IMAGE_FILE_MACHINE_UNKNOWN :: u16 where "IMAGE_FILE_MACHINE_UNKNOWN \<equiv> 0"
abbreviation IMAGE_FILE_MACHINE_I386 :: u16 where "IMAGE_FILE_MACHINE_I386 \<equiv> 0x014c"
abbreviation IMAGE_FILE_MACHINE_ARMNT :: u16 where "IMAGE_FILE_MACHINE_ARMNT \<equiv> 0x01c4"
abbreviation IMAGE_FILE_MACHINE_POWERPC :: u16 where "IMAGE_FILE_MACHINE_POWERPC \<equiv> 0x01f0"
abbreviation IMAGE_FILE_MACHINE_POWERPCFP :: u16 where "IMAGE_FILE_MACHINE_POWERPCFP \<equiv> 0x01f1"
abbreviation IMAGE_FILE_MACHINE_POWERPCBE :: u16 where "IMAGE_FILE_MACHINE_POWERPCBE \<equiv> 0x01f2"
abbreviation IMAGE_FILE_MACHINE_AMD64 :: u16 where "IMAGE_FILE_MACHINE_AMD64 \<equiv> 0x8664"
abbreviation IMAGE_FILE_MACHINE_ARM64 :: u16 where "IMAGE_FILE_MACHINE_ARM64 \<equiv> 0xaa64"
abbreviation IMAGE_FILE_MACHINE_ARM64EC :: u16 where "IMAGE_FILE_MACHINE_ARM64EC \<equiv> 0xa641"
abbreviation "IMAGE_SCN_CNT_CODE \<equiv> (0x20 :: u32)"
abbreviation "IMAGE_SCN_CNT_INITIALIZED_DATA \<equiv> (0x40 :: u32)"
abbreviation "IMAGE_SCN_CNT_UNINITIALIZED_DATA \<equiv> (0x80 :: u32)"
abbreviation "IMAGE_SCN_LNK_INFO \<equiv> (0x200 :: u32)"
abbreviation "IMAGE_SCN_LNK_REMOVE \<equiv> (0x800 :: u32)"
abbreviation "IMAGE_SCN_MEM_DISCARDABLE \<equiv> (0x2000000 :: u32)"
abbreviation "IMAGE_SCN_MEM_EXECUTE \<equiv> (0x20000000 :: u32)"
abbreviation "IMAGE_SCN_MEM_READ \<equiv> (0x40000000 :: u32)"
abbreviation "IMAGE_SCN_MEM_WRITE \<equiv> (0x80000000 :: u32)"
abbreviation "IMAGE_REL_I386_DIR16 \<equiv> (0x1 :: u16)"
abbreviation "IMAGE_REL_I386_REL16 \<equiv> (0x2 :: u16)"
abbreviation "IMAGE_REL_I386_DIR32 \<equiv> (0x6 :: u16)"
abbreviation "IMAGE_REL_I386_DIR32NB \<equiv> (0x7 :: u16)"
abbreviation "IMAGE_REL_I386_SECTION \<equiv> (0xa :: u16)"
abbreviation "IMAGE_REL_I386_SECREL \<equiv> (0xb :: u16)"
abbreviation "IMAGE_REL_I386_TOKEN \<equiv> (0xc :: u16)"
abbreviation "IMAGE_REL_I386_SECREL7 \<equiv> (0xd :: u16)"
abbreviation "IMAGE_REL_I386_REL32 \<equiv> (0x14 :: u16)"
abbreviation "IMAGE_REL_ARM_ADDR32 \<equiv> (0x1 :: u16)"
abbreviation "IMAGE_REL_ARM_ADDR32NB \<equiv> (0x2 :: u16)"
abbreviation "IMAGE_REL_ARM_TOKEN \<equiv> (0x5 :: u16)"
abbreviation "IMAGE_REL_ARM_REL32 \<equiv> (0xa :: u16)"
abbreviation "IMAGE_REL_ARM_SECTION \<equiv> (0xe :: u16)"
abbreviation "IMAGE_REL_ARM_SECREL \<equiv> (0xf :: u16)"
abbreviation "IMAGE_REL_ARM64_ADDR32 \<equiv> (0x1 :: u16)"
abbreviation "IMAGE_REL_ARM64_ADDR32NB \<equiv> (0x2 :: u16)"
abbreviation "IMAGE_REL_ARM64_BRANCH26 \<equiv> (0x3 :: u16)"
abbreviation "IMAGE_REL_ARM64_SECREL \<equiv> (0x8 :: u16)"
abbreviation "IMAGE_REL_ARM64_TOKEN \<equiv> (0xc :: u16)"
abbreviation "IMAGE_REL_ARM64_SECTION \<equiv> (0xd :: u16)"
abbreviation "IMAGE_REL_ARM64_ADDR64 \<equiv> (0xe :: u16)"
abbreviation "IMAGE_REL_ARM64_REL32 \<equiv> (0x11 :: u16)"
abbreviation "IMAGE_REL_AMD64_ADDR64 \<equiv> (0x1 :: u16)"
abbreviation "IMAGE_REL_AMD64_ADDR32 \<equiv> (0x2 :: u16)"
abbreviation "IMAGE_REL_AMD64_ADDR32NB \<equiv> (0x3 :: u16)"
abbreviation "IMAGE_REL_AMD64_REL32 \<equiv> (0x4 :: u16)"
abbreviation "IMAGE_REL_AMD64_REL32_1 \<equiv> (0x5 :: u16)"
abbreviation "IMAGE_REL_AMD64_REL32_2 \<equiv> (0x6 :: u16)"
abbreviation "IMAGE_REL_AMD64_REL32_3 \<equiv> (0x7 :: u16)"
abbreviation "IMAGE_REL_AMD64_REL32_4 \<equiv> (0x8 :: u16)"
abbreviation "IMAGE_REL_AMD64_REL32_5 \<equiv> (0x9 :: u16)"
abbreviation "IMAGE_REL_AMD64_SECTION \<equiv> (0xa :: u16)"
abbreviation "IMAGE_REL_AMD64_SECREL \<equiv> (0xb :: u16)"
abbreviation "IMAGE_REL_AMD64_SECREL7 \<equiv> (0xc :: u16)"
abbreviation "IMAGE_REL_AMD64_TOKEN \<equiv> (0xd :: u16)"
abbreviation IMAGE_SCN_LNK_COMDAT :: u32 where "IMAGE_SCN_LNK_COMDAT \<equiv> 0x1000"
abbreviation IMAGE_SCN_LNK_NRELOC_OVFL :: u32 where "IMAGE_SCN_LNK_NRELOC_OVFL \<equiv> 0x01000000"
abbreviation IMAGE_SCN_ALIGN_MASK :: u32 where "IMAGE_SCN_ALIGN_MASK \<equiv> 0x00f00000"
abbreviation IMAGE_SCN_ALIGN_1BYTES :: u32 where "IMAGE_SCN_ALIGN_1BYTES \<equiv> 0x00100000"
abbreviation IMAGE_SCN_ALIGN_2BYTES :: u32 where "IMAGE_SCN_ALIGN_2BYTES \<equiv> 0x00200000"
abbreviation IMAGE_SCN_ALIGN_4BYTES :: u32 where "IMAGE_SCN_ALIGN_4BYTES \<equiv> 0x00300000"
abbreviation IMAGE_SCN_ALIGN_8BYTES :: u32 where "IMAGE_SCN_ALIGN_8BYTES \<equiv> 0x00400000"
abbreviation IMAGE_SCN_ALIGN_16BYTES :: u32 where "IMAGE_SCN_ALIGN_16BYTES \<equiv> 0x00500000"
abbreviation IMAGE_SCN_ALIGN_32BYTES :: u32 where "IMAGE_SCN_ALIGN_32BYTES \<equiv> 0x00600000"
abbreviation IMAGE_SCN_ALIGN_64BYTES :: u32 where "IMAGE_SCN_ALIGN_64BYTES \<equiv> 0x00700000"
abbreviation IMAGE_SCN_ALIGN_128BYTES :: u32 where "IMAGE_SCN_ALIGN_128BYTES \<equiv> 0x00800000"
abbreviation IMAGE_SCN_ALIGN_256BYTES :: u32 where "IMAGE_SCN_ALIGN_256BYTES \<equiv> 0x00900000"
abbreviation IMAGE_SCN_ALIGN_512BYTES :: u32 where "IMAGE_SCN_ALIGN_512BYTES \<equiv> 0x00a00000"
abbreviation IMAGE_SCN_ALIGN_1024BYTES :: u32 where "IMAGE_SCN_ALIGN_1024BYTES \<equiv> 0x00b00000"
abbreviation IMAGE_SCN_ALIGN_2048BYTES :: u32 where "IMAGE_SCN_ALIGN_2048BYTES \<equiv> 0x00c00000"
abbreviation IMAGE_SCN_ALIGN_4096BYTES :: u32 where "IMAGE_SCN_ALIGN_4096BYTES \<equiv> 0x00d00000"
abbreviation IMAGE_SCN_ALIGN_8192BYTES :: u32 where "IMAGE_SCN_ALIGN_8192BYTES \<equiv> 0x00e00000"
abbreviation IMAGE_SYM_UNDEFINED :: i32 where "IMAGE_SYM_UNDEFINED \<equiv> 0"
abbreviation IMAGE_SYM_ABSOLUTE :: i32 where "IMAGE_SYM_ABSOLUTE \<equiv> -1"
abbreviation IMAGE_SYM_DEBUG :: i32 where "IMAGE_SYM_DEBUG \<equiv> -2"
abbreviation IMAGE_SYM_SECTION_MAX :: u16 where "IMAGE_SYM_SECTION_MAX \<equiv> 0xfeff"
abbreviation IMAGE_SYM_TYPE_NULL :: u16 where "IMAGE_SYM_TYPE_NULL \<equiv> 0"
abbreviation IMAGE_SYM_DTYPE_FUNCTION :: u16 where "IMAGE_SYM_DTYPE_FUNCTION \<equiv> 2"
abbreviation IMAGE_SYM_CLASS_EXTERNAL :: u8 where "IMAGE_SYM_CLASS_EXTERNAL \<equiv> 2"
abbreviation IMAGE_SYM_CLASS_STATIC :: u8 where "IMAGE_SYM_CLASS_STATIC \<equiv> 3"
abbreviation IMAGE_SYM_CLASS_LABEL :: u8 where "IMAGE_SYM_CLASS_LABEL \<equiv> 6"
abbreviation IMAGE_SYM_CLASS_FILE :: u8 where "IMAGE_SYM_CLASS_FILE \<equiv> 0x67"
abbreviation IMAGE_SYM_CLASS_SECTION :: u8 where "IMAGE_SYM_CLASS_SECTION \<equiv> 0x68"
abbreviation IMAGE_SYM_CLASS_WEAK_EXTERNAL :: u8 where "IMAGE_SYM_CLASS_WEAK_EXTERNAL \<equiv> 0x69"
abbreviation N_BTMASK :: u16 where "N_BTMASK \<equiv> 0xf"
abbreviation N_TMASK :: u16 where "N_TMASK \<equiv> 0x30"
abbreviation N_BTSHFT :: nat where "N_BTSHFT \<equiv> 4"
abbreviation IMAGE_COMDAT_SELECT_NODUPLICATES :: u8 where "IMAGE_COMDAT_SELECT_NODUPLICATES \<equiv> 1"
abbreviation IMAGE_COMDAT_SELECT_ANY :: u8 where "IMAGE_COMDAT_SELECT_ANY \<equiv> 2"
abbreviation IMAGE_COMDAT_SELECT_SAME_SIZE :: u8 where "IMAGE_COMDAT_SELECT_SAME_SIZE \<equiv> 3"
abbreviation IMAGE_COMDAT_SELECT_EXACT_MATCH :: u8 where "IMAGE_COMDAT_SELECT_EXACT_MATCH \<equiv> 4"
abbreviation IMAGE_COMDAT_SELECT_ASSOCIATIVE :: u8 where "IMAGE_COMDAT_SELECT_ASSOCIATIVE \<equiv> 5"
abbreviation IMAGE_COMDAT_SELECT_LARGEST :: u8 where "IMAGE_COMDAT_SELECT_LARGEST \<equiv> 6"
abbreviation IMAGE_COMDAT_SELECT_NEWEST :: u8 where "IMAGE_COMDAT_SELECT_NEWEST \<equiv> 7"
abbreviation IMAGE_WEAK_EXTERN_SEARCH_ALIAS :: u32 where "IMAGE_WEAK_EXTERN_SEARCH_ALIAS \<equiv> 3"
abbreviation IMAGE_SIZEOF_SYMBOL :: nat where "IMAGE_SIZEOF_SYMBOL \<equiv> 18"

section \<open>Headers\<close>

record image_file_header =
  ifh_machine :: u16
  ifh_number_of_sections :: u16
  ifh_time_date_stamp :: u32
  ifh_pointer_to_symbol_table :: u32
  ifh_number_of_symbols :: u32
  ifh_size_of_optional_header :: u16
  ifh_characteristics :: u16

definition encode_image_file_header :: "image_file_header \<Rightarrow> bytes" where
  "encode_image_file_header s =
    U_new Little (ifh_machine s) @ U_new Little (ifh_number_of_sections s) @
    U_new Little (ifh_time_date_stamp s) @ U_new Little (ifh_pointer_to_symbol_table s) @
    U_new Little (ifh_number_of_symbols s) @ U_new Little (ifh_size_of_optional_header s) @
    U_new Little (ifh_characteristics s)"

definition decode_image_file_header :: "bytes \<Rightarrow> image_file_header" where
  "decode_image_file_header bs =
    (case fld Little bs of (machine, bs) \<Rightarrow>
     case fld Little bs of (nsections, bs) \<Rightarrow>
     case fld Little bs of (time, bs) \<Rightarrow>
     case fld Little bs of (symtab, bs) \<Rightarrow>
     case fld Little bs of (nsymbols, bs) \<Rightarrow>
     case fld Little bs of (opt, bs) \<Rightarrow>
     case fld Little bs of (chars, bs) \<Rightarrow>
     \<lparr>ifh_machine = machine, ifh_number_of_sections = nsections, ifh_time_date_stamp = time,
      ifh_pointer_to_symbol_table = symtab, ifh_number_of_symbols = nsymbols,
      ifh_size_of_optional_header = opt, ifh_characteristics = chars\<rparr>)"

record bigobj_header =
  big_sig1 :: u16
  big_sig2 :: u16
  big_version :: u16
  big_machine :: u16
  big_time_date_stamp :: u32
  big_class_id :: bytes
  big_size_of_data :: u32
  big_flags :: u32
  big_meta_data_size :: u32
  big_meta_data_offset :: u32
  big_number_of_sections :: u32
  big_pointer_to_symbol_table :: u32
  big_number_of_symbols :: u32

definition decode_bigobj_header :: "bytes \<Rightarrow> bigobj_header" where
  "decode_bigobj_header bs =
    (case fld Little bs of (sig1, bs) \<Rightarrow>
     case fld Little bs of (sig2, bs) \<Rightarrow>
     case fld Little bs of (version, bs) \<Rightarrow>
     case fld Little bs of (machine, bs) \<Rightarrow>
     case fld Little bs of (time, bs) \<Rightarrow>
     case fld_bytes 16 bs of (class_id, bs) \<Rightarrow>
     case fld Little bs of (size_of_data, bs) \<Rightarrow>
     case fld Little bs of (flags, bs) \<Rightarrow>
     case fld Little bs of (meta_size, bs) \<Rightarrow>
     case fld Little bs of (meta_offset, bs) \<Rightarrow>
     case fld Little bs of (nsections, bs) \<Rightarrow>
     case fld Little bs of (symtab, bs) \<Rightarrow>
     case fld Little bs of (nsymbols, bs) \<Rightarrow>
     \<lparr>big_sig1 = sig1, big_sig2 = sig2, big_version = version, big_machine = machine,
      big_time_date_stamp = time, big_class_id = class_id, big_size_of_data = size_of_data,
      big_flags = flags, big_meta_data_size = meta_size, big_meta_data_offset = meta_offset,
      big_number_of_sections = nsections, big_pointer_to_symbol_table = symtab,
      big_number_of_symbols = nsymbols\<rparr>)"

record image_section_header =
  ish_name :: bytes
  ish_virtual_size :: u32
  ish_virtual_address :: u32
  ish_size_of_raw_data :: u32
  ish_pointer_to_raw_data :: u32
  ish_pointer_to_relocations :: u32
  ish_pointer_to_linenumbers :: u32
  ish_number_of_relocations :: u16
  ish_number_of_linenumbers :: u16
  ish_characteristics :: u32

definition encode_image_section_header :: "image_section_header \<Rightarrow> bytes" where
  "encode_image_section_header s =
    ish_name s @ U_new Little (ish_virtual_size s) @ U_new Little (ish_virtual_address s) @
    U_new Little (ish_size_of_raw_data s) @ U_new Little (ish_pointer_to_raw_data s) @
    U_new Little (ish_pointer_to_relocations s) @ U_new Little (ish_pointer_to_linenumbers s) @
    U_new Little (ish_number_of_relocations s) @ U_new Little (ish_number_of_linenumbers s) @
    U_new Little (ish_characteristics s)"

definition decode_image_section_header :: "bytes \<Rightarrow> image_section_header" where
  "decode_image_section_header bs =
    (case fld_bytes 8 bs of (name, bs) \<Rightarrow>
     case fld Little bs of (vsize, bs) \<Rightarrow>
     case fld Little bs of (vaddr, bs) \<Rightarrow>
     case fld Little bs of (raw_size, bs) \<Rightarrow>
     case fld Little bs of (raw, bs) \<Rightarrow>
     case fld Little bs of (relocs, bs) \<Rightarrow>
     case fld Little bs of (lines, bs) \<Rightarrow>
     case fld Little bs of (nrelocs, bs) \<Rightarrow>
     case fld Little bs of (nlines, bs) \<Rightarrow>
     case fld Little bs of (chars, bs) \<Rightarrow>
     \<lparr>ish_name = name, ish_virtual_size = vsize, ish_virtual_address = vaddr,
      ish_size_of_raw_data = raw_size, ish_pointer_to_raw_data = raw,
      ish_pointer_to_relocations = relocs, ish_pointer_to_linenumbers = lines,
      ish_number_of_relocations = nrelocs, ish_number_of_linenumbers = nlines,
      ish_characteristics = chars\<rparr>)"

section \<open>Relocations and symbols\<close>

record image_relocation =
  ir_virtual_address :: u32
  ir_symbol_table_index :: u32
  ir_typ :: u16

definition encode_image_relocation :: "image_relocation \<Rightarrow> bytes" where
  "encode_image_relocation s =
    U_new Little (ir_virtual_address s) @ U_new Little (ir_symbol_table_index s) @ U_new Little (ir_typ s)"

definition decode_image_relocation :: "bytes \<Rightarrow> image_relocation" where
  "decode_image_relocation bs =
    (case fld Little bs of (vaddr, bs) \<Rightarrow>
     case fld Little bs of (symbol, bs) \<Rightarrow>
     case fld Little bs of (typ, bs) \<Rightarrow>
     \<lparr>ir_virtual_address = vaddr, ir_symbol_table_index = symbol, ir_typ = typ\<rparr>)"

record 'w image_symbol =
  is_name :: bytes
  is_value :: u32
  is_section_number :: 'w
  is_typ :: u16
  is_storage_class :: u8
  is_number_of_aux_symbols :: u8

definition encode_image_symbol :: "'w::len word image_symbol \<Rightarrow> bytes" where
  "encode_image_symbol s =
    is_name s @ U_new Little (is_value s) @ U_new Little (is_section_number s) @
    U_new Little (is_typ s) @ [is_storage_class s, is_number_of_aux_symbols s]"

definition decode_image_symbol :: "bytes \<Rightarrow> 'w::len word image_symbol" where
  "decode_image_symbol bs =
    (case fld_bytes 8 bs of (name, bs) \<Rightarrow>
     case fld Little bs of (val, bs) \<Rightarrow>
     case fld Little bs of (number, bs) \<Rightarrow>
     case fld Little bs of (typ, bs) \<Rightarrow>
     case fld_byte bs of (storage_class, bs) \<Rightarrow>
     case fld_byte bs of (aux, bs) \<Rightarrow>
     \<lparr>is_name = name, is_value = val, is_section_number = number, is_typ = typ,
      is_storage_class = storage_class, is_number_of_aux_symbols = aux\<rparr>)"

section \<open>Auxiliary symbols\<close>

record image_aux_symbol_function =
  iaf_tag_index :: u32
  iaf_total_size :: u32
  iaf_pointer_to_linenumber :: u32
  iaf_pointer_to_next_function :: u32

definition decode_image_aux_symbol_function :: "bytes \<Rightarrow> image_aux_symbol_function" where
  "decode_image_aux_symbol_function bs =
    (case fld Little bs of (tag, bs) \<Rightarrow>
     case fld Little bs of (total_size, bs) \<Rightarrow>
     case fld Little bs of (line, bs) \<Rightarrow>
     case fld Little bs of (following, bs) \<Rightarrow>
     \<lparr>iaf_tag_index = tag, iaf_total_size = total_size, iaf_pointer_to_linenumber = line,
      iaf_pointer_to_next_function = following\<rparr>)"

record image_aux_symbol_weak =
  iaw_default_sym_index :: u32
  iaw_search_type :: u32

definition encode_image_aux_symbol_weak :: "image_aux_symbol_weak \<Rightarrow> bytes" where
  "encode_image_aux_symbol_weak s =
    U_new Little (iaw_default_sym_index s) @ U_new Little (iaw_search_type s)"

definition decode_image_aux_symbol_weak :: "bytes \<Rightarrow> image_aux_symbol_weak" where
  "decode_image_aux_symbol_weak bs =
    (case fld Little bs of (symbol, bs) \<Rightarrow>
     case fld Little bs of (search, bs) \<Rightarrow>
     \<lparr>iaw_default_sym_index = symbol, iaw_search_type = search\<rparr>)"

record image_aux_symbol_section =
  ias_length :: u32
  ias_number_of_relocations :: u16
  ias_number_of_linenumbers :: u16
  ias_check_sum :: u32
  ias_number :: u16
  ias_selection :: u8
  ias_reserved :: u8
  ias_high_number :: u16

definition encode_image_aux_symbol_section :: "image_aux_symbol_section \<Rightarrow> bytes" where
  "encode_image_aux_symbol_section s =
    U_new Little (ias_length s) @ U_new Little (ias_number_of_relocations s) @
    U_new Little (ias_number_of_linenumbers s) @ U_new Little (ias_check_sum s) @
    U_new Little (ias_number s) @ [ias_selection s, ias_reserved s] @ U_new Little (ias_high_number s)"

definition decode_image_aux_symbol_section :: "bytes \<Rightarrow> image_aux_symbol_section" where
  "decode_image_aux_symbol_section bs =
    (case fld Little bs of (len, bs) \<Rightarrow>
     case fld Little bs of (nrelocs, bs) \<Rightarrow>
     case fld Little bs of (nlines, bs) \<Rightarrow>
     case fld Little bs of (check, bs) \<Rightarrow>
     case fld Little bs of (number, bs) \<Rightarrow>
     case fld_byte bs of (selection, bs) \<Rightarrow>
     case fld_byte bs of (res, bs) \<Rightarrow>
     case fld Little bs of (high, bs) \<Rightarrow>
     \<lparr>ias_length = len, ias_number_of_relocations = nrelocs, ias_number_of_linenumbers = nlines,
      ias_check_sum = check, ias_number = number, ias_selection = selection, ias_reserved = res,
      ias_high_number = high\<rparr>)"

section \<open>Reading an image back\<close>

lemma decode_encode_coff [simp]:
  "decode_image_file_header (encode_image_file_header h) = h"
  "decode_image_relocation (encode_image_relocation r) = r"
  "decode_image_aux_symbol_weak (encode_image_aux_symbol_weak w @ rest) = w"
  "decode_image_aux_symbol_section (encode_image_aux_symbol_section a) = a"
  by (simp_all add: decode_image_file_header_def encode_image_file_header_def
      decode_image_relocation_def encode_image_relocation_def decode_image_aux_symbol_weak_def
      encode_image_aux_symbol_weak_def decode_image_aux_symbol_section_def
      encode_image_aux_symbol_section_def)

lemma decode_encode_image_section_header [simp]:
  "length (ish_name s) = 8 \<Longrightarrow> decode_image_section_header (encode_image_section_header s) = s"
  by (simp add: decode_image_section_header_def encode_image_section_header_def)

lemma decode_encode_image_symbol [simp]:
  "length (is_name s) = 8 \<Longrightarrow> decode_image_symbol (encode_image_symbol s) = (s :: u16 image_symbol)"
  "length (is_name t) = 8 \<Longrightarrow> decode_image_symbol (encode_image_symbol t) = (t :: i32 image_symbol)"
  by (simp_all add: decode_image_symbol_def encode_image_symbol_def)

lemma length_coff_images [len_simps]:
  "length (encode_image_file_header h) = 20"
  "length (ish_name s) = 8 \<Longrightarrow> length (encode_image_section_header s) = 40"
  "length (encode_image_relocation r) = 10"
  "length (is_name sy) = 8 \<Longrightarrow> length (encode_image_symbol (sy :: u16 image_symbol)) = 18"
  "length (encode_image_aux_symbol_weak w) = 8"
  "length (encode_image_aux_symbol_section a) = 18"
  by (simp_all add: encode_image_file_header_def encode_image_section_header_def
      encode_image_relocation_def encode_image_symbol_def encode_image_aux_symbol_weak_def
      encode_image_aux_symbol_section_def)

end
