(* ===== verification/Object_Formats.thy ===== *)
theory Object_Formats
  imports Object_Types Coff_Types Elf_Types Elf_Relocation_Types
begin

text \<open>
  What the object writer knows about the four file formats: the names, kinds and default flags of the
  standard sections, the default flags of symbols, and the translation, adjustment and size of
  relocations (\<^verbatim>\<open>src/write/elf/object.rs\<close>, \<^verbatim>\<open>src/write/coff/object.rs\<close>, \<^verbatim>\<open>src/write/macho.rs\<close>,
  \<^verbatim>\<open>src/write/xcoff.rs\<close>). The translation of ELF relocations is in \<open>Elf_Relocation_Types\<close>.
\<close>

type_synonym section_info = "bytes \<times> bytes \<times> section_kind \<times> section_flags"

text \<open>An addition of \<^verbatim>\<open>i64\<close> with its overflow check.\<close>

definition i64_add :: "i64 \<Rightarrow> i64 \<Rightarrow> (i64, 'e) result" where
  "i64_add a b = (if - (2 ^ 63) \<le> sint a + sint b \<and> sint a + sint b < 2 ^ 63 then Ok (a + b) else Panic)"

section \<open>ELF\<close>

abbreviation SHF_EXECINSTR :: u64 where "SHF_EXECINSTR \<equiv> 4"
abbreviation SHF_MERGE :: u64 where "SHF_MERGE \<equiv> 0x10"
abbreviation SHF_STRINGS :: u64 where "SHF_STRINGS \<equiv> 0x20"
abbreviation SHF_TLS :: u64 where "SHF_TLS \<equiv> 0x400"
abbreviation STB_LOCAL :: u8 where "STB_LOCAL \<equiv> 0"
abbreviation STB_GLOBAL :: u8 where "STB_GLOBAL \<equiv> 1"
abbreviation STB_WEAK :: u8 where "STB_WEAK \<equiv> 2"
abbreviation STT_NOTYPE :: u8 where "STT_NOTYPE \<equiv> 0"
abbreviation STT_OBJECT :: u8 where "STT_OBJECT \<equiv> 1"
abbreviation STT_FUNC :: u8 where "STT_FUNC \<equiv> 2"
abbreviation STT_SECTION :: u8 where "STT_SECTION \<equiv> 3"
abbreviation STT_FILE :: u8 where "STT_FILE \<equiv> 4"
abbreviation STT_COMMON :: u8 where "STT_COMMON \<equiv> 5"
abbreviation STT_TLS :: u8 where "STT_TLS \<equiv> 6"
abbreviation STV_DEFAULT :: u8 where "STV_DEFAULT \<equiv> 0"
abbreviation STV_HIDDEN :: u8 where "STV_HIDDEN \<equiv> 2"

definition elf_section_info :: "standard_section \<Rightarrow> section_info" where
  "elf_section_info s =
    (case s of
       Std_Text \<Rightarrow> ([], ascii ''.text'', SK_Text, SecF_None)
     | Std_Data \<Rightarrow> ([], ascii ''.data'', SK_Data, SecF_None)
     | Std_ReadOnlyData \<Rightarrow> ([], ascii ''.rodata'', SK_ReadOnlyData, SecF_None)
     | Std_ReadOnlyString \<Rightarrow> ([], ascii ''.rodata'', SK_ReadOnlyData, SecF_None)
     | Std_ReadOnlyDataWithRel \<Rightarrow> ([], ascii ''.data.rel.ro'', SK_ReadOnlyDataWithRel, SecF_None)
     | Std_UninitializedData \<Rightarrow> ([], ascii ''.bss'', SK_UninitializedData, SecF_None)
     | Std_Tls \<Rightarrow> ([], ascii ''.tdata'', SK_Tls, SecF_None)
     | Std_UninitializedTls \<Rightarrow> ([], ascii ''.tbss'', SK_UninitializedTls, SecF_None)
     | Std_TlsVariables \<Rightarrow> ([], [], SK_TlsVariables, SecF_None)
     | Std_Common \<Rightarrow> ([], [], SK_Common, SecF_None)
     | Std_GnuProperty \<Rightarrow> ([], ascii ''.note.gnu.property'', SK_Note, SecF_Elf SHF_ALLOC))"

definition elf_subsection_name :: "bytes \<Rightarrow> bytes \<Rightarrow> bytes" where
  "elf_subsection_name name val = (if val \<noteq> [] then name @ [0x2e] @ val else name)"

definition elf_section_flags :: "out_section \<Rightarrow> section_flags" where
  "elf_section_flags sec =
    (case osec_kind sec of
       SK_Text \<Rightarrow> SecF_Elf (SHF_ALLOC OR SHF_EXECINSTR)
     | SK_Data \<Rightarrow> SecF_Elf (SHF_ALLOC OR SHF_WRITE)
     | SK_ReadOnlyDataWithRel \<Rightarrow> SecF_Elf (SHF_ALLOC OR SHF_WRITE)
     | SK_Tls \<Rightarrow> SecF_Elf (SHF_ALLOC OR SHF_WRITE OR SHF_TLS)
     | SK_UninitializedData \<Rightarrow> SecF_Elf (SHF_ALLOC OR SHF_WRITE)
     | SK_UninitializedTls \<Rightarrow> SecF_Elf (SHF_ALLOC OR SHF_WRITE OR SHF_TLS)
     | SK_ReadOnlyData \<Rightarrow> SecF_Elf SHF_ALLOC
     | SK_ReadOnlyString \<Rightarrow> SecF_Elf (SHF_ALLOC OR SHF_STRINGS OR SHF_MERGE)
     | SK_OtherString \<Rightarrow> SecF_Elf (SHF_STRINGS OR SHF_MERGE)
     | SK_DebugString \<Rightarrow> SecF_Elf (SHF_STRINGS OR SHF_MERGE)
     | SK_Other \<Rightarrow> SecF_Elf 0
     | SK_Debug \<Rightarrow> SecF_Elf 0
     | SK_Metadata \<Rightarrow> SecF_Elf 0
     | SK_Linker \<Rightarrow> SecF_Elf 0
     | SK_Note \<Rightarrow> SecF_Elf 0
     | SK_Elf _ \<Rightarrow> SecF_Elf 0
     | SK_Unknown \<Rightarrow> SecF_None
     | SK_Common \<Rightarrow> SecF_None
     | SK_TlsVariables \<Rightarrow> SecF_None)"

definition elf_symbol_type :: "out_symbol \<Rightarrow> u8 option" where
  "elf_symbol_type symbol =
    (case os_kind symbol of
       SymK_Text \<Rightarrow> Some (if Symbol_is_undefined symbol then STT_NOTYPE else STT_FUNC)
     | SymK_Data \<Rightarrow> Some (if Symbol_is_undefined symbol then STT_NOTYPE
         else if Symbol_is_common symbol then STT_COMMON else STT_OBJECT)
     | SymK_Section \<Rightarrow> Some STT_SECTION
     | SymK_File \<Rightarrow> Some STT_FILE
     | SymK_Tls \<Rightarrow> Some STT_TLS
     | SymK_Label \<Rightarrow> Some STT_NOTYPE
     | SymK_Unknown \<Rightarrow> (if Symbol_is_undefined symbol then Some STT_NOTYPE else None))"

definition elf_symbol_flags :: "out_symbol \<Rightarrow> (section_id, symbol_id) symbol_flags" where
  "elf_symbol_flags symbol =
    (case elf_symbol_type symbol of
       None \<Rightarrow> SymF_None
     | Some sym_type \<Rightarrow>
         let sym_bind = (if os_weak symbol then STB_WEAK
               else if Symbol_is_undefined symbol then STB_GLOBAL
               else if Symbol_is_local symbol then STB_LOCAL
               else STB_GLOBAL);
             info = push_bit 4 sym_bind + sym_type;
             other = (if os_scope symbol = Scope_Linkage then STV_HIDDEN else STV_DEFAULT)
         in SymF_Elf info other)"

section \<open>COFF\<close>

definition coff_section_info :: "standard_section \<Rightarrow> section_info" where
  "coff_section_info s =
    (case s of
       Std_Text \<Rightarrow> ([], ascii ''.text'', SK_Text, SecF_None)
     | Std_Data \<Rightarrow> ([], ascii ''.data'', SK_Data, SecF_None)
     | Std_ReadOnlyData \<Rightarrow> ([], ascii ''.rdata'', SK_ReadOnlyData, SecF_None)
     | Std_ReadOnlyDataWithRel \<Rightarrow> ([], ascii ''.rdata'', SK_ReadOnlyData, SecF_None)
     | Std_ReadOnlyString \<Rightarrow> ([], ascii ''.rdata'', SK_ReadOnlyData, SecF_None)
     | Std_UninitializedData \<Rightarrow> ([], ascii ''.bss'', SK_UninitializedData, SecF_None)
     | Std_Tls \<Rightarrow> ([], ascii ''.tls$'', SK_Data, SecF_None)
     | Std_UninitializedTls \<Rightarrow> ([], [], SK_UninitializedTls, SecF_None)
     | Std_TlsVariables \<Rightarrow> ([], [], SK_TlsVariables, SecF_None)
     | Std_Common \<Rightarrow> ([], [], SK_Common, SecF_None)
     | Std_GnuProperty \<Rightarrow> ([], [], SK_Note, SecF_None))"

definition coff_subsection_name :: "bytes \<Rightarrow> bytes \<Rightarrow> bytes" where
  "coff_subsection_name name val = (if val \<noteq> [] then name @ [0x24] @ val else name)"

definition coff_section_flags :: "out_section \<Rightarrow> section_flags" where
  "coff_section_flags sec =
    (case osec_kind sec of
       SK_Text \<Rightarrow> SecF_Coff (IMAGE_SCN_CNT_CODE OR IMAGE_SCN_MEM_EXECUTE OR IMAGE_SCN_MEM_READ)
     | SK_Data \<Rightarrow> SecF_Coff (IMAGE_SCN_CNT_INITIALIZED_DATA OR IMAGE_SCN_MEM_READ OR IMAGE_SCN_MEM_WRITE)
     | SK_UninitializedData \<Rightarrow>
         SecF_Coff (IMAGE_SCN_CNT_UNINITIALIZED_DATA OR IMAGE_SCN_MEM_READ OR IMAGE_SCN_MEM_WRITE)
     | SK_ReadOnlyData \<Rightarrow> SecF_Coff (IMAGE_SCN_CNT_INITIALIZED_DATA OR IMAGE_SCN_MEM_READ)
     | SK_ReadOnlyDataWithRel \<Rightarrow> SecF_Coff (IMAGE_SCN_CNT_INITIALIZED_DATA OR IMAGE_SCN_MEM_READ)
     | SK_ReadOnlyString \<Rightarrow> SecF_Coff (IMAGE_SCN_CNT_INITIALIZED_DATA OR IMAGE_SCN_MEM_READ)
     | SK_Debug \<Rightarrow> SecF_Coff (IMAGE_SCN_CNT_INITIALIZED_DATA OR IMAGE_SCN_MEM_READ OR IMAGE_SCN_MEM_DISCARDABLE)
     | SK_DebugString \<Rightarrow> SecF_Coff (IMAGE_SCN_CNT_INITIALIZED_DATA OR IMAGE_SCN_MEM_READ OR IMAGE_SCN_MEM_DISCARDABLE)
     | SK_Other \<Rightarrow> SecF_Coff (IMAGE_SCN_CNT_INITIALIZED_DATA OR IMAGE_SCN_MEM_READ OR IMAGE_SCN_MEM_DISCARDABLE)
     | SK_OtherString \<Rightarrow> SecF_Coff (IMAGE_SCN_CNT_INITIALIZED_DATA OR IMAGE_SCN_MEM_READ OR IMAGE_SCN_MEM_DISCARDABLE)
     | SK_Linker \<Rightarrow> SecF_Coff (IMAGE_SCN_LNK_INFO OR IMAGE_SCN_LNK_REMOVE)
     | SK_Common \<Rightarrow> SecF_None
     | SK_Tls \<Rightarrow> SecF_None
     | SK_UninitializedTls \<Rightarrow> SecF_None
     | SK_TlsVariables \<Rightarrow> SecF_None
     | SK_Note \<Rightarrow> SecF_None
     | SK_Unknown \<Rightarrow> SecF_None
     | SK_Metadata \<Rightarrow> SecF_None
     | SK_Elf _ \<Rightarrow> SecF_None)"

definition coff_symbol_flags :: "out_symbol \<Rightarrow> (section_id, symbol_id) symbol_flags" where
  "coff_symbol_flags symbol = SymF_None"

text \<open>The \<^verbatim>\<open>match\<close> of \<^verbatim>\<open>coff_translate_relocation\<close>, after the GOT and PLT kinds have been replaced.\<close>

definition coff_reloc_type ::
  "architecture \<Rightarrow> relocation_kind \<Rightarrow> relocation_encoding \<Rightarrow> u8 \<Rightarrow> i64 \<Rightarrow> (u16, string) result" where
  "coff_reloc_type architecture kind encoding sz addend =
    (case architecture of
       I386 \<Rightarrow>
         (if kind = K_Absolute \<and> sz = 16 then Ok IMAGE_REL_I386_DIR16
          else if kind = K_Relative \<and> sz = 16 then Ok IMAGE_REL_I386_REL16
          else if kind = K_Absolute \<and> sz = 32 then Ok IMAGE_REL_I386_DIR32
          else if kind = K_ImageOffset \<and> sz = 32 then Ok IMAGE_REL_I386_DIR32NB
          else if kind = K_SectionIndex \<and> sz = 16 then Ok IMAGE_REL_I386_SECTION
          else if kind = K_SectionOffset \<and> sz = 32 then Ok IMAGE_REL_I386_SECREL
          else if kind = K_SectionOffset \<and> sz = 7 then Ok IMAGE_REL_I386_SECREL7
          else if kind = K_Relative \<and> sz = 32 then Ok IMAGE_REL_I386_REL32
          else Err ''unimplemented relocation'')
     | X86_64 \<Rightarrow>
         (if kind = K_Absolute \<and> sz = 64 then Ok IMAGE_REL_AMD64_ADDR64
          else if kind = K_Absolute \<and> sz = 32 then Ok IMAGE_REL_AMD64_ADDR32
          else if kind = K_ImageOffset \<and> sz = 32 then Ok IMAGE_REL_AMD64_ADDR32NB
          else if kind = K_Relative \<and> sz = 32 then
            Ok (if addend = -5 then IMAGE_REL_AMD64_REL32_1
                else if addend = -6 then IMAGE_REL_AMD64_REL32_2
                else if addend = -7 then IMAGE_REL_AMD64_REL32_3
                else if addend = -8 then IMAGE_REL_AMD64_REL32_4
                else if addend = -9 then IMAGE_REL_AMD64_REL32_5
                else IMAGE_REL_AMD64_REL32)
          else if kind = K_SectionIndex \<and> sz = 16 then Ok IMAGE_REL_AMD64_SECTION
          else if kind = K_SectionOffset \<and> sz = 32 then Ok IMAGE_REL_AMD64_SECREL
          else if kind = K_SectionOffset \<and> sz = 7 then Ok IMAGE_REL_AMD64_SECREL7
          else Err ''unimplemented relocation'')
     | Arm \<Rightarrow>
         (if kind = K_Absolute \<and> sz = 32 then Ok IMAGE_REL_ARM_ADDR32
          else if kind = K_ImageOffset \<and> sz = 32 then Ok IMAGE_REL_ARM_ADDR32NB
          else if kind = K_Relative \<and> sz = 32 then Ok IMAGE_REL_ARM_REL32
          else if kind = K_SectionIndex \<and> sz = 16 then Ok IMAGE_REL_ARM_SECTION
          else if kind = K_SectionOffset \<and> sz = 32 then Ok IMAGE_REL_ARM_SECREL
          else Err ''unimplemented relocation'')
     | Aarch64 \<Rightarrow>
         (if kind = K_Absolute \<and> sz = 32 then Ok IMAGE_REL_ARM64_ADDR32
          else if kind = K_ImageOffset \<and> sz = 32 then Ok IMAGE_REL_ARM64_ADDR32NB
          else if kind = K_SectionIndex \<and> sz = 16 then Ok IMAGE_REL_ARM64_SECTION
          else if kind = K_SectionOffset \<and> sz = 32 then Ok IMAGE_REL_ARM64_SECREL
          else if kind = K_Absolute \<and> sz = 64 then Ok IMAGE_REL_ARM64_ADDR64
          else if kind = K_Relative \<and> sz = 32 then Ok IMAGE_REL_ARM64_REL32
          else if kind = K_Relative \<and> encoding = E_AArch64Call \<and> sz = 26 then Ok IMAGE_REL_ARM64_BRANCH26
          else Err ''unimplemented relocation'')
     | _ \<Rightarrow> Err unimplemented_architecture)"

definition coff_adjust_addend :: "architecture \<Rightarrow> out_relocation \<Rightarrow> (bool \<times> out_relocation, string) result" where
  "coff_adjust_addend architecture relocation =
    and_then (case or_flags relocation of RF_Coff typ \<Rightarrow> Ok typ | _ \<Rightarrow> Err ''invalid relocation flags'') (\<lambda>typ.
    and_then (case architecture of
        Arm \<Rightarrow> Ok (if typ = IMAGE_REL_ARM_REL32 then 4 else 0)
      | Aarch64 \<Rightarrow> Ok (if typ = IMAGE_REL_ARM64_REL32 then 4 else 0)
      | I386 \<Rightarrow> Ok (if typ = IMAGE_REL_I386_REL32 then 4 else 0)
      | X86_64 \<Rightarrow> Ok (if typ = IMAGE_REL_AMD64_REL32 then 4
            else if typ = IMAGE_REL_AMD64_REL32_1 then 5
            else if typ = IMAGE_REL_AMD64_REL32_2 then 6
            else if typ = IMAGE_REL_AMD64_REL32_3 then 7
            else if typ = IMAGE_REL_AMD64_REL32_4 then 8
            else if typ = IMAGE_REL_AMD64_REL32_5 then 9
            else 0)
      | PowerPc \<Rightarrow> Ok 0
      | PowerPc64 \<Rightarrow> Ok 0
      | _ \<Rightarrow> Err ''unimplemented relocation'') (\<lambda>offset.
    and_then (i64_add (or_addend relocation) offset) (\<lambda>addend.
    Ok (True, relocation\<lparr>or_addend := addend\<rparr>))))"

definition coff_relocation_size :: "architecture \<Rightarrow> out_relocation \<Rightarrow> (u8, string) result" where
  "coff_relocation_size architecture reloc =
    and_then (case or_flags reloc of RF_Coff typ \<Rightarrow> Ok typ | _ \<Rightarrow> Err ''unexpected relocation for size'') (\<lambda>typ.
    ok_or (case architecture of
        I386 \<Rightarrow>
          (if typ \<in> {IMAGE_REL_I386_DIR16, IMAGE_REL_I386_REL16, IMAGE_REL_I386_SECTION} then Some 16
           else if typ \<in> {IMAGE_REL_I386_DIR32, IMAGE_REL_I386_DIR32NB, IMAGE_REL_I386_SECREL,
             IMAGE_REL_I386_TOKEN, IMAGE_REL_I386_REL32} then Some 32
           else None)
      | X86_64 \<Rightarrow>
          (if typ = IMAGE_REL_AMD64_SECTION then Some 16
           else if typ \<in> {IMAGE_REL_AMD64_ADDR32, IMAGE_REL_AMD64_ADDR32NB, IMAGE_REL_AMD64_REL32,
             IMAGE_REL_AMD64_REL32_1, IMAGE_REL_AMD64_REL32_2, IMAGE_REL_AMD64_REL32_3,
             IMAGE_REL_AMD64_REL32_4, IMAGE_REL_AMD64_REL32_5, IMAGE_REL_AMD64_SECREL,
             IMAGE_REL_AMD64_TOKEN} then Some 32
           else if typ = IMAGE_REL_AMD64_ADDR64 then Some 64
           else None)
      | Arm \<Rightarrow>
          (if typ = IMAGE_REL_ARM_SECTION then Some 16
           else if typ \<in> {IMAGE_REL_ARM_ADDR32, IMAGE_REL_ARM_ADDR32NB, IMAGE_REL_ARM_TOKEN,
             IMAGE_REL_ARM_REL32, IMAGE_REL_ARM_SECREL} then Some 32
           else None)
      | Aarch64 \<Rightarrow>
          (if typ = IMAGE_REL_ARM64_SECTION then Some 16
           else if typ \<in> {IMAGE_REL_ARM64_ADDR32, IMAGE_REL_ARM64_ADDR32NB, IMAGE_REL_ARM64_SECREL,
             IMAGE_REL_ARM64_TOKEN, IMAGE_REL_ARM64_REL32} then Some 32
           else if typ = IMAGE_REL_ARM64_ADDR64 then Some 64
           else None)
      | _ \<Rightarrow> None) ''unsupported relocation for size'')"

section \<open>Mach-O\<close>

abbreviation "S_ZEROFILL \<equiv> (0x1 :: u32)"
abbreviation "S_CSTRING_LITERALS \<equiv> (0x2 :: u32)"
abbreviation "S_THREAD_LOCAL_REGULAR \<equiv> (0x11 :: u32)"
abbreviation "S_THREAD_LOCAL_ZEROFILL \<equiv> (0x12 :: u32)"
abbreviation "S_THREAD_LOCAL_VARIABLES \<equiv> (0x13 :: u32)"
abbreviation "S_ATTR_PURE_INSTRUCTIONS \<equiv> (0x80000000 :: u32)"
abbreviation "S_ATTR_DEBUG \<equiv> (0x2000000 :: u32)"
abbreviation "S_ATTR_SOME_INSTRUCTIONS \<equiv> (0x400 :: u32)"
abbreviation "N_WEAK_REF \<equiv> (0x40 :: u16)"
abbreviation "N_WEAK_DEF \<equiv> (0x80 :: u16)"
abbreviation "GENERIC_RELOC_VANILLA \<equiv> (0 :: u8)"
abbreviation "ARM_RELOC_VANILLA \<equiv> (0 :: u8)"
abbreviation "ARM64_RELOC_UNSIGNED \<equiv> (0 :: u8)"
abbreviation "ARM64_RELOC_BRANCH26 \<equiv> (2 :: u8)"
abbreviation "ARM64_RELOC_PAGE21 \<equiv> (3 :: u8)"
abbreviation "ARM64_RELOC_PAGEOFF12 \<equiv> (4 :: u8)"
abbreviation "ARM64_RELOC_ADDEND \<equiv> (10 :: u8)"
abbreviation "X86_64_RELOC_UNSIGNED \<equiv> (0 :: u8)"
abbreviation "X86_64_RELOC_SIGNED \<equiv> (1 :: u8)"
abbreviation "X86_64_RELOC_BRANCH \<equiv> (2 :: u8)"
abbreviation "X86_64_RELOC_GOT_LOAD \<equiv> (3 :: u8)"
abbreviation "X86_64_RELOC_GOT \<equiv> (4 :: u8)"
abbreviation "X86_64_RELOC_SIGNED_1 \<equiv> (6 :: u8)"
abbreviation "X86_64_RELOC_SIGNED_2 \<equiv> (7 :: u8)"
abbreviation "X86_64_RELOC_SIGNED_4 \<equiv> (8 :: u8)"

definition macho_segment_name :: "standard_segment \<Rightarrow> bytes" where
  "macho_segment_name segment =
    (case segment of
       StdSeg_Text \<Rightarrow> ascii ''__TEXT''
     | StdSeg_Data \<Rightarrow> ascii ''__DATA''
     | StdSeg_Debug \<Rightarrow> ascii ''__DWARF'')"

definition macho_section_info :: "standard_section \<Rightarrow> section_info" where
  "macho_section_info s =
    (case s of
       Std_Text \<Rightarrow> (ascii ''__TEXT'', ascii ''__text'', SK_Text, SecF_None)
     | Std_Data \<Rightarrow> (ascii ''__DATA'', ascii ''__data'', SK_Data, SecF_None)
     | Std_ReadOnlyData \<Rightarrow> (ascii ''__TEXT'', ascii ''__const'', SK_ReadOnlyData, SecF_None)
     | Std_ReadOnlyDataWithRel \<Rightarrow> (ascii ''__DATA'', ascii ''__const'', SK_ReadOnlyDataWithRel, SecF_None)
     | Std_ReadOnlyString \<Rightarrow> (ascii ''__TEXT'', ascii ''__cstring'', SK_ReadOnlyString, SecF_None)
     | Std_UninitializedData \<Rightarrow> (ascii ''__DATA'', ascii ''__bss'', SK_UninitializedData, SecF_None)
     | Std_Tls \<Rightarrow> (ascii ''__DATA'', ascii ''__thread_data'', SK_Tls, SecF_None)
     | Std_UninitializedTls \<Rightarrow> (ascii ''__DATA'', ascii ''__thread_bss'', SK_UninitializedTls, SecF_None)
     | Std_TlsVariables \<Rightarrow> (ascii ''__DATA'', ascii ''__thread_vars'', SK_TlsVariables, SecF_None)
     | Std_Common \<Rightarrow> (ascii ''__DATA'', ascii ''__common'', SK_Common, SecF_None)
     | Std_GnuProperty \<Rightarrow> ([], [], SK_Note, SecF_None))"

definition macho_section_flags :: "out_section \<Rightarrow> section_flags" where
  "macho_section_flags sec =
    (case osec_kind sec of
       SK_Text \<Rightarrow> SecF_MachO (S_ATTR_PURE_INSTRUCTIONS OR S_ATTR_SOME_INSTRUCTIONS)
     | SK_Data \<Rightarrow> SecF_MachO 0
     | SK_ReadOnlyData \<Rightarrow> SecF_MachO 0
     | SK_ReadOnlyDataWithRel \<Rightarrow> SecF_MachO 0
     | SK_ReadOnlyString \<Rightarrow> SecF_MachO S_CSTRING_LITERALS
     | SK_UninitializedData \<Rightarrow> SecF_MachO S_ZEROFILL
     | SK_Common \<Rightarrow> SecF_MachO S_ZEROFILL
     | SK_Tls \<Rightarrow> SecF_MachO S_THREAD_LOCAL_REGULAR
     | SK_UninitializedTls \<Rightarrow> SecF_MachO S_THREAD_LOCAL_ZEROFILL
     | SK_TlsVariables \<Rightarrow> SecF_MachO S_THREAD_LOCAL_VARIABLES
     | SK_Debug \<Rightarrow> SecF_MachO S_ATTR_DEBUG
     | SK_DebugString \<Rightarrow> SecF_MachO S_ATTR_DEBUG
     | SK_OtherString \<Rightarrow> SecF_MachO S_CSTRING_LITERALS
     | SK_Other \<Rightarrow> SecF_MachO 0
     | SK_Linker \<Rightarrow> SecF_MachO 0
     | SK_Metadata \<Rightarrow> SecF_MachO 0
     | SK_Note \<Rightarrow> SecF_None
     | SK_Unknown \<Rightarrow> SecF_None
     | SK_Elf _ \<Rightarrow> SecF_None)"

definition macho_symbol_flags :: "out_symbol \<Rightarrow> (section_id, symbol_id) symbol_flags" where
  "macho_symbol_flags symbol =
    SymF_MachO (if os_weak symbol
      then (if Symbol_is_undefined symbol then 0 OR N_WEAK_REF else 0 OR N_WEAK_DEF)
      else 0)"

definition macho_reloc_length :: "u8 \<Rightarrow> (u8, string) result" where
  "macho_reloc_length sz =
    (if sz = 8 then Ok 0 else if sz = 16 then Ok 1 else if sz = 32 then Ok 2 else if sz = 64 then Ok 3
     else Err ''unimplemented reloc size'')"

definition macho_reloc_type ::
  "architecture \<Rightarrow> relocation_kind \<Rightarrow> relocation_encoding \<Rightarrow> (bool \<times> u8, string) result" where
  "macho_reloc_type architecture kind encoding =
    (case architecture of
       I386 \<Rightarrow> (if kind = K_Absolute then Ok (False, GENERIC_RELOC_VANILLA) else Err ''unimplemented relocation'')
     | Arm \<Rightarrow> (if kind = K_Absolute then Ok (False, ARM_RELOC_VANILLA) else Err ''unimplemented relocation'')
     | X86_64 \<Rightarrow>
         (if kind = K_Absolute \<and> encoding = E_Generic then Ok (False, X86_64_RELOC_UNSIGNED)
          else if kind = K_Relative \<and> encoding = E_Generic then Ok (True, X86_64_RELOC_SIGNED)
          else if kind = K_Relative \<and> encoding = E_X86RipRelative then Ok (True, X86_64_RELOC_SIGNED)
          else if kind = K_Relative \<and> encoding = E_X86Branch then Ok (True, X86_64_RELOC_BRANCH)
          else if kind = K_PltRelative \<and> encoding = E_X86Branch then Ok (True, X86_64_RELOC_BRANCH)
          else if kind = K_GotRelative \<and> encoding = E_Generic then Ok (True, X86_64_RELOC_GOT)
          else if kind = K_GotRelative \<and> encoding = E_X86RipRelativeMovq then Ok (True, X86_64_RELOC_GOT_LOAD)
          else Err ''unimplemented relocation'')
     | Aarch64 \<Rightarrow>
         (if kind = K_Absolute \<and> encoding = E_Generic then Ok (False, ARM64_RELOC_UNSIGNED)
          else if kind = K_Relative \<and> encoding = E_AArch64Call then Ok (True, ARM64_RELOC_BRANCH26)
          else Err ''unimplemented relocation'')
     | Aarch64_Ilp32 \<Rightarrow>
         (if kind = K_Absolute \<and> encoding = E_Generic then Ok (False, ARM64_RELOC_UNSIGNED)
          else if kind = K_Relative \<and> encoding = E_AArch64Call then Ok (True, ARM64_RELOC_BRANCH26)
          else Err ''unimplemented relocation'')
     | _ \<Rightarrow> Err unimplemented_architecture)"

definition macho_translate_relocation :: "architecture \<Rightarrow> relocation_flags \<Rightarrow> (relocation_flags, string) result" where
  "macho_translate_relocation architecture flags =
    (case flags of
       RF_Generic kind encoding sz \<Rightarrow>
         (let sz = (if architecture = Aarch64 \<and> (sz = 12 \<or> sz = 21 \<or> sz = 26) then 32 else sz)
          in and_then (macho_reloc_length sz) (\<lambda>r_length.
             and_then (macho_reloc_type architecture kind encoding) (\<lambda>(r_pcrel, r_type).
             Ok (RF_MachO r_type r_pcrel r_length))))
     | flags \<Rightarrow> Ok flags)"

definition macho_adjust_addend :: "architecture \<Rightarrow> out_relocation \<Rightarrow> (bool \<times> out_relocation, string) result" where
  "macho_adjust_addend architecture relocation =
    and_then (case or_flags relocation of
        RF_MachO r_type r_pcrel _ \<Rightarrow> Ok (r_type, r_pcrel)
      | _ \<Rightarrow> Err ''invalid relocation flags'') (\<lambda>(r_type, r_pcrel).
    and_then (if r_pcrel
        then let pcrel_offset = (case architecture of
                I386 \<Rightarrow> 4
              | X86_64 \<Rightarrow> (if r_type = X86_64_RELOC_SIGNED_1 then 5
                  else if r_type = X86_64_RELOC_SIGNED_2 then 6
                  else if r_type = X86_64_RELOC_SIGNED_4 then 8
                  else 4)
              | _ \<Rightarrow> 0)
             in and_then (i64_add (or_addend relocation) pcrel_offset) (\<lambda>addend.
                Ok (relocation\<lparr>or_addend := addend\<rparr>))
        else Ok relocation) (\<lambda>relocation.
    let implicit = (if architecture = Aarch64
          then \<not> (r_type = ARM64_RELOC_BRANCH26 \<or> r_type = ARM64_RELOC_PAGE21 \<or> r_type = ARM64_RELOC_PAGEOFF12)
          else True)
    in Ok (implicit, relocation)))"

text \<open>The shift of an \<^verbatim>\<open>u8\<close> panics for amounts from 8 on.\<close>

definition macho_relocation_size :: "out_relocation \<Rightarrow> (u8, string) result" where
  "macho_relocation_size reloc =
    (case or_flags reloc of
       RF_MachO _ _ r_length \<Rightarrow> word_shl 8 (unat r_length)
     | _ \<Rightarrow> Err ''invalid relocation flags'')"

section \<open>XCOFF\<close>

abbreviation "STYP_TEXT \<equiv> (0x20 :: u16)"
abbreviation "STYP_DATA \<equiv> (0x40 :: u16)"
abbreviation "STYP_BSS \<equiv> (0x80 :: u16)"
abbreviation "STYP_INFO \<equiv> (0x200 :: u16)"
abbreviation "STYP_TDATA \<equiv> (0x400 :: u16)"
abbreviation "STYP_TBSS \<equiv> (0x800 :: u16)"
abbreviation "STYP_DEBUG \<equiv> (0x2000 :: u16)"
abbreviation "C_FILE \<equiv> (103 :: u8)"
abbreviation "C_EXT \<equiv> (2 :: u8)"
abbreviation "C_WEAKEXT \<equiv> (111 :: u8)"
abbreviation "C_STAT \<equiv> (3 :: u8)"
abbreviation "C_HIDEXT \<equiv> (107 :: u8)"
abbreviation "XTY_SD \<equiv> (1 :: u8)"
abbreviation "XTY_CM \<equiv> (3 :: u8)"
abbreviation "XMC_PR \<equiv> (0 :: u8)"
abbreviation "XMC_RO \<equiv> (1 :: u8)"
abbreviation "XMC_RW \<equiv> (5 :: u8)"
abbreviation "XMC_BS \<equiv> (9 :: u8)"
abbreviation "XMC_TL \<equiv> (20 :: u8)"
abbreviation "XMC_UL \<equiv> (21 :: u8)"
abbreviation "R_POS \<equiv> (0 :: u8)"
abbreviation "R_REL \<equiv> (2 :: u8)"
abbreviation "R_TOC \<equiv> (3 :: u8)"

definition xcoff_section_info :: "standard_section \<Rightarrow> section_info" where
  "xcoff_section_info s =
    (case s of
       Std_Text \<Rightarrow> ([], ascii ''.text'', SK_Text, SecF_None)
     | Std_Data \<Rightarrow> ([], ascii ''.data'', SK_Data, SecF_None)
     | Std_ReadOnlyData \<Rightarrow> ([], ascii ''.rdata'', SK_ReadOnlyData, SecF_None)
     | Std_ReadOnlyDataWithRel \<Rightarrow> ([], ascii ''.rdata'', SK_ReadOnlyData, SecF_None)
     | Std_ReadOnlyString \<Rightarrow> ([], ascii ''.rdata'', SK_ReadOnlyData, SecF_None)
     | Std_UninitializedData \<Rightarrow> ([], ascii ''.bss'', SK_UninitializedData, SecF_None)
     | Std_Tls \<Rightarrow> ([], ascii ''.tdata'', SK_Tls, SecF_None)
     | Std_UninitializedTls \<Rightarrow> ([], ascii ''.tbss'', SK_UninitializedTls, SecF_None)
     | Std_TlsVariables \<Rightarrow> ([], [], SK_TlsVariables, SecF_None)
     | Std_Common \<Rightarrow> ([], [], SK_Common, SecF_None)
     | Std_GnuProperty \<Rightarrow> ([], [], SK_Note, SecF_None))"

definition xcoff_section_flags :: "out_section \<Rightarrow> section_flags" where
  "xcoff_section_flags sec =
    (case osec_kind sec of
       SK_Text \<Rightarrow> SecF_Xcoff (ucast STYP_TEXT)
     | SK_ReadOnlyData \<Rightarrow> SecF_Xcoff (ucast STYP_TEXT)
     | SK_ReadOnlyString \<Rightarrow> SecF_Xcoff (ucast STYP_TEXT)
     | SK_ReadOnlyDataWithRel \<Rightarrow> SecF_Xcoff (ucast STYP_TEXT)
     | SK_Data \<Rightarrow> SecF_Xcoff (ucast STYP_DATA)
     | SK_UninitializedData \<Rightarrow> SecF_Xcoff (ucast STYP_BSS)
     | SK_Tls \<Rightarrow> SecF_Xcoff (ucast STYP_TDATA)
     | SK_UninitializedTls \<Rightarrow> SecF_Xcoff (ucast STYP_TBSS)
     | SK_OtherString \<Rightarrow> SecF_Xcoff (ucast STYP_INFO)
     | SK_Debug \<Rightarrow> SecF_Xcoff (ucast STYP_DEBUG)
     | SK_DebugString \<Rightarrow> SecF_Xcoff (ucast STYP_DEBUG)
     | SK_Other \<Rightarrow> SecF_Xcoff 0
     | SK_Metadata \<Rightarrow> SecF_Xcoff 0
     | SK_Note \<Rightarrow> SecF_None
     | SK_Linker \<Rightarrow> SecF_None
     | SK_Common \<Rightarrow> SecF_None
     | SK_Unknown \<Rightarrow> SecF_None
     | SK_TlsVariables \<Rightarrow> SecF_None
     | SK_Elf _ \<Rightarrow> SecF_None)"

definition xcoff_symbol_class :: "out_symbol \<Rightarrow> u8 option" where
  "xcoff_symbol_class symbol =
    (if os_kind symbol = SymK_File then Some C_FILE
     else if os_kind symbol \<in> {SymK_Text, SymK_Data, SymK_Tls}
     then Some (if Symbol_is_local symbol then C_STAT else if os_weak symbol then C_WEAKEXT else C_EXT)
     else None)"

definition xcoff_is_csect :: "u8 \<Rightarrow> bool" where
  "xcoff_is_csect n_sclass \<longleftrightarrow> n_sclass = C_EXT \<or> n_sclass = C_WEAKEXT \<or> n_sclass = C_HIDEXT"

text \<open>The kind of the section is looked up by the id of the symbol, which may be out of range.\<close>

definition xcoff_symbol_flags :: "out_object \<Rightarrow> out_symbol \<Rightarrow> ((section_id, symbol_id) symbol_flags, string) result" where
  "xcoff_symbol_flags self symbol =
    (case xcoff_symbol_class symbol of
       None \<Rightarrow> Ok SymF_None
     | Some n_sclass \<Rightarrow>
         if xcoff_is_csect n_sclass
         then and_then (case os_section symbol of
                  SS_Section i \<Rightarrow> and_then (Object_section i self) (\<lambda>sec. Ok (osec_kind sec))
                | _ \<Rightarrow> Ok SK_Unknown) (\<lambda>section_kind.
              Ok (case os_kind symbol of
                  SymK_Text \<Rightarrow> SymF_Xcoff n_sclass XTY_SD XMC_PR None
                | SymK_Data \<Rightarrow>
                    if section_kind = SK_UninitializedData then SymF_Xcoff n_sclass XTY_CM XMC_BS None
                    else if section_kind = SK_ReadOnlyData then SymF_Xcoff n_sclass XTY_SD XMC_RO None
                    else SymF_Xcoff n_sclass XTY_SD XMC_RW None
                | SymK_Tls \<Rightarrow>
                    if section_kind = SK_UninitializedTls then SymF_Xcoff n_sclass XTY_CM XMC_UL None
                    else SymF_Xcoff n_sclass XTY_SD XMC_TL None
                | _ \<Rightarrow> SymF_None))
         else Ok (SymF_Xcoff n_sclass 0 0 None))"

text \<open>The subtraction of \<^verbatim>\<open>size - 1\<close> underflows for the size 0.\<close>

definition xcoff_translate_relocation :: "relocation_flags \<Rightarrow> (relocation_flags, string) result" where
  "xcoff_translate_relocation flags =
    (case flags of
       RF_Generic kind encoding sz \<Rightarrow>
         and_then (case kind of
             K_Absolute \<Rightarrow> Ok R_POS
           | K_Relative \<Rightarrow> Ok R_REL
           | K_Got \<Rightarrow> Ok R_TOC
           | _ \<Rightarrow> Err ''unimplemented relocation'') (\<lambda>r_rtype.
         and_then (word_sub sz 1) (\<lambda>r_rsize.
         Ok (RF_Xcoff r_rtype r_rsize)))
     | flags \<Rightarrow> Ok flags)"

definition xcoff_adjust_addend :: "out_relocation \<Rightarrow> (bool \<times> out_relocation, string) result" where
  "xcoff_adjust_addend relocation =
    and_then (case or_flags relocation of
        RF_Xcoff r_rtype _ \<Rightarrow> Ok r_rtype
      | _ \<Rightarrow> Err ''invalid relocation flags'') (\<lambda>r_rtype.
    and_then (if r_rtype = R_REL
        then and_then (i64_add (or_addend relocation) 4) (\<lambda>addend. Ok (relocation\<lparr>or_addend := addend\<rparr>))
        else Ok relocation) (\<lambda>relocation.
    Ok (True, relocation)))"

definition xcoff_relocation_size :: "out_relocation \<Rightarrow> (u8, string) result" where
  "xcoff_relocation_size reloc =
    (case or_flags reloc of
       RF_Xcoff _ r_rsize \<Rightarrow> word_add r_rsize 1
     | _ \<Rightarrow> Err ''unexpected relocation'')"

end
