(* ===== verification/Object_Writer.thy ===== *)
theory Object_Writer
  imports Object_Formats Elf_Notes
begin

text \<open>
  \<^verbatim>\<open>src/write/mod.rs\<close>: the operations of the object writer that depend on the file format, and the
  parts of the back ends that change the object (stub symbols of COFF, thread variables of Mach-O, GNU
  properties of ELF). A format without a back end panics (\<^verbatim>\<open>unimplemented!()\<close>).
\<close>

section \<open>Sections\<close>

definition Object_segment_name :: "standard_segment \<Rightarrow> out_object \<Rightarrow> (bytes, string) result" where
  "Object_segment_name segment self =
    (case obj_format self of
       BF_Coff \<Rightarrow> Ok []
     | BF_Elf \<Rightarrow> Ok []
     | BF_MachO \<Rightarrow> Ok (macho_segment_name segment)
     | _ \<Rightarrow> Panic)"

definition Object_section_info :: "standard_section \<Rightarrow> out_object \<Rightarrow> (section_info, string) result" where
  "Object_section_info s self =
    (case obj_format self of
       BF_Coff \<Rightarrow> Ok (coff_section_info s)
     | BF_Elf \<Rightarrow> Ok (elf_section_info s)
     | BF_MachO \<Rightarrow> Ok (macho_section_info s)
     | BF_Xcoff \<Rightarrow> Ok (xcoff_section_info s)
     | _ \<Rightarrow> Panic)"

text \<open>The loop of \<^verbatim>\<open>add_section\<close> that registers a section for every standard section it matches.\<close>

fun register_standard_sections :: "section_id \<Rightarrow> out_section \<Rightarrow> standard_section list \<Rightarrow> unit object_op" where
  "register_standard_sections i sec [] = state_lift (Ok ())"
| "register_standard_sections i sec (s # rest) =
    state_then (state_get (\<lambda>self.
        if obj_standard_sections self s = None
        then and_then (Object_section_info s self) (\<lambda>(segment, name, kind, _).
          Ok (segment = osec_segment sec \<and> name = osec_name sec \<and> kind = osec_kind sec))
        else Ok False)) (\<lambda>matches.
    state_then (if matches
        then state_modify (\<lambda>self. self\<lparr>obj_standard_sections := (obj_standard_sections self)(s \<mapsto> i)\<rparr>)
        else state_lift (Ok ())) (\<lambda>_.
    register_standard_sections i sec rest))"

definition new_section :: "bytes \<Rightarrow> bytes \<Rightarrow> section_kind \<Rightarrow> out_section" where
  "new_section segment name kind =
    \<lparr>osec_segment = segment, osec_name = name, osec_kind = kind, osec_size = 0, osec_align = 1,
     osec_data = [], osec_relocations = [], osec_symbol = None, osec_flags = SecF_None\<rparr>"

definition Object_add_section :: "bytes \<Rightarrow> bytes \<Rightarrow> section_kind \<Rightarrow> section_id object_op" where
  "Object_add_section segment name kind =
    state_then (state_get (\<lambda>self. Ok (length (obj_sections self)))) (\<lambda>i.
    state_then (state_modify (\<lambda>self.
        self\<lparr>obj_sections := obj_sections self @ [new_section segment name kind]\<rparr>)) (\<lambda>_.
    state_then (register_standard_sections i (new_section segment name kind) StandardSection_all) (\<lambda>_.
    state_lift (Ok i))))"

definition Object_section_id :: "standard_section \<Rightarrow> section_id object_op" where
  "Object_section_id s =
    (\<lambda>self. case obj_standard_sections self s of
       Some i \<Rightarrow> (Ok i, self)
     | None \<Rightarrow>
         state_then (state_get (Object_section_info s)) (\<lambda>(segment, name, kind, flags).
         state_then (Object_add_section segment name kind) (\<lambda>i.
         state_then (Object_section_mut i (state_modify (\<lambda>sec. sec\<lparr>osec_flags := flags\<rparr>))) (\<lambda>_.
         state_lift (Ok i)))) self)"

definition Object_subsection_name :: "bytes \<Rightarrow> bytes \<Rightarrow> out_object \<Rightarrow> (bytes, string) result" where
  "Object_subsection_name sec val self =
    debug_assert (\<not> Object_has_subsections_via_symbols self)
      (case obj_format self of
         BF_Coff \<Rightarrow> Ok (coff_subsection_name sec val)
       | BF_Elf \<Rightarrow> Ok (elf_subsection_name sec val)
       | _ \<Rightarrow> Panic)"

definition Object_subsection_info :: "standard_section \<Rightarrow> bytes \<Rightarrow> out_object \<Rightarrow> (section_info, string) result" where
  "Object_subsection_info s val self =
    and_then (Object_section_info s self) (\<lambda>(segment, sec, kind, flags).
    and_then (Object_subsection_name sec val self) (\<lambda>name.
    Ok (segment, name, kind, flags)))"

definition Object_add_subsection :: "standard_section \<Rightarrow> bytes \<Rightarrow> section_id object_op" where
  "Object_add_subsection s name =
    (\<lambda>self. if Object_has_subsections_via_symbols self then Object_section_id s self
     else
       state_then (state_get (Object_subsection_info s name)) (\<lambda>(segment, name, kind, flags).
       state_then (Object_add_section segment name kind) (\<lambda>i.
       state_then (Object_section_mut i (state_modify (\<lambda>sec. sec\<lparr>osec_flags := flags\<rparr>))) (\<lambda>_.
       state_lift (Ok i)))) self)"

section \<open>Flags\<close>

definition Object_default_section_flags :: "out_object \<Rightarrow> out_section \<Rightarrow> section_flags" where
  "Object_default_section_flags self sec =
    (case obj_format self of
       BF_Coff \<Rightarrow> coff_section_flags sec
     | BF_Elf \<Rightarrow> elf_section_flags sec
     | BF_MachO \<Rightarrow> macho_section_flags sec
     | BF_Xcoff \<Rightarrow> xcoff_section_flags sec
     | _ \<Rightarrow> SecF_None)"

definition Object_section_flags :: "out_object \<Rightarrow> out_section \<Rightarrow> section_flags" where
  "Object_section_flags self sec =
    (if osec_flags sec \<noteq> SecF_None then osec_flags sec else Object_default_section_flags self sec)"

text \<open>\<^verbatim>\<open>section_flags_mut\<close> and \<^verbatim>\<open>symbol_flags_mut\<close> with what the caller does to the flags.\<close>

definition Object_section_flags_mut :: "section_id \<Rightarrow> (section_flags \<Rightarrow> section_flags) \<Rightarrow> unit object_op" where
  "Object_section_flags_mut i f =
    state_then (state_get (Object_section i)) (\<lambda>sec.
    if osec_flags sec \<noteq> SecF_None
    then Object_section_mut i (state_modify (osec_flags_update f))
    else
      state_then (state_get (\<lambda>self. Ok (Object_default_section_flags self sec))) (\<lambda>flags.
      state_then (Object_section_mut i (state_modify (\<lambda>sec. sec\<lparr>osec_flags := flags\<rparr>))) (\<lambda>_.
      Object_section_mut i (state_modify (osec_flags_update f)))))"

definition Object_default_symbol_flags ::
  "out_object \<Rightarrow> out_symbol \<Rightarrow> ((section_id, symbol_id) symbol_flags, string) result" where
  "Object_default_symbol_flags self symbol =
    (case obj_format self of
       BF_Coff \<Rightarrow> Ok (coff_symbol_flags symbol)
     | BF_Elf \<Rightarrow> Ok (elf_symbol_flags symbol)
     | BF_MachO \<Rightarrow> Ok (macho_symbol_flags symbol)
     | BF_Xcoff \<Rightarrow> xcoff_symbol_flags self symbol
     | _ \<Rightarrow> Ok SymF_None)"

definition Object_symbol_flags ::
  "out_object \<Rightarrow> out_symbol \<Rightarrow> ((section_id, symbol_id) symbol_flags, string) result" where
  "Object_symbol_flags self symbol =
    (if os_flags symbol \<noteq> SymF_None then Ok (os_flags symbol) else Object_default_symbol_flags self symbol)"

definition Object_symbol_flags_mut ::
  "symbol_id \<Rightarrow> ((section_id, symbol_id) symbol_flags \<Rightarrow> (section_id, symbol_id) symbol_flags) \<Rightarrow> unit object_op" where
  "Object_symbol_flags_mut i f =
    state_then (state_get (Object_symbol i)) (\<lambda>symbol.
    if os_flags symbol \<noteq> SymF_None
    then Object_symbol_mut i (state_modify (os_flags_update f))
    else
      state_then (state_get (\<lambda>self. Object_default_symbol_flags self symbol)) (\<lambda>flags.
      state_then (Object_symbol_mut i (state_modify (\<lambda>s. s\<lparr>os_flags := flags\<rparr>))) (\<lambda>_.
      Object_symbol_mut i (state_modify (os_flags_update f)))))"

section \<open>Relocations\<close>

definition Object_adjust_addend :: "out_object \<Rightarrow> out_relocation \<Rightarrow> (bool \<times> out_relocation, string) result" where
  "Object_adjust_addend self relocation =
    (case obj_format self of
       BF_Coff \<Rightarrow> coff_adjust_addend (obj_architecture self) relocation
     | BF_Elf \<Rightarrow> and_then (elf_adjust_addend (obj_architecture self)) (\<lambda>implicit. Ok (implicit, relocation))
     | BF_MachO \<Rightarrow> macho_adjust_addend (obj_architecture self) relocation
     | BF_Xcoff \<Rightarrow> xcoff_adjust_addend relocation
     | _ \<Rightarrow> Panic)"

definition Object_relocation_size :: "out_object \<Rightarrow> out_relocation \<Rightarrow> (u8, string) result" where
  "Object_relocation_size self relocation =
    (case obj_format self of
       BF_Coff \<Rightarrow> coff_relocation_size (obj_architecture self) relocation
     | BF_Elf \<Rightarrow> elf_relocation_size (obj_architecture self) (or_flags relocation)
     | BF_MachO \<Rightarrow> macho_relocation_size relocation
     | BF_Xcoff \<Rightarrow> xcoff_relocation_size relocation
     | _ \<Rightarrow> Panic)"

definition write_addend_at :: "u8 \<Rightarrow> endianness \<Rightarrow> out_relocation \<Rightarrow> bytes \<Rightarrow> (bytes, string) result" where
  "write_addend_at sz e relocation data =
    (if sz = 32
     then read_error (write_at data (unat (or_offset relocation)) (U_new e (ucast (or_addend relocation) :: u32)))
       ''invalid relocation offset''
     else if sz = 64
     then read_error (write_at data (unat (or_offset relocation)) (U_new e (or_addend relocation :: u64)))
       ''invalid relocation offset''
     else Err ''unimplemented relocation addend'')"

definition Object_write_relocation_addend :: "section_id \<Rightarrow> out_relocation \<Rightarrow> unit object_op" where
  "Object_write_relocation_addend i relocation =
    state_then (state_get (\<lambda>self. Object_relocation_size self relocation)) (\<lambda>sz.
    state_then (state_get (\<lambda>self. Ok (obj_endian self))) (\<lambda>e.
    Object_section_mut i (
      state_then (state_get Section_data) (\<lambda>data.
      state_then (state_lift (write_addend_at sz e relocation data)) (\<lambda>data.
      state_modify (\<lambda>sec. sec\<lparr>osec_data := data\<rparr>))))))"

definition is_got_relative :: "relocation_flags \<Rightarrow> bool" where
  "is_got_relative flags = (case flags of RF_Generic kind _ _ \<Rightarrow> kind = K_GotRelative | _ \<Rightarrow> False)"

lemma state_then_fun_cong [fundef_cong]:
  "m s = m' s \<Longrightarrow> (\<And>a s'. m' s = (Ok a, s') \<Longrightarrow> f a s' = f' a s') \<Longrightarrow> s = t \<Longrightarrow>
    state_then m f s = state_then m' f' t"
  by (auto simp: state_then_def split: prod.splits result.splits)

text \<open>
  A GOT-relative relocation of COFF refers to a stub that holds the address of the symbol. The stub is
  filled by an absolute relocation, for which \<^verbatim>\<open>add_relocation\<close> calls itself.
\<close>

function (sequential) Object_add_relocation :: "section_id \<Rightarrow> out_relocation \<Rightarrow> unit object_op"
  and coff_translate_relocation :: "out_relocation \<Rightarrow> out_relocation object_op"
  and coff_add_stub_symbol :: "symbol_id \<Rightarrow> symbol_id object_op" where
  "Object_add_relocation i relocation self =
    state_then (case obj_format self of
        BF_Coff \<Rightarrow> coff_translate_relocation relocation
      | BF_Elf \<Rightarrow> state_lift (and_then (elf_translate_relocation (obj_architecture self) (or_flags relocation)) (\<lambda>flags.
          Ok (relocation\<lparr>or_flags := flags\<rparr>)))
      | BF_MachO \<Rightarrow> state_lift (and_then (macho_translate_relocation (obj_architecture self) (or_flags relocation)) (\<lambda>flags.
          Ok (relocation\<lparr>or_flags := flags\<rparr>)))
      | BF_Xcoff \<Rightarrow> state_lift (and_then (xcoff_translate_relocation (or_flags relocation)) (\<lambda>flags.
          Ok (relocation\<lparr>or_flags := flags\<rparr>)))
      | _ \<Rightarrow> state_lift Panic) (\<lambda>relocation.
    state_then (state_get (\<lambda>self. Object_adjust_addend self relocation)) (\<lambda>(implicit, relocation).
    state_then (if implicit \<and> or_addend relocation \<noteq> 0
        then state_then (Object_write_relocation_addend i relocation) (\<lambda>_.
          state_lift (Ok (relocation\<lparr>or_addend := 0\<rparr>)))
        else state_lift (Ok relocation)) (\<lambda>relocation.
    Object_section_mut i (state_modify (\<lambda>sec.
      sec\<lparr>osec_relocations := osec_relocations sec @ [relocation]\<rparr>))))) self"
| "coff_translate_relocation reloc self =
    (case or_flags reloc of
       RF_Generic kind encoding sz \<Rightarrow>
         state_then (if kind = K_GotRelative
             then state_then (coff_add_stub_symbol (or_symbol reloc)) (\<lambda>stub.
               state_lift (Ok (K_Relative, reloc\<lparr>or_symbol := stub\<rparr>)))
             else if kind = K_PltRelative then state_lift (Ok (K_Relative, reloc))
             else state_lift (Ok (kind, reloc))) (\<lambda>(kind, reloc).
         state_then (state_get (\<lambda>self. coff_reloc_type (obj_architecture self) kind encoding sz (or_addend reloc))) (\<lambda>typ.
         state_lift (Ok (reloc\<lparr>or_flags := RF_Coff typ\<rparr>)))) self
     | _ \<Rightarrow> (Ok reloc, self))"
| "coff_add_stub_symbol symbol_id self =
    (case obj_stub_symbols self symbol_id of
       Some stub_id \<Rightarrow> (Ok stub_id, self)
     | None \<Rightarrow>
         state_then (state_get (\<lambda>self. and_then (unwrap (Architecture_address_size (obj_architecture self))) (\<lambda>s.
             Ok (AddressSize_bytes s)))) (\<lambda>stub_size.
         state_then (Object_add_section [] (ascii ''.rdata$.refptr'') SK_ReadOnlyData) (\<lambda>section_id.
         state_then (Object_section_mut section_id (Section_set_data (replicate (unat stub_size) 0) (ucast stub_size))) (\<lambda>_.
         state_then (state_lift (word_mul stub_size 8)) (\<lambda>bits.
         state_then (Object_add_relocation section_id
             \<lparr>or_offset = 0, or_symbol = symbol_id, or_addend = 0,
              or_flags = RF_Generic K_Absolute E_Generic bits\<rparr>) (\<lambda>_.
         state_then (state_get (Object_symbol symbol_id)) (\<lambda>symbol.
         state_then (Object_add_raw_symbol
             \<lparr>os_name = ascii ''.refptr.'' @ os_name symbol, os_value = 0, os_size = ucast stub_size,
              os_kind = SymK_Data, os_scope = Scope_Compilation, os_weak = False,
              os_section = SS_Section section_id, os_flags = SymF_None\<rparr>) (\<lambda>stub_id.
         state_then (state_modify (\<lambda>self.
             self\<lparr>obj_stub_symbols := (obj_stub_symbols self)(symbol_id \<mapsto> stub_id)\<rparr>)) (\<lambda>_.
         state_lift (Ok stub_id))))))))) self)"
  by pat_completeness auto

termination
  by (relation "measure (\<lambda>x. case x of
        Inl (i, reloc, self) \<Rightarrow> (if is_got_relative (or_flags reloc) then 5 else 2 :: nat)
      | Inr (Inl (reloc, self)) \<Rightarrow> (if is_got_relative (or_flags reloc) then 4 else 1)
      | Inr (Inr (symbol_id, self)) \<Rightarrow> 3)")
    (auto simp: is_got_relative_def)

declare Object_add_relocation.simps [simp del] coff_translate_relocation.simps [simp del]
  coff_add_stub_symbol.simps [simp del]

section \<open>Symbol data\<close>

definition macho_tlv_bootstrap :: "symbol_id object_op" where
  "macho_tlv_bootstrap =
    (\<lambda>self. case obj_tlv_bootstrap self of
       Some i \<Rightarrow> (Ok i, self)
     | None \<Rightarrow>
         state_then (Object_add_symbol
             \<lparr>os_name = ascii ''_tlv_bootstrap'', os_value = 0, os_size = 0, os_kind = SymK_Text,
              os_scope = Scope_Dynamic, os_weak = False, os_section = SS_Undefined,
              os_flags = SymF_None\<rparr>) (\<lambda>i.
         state_then (state_modify (\<lambda>self. self\<lparr>obj_tlv_bootstrap := Some i\<rparr>)) (\<lambda>_.
         state_lift (Ok i))) self)"

definition pointer_relocation :: "u64 \<Rightarrow> symbol_id \<Rightarrow> u8 \<Rightarrow> out_relocation" where
  "pointer_relocation offset symbol bits =
    \<lparr>or_offset = offset, or_symbol = symbol, or_addend = 0,
     or_flags = RF_Generic K_Absolute E_Generic bits\<rparr>"

text \<open>
  The parts of \<^verbatim>\<open>macho_add_thread_var\<close>: the relocations of the entry and the update of the symbol, and
  before them the entry itself.
\<close>

definition macho_tlv_fill :: "symbol_id \<Rightarrow> symbol_id \<Rightarrow> section_id \<Rightarrow> u8 \<Rightarrow> u64 \<Rightarrow> u64 \<Rightarrow> symbol_id object_op" where
  "macho_tlv_fill symbol_id init_symbol_id sec address_size sz offset =
    state_then macho_tlv_bootstrap (\<lambda>tlv_bootstrap.
    state_then (state_lift (word_mul address_size 8)) (\<lambda>bits.
    state_then (state_unwrap (Object_add_relocation sec (pointer_relocation offset tlv_bootstrap bits))) (\<lambda>_.
    state_then (state_lift (and_then (word_mul (ucast address_size) 2) (word_add offset))) (\<lambda>init_offset.
    state_then (state_unwrap (Object_add_relocation sec (pointer_relocation init_offset init_symbol_id bits))) (\<lambda>_.
    state_then (Object_symbol_mut symbol_id (state_modify (\<lambda>s.
        s\<lparr>os_value := offset, os_size := sz, os_section := SS_Section sec\<rparr>))) (\<lambda>_.
    state_lift (Ok init_symbol_id)))))))"

definition macho_tlv_entry :: "symbol_id \<Rightarrow> symbol_id \<Rightarrow> symbol_id object_op" where
  "macho_tlv_entry symbol_id init_symbol_id =
    state_then (Object_section_id Std_TlsVariables) (\<lambda>sec.
    state_then (state_get (\<lambda>self. and_then (unwrap (Architecture_address_size (obj_architecture self))) (\<lambda>s.
        Ok (AddressSize_bytes s)))) (\<lambda>address_size.
    state_then (state_lift (word_mul (ucast address_size :: u64) 3)) (\<lambda>sz.
    state_then (Object_append_section_data sec (replicate (unat sz) 0) (ucast address_size)) (\<lambda>offset.
    macho_tlv_fill symbol_id init_symbol_id sec address_size sz offset))))"

definition macho_add_thread_var :: "symbol_id \<Rightarrow> symbol_id object_op" where
  "macho_add_thread_var symbol_id =
    state_then (state_get (Object_symbol symbol_id)) (\<lambda>symbol.
    if os_kind symbol \<noteq> SymK_Tls then state_lift (Ok symbol_id)
    else
      state_then (Object_add_raw_symbol
          \<lparr>os_name = os_name symbol @ ascii ''$tlv$init'', os_value = 0, os_size = 0, os_kind = SymK_Tls,
           os_scope = Scope_Compilation, os_weak = False, os_section = SS_Undefined,
           os_flags = SymF_None\<rparr>)
        (macho_tlv_entry symbol_id))"

definition Object_set_symbol_data :: "symbol_id \<Rightarrow> section_id \<Rightarrow> u64 \<Rightarrow> u64 \<Rightarrow> unit object_op" where
  "Object_set_symbol_data symbol_id sec offset sz =
    state_then (state_get (Object_symbol symbol_id)) (\<lambda>symbol.
    state_then (state_lift (debug_assert (os_scope symbol \<noteq> Scope_Unknown) (Ok ()))) (\<lambda>_.
    state_then (state_get (\<lambda>self. Ok (obj_format self))) (\<lambda>fmt.
    state_then (if fmt = BF_MachO then macho_add_thread_var symbol_id else state_lift (Ok symbol_id)) (\<lambda>symbol_id.
    Object_symbol_mut symbol_id (state_modify (\<lambda>s.
      s\<lparr>os_value := offset, os_size := sz, os_section := SS_Section sec\<rparr>))))))"

definition Object_add_symbol_data :: "symbol_id \<Rightarrow> section_id \<Rightarrow> bytes \<Rightarrow> u64 \<Rightarrow> u64 object_op" where
  "Object_add_symbol_data symbol_id sec data align =
    state_then (state_get (\<lambda>self.
        Ok (if data = [] \<and> obj_macho_subsections_via_symbols self then [0] else data))) (\<lambda>data.
    state_then (Object_append_section_data sec data align) (\<lambda>offset.
    state_then (Object_set_symbol_data symbol_id sec offset (word_of_nat (length data))) (\<lambda>_.
    state_lift (Ok offset))))"

definition Object_add_symbol_bss :: "symbol_id \<Rightarrow> section_id \<Rightarrow> u64 \<Rightarrow> u64 \<Rightarrow> u64 object_op" where
  "Object_add_symbol_bss symbol_id sec sz align =
    state_then (state_get (\<lambda>self.
        Ok (if sz = 0 \<and> obj_macho_subsections_via_symbols self then 1 else sz))) (\<lambda>sz.
    state_then (Object_append_section_bss sec sz align) (\<lambda>offset.
    state_then (Object_set_symbol_data symbol_id sec offset sz) (\<lambda>_.
    state_lift (Ok offset))))"

definition Object_add_common_symbol :: "out_symbol \<Rightarrow> u64 \<Rightarrow> u64 \<Rightarrow> symbol_id object_op" where
  "Object_add_common_symbol symbol sz align =
    state_then (state_get (\<lambda>self. Ok (Object_has_common self))) (\<lambda>common.
    if common
    then state_then (Object_add_symbol symbol) (\<lambda>symbol_id.
      state_then (Object_section_id Std_Common) (\<lambda>sec.
      state_then (Object_add_symbol_bss symbol_id sec sz align) (\<lambda>_.
      state_lift (Ok symbol_id))))
    else Object_add_symbol (symbol\<lparr>os_section := SS_Common, os_size := sz\<rparr>))"

section \<open>Extras of the formats\<close>

text \<open>The note with one property: the header, the name, and the property padded to the alignment.\<close>

definition gnu_property_note :: "endianness \<Rightarrow> nat \<Rightarrow> u32 \<Rightarrow> u32 \<Rightarrow> (bytes, string) result" where
  "gnu_property_note e align property val =
    (let n_name = ascii ''GNU'' @ [0]
     in and_then (align_usize (3 * 4) align) (\<lambda>descsz.
        let data = encode_note_header e \<lparr>n_namesz = word_of_nat (length n_name),
              n_descsz = word_of_nat descsz, n_type = NT_GNU_PROPERTY_TYPE_0\<rparr> @ n_name
        in and_then (align_usize (length data) align) (\<lambda>aligned.
           debug_assert (aligned = length data) (
           let data = data @ U_new e property @ U_new e (4 :: u32) @ U_new e val
           in and_then (write_align Vec_len Vec_resize align \<lparr>vb_bytes = data, vb_capacity = max 32 (length data)\<rparr>) (\<lambda>buf.
              Ok (vb_bytes buf))))))"

definition Object_add_elf_gnu_property_u32 :: "u32 \<Rightarrow> u32 \<Rightarrow> unit object_op" where
  "Object_add_elf_gnu_property_u32 property val =
    (\<lambda>self. if obj_format self \<noteq> BF_Elf then (Ok (), self)
     else
       state_then (state_get (\<lambda>self. and_then (elf_is_64 (obj_architecture self)) (\<lambda>is_64.
           Ok (if is_64 then 8 else 4 :: nat)))) (\<lambda>align.
       state_then (state_get (\<lambda>self. gnu_property_note (obj_endian self) align property val)) (\<lambda>data.
       state_then (Object_section_id Std_GnuProperty) (\<lambda>sec.
       state_then (Object_append_section_data sec data (word_of_nat align)) (\<lambda>_.
       state_lift (Ok ()))))) self)"

datatype coff_export_style = Export_Msvc | Export_Gnu

definition export_directive :: "coff_export_style \<Rightarrow> out_symbol \<Rightarrow> bytes" where
  "export_directive style symbol =
    (if os_scope symbol = Scope_Dynamic
     then (case style of
          Export_Msvc \<Rightarrow> ascii '' /EXPORT:'' @ [0x22]
        | Export_Gnu \<Rightarrow> ascii '' -export:'' @ [0x22]) @
       os_name symbol @ [0x22] @
       (if os_kind symbol \<noteq> SymK_Text
        then (case style of Export_Msvc \<Rightarrow> ascii '',DATA'' | Export_Gnu \<Rightarrow> ascii '',data'')
        else [])
     else [])"

definition Object_add_coff_exports :: "coff_export_style \<Rightarrow> unit object_op" where
  "Object_add_coff_exports style =
    state_then (state_get (\<lambda>self. if obj_format self = BF_Coff then Ok () else Panic)) (\<lambda>_.
    state_then (state_get (\<lambda>self. Ok (concat (map (export_directive style) (obj_symbols self))))) (\<lambda>directives.
    state_then (Object_add_section [] (ascii ''.drectve'') SK_Linker) (\<lambda>drectve.
    state_then (Object_append_section_data drectve directives 1) (\<lambda>_.
    state_lift (Ok ())))))"

end
