(* ===== verification/Object_Invariant.thy ===== *)
theory Object_Invariant
  imports Object_Writer
begin

text \<open>
  The invariant of the object writer: every id that an object holds refers to an element of it, a
  section and its symbol refer to each other and no other section symbols exist, the data of a section
  has the recorded size, and the registered standard sections have the name and the kind of the
  format. Every operation keeps it, whether it returns a result or an error.
\<close>

section \<open>The invariant\<close>

definition symbol_ids_ok :: "nat \<Rightarrow> nat \<Rightarrow> out_symbol \<Rightarrow> bool" where
  "symbol_ids_ok n m symbol \<longleftrightarrow>
    (case os_section symbol of SS_Section i \<Rightarrow> i < n | _ \<Rightarrow> True) \<and>
    (case os_flags symbol of
       SymF_CoffSection _ (Some i) \<Rightarrow> i < n
     | SymF_Xcoff _ _ _ (Some s) \<Rightarrow> s < m
     | _ \<Rightarrow> True)"

definition section_ids_ok :: "nat \<Rightarrow> out_section \<Rightarrow> bool" where
  "section_ids_ok m sec \<longleftrightarrow>
    (case osec_symbol sec of Some s \<Rightarrow> s < m | None \<Rightarrow> True) \<and>
    (\<forall>r \<in> set (osec_relocations sec). or_symbol r < m)"

definition comdat_ids_ok :: "nat \<Rightarrow> nat \<Rightarrow> out_comdat \<Rightarrow> bool" where
  "comdat_ids_ok n m comdat \<longleftrightarrow> oc_symbol comdat < m \<and> (\<forall>i \<in> set (oc_sections comdat). i < n)"

definition object_ids_ok :: "out_object \<Rightarrow> bool" where
  "object_ids_ok self \<longleftrightarrow>
    (let n = length (obj_sections self); m = length (obj_symbols self) in
      (\<forall>symbol \<in> set (obj_symbols self). symbol_ids_ok n m symbol) \<and>
      (\<forall>sec \<in> set (obj_sections self). section_ids_ok m sec) \<and>
      (\<forall>comdat \<in> set (obj_comdats self). comdat_ids_ok n m comdat) \<and>
      ran (obj_standard_sections self) \<subseteq> {..<n} \<and>
      ran (obj_symbol_map self) \<subseteq> {..<m} \<and>
      ran (obj_stub_symbols self) \<subseteq> {..<m} \<and>
      (case obj_tlv_bootstrap self of Some s \<Rightarrow> s < m | None \<Rightarrow> True))"

definition power_of_two :: "u64 \<Rightarrow> bool" where
  "power_of_two align \<longleftrightarrow> align \<noteq> 0 \<and> align AND (align - 1) = 0"

definition section_data_ok :: "out_section \<Rightarrow> bool" where
  "section_data_ok sec \<longleftrightarrow>
    (if Section_is_bss sec then osec_data sec = [] else unat (osec_size sec) = length (osec_data sec)) \<and>
    power_of_two (osec_align sec)"

definition object_links_ok :: "out_object \<Rightarrow> bool" where
  "object_links_ok self \<longleftrightarrow>
    (\<forall>sec \<in> set (obj_sections self). section_data_ok sec) \<and>
    (\<forall>i < length (obj_sections self). \<forall>s. osec_symbol (obj_sections self ! i) = Some s \<longrightarrow>
      s < length (obj_symbols self) \<and> os_kind (obj_symbols self ! s) = SymK_Section \<and>
      os_section (obj_symbols self ! s) = SS_Section i) \<and>
    (\<forall>s < length (obj_symbols self). os_kind (obj_symbols self ! s) = SymK_Section \<longrightarrow>
      (\<exists>i < length (obj_sections self). osec_symbol (obj_sections self ! i) = Some s)) \<and>
    (\<forall>std i. obj_standard_sections self std = Some i \<longrightarrow>
      i < length (obj_sections self) \<and>
      (\<exists>flags. Object_section_info std self = Ok (osec_segment (obj_sections self ! i),
         osec_name (obj_sections self ! i), osec_kind (obj_sections self ! i), flags)))"

definition object_ok :: "out_object \<Rightarrow> bool" where
  "object_ok self \<longleftrightarrow> object_ids_ok self \<and> object_links_ok self"

text \<open>The invariant with ids that are known to be valid: sections, and symbols with their kinds.\<close>

definition ok_with :: "section_id set \<Rightarrow> (symbol_id \<times> symbol_kind) set \<Rightarrow> out_object \<Rightarrow> bool" where
  "ok_with S K self \<longleftrightarrow> object_ok self \<and>
    (\<forall>i \<in> S. i < length (obj_sections self)) \<and>
    (\<forall>(s, k) \<in> K. s < length (obj_symbols self) \<and> os_kind (obj_symbols self ! s) = k)"

lemma ok_with_ok: "ok_with S K self \<Longrightarrow> object_ok self"
  by (simp add: ok_with_def)

lemma ok_with_mono: "ok_with S K self \<Longrightarrow> S' \<subseteq> S \<Longrightarrow> K' \<subseteq> K \<Longrightarrow> ok_with S' K' self"
  by (auto simp: ok_with_def)

text \<open>An operation that keeps the invariant and all known ids, and adds some.\<close>

abbreviation keeps :: "section_id set \<Rightarrow> (symbol_id \<times> symbol_kind) set \<Rightarrow> 'a object_op \<Rightarrow>
    ('a \<Rightarrow> out_object \<Rightarrow> bool) \<Rightarrow> bool" where
  "keeps S K m Q \<equiv> outcome (ok_with S K) (ok_with S K) m Q"

lemma keeps_then:
  assumes "keeps S K m Q" "\<And>a. outcome (ok_with S K) (Q a) (f a) R"
  shows "keeps S K (state_then m f) R"
  using assms by (rule outcome_then)

lemma keeps_get_fact:
  assumes "\<And>a s. ok_with S K s \<Longrightarrow> g s = Ok a \<Longrightarrow> keeps S K (f a) Q"
  shows "keeps S K (state_then (state_get g) f) Q"
proof (rule outcome_then)
  show "keeps S K (state_get g) (\<lambda>a s. ok_with S K s \<and> g s = Ok a)"
    by (rule outcome_get) simp_all
  fix a
  show "outcome (ok_with S K) (\<lambda>s. ok_with S K s \<and> g s = Ok a) (f a) Q"
    unfolding outcome_def
  proof (rule allI, rule impI)
    fix s assume s: "ok_with S K s \<and> g s = Ok a"
    then have "keeps S K (f a) Q" using assms by blast
    with s show "(\<forall>b s'. f a s = (Ok b, s') \<longrightarrow> Q b s') \<and> (\<forall>e s'. f a s = (Err e, s') \<longrightarrow> ok_with S K s')"
      unfolding outcome_def by blast
  qed
qed

lemma keeps_get: "(\<And>a. keeps S K (f a) Q) \<Longrightarrow> keeps S K (state_then (state_get g) f) Q"
  by (rule keeps_get_fact)

lemma keeps_lift:
  assumes "\<And>a. r = Ok a \<Longrightarrow> keeps S K (f a) Q"
  shows "keeps S K (state_then (state_lift r) f) Q"
  using assms by (cases r) (simp_all add: outcome_def state_then_def state_lift_def)

lemma keeps_return: "(\<And>s. ok_with S K s \<Longrightarrow> Q a s) \<Longrightarrow> keeps S K (state_lift (Ok a)) Q"
  by (simp add: outcome_def state_lift_def)

lemma outcome_more:
  assumes "outcome (ok_with S' K') (ok_with S' K') m Q" "S \<subseteq> S'" "K \<subseteq> K'"
  shows "outcome (ok_with S K) (ok_with S' K') m Q"
  using assms ok_with_mono [of S' K' _ S K] unfolding outcome_def by blast

text \<open>Continue with the ids that a step has added.\<close>

lemma keeps_step:
  assumes "keeps S K m (\<lambda>a. ok_with (S' a) (K' a))" "\<And>a. S \<subseteq> S' a" "\<And>a. K \<subseteq> K' a"
    and "\<And>a. keeps (S' a) (K' a) (f a) Q"
  shows "keeps S K (state_then m f) Q"
  by (rule outcome_then [OF assms(1)]) (rule outcome_more [OF assms(4,2,3)])

section \<open>Primitive steps\<close>

lemmas object_defs = ok_with_def object_ok_def object_ids_ok_def object_links_ok_def Let_def

lemma ids_mono:
  "symbol_ids_ok n m symbol \<Longrightarrow> n \<le> n' \<Longrightarrow> m \<le> m' \<Longrightarrow> symbol_ids_ok n' m' symbol"
  "section_ids_ok m sec \<Longrightarrow> m \<le> m' \<Longrightarrow> section_ids_ok m' sec"
  "comdat_ids_ok n m comdat \<Longrightarrow> n \<le> n' \<Longrightarrow> m \<le> m' \<Longrightarrow> comdat_ids_ok n' m' comdat"
  by (force simp: symbol_ids_ok_def section_ids_ok_def comdat_ids_ok_def
      split: symbol_section.splits symbol_flags.splits option.splits)+

text \<open>Changes of the fields that the invariant does not mention.\<close>

lemma ok_with_other [simp]:
  "ok_with S K (self\<lparr>obj_flags := ff\<rparr>) = ok_with S K self"
  "ok_with S K (self\<lparr>obj_mangling := ma\<rparr>) = ok_with S K self"
  "ok_with S K (self\<lparr>obj_sub_architecture := sa\<rparr>) = ok_with S K self"
  "ok_with S K (self\<lparr>obj_macho_cpu_subtype := cs\<rparr>) = ok_with S K self"
  "ok_with S K (self\<lparr>obj_macho_build_version := bv\<rparr>) = ok_with S K self"
  "ok_with S K (self\<lparr>obj_macho_subsections_via_symbols := sv\<rparr>) = ok_with S K self"
  by (simp_all add: object_defs Object_section_info_def)

lemma Object_section_info_update [simp]:
  "Object_section_info std (self\<lparr>obj_sections := x\<rparr>) = Object_section_info std self"
  "Object_section_info std (self\<lparr>obj_symbols := y\<rparr>) = Object_section_info std self"
  "Object_section_info std (self\<lparr>obj_standard_sections := z\<rparr>) = Object_section_info std self"
  "Object_section_info std (self\<lparr>obj_symbol_map := u\<rparr>) = Object_section_info std self"
  "Object_section_info std (self\<lparr>obj_stub_symbols := v\<rparr>) = Object_section_info std self"
  "Object_section_info std (self\<lparr>obj_tlv_bootstrap := w\<rparr>) = Object_section_info std self"
  "Object_section_info std (self\<lparr>obj_comdats := c\<rparr>) = Object_section_info std self"
  by (simp_all add: Object_section_info_def)

text \<open>A new symbol that is not a section symbol.\<close>

definition known_flags :: "section_id set \<Rightarrow> (symbol_id \<times> symbol_kind) set \<Rightarrow>
    (section_id, symbol_id) symbol_flags \<Rightarrow> bool" where
  "known_flags S K flags \<longleftrightarrow>
    (case flags of
       SymF_CoffSection _ (Some i) \<Rightarrow> i \<in> S
     | SymF_Xcoff _ _ _ (Some s) \<Rightarrow> s \<in> fst ` K
     | _ \<Rightarrow> True)"

definition known_symbol :: "section_id set \<Rightarrow> (symbol_id \<times> symbol_kind) set \<Rightarrow> out_symbol \<Rightarrow> bool" where
  "known_symbol S K symbol \<longleftrightarrow>
    (case os_section symbol of SS_Section i \<Rightarrow> i \<in> S | _ \<Rightarrow> True) \<and> known_flags S K (os_flags symbol)"

lemma known_symbol_ids:
  "known_symbol S K symbol \<Longrightarrow> ok_with S K self \<Longrightarrow>
    symbol_ids_ok (length (obj_sections self)) (length (obj_symbols self)) symbol"
  by (force simp: known_symbol_def known_flags_def symbol_ids_ok_def ok_with_def
      split: symbol_section.splits symbol_flags.splits option.splits)

lemma ran_mono_bound: "ran f \<subseteq> {..<n} \<Longrightarrow> n \<le> n' \<Longrightarrow> ran f \<subseteq> {..<n'}" for n :: nat
  by (meson lessThan_subset_iff subset_trans)

lemma push_symbol_ok:
  assumes "ok_with S K self" "os_kind symbol \<noteq> SymK_Section" "known_symbol S K symbol"
  shows "ok_with S (insert (length (obj_symbols self), os_kind symbol) K)
    (self\<lparr>obj_symbols := obj_symbols self @ [symbol]\<rparr>)"
proof -
  let ?self = "self\<lparr>obj_symbols := obj_symbols self @ [symbol]\<rparr>"
  let ?n = "length (obj_sections self)" and ?m = "length (obj_symbols self)"
  have ok: "object_ids_ok self" "object_links_ok self" using assms(1) by (simp_all add: object_defs)
  have new: "symbol_ids_ok ?n ?m symbol" by (rule known_symbol_ids [OF assms(3,1)])
  have "object_ids_ok ?self"
    using ok(1) new unfolding object_ids_ok_def Let_def
    by (auto intro: ids_mono ran_mono_bound simp: less_Suc_eq subset_iff split: option.splits)
  moreover have "object_links_ok ?self"
    using ok(2) assms(2) unfolding object_links_ok_def
    by (auto simp: nth_append less_Suc_eq)
  ultimately show ?thesis
    using assms(1) by (auto simp: ok_with_def object_ok_def nth_append)
qed

lemma add_raw_symbol_ok:
  assumes "os_kind symbol \<noteq> SymK_Section" "known_symbol S K symbol"
  shows "keeps S K (Object_add_raw_symbol symbol) (\<lambda>a. ok_with S (insert (a, os_kind symbol) K))"
  using push_symbol_ok [OF _ assms]
  by (auto simp: outcome_def Object_add_raw_symbol_def state_then_def state_get_def state_modify_def state_lift_def)

text \<open>Changing a section in place.\<close>

definition section_kept :: "(symbol_id \<times> symbol_kind) set \<Rightarrow> out_section \<Rightarrow> out_section \<Rightarrow> bool" where
  "section_kept K sec x \<longleftrightarrow> section_data_ok x \<and> osec_segment x = osec_segment sec \<and>
    osec_name x = osec_name sec \<and> osec_kind x = osec_kind sec \<and> osec_symbol x = osec_symbol sec \<and>
    (\<forall>r \<in> set (osec_relocations x). r \<in> set (osec_relocations sec) \<or> or_symbol r \<in> fst ` K)"

lemma all_set_update: "(\<forall>x \<in> set xs. P x) \<Longrightarrow> P y \<Longrightarrow> \<forall>x \<in> set (xs[i := y]). P x"
  using set_update_subset_insert [of xs i y] by blast

lemma update_section_ok:
  assumes "ok_with S K self" "i < length (obj_sections self)" "section_kept K (obj_sections self ! i) x"
  shows "ok_with (insert i S) K (self\<lparr>obj_sections := (obj_sections self)[i := x]\<rparr>)"
proof -
  let ?self = "self\<lparr>obj_sections := (obj_sections self)[i := x]\<rparr>"
  let ?m = "length (obj_symbols self)" and ?sec = "obj_sections self ! i"
  have ok: "object_ids_ok self" "object_links_ok self" using assms(1) by (simp_all add: object_defs)
  have "section_ids_ok ?m ?sec"
    using ok(1) assms(2) by (simp add: object_ids_ok_def Let_def)
  moreover have known: "s < ?m" if "s \<in> fst ` K" for s using that assms(1) by (auto simp: ok_with_def)
  ultimately have x: "section_ids_ok ?m x"
    using assms(3) unfolding section_ids_ok_def section_kept_def by (metis known)
  have ids: "object_ids_ok ?self"
    using ok(1) x all_set_update [where xs = "obj_sections self" and i = i and y = x and P = "section_ids_ok ?m"]
    by (simp add: object_ids_ok_def Let_def)
  have data: "section_data_ok x" using assms(3) by (simp add: section_kept_def)
  have "object_links_ok ?self"
    using ok(2) data all_set_update [where xs = "obj_sections self" and i = i and y = x and P = section_data_ok]
      assms(2,3)
    unfolding object_links_ok_def section_kept_def
    by (simp add: nth_list_update) blast
  with ids show ?thesis
    using assms(1,2) by (simp add: ok_with_def object_ok_def)
qed

lemma links_data_ok: "ok_with S K self \<Longrightarrow> i < length (obj_sections self) \<Longrightarrow> section_data_ok (obj_sections self ! i)"
  by (simp add: object_defs)

lemma section_mut_ok:
  assumes "\<And>sec. section_data_ok sec \<Longrightarrow> (case m sec of
      (Ok a, x) \<Rightarrow> section_kept K sec x
    | (Err e, x) \<Rightarrow> section_kept K sec x
    | (Panic, x) \<Rightarrow> True)"
  shows "keeps S K (Object_section_mut i m) (\<lambda>a. ok_with (insert i S) K)"
  unfolding Object_section_mut_def
proof (rule outcome_at)
  fix s assume s: "ok_with S K s" "i < length (obj_sections s)"
  have kept: "ok_with (insert i S) K (s\<lparr>obj_sections := (obj_sections s)[i := x]\<rparr>)"
    "ok_with S K (s\<lparr>obj_sections := (obj_sections s)[i := x]\<rparr>)"
    if "section_kept K (obj_sections s ! i) x" for x
    using update_section_ok [OF s that] ok_with_mono [of "insert i S" K _ S K] by auto
  show "case m (obj_sections s ! i) of
      (Ok a, x) \<Rightarrow> ok_with (insert i S) K (s\<lparr>obj_sections := (obj_sections s)[i := x]\<rparr>)
    | (Err e, x) \<Rightarrow> ok_with S K (s\<lparr>obj_sections := (obj_sections s)[i := x]\<rparr>)
    | (Panic, x) \<Rightarrow> True"
    using assms [OF links_data_ok [OF s]] kept by (auto split: prod.splits result.splits)
qed

text \<open>Changing a symbol in place: the kind stays, and the section of a section symbol.\<close>

definition symbol_kept :: "out_symbol \<Rightarrow> out_symbol \<Rightarrow> bool" where
  "symbol_kept symbol x \<longleftrightarrow> os_kind x = os_kind symbol \<and>
    (os_kind symbol = SymK_Section \<longrightarrow> os_section x = os_section symbol)"

lemma update_symbol_ok:
  assumes "ok_with S K self" "s < length (obj_symbols self)" "symbol_kept (obj_symbols self ! s) x"
    and "symbol_ids_ok (length (obj_sections self)) (length (obj_symbols self)) x"
  shows "ok_with S (insert (s, os_kind (obj_symbols self ! s)) K)
    (self\<lparr>obj_symbols := (obj_symbols self)[s := x]\<rparr>)"
proof -
  let ?self = "self\<lparr>obj_symbols := (obj_symbols self)[s := x]\<rparr>"
  have ok: "object_ids_ok self" "object_links_ok self" using assms(1) by (simp_all add: object_defs)
  have "object_ids_ok ?self"
    using ok(1) all_set_update [where xs = "obj_symbols self" and i = s and y = x and
        P = "symbol_ids_ok (length (obj_sections self)) (length (obj_symbols self))"] assms(4)
    by (simp add: object_ids_ok_def Let_def)
  moreover have "object_links_ok ?self"
    using ok(2) assms(2,3) unfolding object_links_ok_def symbol_kept_def
    by (simp add: nth_list_update)
  ultimately show ?thesis
    using assms(1-3) by (auto simp: ok_with_def object_ok_def nth_list_update symbol_kept_def)
qed

lemma symbol_mut_ok:
  assumes "\<And>self. ok_with S K self \<Longrightarrow> s < length (obj_symbols self) \<Longrightarrow>
    symbol_kept (obj_symbols self ! s) (f (obj_symbols self ! s)) \<and>
    symbol_ids_ok (length (obj_sections self)) (length (obj_symbols self)) (f (obj_symbols self ! s))"
  shows "keeps S K (Object_symbol_mut s (state_modify f)) (\<lambda>a. ok_with S K)"
  unfolding Object_symbol_mut_def
proof (rule outcome_at)
  fix self assume s: "ok_with S K self" "s < length (obj_symbols self)"
  have "ok_with S K (self\<lparr>obj_symbols := (obj_symbols self)[s := f (obj_symbols self ! s)]\<rparr>)"
    using update_symbol_ok [OF s, of "f (obj_symbols self ! s)"] assms [OF s]
      ok_with_mono [of S "insert (s, os_kind (obj_symbols self ! s)) K" _ S K] by auto
  then show "case state_modify f (obj_symbols self ! s) of
      (Ok a, x) \<Rightarrow> ok_with S K (self\<lparr>obj_symbols := (obj_symbols self)[s := x]\<rparr>)
    | (Err e, x) \<Rightarrow> ok_with S K (self\<lparr>obj_symbols := (obj_symbols self)[s := x]\<rparr>)
    | (Panic, x) \<Rightarrow> True"
    by (simp add: state_modify_def)
qed

text \<open>The maps.\<close>

lemma ran_upd_bound: "ran f \<subseteq> {..<n} \<Longrightarrow> b < n \<Longrightarrow> ran (f(a \<mapsto> b)) \<subseteq> {..<n}" for n :: nat
  by (auto simp: ran_def split: if_splits)

lemma maps_ok:
  assumes "ok_with S K self" "(s, k) \<in> K"
  shows "ok_with S K (self\<lparr>obj_symbol_map := (obj_symbol_map self)(name \<mapsto> s)\<rparr>)"
    and "ok_with S K (self\<lparr>obj_stub_symbols := (obj_stub_symbols self)(t \<mapsto> s)\<rparr>)"
    and "ok_with S K (self\<lparr>obj_tlv_bootstrap := Some s\<rparr>)"
proof -
  have s: "s < length (obj_symbols self)" using assms by (auto simp: ok_with_def)
  show "ok_with S K (self\<lparr>obj_symbol_map := (obj_symbol_map self)(name \<mapsto> s)\<rparr>)"
    using assms(1) s ran_upd_bound [of "obj_symbol_map self" _ s name] by (simp add: object_defs)
  show "ok_with S K (self\<lparr>obj_stub_symbols := (obj_stub_symbols self)(t \<mapsto> s)\<rparr>)"
    using assms(1) s ran_upd_bound [of "obj_stub_symbols self" _ s t] by (simp add: object_defs)
  show "ok_with S K (self\<lparr>obj_tlv_bootstrap := Some s\<rparr>)"
    using assms(1) s by (simp add: object_defs)
qed

lemma push_section_ok:
  assumes "ok_with S K self"
  shows "ok_with (insert (length (obj_sections self)) S) K
    (self\<lparr>obj_sections := obj_sections self @ [new_section segment name kind]\<rparr>)"
proof -
  let ?new = "new_section segment name kind"
  let ?self = "self\<lparr>obj_sections := obj_sections self @ [?new]\<rparr>"
  have ok: "object_ids_ok self" "object_links_ok self" using assms(1) by (simp_all add: object_defs)
  have new: "section_ids_ok m ?new" "section_data_ok ?new" "osec_symbol ?new = None" for m
    by (simp_all add: section_ids_ok_def section_data_ok_def new_section_def power_of_two_def)
  let ?n = "length (obj_sections self)" and ?m = "length (obj_symbols self)"
  have "symbol_ids_ok (Suc ?n) ?m symbol" if "symbol \<in> set (obj_symbols self)" for symbol
    using that ok(1) ids_mono(1) [of ?n ?m symbol "Suc ?n" ?m] by (simp add: object_ids_ok_def Let_def)
  moreover have "comdat_ids_ok (Suc ?n) ?m comdat" if "comdat \<in> set (obj_comdats self)" for comdat
    using that ok(1) ids_mono(3) [of ?n ?m comdat "Suc ?n" ?m] by (simp add: object_ids_ok_def Let_def)
  moreover have "ran (obj_standard_sections self) \<subseteq> {..<Suc ?n}"
    using ok(1) ran_mono_bound [of "obj_standard_sections self" ?n "Suc ?n"] by (simp add: object_ids_ok_def Let_def)
  ultimately have "object_ids_ok ?self"
    using ok(1) new(1) by (simp add: object_ids_ok_def Let_def)
  moreover have "object_links_ok ?self"
    using ok(2) new(2,3) unfolding object_links_ok_def
    by (auto simp: nth_append less_Suc_eq)
  ultimately show ?thesis
    using assms(1) by (auto simp: ok_with_def object_ok_def)
qed

definition section_header_is :: "section_id \<Rightarrow> out_section \<Rightarrow> out_object \<Rightarrow> bool" where
  "section_header_is i sec self \<longleftrightarrow> i < length (obj_sections self) \<and>
    osec_segment (obj_sections self ! i) = osec_segment sec \<and>
    osec_name (obj_sections self ! i) = osec_name sec \<and> osec_kind (obj_sections self ! i) = osec_kind sec"

lemma register_ok:
  assumes "ok_with S K self" "section_header_is i sec self"
    and "Object_section_info std self = Ok (osec_segment sec, osec_name sec, osec_kind sec, flags)"
  shows "ok_with S K (self\<lparr>obj_standard_sections := (obj_standard_sections self)(std \<mapsto> i)\<rparr>)"
  using assms ran_upd_bound [of "obj_standard_sections self" "length (obj_sections self)" i std]
  by (auto simp: object_defs section_header_is_def)

lemma register_standard_sections_ok:
  "outcome (ok_with S K) (\<lambda>self. ok_with S K self \<and> section_header_is i sec self)
    (register_standard_sections i sec stds) (\<lambda>_ self. ok_with S K self \<and> section_header_is i sec self)"
proof (induction stds)
  case Nil
  show ?case by (simp add: outcome_def state_lift_def)
next
  case (Cons std stds)
  let ?I = "\<lambda>self. ok_with S K self \<and> section_header_is i sec self"
  let ?J = "\<lambda>matches self. ?I self \<and> (matches \<longrightarrow> (\<exists>flags.
    Object_section_info std self = Ok (osec_segment sec, osec_name sec, osec_kind sec, flags)))"
  have step: "?I (self\<lparr>obj_standard_sections := (obj_standard_sections self)(std \<mapsto> i)\<rparr>)"
    if "?J True self" for self
    using that register_ok [of S K self i sec std] by (auto simp: section_header_is_def)
  show ?case
    unfolding register_standard_sections.simps
  proof (rule outcome_then [OF outcome_get [where Q = ?J]])
    fix matches
    show "outcome (ok_with S K) (?J matches) (state_then (if matches
          then state_modify (\<lambda>self. self\<lparr>obj_standard_sections := (obj_standard_sections self)(std \<mapsto> i)\<rparr>)
          else state_lift (Ok ())) (\<lambda>_. register_standard_sections i sec stds)) (\<lambda>_. ?I)"
    proof (rule outcome_then [OF _ Cons.IH])
      show "outcome (ok_with S K) (?J matches) (if matches
          then state_modify (\<lambda>self. self\<lparr>obj_standard_sections := (obj_standard_sections self)(std \<mapsto> i)\<rparr>)
          else state_lift (Ok ())) (\<lambda>_. ?I)"
        using step by (cases matches) (simp_all add: outcome_def state_modify_def state_lift_def)
    qed
  qed (auto simp: res_simps split: if_splits)
qed

lemma add_section_ok:
  "keeps S K (Object_add_section segment name kind) (\<lambda>a. ok_with (insert a S) K)"
  unfolding Object_add_section_def
proof (rule outcome_then [OF outcome_get [where Q = "\<lambda>i self. ok_with S K self \<and> i = length (obj_sections self)"]])
  fix i
  let ?new = "new_section segment name kind"
  let ?I = "\<lambda>self. ok_with (insert i S) K self \<and> section_header_is i ?new self"
  have reg: "outcome (ok_with S K) ?I (register_standard_sections i ?new stds) (\<lambda>_. ?I)" for stds
    using register_standard_sections_ok [of "insert i S" K i ?new stds] ok_with_mono [of "insert i S" K _ S K]
    unfolding outcome_def by blast
  show "outcome (ok_with S K) (\<lambda>self. ok_with S K self \<and> i = length (obj_sections self))
      (state_then (state_modify (\<lambda>self. self\<lparr>obj_sections := obj_sections self @ [?new]\<rparr>)) (\<lambda>_.
       state_then (register_standard_sections i ?new StandardSection_all) (\<lambda>_. state_lift (Ok i))))
      (\<lambda>a. ok_with (insert a S) K)"
    by (rule outcome_then [OF outcome_modify [where Q = "\<lambda>_. ?I"]], use push_section_ok in
        \<open>force simp: section_header_is_def\<close>, rule outcome_then [OF reg], rule outcome_lift) auto
qed (simp_all)

section \<open>Operations on sections\<close>

lemma outcome_cached:
  "(\<And>s a. P s \<Longrightarrow> look s = Some a \<Longrightarrow> Q a s) \<Longrightarrow> outcome E P m Q \<Longrightarrow>
    outcome E P (\<lambda>s. case look s of Some a \<Rightarrow> (Ok a, s) | None \<Rightarrow> m s) Q"
  by (simp add: outcome_def split: option.splits)

lemma outcome_state_if:
  "outcome E P m Q \<Longrightarrow> outcome E P m' Q \<Longrightarrow> outcome E P (\<lambda>s. if b s then m s else m' s) Q"
  by (simp add: outcome_def)

lemma assert_power_of_two_eq:
  "assert_power_of_two align s = (if power_of_two align then Ok () else Panic, s)"
proof -
  have "(1 \<le> align) = (align \<noteq> 0)" by (metis word_less_1 linorder_not_le)
  then show ?thesis
    by (simp add: assert_power_of_two_def state_lift_def word_sub_def power_of_two_def debug_assert_def)
qed

lemma section_flags_kept:
  "section_data_ok sec \<Longrightarrow> section_kept K sec (sec\<lparr>osec_flags := ff\<rparr>)"
  by (simp add: section_kept_def section_data_ok_def Section_is_bss_def)

lemmas state_defs = state_then_def state_get_def state_modify_def state_lift_def

lemma set_data_kept:
  assumes "section_data_ok sec" "length data \<le> isize_max"
  shows "case Section_set_data data align sec of
      (Ok a, x) \<Rightarrow> section_kept K sec x | (Err e, x) \<Rightarrow> section_kept K sec x | (Panic, x) \<Rightarrow> True"
  using assms
  by (auto simp: Section_set_data_def state_defs assert_power_of_two_eq debug_assert_def section_kept_def
      section_data_ok_def Section_is_bss_def isize_max_def unat_of_nat)

lemma append_data_kept:
  assumes "section_data_ok sec"
  shows "case Section_append_data data align sec of
      (Ok a, x) \<Rightarrow> section_kept K sec x | (Err e, x) \<Rightarrow> section_kept K sec x | (Panic, x) \<Rightarrow> True"
  using assms
  by (auto simp: Section_append_data_def state_defs assert_power_of_two_eq debug_assert_def section_kept_def
      section_data_ok_def Section_is_bss_def isize_max_def unat_of_nat Vec_grow_def and_then_eq_Panic res_simps
      simp del: of_nat_add split: result.splits prod.splits)

lemma append_bss_kept:
  assumes "section_data_ok sec"
  shows "case Section_append_bss sz align sec of
      (Ok a, x) \<Rightarrow> section_kept K sec x | (Err e, x) \<Rightarrow> section_kept K sec x | (Panic, x) \<Rightarrow> True"
  using assms
  by (auto simp: Section_append_bss_def state_defs assert_power_of_two_eq debug_assert_def section_kept_def
      section_data_ok_def Section_is_bss_def split: result.splits prod.splits)

lemma section_ops_ok:
  "keeps S K (Object_append_section_data i data align) (\<lambda>a. ok_with (insert i S) K)"
  "keeps S K (Object_append_section_bss i sz align) (\<lambda>a. ok_with (insert i S) K)"
  unfolding Object_append_section_data_def Object_append_section_bss_def
  by (rule section_mut_ok, rule append_data_kept, assumption)
    (rule section_mut_ok, rule append_bss_kept, assumption)

lemma set_section_data_ok:
  "length data \<le> isize_max \<Longrightarrow>
    keeps S K (Object_set_section_data i data align) (\<lambda>a. ok_with (insert i S) K)"
  unfolding Object_set_section_data_def by (rule section_mut_ok) (rule set_data_kept)

lemma set_section_flags_ok:
  "keeps S K (Object_section_mut i (state_modify (\<lambda>sec. sec\<lparr>osec_flags := f sec\<rparr>))) (\<lambda>a. ok_with (insert i S) K)"
  by (rule section_mut_ok) (simp add: state_modify_def section_flags_kept)

lemma add_section_with_flags_ok:
  "keeps S K (state_then (Object_add_section segment name kind) (\<lambda>i.
     state_then (Object_section_mut i (state_modify (\<lambda>sec. sec\<lparr>osec_flags := flags\<rparr>))) (\<lambda>_.
     state_lift (Ok i)))) (\<lambda>a. ok_with (insert a S) K)"
proof (rule keeps_step [OF add_section_ok])
  fix i
  show "keeps (insert i S) K (state_then (Object_section_mut i (state_modify (\<lambda>sec. sec\<lparr>osec_flags := flags\<rparr>))) (\<lambda>_.
      state_lift (Ok i))) (\<lambda>a. ok_with (insert a S) K)"
    by (rule keeps_step [OF set_section_flags_ok]) (auto intro!: keeps_return)
qed auto

lemma section_id_ok: "keeps S K (Object_section_id s) (\<lambda>a. ok_with (insert a S) K)"
  unfolding Object_section_id_def
proof (rule outcome_cached)
  show "ok_with (insert a S) K self" if "ok_with S K self" "obj_standard_sections self s = Some a" for self a
    using that by (auto simp: object_defs)
  show "keeps S K (state_then (state_get (Object_section_info s)) (\<lambda>(segment, name, kind, flags).
      state_then (Object_add_section segment name kind) (\<lambda>i.
      state_then (Object_section_mut i (state_modify (\<lambda>sec. sec\<lparr>osec_flags := flags\<rparr>))) (\<lambda>_.
      state_lift (Ok i))))) (\<lambda>a. ok_with (insert a S) K)"
    by (rule keeps_get) (simp only: split_paired_all prod.case add_section_with_flags_ok)
qed

lemma add_subsection_ok: "keeps S K (Object_add_subsection s name) (\<lambda>a. ok_with (insert a S) K)"
  unfolding Object_add_subsection_def
proof (rule outcome_state_if [OF section_id_ok])
  show "keeps S K (state_then (state_get (Object_subsection_info s name)) (\<lambda>(segment, name, kind, flags).
      state_then (Object_add_section segment name kind) (\<lambda>i.
      state_then (Object_section_mut i (state_modify (\<lambda>sec. sec\<lparr>osec_flags := flags\<rparr>))) (\<lambda>_.
      state_lift (Ok i))))) (\<lambda>a. ok_with (insert a S) K)"
    by (rule keeps_get) (simp only: split_paired_all prod.case add_section_with_flags_ok)
qed

lemma keeps_weaken: "keeps S K m Q \<Longrightarrow> (\<And>a s. Q a s \<Longrightarrow> Q' a s) \<Longrightarrow> keeps S K m Q'"
  unfolding outcome_def by blast

lemma section_flags_mut_ok: "keeps S K (Object_section_flags_mut i f) (\<lambda>a. ok_with (insert i S) K)"
  unfolding Object_section_flags_mut_def
proof (rule keeps_get, rule outcome_if)
  fix sec
  have f: "osec_flags_update f = (\<lambda>x. x\<lparr>osec_flags := f (osec_flags x)\<rparr>)" by (rule ext) simp
  show "keeps S K (Object_section_mut i (state_modify (osec_flags_update f))) (\<lambda>a. ok_with (insert i S) K)"
    unfolding f by (rule set_section_flags_ok)
  show "keeps S K (state_then (state_get (\<lambda>self. Ok (Object_default_section_flags self sec))) (\<lambda>flags.
      state_then (Object_section_mut i (state_modify (\<lambda>sec. sec\<lparr>osec_flags := flags\<rparr>))) (\<lambda>_.
      Object_section_mut i (state_modify (osec_flags_update f))))) (\<lambda>a. ok_with (insert i S) K)"
    unfolding f
    by (rule keeps_get, rule keeps_step [OF set_section_flags_ok])
      (auto intro: keeps_weaken [OF set_section_flags_ok])
qed

section \<open>Operations on symbols\<close>

lemma push_section_symbol_ok:
  assumes "ok_with S K self" "i < length (obj_sections self)" "osec_symbol (obj_sections self ! i) = None"
    and "os_kind symbol = SymK_Section" "os_section symbol = SS_Section i" "os_flags symbol = SymF_None"
  shows "ok_with (insert i S) (insert (length (obj_symbols self), SymK_Section) K)
    (self\<lparr>obj_symbols := obj_symbols self @ [symbol],
      obj_sections := (obj_sections self)[i := (obj_sections self ! i)\<lparr>osec_symbol := Some (length (obj_symbols self))\<rparr>]\<rparr>)"
    (is "ok_with _ _ ?self")
proof -
  let ?n = "length (obj_sections self)" and ?m = "length (obj_symbols self)"
  let ?sec = "obj_sections self ! i" and ?x = "(obj_sections self ! i)\<lparr>osec_symbol := Some (length (obj_symbols self))\<rparr>"
  have ok: "object_ids_ok self" "object_links_ok self" using assms(1) by (simp_all add: object_defs)
  have "symbol_ids_ok ?n (Suc ?m) s" if "s \<in> set (obj_symbols self)" for s
    using that ok(1) ids_mono(1) [of ?n ?m s ?n "Suc ?m"] by (simp add: object_ids_ok_def Let_def)
  moreover have "symbol_ids_ok ?n (Suc ?m) symbol"
    using assms(2,5,6) by (simp add: symbol_ids_ok_def)
  moreover have secs: "section_ids_ok (Suc ?m) s" if "s \<in> set (obj_sections self)" for s
    using that ok(1) ids_mono(2) [of ?m s "Suc ?m"] by (simp add: object_ids_ok_def Let_def)
  moreover have "section_ids_ok (Suc ?m) ?x"
    using secs [of ?sec] assms(2) by (simp add: section_ids_ok_def)
  moreover have "comdat_ids_ok ?n (Suc ?m) c" if "c \<in> set (obj_comdats self)" for c
    using that ok(1) ids_mono(3) [of ?n ?m c ?n "Suc ?m"] by (simp add: object_ids_ok_def Let_def)
  moreover have "ran (obj_symbol_map self) \<subseteq> {..<Suc ?m}" "ran (obj_stub_symbols self) \<subseteq> {..<Suc ?m}"
    using ok(1) ran_mono_bound [of "obj_symbol_map self" ?m "Suc ?m"]
      ran_mono_bound [of "obj_stub_symbols self" ?m "Suc ?m"] by (simp_all add: object_ids_ok_def Let_def)
  ultimately have "object_ids_ok ?self"
    using ok(1) all_set_update [where xs = "obj_sections self" and i = i and y = ?x and P = "section_ids_ok (Suc ?m)"]
    by (auto simp: object_ids_ok_def Let_def split: option.splits)
  moreover have "section_data_ok ?x"
    using ok(2) assms(2) by (simp add: object_links_ok_def section_data_ok_def Section_is_bss_def)
  then have "object_links_ok ?self"
    using ok(2) assms(2-5) all_set_update [where xs = "obj_sections self" and i = i and y = ?x and P = section_data_ok]
    unfolding object_links_ok_def
    by (auto simp: nth_append nth_list_update less_Suc_eq) (metis option.distinct(1))
  ultimately show ?thesis
    using assms(1,2,4) by (auto simp: ok_with_def object_ok_def nth_append)
qed

lemma section_symbol_ok:
  "keeps S K (Object_section_symbol i) (\<lambda>a. ok_with (insert i S) (insert (a, SymK_Section) K))"
  unfolding outcome_def
proof (intro allI impI conjI)
  fix self a self' e
  assume ok: "ok_with S K self"
  show "ok_with S K self'" if "Object_section_symbol i self = (Err e, self')"
    using that by (auto simp: Object_section_symbol_def state_defs Object_section_def index_list_def
        Object_section_mut_def state_at_def split: if_splits option.splits)
  assume r: "Object_section_symbol i self = (Ok a, self')"
  then have i: "i < length (obj_sections self)"
    by (auto simp: Object_section_symbol_def state_defs Object_section_def index_list_def split: if_splits)
  show "ok_with (insert i S) (insert (a, SymK_Section) K) self'"
  proof (cases "osec_symbol (obj_sections self ! i)")
    case None
    let ?sym = "\<lparr>os_name = if obj_format self = BF_Coff then osec_name (obj_sections self ! i) else [],
      os_value = 0, os_size = 0, os_kind = SymK_Section, os_scope = Scope_Compilation, os_weak = False,
      os_section = SS_Section i, os_flags = SymF_None\<rparr>"
    have "a = length (obj_symbols self)" "self' = self\<lparr>obj_symbols := obj_symbols self @ [?sym],
      obj_sections := (obj_sections self)[i := (obj_sections self ! i)\<lparr>osec_symbol := Some (length (obj_symbols self))\<rparr>]\<rparr>"
      using r i None by (auto simp: Object_section_symbol_def state_defs Object_section_def index_list_def
          Object_section_mut_def state_at_def)
    then show ?thesis using push_section_symbol_ok [OF ok i None, of ?sym] by simp
  next
    case (Some s)
    then show ?thesis
      using r i ok by (auto simp: Object_section_symbol_def state_defs Object_section_def index_list_def object_defs)
  qed
qed

lemma set_symbol_flags_ok:
  assumes "\<And>symbol. known_flags S K (f symbol)"
  shows "keeps S K (Object_symbol_mut s (state_modify (\<lambda>symbol. symbol\<lparr>os_flags := f symbol\<rparr>))) (\<lambda>a. ok_with S K)"
proof (rule symbol_mut_ok)
  fix self assume self: "ok_with S K self" "s < length (obj_symbols self)"
  let ?sym = "obj_symbols self ! s"
  let ?n = "length (obj_sections self)" and ?m = "length (obj_symbols self)"
  have "symbol_ids_ok ?n ?m ?sym" using self by (simp add: object_defs)
  moreover have "symbol_ids_ok ?n ?m (?sym\<lparr>os_section := SS_None, os_flags := f ?sym\<rparr>)"
    using known_symbol_ids [OF _ self(1), of "?sym\<lparr>os_section := SS_None, os_flags := f ?sym\<rparr>"] assms
    by (simp add: known_symbol_def)
  ultimately show "symbol_kept ?sym (?sym\<lparr>os_flags := f ?sym\<rparr>) \<and> symbol_ids_ok ?n ?m (?sym\<lparr>os_flags := f ?sym\<rparr>)"
    by (simp add: symbol_kept_def symbol_ids_ok_def)
qed

lemma set_symbol_place_ok:
  assumes "sec \<in> S" "(s, k) \<in> K" "k \<noteq> SymK_Section"
  shows "keeps S K (Object_symbol_mut s (state_modify (\<lambda>symbol.
    symbol\<lparr>os_value := v, os_size := sz, os_section := SS_Section sec\<rparr>))) (\<lambda>a. ok_with S K)"
proof (rule symbol_mut_ok)
  fix self assume self: "ok_with S K self" "s < length (obj_symbols self)"
  let ?sym = "obj_symbols self ! s"
  have "symbol_ids_ok (length (obj_sections self)) (length (obj_symbols self)) ?sym"
    using self by (simp add: object_defs)
  moreover have "sec < length (obj_sections self)" "os_kind ?sym = k" using self assms by (auto simp: ok_with_def)
  ultimately show "symbol_kept ?sym (?sym\<lparr>os_value := v, os_size := sz, os_section := SS_Section sec\<rparr>) \<and>
    symbol_ids_ok (length (obj_sections self)) (length (obj_symbols self))
      (?sym\<lparr>os_value := v, os_size := sz, os_section := SS_Section sec\<rparr>)"
    using assms(3) by (simp add: symbol_kept_def symbol_ids_ok_def)
qed

lemma known_flags_mono: "known_flags S K ff \<Longrightarrow> S \<subseteq> S' \<Longrightarrow> K \<subseteq> K' \<Longrightarrow> known_flags S' K' ff"
  by (force simp: known_flags_def split: symbol_flags.splits option.splits)

lemma add_symbol_ok:
  assumes "known_symbol S K symbol"
  shows "keeps S K (Object_add_symbol symbol) (\<lambda>a. ok_with S (insert (a, os_kind symbol) K))"
  unfolding Object_add_symbol_def
proof (rule keeps_lift, rule outcome_if, rule keeps_lift)
  fix sec
  assume kind: "os_kind symbol = SymK_Section"
  show "keeps S K (state_then (Object_section_symbol sec) (\<lambda>symbol_id.
      if os_flags symbol \<noteq> SymF_None
      then state_then (Object_symbol_mut symbol_id (state_modify (\<lambda>s. s\<lparr>os_flags := os_flags symbol\<rparr>))) (\<lambda>_.
        state_lift (Ok symbol_id))
      else state_lift (Ok symbol_id))) (\<lambda>a. ok_with S (insert (a, os_kind symbol) K))"
  proof (rule keeps_step [OF section_symbol_ok])
    fix a
    let ?S = "insert sec S" and ?K = "insert (a, SymK_Section) K"
    have flags: "known_flags ?S ?K (os_flags symbol)"
      using assms known_flags_mono [of S K _ ?S ?K] by (auto simp: known_symbol_def)
    have ret: "keeps ?S ?K (state_lift (Ok a)) (\<lambda>a. ok_with S (insert (a, os_kind symbol) K))"
      by (rule keeps_return) (auto intro: ok_with_mono simp: kind)
    show "keeps ?S ?K (if os_flags symbol \<noteq> SymF_None
        then state_then (Object_symbol_mut a (state_modify (\<lambda>s. s\<lparr>os_flags := os_flags symbol\<rparr>))) (\<lambda>_. state_lift (Ok a))
        else state_lift (Ok a)) (\<lambda>a. ok_with S (insert (a, os_kind symbol) K))"
      using outcome_then [OF set_symbol_flags_ok [OF flags] ret] ret by simp
  qed auto
next
  assume kind: "os_kind symbol \<noteq> SymK_Section"
  have mangled: "known_symbol S K (symbol\<lparr>os_name := nm\<rparr>)" for nm using assms by (simp add: known_symbol_def)
  show "keeps S K (if os_name symbol \<noteq> [] \<and>
        (os_kind symbol = SymK_Text \<or> os_kind symbol = SymK_Data \<or> os_kind symbol = SymK_Tls)
      then state_then (state_get (\<lambda>self. Ok (case Mangling_global_prefix (obj_mangling self) of
          None \<Rightarrow> symbol
        | Some prefix \<Rightarrow> symbol\<lparr>os_name := prefix # os_name symbol\<rparr>))) (\<lambda>mangled.
        state_then (Object_add_raw_symbol mangled) (\<lambda>symbol_id.
        state_then (state_modify (\<lambda>self. self\<lparr>obj_symbol_map := (obj_symbol_map self)(os_name symbol \<mapsto> symbol_id)\<rparr>)) (\<lambda>_.
        state_lift (Ok symbol_id))))
      else Object_add_raw_symbol symbol) (\<lambda>a. ok_with S (insert (a, os_kind symbol) K))"
  proof (rule outcome_if [OF _ add_raw_symbol_ok [OF kind assms]], rule keeps_get_fact)
    fix x s
    assume "Ok (case Mangling_global_prefix (obj_mangling s) of
          None \<Rightarrow> symbol | Some prefix \<Rightarrow> symbol\<lparr>os_name := prefix # os_name symbol\<rparr>) = Ok x"
    then have x: "known_symbol S K x" "os_kind x = os_kind symbol"
      using mangled assms by (auto split: option.splits)
    show "keeps S K (state_then (Object_add_raw_symbol x) (\<lambda>symbol_id.
        state_then (state_modify (\<lambda>self. self\<lparr>obj_symbol_map := (obj_symbol_map self)(os_name symbol \<mapsto> symbol_id)\<rparr>)) (\<lambda>_.
        state_lift (Ok symbol_id)))) (\<lambda>a. ok_with S (insert (a, os_kind symbol) K))"
    proof (rule keeps_step)
      show "keeps S K (Object_add_raw_symbol x) (\<lambda>a. ok_with S (insert (a, os_kind symbol) K))"
        using add_raw_symbol_ok [of x S K] x kind by simp
      fix a
      have "keeps S (insert (a, os_kind symbol) K)
          (state_modify (\<lambda>self. self\<lparr>obj_symbol_map := (obj_symbol_map self)(os_name symbol \<mapsto> a)\<rparr>))
          (\<lambda>_. ok_with S (insert (a, os_kind symbol) K))"
        by (rule outcome_modify, rule maps_ok(1) [where k = "os_kind symbol"]) auto
      then show "keeps S (insert (a, os_kind symbol) K)
          (state_then (state_modify (\<lambda>self. self\<lparr>obj_symbol_map := (obj_symbol_map self)(os_name symbol \<mapsto> a)\<rparr>)) (\<lambda>_.
           state_lift (Ok a))) (\<lambda>a. ok_with S (insert (a, os_kind symbol) K))"
        by (rule outcome_then) (rule keeps_return)
    qed auto
  qed
qed

lemma symbol_flags_mut_ok:
  assumes "\<And>ff. known_flags S K (f ff)"
  shows "keeps S K (Object_symbol_flags_mut i f) (\<lambda>a. ok_with S K)"
  unfolding Object_symbol_flags_mut_def
proof (rule keeps_get, rule outcome_if)
  fix symbol
  have f: "os_flags_update f = (\<lambda>x. x\<lparr>os_flags := f (os_flags x)\<rparr>)" by (rule ext) simp
  show g: "keeps S K (Object_symbol_mut i (state_modify (os_flags_update f))) (\<lambda>a. ok_with S K)"
    unfolding f by (rule set_symbol_flags_ok) (rule assms)
  show "keeps S K (state_then (state_get (\<lambda>self. Object_default_symbol_flags self symbol)) (\<lambda>flags.
      state_then (Object_symbol_mut i (state_modify (\<lambda>s. s\<lparr>os_flags := flags\<rparr>))) (\<lambda>_.
      Object_symbol_mut i (state_modify (os_flags_update f))))) (\<lambda>a. ok_with S K)"
  proof (rule keeps_get_fact)
    fix ff s
    assume "Object_default_symbol_flags s symbol = Ok ff"
    then have "known_flags S K ff"
      by (auto simp: Object_default_symbol_flags_def coff_symbol_flags_def elf_symbol_flags_def
          macho_symbol_flags_def xcoff_symbol_flags_def known_flags_def Let_def res_simps
          split: binary_format.splits option.splits if_splits symbol_kind.splits)
    then show "keeps S K (state_then (Object_symbol_mut i (state_modify (\<lambda>s. s\<lparr>os_flags := ff\<rparr>))) (\<lambda>_.
        Object_symbol_mut i (state_modify (os_flags_update f)))) (\<lambda>a. ok_with S K)"
      by (intro outcome_then [OF set_symbol_flags_ok g])
  qed
qed

lemma symbol_section_and_offset_ok:
  "keeps S K (Object_symbol_section_and_offset s) (\<lambda>a. ok_with S K)"
  unfolding Object_symbol_section_and_offset_def
proof (rule keeps_get, rule outcome_if)
  fix symbol
  show "keeps S K (case SymbolSection_id (os_section symbol) of
        None \<Rightarrow> state_lift (Ok None)
      | Some sec \<Rightarrow> state_then (Object_section_symbol sec) (\<lambda>section_symbol.
          state_lift (Ok (Some (section_symbol, os_value symbol))))) (\<lambda>a. ok_with S K)"
  proof (cases "SymbolSection_id (os_section symbol)")
    case (Some sec)
    have "keeps S K (state_then (Object_section_symbol sec) (\<lambda>section_symbol.
          state_lift (Ok (Some (section_symbol, os_value symbol))))) (\<lambda>a. ok_with S K)"
      by (rule keeps_step [OF section_symbol_ok]) (auto intro!: keeps_return elim: ok_with_mono)
    then show ?thesis using Some by simp
  qed (simp add: keeps_return)
qed (simp add: keeps_return)

section \<open>Relocations\<close>

lemma outcome_dep: "(\<And>s0. outcome E P (f s0) Q) \<Longrightarrow> outcome E P (\<lambda>s. f s s) Q"
  unfolding outcome_def by blast

lemma adjust_addend_symbol: "Object_adjust_addend self r = Ok (implicit, r') \<Longrightarrow> or_symbol r' = or_symbol r"
  by (auto simp: Object_adjust_addend_def coff_adjust_addend_def macho_adjust_addend_def xcoff_adjust_addend_def
      Let_def res_simps split: binary_format.splits relocation_flags.splits if_splits)

lemma write_addend_at_length: "write_addend_at sz e r data = Ok data' \<Longrightarrow> length data' = length data"
  by (auto simp: write_addend_at_def write_at_def res_simps split: if_splits)

lemma write_relocation_addend_ok:
  "keeps S K (Object_write_relocation_addend i r) (\<lambda>a. ok_with (insert i S) K)"
  unfolding Object_write_relocation_addend_def
proof (rule keeps_get, rule keeps_get, rule section_mut_ok)
  fix sz e and sec :: out_section
  assume sec: "section_data_ok sec"
  show "case state_then (state_get Section_data) (\<lambda>data. state_then (state_lift (write_addend_at sz e r data)) (\<lambda>data.
        state_modify (\<lambda>sec. sec\<lparr>osec_data := data\<rparr>))) sec of
      (Ok a, x) \<Rightarrow> section_kept K sec x | (Err e, x) \<Rightarrow> section_kept K sec x | (Panic, x) \<Rightarrow> True"
  proof (cases "write_addend_at sz e r (osec_data sec)")
    case (Ok data)
    then show ?thesis
      using sec write_addend_at_length [OF Ok]
      by (simp add: state_defs Section_data_def debug_assert_def section_kept_def section_data_ok_def Section_is_bss_def)
  qed (use sec in \<open>simp_all add: state_defs Section_data_def debug_assert_def section_kept_def\<close>)
qed

lemma outcome_ex: "(\<And>k. outcome E (P k) m Q) \<Longrightarrow> outcome E (\<lambda>s. \<exists>k. P k s) m Q"
  unfolding outcome_def by blast

lemma outcome_pure: "(b \<Longrightarrow> outcome E P m Q) \<Longrightarrow> outcome E (\<lambda>s. P s \<and> b) m Q"
  unfolding outcome_def by blast

lemma outcome_weaken:
  "outcome E P m Q \<Longrightarrow> (\<And>s. E s \<Longrightarrow> E' s) \<Longrightarrow> (\<And>a s. Q a s \<Longrightarrow> Q' a s) \<Longrightarrow> outcome E' P m Q'"
  unfolding outcome_def by blast

abbreviation "push_relocation i r \<equiv> Object_section_mut i (state_modify (\<lambda>sec.
  sec\<lparr>osec_relocations := osec_relocations sec @ [r]\<rparr>))"

abbreviation "store_addend i implicit r \<equiv>
  if implicit \<and> or_addend r \<noteq> 0
  then state_then (Object_write_relocation_addend i r) (\<lambda>_. state_lift (Ok (r\<lparr>or_addend := 0\<rparr>)))
  else state_lift (Ok r)"

abbreviation "adjust_and_push i r \<equiv> state_then (state_get (\<lambda>self. Object_adjust_addend self r))
  (\<lambda>(implicit, r). state_then (store_addend i implicit r) (push_relocation i))"

abbreviation "translate_relocation r self \<equiv> case obj_format self of
    BF_Coff \<Rightarrow> coff_translate_relocation r
  | BF_Elf \<Rightarrow> state_lift (and_then (elf_translate_relocation (obj_architecture self) (or_flags r)) (\<lambda>flags.
      Ok (r\<lparr>or_flags := flags\<rparr>)))
  | BF_MachO \<Rightarrow> state_lift (and_then (macho_translate_relocation (obj_architecture self) (or_flags r)) (\<lambda>flags.
      Ok (r\<lparr>or_flags := flags\<rparr>)))
  | BF_Xcoff \<Rightarrow> state_lift (and_then (xcoff_translate_relocation (or_flags r)) (\<lambda>flags.
      Ok (r\<lparr>or_flags := flags\<rparr>)))
  | _ \<Rightarrow> state_lift Panic"

lemma Object_add_relocation_eq:
  "Object_add_relocation i r = (\<lambda>self. state_then (translate_relocation r self) (adjust_and_push i) self)"
  by (rule ext) (rule Object_add_relocation.simps)

lemma push_relocation_ok:
  "or_symbol r \<in> fst ` K \<Longrightarrow> keeps S K (push_relocation i r) (\<lambda>_. ok_with (insert i S) K)"
  by (rule section_mut_ok)
    (auto simp: state_modify_def section_kept_def section_data_ok_def Section_is_bss_def)

lemma store_addend_ok:
  "keeps S K (store_addend i implicit r) (\<lambda>r' self. ok_with S K self \<and> or_symbol r' = or_symbol r)"
  by (rule outcome_if, rule keeps_step [OF write_relocation_addend_ok])
    (auto intro!: keeps_return elim: ok_with_mono)

lemma adjust_and_push_ok:
  assumes "or_symbol r \<in> fst ` K"
  shows "keeps S K (adjust_and_push i r) (\<lambda>_. ok_with (insert i S) K)"
proof (rule keeps_get_fact)
  fix a :: "bool \<times> out_relocation" and self
  obtain implicit x where a: "a = (implicit, x)" by fastforce
  assume "Object_adjust_addend self r = Ok a"
  then have x: "or_symbol x \<in> fst ` K" using assms by (simp add: a adjust_addend_symbol)
  have "keeps S K (state_then (store_addend i implicit x) (push_relocation i)) (\<lambda>_. ok_with (insert i S) K)"
    by (rule outcome_then [OF store_addend_ok], rule outcome_pure, rule push_relocation_ok) (simp add: x)
  then show "keeps S K (case a of (implicit, r) \<Rightarrow> state_then (store_addend i implicit r) (push_relocation i))
      (\<lambda>_. ok_with (insert i S) K)"
    unfolding a prod.case .
qed

text \<open>The translation may add a stub symbol and make the relocation refer to it.\<close>

abbreviation "translated S K r self \<equiv> \<exists>k. ok_with S (insert (or_symbol r, k) K) self"

lemma translated_known: "(or_symbol r, k) \<in> K \<Longrightarrow> ok_with S K self \<Longrightarrow> translated S K r self"
  by (metis insert_absorb)

lemma add_relocation_from:
  assumes "keeps S K (coff_translate_relocation r) (translated S K)" and known: "(or_symbol r, k) \<in> K"
  shows "keeps S K (Object_add_relocation i r) (\<lambda>_. ok_with (insert i S) K)"
  unfolding Object_add_relocation_eq
proof (rule outcome_dep, rule outcome_then)
  fix self
  have flags: "keeps S K (state_lift (and_then m (\<lambda>flags. Ok (r\<lparr>or_flags := flags\<rparr>)))) (translated S K)" for m
    by (rule outcome_lift) (use translated_known [OF known, of S] in \<open>auto simp: res_simps\<close>)
  show "keeps S K (translate_relocation r self) (translated S K)"
  proof (cases "obj_format self")
    case BF_Coff
    then show ?thesis using assms(1) by simp
  qed (simp_all add: flags, simp_all add: outcome_def state_lift_def)
next
  fix r
  show "outcome (ok_with S K) (translated S K r) (adjust_and_push i r) (\<lambda>_. ok_with (insert i S) K)"
  proof (rule outcome_ex)
    fix k
    show "outcome (ok_with S K) (ok_with S (insert (or_symbol r, k) K)) (adjust_and_push i r) (\<lambda>_. ok_with (insert i S) K)"
      by (rule outcome_weaken [OF adjust_and_push_ok]) (auto elim: ok_with_mono)
  qed
qed

lemma coff_translate_from:
  assumes "is_got_relative (or_flags r) \<Longrightarrow> keeps S K (coff_add_stub_symbol (or_symbol r))
      (\<lambda>a self. \<exists>k. ok_with S (insert (a, k) K) self)"
    and known: "(or_symbol r, k) \<in> K"
  shows "keeps S K (coff_translate_relocation r) (translated S K)"
proof (cases "\<exists>kind encoding sz. or_flags r = RF_Generic kind encoding sz")
  case False
  then have "coff_translate_relocation r = state_lift (Ok r)"
    by (intro ext) (simp add: coff_translate_relocation.simps state_lift_def split: relocation_flags.splits)
  then show ?thesis using translated_known [OF known, of S] by (simp add: keeps_return)
next
  case True
  then obtain kind encoding sz where flags: "or_flags r = RF_Generic kind encoding sz" by blast
  let ?rest = "\<lambda>(kind, reloc). state_then (state_get (\<lambda>self.
      coff_reloc_type (obj_architecture self) kind encoding sz (or_addend reloc))) (\<lambda>typ.
    state_lift (Ok (reloc\<lparr>or_flags := RF_Coff typ\<rparr>)))"
  let ?sym = "if kind = K_GotRelative
      then state_then (coff_add_stub_symbol (or_symbol r)) (\<lambda>stub. state_lift (Ok (K_Relative, r\<lparr>or_symbol := stub\<rparr>)))
      else if kind = K_PltRelative then state_lift (Ok (K_Relative, r))
      else state_lift (Ok (kind, r))"
  have eq: "coff_translate_relocation r = state_then ?sym ?rest"
    by (rule ext) (simp add: coff_translate_relocation.simps flags)
  have rest: "outcome (ok_with S K) (translated S K (snd x)) (?rest x) (translated S K)" for x
    by (cases x) (auto simp: outcome_def state_defs split: result.splits elim: ok_with_mono)
  have same: "keeps S K (state_lift (Ok (kind, r))) (\<lambda>x. translated S K (snd x))" for kind
    by (rule keeps_return) (simp add: translated_known [OF known, of S])
  have "keeps S K ?sym (\<lambda>x. translated S K (snd x))"
  proof (rule outcome_if)
    assume "kind = K_GotRelative"
    then have "keeps S K (coff_add_stub_symbol (or_symbol r)) (\<lambda>a self. \<exists>k. ok_with S (insert (a, k) K) self)"
      using assms(1) by (simp add: is_got_relative_def flags)
    then show "keeps S K (state_then (coff_add_stub_symbol (or_symbol r)) (\<lambda>stub.
        state_lift (Ok (K_Relative, r\<lparr>or_symbol := stub\<rparr>)))) (\<lambda>x. translated S K (snd x))"
      by (rule outcome_then) (auto simp: outcome_def state_lift_def)
  qed (rule outcome_if [OF same same])
  then show ?thesis unfolding eq using rest by (rule outcome_then)
qed

lemma add_relocation_not_got:
  "(or_symbol r, k) \<in> K \<Longrightarrow> \<not> is_got_relative (or_flags r) \<Longrightarrow>
    keeps S K (Object_add_relocation i r) (\<lambda>_. ok_with (insert i S) K)"
  by (rule add_relocation_from [OF coff_translate_from]) simp_all

lemma coff_add_stub_symbol_ok:
  assumes "(s, k) \<in> K"
  shows "keeps S K (coff_add_stub_symbol s) (\<lambda>a self. \<exists>k. ok_with S (insert (a, k) K) self)"
proof -
  let ?rel = "\<lambda>bits. \<lparr>or_offset = 0, or_symbol = s, or_addend = 0, or_flags = RF_Generic K_Absolute E_Generic bits\<rparr>"
  let ?stub = "\<lambda>nm sz sec. \<lparr>os_name = ascii ''.refptr.'' @ nm, os_value = 0, os_size = sz,
    os_kind = SymK_Data, os_scope = Scope_Compilation, os_weak = False,
    os_section = SS_Section sec, os_flags = SymF_None\<rparr>"
  let ?tail = "\<lambda>sz sec symbol. state_then (Object_add_raw_symbol (?stub (os_name symbol) sz sec)) (\<lambda>stub_id.
    state_then (state_modify (\<lambda>self. self\<lparr>obj_stub_symbols := (obj_stub_symbols self)(s \<mapsto> stub_id)\<rparr>)) (\<lambda>_.
    state_lift (Ok stub_id)))"
  have tail: "keeps (insert sec S) K (?tail sz sec symbol) (\<lambda>a. ok_with S (insert (a, SymK_Data) K))" for sz sec symbol
  proof (rule keeps_step)
    show "keeps (insert sec S) K (Object_add_raw_symbol (?stub (os_name symbol) sz sec))
        (\<lambda>a. ok_with (insert sec S) (insert (a, SymK_Data) K))"
      using add_raw_symbol_ok [of "?stub (os_name symbol) sz sec" "insert sec S" K]
      by (simp add: known_symbol_def known_flags_def)
    fix a
    have "keeps (insert sec S) (insert (a, SymK_Data) K)
        (state_modify (\<lambda>self. self\<lparr>obj_stub_symbols := (obj_stub_symbols self)(s \<mapsto> a)\<rparr>))
        (\<lambda>_. ok_with (insert sec S) (insert (a, SymK_Data) K))"
      by (rule outcome_modify, rule maps_ok(2) [where k = SymK_Data]) auto
    then show "keeps (insert sec S) (insert (a, SymK_Data) K)
        (state_then (state_modify (\<lambda>self. self\<lparr>obj_stub_symbols := (obj_stub_symbols self)(s \<mapsto> a)\<rparr>)) (\<lambda>_.
         state_lift (Ok a))) (\<lambda>a. ok_with S (insert (a, SymK_Data) K))"
      by (rule outcome_then) (auto intro!: keeps_return elim: ok_with_mono)
  qed auto
  let ?fill = "\<lambda>stub_size sec. state_then (state_lift (word_mul stub_size 8)) (\<lambda>bits.
    state_then (Object_add_relocation sec (?rel bits)) (\<lambda>_.
    state_then (state_get (Object_symbol s)) (?tail (ucast stub_size) sec)))"
  have fill: "keeps (insert sec S) K (?fill stub_size sec) (\<lambda>a. ok_with S (insert (a, SymK_Data) K))"
    for stub_size :: u8 and sec
  proof (rule keeps_lift, rule keeps_step)
    fix bits
    show "keeps (insert sec S) K (Object_add_relocation sec (?rel bits)) (\<lambda>_. ok_with (insert sec S) K)"
      using add_relocation_not_got [of "?rel bits" k K "insert sec S" sec] assms by (simp add: is_got_relative_def)
    show "keeps (insert sec S) K (state_then (state_get (Object_symbol s)) (?tail (ucast stub_size) sec))
        (\<lambda>a. ok_with S (insert (a, SymK_Data) K))"
      by (rule keeps_get) (rule tail)
  qed auto
  let ?make = "state_then (state_get (\<lambda>self. and_then (unwrap (Architecture_address_size (obj_architecture self))) (\<lambda>s.
        Ok (AddressSize_bytes s)))) (\<lambda>stub_size.
    state_then (Object_add_section [] (ascii ''.rdata$.refptr'') SK_ReadOnlyData) (\<lambda>sec.
    state_then (Object_section_mut sec (Section_set_data (replicate (unat stub_size) 0) (ucast stub_size))) (\<lambda>_.
    ?fill stub_size sec)))"
  have make: "keeps S K ?make (\<lambda>a. ok_with S (insert (a, SymK_Data) K))"
  proof (rule keeps_get, rule keeps_step [OF add_section_ok])
    fix stub_size :: u8 and sec
    have "length (replicate (unat stub_size) (0 :: u8)) \<le> isize_max"
      using unat_u8_bound [of stub_size] by (simp add: isize_max_def)
    from set_section_data_ok [OF this, of "insert sec S" K sec]
    show "keeps (insert sec S) K (state_then (Object_section_mut sec (Section_set_data (replicate (unat stub_size) 0)
        (ucast stub_size))) (\<lambda>_. ?fill stub_size sec)) (\<lambda>a. ok_with S (insert (a, SymK_Data) K))"
      unfolding Object_set_section_data_def by (intro outcome_then [OF _ fill]) simp
  qed auto
  have eq: "coff_add_stub_symbol s = (\<lambda>self. case obj_stub_symbols self s of Some a \<Rightarrow> (Ok a, self) | None \<Rightarrow> ?make self)"
    by (rule ext) (rule coff_add_stub_symbol.simps)
  show ?thesis
    unfolding eq
  proof (rule outcome_cached)
    fix self a
    assume "ok_with S K self" "obj_stub_symbols self s = Some a"
    then show "\<exists>k. ok_with S (insert (a, k) K) self"
      by (intro exI [of _ "os_kind (obj_symbols self ! a)"]) (auto simp: object_defs dest: ranI)
  qed (rule keeps_weaken [OF make], blast)
qed

lemma add_relocation_ok:
  "(or_symbol r, k) \<in> K \<Longrightarrow> keeps S K (Object_add_relocation i r) (\<lambda>_. ok_with (insert i S) K)"
  by (rule add_relocation_from [OF coff_translate_from [OF coff_add_stub_symbol_ok]])

section \<open>Data of symbols\<close>

lemma tlv_bootstrap_ok: "keeps S K macho_tlv_bootstrap (\<lambda>a self. \<exists>k. ok_with S (insert (a, k) K) self)"
  unfolding macho_tlv_bootstrap_def
proof (rule outcome_cached)
  show "\<exists>k. ok_with S (insert (a, k) K) self" if "ok_with S K self" "obj_tlv_bootstrap self = Some a" for self a
    using that by (intro exI [of _ "os_kind (obj_symbols self ! a)"]) (auto simp: object_defs)
  let ?sym = "\<lparr>os_name = ascii ''_tlv_bootstrap'', os_value = 0, os_size = 0, os_kind = SymK_Text,
    os_scope = Scope_Dynamic, os_weak = False, os_section = SS_Undefined, os_flags = SymF_None\<rparr>"
  show "keeps S K (state_then (Object_add_symbol ?sym) (\<lambda>i.
      state_then (state_modify (\<lambda>self. self\<lparr>obj_tlv_bootstrap := Some i\<rparr>)) (\<lambda>_. state_lift (Ok i))))
      (\<lambda>a self. \<exists>k. ok_with S (insert (a, k) K) self)"
  proof (rule keeps_step)
    show "keeps S K (Object_add_symbol ?sym) (\<lambda>a. ok_with S (insert (a, SymK_Text) K))"
      using add_symbol_ok [of S K ?sym] by (simp add: known_symbol_def known_flags_def)
    fix a
    have "keeps S (insert (a, SymK_Text) K) (state_modify (\<lambda>self. self\<lparr>obj_tlv_bootstrap := Some a\<rparr>))
        (\<lambda>_. ok_with S (insert (a, SymK_Text) K))"
      by (rule outcome_modify, rule maps_ok(3) [where k = SymK_Text]) auto
    then show "keeps S (insert (a, SymK_Text) K) (state_then (state_modify (\<lambda>self. self\<lparr>obj_tlv_bootstrap := Some a\<rparr>))
        (\<lambda>_. state_lift (Ok a))) (\<lambda>a self. \<exists>k. ok_with S (insert (a, k) K) self)"
      by (rule outcome_then) (blast intro: keeps_return)
  qed auto
qed

lemma keeps_unwrap:
  "keeps S K m (\<lambda>a. ok_with (S' a) (K' a)) \<Longrightarrow> keeps S K (state_unwrap m) (\<lambda>a. ok_with (S' a) (K' a))"
  unfolding outcome_def state_unwrap_def by (auto split: prod.splits result.splits)

lemma tlv_fill_ok:
  assumes "(s, SymK_Tls) \<in> K" "(init, SymK_Tls) \<in> K"
  shows "keeps (insert sec S) K (macho_tlv_fill s init sec address_size sz offset)
    (\<lambda>a. ok_with S (insert (a, SymK_Tls) K))"
  unfolding macho_tlv_fill_def
proof (rule outcome_then [OF tlv_bootstrap_ok], rule outcome_ex)
  fix a k
  let ?S = "insert sec S" and ?K = "insert (a, k) K"
  let ?entry = "state_then (state_lift (word_mul address_size 8)) (\<lambda>bits.
    state_then (state_unwrap (Object_add_relocation sec (pointer_relocation offset a bits))) (\<lambda>_.
    state_then (state_lift (and_then (word_mul (ucast address_size) 2) (word_add offset))) (\<lambda>init_offset.
    state_then (state_unwrap (Object_add_relocation sec (pointer_relocation init_offset init bits))) (\<lambda>_.
    state_then (Object_symbol_mut s (state_modify (\<lambda>s.
        s\<lparr>os_value := offset, os_size := sz, os_section := SS_Section sec\<rparr>))) (\<lambda>_.
    state_lift (Ok init))))))"
  have rel: "keeps ?S ?K (state_unwrap (Object_add_relocation sec (pointer_relocation o1 t bits))) (\<lambda>_. ok_with ?S ?K)"
    if "(t, k') \<in> ?K" for o1 t bits k'
    using keeps_unwrap [OF add_relocation_ok [of "pointer_relocation o1 t bits" k' ?K ?S sec]] that
    by (simp add: pointer_relocation_def)
  have place: "keeps ?S ?K (Object_symbol_mut s (state_modify (\<lambda>s.
      s\<lparr>os_value := offset, os_size := sz, os_section := SS_Section sec\<rparr>))) (\<lambda>_. ok_with ?S ?K)"
    by (rule set_symbol_place_ok [where k = SymK_Tls]) (use assms(1) in simp_all)
  have ret: "keeps ?S ?K (state_lift (Ok init)) (\<lambda>a. ok_with S (insert (a, SymK_Tls) K))"
    by (rule keeps_return) (use assms(2) in \<open>auto elim: ok_with_mono\<close>)
  have "keeps ?S ?K ?entry (\<lambda>a. ok_with S (insert (a, SymK_Tls) K))"
    by (rule keeps_lift, rule outcome_then [OF rel [of a k]], simp, rule keeps_lift,
      rule outcome_then [OF rel [of init SymK_Tls]], simp add: assms(2), rule outcome_then [OF place ret])
  then show "outcome (ok_with (insert sec S) K) (ok_with ?S ?K) ?entry (\<lambda>a. ok_with S (insert (a, SymK_Tls) K))"
    by (rule outcome_weaken) (auto elim: ok_with_mono)
qed

lemma tlv_entry_ok:
  assumes "(s, SymK_Tls) \<in> K" "(init, SymK_Tls) \<in> K"
  shows "keeps S K (macho_tlv_entry s init) (\<lambda>a. ok_with S (insert (a, SymK_Tls) K))"
  unfolding macho_tlv_entry_def
proof (rule keeps_step [OF section_id_ok])
  fix sec
  show "keeps (insert sec S) K (state_then (state_get (\<lambda>self.
        and_then (unwrap (Architecture_address_size (obj_architecture self))) (\<lambda>s. Ok (AddressSize_bytes s)))) (\<lambda>address_size.
      state_then (state_lift (word_mul (ucast address_size :: u64) 3)) (\<lambda>sz.
      state_then (Object_append_section_data sec (replicate (unat sz) 0) (ucast address_size)) (\<lambda>offset.
      macho_tlv_fill s init sec address_size sz offset)))) (\<lambda>a. ok_with S (insert (a, SymK_Tls) K))"
    by (rule keeps_get, rule keeps_lift, rule keeps_step [OF section_ops_ok(1)])
      (auto intro!: tlv_fill_ok assms)
qed auto

lemma add_thread_var_ok:
  assumes "(s, k) \<in> K"
  shows "keeps S K (macho_add_thread_var s) (\<lambda>a. ok_with S (insert (a, k) K))"
  unfolding macho_add_thread_var_def
proof (rule keeps_get_fact)
  fix symbol self
  assume self: "ok_with S K self" "Object_symbol s self = Ok symbol"
  then have kind: "os_kind symbol = k" using assms by (auto simp: ok_with_def Object_symbol_def res_simps)
  let ?init = "\<lparr>os_name = os_name symbol @ ascii ''$tlv$init'', os_value = 0, os_size = 0, os_kind = SymK_Tls,
    os_scope = Scope_Compilation, os_weak = False, os_section = SS_Undefined, os_flags = SymF_None\<rparr>"
  have same: "keeps S K (state_lift (Ok s)) (\<lambda>a. ok_with S (insert (a, k) K))"
    by (rule keeps_return) (use assms in \<open>simp add: insert_absorb\<close>)
  have init: "keeps S K (Object_add_raw_symbol ?init) (\<lambda>a. ok_with S (insert (a, SymK_Tls) K))"
    using add_raw_symbol_ok [of ?init S K] by (simp add: known_symbol_def known_flags_def)
  have "keeps S K (state_then (Object_add_raw_symbol ?init) (macho_tlv_entry s)) (\<lambda>a. ok_with S (insert (a, k) K))"
    if "k = SymK_Tls"
    by (rule keeps_step [OF init]) (use that assms in \<open>auto intro!: keeps_weaken [OF tlv_entry_ok] elim: ok_with_mono\<close>)
  then show "keeps S K (if os_kind symbol \<noteq> SymK_Tls then state_lift (Ok s)
      else state_then (Object_add_raw_symbol ?init) (macho_tlv_entry s)) (\<lambda>a. ok_with S (insert (a, k) K))"
    using same kind by simp
qed

lemma set_symbol_data_ok:
  assumes "sec \<in> S" "(s, k) \<in> K" "k \<noteq> SymK_Section"
  shows "keeps S K (Object_set_symbol_data s sec offset sz) (\<lambda>_. ok_with S K)"
  unfolding Object_set_symbol_data_def
proof (rule keeps_get, rule keeps_lift, rule keeps_get)
  fix fmt
  have "keeps S K (if fmt = BF_MachO then macho_add_thread_var s else state_lift (Ok s))
      (\<lambda>a. ok_with S (insert (a, k) K))"
    using add_thread_var_ok [OF assms(2), of S] assms(2) by (auto intro!: keeps_return simp: insert_absorb)
  then show "keeps S K (state_then (if fmt = BF_MachO then macho_add_thread_var s else state_lift (Ok s)) (\<lambda>s.
      Object_symbol_mut s (state_modify (\<lambda>s. s\<lparr>os_value := offset, os_size := sz, os_section := SS_Section sec\<rparr>))))
      (\<lambda>_. ok_with S K)"
    by (rule keeps_step) (use assms in \<open>auto intro!: keeps_weaken [OF set_symbol_place_ok] elim: ok_with_mono\<close>)
qed

lemma add_symbol_data_ok:
  assumes "(s, k) \<in> K" "k \<noteq> SymK_Section"
  shows "keeps S K (Object_add_symbol_data s sec data align) (\<lambda>_. ok_with S K)"
    and "keeps S K (Object_add_symbol_bss s sec sz align) (\<lambda>_. ok_with S K)"
proof -
  have set: "keeps (insert sec S) K (state_then (Object_set_symbol_data s sec offset n) (\<lambda>_. state_lift (Ok offset)))
      (\<lambda>_. ok_with S K)" for offset n
    by (rule outcome_then [OF set_symbol_data_ok]) (use assms in \<open>auto intro!: keeps_return elim: ok_with_mono\<close>)
  show "keeps S K (Object_add_symbol_data s sec data align) (\<lambda>_. ok_with S K)"
    unfolding Object_add_symbol_data_def
    by (rule keeps_get, rule keeps_step [OF section_ops_ok(1)]) (auto intro: set)
  show "keeps S K (Object_add_symbol_bss s sec sz align) (\<lambda>_. ok_with S K)"
    unfolding Object_add_symbol_bss_def
    by (rule keeps_get, rule keeps_step [OF section_ops_ok(2)]) (auto intro: set)
qed

lemma add_common_symbol_ok:
  assumes "known_symbol S K symbol" "os_kind symbol \<noteq> SymK_Section"
  shows "keeps S K (Object_add_common_symbol symbol sz align) (\<lambda>a. ok_with S (insert (a, os_kind symbol) K))"
  unfolding Object_add_common_symbol_def
proof (rule keeps_get, rule outcome_if, rule keeps_step [OF add_symbol_ok [OF assms(1)]])
  fix a
  let ?K = "insert (a, os_kind symbol) K"
  have "keeps (insert sec S) ?K (state_then (Object_add_symbol_bss a sec sz align) (\<lambda>_. state_lift (Ok a)))
      (\<lambda>a. ok_with S (insert (a, os_kind symbol) K))" for sec
    by (rule outcome_then [OF add_symbol_data_ok(2)]) (use assms(2) in \<open>auto intro!: keeps_return elim: ok_with_mono\<close>)
  then show "keeps S ?K (state_then (Object_section_id Std_Common) (\<lambda>sec.
      state_then (Object_add_symbol_bss a sec sz align) (\<lambda>_. state_lift (Ok a)))) (\<lambda>a. ok_with S (insert (a, os_kind symbol) K))"
    by (intro keeps_step [OF section_id_ok]) auto
next
  have "known_symbol S K (symbol\<lparr>os_section := SS_Common, os_size := sz\<rparr>)" using assms(1) by (simp add: known_symbol_def)
  from add_symbol_ok [OF this] show "keeps S K (Object_add_symbol (symbol\<lparr>os_section := SS_Common, os_size := sz\<rparr>))
      (\<lambda>a. ok_with S (insert (a, os_kind symbol) K))" by simp
qed auto

section \<open>The other operations\<close>

lemma gnu_property_ok: "keeps S K (Object_add_elf_gnu_property_u32 property val) (\<lambda>_. ok_with S K)"
  unfolding Object_add_elf_gnu_property_u32_def
proof (rule outcome_state_if)
  show "keeps S K (\<lambda>self. (Ok (), self)) (\<lambda>_. ok_with S K)" by (simp add: outcome_def)
  have "keeps (insert sec S) K (state_then (Object_append_section_data sec data align) (\<lambda>_. state_lift (Ok ())))
      (\<lambda>_. ok_with S K)" for sec data align
    by (rule outcome_then [OF section_ops_ok(1)]) (auto intro!: keeps_return simp: outcome_def state_lift_def elim: ok_with_mono)
  then show "keeps S K (state_then (state_get (\<lambda>self. and_then (elf_is_64 (obj_architecture self)) (\<lambda>is_64.
           Ok (if is_64 then 8 else 4 :: nat)))) (\<lambda>align.
       state_then (state_get (\<lambda>self. gnu_property_note (obj_endian self) align property val)) (\<lambda>data.
       state_then (Object_section_id Std_GnuProperty) (\<lambda>sec.
       state_then (Object_append_section_data sec data (word_of_nat align)) (\<lambda>_.
       state_lift (Ok ())))))) (\<lambda>_. ok_with S K)"
    by (intro keeps_get keeps_step [OF section_id_ok]) auto
qed

lemma coff_exports_ok: "keeps S K (Object_add_coff_exports style) (\<lambda>_. ok_with S K)"
  unfolding Object_add_coff_exports_def
proof (rule keeps_get, rule keeps_get, rule keeps_step [OF add_section_ok])
  fix directives sec
  show "keeps (insert sec S) K (state_then (Object_append_section_data sec directives 1) (\<lambda>_. state_lift (Ok ())))
      (\<lambda>_. ok_with S K)"
    by (rule outcome_then [OF section_ops_ok(1)]) (auto intro!: keeps_return elim: ok_with_mono)
qed auto

lemma add_comdat_ok:
  assumes "(oc_symbol comdat, k) \<in> K" "set (oc_sections comdat) \<subseteq> S"
  shows "keeps S K (Object_add_comdat comdat) (\<lambda>_. ok_with S K)"
proof -
  have "ok_with S K (self\<lparr>obj_comdats := obj_comdats self @ [comdat]\<rparr>)" if "ok_with S K self" for self
    using that assms by (auto simp: object_defs comdat_ids_ok_def)
  then show ?thesis
    by (auto simp: outcome_def Object_add_comdat_def state_defs)
qed

lemma comdat_mut_ok:
  assumes "\<And>comdat. comdat_ids_ok n m comdat \<Longrightarrow> comdat_ids_ok n m (f comdat)"
    and "ok_with S K self" "n = length (obj_sections self)" "m = length (obj_symbols self)"
    and "Object_comdat_mut i (state_modify f) self = (r, self')" "r \<noteq> Panic"
  shows "ok_with S K self'"
proof -
  have i: "i < length (obj_comdats self)"
    and self': "self' = self\<lparr>obj_comdats := (obj_comdats self)[i := f (obj_comdats self ! i)]\<rparr>"
    using assms(5,6) by (auto simp: Object_comdat_mut_def state_at_def state_modify_def split: if_splits)
  have "comdat_ids_ok n m (f (obj_comdats self ! i))"
    using assms(1-4) i by (simp add: object_defs)
  then show ?thesis
    using assms(2-4) all_set_update [where xs = "obj_comdats self" and i = i and y = "f (obj_comdats self ! i)" and
        P = "comdat_ids_ok n m"]
    by (simp add: self' object_defs)
qed

lemma add_file_symbol_ok: "keeps S K (Object_add_file_symbol name) (\<lambda>a. ok_with S (insert (a, SymK_File) K))"
  unfolding Object_add_file_symbol_def
  using add_raw_symbol_ok [of "\<lparr>os_name = name, os_value = 0, os_size = 0, os_kind = SymK_File,
      os_scope = Scope_Compilation, os_weak = False, os_section = SS_None, os_flags = SymF_None\<rparr>" S K]
  by (simp add: known_symbol_def known_flags_def)

section \<open>Reachable objects\<close>

text \<open>
  What a client can do to an object through its public methods. An id in an argument is one that the
  object has handed out (the fields of the id types are private), a slice has at most \<open>isize_max\<close>
  bytes, and a section symbol is neither moved to another section nor turned into another kind of
  symbol. A panic ends the program, so it is not a step; an error is.
\<close>

definition valid_symbol :: "out_object \<Rightarrow> out_symbol \<Rightarrow> bool" where
  "valid_symbol self symbol \<longleftrightarrow> symbol_ids_ok (length (obj_sections self)) (length (obj_symbols self)) symbol"

definition plain_symbol :: "out_object \<Rightarrow> symbol_id \<Rightarrow> bool" where
  "plain_symbol self s \<longleftrightarrow> s < length (obj_symbols self) \<and> os_kind (obj_symbols self ! s) \<noteq> SymK_Section"

definition valid_comdat :: "out_object \<Rightarrow> out_comdat \<Rightarrow> bool" where
  "valid_comdat self comdat \<longleftrightarrow> comdat_ids_ok (length (obj_sections self)) (length (obj_symbols self)) comdat"

inductive object_step :: "out_object \<Rightarrow> out_object \<Rightarrow> bool" where
  flags: "object_step self (self\<lparr>obj_flags := ff\<rparr>)"
| mangling: "object_step self (Object_set_mangling ma self)"
| sub_architecture: "object_step self (Object_set_sub_architecture sa self)"
| cpu_subtype: "object_step self (Object_set_macho_cpu_subtype cs self)"
| build_version: "object_step self (Object_set_macho_build_version bv self)"
| subsections: "object_step self (Object_set_subsections_via_symbols self)"
| section_id: "Object_section_id std self = (r, self') \<Longrightarrow> r \<noteq> Panic \<Longrightarrow> object_step self self'"
| add_section: "Object_add_section segment name kind self = (r, self') \<Longrightarrow> r \<noteq> Panic \<Longrightarrow> object_step self self'"
| add_subsection: "Object_add_subsection std name self = (r, self') \<Longrightarrow> r \<noteq> Panic \<Longrightarrow> object_step self self'"
| set_section_data: "Object_set_section_data i data align self = (r, self') \<Longrightarrow> r \<noteq> Panic \<Longrightarrow>
    length data \<le> isize_max \<Longrightarrow> object_step self self'"
| append_section_data: "Object_append_section_data i data align self = (r', self') \<Longrightarrow> r' \<noteq> Panic \<Longrightarrow> object_step self self'"
| append_section_bss: "Object_append_section_bss i sz align self = (r', self') \<Longrightarrow> r' \<noteq> Panic \<Longrightarrow> object_step self self'"
| section_flags_mut: "Object_section_flags_mut i f self = (u, self') \<Longrightarrow> u \<noteq> Panic \<Longrightarrow> object_step self self'"
| section_symbol: "Object_section_symbol i self = (r, self') \<Longrightarrow> r \<noteq> Panic \<Longrightarrow> object_step self self'"
| add_symbol: "Object_add_symbol symbol self = (r, self') \<Longrightarrow> r \<noteq> Panic \<Longrightarrow> valid_symbol self symbol \<Longrightarrow>
    object_step self self'"
| add_common_symbol: "Object_add_common_symbol symbol sz align self = (r, self') \<Longrightarrow> r \<noteq> Panic \<Longrightarrow>
    valid_symbol self symbol \<Longrightarrow> os_kind symbol \<noteq> SymK_Section \<Longrightarrow> object_step self self'"
| add_file_symbol: "Object_add_file_symbol name self = (r, self') \<Longrightarrow> r \<noteq> Panic \<Longrightarrow> object_step self self'"
| symbol_mut: "Object_symbol_mut s (state_modify g) self = (u, self') \<Longrightarrow> u \<noteq> Panic \<Longrightarrow>
    symbol_kept (obj_symbols self ! s) (g (obj_symbols self ! s)) \<Longrightarrow>
    valid_symbol self (g (obj_symbols self ! s)) \<Longrightarrow> object_step self self'"
| symbol_flags_mut: "Object_symbol_flags_mut s h self = (u, self') \<Longrightarrow> u \<noteq> Panic \<Longrightarrow>
    (\<And>flags. known_flags {..<length (obj_sections self)} {} (h flags)) \<Longrightarrow> object_step self self'"
| symbol_section_and_offset: "Object_symbol_section_and_offset s self = (v, self') \<Longrightarrow> v \<noteq> Panic \<Longrightarrow> object_step self self'"
| set_symbol_data: "Object_set_symbol_data s i offset sz self = (u, self') \<Longrightarrow> u \<noteq> Panic \<Longrightarrow>
    plain_symbol self s \<Longrightarrow> i < length (obj_sections self) \<Longrightarrow> object_step self self'"
| add_symbol_data: "Object_add_symbol_data s i data align self = (r', self') \<Longrightarrow> r' \<noteq> Panic \<Longrightarrow>
    plain_symbol self s \<Longrightarrow> object_step self self'"
| add_symbol_bss: "Object_add_symbol_bss s i sz align self = (r', self') \<Longrightarrow> r' \<noteq> Panic \<Longrightarrow>
    plain_symbol self s \<Longrightarrow> object_step self self'"
| add_relocation: "Object_add_relocation i relocation self = (u, self') \<Longrightarrow> u \<noteq> Panic \<Longrightarrow>
    or_symbol relocation < length (obj_symbols self) \<Longrightarrow> object_step self self'"
| add_comdat: "Object_add_comdat comdat self = (r, self') \<Longrightarrow> r \<noteq> Panic \<Longrightarrow> valid_comdat self comdat \<Longrightarrow>
    object_step self self'"
| comdat_mut: "Object_comdat_mut i (state_modify k) self = (u, self') \<Longrightarrow> u \<noteq> Panic \<Longrightarrow>
    (\<And>comdat. valid_comdat self comdat \<Longrightarrow> valid_comdat self (k comdat)) \<Longrightarrow> object_step self self'"
| gnu_property: "Object_add_elf_gnu_property_u32 property val self = (u, self') \<Longrightarrow> u \<noteq> Panic \<Longrightarrow> object_step self self'"
| coff_exports: "Object_add_coff_exports style self = (u, self') \<Longrightarrow> u \<noteq> Panic \<Longrightarrow> object_step self self'"

inductive object_reachable :: "binary_format \<Rightarrow> architecture \<Rightarrow> endianness \<Rightarrow> out_object \<Rightarrow> bool"
  for fmt architecture e where
  new: "object_reachable fmt architecture e (Object_new fmt architecture e)"
| step: "object_reachable fmt architecture e self \<Longrightarrow> object_step self self' \<Longrightarrow>
    object_reachable fmt architecture e self'"

lemma keeps_result:
  assumes "keeps S K m Q" "ok_with S K self" "m self = (r, self')" "r \<noteq> Panic" "\<And>a s. Q a s \<Longrightarrow> object_ok s"
  shows "object_ok self'"
  using assms ok_with_ok [of S K self'] by (cases r) (auto simp: outcome_def)

text \<open>All sections and symbols of an object are known in it.\<close>

definition all_symbols :: "out_object \<Rightarrow> (symbol_id \<times> symbol_kind) set" where
  "all_symbols self = {(s, os_kind (obj_symbols self ! s)) | s. s < length (obj_symbols self)}"

lemma all_known: "object_ok self \<Longrightarrow> ok_with {..<length (obj_sections self)} (all_symbols self) self"
  by (auto simp: ok_with_def all_symbols_def)

lemma valid_symbol_known:
  "valid_symbol self symbol \<Longrightarrow> known_symbol {..<length (obj_sections self)} (all_symbols self) symbol"
  by (force simp: valid_symbol_def known_symbol_def known_flags_def symbol_ids_ok_def all_symbols_def
      split: symbol_section.splits symbol_flags.splits option.splits)

lemma symbol_known:
  "s < length (obj_symbols self) \<Longrightarrow> (s, os_kind (obj_symbols self ! s)) \<in> all_symbols self"
  by (auto simp: all_symbols_def)

lemma symbol_mut_result:
  assumes "object_ok self" "Object_symbol_mut s (state_modify g) self = (u, self')" "u \<noteq> Panic"
    and "symbol_kept (obj_symbols self ! s) (g (obj_symbols self ! s))" "valid_symbol self (g (obj_symbols self ! s))"
  shows "object_ok self'"
proof -
  have s: "s < length (obj_symbols self)"
    and self': "self' = self\<lparr>obj_symbols := (obj_symbols self)[s := g (obj_symbols self ! s)]\<rparr>"
    using assms(2,3) by (auto simp: Object_symbol_mut_def state_at_def state_modify_def split: if_splits)
  show ?thesis
    using update_symbol_ok [OF all_known [OF assms(1)] s assms(4)] assms(5)
    by (auto simp: self' valid_symbol_def intro: ok_with_ok)
qed

lemma object_step_ok: "object_step self self' \<Longrightarrow> object_ok self \<Longrightarrow> object_ok self'"
proof (induction rule: object_step.induct)
  case (flags self ff)
  then show ?case using ok_with_other(1) [of "{}" "{}" ff self] by (simp add: ok_with_def)
next
  case (mangling self ma)
  then show ?case using ok_with_other(2) [of "{}" "{}" ma self] by (simp add: ok_with_def Object_set_mangling_def)
next
  case (sub_architecture self sa)
  then show ?case using ok_with_other(3) [of "{}" "{}" sa self] by (simp add: ok_with_def Object_set_sub_architecture_def)
next
  case (cpu_subtype self cs)
  then show ?case using ok_with_other(4) [of "{}" "{}" "Some cs" self] by (simp add: ok_with_def Object_set_macho_cpu_subtype_def)
next
  case (build_version self bv)
  then show ?case using ok_with_other(5) [of "{}" "{}" "Some bv" self] by (simp add: ok_with_def Object_set_macho_build_version_def)
next
  case (subsections self)
  then show ?case using ok_with_other(6) [of "{}" "{}" True self] by (simp add: ok_with_def Object_set_subsections_via_symbols_def)
next
  case (symbol_mut s g self u self')
  then show ?case using symbol_mut_result by blast
next
  case (symbol_flags_mut s h self u self')
  have "known_flags {..<length (obj_sections self)} (all_symbols self) (h flags)" for flags
    using symbol_flags_mut(3) by (rule known_flags_mono) simp_all
  from keeps_result [OF symbol_flags_mut_ok [OF this] all_known [OF symbol_flags_mut(4)] symbol_flags_mut(1,2)]
  show ?case using ok_with_ok by blast
next
  case (add_comdat comdat self r self')
  then have "(oc_symbol comdat, os_kind (obj_symbols self ! oc_symbol comdat)) \<in> all_symbols self"
    "set (oc_sections comdat) \<subseteq> {..<length (obj_sections self)}"
    by (auto simp: valid_comdat_def comdat_ids_ok_def all_symbols_def)
  from keeps_result [OF add_comdat_ok [OF this] all_known [OF add_comdat(4)] add_comdat(1,2)]
  show ?case using ok_with_ok by blast
next
  case (comdat_mut i k self u self')
  show ?case
    by (rule ok_with_ok, rule comdat_mut_ok [OF _ all_known [OF comdat_mut(4)] refl refl comdat_mut(1,2)])
      (use comdat_mut(3) in \<open>simp add: valid_comdat_def\<close>)
next
  case section_id
  then show ?case
    by - (rule keeps_result [OF section_id_ok all_known], auto simp: plain_symbol_def intro: ok_with_ok)
next
  case add_section
  then show ?case
    by - (rule keeps_result [OF add_section_ok all_known], auto simp: plain_symbol_def intro: ok_with_ok)
next
  case add_subsection
  then show ?case
    by - (rule keeps_result [OF add_subsection_ok all_known], auto simp: plain_symbol_def intro: ok_with_ok)
next
  case set_section_data
  then show ?case
    by - (rule keeps_result [OF set_section_data_ok all_known], auto simp: plain_symbol_def intro: ok_with_ok)
next
  case append_section_data
  then show ?case
    by - (rule keeps_result [OF section_ops_ok(1) all_known], auto simp: plain_symbol_def intro: ok_with_ok)
next
  case append_section_bss
  then show ?case
    by - (rule keeps_result [OF section_ops_ok(2) all_known], auto simp: plain_symbol_def intro: ok_with_ok)
next
  case section_flags_mut
  then show ?case
    by - (rule keeps_result [OF section_flags_mut_ok all_known], auto simp: plain_symbol_def intro: ok_with_ok)
next
  case section_symbol
  then show ?case
    by - (rule keeps_result [OF section_symbol_ok all_known], auto simp: plain_symbol_def intro: ok_with_ok)
next
  case add_symbol
  then show ?case
    by - (rule keeps_result [OF add_symbol_ok [OF valid_symbol_known] all_known], auto simp: plain_symbol_def intro: ok_with_ok)
next
  case add_common_symbol
  then show ?case
    by - (rule keeps_result [OF add_common_symbol_ok [OF valid_symbol_known] all_known], auto simp: plain_symbol_def intro: ok_with_ok)
next
  case add_file_symbol
  then show ?case
    by - (rule keeps_result [OF add_file_symbol_ok all_known], auto simp: plain_symbol_def intro: ok_with_ok)
next
  case symbol_section_and_offset
  then show ?case
    by - (rule keeps_result [OF symbol_section_and_offset_ok all_known], auto simp: plain_symbol_def intro: ok_with_ok)
next
  case set_symbol_data
  then show ?case
    by - (rule keeps_result [OF set_symbol_data_ok [OF _ symbol_known] all_known], auto simp: plain_symbol_def intro: ok_with_ok)
next
  case add_symbol_data
  then show ?case
    by - (rule keeps_result [OF add_symbol_data_ok(1) [OF symbol_known] all_known], auto simp: plain_symbol_def intro: ok_with_ok)
next
  case add_symbol_bss
  then show ?case
    by - (rule keeps_result [OF add_symbol_data_ok(2) [OF symbol_known] all_known], auto simp: plain_symbol_def intro: ok_with_ok)
next
  case add_relocation
  then show ?case
    by - (rule keeps_result [OF add_relocation_ok [OF symbol_known] all_known], auto simp: plain_symbol_def intro: ok_with_ok)
next
  case gnu_property
  then show ?case
    by - (rule keeps_result [OF gnu_property_ok all_known], auto simp: plain_symbol_def intro: ok_with_ok)
next
  case coff_exports
  then show ?case
    by - (rule keeps_result [OF coff_exports_ok all_known], auto simp: plain_symbol_def intro: ok_with_ok)
qed

lemma object_reachable_ok: "object_reachable fmt architecture e self \<Longrightarrow> object_ok self"
proof (induction rule: object_reachable.induct)
  case new
  show ?case by (simp add: object_defs Object_new_def)
next
  case (step self self')
  then show ?case by (simp add: object_step_ok)
qed

end
