(* ===== verification/Object_Properties.thy ===== *)
theory Object_Properties
  imports Object_Invariant
begin

text \<open>
  What the object writer promises: the properties of its state, and where it puts the data and the
  standard sections.
\<close>

section \<open>Appending data\<close>

lemma unat_and_mask: "unat (w AND (2 ^ k - 1)) = unat w mod 2 ^ k" for w :: "'w::len word"
proof -
  have "w AND (2 ^ k - 1) = take_bit k w"
    by (simp add: take_bit_eq_mask mask_eq_exp_minus_1)
  moreover have "unat (take_bit k w) = take_bit k (unat w)" by (rule unsigned_take_bit_eq)
  ultimately show ?thesis by (simp add: take_bit_eq_mod [of k "unat w"])
qed

lemma align_up_mod:
  assumes "0 < a" "n mod a \<noteq> 0"
  shows "align_up n a = n + (a - n mod a)"
proof -
  let ?q = "n div a" and ?r = "n mod a"
  have n: "n = ?q * a + ?r" by simp
  have r: "?r < a" "0 < ?r" using assms by simp_all
  have "n + (a - 1) = (?r - 1) + (?q + 1) * a" using r by simp
  then have "(n + (a - 1)) div a = ((?r - 1) + (?q + 1) * a) div a" by simp
  also have "\<dots> = (?q + 1) + (?r - 1) div a" using assms(1) by (intro div_mult_self1) simp
  also have "\<dots> = ?q + 1" using r by simp
  finally have "(n + (a - 1)) div a = ?q + 1" .
  then have "align_up n a = (?q + 1) * a" by (simp add: align_up_def)
  also have "\<dots> = n + (a - ?r)"
    unfolding distrib_right using div_mult_mod_eq [of n a] r by linarith
  finally show ?thesis .
qed

lemma unat_two_power: "k < 64 \<Longrightarrow> unat (2 ^ k :: u64) = 2 ^ k"
proof -
  assume "k < 64"
  then have "(2 :: nat) ^ k < 2 ^ 64" by (rule power_strict_increasing) simp
  then have "unat (word_of_nat (2 ^ k) :: u64) = 2 ^ k" by (simp add: unat_of_nat del: of_nat_power)
  then show ?thesis by simp
qed

lemma offset_align_eq:
  fixes off :: u64
  assumes "k < 64" "unat off + 2 ^ k < 2 ^ 64"
  shows "offset_align off (2 ^ k) = Ok (word_of_nat (align_up (unat off) (2 ^ k)))"
proof -
  have k: "unat (2 ^ k :: u64) = 2 ^ k" by (rule unat_two_power [OF assms(1)])
  have one: "(1 :: u64) \<le> 2 ^ k" by (simp add: word_le_nat_alt k)
  let ?m = "off AND (2 ^ k - 1)" and ?r = "unat off mod 2 ^ k"
  have r: "unat ?m = ?r" by (rule unat_and_mask)
  have less: "?r < 2 ^ k" by simp
  show ?thesis
  proof (cases "?r = 0")
    case True
    then have "?m = 0" using r by (metis unat_eq_zero)
    moreover have "align_up (unat off) (2 ^ k) = unat off"
      using True by (intro align_up_fixed) auto
    ultimately show ?thesis using one by (simp add: offset_align_def word_sub_def)
  next
    case False
    then have m: "?m \<noteq> 0" using r by (metis unat_0)
    have le: "?m \<le> 2 ^ k" using less by (simp add: word_le_nat_alt r k)
    have d: "unat (2 ^ k - ?m) = 2 ^ k - ?r" using le by (simp add: unat_sub r k)
    have up: "align_up (unat off) (2 ^ k) = unat off + (2 ^ k - ?r)"
      using False by (intro align_up_mod) auto
    have "word_add off (2 ^ k - ?m) = Ok (off + (2 ^ k - ?m))"
      using assms(2) by (simp add: word_add_def d)
    moreover have "word_of_nat (unat off + unat (2 ^ k - ?m)) = off + (2 ^ k - ?m)" by simp
    then have "off + (2 ^ k - ?m) = word_of_nat (unat off + (2 ^ k - ?r))" unfolding d by (rule sym)
    ultimately show ?thesis
      using one le m by (simp add: offset_align_def word_sub_def up del: of_nat_add of_nat_diff)
  qed
qed

lemma power_of_two_pow: "k < 64 \<Longrightarrow> power_of_two (2 ^ k)"
proof -
  assume k: "k < 64"
  then have u: "unat (2 ^ k :: u64) = 2 ^ k" by (rule unat_two_power)
  then have "(2 :: u64) ^ k \<noteq> 0" by (metis unat_0 zero_neq_numeral power_not_zero)
  moreover have "unat ((2 :: u64) ^ k AND (2 ^ k - 1)) = 0"
    unfolding unat_and_mask u by simp
  ultimately show ?thesis by (simp add: power_of_two_def unat_eq_zero)
qed

text \<open>C36: Appending data to a section puts it at the next multiple of the alignment, after zeros, returns this offset, and raises the alignment of the section; the data that was there stays in front.\<close>

theorem append_data_aligned:
  assumes "\<not> Section_is_bss sec" "k < 64" "length (osec_data sec) + 2 ^ k + length data \<le> isize_max"
  shows "Section_append_data data (2 ^ k) sec =
    (let n = length (osec_data sec); off = align_up n (2 ^ k);
         filled = osec_data sec @ replicate (off - n) 0 @ data
     in (Ok (word_of_nat off),
         sec\<lparr>osec_data := filled, osec_size := word_of_nat (length filled),
           osec_align := max (osec_align sec) (2 ^ k)\<rparr>))"
proof -
  let ?n = "length (osec_data sec)"
  let ?off = "align_up ?n (2 ^ k)"
  have n: "unat (word_of_nat ?n :: u64) = ?n" using assms(3) by (simp add: isize_max_def unat_of_nat)
  have "?off < ?n + 2 ^ k" "?n \<le> ?off" by (simp_all add: align_up_less align_up_ge)
  then have off: "?off + length data \<le> isize_max" "?n + (?off - ?n) = ?off" using assms(3) by linarith+
  then have u: "unat (word_of_nat ?off :: u64) = ?off" by (simp add: isize_max_def unat_of_nat)
  have "offset_align (word_of_nat ?n) (2 ^ k) = (Ok (word_of_nat ?off) :: (u64, string) result)"
    using offset_align_eq [of k "word_of_nat ?n"] assms(2,3) n by (simp add: isize_max_def)
  moreover have "max (osec_align sec) (2 ^ k) = (if osec_align sec < 2 ^ k then 2 ^ k else osec_align sec)"
    by (auto simp: max_def not_less order.strict_iff_order)
  ultimately show ?thesis
    using assms(1) off power_of_two_pow [OF assms(2)]
    by (simp add: Section_append_data_def state_defs assert_power_of_two_eq debug_assert_def Let_def Vec_grow_def
        Section_is_bss_def u del: of_nat_add)
qed

theorem append_data_aligned_witness:
  "\<exists>sec. Section_append_data [7, 8] (2 ^ 2) ((new_section [] [] SK_Data)\<lparr>osec_data := [1], osec_size := 1\<rparr>) =
    (Ok 4, sec) \<and> osec_data sec = [1, 0, 0, 0, 7, 8] \<and> osec_size sec = 6 \<and> osec_align sec = 4"
proof -
  let ?sec = "(new_section [] [] SK_Data)\<lparr>osec_data := [1 :: u8], osec_size := 1\<rparr>"
  have "length (osec_data ?sec) + 2 ^ 2 + length [7 :: u8, 8] \<le> isize_max" by (simp add: isize_max_def)
  moreover have "align_up (Suc 0) 4 = 4" by (simp add: align_up_def)
  moreover have "replicate 3 (0 :: u8) = [0, 0, 0]" by (simp add: numeral_3_eq_3)
  ultimately show ?thesis
    using append_data_aligned [of ?sec 2 "[7, 8]"]
    by (simp add: new_section_def Section_is_bss_def SectionKind_is_bss_def max_def word_le_nat_alt Let_def)
qed

section \<open>Standard sections\<close>

lemma register_standard_sections_result:
  "register_standard_sections i sec stds self = (Ok (), self') \<Longrightarrow>
    obj_sections self' = obj_sections self \<and> obj_format self' = obj_format self \<and>
    (\<forall>std j. obj_standard_sections self std = Some j \<longrightarrow> obj_standard_sections self' std = Some j) \<and>
    (\<forall>std flags. std \<in> set stds \<and> obj_standard_sections self std = None \<and>
      Object_section_info std self = Ok (osec_segment sec, osec_name sec, osec_kind sec, flags) \<longrightarrow>
      obj_standard_sections self' std = Some i)"
proof (induction stds arbitrary: self)
  case Nil
  then show ?case by (simp add: state_lift_def)
next
  case (Cons std stds)
  let ?reg = "self\<lparr>obj_standard_sections := (obj_standard_sections self)(std \<mapsto> i)\<rparr>"
  have info: "Object_section_info s ?reg = Object_section_info s self" for s by simp
  obtain matches where m: "(if obj_standard_sections self std = None
        then and_then (Object_section_info std self) (\<lambda>(segment, name, kind, _).
          Ok (segment = osec_segment sec \<and> name = osec_name sec \<and> kind = osec_kind sec))
        else Ok False) = (Ok matches :: (bool, string) result)"
    and rest: "register_standard_sections i sec stds (if matches then ?reg else self) = (Ok (), self')"
    using Cons.prems by (auto simp: state_defs split: prod.splits result.splits if_splits)
  note IH = Cons.IH [OF rest]
  show ?case
  proof (cases matches)
    case True
    then have "obj_standard_sections self std = None" using m by (auto split: if_splits)
    with True IH show ?thesis unfolding info by (auto split: if_splits) (metis option.distinct(1))
  next
    case False
    have "std' \<noteq> std" if "obj_standard_sections self std' = None"
      "Object_section_info std' self = Ok (osec_segment sec, osec_name sec, osec_kind sec, flags)" for std' flags
      using that m False by auto
    with False IH show ?thesis by auto
  qed
qed

lemma StandardSection_all_complete: "std \<in> set StandardSection_all"
  by (cases std) (simp_all add: StandardSection_all_def)

text \<open>C37: The section of a standard section is created once: it has the segment, name and kind of the file format, and asking again returns the same section and changes nothing.\<close>

theorem standard_section_once:
  assumes "object_links_ok self" "Object_section_id std self = (Ok i, self')"
  shows "Object_section_id std self' = (Ok i, self') \<and>
    i < length (obj_sections self') \<and>
    (\<exists>flags. Object_section_info std self' = Ok (osec_segment (obj_sections self' ! i),
       osec_name (obj_sections self' ! i), osec_kind (obj_sections self' ! i), flags))"
proof (cases "obj_standard_sections self std")
  case (Some j)
  then have "i = j" "self' = self" using assms(2) by (simp_all add: Object_section_id_def)
  then show ?thesis using assms(1) Some by (auto simp: Object_section_id_def object_links_ok_def)
next
  case None
  let ?n = "length (obj_sections self)"
  obtain segment name kind ff where info: "Object_section_info std self = Ok (segment, name, kind, ff)"
    using assms(2) None by (cases "Object_section_info std self") (auto simp: Object_section_id_def state_defs)
  let ?new = "new_section segment name kind"
  let ?self = "self\<lparr>obj_sections := obj_sections self @ [?new]\<rparr>"
  obtain s1 where reg: "register_standard_sections ?n ?new StandardSection_all ?self = (Ok (), s1)"
    and i: "i = ?n" and self': "self' = s1\<lparr>obj_sections := (obj_sections s1)[?n := (obj_sections s1 ! ?n)\<lparr>osec_flags := ff\<rparr>]\<rparr>"
    using assms(2) None info
    by (auto simp: Object_section_id_def Object_add_section_def Object_section_mut_def state_at_def state_defs
        split: prod.splits result.splits if_splits)
  note r = register_standard_sections_result [OF reg]
  have "Object_section_info std ?self = Ok (osec_segment ?new, osec_name ?new, osec_kind ?new, ff)"
    using info by (simp add: new_section_def)
  then have found: "obj_standard_sections s1 std = Some ?n"
    using r None StandardSection_all_complete [of std] by simp
  have secs: "obj_sections s1 = obj_sections self @ [?new]" and fmt: "obj_format s1 = obj_format self" using r by simp_all
  have "Object_section_info std self' = Object_section_info std self"
    by (simp add: self' fmt Object_section_info_def)
  then show ?thesis
    using found info by (simp add: Object_section_id_def self' i secs new_section_def)
qed

theorem standard_section_once_witness:
  "\<exists>self. Object_section_id Std_Data (Object_new BF_Elf X86_64 Little) = (Ok 0, self) \<and>
    Object_section_id Std_Data self = (Ok 0, self) \<and> osec_name (obj_sections self ! 0) = ascii ''.data''"
proof -
  let ?self = "Object_new BF_Elf X86_64 Little"
  have ok: "object_links_ok ?self" by (simp add: object_links_ok_def Object_new_def)
  obtain self where r: "Object_section_id Std_Data ?self = (Ok 0, self)"
    by (simp add: Object_section_id_def Object_new_def Object_section_info_def elf_section_info_def
        Object_add_section_def StandardSection_all_def new_section_def Object_section_mut_def state_at_def state_defs
        ascii_def)
  have "Object_section_info Std_Data self = Object_section_info Std_Data ?self"
    using r by (auto simp: Object_section_id_def Object_new_def Object_section_info_def elf_section_info_def
        Object_add_section_def StandardSection_all_def new_section_def Object_section_mut_def state_at_def state_defs
        ascii_def)
  then show ?thesis
    using standard_section_once [OF ok r] r
    by (auto simp: Object_section_info_def Object_new_def elf_section_info_def)
qed

section \<open>The state\<close>

text \<open>C34: Every id that a reachable object holds (sections and associated sections of symbols, symbols of relocations, COMDAT groups and sections, and the entries of the maps) refers to an element of the object.\<close>

theorem object_ids_valid:
  assumes "object_reachable fmt architecture e self"
  shows "object_ids_ok self"
  using object_reachable_ok [OF assms] by (simp add: object_ok_def)

text \<open>An object with a section, a section symbol and a relocation that refers to it.\<close>

lemma sample_reachable:
  "\<exists>self. object_reachable BF_Elf X86_64 Little self \<and> obj_symbols self \<noteq> [] \<and>
    (\<exists>r. osec_relocations (obj_sections self ! 0) = [r] \<and> or_symbol r = 0)"
proof -
  let ?s0 = "Object_new BF_Elf X86_64 Little"
  let ?s1 = "?s0\<lparr>obj_sections := [new_section [] [0x61] SK_Data]\<rparr>"
  let ?sym = "\<lparr>os_name = [], os_value = 0, os_size = 0, os_kind = SymK_Section,
    os_scope = Scope_Compilation, os_weak = False, os_section = SS_Section 0, os_flags = SymF_None\<rparr>"
  let ?s3 = "?s0\<lparr>obj_sections := [(new_section [] [0x61] SK_Data)\<lparr>osec_symbol := Some 0\<rparr>], obj_symbols := [?sym]\<rparr>"
  let ?r = "\<lparr>or_offset = 0, or_symbol = 0, or_addend = 5, or_flags = RF_Elf R_X86_64_64\<rparr>"
  let ?s4 = "?s3\<lparr>obj_sections := [(new_section [] [0x61] SK_Data)\<lparr>osec_symbol := Some 0, osec_relocations := [?r]\<rparr>]\<rparr>"
  have "Object_add_section [] [0x61] SK_Data ?s0 = (Ok 0, ?s1)"
    by (simp add: Object_add_section_def StandardSection_all_def Object_new_def Object_section_info_def
        elf_section_info_def new_section_def state_defs ascii_def)
  then have "object_step ?s0 ?s1" by (rule add_section) simp
  moreover have "Object_section_symbol 0 ?s1 = (Ok 0, ?s3)"
    by (simp add: Object_section_symbol_def Object_section_def index_list_def Object_section_mut_def state_at_def
        state_defs Object_new_def new_section_def)
  then have "object_step ?s1 ?s3" by (rule section_symbol) simp
  moreover have "Object_add_relocation 0 ?r ?s3 = (Ok (), ?s4)"
    by (simp add: Object_add_relocation_eq state_defs Object_new_def elf_translate_relocation_def
        Object_adjust_addend_def elf_adjust_addend_def elf_has_relocation_addend_def Object_section_mut_def state_at_def
        new_section_def)
  then have "object_step ?s3 ?s4" by (rule add_relocation) simp_all
  ultimately have "object_reachable BF_Elf X86_64 Little ?s4"
    by (meson object_reachable.new object_reachable.step)
  then show ?thesis by (intro exI [of _ ?s4]) simp
qed

theorem object_ids_valid_witness:
  "\<exists>self. object_reachable BF_Elf X86_64 Little self \<and> obj_symbols self \<noteq> [] \<and> object_ids_ok self"
  using sample_reachable object_ids_valid by blast

text \<open>C35: In every reachable object a section and its symbol refer to each other, no other section symbols exist, the recorded size of a section is that of its data (which a section without data has not), alignments are powers of two, and registered standard sections match the format.\<close>

theorem object_links_kept:
  assumes "object_reachable fmt architecture e self"
  shows "object_links_ok self"
  using object_reachable_ok [OF assms] by (simp add: object_ok_def)

theorem object_links_kept_witness:
  "\<exists>self. object_reachable BF_Elf X86_64 Little self \<and> obj_symbols self \<noteq> [] \<and> object_links_ok self"
  using sample_reachable object_links_kept by blast

end
