(* ===== verification/Coff_Reader.thy ===== *)
theory Coff_Reader
  imports Coff_Types Read_Common
begin

text \<open>
  \<^verbatim>\<open>src/read/coff/\<close>: COFF object files, with 16-bit or 32-bit section numbers (\<^verbatim>\<open>bigobj\<close>).

  The traits \<^verbatim>\<open>CoffHeader\<close> and \<^verbatim>\<open>ImageSymbol\<close> have one implementation for each variant; the argument
  \<open>big\<close> selects it. Their methods on the fields are the fields of the records \<open>coff_header\<close> and
  \<open>i32 image_symbol\<close>, which \<open>CoffHeader_parse\<close> and \<open>symbol_view\<close> construct. A table of symbols is the
  list of the images of its entries, because an entry may be an auxiliary record. The name of a section
  or symbol is an array of 8 bytes. The variants of the methods that check for UTF-8 are left out.
\<close>

definition usize_checked_add :: "nat \<Rightarrow> nat \<Rightarrow> nat option" where
  "usize_checked_add a b = (if a + b \<le> usize_max then Some (a + b) else None)"

text \<open>The bytes before the first null byte.\<close>

definition until_null :: "(u8 \<Rightarrow> bytes \<Rightarrow> nat option) \<Rightarrow> bytes \<Rightarrow> bytes" where
  "until_null memchr bs = (case memchr 0 bs of Some n \<Rightarrow> take n bs | None \<Rightarrow> bs)"

section \<open>File header\<close>

record coff_header =
  ch_machine :: u16
  ch_number_of_sections :: u32
  ch_pointer_to_symbol_table :: u32
  ch_number_of_symbols :: u32
  ch_characteristics :: u16

definition ImageFileHeader_parse :: "bytes \<Rightarrow> u64 \<Rightarrow> (coff_header \<times> u64, string) result" where
  "ImageFileHeader_parse data offset =
    (case read_pod 20 data offset of (r, offset) \<Rightarrow>
     and_then (read_error r ''Invalid COFF file header size or alignment'') (\<lambda>bs.
     let h = decode_image_file_header bs in
     and_then (ok_or (word_checked_add offset (ucast (ifh_size_of_optional_header h)))
       ''Invalid COFF optional header size'') (\<lambda>offset.
     Ok (\<lparr>ch_machine = ifh_machine h, ch_number_of_sections = ucast (ifh_number_of_sections h),
          ch_pointer_to_symbol_table = ifh_pointer_to_symbol_table h,
          ch_number_of_symbols = ifh_number_of_symbols h,
          ch_characteristics = ifh_characteristics h\<rparr>, offset))))"

definition AnonObjectHeaderBigobj_parse :: "bytes \<Rightarrow> u64 \<Rightarrow> (coff_header \<times> u64, string) result" where
  "AnonObjectHeaderBigobj_parse data offset =
    (case read_pod 56 data offset of (r, offset) \<Rightarrow>
     and_then (read_error r ''Invalid COFF bigobj file header size or alignment'') (\<lambda>bs.
     let h = decode_bigobj_header bs in
     if big_sig1 h \<noteq> IMAGE_FILE_MACHINE_UNKNOWN \<or> big_sig2 h \<noteq> 0xffff \<or> big_version h < 2 \<or>
       big_class_id h \<noteq> ANON_OBJECT_HEADER_BIGOBJ_CLASS_ID
     then Err ''Invalid COFF bigobj header values''
     else Ok (\<lparr>ch_machine = big_machine h, ch_number_of_sections = big_number_of_sections h,
         ch_pointer_to_symbol_table = big_pointer_to_symbol_table h,
         ch_number_of_symbols = big_number_of_symbols h, ch_characteristics = 0\<rparr>, offset)))"

definition CoffHeader_parse :: "bool \<Rightarrow> bytes \<Rightarrow> u64 \<Rightarrow> (coff_header \<times> u64, string) result" where
  "CoffHeader_parse big = (if big then AnonObjectHeaderBigobj_parse else ImageFileHeader_parse)"

section \<open>Section headers\<close>

definition SectionTable_parse :: "coff_header \<Rightarrow> bytes \<Rightarrow> u64 \<Rightarrow> (image_section_header list, string) result" where
  "SectionTable_parse header data offset =
    and_then (read_error (read_slice_at 40 data offset (unat (ch_number_of_sections header)))
      ''Invalid COFF/PE section headers'') (\<lambda>chunks.
    Ok (map decode_image_section_header chunks))"

definition SectionTable_enumerate :: "image_section_header list \<Rightarrow> (nat \<times> image_section_header) list" where
  "SectionTable_enumerate self = map (\<lambda>(i, sec). (i + 1, sec)) (enumerate 0 self)"

text \<open>\<^verbatim>\<open>wrapping_sub\<close>: the index 0 becomes \<^verbatim>\<open>usize::MAX\<close>, which no table has.\<close>

definition SectionTable_get :: "image_section_header list \<Rightarrow> nat \<Rightarrow> (image_section_header, string) result" where
  "SectionTable_get self index =
    ok_or (get_opt self (if index = 0 then usize_max else index - 1)) ''Invalid COFF/PE section index''"

definition SectionTable_max_section_file_offset :: "image_section_header list \<Rightarrow> u64" where
  "SectionTable_max_section_file_offset self =
    foldl (\<lambda>m sec.
      case word_checked_add (ucast (ish_pointer_to_raw_data sec)) (ucast (ish_size_of_raw_data sec)) of
        None \<Rightarrow> m
      | Some end_of_section \<Rightarrow> if m < end_of_section then end_of_section else m) 0 self"

definition ImageSectionHeader_kind :: "image_section_header \<Rightarrow> section_kind" where
  "ImageSectionHeader_kind self =
    (let characteristics = ish_characteristics self in
     if characteristics AND (IMAGE_SCN_CNT_CODE OR IMAGE_SCN_MEM_EXECUTE) \<noteq> 0 then SK_Text
     else if characteristics AND IMAGE_SCN_CNT_INITIALIZED_DATA \<noteq> 0 then
       if characteristics AND IMAGE_SCN_MEM_DISCARDABLE \<noteq> 0 then SK_Other
       else if characteristics AND IMAGE_SCN_MEM_WRITE \<noteq> 0 then SK_Data
       else SK_ReadOnlyData
     else if characteristics AND IMAGE_SCN_CNT_UNINITIALIZED_DATA \<noteq> 0 then SK_UninitializedData
     else if characteristics AND IMAGE_SCN_LNK_INFO \<noteq> 0 then SK_Linker
     else SK_Unknown)"

text \<open>The digits of an offset into the string table, to the base 64 after \<^verbatim>\<open>//\<close>, to the base 10 after \<^verbatim>\<open>/\<close>.\<close>

definition base64_digit :: "u8 \<Rightarrow> u8 option" where
  "base64_digit byte =
    (if 0x41 \<le> byte \<and> byte \<le> 0x5a then Some (byte - 0x41)
     else if 0x61 \<le> byte \<and> byte \<le> 0x7a then Some (byte - 0x61 + 26)
     else if 0x30 \<le> byte \<and> byte \<le> 0x39 then Some (byte - 0x30 + 52)
     else if byte = 0x2b then Some 62
     else if byte = 0x2f then Some 63
     else None)"

fun base64_offset :: "bytes \<Rightarrow> u64 \<Rightarrow> (u64, string) result" where
  "base64_offset [] offset = Ok offset"
| "base64_offset (byte # bs) offset =
    and_then (ok_or (base64_digit byte) ''Invalid COFF section name base-64 offset'') (\<lambda>digit.
    and_then (word_mul offset 64) (\<lambda>offset.
    and_then (word_add offset (ucast digit)) (\<lambda>offset.
    base64_offset bs offset)))"

fun base10_offset :: "bytes \<Rightarrow> u32 \<Rightarrow> (u32, string) result" where
  "base10_offset [] offset = Ok offset"
| "base10_offset (byte # bs) offset =
    (if 0x30 \<le> byte \<and> byte \<le> 0x39 then
       and_then (word_mul offset 10) (\<lambda>offset.
       and_then (word_add offset (ucast (byte - 0x30))) (\<lambda>offset.
       base10_offset bs offset))
     else if byte = 0 then Ok offset
     else Err ''Invalid COFF section name base-10 offset'')"

definition name_offset :: "image_section_header \<Rightarrow> (u32 option, string) result" where
  "name_offset self =
    (let bytes = ish_name self in
     if bytes ! 0 \<noteq> 0x2f then Ok None
     else if bytes ! 1 = 0x2f then
       and_then (base64_offset (drop 2 bytes) 0) (\<lambda>offset.
       if unat offset < 2 ^ 32 then Ok (Some (ucast offset))
       else Err ''Invalid COFF section name base-64 offset'')
     else and_then (base10_offset (drop 1 bytes) 0) (\<lambda>offset. Ok (Some offset)))"

definition raw_name :: "(u8 \<Rightarrow> bytes \<Rightarrow> nat option) \<Rightarrow> image_section_header \<Rightarrow> bytes" where
  "raw_name memchr self = until_null memchr (ish_name self)"

definition ImageSectionHeader_name :: "(u8 \<Rightarrow> bytes \<Rightarrow> nat option) \<Rightarrow> image_section_header \<Rightarrow>
    read_string_table \<Rightarrow> (bytes, string) result" where
  "ImageSectionHeader_name memchr self strs =
    and_then (name_offset self) (\<lambda>r. case r of
      Some offset \<Rightarrow> read_error (StringTable_get memchr strs offset) ''Invalid COFF section name offset''
    | None \<Rightarrow> Ok (raw_name memchr self))"

definition coff_file_range :: "image_section_header \<Rightarrow> (u32 \<times> u32) option" where
  "coff_file_range self =
    (if ish_characteristics self AND IMAGE_SCN_CNT_UNINITIALIZED_DATA \<noteq> 0 then None
     else Some (ish_pointer_to_raw_data self, ish_size_of_raw_data self))"

definition coff_data :: "image_section_header \<Rightarrow> bytes \<Rightarrow> (bytes, unit) result" where
  "coff_data self data =
    (case coff_file_range self of
       Some (offset, sz) \<Rightarrow> read_bytes_at data (ucast offset) (ucast sz)
     | None \<Rightarrow> Ok [])"

definition coff_alignment :: "image_section_header \<Rightarrow> u64" where
  "coff_alignment self =
    (let a = ish_characteristics self AND IMAGE_SCN_ALIGN_MASK in
     if a = IMAGE_SCN_ALIGN_1BYTES then 1
     else if a = IMAGE_SCN_ALIGN_2BYTES then 2
     else if a = IMAGE_SCN_ALIGN_4BYTES then 4
     else if a = IMAGE_SCN_ALIGN_8BYTES then 8
     else if a = IMAGE_SCN_ALIGN_16BYTES then 16
     else if a = IMAGE_SCN_ALIGN_32BYTES then 32
     else if a = IMAGE_SCN_ALIGN_64BYTES then 64
     else if a = IMAGE_SCN_ALIGN_128BYTES then 128
     else if a = IMAGE_SCN_ALIGN_256BYTES then 256
     else if a = IMAGE_SCN_ALIGN_512BYTES then 512
     else if a = IMAGE_SCN_ALIGN_1024BYTES then 1024
     else if a = IMAGE_SCN_ALIGN_2048BYTES then 2048
     else if a = IMAGE_SCN_ALIGN_4096BYTES then 4096
     else if a = IMAGE_SCN_ALIGN_8192BYTES then 8192
     else 16)"

text \<open>A section with more than \<^verbatim>\<open>0xfffe\<close> relocations has their number in the first of them.\<close>

definition coff_relocations :: "image_section_header \<Rightarrow> bytes \<Rightarrow> (image_relocation list, string) result" where
  "coff_relocations self data =
    (let pointer = ucast (ish_pointer_to_relocations self);
         number = unat (ish_number_of_relocations self)
     in and_then (if number = 0xffff \<and> ish_characteristics self AND IMAGE_SCN_LNK_NRELOC_OVFL \<noteq> 0
       then
         and_then (read_error (read_pod_at 10 data pointer) ''Invalid COFF relocation offset or number'') (\<lambda>bs.
         let number = unat (ir_virtual_address (decode_image_relocation bs)) in
         if number = 0 then Err ''Invalid COFF relocation number''
         else
           and_then (word_add pointer 10) (\<lambda>pointer.
           and_then (usize_sub number 1) (\<lambda>number.
           Ok (pointer, number))))
       else Ok (pointer, number)) (\<lambda>(pointer, number).
     and_then (read_error (read_slice_at 10 data pointer number) ''Invalid COFF relocation offset or number'') (\<lambda>chunks.
     Ok (map decode_image_relocation chunks))))"

section \<open>Symbols\<close>

text \<open>An entry of the symbol table through the trait \<^verbatim>\<open>ImageSymbol\<close>.\<close>

definition symbol_view :: "bool \<Rightarrow> bytes \<Rightarrow> i32 image_symbol" where
  "symbol_view big bs =
    (if big then decode_image_symbol bs
     else let s = decode_image_symbol bs :: u16 image_symbol in
       \<lparr>is_name = is_name s, is_value = is_value s,
        is_section_number = (if is_section_number s \<ge> IMAGE_SYM_SECTION_MAX
          then scast (is_section_number s) else ucast (is_section_number s)),
        is_typ = is_typ s, is_storage_class = is_storage_class s,
        is_number_of_aux_symbols = is_number_of_aux_symbols s\<rparr>)"

definition ImageSymbol_name :: "(u8 \<Rightarrow> bytes \<Rightarrow> nat option) \<Rightarrow> i32 image_symbol \<Rightarrow> read_string_table \<Rightarrow>
    (bytes, string) result" where
  "ImageSymbol_name memchr self strs =
    (let name = is_name self in
     if name ! 0 = 0
     then read_error (StringTable_get memchr strs (from_le_bytes (slice_at name 4 4)))
       ''Invalid COFF symbol name offset''
     else Ok (until_null memchr name))"

definition ImageSymbol_section :: "i32 image_symbol \<Rightarrow> nat option" where
  "ImageSymbol_section self =
    (if 0 < sint (is_section_number self) then Some (unat (is_section_number self)) else None)"

definition ImageSymbol_address :: "i32 image_symbol \<Rightarrow> u64 \<Rightarrow> image_section_header list \<Rightarrow>
    (u64 option, string) result" where
  "ImageSymbol_address self image_base secs =
    (if is_storage_class self \<notin> {IMAGE_SYM_CLASS_STATIC, IMAGE_SYM_CLASS_WEAK_EXTERNAL,
       IMAGE_SYM_CLASS_LABEL, IMAGE_SYM_CLASS_EXTERNAL}
     then Ok None
     else case ImageSymbol_section self of
       None \<Rightarrow> Ok None
     | Some section_index \<Rightarrow>
         and_then (SectionTable_get secs section_index) (\<lambda>sec.
         and_then (word_add image_base (ucast (ish_virtual_address sec))) (\<lambda>a.
         and_then (word_add a (ucast (is_value self))) (\<lambda>a.
         Ok (Some a)))))"

definition base_type :: "i32 image_symbol \<Rightarrow> u16" where
  "base_type self = is_typ self AND N_BTMASK"

definition derived_type :: "i32 image_symbol \<Rightarrow> u16" where
  "derived_type self = drop_bit N_BTSHFT (is_typ self AND N_TMASK)"

definition has_aux_file_name :: "i32 image_symbol \<Rightarrow> bool" where
  "has_aux_file_name self \<longleftrightarrow>
    0 < is_number_of_aux_symbols self \<and> is_storage_class self = IMAGE_SYM_CLASS_FILE"

definition has_aux_function :: "i32 image_symbol \<Rightarrow> bool" where
  "has_aux_function self \<longleftrightarrow>
    0 < is_number_of_aux_symbols self \<and> derived_type self = IMAGE_SYM_DTYPE_FUNCTION \<and>
    (is_storage_class self = IMAGE_SYM_CLASS_EXTERNAL \<or> is_storage_class self = IMAGE_SYM_CLASS_STATIC)"

definition has_aux_section :: "i32 image_symbol \<Rightarrow> bool" where
  "has_aux_section self \<longleftrightarrow>
    0 < is_number_of_aux_symbols self \<and> is_storage_class self = IMAGE_SYM_CLASS_STATIC \<and> is_typ self = 0"

definition has_aux_weak_external :: "i32 image_symbol \<Rightarrow> bool" where
  "has_aux_weak_external self \<longleftrightarrow>
    0 < is_number_of_aux_symbols self \<and> is_storage_class self = IMAGE_SYM_CLASS_WEAK_EXTERNAL \<and>
    is_section_number self = IMAGE_SYM_UNDEFINED \<and> is_value self = 0"

definition ImageSymbol_is_definition :: "i32 image_symbol \<Rightarrow> bool" where
  "ImageSymbol_is_definition self =
    (if sint (is_section_number self) \<le> 0 then False
     else if is_storage_class self = IMAGE_SYM_CLASS_STATIC then \<not> has_aux_section self
     else is_storage_class self = IMAGE_SYM_CLASS_EXTERNAL \<or>
       is_storage_class self = IMAGE_SYM_CLASS_WEAK_EXTERNAL)"

definition ImageAuxSymbolWeak_default_symbol :: "image_aux_symbol_weak \<Rightarrow> nat" where
  "ImageAuxSymbolWeak_default_symbol self = unat (iaw_default_sym_index self)"

record coff_symbol_table =
  cst_big :: bool
  cst_symbols :: "bytes list"
  cst_strings :: read_string_table

definition coff_symbol_size :: "bool \<Rightarrow> nat" where
  "coff_symbol_size big = (if big then 20 else 18)"

definition CoffSymbolTable_default :: "bool \<Rightarrow> coff_symbol_table" where
  "CoffSymbolTable_default big = \<lparr>cst_big = big, cst_symbols = [], cst_strings = StringTable_default\<rparr>"

definition CoffSymbolTable_parse :: "bool \<Rightarrow> coff_header \<Rightarrow> bytes \<Rightarrow> (coff_symbol_table, string) result" where
  "CoffSymbolTable_parse big header data =
    (let offset = ucast (ch_pointer_to_symbol_table header) in
     if offset \<noteq> 0 then
       (case read_slice (coff_symbol_size big) data offset (unat (ch_number_of_symbols header)) of (r, offset) \<Rightarrow>
        and_then (read_error r ''Invalid COFF symbol table offset or size'') (\<lambda>symbols.
        and_then (read_error (read_pod_at 4 data offset) ''Missing COFF string table'') (\<lambda>bs.
        let len = U_get bs Little :: u32 in
        and_then (ok_or (word_checked_add offset (ucast len)) ''Invalid COFF string table length'') (\<lambda>str_end.
        Ok \<lparr>cst_big = big, cst_symbols = symbols, cst_strings = StringTable_new data offset str_end\<rparr>))))
     else Ok (CoffSymbolTable_default big))"

text \<open>The first \<open>n\<close> bytes of the record at an offset from a symbol.\<close>

definition CoffSymbolTable_get :: "nat \<Rightarrow> coff_symbol_table \<Rightarrow> nat \<Rightarrow> nat \<Rightarrow> (bytes, string) result" where
  "CoffSymbolTable_get n self index offset =
    and_then (ok_or (Option.bind (usize_checked_add index offset) (get_opt (cst_symbols self)))
      ''Invalid COFF symbol index'') (\<lambda>bs.
    read_error (fst (Bytes_read n bs)) ''Invalid COFF symbol data'')"

definition CoffSymbolTable_symbol :: "coff_symbol_table \<Rightarrow> nat \<Rightarrow> (i32 image_symbol, string) result" where
  "CoffSymbolTable_symbol self index =
    and_then (CoffSymbolTable_get (coff_symbol_size (cst_big self)) self index 0) (\<lambda>bs.
    Ok (symbol_view (cst_big self) bs))"

definition aux_function :: "coff_symbol_table \<Rightarrow> nat \<Rightarrow> (image_aux_symbol_function, string) result" where
  "aux_function self index =
    and_then (CoffSymbolTable_get 18 self index 1) (\<lambda>bs. Ok (decode_image_aux_symbol_function bs))"

definition aux_section :: "coff_symbol_table \<Rightarrow> nat \<Rightarrow> (image_aux_symbol_section, string) result" where
  "aux_section self index =
    and_then (CoffSymbolTable_get 18 self index 1) (\<lambda>bs. Ok (decode_image_aux_symbol_section bs))"

definition aux_weak_external :: "coff_symbol_table \<Rightarrow> nat \<Rightarrow> (image_aux_symbol_weak, string) result" where
  "aux_weak_external self index =
    and_then (CoffSymbolTable_get 8 self index 1) (\<lambda>bs. Ok (decode_image_aux_symbol_weak bs))"

definition aux_file_name :: "(u8 \<Rightarrow> bytes \<Rightarrow> nat option) \<Rightarrow> coff_symbol_table \<Rightarrow> nat \<Rightarrow> u8 \<Rightarrow> (bytes, string) result" where
  "aux_file_name memchr self index aux_count =
    and_then (ok_or (Option.bind (usize_checked_add index 1) (\<lambda>x.
        Option.bind (usize_checked_add x (unat aux_count)) (\<lambda>y.
        get_range (cst_symbols self) x y))) ''Invalid COFF symbol index'') (\<lambda>entries.
    Ok (until_null memchr (bytes_of_slice entries)))"

text \<open>\<^verbatim>\<open>self.index.0 += 1 + symbol.number_of_aux_symbols() as usize\<close>\<close>

definition next_symbol_index :: "nat \<Rightarrow> i32 image_symbol \<Rightarrow> (nat, string) result" where
  "next_symbol_index index symbol =
    and_then (usize_add 1 (unat (is_number_of_aux_symbols symbol))) (usize_add index)"

text \<open>The three iterators over symbols differ only in what they return with the index and the symbol.\<close>

definition CoffSymbolIterator_next :: "coff_symbol_table \<Rightarrow> nat \<Rightarrow> ((nat \<times> i32 image_symbol) option, string) result \<times> nat" where
  "CoffSymbolIterator_next symbols index =
    (case CoffSymbolTable_symbol symbols index of
       Ok symbol \<Rightarrow> (case next_symbol_index index symbol of
           Ok i \<Rightarrow> (Ok (Some (index, symbol)), i)
         | _ \<Rightarrow> (Panic, index))
     | Err _ \<Rightarrow> (Ok None, index)
     | Panic \<Rightarrow> (Panic, index))"

end
