(* ===== verification/Coff_File.thy ===== *)
theory Coff_File
  imports Coff_Reader
begin

text \<open>
  \<^verbatim>\<open>src/read/coff/file.rs\<close>, \<^verbatim>\<open>section.rs\<close>, \<^verbatim>\<open>symbol.rs\<close>, \<^verbatim>\<open>relocation.rs\<close>, \<^verbatim>\<open>comdat.rs\<close>: the implementation of
  the unified API for COFF files. A section of a file is its index and its header, a symbol its index
  and its entry. An iterator over a slice is the list of what it still returns.
\<close>

section \<open>CoffFile\<close>

record coff_common =
  cc_sections :: "image_section_header list"
  cc_symbols :: coff_symbol_table
  cc_image_base :: u64

record coff_file =
  cf_header :: coff_header
  cf_common :: coff_common
  cf_data :: bytes

definition CoffFile_parse :: "bool \<Rightarrow> bytes \<Rightarrow> (coff_file, string) result" where
  "CoffFile_parse big data =
    and_then (CoffHeader_parse big data 0) (\<lambda>(header, offset).
    and_then (SectionTable_parse header data offset) (\<lambda>secs.
    and_then (CoffSymbolTable_parse big header data) (\<lambda>symbols.
    Ok \<lparr>cf_header = header,
        cf_common = \<lparr>cc_sections = secs, cc_symbols = symbols, cc_image_base = 0\<rparr>,
        cf_data = data\<rparr>)))"

definition CoffFile_architecture :: "coff_file \<Rightarrow> architecture" where
  "CoffFile_architecture self =
    (let machine = ch_machine (cf_header self) in
     if machine = IMAGE_FILE_MACHINE_ARMNT then Arm
     else if machine = IMAGE_FILE_MACHINE_ARM64 \<or> machine = IMAGE_FILE_MACHINE_ARM64EC then Aarch64
     else if machine = IMAGE_FILE_MACHINE_I386 then I386
     else if machine = IMAGE_FILE_MACHINE_AMD64 then X86_64
     else if machine = IMAGE_FILE_MACHINE_POWERPC \<or> machine = IMAGE_FILE_MACHINE_POWERPCFP \<or>
       machine = IMAGE_FILE_MACHINE_POWERPCBE then PowerPc
     else Arch_Unknown)"

definition CoffFile_sub_architecture :: "coff_file \<Rightarrow> sub_architecture option" where
  "CoffFile_sub_architecture self =
    (if ch_machine (cf_header self) = IMAGE_FILE_MACHINE_ARM64EC then Some Arm64EC else None)"

definition CoffFile_is_little_endian :: "coff_file \<Rightarrow> bool" where
  "CoffFile_is_little_endian self \<longleftrightarrow> ch_machine (cf_header self) \<noteq> IMAGE_FILE_MACHINE_POWERPCBE"

definition CoffFile_is_64 :: "coff_file \<Rightarrow> bool" where
  "CoffFile_is_64 self \<longleftrightarrow> False"

definition CoffFile_kind :: "coff_file \<Rightarrow> object_kind" where
  "CoffFile_kind self = OK_Relocatable"

definition CoffFile_flags :: "coff_file \<Rightarrow> file_flags" where
  "CoffFile_flags self = FF_Coff (ch_characteristics (cf_header self))"

section \<open>Sections and segments\<close>

type_synonym coff_section = "nat \<times> image_section_header"

definition CoffFile_segments :: "coff_file \<Rightarrow> image_section_header list" where
  "CoffFile_segments self = cc_sections (cf_common self)"

definition CoffFile_sections :: "coff_file \<Rightarrow> coff_section list" where
  "CoffFile_sections self = SectionTable_enumerate (cc_sections (cf_common self))"

definition CoffFile_section_by_index :: "coff_file \<Rightarrow> nat \<Rightarrow> (coff_section, string) result" where
  "CoffFile_section_by_index self index =
    and_then (SectionTable_get (cc_sections (cf_common self)) index) (\<lambda>sec. Ok (index, sec))"

text \<open>The bytes and the name of a section or a segment, which are the same section header.\<close>

definition CoffSection_data :: "coff_file \<Rightarrow> image_section_header \<Rightarrow> (bytes, string) result" where
  "CoffSection_data file1 sec = read_error (coff_data sec (cf_data file1)) ''Invalid COFF section offset or size''"

definition CoffSection_name_bytes :: "(u8 \<Rightarrow> bytes \<Rightarrow> nat option) \<Rightarrow> coff_file \<Rightarrow> image_section_header \<Rightarrow>
    (bytes, string) result" where
  "CoffSection_name_bytes memchr file1 sec =
    ImageSectionHeader_name memchr sec (cst_strings (cc_symbols (cf_common file1)))"

definition CoffSection_address :: "image_section_header \<Rightarrow> u64" where
  "CoffSection_address sec = ucast (ish_virtual_address sec)"

definition CoffSection_data_range :: "coff_file \<Rightarrow> image_section_header \<Rightarrow> u64 \<Rightarrow> u64 \<Rightarrow>
    (bytes option, string) result" where
  "CoffSection_data_range file1 sec address sz =
    and_then (CoffSection_data file1 sec) (\<lambda>bs.
    Ok (data_range bs (CoffSection_address sec) address sz))"

definition CoffSection_size :: "image_section_header \<Rightarrow> u64" where
  "CoffSection_size sec = ucast (ish_size_of_raw_data sec)"

definition CoffSegment_size :: "image_section_header \<Rightarrow> u64" where
  "CoffSegment_size sec = ucast (ish_virtual_size sec)"

definition CoffSegment_file_range :: "image_section_header \<Rightarrow> u64 \<times> u64" where
  "CoffSegment_file_range sec =
    (case coff_file_range sec of
       Some (offset, sz) \<Rightarrow> (ucast offset, ucast sz)
     | None \<Rightarrow> (0, 0))"

definition CoffSegment_flags :: "image_section_header \<Rightarrow> segment_flags" where
  "CoffSegment_flags sec = SegF_Coff (ish_characteristics sec)"

definition CoffSection_file_range :: "image_section_header \<Rightarrow> (u64 \<times> u64) option" where
  "CoffSection_file_range sec =
    map_option (\<lambda>(offset, sz). (ucast offset, ucast sz)) (coff_file_range sec)"

definition CoffSection_compressed_file_range :: "image_section_header \<Rightarrow> compressed_file_range" where
  "CoffSection_compressed_file_range sec = CompressedFileRange_none (CoffSection_file_range sec)"

definition CoffSection_compressed_data :: "coff_file \<Rightarrow> image_section_header \<Rightarrow> (compressed_data, string) result" where
  "CoffSection_compressed_data file1 sec =
    and_then (CoffSection_data file1 sec) (\<lambda>bs. Ok (CompressedData_none bs))"

definition CoffSection_flags :: "image_section_header \<Rightarrow> section_flags" where
  "CoffSection_flags sec = SecF_Coff (ish_characteristics sec)"

definition CoffFile_section_by_name_bytes :: "(u8 \<Rightarrow> bytes \<Rightarrow> nat option) \<Rightarrow> coff_file \<Rightarrow> bytes \<Rightarrow>
    coff_section option" where
  "CoffFile_section_by_name_bytes memchr self name =
    find (\<lambda>(index, sec). CoffSection_name_bytes memchr self sec = Ok name) (CoffFile_sections self)"

definition CoffFile_has_debug_symbols :: "(u8 \<Rightarrow> bytes \<Rightarrow> nat option) \<Rightarrow> coff_file \<Rightarrow> bool" where
  "CoffFile_has_debug_symbols memchr self \<longleftrightarrow>
    CoffFile_section_by_name_bytes memchr self (ascii ''.debug_info'') \<noteq> None"

section \<open>Symbols\<close>

type_synonym coff_symbol = "nat \<times> i32 image_symbol"

definition CoffFile_symbol_by_index :: "coff_file \<Rightarrow> nat \<Rightarrow> (coff_symbol, string) result" where
  "CoffFile_symbol_by_index self index =
    and_then (CoffSymbolTable_symbol (cc_symbols (cf_common self)) index) (\<lambda>symbol. Ok (index, symbol))"

text \<open>An iterator over the symbols is the index of the next symbol.\<close>

definition CoffSymbolIterator_new :: "coff_common \<Rightarrow> nat" where
  "CoffSymbolIterator_new file1 = 0"

definition CoffSymbolIterator_empty :: "coff_common \<Rightarrow> nat" where
  "CoffSymbolIterator_empty file1 = length (cst_symbols (cc_symbols file1))"

definition CoffSymbol_name_bytes :: "(u8 \<Rightarrow> bytes \<Rightarrow> nat option) \<Rightarrow> coff_common \<Rightarrow> coff_symbol \<Rightarrow> (bytes, string) result" where
  "CoffSymbol_name_bytes memchr file1 = (\<lambda>(index, symbol).
    if has_aux_file_name symbol
    then aux_file_name memchr (cc_symbols file1) index (is_number_of_aux_symbols symbol)
    else ImageSymbol_name memchr symbol (cst_strings (cc_symbols file1)))"

definition CoffSymbol_address :: "coff_common \<Rightarrow> coff_symbol \<Rightarrow> (u64, string) result" where
  "CoffSymbol_address file1 = (\<lambda>(index, symbol).
    case ImageSymbol_address symbol (cc_image_base file1) (cc_sections file1) of
      Ok (Some a) \<Rightarrow> Ok a
    | Ok None \<Rightarrow> Ok 0
    | Err _ \<Rightarrow> Ok 0
    | Panic \<Rightarrow> Panic)"

definition CoffSymbol_size :: "coff_common \<Rightarrow> coff_symbol \<Rightarrow> u64" where
  "CoffSymbol_size file1 = (\<lambda>(index, symbol).
    if is_storage_class symbol = IMAGE_SYM_CLASS_STATIC then
      if has_aux_section symbol then
        (case aux_section (cc_symbols file1) index of Ok aux \<Rightarrow> ucast (ias_length aux) | _ \<Rightarrow> 0)
      else 0
    else if is_storage_class symbol = IMAGE_SYM_CLASS_EXTERNAL then
      if is_section_number symbol = IMAGE_SYM_UNDEFINED then ucast (is_value symbol)
      else if has_aux_function symbol then
        (case aux_function (cc_symbols file1) index of Ok aux \<Rightarrow> ucast (iaf_total_size aux) | _ \<Rightarrow> 0)
      else 0
    else 0)"

definition CoffSymbol_kind :: "coff_symbol \<Rightarrow> symbol_kind" where
  "CoffSymbol_kind = (\<lambda>(index, symbol).
    let derived_kind = (if derived_type symbol = IMAGE_SYM_DTYPE_FUNCTION then SymK_Text else SymK_Data);
        storage_class = is_storage_class symbol
    in if storage_class = IMAGE_SYM_CLASS_STATIC then
         if has_aux_section symbol then SymK_Section else derived_kind
       else if storage_class = IMAGE_SYM_CLASS_EXTERNAL \<or> storage_class = IMAGE_SYM_CLASS_WEAK_EXTERNAL
       then derived_kind
       else if storage_class = IMAGE_SYM_CLASS_SECTION then SymK_Section
       else if storage_class = IMAGE_SYM_CLASS_FILE then SymK_File
       else if storage_class = IMAGE_SYM_CLASS_LABEL then SymK_Label
       else SymK_Unknown)"

definition CoffSymbol_section :: "coff_symbol \<Rightarrow> symbol_section_kind" where
  "CoffSymbol_section = (\<lambda>(index, symbol).
    let number = is_section_number symbol; storage_class = is_storage_class symbol in
    if number = IMAGE_SYM_UNDEFINED then
      if storage_class = IMAGE_SYM_CLASS_EXTERNAL then
        if is_value symbol = 0 then SS_Undefined else SS_Common
      else if storage_class = IMAGE_SYM_CLASS_SECTION then SS_Undefined
      else SS_Unknown
    else if number = IMAGE_SYM_ABSOLUTE then SS_Absolute
    else if number = IMAGE_SYM_DEBUG then
      if storage_class = IMAGE_SYM_CLASS_FILE then SS_None else SS_Unknown
    else if 0 < sint number then SS_Section (unat number)
    else SS_Unknown)"

definition CoffSymbol_is_undefined :: "coff_symbol \<Rightarrow> bool" where
  "CoffSymbol_is_undefined = (\<lambda>(index, symbol).
    is_storage_class symbol = IMAGE_SYM_CLASS_EXTERNAL \<and>
    is_section_number symbol = IMAGE_SYM_UNDEFINED \<and> is_value symbol = 0)"

definition CoffSymbol_is_definition :: "coff_symbol \<Rightarrow> bool" where
  "CoffSymbol_is_definition = (\<lambda>(index, symbol). ImageSymbol_is_definition symbol)"

definition CoffSymbol_is_common :: "coff_symbol \<Rightarrow> bool" where
  "CoffSymbol_is_common = (\<lambda>(index, symbol).
    is_storage_class symbol = IMAGE_SYM_CLASS_EXTERNAL \<and>
    is_section_number symbol = IMAGE_SYM_UNDEFINED \<and> is_value symbol \<noteq> 0)"

definition CoffSymbol_is_weak :: "coff_symbol \<Rightarrow> bool" where
  "CoffSymbol_is_weak = (\<lambda>(index, symbol). is_storage_class symbol = IMAGE_SYM_CLASS_WEAK_EXTERNAL)"

definition CoffSymbol_is_global :: "coff_symbol \<Rightarrow> bool" where
  "CoffSymbol_is_global = (\<lambda>(index, symbol).
    is_storage_class symbol = IMAGE_SYM_CLASS_EXTERNAL \<or>
    is_storage_class symbol = IMAGE_SYM_CLASS_WEAK_EXTERNAL)"

definition CoffSymbol_is_local :: "coff_symbol \<Rightarrow> bool" where
  "CoffSymbol_is_local self \<longleftrightarrow> \<not> CoffSymbol_is_global self"

definition CoffSymbol_scope :: "coff_symbol \<Rightarrow> symbol_scope" where
  "CoffSymbol_scope self = (if CoffSymbol_is_global self then Scope_Linkage else Scope_Compilation)"

text \<open>The section number of an auxiliary section symbol has 32 bits in \<^verbatim>\<open>bigobj\<close> files.\<close>

definition aux_section_number :: "bool \<Rightarrow> image_aux_symbol_section \<Rightarrow> u32" where
  "aux_section_number big aux =
    (if big then ucast (ias_number aux) OR push_bit 16 (ucast (ias_high_number aux)) else ucast (ias_number aux))"

definition CoffSymbol_flags :: "coff_common \<Rightarrow> coff_symbol \<Rightarrow> (nat, nat) symbol_flags" where
  "CoffSymbol_flags file1 = (\<lambda>(index, symbol).
    if has_aux_section symbol then
      (case aux_section (cc_symbols file1) index of
         Ok aux \<Rightarrow>
           let number = aux_section_number (cst_big (cc_symbols file1)) aux
           in SymF_CoffSection (ias_selection aux) (if number = 0 then None else Some (unat number))
       | _ \<Rightarrow> SymF_None)
    else SymF_None)"

section \<open>Relocations\<close>

text \<open>Kind, encoding, size and addend of a relocation type: the \<^verbatim>\<open>match\<close> of \<^verbatim>\<open>CoffRelocationIterator::next\<close>.\<close>

definition coff_relocation_info :: "u16 \<Rightarrow> u16 \<Rightarrow> relocation_kind \<times> relocation_encoding \<times> u8 \<times> i64" where
  "coff_relocation_info machine typ =
    (let g = E_Generic; unknown = (K_Unknown, E_Generic, 0, 0) in
     if machine = IMAGE_FILE_MACHINE_ARMNT then
       if typ = IMAGE_REL_ARM_ADDR32 then (K_Absolute, g, 32, 0)
       else if typ = IMAGE_REL_ARM_ADDR32NB then (K_ImageOffset, g, 32, 0)
       else if typ = IMAGE_REL_ARM_REL32 then (K_Relative, g, 32, -4)
       else if typ = IMAGE_REL_ARM_SECTION then (K_SectionIndex, g, 16, 0)
       else if typ = IMAGE_REL_ARM_SECREL then (K_SectionOffset, g, 32, 0)
       else unknown
     else if machine = IMAGE_FILE_MACHINE_ARM64 \<or> machine = IMAGE_FILE_MACHINE_ARM64EC then
       if typ = IMAGE_REL_ARM64_ADDR32 then (K_Absolute, g, 32, 0)
       else if typ = IMAGE_REL_ARM64_ADDR32NB then (K_ImageOffset, g, 32, 0)
       else if typ = IMAGE_REL_ARM64_SECREL then (K_SectionOffset, g, 32, 0)
       else if typ = IMAGE_REL_ARM64_SECTION then (K_SectionIndex, g, 16, 0)
       else if typ = IMAGE_REL_ARM64_ADDR64 then (K_Absolute, g, 64, 0)
       else if typ = IMAGE_REL_ARM64_REL32 then (K_Relative, g, 32, -4)
       else if typ = IMAGE_REL_ARM64_BRANCH26 then (K_Relative, E_AArch64Call, 26, 0)
       else unknown
     else if machine = IMAGE_FILE_MACHINE_I386 then
       if typ = IMAGE_REL_I386_DIR16 then (K_Absolute, g, 16, 0)
       else if typ = IMAGE_REL_I386_REL16 then (K_Relative, g, 16, 0)
       else if typ = IMAGE_REL_I386_DIR32 then (K_Absolute, g, 32, 0)
       else if typ = IMAGE_REL_I386_DIR32NB then (K_ImageOffset, g, 32, 0)
       else if typ = IMAGE_REL_I386_SECTION then (K_SectionIndex, g, 16, 0)
       else if typ = IMAGE_REL_I386_SECREL then (K_SectionOffset, g, 32, 0)
       else if typ = IMAGE_REL_I386_SECREL7 then (K_SectionOffset, g, 7, 0)
       else if typ = IMAGE_REL_I386_REL32 then (K_Relative, g, 32, -4)
       else unknown
     else if machine = IMAGE_FILE_MACHINE_AMD64 then
       if typ = IMAGE_REL_AMD64_ADDR64 then (K_Absolute, g, 64, 0)
       else if typ = IMAGE_REL_AMD64_ADDR32 then (K_Absolute, g, 32, 0)
       else if typ = IMAGE_REL_AMD64_ADDR32NB then (K_ImageOffset, g, 32, 0)
       else if typ = IMAGE_REL_AMD64_REL32 then (K_Relative, g, 32, -4)
       else if typ = IMAGE_REL_AMD64_REL32_1 then (K_Relative, g, 32, -5)
       else if typ = IMAGE_REL_AMD64_REL32_2 then (K_Relative, g, 32, -6)
       else if typ = IMAGE_REL_AMD64_REL32_3 then (K_Relative, g, 32, -7)
       else if typ = IMAGE_REL_AMD64_REL32_4 then (K_Relative, g, 32, -8)
       else if typ = IMAGE_REL_AMD64_REL32_5 then (K_Relative, g, 32, -9)
       else if typ = IMAGE_REL_AMD64_SECTION then (K_SectionIndex, g, 16, 0)
       else if typ = IMAGE_REL_AMD64_SECREL then (K_SectionOffset, g, 32, 0)
       else if typ = IMAGE_REL_AMD64_SECREL7 then (K_SectionOffset, g, 7, 0)
       else unknown
     else unknown)"

definition ImageRelocation_symbol :: "image_relocation \<Rightarrow> nat" where
  "ImageRelocation_symbol self = unat (ir_symbol_table_index self)"

definition coff_relocation :: "u16 \<Rightarrow> image_relocation \<Rightarrow> u64 \<times> relocation" where
  "coff_relocation machine r =
    (case coff_relocation_info machine (ir_typ r) of (kind, encoding, sz, addend) \<Rightarrow>
     (ucast (ir_virtual_address r),
      \<lparr>rel_kind = kind, rel_encoding = encoding, rel_bits = sz,
       rel_target = RT_Symbol (ImageRelocation_symbol r), rel_addend = addend,
       rel_implicit_addend = True, rel_flags = RF_Coff (ir_typ r)\<rparr>))"

definition CoffSection_relocations :: "coff_file \<Rightarrow> image_section_header \<Rightarrow> (u64 \<times> relocation) list" where
  "CoffSection_relocations file1 sec =
    (case coff_relocations sec (cf_data file1) of
       Ok rs \<Rightarrow> map (coff_relocation (ch_machine (cf_header file1))) rs
     | _ \<Rightarrow> [])"

definition CoffSection_relocation_map :: "coff_file \<Rightarrow> image_section_header \<Rightarrow> (relocation_map, string) result" where
  "CoffSection_relocation_map file1 sec =
    RelocationMap_new
      (\<lambda>index. and_then (CoffFile_symbol_by_index file1 index) (CoffSymbol_address (cf_common file1)))
      (\<lambda>index. and_then (CoffFile_section_by_index file1 index) (\<lambda>(_, s).
        Ok (ImageSectionHeader_kind s, CoffSection_address s)))
      (CoffSection_relocations file1 sec)"

section \<open>COMDAT groups\<close>

record coff_comdat =
  ccd_symbol_index :: nat
  ccd_symbol :: "i32 image_symbol"
  ccd_selection :: u8

lemma CoffSymbolTable_symbol_bound:
  "CoffSymbolTable_symbol self index = Ok s \<Longrightarrow> index < length (cst_symbols self)"
  by (auto simp: CoffSymbolTable_symbol_def CoffSymbolTable_get_def get_opt_def usize_checked_add_def res_simps
      split: if_splits)

lemma next_symbol_index_eq_Ok:
  "next_symbol_index index symbol = Ok i \<longleftrightarrow>
    i = index + Suc (unat (is_number_of_aux_symbols symbol)) \<and>
    index + Suc (unat (is_number_of_aux_symbols symbol)) \<le> usize_max"
  by (auto simp: next_symbol_index_def res_simps)

text \<open>The loop that looks for the first symbol of the section after the section symbol.\<close>

function comdat_symbol_loop :: "coff_symbol_table \<Rightarrow> i32 \<Rightarrow> nat \<Rightarrow> i32 image_symbol \<Rightarrow>
    ((nat \<times> i32 image_symbol) option, string) result" where
  "comdat_symbol_loop symbols number index symbol =
    and_then (next_symbol_index index symbol) (\<lambda>index.
    case CoffSymbolTable_symbol symbols index of
      Ok symbol \<Rightarrow>
        if number = is_section_number symbol then Ok (Some (index, symbol))
        else comdat_symbol_loop symbols number index symbol
    | Err _ \<Rightarrow> Ok None
    | Panic \<Rightarrow> Panic)"
  by pat_completeness auto

termination
  by (relation "measure (\<lambda>(symbols, number, index, symbol). length (cst_symbols symbols) - index)")
    (auto simp: next_symbol_index_eq_Ok dest!: CoffSymbolTable_symbol_bound)

declare comdat_symbol_loop.simps [simp del]

definition CoffComdat_parse :: "coff_symbol_table \<Rightarrow> i32 image_symbol \<Rightarrow> nat \<Rightarrow> (coff_comdat option, string) result" where
  "CoffComdat_parse symbols section_symbol index =
    (if \<not> has_aux_section section_symbol then Ok None
     else case aux_section symbols index of
       Ok aux \<Rightarrow>
         let selection = ias_selection aux in
         if selection = 0 \<or> selection = IMAGE_COMDAT_SELECT_ASSOCIATIVE then Ok None
         else
           and_then (comdat_symbol_loop symbols (is_section_number section_symbol) index section_symbol) (\<lambda>r.
           Ok (map_option (\<lambda>(i, symbol).
             \<lparr>ccd_symbol_index = i, ccd_symbol = symbol, ccd_selection = selection\<rparr>) r))
     | Err _ \<Rightarrow> Ok None
     | Panic \<Rightarrow> Panic)"

text \<open>The iterators over the groups and over the sections of a group; the state is the symbol index.\<close>

function CoffComdatIterator_next :: "coff_symbol_table \<Rightarrow> nat \<Rightarrow> (coff_comdat option, string) result \<times> nat" where
  "CoffComdatIterator_next symbols index =
    (case CoffSymbolTable_symbol symbols index of
       Ok symbol \<Rightarrow>
         (case next_symbol_index index symbol of
            Ok i \<Rightarrow>
              (case CoffComdat_parse symbols symbol index of
                 Ok (Some comdat) \<Rightarrow> (Ok (Some comdat), i)
               | Ok None \<Rightarrow> CoffComdatIterator_next symbols i
               | Err e \<Rightarrow> (Err e, i)
               | Panic \<Rightarrow> (Panic, i))
          | _ \<Rightarrow> (Panic, index))
     | Err _ \<Rightarrow> (Ok None, index)
     | Panic \<Rightarrow> (Panic, index))"
  by pat_completeness auto

termination
  by (relation "measure (\<lambda>(symbols, index). length (cst_symbols symbols) - index)")
    (auto simp: next_symbol_index_eq_Ok dest!: CoffSymbolTable_symbol_bound)

declare CoffComdatIterator_next.simps [simp del]

definition CoffComdat_kind :: "coff_comdat \<Rightarrow> comdat_kind" where
  "CoffComdat_kind self =
    (let selection = ccd_selection self in
     if selection = IMAGE_COMDAT_SELECT_NODUPLICATES then CK_NoDuplicates
     else if selection = IMAGE_COMDAT_SELECT_ANY then CK_Any
     else if selection = IMAGE_COMDAT_SELECT_SAME_SIZE then CK_SameSize
     else if selection = IMAGE_COMDAT_SELECT_EXACT_MATCH then CK_ExactMatch
     else if selection = IMAGE_COMDAT_SELECT_LARGEST then CK_Largest
     else if selection = IMAGE_COMDAT_SELECT_NEWEST then CK_Newest
     else CK_Unknown)"

definition CoffComdat_name_bytes :: "(u8 \<Rightarrow> bytes \<Rightarrow> nat option) \<Rightarrow> coff_symbol_table \<Rightarrow> coff_comdat \<Rightarrow>
    (bytes, string) result" where
  "CoffComdat_name_bytes memchr symbols self = ImageSymbol_name memchr (ccd_symbol self) (cst_strings symbols)"

text \<open>\<^verbatim>\<open>section_number as usize\<close> extends the sign.\<close>

function CoffComdatSectionIterator_next :: "coff_symbol_table \<Rightarrow> i32 \<Rightarrow> nat \<Rightarrow> (nat option, string) result \<times> nat" where
  "CoffComdatSectionIterator_next symbols number index =
    (case CoffSymbolTable_symbol symbols index of
       Ok symbol \<Rightarrow>
         (case next_symbol_index index symbol of
            Ok i \<Rightarrow>
              if \<not> has_aux_section symbol then CoffComdatSectionIterator_next symbols number i
              else
                (case aux_section symbols index of
                   Ok aux \<Rightarrow>
                     let section_number = is_section_number symbol;
                         found = (Ok (Some (unat (scast section_number :: u64))), i)
                     in if ias_selection aux = IMAGE_COMDAT_SELECT_ASSOCIATIVE then
                          if aux_section_number (cst_big symbols) aux = number then found
                          else CoffComdatSectionIterator_next symbols number i
                        else if ias_selection aux \<noteq> 0 \<and> section_number = number then found
                        else CoffComdatSectionIterator_next symbols number i
                 | Err _ \<Rightarrow> (Ok None, i)
                 | Panic \<Rightarrow> (Panic, i))
          | _ \<Rightarrow> (Panic, index))
     | Err _ \<Rightarrow> (Ok None, index)
     | Panic \<Rightarrow> (Panic, index))"
  by pat_completeness auto

termination
  by (relation "measure (\<lambda>(symbols, number, index). length (cst_symbols symbols) - index)")
    (auto simp: next_symbol_index_eq_Ok dest!: CoffSymbolTable_symbol_bound)

declare CoffComdatSectionIterator_next.simps [simp del]

end
