(* ===== verification/Coff_Safety.thy ===== *)
theory Coff_Safety
  imports Coff_File Iterators
begin

text \<open>
  Reading COFF files of arbitrary contents: nothing panics and the iterators over symbols, COMDAT
  groups and their sections end. \<open>coff_table_ok\<close> is what parsing establishes of a symbol table.
\<close>

section \<open>Tables\<close>

definition coff_table_ok :: "coff_symbol_table \<Rightarrow> bool" where
  "coff_table_ok self \<longleftrightarrow> length (cst_symbols self) + 256 \<le> usize_max \<and>
    (\<forall>bs \<in> set (cst_symbols self). length bs = coff_symbol_size (cst_big self))"

lemma length_chunks_bytes: "n * cnt \<le> length bs \<Longrightarrow> c \<in> set (chunks n cnt bs) \<Longrightarrow> length c = n"
  by (induction n cnt bs rule: chunks.induct) auto

lemma read_slice_chunks:
  assumes "read_slice n data offset cnt = (Ok cs, offset')" "length data \<le> usize_max"
  shows "length cs = cnt \<and> (\<forall>c \<in> set cs. length c = n) \<and> cnt * n \<le> length data"
proof -
  from assms(1) have fit: "cnt * n \<le> usize_max" by (auto simp: read_slice_def split: if_splits)
  have u: "unat (word_of_nat (cnt * n) :: u64) = cnt * n" using fit by (rule unat_word_of_nat_u64)
  obtain bs where r: "read_bytes_at data offset (word_of_nat (cnt * n)) = Ok bs"
    and s: "slice_from_bytes_1 n bs cnt = Ok (cs, drop (cnt * n) bs)" "cnt * n \<le> length bs"
    using assms(1) fit
    by (auto simp: read_slice_def read_bytes_def slice_from_bytes_def res_simps split: prod.splits result.splits)
  have cs: "cs = chunks n cnt bs" using s fit by (auto simp: slice_from_bytes_def res_simps)
  have "cnt * n \<le> length data"
  proof (cases "cnt * n = 0")
    case False
    then have "(word_of_nat (cnt * n) :: u64) \<noteq> 0" using u by (metis unsigned_0)
    then show ?thesis using r u by (simp add: read_bytes_at_eq_Ok del: of_nat_mult)
  qed (simp only: le0)
  then show ?thesis using s(2) length_chunks_bytes [of n cnt bs] cs by (simp add: mult.commute)
qed

lemma coff_symbol_size_pos: "0 < coff_symbol_size big"
  by (simp add: coff_symbol_size_def)

lemma CoffSymbolTable_parse_ok:
  assumes "CoffSymbolTable_parse big header data = Ok symbols" "length data \<le> isize_max"
  shows "coff_table_ok symbols"
proof (cases "ch_pointer_to_symbol_table header = 0")
  case True
  then show ?thesis
    using assms(1) by (auto simp: CoffSymbolTable_parse_def CoffSymbolTable_default_def coff_table_ok_def
        usize_max_def Let_def)
next
  case False
  moreover have "unat (ucast (ch_pointer_to_symbol_table header) :: u64) = unat (ch_pointer_to_symbol_table header)"
    by (rule unat_ucast_le) simp
  ultimately have "(ucast (ch_pointer_to_symbol_table header) :: u64) \<noteq> 0"
    by (metis unat_eq_zero)
  then obtain cs off where r: "read_slice (coff_symbol_size big) data (ucast (ch_pointer_to_symbol_table header))
      (unat (ch_number_of_symbols header)) = (Ok cs, off)" "cst_symbols symbols = cs" "cst_big symbols = big"
    using assms(1)
    by (auto simp: CoffSymbolTable_parse_def Let_def res_simps split: prod.splits)
  have "length data \<le> usize_max" using assms(2) by (simp add: isize_max_def usize_max_def)
  from read_slice_chunks [OF r(1) this] have c: "\<forall>c \<in> set cs. length c = coff_symbol_size big"
    "length cs * coff_symbol_size big \<le> length data" by auto
  have "length cs \<le> length cs * coff_symbol_size big" using coff_symbol_size_pos [of big] by simp
  then have "length cs \<le> isize_max" using c(2) assms(2) by linarith
  then show ?thesis using c(1) r(2,3) by (simp add: coff_table_ok_def isize_max_def usize_max_def)
qed

lemma CoffSymbolTable_parse_no_panic: "CoffSymbolTable_parse big header data \<noteq> Panic"
  by (auto simp: CoffSymbolTable_parse_def Let_def and_then_eq_Panic read_slice_no_panic read_pod_at_no_panic
      res_simps ok_or_def split: prod.splits option.splits)


section \<open>Entries\<close>

lemma get_opt_set: "get_opt xs i = Some x \<Longrightarrow> x \<in> set xs"
  by (auto simp: get_opt_def split: if_splits)

lemma CoffSymbolTable_get_cases:
  assumes "coff_table_ok self" "n \<le> coff_symbol_size (cst_big self)" "index \<le> length (cst_symbols self)" "offset \<le> 1"
  shows "CoffSymbolTable_get n self index offset =
    (if index + offset < length (cst_symbols self) then Ok (take n (cst_symbols self ! (index + offset)))
     else Err ''Invalid COFF symbol index'')"
proof -
  have fit: "index + offset \<le> usize_max" using assms by (simp add: coff_table_ok_def)
  show ?thesis
  proof (cases "index + offset < length (cst_symbols self)")
    case True
    then have "length (cst_symbols self ! (index + offset)) = coff_symbol_size (cst_big self)"
      using assms(1) by (simp add: coff_table_ok_def)
    then show ?thesis
      using True fit assms(2) by (simp add: CoffSymbolTable_get_def usize_checked_add_def get_opt_def Bytes_read_ok)
  qed (use fit in \<open>simp add: CoffSymbolTable_get_def usize_checked_add_def get_opt_def\<close>)
qed

lemma CoffSymbolTable_symbol_beyond:
  "length (cst_symbols self) \<le> index \<Longrightarrow> CoffSymbolTable_symbol self index = Err ''Invalid COFF symbol index''"
  by (auto simp: CoffSymbolTable_symbol_def CoffSymbolTable_get_def usize_checked_add_def get_opt_def)

lemma CoffSymbolTable_symbol_cases:
  assumes "coff_table_ok self"
  shows "CoffSymbolTable_symbol self index =
    (if index < length (cst_symbols self) then Ok (symbol_view (cst_big self) (cst_symbols self ! index))
     else Err ''Invalid COFF symbol index'')"
proof (cases "index \<le> length (cst_symbols self)")
  case True
  have "length (cst_symbols self ! index) = coff_symbol_size (cst_big self)" if "index < length (cst_symbols self)"
    using assms that by (simp add: coff_table_ok_def)
  then show ?thesis
    using CoffSymbolTable_get_cases [OF assms le_refl True, of 0]
    by (simp add: CoffSymbolTable_symbol_def)
next
  case False
  then show ?thesis by (simp add: CoffSymbolTable_symbol_beyond)
qed

lemma aux_section_cases:
  assumes "coff_table_ok self" "index < length (cst_symbols self)"
  shows "aux_section self index =
    (if index + 1 < length (cst_symbols self)
     then Ok (decode_image_aux_symbol_section (take 18 (cst_symbols self ! (index + 1))))
     else Err ''Invalid COFF symbol index'')"
  using CoffSymbolTable_get_cases [OF assms(1), of 18 index 1] assms(2)
  by (simp add: aux_section_def coff_symbol_size_def)

lemma next_symbol_index_ok:
  assumes "coff_table_ok self" "index < length (cst_symbols self)"
  shows "next_symbol_index index symbol = Ok (Suc (index + unat (is_number_of_aux_symbols symbol)))"
  using assms unat_u8_bound [of "is_number_of_aux_symbols symbol"]
  by (simp add: next_symbol_index_eq_Ok coff_table_ok_def)

section \<open>The iterators\<close>

text \<open>What is left of an iterator: the entries from its index on.\<close>

definition entries_left :: "coff_symbol_table \<Rightarrow> nat \<Rightarrow> nat" where
  "entries_left symbols index = length (cst_symbols symbols) - index"

interpretation coff_symbols: fallible_iterator "CoffSymbolIterator_next symbols" "entries_left symbols"
  "\<lambda>_. coff_table_ok symbols" for symbols
proof
  fix it assume "entries_left symbols it = 0"
  then show "CoffSymbolIterator_next symbols it = (Ok None, it)"
    by (simp add: CoffSymbolIterator_next_def CoffSymbolTable_symbol_beyond entries_left_def)
qed (auto simp: CoffSymbolIterator_next_def CoffSymbolTable_symbol_cases next_symbol_index_ok entries_left_def
    split: if_splits)

lemma comdat_symbol_loop_ok:
  "coff_table_ok symbols \<Longrightarrow> index < length (cst_symbols symbols) \<Longrightarrow>
    \<exists>r. comdat_symbol_loop symbols number index symbol = Ok r"
proof (induction symbols number index symbol rule: comdat_symbol_loop.induct)
  case (1 symbols number index symbol)
  let ?i = "Suc (index + unat (is_number_of_aux_symbols symbol))"
  note nxt = next_symbol_index_ok [OF 1(2,3), of symbol]
  show ?case
  proof (cases "?i < length (cst_symbols symbols)")
    case True
    then have s: "CoffSymbolTable_symbol symbols ?i = Ok (symbol_view (cst_big symbols) (cst_symbols symbols ! ?i))"
      using 1(2) by (simp add: CoffSymbolTable_symbol_cases)
    show ?thesis
      using 1(1) [OF nxt s _ 1(2) True] by (subst comdat_symbol_loop.simps) (simp add: nxt s del: ex_simps)
  next
    case False
    then show ?thesis
      using 1(2) by (subst comdat_symbol_loop.simps) (simp add: nxt CoffSymbolTable_symbol_cases)
  qed
qed

lemma CoffComdat_parse_ok:
  assumes "coff_table_ok symbols" "index < length (cst_symbols symbols)"
  shows "\<exists>r. CoffComdat_parse symbols symbol index = Ok r"
  using comdat_symbol_loop_ok [OF assms, of "is_section_number symbol" symbol]
  by (auto simp: CoffComdat_parse_def aux_section_cases [OF assms] Let_def)

lemma CoffComdatIterator_next_cases:
  assumes "coff_table_ok symbols"
  shows "case CoffComdatIterator_next symbols index of
      (Ok None, i) \<Rightarrow> length (cst_symbols symbols) \<le> i
    | (Ok (Some _), i) \<Rightarrow> index < i \<and> index < length (cst_symbols symbols)
    | _ \<Rightarrow> False"
  using assms
proof (induction symbols index rule: CoffComdatIterator_next.induct)
  case (1 symbols index)
  show ?case
  proof (cases "index < length (cst_symbols symbols)")
    case True
    let ?s = "symbol_view (cst_big symbols) (cst_symbols symbols ! index)"
        have s: "CoffSymbolTable_symbol symbols index = Ok ?s" using True 1(2) by (simp add: CoffSymbolTable_symbol_cases)
    note nxt = next_symbol_index_ok [OF 1(2) True, of ?s]
    obtain r where r: "CoffComdat_parse symbols ?s index = Ok r" using CoffComdat_parse_ok [OF 1(2) True] by blast
    show ?thesis
    proof (cases r)
      case None
      then show ?thesis using 1(1) [OF s nxt _ None 1(2)] r True
        by (subst CoffComdatIterator_next.simps)
          (auto simp: s nxt split: prod.splits result.splits option.splits)
    qed (use r True in \<open>subst CoffComdatIterator_next.simps, simp add: s nxt\<close>)
  next
    case False
    then show ?thesis
      using 1(2) by (subst CoffComdatIterator_next.simps) (simp add: CoffSymbolTable_symbol_cases)
  qed
qed

lemma CoffComdatSectionIterator_next_cases:
  assumes "coff_table_ok symbols"
  shows "case CoffComdatSectionIterator_next symbols number index of
      (Ok None, i) \<Rightarrow> length (cst_symbols symbols) \<le> i
    | (Ok (Some _), i) \<Rightarrow> index < i \<and> index < length (cst_symbols symbols)
    | _ \<Rightarrow> False"
  using assms
proof (induction symbols number index rule: CoffComdatSectionIterator_next.induct)
  case (1 symbols number index)
  show ?case
  proof (cases "index < length (cst_symbols symbols)")
    case True
    let ?s = "symbol_view (cst_big symbols) (cst_symbols symbols ! index)"
    let ?i = "Suc (index + unat (is_number_of_aux_symbols ?s))"
    have s: "CoffSymbolTable_symbol symbols index = Ok ?s" using True 1(4) by (simp add: CoffSymbolTable_symbol_cases)
    note nxt = next_symbol_index_ok [OF 1(4) True, of ?s]
    have IH: "case CoffComdatSectionIterator_next symbols number ?i of
        (Ok None, i) \<Rightarrow> length (cst_symbols symbols) \<le> i
      | (Ok (Some _), i) \<Rightarrow> index < i \<and> index < length (cst_symbols symbols)
      | _ \<Rightarrow> False"
      if "case CoffComdatSectionIterator_next symbols number ?i of
        (Ok None, i) \<Rightarrow> length (cst_symbols symbols) \<le> i
      | (Ok (Some _), i) \<Rightarrow> ?i < i \<and> ?i < length (cst_symbols symbols)
      | _ \<Rightarrow> False"
      using that by (auto split: prod.splits result.splits option.splits)
    show ?thesis
    proof (cases "has_aux_section ?s")
      case False
      then show ?thesis using IH 1(1) [OF s nxt False 1(4)]
        by (subst CoffComdatSectionIterator_next.simps) (simp add: s nxt)
    next
      case aux: True
      then have "0 < unat (is_number_of_aux_symbols ?s)"
        by (simp add: has_aux_section_def word_less_nat_alt)
      then have beyond: "length (cst_symbols symbols) \<le> ?i" if "\<not> index + 1 < length (cst_symbols symbols)"
        using that by linarith
      show ?thesis
      proof (cases "index + 1 < length (cst_symbols symbols)")
        case False
        then show ?thesis using beyond aux
          by (subst CoffComdatSectionIterator_next.simps) (simp add: s nxt aux_section_cases [OF 1(4) True])
      next
        case inside: True
        let ?a = "decode_image_aux_symbol_section (take 18 (cst_symbols symbols ! (index + 1)))"
        have a: "aux_section symbols index = Ok ?a" using inside by (simp only: aux_section_cases [OF 1(4) True] if_True)
        have aux': "\<not> \<not> has_aux_section ?s" using aux by simp
        note IH2 = 1(2) [OF s nxt aux' a refl refl _ _ 1(4)] and IH3 = 1(3) [OF s nxt aux' a refl refl _ _ 1(4)]
        show ?thesis
          using IH [OF IH2] IH [OF IH3] True
          by (subst CoffComdatSectionIterator_next.simps) (simp add: s nxt aux a Let_def)
      qed
    qed
  next
    case False
    then show ?thesis
      using 1(4) by (subst CoffComdatSectionIterator_next.simps) (simp add: CoffSymbolTable_symbol_cases)
  qed
qed

lemma comdat_iterators_beyond:
  "length (cst_symbols symbols) \<le> index \<Longrightarrow> CoffComdatIterator_next symbols index = (Ok None, index)"
  "length (cst_symbols symbols) \<le> index \<Longrightarrow> CoffComdatSectionIterator_next symbols number index = (Ok None, index)"
  by (simp_all add: CoffComdatIterator_next.simps [of symbols index]
      CoffComdatSectionIterator_next.simps [of symbols number index] CoffSymbolTable_symbol_beyond)

interpretation coff_comdats: fallible_iterator "CoffComdatIterator_next symbols" "entries_left symbols"
  "\<lambda>_. coff_table_ok symbols" for symbols
proof
  fix it r it'
  note cases = CoffComdatIterator_next_cases [where symbols = symbols and index = it]
  show "fst (CoffComdatIterator_next symbols it) \<noteq> Panic" if "coff_table_ok symbols"
    using cases [OF that] by (auto split: prod.splits result.splits)
  show "entries_left symbols it' < entries_left symbols it"
    if "coff_table_ok symbols" "CoffComdatIterator_next symbols it = (Ok (Some a), it')" for a
    using cases [OF that(1)] that(2) by (auto simp: entries_left_def)
  show "entries_left symbols it' = 0" if "coff_table_ok symbols" "CoffComdatIterator_next symbols it = (Err e, it')" for e
    using cases [OF that(1)] that(2) by simp
  show "entries_left symbols it' = 0" if "coff_table_ok symbols" "CoffComdatIterator_next symbols it = (Ok None, it')"
    using cases [OF that(1)] that(2) by (simp add: entries_left_def)
qed (simp_all add: comdat_iterators_beyond entries_left_def)

interpretation coff_comdat_sections: fallible_iterator "CoffComdatSectionIterator_next symbols number"
  "entries_left symbols" "\<lambda>_. coff_table_ok symbols" for symbols number
proof
  fix it r it'
  note cases = CoffComdatSectionIterator_next_cases [where symbols = symbols and number = number and index = it]
  show "fst (CoffComdatSectionIterator_next symbols number it) \<noteq> Panic" if "coff_table_ok symbols"
    using cases [OF that] by (auto split: prod.splits result.splits)
  show "entries_left symbols it' < entries_left symbols it"
    if "coff_table_ok symbols" "CoffComdatSectionIterator_next symbols number it = (Ok (Some a), it')" for a
    using cases [OF that(1)] that(2) by (auto simp: entries_left_def)
  show "entries_left symbols it' = 0"
    if "coff_table_ok symbols" "CoffComdatSectionIterator_next symbols number it = (Err e, it')" for e
    using cases [OF that(1)] that(2) by simp
  show "entries_left symbols it' = 0"
    if "coff_table_ok symbols" "CoffComdatSectionIterator_next symbols number it = (Ok None, it')"
    using cases [OF that(1)] that(2) by (simp add: entries_left_def)
qed (simp_all add: comdat_iterators_beyond entries_left_def)

section \<open>Names\<close>

lemma base64_digit_bound: "base64_digit byte = Some d \<Longrightarrow> unat d \<le> 63"
  by (auto simp: base64_digit_def word_le_nat_alt unat_sub_if' unat_word_ariths split: if_splits)

text \<open>A number with a digit appended, when the bound has room for it.\<close>

lemma append_digit:
  fixes offset d :: "'w::len word"
  assumes "(unat offset + 1) * base ^ Suc n \<le> 2 ^ LENGTH('w)" "unat d < base" "unat (of_nat base :: 'w word) = base"
  shows "word_mul offset (of_nat base) = (Ok (offset * of_nat base) :: ('w word, string) result)"
    and "word_add (offset * of_nat base) d = (Ok (offset * of_nat base + d) :: ('w word, string) result)"
    and "(unat (offset * of_nat base + d) + 1) * base ^ n \<le> 2 ^ LENGTH('w)"
proof -
  let ?n = "unat offset * base + unat d"
  have le: "?n + 1 \<le> (unat offset + 1) * base" using assms(2) by simp
  have pos: "1 \<le> base ^ n" using assms(2) by (simp add: Suc_leI)
  have "(?n + 1) * 1 \<le> (?n + 1) * base ^ n" by (rule mult_le_mono2 [OF pos])
  also have bound: "\<dots> \<le> (unat offset + 1) * base * base ^ n" by (rule mult_le_mono1 [OF le])
  also have "\<dots> \<le> 2 ^ LENGTH('w)" using assms(1) by (simp only: mult.assoc power_Suc)
  finally have fit: "?n < 2 ^ LENGTH('w)" by simp
  then have m: "unat offset * base < 2 ^ LENGTH('w)" by simp
  then have um: "unat (offset * of_nat base) = unat offset * base"
    using assms(3) by (simp only: unat_word_ariths mod_less)
  show "word_mul offset (of_nat base) = (Ok (offset * of_nat base) :: ('w word, string) result)"
    using m assms(3) by (simp add: word_mul_def)
  show "word_add (offset * of_nat base) d = (Ok (offset * of_nat base + d) :: ('w word, string) result)"
    using fit by (simp add: word_add_def um)
  have "unat (offset * of_nat base + d) = ?n" using fit by (simp add: unat_add_no_overflow um)
  moreover have "(?n + 1) * base ^ n \<le> 2 ^ LENGTH('w)"
    using bound assms(1) by (simp only: mult.assoc power_Suc)
  ultimately show "(unat (offset * of_nat base + d) + 1) * base ^ n \<le> 2 ^ LENGTH('w)" by simp
qed

lemma base64_offset_no_panic:
  "(unat offset + 1) * 64 ^ length bs \<le> 2 ^ 64 \<Longrightarrow> base64_offset bs offset \<noteq> Panic"
proof (induction bs arbitrary: offset)
  case (Cons byte bs)
  show ?case
  proof (cases "base64_digit byte")
    case (Some d)
    have "unat (ucast d :: u64) < 64" using base64_digit_bound [OF Some] by (simp add: unat_ucast_le)
    note step = append_digit [where base = 64 and offset = offset and d = "ucast d" and n = "length bs", OF _ this]
    show ?thesis using Cons step Some by simp
  qed simp
qed simp

lemma base10_offset_no_panic:
  "(unat offset + 1) * 10 ^ length bs \<le> 2 ^ 32 \<Longrightarrow> base10_offset bs offset \<noteq> Panic"
proof (induction bs arbitrary: offset)
  case (Cons byte bs)
  show ?case
  proof (cases "0x30 \<le> byte \<and> byte \<le> 0x39")
    case True
    then have "unat (byte - 0x30) < 10" by (simp add: word_le_nat_alt unat_sub_if') linarith
    then have "unat (ucast (byte - 0x30) :: u32) < 10" by (simp add: unat_ucast_le)
    note step = append_digit [where base = 10 and offset = offset and d = "ucast (byte - 0x30)" and n = "length bs", OF _ this]
    show ?thesis using Cons step True by simp
  next
    case False
    then show ?thesis unfolding base10_offset.simps if_not_P [OF False] by simp
  qed
qed simp


lemma name_offset_no_panic: "length (ish_name self) = 8 \<Longrightarrow> name_offset self \<noteq> Panic"
  using base64_offset_no_panic [of 0 "drop 2 (ish_name self)"] base10_offset_no_panic [of 0 "drop 1 (ish_name self)"]
  by (auto simp: name_offset_def and_then_eq_Panic Let_def)

lemma ImageSectionHeader_name_no_panic:
  "length (ish_name self) = 8 \<Longrightarrow> ImageSectionHeader_name memchr self strs \<noteq> Panic"
  by (auto simp: ImageSectionHeader_name_def and_then_eq_Panic name_offset_no_panic res_simps
      StringTable_get_no_panic split: option.splits)

lemma CoffSymbol_name_bytes_no_panic: "CoffSymbol_name_bytes memchr file1 s \<noteq> Panic"
  by (auto simp: CoffSymbol_name_bytes_def aux_file_name_def ImageSymbol_name_def and_then_eq_Panic
      res_simps StringTable_get_no_panic ok_or_def Let_def split: prod.splits option.splits if_splits)

section \<open>The file\<close>

lemma CoffHeader_parse_no_panic: "CoffHeader_parse big data offset \<noteq> Panic"
  by (auto simp: CoffHeader_parse_def ImageFileHeader_parse_def AnonObjectHeaderBigobj_parse_def Let_def
      and_then_eq_Panic res_simps read_pod_no_panic ok_or_def split: prod.splits option.splits)

lemma SectionTable_parse_no_panic: "SectionTable_parse header data offset \<noteq> Panic"
  by (simp add: SectionTable_parse_def and_then_eq_Panic res_simps read_slice_at_no_panic)

lemma CoffFile_parse_no_panic: "CoffFile_parse big data \<noteq> Panic"
  by (auto simp: CoffFile_parse_def and_then_eq_Panic CoffHeader_parse_no_panic SectionTable_parse_no_panic
      CoffSymbolTable_parse_no_panic split: prod.splits)

lemma section_name_8: "length bs = 40 \<Longrightarrow> length (ish_name (decode_image_section_header bs)) = 8"
  by (simp add: decode_image_section_header_def fld_bytes_def fld_def)

lemma CoffFile_parse_parts:
  assumes "CoffFile_parse big data = Ok f" "length data \<le> isize_max"
  shows "coff_table_ok (cc_symbols (cf_common f)) \<and> cc_image_base (cf_common f) = 0 \<and>
    (\<forall>sec \<in> set (cc_sections (cf_common f)). length (ish_name sec) = 8)"
proof -
  obtain header offset secs symbols where parts: "SectionTable_parse header data offset = Ok secs"
    "CoffSymbolTable_parse big header data = Ok symbols"
    "f = \<lparr>cf_header = header, cf_common = \<lparr>cc_sections = secs, cc_symbols = symbols, cc_image_base = 0\<rparr>, cf_data = data\<rparr>"
    using assms(1) by (auto simp: CoffFile_parse_def res_simps)
  have "length data \<le> usize_max" using assms(2) by (simp add: isize_max_def usize_max_def)
  from parts(1) obtain cs where cs: "read_slice_at 40 data offset (unat (ch_number_of_sections header)) = Ok cs"
    "secs = map decode_image_section_header cs"
    by (auto simp: SectionTable_parse_def res_simps)
  obtain off where "read_slice 40 data offset (unat (ch_number_of_sections header)) = (Ok cs, off)"
    using cs(1) by (metis read_slice_at_def prod.collapse)
  from read_slice_chunks [OF this \<open>length data \<le> usize_max\<close>] show ?thesis
    using CoffSymbolTable_parse_ok [OF parts(2) assms(2)] section_name_8 cs(2) parts(3) by auto
qed

lemma coff_relocations_no_panic: "coff_relocations sec data \<noteq> Panic"
proof -
  have "unat (ucast (ish_pointer_to_relocations sec) :: u64) + 10 < 2 ^ 64"
    using unat_u32_bound [of "ish_pointer_to_relocations sec"] by (simp add: unat_ucast_le)
  then have "word_add (ucast (ish_pointer_to_relocations sec)) (10 :: u64) \<noteq> (Panic :: (u64, string) result)"
    by (simp add: word_add_def)
  moreover have "0 < n \<Longrightarrow> usize_sub n 1 \<noteq> (Panic :: (nat, string) result)" for n
    by (simp add: usize_sub_def)
  ultimately show ?thesis
    by (auto simp: coff_relocations_def Let_def and_then_eq_Panic res_simps read_pod_at_no_panic
        read_slice_at_no_panic split: if_splits)
qed

lemma CoffSymbol_address_no_panic: "cc_image_base file1 = 0 \<Longrightarrow> CoffSymbol_address file1 s \<noteq> Panic"
proof -
  assume base: "cc_image_base file1 = 0"
  obtain index symbol where s: "s = (index, symbol)" by fastforce
  have "ImageSymbol_address symbol 0 secs \<noteq> Panic" for secs
  proof -
    have small: "unat v < 2 ^ 64" for v :: u32 using unat_u32_bound [of v] by simp
    have "word_add 0 (ucast v :: u64) = (Ok (ucast v) :: (u64, string) result)" for v :: u32
      using small [of v] by (simp add: word_add_def unat_ucast_le)
    moreover have "word_add (ucast v) (ucast w :: u64) = (Ok (ucast v + ucast w) :: (u64, string) result)" for v w :: u32
      using unat_u32_bound [of v] unat_u32_bound [of w] by (simp add: word_add_def unat_ucast_le)
    ultimately show ?thesis
      by (auto simp: ImageSymbol_address_def SectionTable_get_def and_then_eq_Panic ok_or_def split: option.splits)
  qed
  then show ?thesis
    by (auto simp: CoffSymbol_address_def s base split: result.splits option.splits)
qed

section \<open>Properties\<close>

text \<open>C38: Reading a COFF file of arbitrary contents does not panic: not parsing it, nor the names, data and relocations of its sections, nor the names and addresses of its symbols; iterating over the symbols, the COMDAT groups and the sections of a group ends after at most as many steps as the table has entries.\<close>

theorem coff_reading_total:
  assumes "length data \<le> isize_max"
  shows "case CoffFile_parse big data of
      Panic \<Rightarrow> False
    | Err _ \<Rightarrow> True
    | Ok f \<Rightarrow>
        let symbols = cc_symbols (cf_common f); n = Suc (length (cst_symbols symbols)) in
        (\<exists>r. drain (CoffSymbolIterator_next symbols) n (CoffSymbolIterator_new (cf_common f)) = Some r \<and> r \<noteq> Panic) \<and>
        (\<exists>r. drain (CoffComdatIterator_next symbols) n 0 = Some r \<and> r \<noteq> Panic) \<and>
        (\<forall>number. \<exists>r. drain (CoffComdatSectionIterator_next symbols number) n 0 = Some r \<and> r \<noteq> Panic) \<and>
        (\<forall>(i, sec) \<in> set (CoffFile_sections f). CoffSection_name_bytes memchr f sec \<noteq> Panic \<and>
          CoffSection_data f sec \<noteq> Panic \<and> coff_relocations sec data \<noteq> Panic) \<and>
        (\<forall>s. CoffSymbol_name_bytes memchr (cf_common f) s \<noteq> Panic \<and> CoffSymbol_address (cf_common f) s \<noteq> Panic)"
proof (cases "CoffFile_parse big data")
  case (Ok f)
  note parts = CoffFile_parse_parts [OF Ok assms]
  let ?symbols = "cc_symbols (cf_common f)"
  have ok: "coff_table_ok ?symbols" using parts by simp
  have left: "Suc (entries_left ?symbols 0) = Suc (length (cst_symbols ?symbols))" by (simp add: entries_left_def)
  have "CoffSection_data f sec \<noteq> Panic" for sec
    by (auto simp: CoffSection_data_def coff_data_def res_simps read_bytes_at_no_panic split: option.splits)
  moreover have "CoffSection_name_bytes memchr f sec \<noteq> Panic" if "(i, sec) \<in> set (CoffFile_sections f)" for i sec
  proof -
    have "sec \<in> set (cc_sections (cf_common f))"
      using that by (auto simp: CoffFile_sections_def SectionTable_enumerate_def in_set_enumerate_eq)
    then show ?thesis using parts by (simp add: CoffSection_name_bytes_def ImageSectionHeader_name_no_panic)
  qed
  moreover have "CoffSymbol_address (cf_common f) s \<noteq> Panic" for s
    using parts by (simp add: CoffSymbol_address_no_panic)
  moreover have "\<exists>r. drain (CoffSymbolIterator_next ?symbols) (Suc (length (cst_symbols ?symbols))) 0 = Some r \<and> r \<noteq> Panic"
    using coff_symbols.drain_total [OF ok, of 0] unfolding left by blast
  moreover have "\<exists>r. drain (CoffComdatIterator_next ?symbols) (Suc (length (cst_symbols ?symbols))) 0 = Some r \<and> r \<noteq> Panic"
    using coff_comdats.drain_total [OF ok, of 0] unfolding left by blast
  moreover have "\<exists>r. drain (CoffComdatSectionIterator_next ?symbols number)
      (Suc (length (cst_symbols ?symbols))) 0 = Some r \<and> r \<noteq> Panic" for number
    using coff_comdat_sections.drain_total [OF ok, of number 0] unfolding left by blast
  ultimately show ?thesis
    by (simp add: Ok Let_def CoffSymbolIterator_new_def coff_relocations_no_panic
        CoffSymbol_name_bytes_no_panic del: drain.simps) blast
qed (simp_all add: CoffFile_parse_no_panic)

theorem coff_reading_total_witness:
  "case CoffFile_parse False [1, 2, 3] of Panic \<Rightarrow> False | _ \<Rightarrow> True"
  using coff_reading_total [where data = "[1, 2, 3]" and big = False]
  by (auto simp: isize_max_def split: result.splits)

end
