(* ===== verification/Coff_Writer.thy ===== *)
theory Coff_Writer
  imports Coff_Types Stateful String_Table Write_Util
begin

text \<open>
  \<^verbatim>\<open>src/write/coff/writer.rs\<close>: the low-level writer of COFF files. A field \<^verbatim>\<open>f\<close> of the writer is
  \<open>cw_f\<close>; the methods are operations on the writer, the buffer is a \<^verbatim>\<open>Vec<u8>\<close> and the index set of
  the string table is the parameter \<open>ix\<close>.
\<close>

section \<open>Native structures\<close>

datatype coff_name = Name_Short bytes | Name_Long nat

definition Name_default :: coff_name where
  "Name_default = Name_Short (replicate 8 0)"

record CoffFileHeader =
  cfh_machine :: u16
  cfh_time_date_stamp :: u32
  cfh_characteristics :: u16

record CoffSectionHeader =
  csh_name :: coff_name
  csh_size_of_raw_data :: u32
  csh_pointer_to_raw_data :: u32
  csh_pointer_to_relocations :: u32
  csh_pointer_to_linenumbers :: u32
  csh_number_of_relocations :: u32
  csh_number_of_linenumbers :: u16
  csh_characteristics :: u32

record CoffSymbol =
  csy_name :: coff_name
  csy_value :: u32
  csy_section_number :: u16
  csy_typ :: u16
  csy_storage_class :: u8
  csy_number_of_aux_symbols :: u8

record AuxSymbolSection =
  axs_length :: u32
  axs_number_of_relocations :: u32
  axs_number_of_linenumbers :: u16
  axs_check_sum :: u32
  axs_number :: u32
  axs_selection :: u8

type_synonym AuxSymbolWeak = image_aux_symbol_weak
type_synonym CoffRelocation = image_relocation

section \<open>The writer\<close>

record 's coff_writer =
  cw_buffer :: vec_buffer
  cw_len :: nat
  cw_section_num :: u16
  cw_symtab_offset :: u32
  cw_symtab_num :: u32
  cw_strtab :: "'s string_table"
  cw_strtab_len :: nat
  cw_strtab_offset :: u32
  cw_strtab_data :: bytes

type_synonym ('s, 'a) coff_op = "'s coff_writer \<Rightarrow> ('a, string) result \<times> 's coff_writer"

definition CoffWriter_new :: "'s index_set_ops \<Rightarrow> vec_buffer \<Rightarrow> 's coff_writer" where
  "CoffWriter_new ix buffer =
    \<lparr>cw_buffer = buffer, cw_len = 0, cw_section_num = 0, cw_symtab_offset = 0, cw_symtab_num = 0,
     cw_strtab = string_table_default ix, cw_strtab_len = 0, cw_strtab_offset = 0, cw_strtab_data = []\<rparr>"

definition CoffWriter_reserved_len :: "'s coff_writer \<Rightarrow> nat" where
  "CoffWriter_reserved_len self = cw_len self"

definition CoffWriter_len :: "'s coff_writer \<Rightarrow> nat" where
  "CoffWriter_len self = Vec_len (cw_buffer self)"

definition coff_assert :: "('s coff_writer \<Rightarrow> bool) \<Rightarrow> ('s, unit) coff_op" where
  "coff_assert b = state_get (\<lambda>self. debug_assert (b self) (Ok ()))"

text \<open>An operation on the buffer.\<close>

definition on_buffer :: "(vec_buffer \<Rightarrow> (vec_buffer, string) result) \<Rightarrow> ('s, unit) coff_op" where
  "on_buffer f =
    state_then (state_get (\<lambda>self. f (cw_buffer self))) (\<lambda>b.
    state_modify (\<lambda>self. self\<lparr>cw_buffer := b\<rparr>))"

definition CoffWriter_reserve :: "nat \<Rightarrow> nat \<Rightarrow> ('s, u32) coff_op" where
  "CoffWriter_reserve len align_start =
    state_then (if align_start > 1
      then state_then (state_get (\<lambda>self. align_usize (cw_len self) align_start)) (\<lambda>n.
        state_modify (\<lambda>self. self\<lparr>cw_len := n\<rparr>))
      else state_lift (Ok ())) (\<lambda>_.
    state_then (state_get (\<lambda>self. Ok (cw_len self))) (\<lambda>offset.
    state_then (state_get (\<lambda>self. usize_add (cw_len self) len)) (\<lambda>n.
    state_then (state_modify (\<lambda>self. self\<lparr>cw_len := n\<rparr>)) (\<lambda>_.
    state_lift (Ok (word_of_nat offset))))))"

definition CoffWriter_write_align :: "nat \<Rightarrow> ('s, unit) coff_op" where
  "CoffWriter_write_align align_start =
    (if align_start > 1 then on_buffer (write_align Vec_len Vec_resize align_start) else state_lift (Ok ()))"

definition CoffWriter_write :: "bytes \<Rightarrow> ('s, unit) coff_op" where
  "CoffWriter_write data = on_buffer (Vec_write_bytes data)"

definition CoffWriter_reserve_until :: "nat \<Rightarrow> ('s, unit) coff_op" where
  "CoffWriter_reserve_until offset =
    state_then (coff_assert (\<lambda>self. cw_len self \<le> offset)) (\<lambda>_.
    state_modify (\<lambda>self. self\<lparr>cw_len := offset\<rparr>))"

definition CoffWriter_pad_until :: "nat \<Rightarrow> ('s, unit) coff_op" where
  "CoffWriter_pad_until offset =
    state_then (coff_assert (\<lambda>self. CoffWriter_len self \<le> offset)) (\<lambda>_.
    on_buffer (Vec_resize offset))"

definition CoffWriter_reserve_file_header :: "('s, unit) coff_op" where
  "CoffWriter_reserve_file_header =
    state_then (coff_assert (\<lambda>self. cw_len self = 0)) (\<lambda>_.
    state_then (CoffWriter_reserve 20 1) (\<lambda>_. state_lift (Ok ())))"

definition CoffWriter_write_file_header :: "CoffFileHeader \<Rightarrow> ('s, unit) coff_op" where
  "CoffWriter_write_file_header header =
    state_then (coff_assert (\<lambda>self. CoffWriter_len self = 0)) (\<lambda>_.
    state_then (state_get (\<lambda>self. read_error (Vec_reserve (cw_len self) (cw_buffer self) :: (vec_buffer, unit) result)
      ''Cannot allocate buffer'')) (\<lambda>b.
    state_then (state_modify (\<lambda>self. self\<lparr>cw_buffer := b\<rparr>)) (\<lambda>_.
    state_then (state_get (\<lambda>self. Ok
      \<lparr>ifh_machine = cfh_machine header, ifh_number_of_sections = cw_section_num self,
       ifh_time_date_stamp = cfh_time_date_stamp header,
       ifh_pointer_to_symbol_table = cw_symtab_offset self, ifh_number_of_symbols = cw_symtab_num self,
       ifh_size_of_optional_header = 0, ifh_characteristics = cfh_characteristics header\<rparr>)) (\<lambda>h.
    on_buffer (Vec_write_pod (encode_image_file_header h))))))"

section \<open>Section headers\<close>

definition CoffWriter_reserve_section_headers :: "u16 \<Rightarrow> ('s, unit) coff_op" where
  "CoffWriter_reserve_section_headers section_num =
    state_then (coff_assert (\<lambda>self. cw_section_num self = 0)) (\<lambda>_.
    state_then (state_modify (\<lambda>self. self\<lparr>cw_section_num := section_num\<rparr>)) (\<lambda>_.
    state_then (CoffWriter_reserve (unat section_num * 40) 1) (\<lambda>_. state_lift (Ok ()))))"

text \<open>
  The name of a section that is in the string table: its offset in decimal after \<^verbatim>\<open>/\<close>, or, above
  9999999, in base 64 after \<^verbatim>\<open>//\<close>. \<open>decimal_digits\<close> fills an array of 7 bytes from its end.
\<close>

function decimal_digits :: "nat \<Rightarrow> bytes \<Rightarrow> nat \<Rightarrow> (bytes \<times> nat, string) result" where
  "decimal_digits str_offset name len =
    (if str_offset = 0 then Ok (name, len)
     else
       let rem = str_offset mod 10 in
       and_then (usize_sub 6 len) (\<lambda>i.
       and_then (list_assign i (0x30 + word_of_nat rem) name) (\<lambda>name.
       decimal_digits (str_offset div 10) name (len + 1))))"
  by pat_completeness auto

termination
  by (relation "measure (\<lambda>(str_offset, _). str_offset)") auto

declare decimal_digits.simps [simp del]

definition base64_char :: "u8 \<Rightarrow> u8" where
  "base64_char rem =
    (if rem \<le> 25 then 0x41 + rem
     else if rem \<le> 51 then 0x61 + rem - 26
     else if rem \<le> 61 then 0x30 + rem - 52
     else if rem = 62 then 0x2b
     else 0x2f)"

fun base64_digits :: "nat \<Rightarrow> nat \<Rightarrow> bytes \<Rightarrow> bytes" where
  "base64_digits 0 str_offset acc = acc"
| "base64_digits (Suc n) str_offset acc =
    base64_digits n (str_offset div 64) (base64_char (word_of_nat (str_offset mod 64)) # acc)"

definition long_section_name :: "nat \<Rightarrow> (bytes, string) result" where
  "long_section_name str_offset =
    (if str_offset \<le> 9999999 then
       and_then (if str_offset = 0 then Ok ((replicate 7 0)[6 := 0x30], 1)
         else decimal_digits str_offset (replicate 7 0) 0) (\<lambda>(name, len).
       Ok (0x2f # drop (7 - len) name @ replicate (7 - len) 0))
     else
       debug_assert (str_offset \<le> 0xfffffffff) (
       Ok (0x2f # 0x2f # base64_digits 6 str_offset [])))"

definition clamp_u16 :: "u32 \<Rightarrow> u16" where
  "clamp_u16 n = (if n > 0xffff then 0xffff else ucast n)"

definition CoffWriter_write_section_header :: "CoffSectionHeader \<Rightarrow> ('s, unit) coff_op" where
  "CoffWriter_write_section_header sec =
    state_then (state_get (\<lambda>self. case csh_name sec of
        Name_Short name \<Rightarrow> Ok name
      | Name_Long str_id \<Rightarrow> and_then (string_get_offset (cw_strtab self) str_id) long_section_name)) (\<lambda>name.
    on_buffer (Vec_write_pod (encode_image_section_header
      \<lparr>ish_name = name, ish_virtual_size = 0, ish_virtual_address = 0,
       ish_size_of_raw_data = csh_size_of_raw_data sec,
       ish_pointer_to_raw_data = csh_pointer_to_raw_data sec,
       ish_pointer_to_relocations = csh_pointer_to_relocations sec,
       ish_pointer_to_linenumbers = csh_pointer_to_linenumbers sec,
       ish_number_of_relocations = clamp_u16 (csh_number_of_relocations sec),
       ish_number_of_linenumbers = 0, ish_characteristics = csh_characteristics sec\<rparr>)))"

section \<open>Section data and relocations\<close>

definition CoffWriter_reserve_section :: "nat \<Rightarrow> ('s, u32) coff_op" where
  "CoffWriter_reserve_section len = (if len = 0 then state_lift (Ok 0) else CoffWriter_reserve len 4)"

definition CoffWriter_write_section_align :: "('s, unit) coff_op" where
  "CoffWriter_write_section_align = on_buffer (write_align Vec_len Vec_resize 4)"

definition CoffWriter_write_section :: "bytes \<Rightarrow> ('s, unit) coff_op" where
  "CoffWriter_write_section data =
    (if data = [] then state_lift (Ok ())
     else state_then CoffWriter_write_section_align (\<lambda>_. on_buffer (Vec_write_bytes data)))"

definition CoffWriter_write_section_zeroes :: "nat \<Rightarrow> ('s, unit) coff_op" where
  "CoffWriter_write_section_zeroes len =
    (if len = 0 then state_lift (Ok ())
     else state_then CoffWriter_write_section_align (\<lambda>_.
       on_buffer (\<lambda>b. and_then (usize_add (Vec_len b) len) (\<lambda>n. Vec_resize n b))))"

definition CoffWriter_reserve_relocations :: "nat \<Rightarrow> ('s, u32) coff_op" where
  "CoffWriter_reserve_relocations cnt =
    (if cnt = 0 then state_lift (Ok 0)
     else
       state_then (state_lift (if cnt > 0xffff then usize_add cnt 1 else Ok cnt)) (\<lambda>cnt.
       state_then (state_lift (usize_mul cnt 10)) (\<lambda>n.
       CoffWriter_reserve n 1)))"

definition CoffWriter_write_relocation :: "CoffRelocation \<Rightarrow> ('s, unit) coff_op" where
  "CoffWriter_write_relocation reloc = on_buffer (Vec_write_pod (encode_image_relocation reloc))"

definition CoffWriter_write_relocations_count :: "nat \<Rightarrow> ('s, unit) coff_op" where
  "CoffWriter_write_relocations_count cnt =
    (if cnt > 0xffff then
       state_then (state_lift (word_add (word_of_nat cnt) 1)) (\<lambda>n.
       CoffWriter_write_relocation \<lparr>ir_virtual_address = n, ir_symbol_table_index = 0, ir_typ = 0\<rparr>)
     else state_lift (Ok ()))"

section \<open>Symbols\<close>

text \<open>The symbol table has not been reserved yet.\<close>

definition symtab_open :: "('s, unit) coff_op" where
  "symtab_open = coff_assert (\<lambda>self. cw_symtab_offset self = 0)"

definition CoffWriter_reserve_symbol_indices :: "u32 \<Rightarrow> ('s, unit) coff_op" where
  "CoffWriter_reserve_symbol_indices cnt =
    state_then symtab_open (\<lambda>_.
    state_then (state_get (\<lambda>self. word_add (cw_symtab_num self) cnt)) (\<lambda>n.
    state_modify (\<lambda>self. self\<lparr>cw_symtab_num := n\<rparr>)))"

definition CoffWriter_reserve_symbol_index :: "('s, u32) coff_op" where
  "CoffWriter_reserve_symbol_index =
    state_then symtab_open (\<lambda>_.
    state_then (state_get (\<lambda>self. Ok (cw_symtab_num self))) (\<lambda>index.
    state_then (state_get (\<lambda>self. word_add (cw_symtab_num self) 1)) (\<lambda>n.
    state_then (state_modify (\<lambda>self. self\<lparr>cw_symtab_num := n\<rparr>)) (\<lambda>_.
    state_lift (Ok index)))))"

definition CoffWriter_write_symbol :: "CoffSymbol \<Rightarrow> ('s, unit) coff_op" where
  "CoffWriter_write_symbol symbol =
    state_then (state_get (\<lambda>self. case csy_name symbol of
        Name_Short name \<Rightarrow> Ok name
      | Name_Long str_id \<Rightarrow> and_then (string_get_offset (cw_strtab self) str_id) (\<lambda>str_offset.
          Ok (replicate 4 0 @ to_le_bytes (word_of_nat str_offset :: u32))))) (\<lambda>name.
    on_buffer (Vec_write_pod (encode_image_symbol
      \<lparr>is_name = name, is_value = csy_value symbol, is_section_number = csy_section_number symbol,
       is_typ = csy_typ symbol, is_storage_class = csy_storage_class symbol,
       is_number_of_aux_symbols = csy_number_of_aux_symbols symbol\<rparr>)))"

definition CoffWriter_reserve_aux_file_name :: "bytes \<Rightarrow> ('s, u8) coff_op" where
  "CoffWriter_reserve_aux_file_name name =
    state_then symtab_open (\<lambda>_.
    state_then (state_lift (and_then (usize_add (length name) IMAGE_SIZEOF_SYMBOL) (\<lambda>n. usize_sub n 1))) (\<lambda>n.
    state_then (state_get (\<lambda>self. word_add (cw_symtab_num self) (word_of_nat (n div IMAGE_SIZEOF_SYMBOL)))) (\<lambda>num.
    state_then (state_modify (\<lambda>self. self\<lparr>cw_symtab_num := num\<rparr>)) (\<lambda>_.
    state_lift (Ok (word_of_nat (n div IMAGE_SIZEOF_SYMBOL)))))))"

definition CoffWriter_write_aux_file_name :: "bytes \<Rightarrow> u8 \<Rightarrow> ('s, unit) coff_op" where
  "CoffWriter_write_aux_file_name name aux_count =
    (let aux_len = unat aux_count * IMAGE_SIZEOF_SYMBOL in
     state_then (state_lift (debug_assert (length name \<le> aux_len) (Ok ()))) (\<lambda>_.
     state_then (state_get (\<lambda>self. Ok (CoffWriter_len self))) (\<lambda>old_len.
     state_then (on_buffer (Vec_write_bytes name)) (\<lambda>_.
     state_then (state_lift (usize_add old_len aux_len)) (\<lambda>n.
     on_buffer (Vec_resize n))))))"

definition CoffWriter_reserve_aux_section :: "('s, u8) coff_op" where
  "CoffWriter_reserve_aux_section =
    state_then (CoffWriter_reserve_symbol_indices 1) (\<lambda>_. state_lift (Ok 1))"

definition CoffWriter_write_aux_section :: "AuxSymbolSection \<Rightarrow> ('s, unit) coff_op" where
  "CoffWriter_write_aux_section sec =
    on_buffer (Vec_write_pod (encode_image_aux_symbol_section
      \<lparr>ias_length = axs_length sec,
       ias_number_of_relocations = clamp_u16 (axs_number_of_relocations sec),
       ias_number_of_linenumbers = axs_number_of_linenumbers sec, ias_check_sum = axs_check_sum sec,
       ias_number = ucast (axs_number sec), ias_selection = axs_selection sec, ias_reserved = 0,
       ias_high_number = ucast (drop_bit 16 (axs_number sec))\<rparr>))"

definition CoffWriter_reserve_aux_weak_external :: "('s, u8) coff_op" where
  "CoffWriter_reserve_aux_weak_external =
    state_then (CoffWriter_reserve_symbol_indices 1) (\<lambda>_. state_lift (Ok 1))"

definition CoffWriter_write_aux_weak_external :: "AuxSymbolWeak \<Rightarrow> ('s, unit) coff_op" where
  "CoffWriter_write_aux_weak_external weak =
    state_then (on_buffer (Vec_write_pod (encode_image_aux_symbol_weak weak))) (\<lambda>_.
    on_buffer (Vec_write_bytes (replicate (IMAGE_SIZEOF_SYMBOL - 8) 0)))"

definition CoffWriter_symbol_count :: "'s coff_writer \<Rightarrow> u32" where
  "CoffWriter_symbol_count self = cw_symtab_num self"

section \<open>String table\<close>

definition CoffWriter_add_string :: "'s index_set_ops \<Rightarrow> bytes \<Rightarrow> ('s, nat) coff_op" where
  "CoffWriter_add_string ix name =
    state_then (coff_assert (\<lambda>self. cw_strtab_offset self = 0)) (\<lambda>_.
    state_then (state_get (\<lambda>self. string_add ix name (cw_strtab self))) (\<lambda>(sid, tb).
    state_then (state_modify (\<lambda>self. self\<lparr>cw_strtab := tb\<rparr>)) (\<lambda>_.
    state_lift (Ok sid))))"

definition CoffWriter_add_name :: "'s index_set_ops \<Rightarrow> bytes \<Rightarrow> ('s, coff_name) coff_op" where
  "CoffWriter_add_name ix name =
    (if length name > 8
     then state_then (CoffWriter_add_string ix name) (\<lambda>sid. state_lift (Ok (Name_Long sid)))
     else state_lift (Ok (Name_Short (name @ replicate (8 - length name) 0))))"

definition CoffWriter_reserve_symtab_strtab :: "'s index_set_ops \<Rightarrow> ('s, unit) coff_op" where
  "CoffWriter_reserve_symtab_strtab ix =
    state_then symtab_open (\<lambda>_.
    state_then (state_get (\<lambda>self. Ok (unat (cw_symtab_num self) * IMAGE_SIZEOF_SYMBOL))) (\<lambda>n.
    state_then (CoffWriter_reserve n 1) (\<lambda>symtab_offset.
    state_then (state_modify (\<lambda>self. self\<lparr>cw_symtab_offset := symtab_offset\<rparr>)) (\<lambda>_.
    state_then (coff_assert (\<lambda>self. cw_strtab_offset self = 0)) (\<lambda>_.
    state_then (state_get (\<lambda>self. string_write ix 4 (cw_strtab self) (cw_strtab_data self))) (\<lambda>(tb, data).
    state_then (state_lift (usize_add (length data) 4)) (\<lambda>len.
    state_then (state_modify (\<lambda>self. self\<lparr>cw_strtab := tb, cw_strtab_data := data, cw_strtab_len := len\<rparr>)) (\<lambda>_.
    state_then (CoffWriter_reserve len 1) (\<lambda>strtab_offset.
    state_modify (\<lambda>self. self\<lparr>cw_strtab_offset := strtab_offset\<rparr>))))))))))"

definition CoffWriter_write_strtab :: "('s, unit) coff_op" where
  "CoffWriter_write_strtab =
    state_then (coff_assert (\<lambda>self. cw_strtab_offset self = word_of_nat (CoffWriter_len self))) (\<lambda>_.
    state_then (state_get (\<lambda>self. Ok (to_le_bytes (word_of_nat (cw_strtab_len self) :: u32)))) (\<lambda>len.
    state_then (on_buffer (Vec_write_bytes len)) (\<lambda>_.
    state_then (state_get (\<lambda>self. Ok (cw_strtab_data self))) (\<lambda>data.
    on_buffer (Vec_write_bytes data)))))"

end
