(* ===== verification/Coff_Object.thy ===== *)
theory Coff_Object
  imports Coff_Writer Object_Writer
begin

text \<open>
  \<^verbatim>\<open>Object::coff_write\<close> of \<^verbatim>\<open>src/write/coff/object.rs\<close>: the COFF file of an object. Its phases are the
  definitions in order; \<open>sections\<close> and \<open>symbols\<close> of the object are \<open>ss\<close> and \<open>syms\<close> below. The tables
  \<^verbatim>\<open>section_offsets\<close> and \<^verbatim>\<open>symbol_offsets\<close>, which are filled by index while the sections and symbols are
  visited in order, are built as lists. The CRC of \<^verbatim>\<open>crc32fast\<close> is the parameter \<open>crc\<close>: the initial
  value and the data to the checksum.
\<close>

section \<open>Offsets\<close>

record CoffSectionOffsets =
  cso_name :: coff_name
  cso_offset :: u32
  cso_reloc_offset :: u32
  cso_selection :: u8
  cso_associative_section :: u32

record CoffSymbolOffsets =
  cyo_name :: coff_name
  cyo_index :: u32
  cyo_aux_count :: u8

definition CoffSectionOffsets_default :: CoffSectionOffsets where
  "CoffSectionOffsets_default =
    \<lparr>cso_name = Name_default, cso_offset = 0, cso_reloc_offset = 0, cso_selection = 0,
     cso_associative_section = 0\<rparr>"

definition CoffSymbolOffsets_default :: CoffSymbolOffsets where
  "CoffSymbolOffsets_default = \<lparr>cyo_name = Name_default, cyo_index = 0, cyo_aux_count = 0\<rparr>"

text \<open>A \<^verbatim>\<open>for\<close> loop that collects one result per element.\<close>

fun for_each :: "('x \<Rightarrow> 's \<Rightarrow> ('a, 'e) result \<times> 's) \<Rightarrow> 'x list \<Rightarrow> 's \<Rightarrow> ('a list, 'e) result \<times> 's" where
  "for_each f [] = state_lift (Ok [])"
| "for_each f (x # xs) =
    state_then (f x) (\<lambda>a. state_then (for_each f xs) (\<lambda>as. state_lift (Ok (a # as))))"

definition add_section_names :: "'s index_set_ops \<Rightarrow> out_section list \<Rightarrow> ('s, CoffSectionOffsets list) coff_op" where
  "add_section_names ix =
    for_each (\<lambda>sec. state_then (CoffWriter_add_name ix (osec_name sec)) (\<lambda>name.
      state_lift (Ok (CoffSectionOffsets_default\<lparr>cso_name := name\<rparr>))))"

section \<open>COMDAT flags\<close>

definition comdat_selection :: "comdat_kind \<Rightarrow> (u8, string) result" where
  "comdat_selection kind =
    (case kind of
       CK_NoDuplicates \<Rightarrow> Ok IMAGE_COMDAT_SELECT_NODUPLICATES
     | CK_Any \<Rightarrow> Ok IMAGE_COMDAT_SELECT_ANY
     | CK_SameSize \<Rightarrow> Ok IMAGE_COMDAT_SELECT_SAME_SIZE
     | CK_ExactMatch \<Rightarrow> Ok IMAGE_COMDAT_SELECT_EXACT_MATCH
     | CK_Largest \<Rightarrow> Ok IMAGE_COMDAT_SELECT_LARGEST
     | CK_Newest \<Rightarrow> Ok IMAGE_COMDAT_SELECT_NEWEST
     | CK_Unknown \<Rightarrow> Err ''unsupported COMDAT symbol kind'')"

fun comdat_sections :: "out_section list \<Rightarrow> nat \<Rightarrow> section_id list \<Rightarrow> CoffSectionOffsets list \<Rightarrow>
    (CoffSectionOffsets list, string) result" where
  "comdat_sections ss comdat_section [] offsets = Ok offsets"
| "comdat_sections ss comdat_section (i # is) offsets =
    and_then (index_list ss i) (\<lambda>sec.
    if osec_symbol sec = None then Err ''missing symbol for COMDAT section''
    else if i \<noteq> comdat_section then
      and_then (index_list offsets i) (\<lambda>old.
      and_then (word_add (word_of_nat comdat_section) 1) (\<lambda>n.
      comdat_sections ss comdat_section is
        (offsets[i := old\<lparr>cso_selection := IMAGE_COMDAT_SELECT_ASSOCIATIVE, cso_associative_section := n\<rparr>])))
    else comdat_sections ss comdat_section is offsets)"

fun comdat_flags :: "out_object \<Rightarrow> out_comdat list \<Rightarrow> CoffSectionOffsets list \<Rightarrow>
    (CoffSectionOffsets list, string) result" where
  "comdat_flags self [] offsets = Ok offsets"
| "comdat_flags self (comdat # rest) offsets =
    and_then (Object_symbol (oc_symbol comdat) self) (\<lambda>symbol.
    case os_section symbol of
      SS_Section comdat_section \<Rightarrow>
        and_then (comdat_selection (oc_kind comdat)) (\<lambda>selection.
        and_then (index_list offsets comdat_section) (\<lambda>old.
        and_then (comdat_sections (obj_sections self) comdat_section (oc_sections comdat)
          (offsets[comdat_section := old\<lparr>cso_selection := selection\<rparr>])) (\<lambda>offsets.
        comdat_flags self rest offsets)))
    | _ \<Rightarrow> Err ''unsupported COMDAT symbol section'')"

section \<open>Weak symbols\<close>

definition defined_external_symbol :: "out_symbol \<Rightarrow> bool" where
  "defined_external_symbol symbol \<longleftrightarrow>
    \<not> os_weak symbol \<and> (os_scope symbol = Scope_Linkage \<or> os_scope symbol = Scope_Dynamic) \<and>
    (SymbolSection_id (os_section symbol) \<noteq> None \<or> os_section symbol = SS_Absolute)"

definition in_comdat :: "out_object \<Rightarrow> section_id \<Rightarrow> bool" where
  "in_comdat self i \<longleftrightarrow> i \<in> set (concat (map oc_sections (obj_comdats self)))"

text \<open>
  The name that makes the names of the default symbols unique: the first external symbol that is
  defined outside the COMDAT sections, or else one defined in a section; empty if there is none.
\<close>

definition weak_default_unique_name :: "out_object \<Rightarrow> bytes" where
  "weak_default_unique_name self =
    (let candidates = filter defined_external_symbol (obj_symbols self);
         name = (case find (\<lambda>symbol. case os_section symbol of
             SS_Section i \<Rightarrow> \<not> in_comdat self i | _ \<Rightarrow> True) candidates of
           Some symbol \<Rightarrow> os_name symbol | None \<Rightarrow> [])
     in if name = [] then
          (case find (\<lambda>symbol. SymbolSection_id (os_section symbol) \<noteq> None) candidates of
             Some symbol \<Rightarrow> os_name symbol | None \<Rightarrow> [])
        else name)"

definition weak_default_name :: "out_object \<Rightarrow> out_symbol \<Rightarrow> bytes" where
  "weak_default_name self symbol =
    ascii ''.weak.'' @ os_name symbol @
    (if weak_default_unique_name self = [] then [] else 0x2e # weak_default_unique_name self)"

section \<open>Symbol indices\<close>

definition reserve_symbol :: "'s index_set_ops \<Rightarrow> out_object \<Rightarrow> out_symbol \<Rightarrow>
    ('s, CoffSymbolOffsets option \<times> CoffSymbolOffsets) coff_op" where
  "reserve_symbol ix self symbol =
    state_then (if os_weak symbol
      then state_then (CoffWriter_add_name ix (weak_default_name self symbol)) (\<lambda>name.
        state_then CoffWriter_reserve_symbol_index (\<lambda>index.
        state_lift (Ok (Some \<lparr>cyo_name = name, cyo_index = index, cyo_aux_count = 0\<rparr>))))
      else state_lift (Ok None)) (\<lambda>weak.
    state_then CoffWriter_reserve_symbol_index (\<lambda>index.
    state_then (if os_weak symbol
        then state_then CoffWriter_reserve_aux_weak_external (\<lambda>n. state_lift (Ok (n, os_name symbol)))
        else if os_kind symbol = SymK_File
        then state_then (CoffWriter_reserve_aux_file_name (os_name symbol)) (\<lambda>n.
          state_lift (Ok (n, ascii ''.file'')))
        else if os_kind symbol = SymK_Section \<and> SymbolSection_id (os_section symbol) \<noteq> None
        then state_then CoffWriter_reserve_aux_section (\<lambda>n. state_lift (Ok (n, os_name symbol)))
        else state_lift (Ok (0, os_name symbol))) (\<lambda>(aux_count, name).
    state_then (CoffWriter_add_name ix name) (\<lambda>name.
    state_lift (Ok (weak, \<lparr>cyo_name = name, cyo_index = index, cyo_aux_count = aux_count\<rparr>))))))"

section \<open>File ranges\<close>

definition reserve_section_ranges :: "(out_section \<times> CoffSectionOffsets) list \<Rightarrow> ('s, CoffSectionOffsets list) coff_op" where
  "reserve_section_ranges =
    for_each (\<lambda>(sec, offsets).
      state_then (CoffWriter_reserve_section (length (osec_data sec))) (\<lambda>offset.
      state_then (CoffWriter_reserve_relocations (length (osec_relocations sec))) (\<lambda>reloc_offset.
      state_lift (Ok (offsets\<lparr>cso_offset := offset, cso_reloc_offset := reloc_offset\<rparr>)))))"

section \<open>Headers\<close>

definition coff_machine :: "out_object \<Rightarrow> (u16, string) result" where
  "coff_machine self =
    (case (obj_architecture self, obj_sub_architecture self) of
       (Arm, None) \<Rightarrow> Ok IMAGE_FILE_MACHINE_ARMNT
     | (Aarch64, None) \<Rightarrow> Ok IMAGE_FILE_MACHINE_ARM64
     | (Aarch64, Some Arm64EC) \<Rightarrow> Ok IMAGE_FILE_MACHINE_ARM64EC
     | (I386, None) \<Rightarrow> Ok IMAGE_FILE_MACHINE_I386
     | (X86_64, None) \<Rightarrow> Ok IMAGE_FILE_MACHINE_AMD64
     | (PowerPc, None) \<Rightarrow> Ok (if obj_endian self = Little then IMAGE_FILE_MACHINE_POWERPC else IMAGE_FILE_MACHINE_POWERPCBE)
     | (PowerPc64, None) \<Rightarrow> Ok (if obj_endian self = Little then IMAGE_FILE_MACHINE_POWERPC else IMAGE_FILE_MACHINE_POWERPCBE)
     | _ \<Rightarrow> Err ''unimplemented architecture with sub-architecture'')"

definition coff_align_flags :: "u64 \<Rightarrow> (u32, string) result" where
  "coff_align_flags align =
    (if align = 1 then Ok IMAGE_SCN_ALIGN_1BYTES
     else if align = 2 then Ok IMAGE_SCN_ALIGN_2BYTES
     else if align = 4 then Ok IMAGE_SCN_ALIGN_4BYTES
     else if align = 8 then Ok IMAGE_SCN_ALIGN_8BYTES
     else if align = 16 then Ok IMAGE_SCN_ALIGN_16BYTES
     else if align = 32 then Ok IMAGE_SCN_ALIGN_32BYTES
     else if align = 64 then Ok IMAGE_SCN_ALIGN_64BYTES
     else if align = 128 then Ok IMAGE_SCN_ALIGN_128BYTES
     else if align = 256 then Ok IMAGE_SCN_ALIGN_256BYTES
     else if align = 512 then Ok IMAGE_SCN_ALIGN_512BYTES
     else if align = 1024 then Ok IMAGE_SCN_ALIGN_1024BYTES
     else if align = 2048 then Ok IMAGE_SCN_ALIGN_2048BYTES
     else if align = 4096 then Ok IMAGE_SCN_ALIGN_4096BYTES
     else if align = 8192 then Ok IMAGE_SCN_ALIGN_8192BYTES
     else Err ''unimplemented section align'')"

definition section_characteristics :: "out_object \<Rightarrow> out_section \<Rightarrow> CoffSectionOffsets \<Rightarrow> (u32, string) result" where
  "section_characteristics self sec offsets =
    (case Object_section_flags self sec of
      SecF_Coff characteristics \<Rightarrow>
        and_then (coff_align_flags (osec_align sec)) (\<lambda>align.
        Ok (characteristics
          OR (if cso_selection offsets \<noteq> 0 then IMAGE_SCN_LNK_COMDAT else 0)
          OR (if length (osec_relocations sec) > 0xffff then IMAGE_SCN_LNK_NRELOC_OVFL else 0)
          OR align))
    | _ \<Rightarrow> Err ''unimplemented section kind'')"

definition write_section_header1 :: "out_object \<Rightarrow> out_section \<times> CoffSectionOffsets \<Rightarrow> ('s, unit) coff_op" where
  "write_section_header1 self = (\<lambda>(sec, offsets).
    state_then (state_lift (section_characteristics self sec offsets)) (\<lambda>characteristics.
    CoffWriter_write_section_header
      \<lparr>csh_name = cso_name offsets, csh_size_of_raw_data = ucast (osec_size sec),
       csh_pointer_to_raw_data = cso_offset offsets,
       csh_pointer_to_relocations = cso_reloc_offset offsets, csh_pointer_to_linenumbers = 0,
       csh_number_of_relocations = word_of_nat (length (osec_relocations sec)),
       csh_number_of_linenumbers = 0, csh_characteristics = characteristics\<rparr>))"

section \<open>Data and relocations\<close>

definition write_relocation1 :: "CoffSymbolOffsets list \<Rightarrow> out_relocation \<Rightarrow> ('s, unit) coff_op" where
  "write_relocation1 symbol_offsets reloc =
    (case or_flags reloc of
       RF_Coff typ \<Rightarrow>
         state_then (state_lift (index_list symbol_offsets (or_symbol reloc))) (\<lambda>offsets.
         CoffWriter_write_relocation
           \<lparr>ir_virtual_address = ucast (or_offset reloc), ir_symbol_table_index = cyo_index offsets, ir_typ = typ\<rparr>)
     | _ \<Rightarrow> state_lift (Err ''invalid relocation flags''))"

definition write_section_contents :: "CoffSymbolOffsets list \<Rightarrow> out_section \<Rightarrow> ('s, unit) coff_op" where
  "write_section_contents symbol_offsets sec =
    state_then (CoffWriter_write_section (osec_data sec)) (\<lambda>_.
    if osec_relocations sec \<noteq> [] then
      state_then (CoffWriter_write_relocations_count (length (osec_relocations sec))) (\<lambda>_.
      state_then (for_each (write_relocation1 symbol_offsets) (osec_relocations sec)) (\<lambda>_.
      state_lift (Ok ())))
    else state_lift (Ok ()))"

section \<open>Symbols\<close>

definition coff_section_number :: "out_symbol \<Rightarrow> (u16, string) result" where
  "coff_section_number symbol =
    (if os_weak symbol then Ok (ucast IMAGE_SYM_UNDEFINED)
     else case os_section symbol of
       SS_None \<Rightarrow> debug_assert (os_kind symbol = SymK_File) (Ok (ucast IMAGE_SYM_DEBUG))
     | SS_Undefined \<Rightarrow> Ok (ucast IMAGE_SYM_UNDEFINED)
     | SS_Absolute \<Rightarrow> Ok (ucast IMAGE_SYM_ABSOLUTE)
     | SS_Common \<Rightarrow> Ok (ucast IMAGE_SYM_UNDEFINED)
     | SS_Section i \<Rightarrow> word_add (word_of_nat i) 1)"

definition coff_symbol_type :: "out_symbol \<Rightarrow> u16" where
  "coff_symbol_type symbol =
    (if os_kind symbol = SymK_Text then push_bit N_BTSHFT IMAGE_SYM_DTYPE_FUNCTION else IMAGE_SYM_TYPE_NULL)"

definition coff_storage_class :: "out_symbol \<Rightarrow> (u8, string) result" where
  "coff_storage_class symbol =
    (if os_weak symbol then Ok IMAGE_SYM_CLASS_WEAK_EXTERNAL
     else case os_kind symbol of
       SymK_File \<Rightarrow> Ok IMAGE_SYM_CLASS_FILE
     | SymK_Section \<Rightarrow>
         Ok (if SymbolSection_id (os_section symbol) \<noteq> None then IMAGE_SYM_CLASS_STATIC else IMAGE_SYM_CLASS_SECTION)
     | SymK_Label \<Rightarrow> Ok IMAGE_SYM_CLASS_LABEL
     | SymK_Unknown \<Rightarrow>
         if os_section symbol = SS_Undefined then Ok IMAGE_SYM_CLASS_EXTERNAL
         else Err ''unimplemented symbol kind''
     | _ \<Rightarrow>
         (case os_section symbol of
            SS_None \<Rightarrow> Err ''missing section for symbol''
          | SS_Undefined \<Rightarrow> Ok IMAGE_SYM_CLASS_EXTERNAL
          | SS_Common \<Rightarrow> Ok IMAGE_SYM_CLASS_EXTERNAL
          | _ \<Rightarrow>
              (case os_scope symbol of
                 Scope_Unknown \<Rightarrow> Err ''unimplemented symbol scope''
               | Scope_Compilation \<Rightarrow> Ok IMAGE_SYM_CLASS_STATIC
               | _ \<Rightarrow> Ok IMAGE_SYM_CLASS_EXTERNAL)))"

definition coff_symbol_value :: "out_symbol \<Rightarrow> u32" where
  "coff_symbol_value symbol =
    (if os_weak symbol then 0
     else if os_section symbol = SS_Common then ucast (os_size symbol)
     else ucast (os_value symbol))"

definition write_weak_default :: "out_symbol \<Rightarrow> CoffSymbolOffsets option \<Rightarrow> ('s, unit) coff_op" where
  "write_weak_default symbol weak =
    (if os_weak symbol then
       state_then (state_lift (unwrap weak)) (\<lambda>weak.
       state_then (state_lift (case os_section symbol of
           SS_Section i \<Rightarrow> word_add (word_of_nat i) 1
         | SS_Undefined \<Rightarrow> Ok (ucast IMAGE_SYM_ABSOLUTE)
         | _ \<Rightarrow> Err ''invalid symbol section for weak external'')) (\<lambda>number.
       CoffWriter_write_symbol
         \<lparr>csy_name = cyo_name weak, csy_value = ucast (os_value symbol), csy_section_number = number,
          csy_typ = 0, csy_storage_class = IMAGE_SYM_CLASS_EXTERNAL, csy_number_of_aux_symbols = 0\<rparr>))
     else state_lift (Ok ()))"

definition coff_checksum :: "(u32 \<Rightarrow> bytes \<Rightarrow> u32) \<Rightarrow> bytes \<Rightarrow> u32" where
  "coff_checksum crc data = NOT (crc 0xffffffff data)"

definition write_aux_symbols :: "(u32 \<Rightarrow> bytes \<Rightarrow> u32) \<Rightarrow> out_object \<Rightarrow> CoffSectionOffsets list \<Rightarrow> out_symbol \<Rightarrow>
    CoffSymbolOffsets option \<Rightarrow> u8 \<Rightarrow> ('s, unit) coff_op" where
  "write_aux_symbols crc self section_offsets symbol weak aux_count =
    (if os_weak symbol then
       state_then (state_lift (unwrap weak)) (\<lambda>weak.
       CoffWriter_write_aux_weak_external
         \<lparr>iaw_default_sym_index = cyo_index weak, iaw_search_type = IMAGE_WEAK_EXTERN_SEARCH_ALIAS\<rparr>)
     else if os_kind symbol = SymK_File then CoffWriter_write_aux_file_name (os_name symbol) aux_count
     else case (os_kind symbol, SymbolSection_id (os_section symbol)) of
       (SymK_Section, Some i) \<Rightarrow>
         state_then (state_lift (debug_assert (aux_count = 1) (index_list (obj_sections self) i))) (\<lambda>sec.
         state_then (state_lift (if Section_is_bss sec then Ok 0
           else and_then (Section_data sec) (\<lambda>data. Ok (coff_checksum crc data)))) (\<lambda>check_sum.
         state_then (state_lift (index_list section_offsets i)) (\<lambda>offsets.
         CoffWriter_write_aux_section
           \<lparr>axs_length = ucast (osec_size sec),
            axs_number_of_relocations = word_of_nat (length (osec_relocations sec)),
            axs_number_of_linenumbers = 0, axs_check_sum = check_sum,
            axs_number = cso_associative_section offsets, axs_selection = cso_selection offsets\<rparr>)))
     | _ \<Rightarrow> state_lift (debug_assert (aux_count = 0) (Ok ())))"

definition write_symbol1 :: "(u32 \<Rightarrow> bytes \<Rightarrow> u32) \<Rightarrow> out_object \<Rightarrow> CoffSectionOffsets list \<Rightarrow>
    out_symbol \<times> CoffSymbolOffsets option \<times> CoffSymbolOffsets \<Rightarrow> ('s, unit) coff_op" where
  "write_symbol1 crc self section_offsets = (\<lambda>(symbol, weak, offsets).
    state_then (state_lift (if os_flags symbol = SymF_None then Ok () else Err ''unimplemented symbol kind'')) (\<lambda>_.
    state_then (state_lift (coff_section_number symbol)) (\<lambda>section_number.
    state_then (state_lift (coff_storage_class symbol)) (\<lambda>storage_class.
    state_then (write_weak_default symbol weak) (\<lambda>_.
    state_then (CoffWriter_write_symbol
      \<lparr>csy_name = cyo_name offsets, csy_value = coff_symbol_value symbol,
       csy_section_number = section_number, csy_typ = coff_symbol_type symbol,
       csy_storage_class = storage_class, csy_number_of_aux_symbols = cyo_aux_count offsets\<rparr>) (\<lambda>_.
    write_aux_symbols crc self section_offsets symbol weak (cyo_aux_count offsets)))))))"

section \<open>The file\<close>

text \<open>The first phase, up to the last reservation, and the second one.\<close>

definition coff_reserve :: "'s index_set_ops \<Rightarrow> out_object \<Rightarrow>
    ('s, CoffSectionOffsets list \<times> (CoffSymbolOffsets option \<times> CoffSymbolOffsets) list) coff_op" where
  "coff_reserve ix self =
    state_then (add_section_names ix (obj_sections self)) (\<lambda>offsets.
    state_then (state_lift (comdat_flags self (obj_comdats self) offsets)) (\<lambda>offsets.
    state_then (for_each (reserve_symbol ix self) (obj_symbols self)) (\<lambda>symbol_offsets.
    state_then CoffWriter_reserve_file_header (\<lambda>_.
    state_then (CoffWriter_reserve_section_headers (word_of_nat (length (obj_sections self)))) (\<lambda>_.
    state_then (reserve_section_ranges (zip (obj_sections self) offsets)) (\<lambda>offsets.
    state_then (CoffWriter_reserve_symtab_strtab ix) (\<lambda>_.
    state_lift (Ok (offsets, symbol_offsets)))))))))"

definition coff_emit :: "(u32 \<Rightarrow> bytes \<Rightarrow> u32) \<Rightarrow> out_object \<Rightarrow> CoffSectionOffsets list \<Rightarrow>
    (CoffSymbolOffsets option \<times> CoffSymbolOffsets) list \<Rightarrow> ('s, unit) coff_op" where
  "coff_emit crc self section_offsets symbol_offsets =
    state_then (state_lift (coff_machine self)) (\<lambda>machine.
    state_then (CoffWriter_write_file_header
      \<lparr>cfh_machine = machine, cfh_time_date_stamp = 0,
       cfh_characteristics = (case obj_flags self of FF_Coff characteristics \<Rightarrow> characteristics | _ \<Rightarrow> 0)\<rparr>) (\<lambda>_.
    state_then (for_each (write_section_header1 self) (zip (obj_sections self) section_offsets)) (\<lambda>_.
    state_then (for_each (write_section_contents (map snd symbol_offsets)) (obj_sections self)) (\<lambda>_.
    state_then (for_each (write_symbol1 crc self section_offsets) (zip (obj_symbols self) symbol_offsets)) (\<lambda>_.
    state_then CoffWriter_write_strtab (\<lambda>_.
    coff_assert (\<lambda>w. CoffWriter_reserved_len w = CoffWriter_len w)))))))"

definition coff_write :: "(u32 \<Rightarrow> bytes \<Rightarrow> u32) \<Rightarrow> 's index_set_ops \<Rightarrow> out_object \<Rightarrow> ('s, unit) coff_op" where
  "coff_write crc ix self =
    state_then (coff_reserve ix self) (\<lambda>(section_offsets, symbol_offsets).
    coff_emit crc self section_offsets symbol_offsets)"

text \<open>\<^verbatim>\<open>Object::write\<close> for the format: the bytes of the file.\<close>

definition coff_file_bytes :: "(u32 \<Rightarrow> bytes \<Rightarrow> u32) \<Rightarrow> 's index_set_ops \<Rightarrow> out_object \<Rightarrow> (bytes, string) result" where
  "coff_file_bytes crc ix self =
    (case coff_write crc ix self (CoffWriter_new ix Vec_new) of
       (r, w) \<Rightarrow> and_then r (\<lambda>_. Ok (vb_bytes (cw_buffer w))))"

end
