(* ===== verification/Coff_Relocation.thy ===== *)
theory Coff_Relocation
  imports Coff_File Coff_Object
begin

text \<open>
  The relocations of the COFF object writer as the reader sees them: the types that
  \<^verbatim>\<open>coff_translate_relocation\<close> chooses against the tables of \<^verbatim>\<open>CoffRelocationIterator\<close>.
\<close>

text \<open>What a relocation type means to the reader, for the kind, encoding and size it was chosen for.\<close>

definition coff_reads_back :: "u16 \<Rightarrow> relocation_kind \<Rightarrow> relocation_encoding \<Rightarrow> u8 \<Rightarrow> u16 \<Rightarrow> i64 \<Rightarrow> bool" where
  "coff_reads_back machine kind encoding sz typ offset \<longleftrightarrow>
    coff_relocation_info machine typ = (kind, encoding, sz, - offset)"

text \<open>
  The encoding that the file can express: that of a branch of AArch64, which has 26 bits. The writer
  ignores the encoding of all other relocations.
\<close>

definition coff_encoding :: "architecture \<Rightarrow> relocation_encoding \<Rightarrow> u8 \<Rightarrow> relocation_encoding" where
  "coff_encoding architecture encoding sz = (if architecture = Aarch64 \<and> sz = 26 then encoding else E_Generic)"

text \<open>The addend that \<^verbatim>\<open>coff_adjust_addend\<close> adds for a type, by machine.\<close>

definition addend_offset :: "architecture \<Rightarrow> u16 \<Rightarrow> i64" where
  "addend_offset architecture typ =
    (case coff_adjust_addend architecture \<lparr>or_offset = 0, or_symbol = 0, or_addend = 0, or_flags = RF_Coff typ\<rparr> of
       Ok (_, r) \<Rightarrow> or_addend r
     | _ \<Rightarrow> 0)"

lemma i64_add_eq_Ok: "i64_add a b = Ok c \<Longrightarrow> c = a + b"
  by (auto simp: i64_add_def split: if_splits)

lemma i64_add_0 [simp]: "i64_add 0 b = Ok b"
  using sint_lt [of b] sint_ge [of b] by (simp add: i64_add_def)

lemma coff_machine_cases:
  assumes "coff_machine self = Ok machine" "coff_reloc_type (obj_architecture self) kind encoding sz addend = Ok typ"
  shows "(obj_architecture self = Arm \<and> machine = IMAGE_FILE_MACHINE_ARMNT) \<or>
    (obj_architecture self = Aarch64 \<and> (machine = IMAGE_FILE_MACHINE_ARM64 \<or> machine = IMAGE_FILE_MACHINE_ARM64EC)) \<or>
    (obj_architecture self = I386 \<and> machine = IMAGE_FILE_MACHINE_I386) \<or>
    (obj_architecture self = X86_64 \<and> machine = IMAGE_FILE_MACHINE_AMD64)"
  using assms
  by (cases "obj_architecture self"; cases "obj_sub_architecture self")
    (auto simp: coff_machine_def coff_reloc_type_def split: sub_architecture.splits)

lemma coff_info_i386:
  "coff_reloc_type I386 kind encoding sz addend = Ok typ \<Longrightarrow>
    coff_reads_back IMAGE_FILE_MACHINE_I386 kind (coff_encoding I386 encoding sz) sz typ (addend_offset I386 typ)"
  by (auto simp: coff_reloc_type_def coff_reads_back_def coff_relocation_info_def addend_offset_def coff_encoding_def
      coff_adjust_addend_def Let_def split: if_splits)

lemma coff_info_arm:
  "coff_reloc_type Arm kind encoding sz addend = Ok typ \<Longrightarrow>
    coff_reads_back IMAGE_FILE_MACHINE_ARMNT kind (coff_encoding Arm encoding sz) sz typ (addend_offset Arm typ)"
  by (auto simp: coff_reloc_type_def coff_reads_back_def coff_relocation_info_def addend_offset_def coff_encoding_def
      coff_adjust_addend_def Let_def split: if_splits)

lemma coff_info_arm64:
  "coff_reloc_type Aarch64 kind encoding sz addend = Ok typ \<Longrightarrow>
    machine = IMAGE_FILE_MACHINE_ARM64 \<or> machine = IMAGE_FILE_MACHINE_ARM64EC \<Longrightarrow>
    coff_reads_back machine kind (coff_encoding Aarch64 encoding sz) sz typ (addend_offset Aarch64 typ)"
  by (elim disjE; auto simp: coff_reloc_type_def coff_reads_back_def coff_relocation_info_def addend_offset_def coff_encoding_def
      coff_adjust_addend_def Let_def split: if_splits)

lemma coff_info_amd64:
  "coff_reloc_type X86_64 kind encoding sz addend = Ok typ \<Longrightarrow>
    coff_reads_back IMAGE_FILE_MACHINE_AMD64 kind (coff_encoding X86_64 encoding sz) sz typ (addend_offset X86_64 typ)"
  by (auto simp: coff_reloc_type_def coff_reads_back_def coff_relocation_info_def addend_offset_def coff_encoding_def
      coff_adjust_addend_def Let_def split: if_splits)

lemma coff_adjust_addend_offset:
  assumes "coff_adjust_addend architecture r = Ok (implicit, r')" "or_flags r = RF_Coff typ"
  shows "implicit \<and> r' = r\<lparr>or_addend := or_addend r + addend_offset architecture typ\<rparr>"
  using assms
  by (cases architecture)
    (auto simp: coff_adjust_addend_def addend_offset_def and_then_eq_Ok dest!: i64_add_eq_Ok split: if_splits)

section \<open>Properties\<close>

text \<open>C39: The COFF type that the object writer chooses for a relocation is classified by the reader as the same kind and size; the encoding is read back for the 26-bit branches of AArch64 and is generic for all other types, as the format does not record it; and the addend that the writer stores with the addend that the reader adds is the original addend.\<close>

theorem coff_relocations_read_back:
  assumes "coff_machine self = Ok machine"
    and "coff_reloc_type (obj_architecture self) kind encoding sz (or_addend r) = Ok typ"
    and "coff_adjust_addend (obj_architecture self) (r\<lparr>or_flags := RF_Coff typ\<rparr>) = Ok (implicit, r')"
  shows "\<exists>a. coff_relocation_info machine typ = (kind, coff_encoding (obj_architecture self) encoding sz, sz, a) \<and>
    implicit \<and> or_addend r' + a = or_addend r"
proof -
  have "coff_reads_back machine kind (coff_encoding (obj_architecture self) encoding sz) sz typ
      (addend_offset (obj_architecture self) typ)"
    using coff_machine_cases [OF assms(1,2)] assms(2) coff_info_i386 coff_info_arm coff_info_arm64 coff_info_amd64
    by metis
  moreover have "implicit" "or_addend r' = or_addend r + addend_offset (obj_architecture self) typ"
    using coff_adjust_addend_offset [OF assms(3)] by simp_all
  ultimately show ?thesis by (simp add: coff_reads_back_def)
qed

text \<open>A branch of AArch64.\<close>

theorem coff_relocations_read_back_witness:
  "coff_reloc_type Aarch64 K_Relative E_AArch64Call 26 8 = Ok IMAGE_REL_ARM64_BRANCH26 \<and>
    coff_relocation_info IMAGE_FILE_MACHINE_ARM64 IMAGE_REL_ARM64_BRANCH26 = (K_Relative, E_AArch64Call, 26, 0)"
  using coff_relocations_read_back [of "Object_new BF_Coff Aarch64 Little" IMAGE_FILE_MACHINE_ARM64 K_Relative E_AArch64Call 26
      "\<lparr>or_offset = 0, or_symbol = 0, or_addend = 8, or_flags = RF_Coff 0\<rparr>" IMAGE_REL_ARM64_BRANCH26 True
      "\<lparr>or_offset = 0, or_symbol = 0, or_addend = 8, or_flags = RF_Coff IMAGE_REL_ARM64_BRANCH26\<rparr>"]
  by (simp add: coff_machine_def Object_new_def coff_reloc_type_def coff_adjust_addend_def coff_encoding_def i64_add_def)

end
