(* ===== verification/Spec2Isabelle.thy ===== *)
theory Spec2Isabelle
  imports
    Prelude Struct_Fields Endian Pod Read_Ref Read_Util Write_Util Leb128 String_Table
    Elf_Types Elf_Writer Elf_Writer_Symbols Elf_Writer_Dynamic Elf_Writer_Sections
    Elf_Reader Elf_Layout Elf_Class Elf_Files Elf_Version Elf_Hash Elf_Gnu_Hash
    Iterators Elf_Notes Elf_Attributes Common Elf_Relocation_Types Elf_Relocation_Round_Trip
    Elf_Crel Elf_Relocation Read_Common
    Read_Cache Archive Stateful
    Object_Types Object_Formats Object_Writer Object_Invariant Object_Properties
    Coff_Types Coff_Reader Coff_File Coff_Safety Coff_Writer Coff_Object Coff_Relocation
begin

text \<open>
  A model of the Rust crate \<^verbatim>\<open>object\<close>, which reads and writes object files: what the writers emit and
  what the readers find. Paths are relative to \<^verbatim>\<open>src/src/\<close>.

  \<^bold>\<open>Conventions.\<close> The target has 64-bit addresses and the build is the debug profile with the default
  features: a failed \<^verbatim>\<open>debug_assert!\<close>, an arithmetic overflow, \<^verbatim>\<open>unwrap\<close> of \<^verbatim>\<open>None\<close> and an index out
  of range are the value \<open>Panic\<close> of the type \<open>result\<close>, whose other values are \<open>Ok\<close> and \<open>Err\<close>. A
  \<^verbatim>\<open>usize\<close> is a \<open>nat\<close> with the bound written out (\<open>usize_add\<close> etc.), a fixed-width integer is a word.
  A method with \<^verbatim>\<open>&mut self\<close> returns the new state. A structure in a file is its memory image, a list
  of bytes, and its accessors are the fields of the decoded image. Third-party code is a parameter:
  \<^verbatim>\<open>memchr\<close> (with the law \<open>memchr_spec\<close>), \<^verbatim>\<open>indexmap::IndexSet\<close> (the operations \<open>index_set_ops\<close> with
  the laws \<open>index_set_laws\<close>), \<^verbatim>\<open>crc32fast\<close> (the function \<open>crc\<close> of the initial value and the data) and the
  \<^verbatim>\<open>io::Write\<close> below a streaming buffer (the locale \<open>sink\<close>).

  \<^bold>\<open>Theories.\<close>
    \<^item> \<open>Prelude\<close>: results, checked arithmetic, byte strings of numbers, slices of lists. \<open>Stateful\<close>:
      operations on a state that may fail, with the rules of a total and a partial Hoare logic.
    \<^item> \<open>Endian\<close> (\<^verbatim>\<open>endian.rs\<close>), \<open>Pod\<close> (\<^verbatim>\<open>pod.rs\<close>), \<open>Read_Ref\<close> (\<^verbatim>\<open>read/read_ref.rs\<close>), \<open>Read_Util\<close>
      (\<^verbatim>\<open>read/util.rs\<close>), \<open>Write_Util\<close> (\<^verbatim>\<open>write/util.rs\<close>): the layer below the formats; \<open>Leb128\<close> relates
      the LEB128 writers to the readers.
    \<^item> \<open>String_Table\<close> (\<^verbatim>\<open>write/string.rs\<close>): the string table writer, its sort and its merging of
      suffixes, and reading a string back.
    \<^item> \<open>Struct_Fields\<close>: the round trip of the fields of a structure.
    \<^item> \<open>Elf_Types\<close> (\<^verbatim>\<open>elf.rs\<close>): the structures and their images.
    \<^item> \<open>Elf_Writer\<close>, \<open>Elf_Writer_Symbols\<close>, \<open>Elf_Writer_Dynamic\<close>, \<open>Elf_Writer_Sections\<close>
      (\<^verbatim>\<open>write/elf/writer.rs\<close>): every operation of \<^verbatim>\<open>Writer\<close> and \<^verbatim>\<open>AttributesWriter\<close>.
    \<^item> \<open>Elf_Reader\<close> (\<^verbatim>\<open>read/elf/file.rs\<close>, \<^verbatim>\<open>section.rs\<close>, \<^verbatim>\<open>symbol.rs\<close>): the low-level reader.
    \<^item> \<open>Elf_Layout\<close>: the reservation phase and the write phase of the writer agree; \<open>Elf_Class\<close>: the
      contract between the images of the writer and the reader, for both file classes; \<open>Elf_Files\<close>:
      a whole file written by a client and read back.

    \<^item> \<open>Elf_Version\<close> (\<^verbatim>\<open>read/elf/version.rs\<close>), \<open>Elf_Hash\<close> and \<open>Elf_Gnu_Hash\<close>
      (\<^verbatim>\<open>read/elf/hash.rs\<close>), \<open>Elf_Notes\<close> (\<^verbatim>\<open>read/elf/note.rs\<close>), \<open>Elf_Attributes\<close>
      (\<^verbatim>\<open>read/elf/attributes.rs\<close>): the readers of the special sections; \<open>Iterators\<close> is the contract of
      their iterators over variable-length records. The hash tables and the attributes of the writer
      are read back; the iterators end on every input.
    \<^item> \<open>Common\<close> (\<^verbatim>\<open>common.rs\<close>): the enumerations that the formats share. \<open>Elf_Relocation_Types\<close>
      (\<^verbatim>\<open>read/elf/relocation.rs\<close>, \<^verbatim>\<open>write/elf/object.rs\<close>): the relocation tables of the reader and the
      object writer, which \<open>Elf_Relocation_Round_Trip\<close> compares.
      \<open>Elf_Crel\<close> (\<^verbatim>\<open>read/elf/relocation.rs\<close>): relocation entries, the iterators over compact
      (\<^verbatim>\<open>SHT_CREL\<close>) and relative (\<^verbatim>\<open>SHT_RELR\<close>) relocations, against a reference encoder and expansion.
      \<open>Elf_Relocation\<close> (same file, and \<^verbatim>\<open>ElfFile\<close> of \<^verbatim>\<open>read/elf/file.rs\<close>): the map from sections to
      their relocation sections, and the iterators that follow it; they end on every file, and return
      the relocations of exactly the sections they should.
    \<^item> \<open>Read_Common\<close> (\<^verbatim>\<open>read/mod.rs\<close>): detection of the file kind, the symbol map, the object map, the
      relocation map and the ranges of compressed data.
    \<^item> \<open>Read_Cache\<close> (\<^verbatim>\<open>read/read_cache.rs\<close>): reading from a stream. The locales \<open>read_stream\<close> and
      \<open>reliable_stream\<close> are the contract of a stream, \<open>read_ref\<close> that of \<^verbatim>\<open>ReadRef\<close>; the slice, the cache
      and its ranges are shown to keep it.

    \<^item> \<open>Archive\<close> (\<^verbatim>\<open>read/archive.rs\<close>, \<^verbatim>\<open>archive.rs\<close>): static libraries. No input makes the reader
      panic or loop; the output of a reference writer (\<open>archive_image\<close>) is read back, and its symbol
      table leads to the members.

    \<^item> \<open>Object_Types\<close>, \<open>Object_Writer\<close> (\<^verbatim>\<open>write/mod.rs\<close>): the object that a client builds, with every
      operation that changes it; \<open>Object_Formats\<close> (\<^verbatim>\<open>write/elf/object.rs\<close>, \<^verbatim>\<open>write/coff/object.rs\<close>,
      \<^verbatim>\<open>write/macho.rs\<close>, \<^verbatim>\<open>write/xcoff.rs\<close>): the rules of the formats for sections, symbols, relocations
      and addends. \<open>Object_Invariant\<close>: every operation keeps the ids and the links of an object;
      \<open>object_step\<close> is the relation of its states. \<open>Object_Properties\<close>: what follows for clients.

    \<^item> \<open>Coff_Types\<close> (\<^verbatim>\<open>pe.rs\<close>): the structures of a COFF object. \<open>Coff_Reader\<close> (\<^verbatim>\<open>read/coff/file.rs\<close>,
      \<^verbatim>\<open>section.rs\<close>, \<^verbatim>\<open>symbol.rs\<close>): headers (both kinds), the section table, the symbol table and the
      string table. \<open>Coff_File\<close> (same files, \<^verbatim>\<open>relocation.rs\<close>, \<^verbatim>\<open>comdat.rs\<close>): the unified read API on them.
      \<open>Coff_Safety\<close>: no accessor panics on a file that parses, and the iterators of symbols, COMDATs and
      their sections end.
    \<^item> \<open>Coff_Writer\<close> (\<^verbatim>\<open>write/coff/writer.rs\<close>): every operation of \<^verbatim>\<open>Writer\<close>. \<open>Coff_Object\<close>
      (\<^verbatim>\<open>write/coff/object.rs\<close>): \<^verbatim>\<open>Object::coff_write\<close>, the file of an object that a client has built.
      \<open>Coff_Relocation\<close>: the relocations of a writer that keeps to the rules of the format are read back.

  \<^bold>\<open>Bounds.\<close> Whole files are below 4 GiB (\<open>specs_ok\<close>), which keeps every offset within 32 bits, so that
  the same client works for both file classes. No definition uses fuel: the loops are structural or
  have a measure, but for \<^verbatim>\<open>ElfSectionRelocationIterator::next\<close>, which is a partial function whose
  result \<open>None\<close> is not returning; the loops over iterators (\<open>exhaust\<close>) are too, and are proved to end.

  \<^bold>\<open>Not modelled.\<close> The iterators and trait wrappers of the unified read API for ELF, COFF import
  files, the formats PE, Mach-O, XCOFF and WebAssembly (but for the rules of the object writer), the
  emission of an ELF, Mach-O or XCOFF object and the builder. Memory allocation never fails. The
  constants of \<^verbatim>\<open>elf.rs\<close> and \<^verbatim>\<open>pe.rs\<close> are those the model uses.
\<close>

end
